(* ===== verification/Prelude.thy ===== *)
theory Prelude
  imports Main "HOL-Library.Word"
begin

text \<open>
  Shared vocabulary of the glueberry development: the Go data types the components use
  (bytes, peer identifiers, times, contexts, 64-bit integers), the result type of fallible
  operations, the generic interfaces (a transition system with an invariant, a component that
  can be closed) and the list, option and map lemmas that the component theories share.
\<close>

section \<open>Collections of simplification rules\<close>

named_theorems go_simps \<open>unfolding rules for the small Go idioms (contexts, results, wrapping)\<close>

named_theorems inv_intros \<open>preservation lemmas: one per operation that keeps an invariant\<close>

section \<open>Go data\<close>

type_synonym byte = "8 word"

type_synonym bytes = "byte list"

text \<open>\<^verbatim>\<open>peer.ID\<close> is a Go string holding the raw identifier.\<close>

type_synonym peer_id = string

text \<open>
  \<^verbatim>\<open>time.Time\<close> is the number of nanoseconds since Go's zero time, so that
  \<^verbatim>\<open>t.IsZero()\<close> is \<open>t = 0\<close>; \<^verbatim>\<open>time.Duration\<close> is a number of nanoseconds.
\<close>

type_synonym time_ns = int

type_synonym duration = int

definition second :: duration where
  "second = 1000000000"

text \<open>Go's \<^verbatim>\<open>int64\<close> arithmetic wraps in two's complement.\<close>

definition wrap64 :: "int \<Rightarrow> int" where
  "wrap64 x = (x + 2 ^ 63) mod 2 ^ 64 - 2 ^ 63"

text \<open>Go's integer division truncates towards zero.\<close>

definition quot :: "int \<Rightarrow> int \<Rightarrow> int" where
  "quot a b = sgn a * sgn b * (\<bar>a\<bar> div \<bar>b\<bar>)"

text \<open>A fallible operation returns an error on the left and its result on the right.\<close>

type_synonym ('e, 'a) result = "'e + 'a"

text \<open>
  A \<^verbatim>\<open>context.Context\<close> as one call sees it: the call polls \<^verbatim>\<open>ctx.Done()\<close> at numbered points,
  and a context that is done stays done. \<open>None\<close> is a context that is not cancelled during the
  call, as \<^verbatim>\<open>context.Background()\<close>.
\<close>

datatype ctx_err = Canceled | DeadlineExceeded

record ctx =
  done_at :: "nat option"
  ctxErr :: ctx_err

definition ctx_Done :: "ctx \<Rightarrow> nat \<Rightarrow> bool" where
  "ctx_Done c i = (case done_at c of None \<Rightarrow> False | Some k \<Rightarrow> k \<le> i)"

definition Background :: ctx where
  "Background = \<lparr>done_at = None, ctxErr = Canceled\<rparr>"

section \<open>Generic lemmas\<close>

lemma Background_not_done [simp]: "\<not> ctx_Done Background i"
  by (simp add: Background_def ctx_Done_def)

lemma ctx_Done_mono: "ctx_Done c i \<Longrightarrow> i \<le> j \<Longrightarrow> ctx_Done c j"
  by (auto simp: ctx_Done_def split: option.splits)

lemma ctx_Done_mono_Suc: "\<not> ctx_Done c (Suc i) \<Longrightarrow> \<not> ctx_Done c i"
  by (auto dest: ctx_Done_mono [of _ _ "Suc i"])

lemma wrap64_id: "- (2 ^ 63) \<le> x \<Longrightarrow> x < 2 ^ 63 \<Longrightarrow> wrap64 x = x"
  by (simp add: wrap64_def)

lemma wrap64_range: "- (2 ^ 63) \<le> wrap64 x \<and> wrap64 x < 2 ^ 63"
  using pos_mod_bound [of "2 ^ 64" "x + 2 ^ 63"] pos_mod_sign [of "2 ^ 64" "x + 2 ^ 63"]
  by (simp add: wrap64_def)

lemma quot_pos: "0 \<le> a \<Longrightarrow> 0 < b \<Longrightarrow> quot a b = a div b"
  by (cases "a = 0") (simp_all add: quot_def)

lemma abs_quot_le: "0 < b \<Longrightarrow> \<bar>quot a b\<bar> = \<bar>a\<bar> div b"
  by (cases "a = 0") (auto simp: quot_def abs_mult abs_sgn_eq pos_imp_zdiv_nonneg_iff)

lemma replicate_eq_iff_all: "xs = replicate (length xs) x \<longleftrightarrow> (\<forall>y \<in> set xs. y = x)"
  by (metis in_set_replicate replicate_eqI)

lemma take_append_take: "take n (take n xs @ ys) = take n (xs @ ys)"
  by (cases "length xs \<le> n") simp_all

lemma map_of_if_Some: "(if P then Some x else None) = Some y \<longleftrightarrow> P \<and> x = y"
  by simp

lemma restrict_map_dom_upd: "m k = Some v \<Longrightarrow> dom (m(k \<mapsto> w)) = dom m"
  by auto

section \<open>Interface: a transition system with an invariant\<close>

text \<open>
  The components below are state machines whose operations interleave. An operation is a label,
  \<open>step s l s'\<close> says that the operation \<open>l\<close> may take the component from \<open>s\<close> to \<open>s'\<close>. A provider
  shows that its invariant holds at the start and that every operation keeps it; the client lemma
  is that every run keeps it.
\<close>

inductive runs :: "('s \<Rightarrow> 'l \<Rightarrow> 's \<Rightarrow> bool) \<Rightarrow> 's \<Rightarrow> 'l list \<Rightarrow> 's \<Rightarrow> bool" for step where
  runs_nil: "runs step s [] s"
| runs_snoc: "runs step s ls s' \<Longrightarrow> step s' l s'' \<Longrightarrow> runs step s (ls @ [l]) s''"

lemma runs_cons:
  assumes "step s l s'" and "runs step s' ls s''"
  shows "runs step s (l # ls) s''"
  using assms(2,1)
proof (induction arbitrary: s rule: runs.induct)
  case (runs_nil s')
  then show ?case using runs.runs_snoc [OF runs.runs_nil, of step s l s'] by simp
next
  case (runs_snoc t ls s' l' s'')
  then have "runs step s (l # ls) s'" by blast
  then have "runs step s ((l # ls) @ [l']) s''" using runs_snoc.hyps(2) by (rule runs.runs_snoc)
  then show ?case by simp
qed

lemma runs_fold: "(\<And>s l. step s l (f l s)) \<Longrightarrow> runs step s ls (fold f ls s)"
proof (induction ls arbitrary: s)
  case Nil
  then show ?case by (simp add: runs.runs_nil)
next
  case (Cons l ls)
  then show ?case by (simp add: runs_cons [where step = step and s' = "f l s"])
qed

lemma runs_restrict:
  "runs step s ls s' \<Longrightarrow> \<forall>l \<in> set ls. P l \<Longrightarrow> runs (\<lambda>s l s'. step s l s' \<and> P l) s ls s'"
  by (induction rule: runs.induct) (auto intro: runs.intros)

locale invariant_system =
  fixes init :: "'s \<Rightarrow> bool"
    and step :: "'s \<Rightarrow> 'l \<Rightarrow> 's \<Rightarrow> bool"
    and inv :: "'s \<Rightarrow> bool"
  assumes inv_init: "init s \<Longrightarrow> inv s"
    and inv_step: "inv s \<Longrightarrow> step s l s' \<Longrightarrow> inv s'"
begin

lemma inv_runs: "runs step s ls s' \<Longrightarrow> inv s \<Longrightarrow> inv s'"
  by (induction rule: runs.induct) (auto intro: inv_step)

lemma inv_reachable: "init s \<Longrightarrow> runs step s ls s' \<Longrightarrow> inv s'"
  using inv_init inv_runs by blast

end

section \<open>Interface: a component that implements a specification\<close>

text \<open>
  \<open>abs\<close> maps the states of the component to those of the specification; every operation that \<open>covered\<close> admits is one the specification allows, with
  the same label (the call and its result). Then every run of such operations is a run of the specification.
\<close>

locale simulation =
  fixes abs :: "'s \<Rightarrow> 'a"
    and cstep :: "'s \<Rightarrow> 'l \<Rightarrow> 's \<Rightarrow> bool"
    and astep :: "'a \<Rightarrow> 'l \<Rightarrow> 'a \<Rightarrow> bool"
    and covered :: "'l \<Rightarrow> bool"
  assumes sim_step: "cstep s l s' \<Longrightarrow> covered l \<Longrightarrow> astep (abs s) l (abs s')"
begin

lemma sim_runs: "runs cstep s ls s' \<Longrightarrow> \<forall>l \<in> set ls. covered l \<Longrightarrow> runs astep (abs s) ls (abs s')"
  by (induction rule: runs.induct) (auto intro: runs.intros sim_step)

end

section \<open>Interface: a component that can be closed\<close>

text \<open>
  Several components have a \<^verbatim>\<open>Close\<close> method that may be called repeatedly and after which the
  component stays closed whatever operation is called. \<^verbatim>\<open>Close\<close> may panic (\<open>None\<close>) in a state that
  does not satisfy the component's invariant.
\<close>

locale closable =
  fixes inv :: "'s \<Rightarrow> bool"
    and is_closed :: "'s \<Rightarrow> bool"
    and close :: "'s \<Rightarrow> 's option"
    and step :: "'s \<Rightarrow> 'l \<Rightarrow> 's \<Rightarrow> bool"
  assumes close_closes: "inv s \<Longrightarrow> \<exists>s'. close s = Some s' \<and> is_closed s' \<and> inv s'"
    and close_again: "is_closed s \<Longrightarrow> close s = Some s"
    and step_inv: "inv s \<Longrightarrow> step s l s' \<Longrightarrow> inv s'"
    and step_keeps_closed: "inv s \<Longrightarrow> is_closed s \<Longrightarrow> step s l s' \<Longrightarrow> is_closed s'"
begin

lemma close_idem: "inv s \<Longrightarrow> close s = Some s' \<Longrightarrow> close s' = Some s'"
  using close_closes close_again by fastforce

lemma runs_keep_closed: "runs step s ls s' \<Longrightarrow> inv s \<Longrightarrow> is_closed s \<Longrightarrow> inv s' \<and> is_closed s'"
  by (induction rule: runs.induct) (auto intro: step_inv step_keeps_closed)

lemma closed_forever:
  assumes "inv s" and "close s = Some s'" and "runs step s' ls s''"
  shows "is_closed s'' \<and> close s'' = Some s''"
proof -
  have "inv s' \<and> is_closed s'" using close_closes [OF assms(1)] assms(2) by auto
  then have "is_closed s''" using runs_keep_closed [OF assms(3)] by blast
  then show ?thesis using close_again by blast
qed

end

end
