(* ===== verification/Runes.thy ===== *)
theory Runes
  imports Prelude
begin

text \<open>
  Go strings are byte sequences, and \<^verbatim>\<open>for i, r := range s\<close> decodes them as UTF-8: an ill-formed
  sequence yields the replacement rune with width one. This theory models that decoding, and the
  parts of \<^verbatim>\<open>unicode\<close> and \<^verbatim>\<open>fmt\<close> that classify runes. The tables of letters and digits beyond
  Latin-1 are data of the Unicode standard and a parameter.
\<close>

section \<open>UTF-8 decoding\<close>

definition RuneError :: nat where
  "RuneError = 0xFFFD"

definition cont_byte :: "nat \<Rightarrow> bool" where
  "cont_byte b = (0x80 \<le> b \<and> b \<le> 0xBF)"

text \<open>The range the second byte must lie in, for a first byte that starts a sequence.\<close>

definition accept_range :: "nat \<Rightarrow> nat \<times> nat" where
  "accept_range b0 =
     (if b0 = 0xE0 then (0xA0, 0xBF)
      else if b0 = 0xED then (0x80, 0x9F)
      else if b0 = 0xF0 then (0x90, 0xBF)
      else if b0 = 0xF4 then (0x80, 0x8F)
      else (0x80, 0xBF))"

definition in_range :: "nat \<times> nat \<Rightarrow> nat \<Rightarrow> bool" where
  "in_range r b = (fst r \<le> b \<and> b \<le> snd r)"

text \<open>\<^verbatim>\<open>utf8.DecodeRune\<close> on a non-empty input: the rune and its width.\<close>

fun DecodeRune :: "nat \<Rightarrow> nat list \<Rightarrow> nat \<times> nat" where
  "DecodeRune b0 bs =
     (if b0 < 0x80 then (b0, 1)
      else if 0xC2 \<le> b0 \<and> b0 \<le> 0xDF then
        (case bs of
           b1 # _ \<Rightarrow> if in_range (accept_range b0) b1
                     then ((b0 mod 32) * 64 + b1 mod 64, 2) else (RuneError, 1)
         | _ \<Rightarrow> (RuneError, 1))
      else if 0xE0 \<le> b0 \<and> b0 \<le> 0xEF then
        (case bs of
           b1 # b2 # _ \<Rightarrow> if in_range (accept_range b0) b1 \<and> cont_byte b2
                          then ((b0 mod 16) * 4096 + (b1 mod 64) * 64 + b2 mod 64, 3)
                          else (RuneError, 1)
         | _ \<Rightarrow> (RuneError, 1))
      else if 0xF0 \<le> b0 \<and> b0 \<le> 0xF4 then
        (case bs of
           b1 # b2 # b3 # _ \<Rightarrow>
             if in_range (accept_range b0) b1 \<and> cont_byte b2 \<and> cont_byte b3
             then ((b0 mod 8) * 262144 + (b1 mod 64) * 4096 + (b2 mod 64) * 64 + b3 mod 64, 4)
             else (RuneError, 1)
         | _ \<Rightarrow> (RuneError, 1))
      else (RuneError, 1))"

declare DecodeRune.simps [simp del]

lemma DecodeRune_width: "0 < snd (DecodeRune b0 bs)"
  by (auto simp: DecodeRune.simps split: list.split)

lemma DecodeRune_ascii [simp]: "b0 < 0x80 \<Longrightarrow> DecodeRune b0 bs = (b0, 1)"
  by (simp add: DecodeRune.simps)

text \<open>The loop \<^verbatim>\<open>for i, r := range s\<close>: the pairs of position and rune, from position \<open>i\<close>.\<close>

function range_runes :: "nat \<Rightarrow> nat list \<Rightarrow> (nat \<times> nat) list" where
  "range_runes i [] = []"
| "range_runes i (b0 # bs) =
     (let (r, w) = DecodeRune b0 bs in (i, r) # range_runes (i + w) (drop w (b0 # bs)))"
  by pat_completeness auto
termination
proof (relation "measure (length \<circ> snd)", goal_cases)
  case (2 i b0 bs p r w)
  then have "0 < w" using DecodeRune_width [of b0 bs] by (metis snd_conv)
  then show ?case by simp
qed simp

definition string_bytes :: "string \<Rightarrow> nat list" where
  "string_bytes s = map of_char s"

definition runes_of :: "string \<Rightarrow> (nat \<times> nat) list" where
  "runes_of s = range_runes 0 (string_bytes s)"

lemma range_runes_ascii:
  "\<forall>b \<in> set bs. b < 0x80 \<Longrightarrow> map snd (range_runes i bs) = bs"
  by (induction bs arbitrary: i) simp_all

lemma runes_of_ascii: "\<forall>c \<in> set s. of_char c < (0x80 :: nat) \<Longrightarrow> map snd (runes_of s) = map of_char s"
  by (simp add: runes_of_def string_bytes_def range_runes_ascii)

section \<open>Classes of runes\<close>

text \<open>The tables beyond Latin-1.\<close>

record unicode_tables =
  uLetter :: "nat \<Rightarrow> bool"
  uDigit :: "nat \<Rightarrow> bool"

definition latin1_letter :: "nat \<Rightarrow> bool" where
  "latin1_letter r = (in_range (0x41, 0x5A) r \<or> in_range (0x61, 0x7A) r \<or> r = 0xAA \<or> r = 0xB5 \<or>
     r = 0xBA \<or> in_range (0xC0, 0xD6) r \<or> in_range (0xD8, 0xF6) r \<or> in_range (0xF8, 0xFF) r)"

definition IsLetter :: "unicode_tables \<Rightarrow> nat \<Rightarrow> bool" where
  "IsLetter u r = (if r \<le> 0xFF then latin1_letter r else uLetter u r)"

definition IsDigit :: "unicode_tables \<Rightarrow> nat \<Rightarrow> bool" where
  "IsDigit u r = (if r \<le> 0xFF then in_range (0x30, 0x39) r else uDigit u r)"

text \<open>The white space of \<^verbatim>\<open>fmt\<close>'s scanner.\<close>

definition fmt_isSpace :: "nat \<Rightarrow> bool" where
  "fmt_isSpace r = (in_range (0x09, 0x0D) r \<or> r = 0x20 \<or> r = 0x85 \<or> r = 0xA0 \<or> r = 0x1680 \<or>
     in_range (0x2000, 0x200A) r \<or> in_range (0x2028, 0x2029) r \<or> r = 0x202F \<or> r = 0x205F \<or> r = 0x3000)"

lemmas rune_class_defs = IsLetter_def IsDigit_def latin1_letter_def in_range_def fmt_isSpace_def

end
