(* ===== verification/Version.thy ===== *)
theory Version
  imports Runes
begin

text \<open>
  Protocol versions (\<^verbatim>\<open>src/version.go\<close>): comparison, compatibility, printing and parsing. Parsing uses
  \<^verbatim>\<open>fmt.Sscanf\<close> with the format \<^verbatim>\<open>%d.%d.%d\<close> into three \<^verbatim>\<open>uint8\<close>, whose scanner is modelled: white space
  before a number is skipped, a newline is an error, the number is a non-empty run of decimal
  digits that must fit, a dot must match, and the rest of the input is ignored.
\<close>

section \<open>Versions and their order\<close>

datatype ProtocolVersion = ProtocolVersion (Major: "8 word") (Minor: "8 word") (Patch: "8 word")

definition CurrentVersion :: ProtocolVersion where
  "CurrentVersion = ProtocolVersion 1 2 9"

definition Version_Compatible :: "ProtocolVersion \<Rightarrow> ProtocolVersion \<Rightarrow> bool" where
  "Version_Compatible v other =
     (if Major v \<noteq> Major other then False
      else if Minor other > Minor v then False
      else True)"

definition Version_IsNewer :: "ProtocolVersion \<Rightarrow> ProtocolVersion \<Rightarrow> bool" where
  "Version_IsNewer v other =
     (if Major v \<noteq> Major other then Major v > Major other
      else if Minor v \<noteq> Minor other then Minor v > Minor other
      else Patch v > Patch other)"

definition Version_Equal :: "ProtocolVersion \<Rightarrow> ProtocolVersion \<Rightarrow> bool" where
  "Version_Equal v other = (Major v = Major other \<and> Minor v = Minor other \<and> Patch v = Patch other)"

instantiation ProtocolVersion :: linorder
begin

definition less_ProtocolVersion :: "ProtocolVersion \<Rightarrow> ProtocolVersion \<Rightarrow> bool" where
  "less_ProtocolVersion v w = Version_IsNewer w v"

definition less_eq_ProtocolVersion :: "ProtocolVersion \<Rightarrow> ProtocolVersion \<Rightarrow> bool" where
  "less_eq_ProtocolVersion v w = (v = w \<or> Version_IsNewer w v)"

instance
proof
  fix u v w :: ProtocolVersion
  show "(v < w) = (v \<le> w \<and> \<not> w \<le> v)"
    by (cases v; cases w) (auto simp: less_ProtocolVersion_def less_eq_ProtocolVersion_def Version_IsNewer_def)
  show "v \<le> v"
    by (simp add: less_eq_ProtocolVersion_def)
  show "u \<le> v \<Longrightarrow> v \<le> w \<Longrightarrow> u \<le> w"
    by (cases u; cases v; cases w)
      (auto simp: less_eq_ProtocolVersion_def Version_IsNewer_def split: if_splits)
  show "v \<le> w \<Longrightarrow> w \<le> v \<Longrightarrow> v = w"
    by (cases v; cases w) (auto simp: less_eq_ProtocolVersion_def Version_IsNewer_def split: if_splits)
  show "v \<le> w \<or> w \<le> v"
    by (cases v; cases w) (auto simp: less_eq_ProtocolVersion_def Version_IsNewer_def)
qed

end

section \<open>Printing\<close>

definition digit_char :: "nat \<Rightarrow> char" where
  "digit_char d = char_of (48 + d)"

text \<open>The verb \<^verbatim>\<open>%d\<close> on a non-negative number.\<close>

fun show_decimal :: "nat \<Rightarrow> string" where
  "show_decimal n = (if n < 10 then [digit_char n] else show_decimal (n div 10) @ [digit_char (n mod 10)])"

declare show_decimal.simps [simp del]

definition Version_String :: "ProtocolVersion \<Rightarrow> string" where
  "Version_String v =
     show_decimal (unat (Major v)) @ ''.'' @ show_decimal (unat (Minor v)) @ ''.'' @
     show_decimal (unat (Patch v))"

section \<open>Scanning\<close>

datatype scan_err = UnexpectedEOF | ExpectedInteger | UnexpectedNewline | ValueOutOfRange
  | UnsignedOverflow | InputDoesNotMatchFormat

fun SkipSpace :: "nat list \<Rightarrow> scan_err + nat list" where
  "SkipSpace [] = Inr []"
| "SkipSpace (r # rs) =
     (if r = 10 then Inl UnexpectedNewline
      else if fmt_isSpace r then SkipSpace rs
      else Inr (r # rs))"

definition is_decimal :: "nat \<Rightarrow> bool" where
  "is_decimal r = (48 \<le> r \<and> r \<le> 57)"

definition digits_value :: "nat list \<Rightarrow> nat" where
  "digits_value ds = foldl (\<lambda>acc r. 10 * acc + (r - 48)) 0 ds"

text \<open>\<^verbatim>\<open>scanUint\<close> for the verb \<^verbatim>\<open>%d\<close> and eight bits: the value and the rest of the input.\<close>

definition scanUint8 :: "nat list \<Rightarrow> scan_err + (8 word \<times> nat list)" where
  "scanUint8 input =
     (case SkipSpace input of
        Inl e \<Rightarrow> Inl e
      | Inr rs \<Rightarrow>
          if rs = [] then Inl UnexpectedEOF
          else
            let tok = takeWhile is_decimal rs; i = digits_value tok in
            if tok = [] then Inl ExpectedInteger
            else if i \<ge> 2 ^ 64 then Inl ValueOutOfRange
            else if i \<ge> 256 then Inl UnsignedOverflow
            else Inr (of_nat i, dropWhile is_decimal rs))"

text \<open>The literal dot of the format.\<close>

fun scan_dot :: "nat list \<Rightarrow> scan_err + nat list" where
  "scan_dot [] = Inl UnexpectedEOF"
| "scan_dot (r # rs) = (if r = 46 then Inr rs else Inl InputDoesNotMatchFormat)"

text \<open>
  \<^verbatim>\<open>ParseVersion\<close> returns the version with the fields scanned so far and an error unless all three
  were scanned.
\<close>

definition ParseVersion :: "string \<Rightarrow> ProtocolVersion \<times> scan_err option" where
  "ParseVersion s =
     (case scanUint8 (map snd (runes_of s)) of
        Inl e \<Rightarrow> (ProtocolVersion 0 0 0, Some e)
      | Inr (ma, s1) \<Rightarrow>
     (case scan_dot s1 of
        Inl e \<Rightarrow> (ProtocolVersion ma 0 0, Some e)
      | Inr s2 \<Rightarrow>
     (case scanUint8 s2 of
        Inl e \<Rightarrow> (ProtocolVersion ma 0 0, Some e)
      | Inr (mi, s3) \<Rightarrow>
     (case scan_dot s3 of
        Inl e \<Rightarrow> (ProtocolVersion ma mi 0, Some e)
      | Inr s4 \<Rightarrow>
     (case scanUint8 s4 of
        Inl e \<Rightarrow> (ProtocolVersion ma mi 0, Some e)
      | Inr (pa, s5) \<Rightarrow> (ProtocolVersion ma mi pa, None))))))"

section \<open>Lemmas\<close>

definition decimal_codes :: "nat \<Rightarrow> nat list" where
  "decimal_codes n = map of_char (show_decimal n)"

lemma of_digit_char [simp]: "d < 10 \<Longrightarrow> of_char (digit_char d) = (48 + d :: nat)"
  by (simp add: digit_char_def)

lemma decimal_codes_step:
  "decimal_codes n = (if n < 10 then [48 + n] else decimal_codes (n div 10) @ [48 + n mod 10])"
  by (simp add: decimal_codes_def show_decimal.simps [of n])

lemma decimal_codes_digits: "\<forall>r \<in> set (decimal_codes n). is_decimal r"
proof (induction n rule: less_induct)
  case (less n)
  show ?case
  proof (cases "n < 10")
    case True
    then show ?thesis by (subst decimal_codes_step) (simp add: is_decimal_def)
  next
    case False
    have "n mod 10 < 10" by simp
    then have "is_decimal (48 + n mod 10)" unfolding is_decimal_def by arith
    moreover have "\<forall>r \<in> set (decimal_codes (n div 10)). is_decimal r"
      using False less.IH [of "n div 10"] by simp
    ultimately show ?thesis using False by (subst decimal_codes_step) simp
  qed
qed

lemma decimal_codes_nonempty [simp]: "decimal_codes n \<noteq> []"
  by (subst decimal_codes_step) simp

lemma digits_value_decimal [simp]: "digits_value (decimal_codes n) = n"
proof (induction n rule: less_induct)
  case (less n)
  then show ?case
    by (subst decimal_codes_step) (simp add: digits_value_def)
qed

lemma SkipSpace_digits:
  "rs \<noteq> [] \<Longrightarrow> is_decimal (hd rs) \<Longrightarrow> SkipSpace rs = Inr rs"
  by (cases rs) (auto simp: is_decimal_def fmt_isSpace_def in_range_def)

lemma scanUint8_decimal:
  assumes "n < 256" and "rest = [] \<or> \<not> is_decimal (hd rest)"
  shows "scanUint8 (decimal_codes n @ rest) = Inr (of_nat n, rest)"
proof -
  have hd: "is_decimal (hd (decimal_codes n @ rest))"
    using decimal_codes_digits [of n] by (simp add: hd_append)
  have "takeWhile is_decimal rest = []" and "dropWhile is_decimal rest = rest"
    using assms(2) by (cases rest; simp)+
  then show ?thesis
    using assms(1) decimal_codes_digits [of n] SkipSpace_digits [OF _ hd]
    by (simp add: scanUint8_def takeWhile_append2 dropWhile_append2)
qed

lemma show_decimal_ascii: "c \<in> set (show_decimal n) \<Longrightarrow> of_char c < (0x80 :: nat)"
  using decimal_codes_digits [of n] by (auto simp: decimal_codes_def is_decimal_def)

lemma Version_String_runes:
  "map snd (runes_of (Version_String v)) =
     decimal_codes (unat (Major v)) @ [46] @ decimal_codes (unat (Minor v)) @ [46] @
     decimal_codes (unat (Patch v))"
  by (subst runes_of_ascii) (auto simp: Version_String_def decimal_codes_def dest: show_decimal_ascii)

section \<open>Properties\<close>

text \<open>
  Printing a version and parsing the text gives the version back, without an error,
  for every version.
\<close>

theorem ParseVersion_String: "ParseVersion (Version_String v) = (v, None)"
proof -
  have "unat w < 256" for w :: "8 word"
    using unsigned_less [of w, where 'a = nat] by simp
  then show ?thesis
    unfolding ParseVersion_def Version_String_runes
    by (cases v) (simp add: scanUint8_decimal scanUint8_decimal [where rest = "[]", simplified]
        is_decimal_def)
qed

text \<open>
  \<^verbatim>\<open>IsNewer\<close> is a strict linear order whose equality is \<^verbatim>\<open>Equal\<close> (exactly one of newer,
  equal and older holds for any two versions, and newer is transitive), and a compatible peer is
  of the same major version and never has a newer minor version; among versions with one major
  version, compatibility in both directions means the same minor version.
\<close>

theorem Version_order_and_compatibility:
  "(Version_IsNewer v w \<or> Version_Equal v w \<or> Version_IsNewer w v) \<and>
   \<not> (Version_IsNewer v w \<and> Version_IsNewer w v) \<and>
   \<not> (Version_Equal v w \<and> Version_IsNewer v w) \<and>
   \<not> (Version_IsNewer u v \<and> Version_IsNewer v w \<and> \<not> Version_IsNewer u w) \<and>
   (Version_Compatible v w \<longleftrightarrow> Major v = Major w \<and> unat (Minor w) \<le> unat (Minor v)) \<and>
   (Version_Compatible v w \<and> Version_Compatible w v \<longleftrightarrow> Major v = Major w \<and> Minor v = Minor w)"
proof -
  have eq: "Version_Equal v w \<longleftrightarrow> v = w" by (cases v; cases w) (auto simp: Version_Equal_def)
  have newer: "Version_IsNewer a b \<longleftrightarrow> b < a" for a b
    by (simp add: less_ProtocolVersion_def)
  show ?thesis
    unfolding eq newer
    by (auto simp: Version_Compatible_def word_le_nat_alt word_less_nat_alt word_unat_eq_iff)
qed

text \<open>
  Parsing does not require that the whole input is a version: what follows the third
  number is ignored, as is white space before each number, so that texts which are not of the
  documented form \<^verbatim>\<open>major.minor.patch\<close> are accepted; a number above 255 is an error.
\<close>

theorem ParseVersion_accepts_more:
  "ParseVersion ''1.2.3.4-beta'' = (ProtocolVersion 1 2 3, None) \<and>
   ParseVersion ''1. 2.3'' = (ProtocolVersion 1 2 3, None) \<and>
   ParseVersion ''1.256.3'' = (ProtocolVersion 1 0 0, Some UnsignedOverflow) \<and>
   ParseVersion ''1.2'' = (ProtocolVersion 1 2 0, Some UnexpectedEOF)"
  by (simp add: ParseVersion_def runes_of_def string_bytes_def scanUint8_def is_decimal_def
      digits_value_def fmt_isSpace_def in_range_def)

end
