(* ===== verification/Errors.thy ===== *)
theory Errors
  imports Prelude
begin

text \<open>
  The error values of the root package (\<^verbatim>\<open>src/errors.go\<close>): the codes, the rich \<^verbatim>\<open>Error\<close> struct with
  its constructors, and the walks along the chain of wrapped errors that \<^verbatim>\<open>errors.Is\<close> and
  \<^verbatim>\<open>errors.As\<close> make. The lemmas show that the codes are told apart by their names, that wrapping an
  error never changes how it is classified, and which codes carry a troubleshooting hint.
\<close>

section \<open>Error codes\<close>

datatype ErrorCode =
    ErrCodeUnknown
  | ErrCodeConnectionFailed
  | ErrCodeHandshakeFailed
  | ErrCodeHandshakeTimeout
  | ErrCodeStreamClosed
  | ErrCodeEncryptionFailed
  | ErrCodeDecryptionFailed
  | ErrCodePeerNotFound
  | ErrCodePeerBlacklisted
  | ErrCodeBufferFull
  | ErrCodeContextCanceled
  | ErrCodeInvalidConfig
  | ErrCodeNodeNotStarted
  | ErrCodeNodeAlreadyStarted
  | ErrCodeVersionMismatch
  | ErrCodeMessageTooLarge
  | ErrCodeBackpressure

fun ErrorCode_String :: "ErrorCode \<Rightarrow> string" where
  "ErrorCode_String ErrCodeUnknown = ''Unknown''"
| "ErrorCode_String ErrCodeConnectionFailed = ''ConnectionFailed''"
| "ErrorCode_String ErrCodeHandshakeFailed = ''HandshakeFailed''"
| "ErrorCode_String ErrCodeHandshakeTimeout = ''HandshakeTimeout''"
| "ErrorCode_String ErrCodeStreamClosed = ''StreamClosed''"
| "ErrorCode_String ErrCodeEncryptionFailed = ''EncryptionFailed''"
| "ErrorCode_String ErrCodeDecryptionFailed = ''DecryptionFailed''"
| "ErrorCode_String ErrCodePeerNotFound = ''PeerNotFound''"
| "ErrorCode_String ErrCodePeerBlacklisted = ''PeerBlacklisted''"
| "ErrorCode_String ErrCodeBufferFull = ''BufferFull''"
| "ErrorCode_String ErrCodeContextCanceled = ''ContextCanceled''"
| "ErrorCode_String ErrCodeInvalidConfig = ''InvalidConfig''"
| "ErrorCode_String ErrCodeNodeNotStarted = ''NodeNotStarted''"
| "ErrorCode_String ErrCodeNodeAlreadyStarted = ''NodeAlreadyStarted''"
| "ErrorCode_String ErrCodeVersionMismatch = ''VersionMismatch''"
| "ErrorCode_String ErrCodeMessageTooLarge = ''MessageTooLarge''"
| "ErrorCode_String ErrCodeBackpressure = ''Backpressure''"

fun defaultHint :: "ErrorCode \<Rightarrow> string" where
  "defaultHint ErrCodeConnectionFailed = ''Check that the peer is online and reachable. Verify the multiaddress is correct and any firewalls allow the connection.''"
| "defaultHint ErrCodeHandshakeFailed = ''Ensure both peers are using compatible protocol versions and the handshake logic is correct.''"
| "defaultHint ErrCodeHandshakeTimeout = ''The peer may be slow or unresponsive. Consider increasing HandshakeTimeout in config, or check network connectivity.''"
| "defaultHint ErrCodeStreamClosed = ''The stream was closed by the remote peer or due to a network issue. Reconnect if needed.''"
| "defaultHint ErrCodeEncryptionFailed = ''This may indicate a bug in message serialization or the encryption key is invalid.''"
| "defaultHint ErrCodeDecryptionFailed = ''The message may be corrupted, or the shared key does not match. Ensure both peers completed handshake correctly.''"
| "defaultHint ErrCodePeerNotFound = ''Add the peer to the address book using AddPeer() before connecting.''"
| "defaultHint ErrCodePeerBlacklisted = ''The peer was blacklisted. Use RemoveFromBlacklist() if you want to allow connections.''"
| "defaultHint ErrCodeBufferFull = ''The application is not consuming events/messages fast enough. Increase buffer sizes or process messages faster.''"
| "defaultHint ErrCodeContextCanceled = ''The operation was cancelled. This is usually intentional via context cancellation.''"
| "defaultHint ErrCodeInvalidConfig = ''Check that all required configuration fields are set correctly.''"
| "defaultHint ErrCodeNodeNotStarted = ''Call node.Start() before performing operations.''"
| "defaultHint ErrCodeNodeAlreadyStarted = ''The node is already running. Call Stop() first if you need to restart.''"
| "defaultHint ErrCodeVersionMismatch = ''The remote peer is running an incompatible protocol version. Ensure all peers are using compatible library versions.''"
| "defaultHint ErrCodeMessageTooLarge = ''Reduce message size or increase MaxMessageSize in config.''"
| "defaultHint ErrCodeBackpressure = ''The send buffer is full. Wait for the peer to acknowledge messages, or increase SendBufferSize.''"
| "defaultHint ErrCodeUnknown = ''''"

section \<open>Error values\<close>

text \<open>
  The variables of the package that hold the result of \<^verbatim>\<open>errors.New\<close>: each is a distinct pointer,
  so it is named by its variable.
\<close>

datatype sentinel =
    ErrPeerNotFound | ErrPeerBlacklisted | ErrPeerAlreadyExists
  | ErrNotConnected | ErrAlreadyConnected | ErrConnectionFailed | ErrHandshakeTimeout
  | ErrHandshakeNotComplete | ErrReconnectionCancelled | ErrInCooldown
  | ErrStreamNotFound | ErrStreamClosed | ErrStreamsAlreadyEstablished | ErrNoStreamsRequested
  | ErrInvalidPublicKey | ErrInvalidPrivateKey | ErrEncryptionFailed | ErrDecryptionFailed
  | ErrKeyDerivationFailed
  | ErrInvalidConfig | ErrMissingPrivateKey | ErrMissingAddressBookPath | ErrMissingListenAddrs
  | ErrVersionMismatch
  | ErrMessageTooLarge | ErrBackpressureTimeout
  | ErrNodeNotStarted | ErrNodeAlreadyStarted | ErrNodeStopped
  | ErrInvalidStreamName | ErrStreamNameTooLong | ErrMetadataTooLarge

text \<open>
  A Go error: a sentinel, the result of \<^verbatim>\<open>fmt.Errorf\<close> (with the error it wraps by \<^verbatim>\<open>%w\<close>, if any),
  a context error, or a pointer to the rich \<^verbatim>\<open>Error\<close> struct.
\<close>

datatype goerr =
    Sentinel sentinel
  | Errorf string "goerr option"
  | CtxErr ctx_err
  | RichError (Code: ErrorCode) (Message: string) (ErrPeerID: peer_id) (ErrStream: string)
      (Cause: "goerr option") (Retriable: bool) (Hint: string)

fun Unwrap :: "goerr \<Rightarrow> goerr option" where
  "Unwrap (RichError c m p s cause r h) = cause"
| "Unwrap (Errorf m w) = w"
| "Unwrap (Sentinel s) = None"
| "Unwrap (CtxErr c) = None"

text \<open>The method \<^verbatim>\<open>Is\<close> of the rich error: the target is a rich error with the same code.\<close>

fun Error_Is :: "goerr \<Rightarrow> goerr \<Rightarrow> bool" where
  "Error_Is e (RichError c m p s cause r h) = (c = Code e)"
| "Error_Is e _ = False"

text \<open>
  \<^verbatim>\<open>errors.Is\<close> of the standard library: along the chain, an error matches the target when it is the
  same value or its own \<^verbatim>\<open>Is\<close> method says so. The errors made by \<^verbatim>\<open>fmt.Errorf\<close> are fresh pointers, so
  none of them is the same value as a target built elsewhere.
\<close>

fun same_error :: "goerr \<Rightarrow> goerr \<Rightarrow> bool" where
  "same_error (Sentinel s) (Sentinel t) = (s = t)"
| "same_error (CtxErr c) (CtxErr d) = (c = d)"
| "same_error (RichError c m p s cause r h) t = Error_Is (RichError c m p s cause r h) t"
| "same_error _ _ = False"

fun errors_Is :: "goerr \<Rightarrow> goerr \<Rightarrow> bool" where
  "errors_Is (RichError c m p s (Some e) r h) t =
     (same_error (RichError c m p s (Some e) r h) t \<or> errors_Is e t)"
| "errors_Is (RichError c m p s None r h) t = same_error (RichError c m p s None r h) t"
| "errors_Is (Errorf m (Some e)) t = (same_error (Errorf m (Some e)) t \<or> errors_Is e t)"
| "errors_Is (Errorf m None) t = same_error (Errorf m None) t"
| "errors_Is (Sentinel s) t = same_error (Sentinel s) t"
| "errors_Is (CtxErr c) t = same_error (CtxErr c) t"

text \<open>\<^verbatim>\<open>errors.As\<close> with a \<^verbatim>\<open>*Error\<close> target: the first rich error of the chain.\<close>

fun errors_As :: "goerr \<Rightarrow> goerr option" where
  "errors_As (RichError c m p s cause r h) = Some (RichError c m p s cause r h)"
| "errors_As (Errorf m (Some e)) = errors_As e"
| "errors_As (Errorf m None) = None"
| "errors_As (Sentinel s) = None"
| "errors_As (CtxErr c) = None"

definition IsRetriable :: "goerr \<Rightarrow> bool" where
  "IsRetriable err = (case errors_As err of Some gErr \<Rightarrow> Retriable gErr | None \<Rightarrow> False)"

definition IsPermanent :: "goerr \<Rightarrow> bool" where
  "IsPermanent err =
     (case errors_As err of
        Some gErr \<Rightarrow> (case Code gErr of
                        ErrCodePeerBlacklisted \<Rightarrow> True
                      | ErrCodeInvalidConfig \<Rightarrow> True
                      | _ \<Rightarrow> False)
      | None \<Rightarrow> False)"

text \<open>The message of an error; \<open>show\<close> renders the texts of the errors made elsewhere.\<close>

fun Error_Error :: "(goerr \<Rightarrow> string) \<Rightarrow> goerr \<Rightarrow> string" where
  "Error_Error show (RichError c m p s (Some e) r h) = ''glueberry: '' @ m @ '': '' @ show e"
| "Error_Error show (RichError c m p s None r h) = ''glueberry: '' @ m"
| "Error_Error show e = show e"

definition NewError :: "ErrorCode \<Rightarrow> string \<Rightarrow> goerr" where
  "NewError code message = RichError code message '''' '''' None False (defaultHint code)"

definition NewErrorWithCause :: "ErrorCode \<Rightarrow> string \<Rightarrow> goerr option \<Rightarrow> goerr" where
  "NewErrorWithCause code message cause =
     RichError code message '''' '''' cause False (defaultHint code)"

definition NewPeerError :: "ErrorCode \<Rightarrow> string \<Rightarrow> peer_id \<Rightarrow> goerr" where
  "NewPeerError code message peerID =
     RichError code message peerID '''' None False (defaultHint code)"

definition NewStreamError :: "ErrorCode \<Rightarrow> string \<Rightarrow> peer_id \<Rightarrow> string \<Rightarrow> goerr" where
  "NewStreamError code message peerID stream =
     RichError code message peerID stream None False (defaultHint code)"

fun WithHint :: "goerr \<Rightarrow> string \<Rightarrow> goerr" where
  "WithHint (RichError c m p s cause r h) hint = RichError c m p s cause r hint"
| "WithHint e hint = e"

section \<open>Classification\<close>

text \<open>The error a chain is classified by is not changed by wrapping it with \<^verbatim>\<open>fmt.Errorf\<close>.\<close>

fun wrap_chain :: "string list \<Rightarrow> goerr \<Rightarrow> goerr" where
  "wrap_chain [] e = e"
| "wrap_chain (m # ms) e = Errorf m (Some (wrap_chain ms e))"

lemma errors_As_wrap_chain [simp]: "errors_As (wrap_chain ms e) = errors_As e"
  by (induction ms) simp_all

lemma errors_Is_wrap_chain [simp]: "errors_Is (wrap_chain ms e) t \<longleftrightarrow> errors_Is e t"
  by (induction ms) (auto elim: same_error.elims)

lemma Error_Is_refl: "Error_Is (RichError c m p s cause r h) (RichError c m' p' s' cause' r' h')"
  by simp

lemma IsPermanent_code:
  "IsPermanent (RichError c m p s cause r h) \<longleftrightarrow> c \<in> {ErrCodePeerBlacklisted, ErrCodeInvalidConfig}"
  by (cases c) (simp_all add: IsPermanent_def)

lemma WithHint_Is: "same_error (WithHint e hint) t = same_error e t"
  by (cases e; cases t) simp_all

end
