(* ===== verification/Pool.thy ===== *)
theory Pool
  imports Prelude
begin

text \<open>
  The buffer pool (\<^verbatim>\<open>src/internal/pool/buffer.go\<close>). A slice is its backing array, whose length is the
  capacity, and the length of the visible part. A \<^verbatim>\<open>sync.Pool\<close> is a list of slices: \<^verbatim>\<open>Get\<close> takes any of them
  (the argument \<open>pick\<close>) or makes a new one; it may also forget slices at any time.
\<close>

record slice =
  backing :: bytes
  slen :: nat

definition cap :: "slice \<Rightarrow> nat" where
  "cap b = length (backing b)"

definition contents :: "slice \<Rightarrow> bytes" where
  "contents b = take (slen b) (backing b)"

definition make_slice :: "nat \<Rightarrow> nat \<Rightarrow> slice" where
  "make_slice n c = \<lparr>backing = replicate c 0, slen = n\<rparr>"

definition DefaultBufferSize :: nat where "DefaultBufferSize = 4096"

definition SmallBufferSize :: nat where "SmallBufferSize = 1024"

definition LargeBufferSize :: nat where "LargeBufferSize = 65536"

record BufferPool =
  smallPool :: "slice list"
  mediumPool :: "slice list"
  largePool :: "slice list"

definition NewBufferPool :: BufferPool where
  "NewBufferPool = \<lparr>smallPool = [], mediumPool = [], largePool = []\<rparr>"

text \<open>\<^verbatim>\<open>sync.Pool.Get\<close> with the pool's \<^verbatim>\<open>New\<close>, which makes an empty slice of capacity \<open>c\<close>.\<close>

definition sync_Get :: "nat \<Rightarrow> nat option \<Rightarrow> slice list \<Rightarrow> slice \<times> slice list" where
  "sync_Get c pick xs =
     (case pick of
        None \<Rightarrow> (make_slice 0 c, xs)
      | Some i \<Rightarrow> if i < length xs then (xs ! i, take i xs @ drop (Suc i) xs) else (make_slice 0 c, xs))"

definition Get :: "nat option \<Rightarrow> nat \<Rightarrow> BufferPool \<Rightarrow> slice \<times> BufferPool" where
  "Get pick sz p =
     (if sz \<le> SmallBufferSize then
        (case sync_Get SmallBufferSize pick (smallPool p) of
           (buf, xs) \<Rightarrow> (buf\<lparr>slen := 0\<rparr>, p\<lparr>smallPool := xs\<rparr>))
      else if sz \<le> DefaultBufferSize then
        (case sync_Get DefaultBufferSize pick (mediumPool p) of
           (buf, xs) \<Rightarrow> (buf\<lparr>slen := 0\<rparr>, p\<lparr>mediumPool := xs\<rparr>))
      else if sz \<le> LargeBufferSize then
        (case sync_Get LargeBufferSize pick (largePool p) of
           (buf, xs) \<Rightarrow> (buf\<lparr>slen := 0\<rparr>, p\<lparr>largePool := xs\<rparr>))
      else (make_slice 0 sz, p))"

text \<open>\<open>None\<close> is the nil pointer.\<close>

definition Put :: "slice option \<Rightarrow> BufferPool \<Rightarrow> BufferPool" where
  "Put b p =
     (case b of
        None \<Rightarrow> p
      | Some buf \<Rightarrow>
          let c = cap buf; buf' = buf\<lparr>slen := 0\<rparr> in
          if c \<le> SmallBufferSize then p\<lparr>smallPool := buf' # smallPool p\<rparr>
          else if c \<le> DefaultBufferSize then p\<lparr>mediumPool := buf' # mediumPool p\<rparr>
          else if c \<le> LargeBufferSize then p\<lparr>largePool := buf' # largePool p\<rparr>
          else p)"

definition clear_slice :: "slice \<Rightarrow> slice" where
  "clear_slice b = b\<lparr>backing := replicate (slen b) 0 @ drop (slen b) (backing b)\<rparr>"

definition GetExact :: "nat option \<Rightarrow> nat \<Rightarrow> BufferPool \<Rightarrow> slice \<times> BufferPool" where
  "GetExact pick sz p =
     (case Get pick sz p of
        (buf, p') \<Rightarrow>
          if cap buf < sz then (make_slice sz sz, p')
          else (clear_slice (buf\<lparr>slen := sz\<rparr>), p'))"

datatype pool_op =
    PGet "nat option" nat
  | PGetExact "nat option" nat
  | PPut "slice option"
  | PForget \<comment> \<open>the garbage collector empties the pools\<close>

fun pool_exec :: "pool_op \<Rightarrow> BufferPool \<Rightarrow> BufferPool" where
  "pool_exec (PGet pick n) p = snd (Get pick n p)"
| "pool_exec (PGetExact pick n) p = snd (GetExact pick n p)"
| "pool_exec (PPut b) p = Put b p"
| "pool_exec PForget p = NewBufferPool"

section \<open>Lemmas\<close>

text \<open>The size classes: what is in a pool has at most its size.\<close>

definition pool_inv :: "BufferPool \<Rightarrow> bool" where
  "pool_inv p \<longleftrightarrow>
     (\<forall>b \<in> set (smallPool p). cap b \<le> SmallBufferSize) \<and>
     (\<forall>b \<in> set (mediumPool p). SmallBufferSize < cap b \<and> cap b \<le> DefaultBufferSize) \<and>
     (\<forall>b \<in> set (largePool p). DefaultBufferSize < cap b \<and> cap b \<le> LargeBufferSize)"

text \<open>The pool holds only buffers that \<^verbatim>\<open>New\<close> made.\<close>

definition pool_own :: "BufferPool \<Rightarrow> bool" where
  "pool_own p \<longleftrightarrow>
     (\<forall>b \<in> set (smallPool p). cap b = SmallBufferSize) \<and>
     (\<forall>b \<in> set (mediumPool p). cap b = DefaultBufferSize) \<and>
     (\<forall>b \<in> set (largePool p). cap b = LargeBufferSize)"

lemma cap_simps [simp]:
  "cap (make_slice n c) = c" "cap (b\<lparr>slen := n\<rparr>) = cap b"
  "slen b \<le> cap b \<Longrightarrow> cap (clear_slice b) = cap b"
  by (simp_all add: cap_def make_slice_def clear_slice_def)

lemma sync_Get_mem:
  "sync_Get c pick xs = (b, ys) \<Longrightarrow> (b = make_slice 0 c \<or> b \<in> set xs) \<and> set ys \<subseteq> set xs"
  by (auto simp: sync_Get_def dest: in_set_takeD in_set_dropD split: option.splits if_splits)

lemmas pool_sizes = SmallBufferSize_def DefaultBufferSize_def LargeBufferSize_def

lemma Get_inv [inv_intros]: "pool_inv p \<Longrightarrow> pool_inv (snd (Get pick n p))"
  unfolding Get_def pool_inv_def
  by (auto split: prod.splits dest!: sync_Get_mem)

lemma GetExact_inv [inv_intros]: "pool_inv p \<Longrightarrow> pool_inv (snd (GetExact pick n p))"
  using Get_inv [of p pick n] by (auto simp: GetExact_def split: prod.splits)

lemma Put_inv [inv_intros]: "pool_inv p \<Longrightarrow> pool_inv (Put b p)"
  by (auto simp: Put_def pool_inv_def Let_def split: option.splits)

lemma Get_own:
  assumes "pool_own p" and "Get pick n p = (b, p')"
  shows "n \<le> cap b \<and> slen b = 0 \<and> pool_own p'"
  using assms by (auto simp: Get_def pool_own_def make_slice_def cap_def split: if_splits prod.splits
      dest!: sync_Get_mem)

lemma NewBufferPool_inv [inv_intros]: "pool_inv NewBufferPool"
  by (simp add: pool_inv_def NewBufferPool_def)

lemma pool_exec_inv: "pool_inv p \<Longrightarrow> pool_inv (pool_exec op p)"
  by (cases op) (auto intro: inv_intros)

interpretation pool: invariant_system "\<lambda>p. p = NewBufferPool" "\<lambda>p op p'. p' = pool_exec op p" pool_inv
  by unfold_locales (auto intro: pool_exec_inv NewBufferPool_inv)

section \<open>Properties\<close>

text \<open>
  An exact buffer never leaks old data. Whatever buffers, of whatever capacity and contents, have been
  put into the pool and in whatever order, \<^verbatim>\<open>GetExact\<close> returns a buffer of exactly the requested length
  all of whose visible bytes are zero.
\<close>

theorem GetExact_zeroed:
  "contents (fst (GetExact pick n p)) = replicate n 0 \<and> slen (fst (GetExact pick n p)) = n"
  by (auto simp: GetExact_def contents_def make_slice_def clear_slice_def cap_def split: prod.splits)

text \<open>
  The size classes. After any sequence of operations each pool holds only buffers of its size class
  (so no pool retains a buffer above the largest class), and a buffer is returned with the requested
  capacity as long as the pools hold only the buffers they made: this last condition is kept by
  putting back a buffer that \<^verbatim>\<open>Get\<close> returned for a pooled size.
\<close>

theorem pool_size_classes:
  assumes "runs (\<lambda>p op p'. p' = pool_exec op p) NewBufferPool ops p"
  shows "pool_inv p \<and>
         (pool_own p \<and> Get pick n p = (b, p') \<longrightarrow>
            n \<le> cap b \<and> contents b = [] \<and> pool_own p' \<and> (n \<le> LargeBufferSize \<longrightarrow> pool_own (Put (Some b) p')))"
proof (intro conjI impI)
  show "pool_inv p" by (rule pool.inv_reachable [OF refl assms])
  assume a: "pool_own p \<and> Get pick n p = (b, p')"
  then show "n \<le> cap b" "contents b = []" "pool_own p'"
    using Get_own [of p pick n b p'] by (auto simp: contents_def)
  assume "n \<le> LargeBufferSize"
  then have "cap b \<in> {SmallBufferSize, DefaultBufferSize, LargeBufferSize}"
    using a by (auto simp: Get_def pool_own_def split: if_splits prod.splits dest!: sync_Get_mem)
  then show "pool_own (Put (Some b) p')"
    using \<open>pool_own p'\<close> by (auto simp: Put_def pool_own_def Let_def pool_sizes)
qed

theorem pool_size_classes_witness:
  "pool_inv (pool_exec (PPut (Some (make_slice 3 2000))) NewBufferPool) \<and>
   (\<exists>b p'. Get None 100 NewBufferPool = (b, p') \<and> 100 \<le> cap b)"
proof
  have "runs (\<lambda>p op p'. p' = pool_exec op p) NewBufferPool [PPut (Some (make_slice 3 2000))]
      (pool_exec (PPut (Some (make_slice 3 2000))) NewBufferPool)"
    by (rule runs_cons [OF _ runs_nil]) simp
  then show "pool_inv (pool_exec (PPut (Some (make_slice 3 2000))) NewBufferPool)"
    using pool_size_classes by blast
  have "Get None 100 NewBufferPool = (make_slice 0 1024, NewBufferPool)" "pool_own NewBufferPool"
    by (simp_all add: Get_def pool_own_def NewBufferPool_def pool_sizes sync_Get_def make_slice_def)
  then show "\<exists>b p'. Get None 100 NewBufferPool = (b, p') \<and> 100 \<le> cap b"
    using pool_size_classes [OF runs_nil, of None 100 "make_slice 0 1024" NewBufferPool] by simp
qed

text \<open>
  A buffer that was not made by the pool breaks the promise of \<^verbatim>\<open>Get\<close>. After a buffer of any
  capacity from 1025 to 4095 bytes has been put, a request of 4096 bytes may be answered with that
  buffer, which is too small.
\<close>

theorem Get_too_small_after_foreign_Put:
  assumes "SmallBufferSize < cap b" and "cap b < DefaultBufferSize"
  shows "\<exists>b' p'. Get (Some 0) DefaultBufferSize (Put (Some b) p) = (b', p') \<and> cap b' < DefaultBufferSize"
  using assms by (auto simp: Put_def Get_def sync_Get_def Let_def pool_sizes)

theorem Get_too_small_after_foreign_Put_witness:
  "\<exists>b' p'. Get (Some 0) DefaultBufferSize (Put (Some (make_slice 7 2000)) NewBufferPool) = (b', p') \<and>
     cap b' < DefaultBufferSize"
  by (rule Get_too_small_after_foreign_Put) (simp_all add: pool_sizes)

end
