(* ===== verification/Handshake.thy ===== *)
theory Handshake
  imports Prelude "HOL-Library.Sublist"
begin

text \<open>
  The handshake state machine offered to applications (\<^verbatim>\<open>src/internal/handshake/state.go\<close>): its states,
  the guarded transitions with and without a retry budget, failure and reset. Every method holds the
  mutex for its whole body, so a concurrent history is a sequence of calls, and \<open>hs_call\<close> is one
  call. The properties: the retry budget is never exceeded, a terminal state is left only by
  \<^verbatim>\<open>Fail\<close> or \<^verbatim>\<open>Reset\<close>, and a completed handshake went through every phase in order.
\<close>

section \<open>Model\<close>

datatype HandshakeState =
    HandshakeStateInit
  | HandshakeStateSentRequest
  | HandshakeStateReceivedResponse
  | HandshakeStateSentFinalize
  | HandshakeStateComplete
  | HandshakeStateFailed

fun HandshakeState_String :: "HandshakeState \<Rightarrow> string" where
  "HandshakeState_String HandshakeStateInit = ''Init''"
| "HandshakeState_String HandshakeStateSentRequest = ''SentRequest''"
| "HandshakeState_String HandshakeStateReceivedResponse = ''ReceivedResponse''"
| "HandshakeState_String HandshakeStateSentFinalize = ''SentFinalize''"
| "HandshakeState_String HandshakeStateComplete = ''Complete''"
| "HandshakeState_String HandshakeStateFailed = ''Failed''"

datatype hs_error = ErrInvalidStateTransition HandshakeState HandshakeState | ErrHandshakeMaxRetries

record 'e HandshakeStateMachine =
  hstate :: HandshakeState
  retries :: int
  maxRetries :: int
  lastError :: "'e option"
  startTime :: time_ns

definition NewHandshakeStateMachine :: "time_ns \<Rightarrow> int \<Rightarrow> 'e HandshakeStateMachine" where
  "NewHandshakeStateMachine now maxR =
     \<lparr>hstate = HandshakeStateInit, retries = 0, maxRetries = (if maxR < 0 then 0 else maxR),
      lastError = None, startTime = now\<rparr>"

fun isValidTransition :: "HandshakeState \<Rightarrow> HandshakeState \<Rightarrow> bool" where
  "isValidTransition HandshakeStateInit to =
     (to = HandshakeStateSentRequest \<or> to = HandshakeStateFailed)"
| "isValidTransition HandshakeStateSentRequest to =
     (to = HandshakeStateReceivedResponse \<or> to = HandshakeStateSentRequest \<or> to = HandshakeStateFailed)"
| "isValidTransition HandshakeStateReceivedResponse to =
     (to = HandshakeStateSentFinalize \<or> to = HandshakeStateReceivedResponse \<or> to = HandshakeStateFailed)"
| "isValidTransition HandshakeStateSentFinalize to =
     (to = HandshakeStateComplete \<or> to = HandshakeStateSentFinalize \<or> to = HandshakeStateFailed)"
| "isValidTransition HandshakeStateComplete to = False"
| "isValidTransition HandshakeStateFailed to = False"

definition isRetryTransition :: "HandshakeState \<Rightarrow> HandshakeState \<Rightarrow> bool" where
  "isRetryTransition from to = (from = to \<and> from \<noteq> HandshakeStateInit)"

definition HSM_Transition ::
    "HandshakeState \<Rightarrow> 'e HandshakeStateMachine \<Rightarrow> hs_error option \<times> 'e HandshakeStateMachine" where
  "HSM_Transition to h =
     (if \<not> isValidTransition (hstate h) to then (Some (ErrInvalidStateTransition (hstate h) to), h)
      else (None, h\<lparr>hstate := to\<rparr>))"

definition HSM_TransitionWithRetry ::
    "HandshakeState \<Rightarrow> 'e HandshakeStateMachine \<Rightarrow> hs_error option \<times> 'e HandshakeStateMachine" where
  "HSM_TransitionWithRetry to h =
     (if \<not> isValidTransition (hstate h) to then (Some (ErrInvalidStateTransition (hstate h) to), h)
      else if isRetryTransition (hstate h) to then
        (if retries h \<ge> maxRetries h
         then (Some ErrHandshakeMaxRetries, h\<lparr>hstate := HandshakeStateFailed\<rparr>)
         else (None, h\<lparr>retries := retries h + 1, hstate := to\<rparr>))
      else (None, h\<lparr>hstate := to\<rparr>))"

definition HSM_Fail :: "'e option \<Rightarrow> 'e HandshakeStateMachine \<Rightarrow> 'e HandshakeStateMachine" where
  "HSM_Fail err h = h\<lparr>hstate := HandshakeStateFailed, lastError := err\<rparr>"

definition HSM_CanRetry :: "'e HandshakeStateMachine \<Rightarrow> bool" where
  "HSM_CanRetry h =
     (if hstate h = HandshakeStateFailed \<or> hstate h = HandshakeStateComplete then False
      else retries h < maxRetries h)"

definition HSM_IsComplete :: "'e HandshakeStateMachine \<Rightarrow> bool" where
  "HSM_IsComplete h = (hstate h = HandshakeStateComplete)"

definition HSM_IsFailed :: "'e HandshakeStateMachine \<Rightarrow> bool" where
  "HSM_IsFailed h = (hstate h = HandshakeStateFailed)"

definition HSM_IsTerminal :: "'e HandshakeStateMachine \<Rightarrow> bool" where
  "HSM_IsTerminal h = (hstate h = HandshakeStateComplete \<or> hstate h = HandshakeStateFailed)"

definition HSM_Duration :: "time_ns \<Rightarrow> 'e HandshakeStateMachine \<Rightarrow> duration" where
  "HSM_Duration now h = now - startTime h"

definition HSM_Reset :: "time_ns \<Rightarrow> 'e HandshakeStateMachine \<Rightarrow> 'e HandshakeStateMachine" where
  "HSM_Reset now h =
     h\<lparr>hstate := HandshakeStateInit, retries := 0, lastError := None, startTime := now\<rparr>"

section \<open>Histories of calls\<close>

datatype 'e hs_call =
    CTransition HandshakeState
  | CTransitionWithRetry HandshakeState
  | CFail "'e option"
  | CReset time_ns

fun hs_exec :: "'e hs_call \<Rightarrow> 'e HandshakeStateMachine \<Rightarrow> 'e HandshakeStateMachine" where
  "hs_exec (CTransition to) h = snd (HSM_Transition to h)"
| "hs_exec (CTransitionWithRetry to) h = snd (HSM_TransitionWithRetry to h)"
| "hs_exec (CFail err) h = HSM_Fail err h"
| "hs_exec (CReset now) h = HSM_Reset now h"

definition hstep :: "'e HandshakeStateMachine \<Rightarrow> 'e hs_call \<Rightarrow> 'e HandshakeStateMachine \<Rightarrow> bool" where
  "hstep h c h' = (h' = hs_exec c h)"

definition hinit :: "'e HandshakeStateMachine \<Rightarrow> bool" where
  "hinit h = (\<exists>now maxR. h = NewHandshakeStateMachine now maxR)"

definition hinv :: "'e HandshakeStateMachine \<Rightarrow> bool" where
  "hinv h = (0 \<le> retries h \<and> retries h \<le> maxRetries h)"

lemmas hs_defs = HSM_Transition_def HSM_TransitionWithRetry_def HSM_Fail_def HSM_Reset_def

lemma hs_exec_inv [inv_intros]: "hinv h \<Longrightarrow> hinv (hs_exec c h)"
  by (cases c) (auto simp: hinv_def hs_defs)

lemma hinit_inv [inv_intros]: "hinit h \<Longrightarrow> hinv h"
  by (auto simp: hinit_def hinv_def NewHandshakeStateMachine_def)

interpretation hs: invariant_system hinit hstep hinv
  by unfold_locales (auto simp: hstep_def intro: inv_intros)

section \<open>Phases\<close>

text \<open>How many of the phases of a handshake a state has behind it.\<close>

fun phase :: "HandshakeState \<Rightarrow> nat" where
  "phase HandshakeStateInit = 0"
| "phase HandshakeStateSentRequest = 1"
| "phase HandshakeStateReceivedResponse = 2"
| "phase HandshakeStateSentFinalize = 3"
| "phase HandshakeStateComplete = 4"
| "phase HandshakeStateFailed = 0"

definition phases :: "HandshakeState list" where
  "phases = [HandshakeStateSentRequest, HandshakeStateReceivedResponse, HandshakeStateSentFinalize,
             HandshakeStateComplete]"

text \<open>The target states of the transitions a history asks for.\<close>

fun targets :: "'e hs_call list \<Rightarrow> HandshakeState list" where
  "targets [] = []"
| "targets (CTransition to # cs) = to # targets cs"
| "targets (CTransitionWithRetry to # cs) = to # targets cs"
| "targets (CFail err # cs) = targets cs"
| "targets (CReset now # cs) = targets cs"

lemma targets_append [simp]: "targets (cs @ ds) = targets cs @ targets ds"
  by (induction cs rule: targets.induct) simp_all

lemma valid_transition_phase:
  "isValidTransition from to \<Longrightarrow>
     to = HandshakeStateFailed \<or> phase to \<le> phase from \<or>
     (phase to = Suc (phase from) \<and> to = phases ! phase from)"
  by (cases "from"; cases to) (simp_all add: phases_def)

lemma phase_le: "phase s \<le> length phases"
  by (cases s) (simp_all add: phases_def)

lemma subseq_take_mono: "m \<le> n \<Longrightarrow> subseq (take n xs) ys \<Longrightarrow> subseq (take m xs) ys"
  by (metis min.absorb1 take_take prefix_imp_subseq subseq_order.order_trans take_is_prefix)

lemma phase_step:
  assumes "subseq (take (phase (hstate h)) phases) ts" and "isValidTransition (hstate h) to"
  shows "subseq (take (phase to) phases) (ts @ [to])"
  using valid_transition_phase [OF assms(2)]
proof (elim disjE conjE)
  assume "phase to \<le> phase (hstate h)"
  then have "subseq (take (phase to) phases) ts" using assms(1) by (rule subseq_take_mono)
  then show ?thesis by (simp add: subseq_rev_drop_many)
next
  assume suc: "phase to = Suc (phase (hstate h))" and to: "to = phases ! phase (hstate h)"
  have "phase (hstate h) < length phases" using phase_le [of to] suc by simp
  then have "take (phase to) phases = take (phase (hstate h)) phases @ [to]"
    using suc to by (simp add: take_Suc_conv_app_nth)
  then show ?thesis using assms(1) by (simp add: subseq_append)
qed simp

lemma hs_exec_phase:
  assumes "subseq (take (phase (hstate h)) phases) (targets cs)"
  shows "subseq (take (phase (hstate (hs_exec c h))) phases) (targets (cs @ [c]))"
proof (cases c)
  case (CTransition to)
  then show ?thesis using assms phase_step [OF assms, of to]
    by (auto simp: HSM_Transition_def subseq_rev_drop_many)
next
  case (CTransitionWithRetry to)
  then show ?thesis using assms phase_step [OF assms, of to]
    by (auto simp: HSM_TransitionWithRetry_def subseq_rev_drop_many)
next
  case (CFail err)
  then show ?thesis by (simp add: HSM_Fail_def)
next
  case (CReset now)
  then show ?thesis by (simp add: HSM_Reset_def)
qed

section \<open>Properties\<close>

text \<open>
  In every history of calls on a new machine the number of retries stays within the
  budget, and when the budget is used up the next retry fails the handshake with
  \<^verbatim>\<open>ErrHandshakeMaxRetries\<close>; \<^verbatim>\<open>CanRetry\<close> tells exactly whether a retry of the current state would
  be accepted, for a state that can be retried.
\<close>

theorem handshake_retry_budget:
  assumes "hinit h" and "runs hstep h cs h'"
  shows "0 \<le> retries h' \<and> retries h' \<le> maxRetries h' \<and>
         (isValidTransition (hstate h') (hstate h') \<longrightarrow>
            (HSM_CanRetry h' \<longleftrightarrow> fst (HSM_TransitionWithRetry (hstate h') h') = None) \<and>
            (\<not> HSM_CanRetry h' \<longrightarrow>
               fst (HSM_TransitionWithRetry (hstate h') h') = Some ErrHandshakeMaxRetries \<and>
               HSM_IsFailed (snd (HSM_TransitionWithRetry (hstate h') h'))))"
proof -
  have "hinv h'" using hs.inv_reachable [OF assms] .
  then show ?thesis
    by (cases "hstate h'")
      (auto simp: hinv_def HSM_CanRetry_def HSM_TransitionWithRetry_def isRetryTransition_def HSM_IsFailed_def)
qed

theorem handshake_retry_budget_witness:
  "let h = fold hs_exec [CTransition HandshakeStateSentRequest, CTransitionWithRetry HandshakeStateSentRequest]
             (NewHandshakeStateMachine 0 1 :: unit HandshakeStateMachine)
   in retries h = 1 \<and> fst (HSM_TransitionWithRetry (hstate h) h) = Some ErrHandshakeMaxRetries"
proof -
  let ?cs = "[CTransition HandshakeStateSentRequest, CTransitionWithRetry HandshakeStateSentRequest] :: unit hs_call list"
  let ?h = "NewHandshakeStateMachine 0 1 :: unit HandshakeStateMachine"
  have "hinit ?h" unfolding hinit_def by blast
  moreover have "runs hstep ?h ?cs (fold hs_exec ?cs ?h)" by (rule runs_fold) (simp add: hstep_def)
  ultimately show ?thesis
    using handshake_retry_budget [of ?h ?cs "fold hs_exec ?cs ?h"]
    by (simp add: hs_defs NewHandshakeStateMachine_def isRetryTransition_def HSM_CanRetry_def)
qed

text \<open>
  Property C26: A history of calls on a new machine that ends in the complete state asked for the
  four phases (request sent, response received, finalize sent, complete) in this order.
\<close>

theorem handshake_complete_needs_all_phases:
  assumes "hinit h" and "runs hstep h cs h'" and "HSM_IsComplete h'"
  shows "subseq [HandshakeStateSentRequest, HandshakeStateReceivedResponse,
                 HandshakeStateSentFinalize, HandshakeStateComplete] (targets cs)"
proof -
  have "subseq (take (phase (hstate h')) phases) (targets cs)"
    using assms(2,1)
  proof (induction rule: runs.induct)
    case (runs_nil h)
    then show ?case by (auto simp: hinit_def NewHandshakeStateMachine_def)
  next
    case (runs_snoc h cs h' c h'')
    then show ?case using hs_exec_phase [of h' cs c] by (simp add: hstep_def)
  qed
  then show ?thesis using assms(3) by (simp add: HSM_IsComplete_def phases_def)
qed

theorem handshake_complete_needs_all_phases_witness:
  "let cs = [CTransition HandshakeStateSentRequest, CTransition HandshakeStateReceivedResponse,
             CTransition HandshakeStateSentFinalize, CTransition HandshakeStateComplete]
   in HSM_IsComplete (fold hs_exec cs (NewHandshakeStateMachine 0 0 :: unit HandshakeStateMachine)) \<and>
      subseq [HandshakeStateSentRequest, HandshakeStateReceivedResponse,
              HandshakeStateSentFinalize, HandshakeStateComplete] (targets cs)"
proof -
  let ?cs = "[CTransition HandshakeStateSentRequest, CTransition HandshakeStateReceivedResponse,
     CTransition HandshakeStateSentFinalize, CTransition HandshakeStateComplete] :: unit hs_call list"
  let ?h = "NewHandshakeStateMachine 0 0 :: unit HandshakeStateMachine"
  have "hinit ?h" unfolding hinit_def by blast
  moreover have "runs hstep ?h ?cs (fold hs_exec ?cs ?h)" by (rule runs_fold) (simp add: hstep_def)
  moreover have "HSM_IsComplete (fold hs_exec ?cs ?h)"
    by (simp add: HSM_Transition_def NewHandshakeStateMachine_def HSM_IsComplete_def)
  ultimately show ?thesis
    using handshake_complete_needs_all_phases [of ?h ?cs "fold hs_exec ?cs ?h"] by (simp only: Let_def simp_thms)
qed

text \<open>
  A terminal state accepts no transition, so only \<^verbatim>\<open>Fail\<close> and \<^verbatim>\<open>Reset\<close> leave it; from a
  state that is not terminal the machine can always be failed by a transition, and an invalid
  transition returns an error that names both states and changes nothing.
\<close>

theorem handshake_terminal_states:
  "(HSM_IsTerminal h \<longleftrightarrow> (\<forall>to. fst (HSM_Transition to h) \<noteq> None)) \<and>
   (HSM_IsTerminal h \<longleftrightarrow> fst (HSM_Transition HandshakeStateFailed h) \<noteq> None) \<and>
   (fst (HSM_Transition to h) \<noteq> None \<longleftrightarrow>
      HSM_Transition to h = (Some (ErrInvalidStateTransition (hstate h) to), h)) \<and>
   hstate (HSM_Reset now h) = HandshakeStateInit \<and> HSM_CanRetry (HSM_Reset now h) = (0 < maxRetries h)"
  by (cases "hstate h") (auto simp: HSM_IsTerminal_def HSM_Transition_def HSM_Reset_def HSM_CanRetry_def)

end
