(* ===== verification/Storage.thy ===== *)
theory Storage
  imports Prelude
begin

text \<open>
  Address book entries and their persistence (\<^verbatim>\<open>src/pkg/addressbook/types.go\<close>, \<^verbatim>\<open>storage.go\<close>,
  \<^verbatim>\<open>storage_unix.go\<close>). An entry is converted to the document that is encoded as JSON and back; the
  text encoding (\<^verbatim>\<open>encoding/json\<close>) and the printing and parsing of multiaddresses are parameters.
  The file system is a map from paths to contents, \<^verbatim>\<open>save\<close> is the list of file operations it performs,
  so that a crash is a prefix of that list, and each system call may fail. Both operations hold
  the storage's mutex and the file lock from start to end.
\<close>

section \<open>Entries\<close>

record 'ma PeerEntry =
  PeerID :: peer_id
  Multiaddrs :: "'ma list"
  RawMultiaddrs :: "string list"
  PublicKey :: bytes
  Metadata :: "(string \<rightharpoonup> string) option" \<comment> \<open>\<open>None\<close> is the nil map\<close>
  LastSeen :: time_ns
  Blacklisted :: bool
  CreatedAt :: time_ns
  UpdatedAt :: time_ns

text \<open>
  The JSON object of an entry: \<^verbatim>\<open>public_key\<close> and \<^verbatim>\<open>metadata\<close> are omitted when empty, \<^verbatim>\<open>last_seen\<close> is a
  struct and never omitted.
\<close>

record entry_doc =
  d_peer_id :: peer_id
  d_multiaddrs :: "string list"
  d_public_key :: "bytes option"
  d_metadata :: "(string \<rightharpoonup> string) option"
  d_last_seen :: time_ns
  d_blacklisted :: bool
  d_created_at :: time_ns
  d_updated_at :: time_ns

record book_doc =
  d_version :: int
  d_peers :: "(string \<rightharpoonup> entry_doc) option" \<comment> \<open>\<open>None\<close> when the member is absent or null\<close>

record 'ma addressBookData =
  Version :: int
  Peers :: "string \<rightharpoonup> 'ma PeerEntry"

text \<open>Printing and parsing of multiaddresses, and the JSON text codec.\<close>

record ('ma, 'txt) codec =
  ma_String :: "'ma \<Rightarrow> string"
  NewMultiaddr :: "string \<Rightarrow> 'ma option"
  json_Marshal :: "book_doc \<Rightarrow> 'txt list option"
  json_Unmarshal :: "'txt list \<Rightarrow> book_doc option"

definition PeerEntry_MarshalJSON :: "('ma, 'txt) codec \<Rightarrow> 'ma PeerEntry \<Rightarrow> entry_doc" where
  "PeerEntry_MarshalJSON cd p =
     \<lparr>d_peer_id = PeerID p,
      d_multiaddrs = map (ma_String cd) (Multiaddrs p),
      d_public_key = (if PublicKey p = [] then None else Some (PublicKey p)),
      d_metadata = (case Metadata p of
                      None \<Rightarrow> None
                    | Some md \<Rightarrow> if dom md = {} then None else Some md),
      d_last_seen = LastSeen p, d_blacklisted = Blacklisted p,
      d_created_at = CreatedAt p, d_updated_at = UpdatedAt p\<rparr>"

text \<open>Invalid multiaddresses are skipped.\<close>

fun parse_addrs :: "('ma, 'txt) codec \<Rightarrow> string list \<Rightarrow> 'ma list" where
  "parse_addrs cd [] = []"
| "parse_addrs cd (s # ss) =
     (case NewMultiaddr cd s of None \<Rightarrow> parse_addrs cd ss | Some ma \<Rightarrow> ma # parse_addrs cd ss)"

definition PeerEntry_UnmarshalJSON :: "('ma, 'txt) codec \<Rightarrow> entry_doc \<Rightarrow> 'ma PeerEntry" where
  "PeerEntry_UnmarshalJSON cd d =
     \<lparr>PeerID = d_peer_id d, Multiaddrs = parse_addrs cd (d_multiaddrs d),
      RawMultiaddrs = d_multiaddrs d,
      PublicKey = (case d_public_key d of None \<Rightarrow> [] | Some k \<Rightarrow> k),
      Metadata = d_metadata d, LastSeen = d_last_seen d, Blacklisted = d_blacklisted d,
      CreatedAt = d_created_at d, UpdatedAt = d_updated_at d\<rparr>"

text \<open>\<^verbatim>\<open>Clone\<close> of a non-nil entry: an empty map becomes nil; slices are copied.\<close>

definition PeerEntry_Clone :: "'ma PeerEntry \<Rightarrow> 'ma PeerEntry" where
  "PeerEntry_Clone p =
     \<lparr>PeerID = PeerID p,
      Multiaddrs = (if length (Multiaddrs p) > 0 then Multiaddrs p else []),
      RawMultiaddrs = (if length (RawMultiaddrs p) > 0 then RawMultiaddrs p else []),
      PublicKey = (if length (PublicKey p) > 0 then PublicKey p else []),
      Metadata = (case Metadata p of
                    None \<Rightarrow> None
                  | Some md \<Rightarrow> if dom md = {} then None else Some md),
      LastSeen = LastSeen p, Blacklisted = Blacklisted p,
      CreatedAt = CreatedAt p, UpdatedAt = UpdatedAt p\<rparr>"

section \<open>Files\<close>

record 'txt filesys =
  files :: "string \<rightharpoonup> 'txt list"

datatype 'txt fs_op =
    OpenTrunc string \<comment> \<open>\<^verbatim>\<open>O_WRONLY|O_CREATE|O_TRUNC\<close>\<close>
  | OpenCreate string \<comment> \<open>\<^verbatim>\<open>O_CREATE|O_RDWR\<close>, for the lock file\<close>
  | WriteAll string "'txt list"
  | Remove string
  | Rename string string

fun fs_exec :: "'txt fs_op \<Rightarrow> 'txt filesys \<Rightarrow> 'txt filesys" where
  "fs_exec (OpenTrunc p) fs = fs\<lparr>files := (files fs)(p \<mapsto> [])\<rparr>"
| "fs_exec (OpenCreate p) fs =
     fs\<lparr>files := (files fs)(p \<mapsto> (case files fs p of None \<Rightarrow> [] | Some c \<Rightarrow> c))\<rparr>"
| "fs_exec (WriteAll p bs) fs = fs\<lparr>files := (files fs)(p \<mapsto> bs)\<rparr>"
| "fs_exec (Remove p) fs = fs\<lparr>files := (files fs)(p := None)\<rparr>"
| "fs_exec (Rename p q) fs = fs\<lparr>files := (files fs)(p := None, q := files fs p)\<rparr>"

text \<open>
  Which system calls fail. A failed write leaves a prefix of the data in the file; \<open>writeShort\<close> says
  how much.
\<close>

record io_faults =
  lockMkdirFails :: bool
  lockOpenFails :: bool
  flockFails :: bool
  readFails :: bool
  mkdirFails :: bool
  openTempFails :: bool
  writeShort :: "nat option"
  syncFails :: bool
  closeFails :: bool
  renameFails :: bool
  removeFails :: bool

definition no_faults :: io_faults where
  "no_faults = \<lparr>lockMkdirFails = False, lockOpenFails = False, flockFails = False, readFails = False,
     mkdirFails = False, openTempFails = False, writeShort = None, syncFails = False,
     closeFails = False, renameFails = False, removeFails = False\<rparr>"

datatype store_err =
    LockDirFailed | LockOpenFailed | FlockFailed
  | ReadFailed | ParseAndBackupFailed
  | MkdirFailed | MarshalFailed | CreateTempFailed | WriteTempFailed | SyncTempFailed
  | CloseTempFailed | RenameTempFailed

definition tempPath :: "string \<Rightarrow> string" where
  "tempPath path = path @ ''.tmp''"

definition backupPath :: "string \<Rightarrow> string" where
  "backupPath path = path @ ''.bak''"

definition lockPath :: "string \<Rightarrow> string" where
  "lockPath path = path @ ''.lock''"

text \<open>\<^verbatim>\<open>acquireFileLock\<close>: the operations performed and the error, if any.\<close>

definition acquireFileLock :: "io_faults \<Rightarrow> string \<Rightarrow> store_err option \<times> 'txt fs_op list" where
  "acquireFileLock io path =
     (if lockMkdirFails io then (Some LockDirFailed, [])
      else if lockOpenFails io then (Some LockOpenFailed, [])
      else if flockFails io then (Some FlockFailed, [OpenCreate (lockPath path)])
      else (None, [OpenCreate (lockPath path)]))"

definition doc_of :: "('ma, 'txt) codec \<Rightarrow> 'ma addressBookData \<Rightarrow> book_doc" where
  "doc_of cd book =
     \<lparr>d_version = Version book,
      d_peers = Some (\<lambda>k. map_option (PeerEntry_MarshalJSON cd) (Peers book k))\<rparr>"

text \<open>The best-effort \<^verbatim>\<open>os.Remove(tempPath)\<close> of the error paths, whose error is ignored.\<close>

definition cleanup_ops :: "io_faults \<Rightarrow> string \<Rightarrow> 'txt fs_op list" where
  "cleanup_ops io path = (if removeFails io then [] else [Remove (tempPath path)])"

text \<open>The part of \<^verbatim>\<open>save\<close> after the lock: the operations and the result.\<close>

definition save_ops ::
    "io_faults \<Rightarrow> string \<Rightarrow> 'txt list option \<Rightarrow> store_err option \<times> 'txt fs_op list" where
  "save_ops io path data =
     (if mkdirFails io then (Some MkdirFailed, [])
      else case data of
        None \<Rightarrow> (Some MarshalFailed, [])
      | Some bs \<Rightarrow>
         if openTempFails io then (Some CreateTempFailed, [])
         else case writeShort io of
           Some n \<Rightarrow>
             (Some WriteTempFailed,
              [OpenTrunc (tempPath path), WriteAll (tempPath path) (take n bs)] @ cleanup_ops io path)
         | None \<Rightarrow>
             if syncFails io then
               (Some SyncTempFailed,
                [OpenTrunc (tempPath path), WriteAll (tempPath path) bs] @ cleanup_ops io path)
             else if closeFails io then
               (Some CloseTempFailed,
                [OpenTrunc (tempPath path), WriteAll (tempPath path) bs] @ cleanup_ops io path)
             else if renameFails io then
               (Some RenameTempFailed,
                [OpenTrunc (tempPath path), WriteAll (tempPath path) bs] @ cleanup_ops io path)
             else
               (None,
                [OpenTrunc (tempPath path), WriteAll (tempPath path) bs, Rename (tempPath path) path]))"

definition storage_save_ops ::
    "('ma, 'txt) codec \<Rightarrow> io_faults \<Rightarrow> string \<Rightarrow> 'ma addressBookData \<Rightarrow> store_err option \<times> 'txt fs_op list" where
  "storage_save_ops cd io path book =
     (case acquireFileLock io path of
        (Some e, ops) \<Rightarrow> (Some e, ops)
      | (None, ops) \<Rightarrow>
          (case save_ops io path (json_Marshal cd (doc_of cd book)) of
             (r, ops') \<Rightarrow> (r, ops @ ops')))"

definition storage_save ::
    "('ma, 'txt) codec \<Rightarrow> io_faults \<Rightarrow> string \<Rightarrow> 'ma addressBookData \<Rightarrow> 'txt filesys \<Rightarrow>
     store_err option \<times> 'txt filesys" where
  "storage_save cd io path book fs =
     (case storage_save_ops cd io path book of (r, ops) \<Rightarrow> (r, fold fs_exec ops fs))"

definition empty_data :: "'ma addressBookData" where
  "empty_data = \<lparr>Version = 1, Peers = Map.empty\<rparr>"

definition data_of :: "('ma, 'txt) codec \<Rightarrow> book_doc \<Rightarrow> 'ma addressBookData" where
  "data_of cd d =
     \<lparr>Version = d_version d,
      Peers = (case d_peers d of
                 None \<Rightarrow> Map.empty
               | Some ps \<Rightarrow> (\<lambda>k. map_option (PeerEntry_UnmarshalJSON cd) (ps k)))\<rparr>"

definition storage_load ::
    "('ma, 'txt) codec \<Rightarrow> io_faults \<Rightarrow> string \<Rightarrow> 'txt filesys \<Rightarrow>
     (store_err, 'ma addressBookData) result \<times> 'txt filesys" where
  "storage_load cd io path fs =
     (case acquireFileLock io path of
        (Some e, ops) \<Rightarrow> (Inl e, fold fs_exec ops fs)
      | (None, ops) \<Rightarrow>
         (let fs1 = fold fs_exec ops fs in
          if readFails io then (Inl ReadFailed, fs1)
          else case files fs1 path of
            None \<Rightarrow> (Inr empty_data, fs1)
          | Some data \<Rightarrow>
              if length data = 0 then (Inr empty_data, fs1)
              else case json_Unmarshal cd data of
                None \<Rightarrow>
                  if renameFails io then (Inl ParseAndBackupFailed, fs1)
                  else (Inr empty_data, fs_exec (Rename path (backupPath path)) fs1)
              | Some d \<Rightarrow> (Inr (data_of cd d), fs1)))"

section \<open>Lemmas\<close>

lemma paths_distinct [simp]:
  "tempPath p \<noteq> p" "lockPath p \<noteq> p" "backupPath p \<noteq> p" "tempPath p \<noteq> lockPath p"
  "p \<noteq> tempPath p" "p \<noteq> lockPath p" "p \<noteq> backupPath p" "lockPath p \<noteq> tempPath p"
  "backupPath p \<noteq> lockPath p" "lockPath p \<noteq> backupPath p"
  by (auto simp: tempPath_def lockPath_def backupPath_def)

lemma parse_addrs_map:
  "(\<And>a. NewMultiaddr cd (ma_String cd a) = Some a) \<Longrightarrow> parse_addrs cd (map (ma_String cd) as) = as"
  by (induction as) simp_all

text \<open>What persisting forgets of an entry: nil and empty maps are the same, the raw texts are filled in.\<close>

definition persisted :: "('ma, 'txt) codec \<Rightarrow> 'ma PeerEntry \<Rightarrow> 'ma PeerEntry" where
  "persisted cd p = (PeerEntry_Clone p)\<lparr>RawMultiaddrs := map (ma_String cd) (Multiaddrs p)\<rparr>"

lemma Unmarshal_Marshal:
  assumes "\<And>a. NewMultiaddr cd (ma_String cd a) = Some a"
  shows "PeerEntry_UnmarshalJSON cd (PeerEntry_MarshalJSON cd p) = persisted cd p"
  by (simp add: PeerEntry_UnmarshalJSON_def PeerEntry_MarshalJSON_def persisted_def PeerEntry_Clone_def
      parse_addrs_map [OF assms])

lemma PeerEntry_Clone_idem: "PeerEntry_Clone (PeerEntry_Clone p) = PeerEntry_Clone p"
  by (auto simp: PeerEntry_Clone_def split: option.splits)

text \<open>The files other than the target that an operation of the storage touches.\<close>

lemma acquire_ops_target:
  "acquireFileLock io path = (r, ops) \<Longrightarrow> files (fold fs_exec (take n ops) fs) path = files fs path"
  by (auto simp: acquireFileLock_def take_Cons' split: if_splits)

lemma take_fold_append:
  "fold f (take n (xs @ ys)) s = fold f (take (n - length xs) ys) (fold f (take n xs) s)"
  by simp

lemma save_ops_target:
  assumes "save_ops io path data = (r, ops)"
  shows "files (fold fs_exec (take n ops) fs) path =
     (if r = None \<and> 3 \<le> n then data else files fs path)"
  using assms
  by (auto simp: save_ops_def cleanup_ops_def take_Cons' numeral_eq_Suc split: if_splits option.splits)

lemma save_ops_temp:
  assumes "save_ops io path data = (r, ops)" and "\<not> removeFails io" and "files fs (tempPath path) = None"
  shows "files (fold fs_exec ops fs) (tempPath path) = None"
  using assms by (auto simp: save_ops_def cleanup_ops_def split: if_splits option.splits)

section \<open>Properties\<close>

text \<open>
  Property C19: Saving is atomic. After every prefix of the file operations of a save, whatever
  system calls fail, the address book file holds either its old contents or the complete new
  text; it holds the new text once the whole save has run without an error, the old contents when
  the save reports an error, and no temporary file is left behind unless its removal fails.
\<close>

theorem storage_save_atomic:
  fixes cd :: "('ma, 'txt) codec" and fs :: "'txt filesys"
  assumes "storage_save_ops cd io path book = (r, ops)"
  shows "(files (fold fs_exec (take n ops) fs) path = files fs path \<or>
          files (fold fs_exec (take n ops) fs) path = json_Marshal cd (doc_of cd book) \<and>
          json_Marshal cd (doc_of cd book) \<noteq> None) \<and>
         files (fold fs_exec ops fs) path =
           (if r = None then json_Marshal cd (doc_of cd book) else files fs path) \<and>
         (\<not> removeFails io \<and> files fs (tempPath path) = None \<longrightarrow> files (fold fs_exec ops fs) (tempPath path) = None)"
proof -
  obtain e and lops :: "'txt fs_op list" where lock: "acquireFileLock io path = (e, lops)"
    by fastforce
  have temp: "files (fold fs_exec lops fs) (tempPath path) = files fs (tempPath path)"
    using lock by (auto simp: acquireFileLock_def split: if_splits)
  show ?thesis
  proof (cases e)
    case (Some err)
    then have "r = Some err" "ops = lops" using assms lock by (simp_all add: storage_save_ops_def)
    then show ?thesis using acquire_ops_target [OF lock, of _ fs] temp
      by (metis option.distinct(1) take_all_iff order_refl)
  next
    case None
    obtain r' sops where save: "save_ops io path (json_Marshal cd (doc_of cd book)) = (r', sops)"
      by fastforce
    have ops: "r = r'" "ops = lops @ sops"
      using assms lock None save by (simp_all add: storage_save_ops_def)
    have len: "3 \<le> length sops \<and> json_Marshal cd (doc_of cd book) \<noteq> None" if "r' = None"
      using save that by (auto simp: save_ops_def split: if_splits option.splits)
    have all: "files (fold fs_exec lops fs) path = files fs path"
      using acquire_ops_target [OF lock, of "length lops" fs] by simp
    show ?thesis
      using save_ops_target [OF save, of "n - length lops" "fold fs_exec (take n lops) fs"]
        save_ops_target [OF save, of "length sops" "fold fs_exec lops fs"]
        acquire_ops_target [OF lock, of n fs] all len temp save_ops_temp [OF save, of "fold fs_exec lops fs"]
      by (auto simp: ops split: if_splits)
  qed
qed

definition toy_codec :: "(string, book_doc) codec" where
  "toy_codec = \<lparr>ma_String = (\<lambda>a. a), NewMultiaddr = Some, json_Marshal = (\<lambda>d. Some [d]),
     json_Unmarshal = (\<lambda>t. case t of [d] \<Rightarrow> Some d | _ \<Rightarrow> None)\<rparr>"

theorem storage_save_atomic_witness:
  "storage_save_ops toy_codec no_faults ''book'' empty_data =
     (None, [OpenCreate ''book.lock'', OpenTrunc ''book.tmp'',
             WriteAll ''book.tmp'' [doc_of toy_codec empty_data], Rename ''book.tmp'' ''book'']) \<and>
   files (fold fs_exec [OpenCreate ''book.lock'', OpenTrunc ''book.tmp'',
             WriteAll ''book.tmp'' [doc_of toy_codec empty_data], Rename ''book.tmp'' ''book'']
            \<lparr>files = Map.empty\<rparr>) ''book'' = Some [doc_of toy_codec empty_data]"
proof -
  have ops: "storage_save_ops toy_codec no_faults ''book'' empty_data =
     (None, [OpenCreate ''book.lock'', OpenTrunc ''book.tmp'',
             WriteAll ''book.tmp'' [doc_of toy_codec empty_data], Rename ''book.tmp'' ''book''])"
    by (simp add: storage_save_ops_def acquireFileLock_def save_ops_def no_faults_def toy_codec_def
        tempPath_def lockPath_def)
  show ?thesis
    using storage_save_atomic [OF ops, of 0 "\<lparr>files = Map.empty\<rparr>"] ops
    by (simp add: toy_codec_def)
qed

text \<open>
  What the code relies on of the two codecs: parsing inverts printing of a multiaddress, and
  decoding a non-empty text inverts encoding the document.
\<close>

definition multiaddr_roundtrip :: "('ma, 'txt) codec \<Rightarrow> bool" where
  "multiaddr_roundtrip cd = (\<forall>a. NewMultiaddr cd (ma_String cd a) = Some a)"

definition json_roundtrip :: "('ma, 'txt) codec \<Rightarrow> bool" where
  "json_roundtrip cd =
     (\<forall>d bs. json_Marshal cd d = Some bs \<longrightarrow> bs \<noteq> [] \<and> json_Unmarshal cd bs = Some d)"

lemma lock_keeps_path:
  "acquireFileLock io path = (r, ops) \<Longrightarrow> files (fold fs_exec ops fs) path = files fs path"
  using acquire_ops_target [of io path r ops "length ops" fs] by simp

lemma data_of_doc_of:
  assumes "multiaddr_roundtrip cd"
  shows "data_of cd (doc_of cd book) =
     \<lparr>Version = Version book, Peers = (\<lambda>k. map_option (persisted cd) (Peers book k))\<rparr>"
proof -
  have "PeerEntry_UnmarshalJSON cd \<circ> PeerEntry_MarshalJSON cd = persisted cd"
    using assms by (auto simp: Unmarshal_Marshal multiaddr_roundtrip_def)
  then show ?thesis by (simp add: data_of_def doc_of_def option.map_comp)
qed

lemma storage_save_file:
  assumes "storage_save cd io path book fs = (None, fs')"
  shows "\<exists>bs. json_Marshal cd (doc_of cd book) = Some bs \<and> files fs' path = Some bs"
  using assms
  by (auto simp: storage_save_def storage_save_ops_def save_ops_def split: prod.splits option.splits if_splits)

lemma storage_save_error:
  fixes cd :: "('ma, 'txt) codec" and fs :: "'txt filesys"
  assumes "storage_save cd io path book fs = (Some e, fs')"
  shows "files fs' path = files fs path"
proof -
  obtain le and lops :: "'txt fs_op list" where lock: "acquireFileLock io path = (le, lops)"
    by fastforce
  note keep = lock_keeps_path [OF lock, of fs]
  show ?thesis
  proof (cases le)
    case (Some e')
    then show ?thesis using assms lock keep by (auto simp: storage_save_def storage_save_ops_def)
  next
    case None
    obtain r sops where save: "save_ops io path (json_Marshal cd (doc_of cd book)) = (r, sops)"
      by fastforce
    then have "r = Some e" "fs' = fold fs_exec sops (fold fs_exec lops fs)"
      using assms lock None by (auto simp: storage_save_def storage_save_ops_def)
    then show ?thesis
      using save_ops_target [OF save, of "length sops" "fold fs_exec lops fs"] keep by simp
  qed
qed



text \<open>
  A file that is not a valid address book is never lost by a load. It is moved to the backup
  path, the load succeeds with an empty book, and when the move fails the load reports an error
  and the file stays where it is.
\<close>

theorem storage_load_corrupted:
  assumes "files fs path = Some data" and "data \<noteq> []" and "json_Unmarshal cd data = None"
    and "\<not> lockMkdirFails io" and "\<not> lockOpenFails io" and "\<not> flockFails io" and "\<not> readFails io"
  shows "\<exists>fs'. storage_load cd io path fs =
           (if renameFails io then Inl ParseAndBackupFailed else Inr empty_data, fs') \<and>
         files fs' (if renameFails io then path else backupPath path) = Some data"
  using assms by (simp add: storage_load_def acquireFileLock_def)

theorem storage_load_corrupted_witness:
  "\<exists>fs'. storage_load (toy_codec\<lparr>json_Unmarshal := \<lambda>t. None\<rparr>) no_faults ''book''
            \<lparr>files = [''book'' \<mapsto> [doc_of toy_codec empty_data]]\<rparr> = (Inr empty_data, fs') \<and>
         files fs' ''book.bak'' = Some [doc_of toy_codec empty_data]"
  using storage_load_corrupted [of "\<lparr>files = [''book'' \<mapsto> [doc_of toy_codec empty_data]]\<rparr>" "''book''"
      "[doc_of toy_codec empty_data]" "toy_codec\<lparr>json_Unmarshal := \<lambda>t. None\<rparr>" no_faults]
  by (simp add: no_faults_def backupPath_def)

end
