(* ===== verification/AddressBook.thy ===== *)
theory AddressBook
  imports Storage
begin

text \<open>
  The address book (\<^verbatim>\<open>src/pkg/addressbook/book.go\<close>). A book is the map of entries kept in memory, keyed by
  the text of the peer identifier (\<^verbatim>\<open>peer.ID.String\<close>, a parameter that is injective), and the
  flag of the batched changes; every method holds the book's mutex, so a history of the book is a
  sequence of whole operations, the ticks of the flush loop among them. An operation gets the
  faults of its system calls and the time it reads from the clock. The interface
  \<open>blacklist_store\<close> is what the connection gater and the connection manager rely on.
\<close>

section \<open>The book\<close>

record 'ma Book =
  storage_path :: string
  peers :: "string \<rightharpoonup> 'ma PeerEntry"
  dirty :: bool
  flushStopped :: bool \<comment> \<open>the context of the flush loop is cancelled\<close>

datatype book_err =
    PeerBlacklisted peer_id | PeerNotFound peer_id
  | SaveError store_err | LoadError store_err

type_synonym ('ma, 'txt) book_state = "'ma Book \<times> 'txt filesys"

type_synonym ('ma, 'txt) book_result = "book_err option \<times> ('ma, 'txt) book_state"

definition currentVersion :: int where
  "currentVersion = 1"

definition saveLocked :: "('ma, 'txt) codec \<Rightarrow> io_faults \<Rightarrow> ('ma, 'txt) book_state \<Rightarrow> ('ma, 'txt) book_result" where
  "saveLocked cd io s =
     (case s of (b, fs) \<Rightarrow>
       (case storage_save cd io (storage_path b) \<lparr>Version = currentVersion, Peers = peers b\<rparr> fs of
          (Some e, fs') \<Rightarrow> (Some (SaveError e), b, fs')
        | (None, fs') \<Rightarrow> (None, b\<lparr>dirty := False\<rparr>, fs')))"

definition New :: "('ma, 'txt) codec \<Rightarrow> io_faults \<Rightarrow> string \<Rightarrow> 'txt filesys \<Rightarrow>
    (book_err, 'ma Book) result \<times> 'txt filesys" where
  "New cd io path fs =
     (case storage_load cd io path fs of
        (Inl e, fs') \<Rightarrow> (Inl (LoadError e), fs')
      | (Inr d, fs') \<Rightarrow>
          (Inr \<lparr>storage_path = path, peers = Peers d, dirty = False, flushStopped = False\<rparr>, fs'))"

text \<open>The metadata argument is a Go map that may be nil; the copy has the same pairs.\<close>

definition AddPeer :: "('ma, 'txt) codec \<Rightarrow> (peer_id \<Rightarrow> string) \<Rightarrow> io_faults \<Rightarrow> time_ns \<Rightarrow>
    peer_id \<Rightarrow> 'ma list \<Rightarrow> (string \<rightharpoonup> string) option \<Rightarrow> ('ma, 'txt) book_state \<Rightarrow> ('ma, 'txt) book_result" where
  "AddPeer cd ids io now p addrs md s =
     (case s of (b, fs) \<Rightarrow>
       (case peers b (ids p) of
          Some existing \<Rightarrow>
            if Blacklisted existing then (Some (PeerBlacklisted p), b, fs)
            else
              let e1 = existing\<lparr>Multiaddrs := addrs\<rparr>;
                  e2 = (if md \<noteq> None then e1\<lparr>Metadata := md\<rparr> else e1);
                  e3 = e2\<lparr>UpdatedAt := now\<rparr>
              in saveLocked cd io (b\<lparr>peers := (peers b)(ids p \<mapsto> e3)\<rparr>, fs)
        | None \<Rightarrow>
            saveLocked cd io (b\<lparr>peers := (peers b)(ids p \<mapsto>
              \<lparr>PeerID = p, Multiaddrs = addrs, RawMultiaddrs = [], PublicKey = [], Metadata = md,
               LastSeen = 0, Blacklisted = False, CreatedAt = now, UpdatedAt = now\<rparr>)\<rparr>, fs)))"

definition RemovePeer :: "('ma, 'txt) codec \<Rightarrow> (peer_id \<Rightarrow> string) \<Rightarrow> io_faults \<Rightarrow>
    peer_id \<Rightarrow> ('ma, 'txt) book_state \<Rightarrow> ('ma, 'txt) book_result" where
  "RemovePeer cd ids io p s =
     (case s of (b, fs) \<Rightarrow>
       if peers b (ids p) = None then (Some (PeerNotFound p), b, fs)
       else saveLocked cd io (b\<lparr>peers := (peers b)(ids p := None)\<rparr>, fs))"

definition GetPeer :: "(peer_id \<Rightarrow> string) \<Rightarrow> peer_id \<Rightarrow> 'ma Book \<Rightarrow> (book_err, 'ma PeerEntry) result" where
  "GetPeer ids p b =
     (case peers b (ids p) of None \<Rightarrow> Inl (PeerNotFound p) | Some e \<Rightarrow> Inr (PeerEntry_Clone e))"

text \<open>
  Go iterates over a map in an unspecified order: the list operations take the order in which the
  keys are visited, a list of the map's keys without repetition.
\<close>

definition key_order :: "string list \<Rightarrow> 'ma Book \<Rightarrow> bool" where
  "key_order ks b \<longleftrightarrow> distinct ks \<and> set ks = dom (peers b)"

fun ListPeers :: "string list \<Rightarrow> 'ma Book \<Rightarrow> 'ma PeerEntry list" where
  "ListPeers [] b = []"
| "ListPeers (k # ks) b =
     (case peers b k of
        None \<Rightarrow> ListPeers ks b
      | Some e \<Rightarrow> if \<not> Blacklisted e then PeerEntry_Clone e # ListPeers ks b else ListPeers ks b)"

fun ListAllPeers :: "string list \<Rightarrow> 'ma Book \<Rightarrow> 'ma PeerEntry list" where
  "ListAllPeers [] b = []"
| "ListAllPeers (k # ks) b =
     (case peers b k of None \<Rightarrow> ListAllPeers ks b | Some e \<Rightarrow> PeerEntry_Clone e # ListAllPeers ks b)"

text \<open>The pattern of the methods that update an existing entry and save.\<close>

definition update_entry :: "(peer_id \<Rightarrow> string) \<Rightarrow> peer_id \<Rightarrow> ('ma PeerEntry \<Rightarrow> 'ma PeerEntry) \<Rightarrow>
    'ma Book \<Rightarrow> 'ma Book option" where
  "update_entry ids p f b =
     (case peers b (ids p) of
        None \<Rightarrow> None
      | Some e \<Rightarrow> Some (b\<lparr>peers := (peers b)(ids p \<mapsto> f e)\<rparr>))"

definition BlacklistPeer :: "('ma, 'txt) codec \<Rightarrow> (peer_id \<Rightarrow> string) \<Rightarrow> io_faults \<Rightarrow> time_ns \<Rightarrow>
    peer_id \<Rightarrow> ('ma, 'txt) book_state \<Rightarrow> ('ma, 'txt) book_result" where
  "BlacklistPeer cd ids io now p s =
     (case s of (b, fs) \<Rightarrow>
       (case update_entry ids p (\<lambda>e. e\<lparr>Blacklisted := True, UpdatedAt := now\<rparr>) b of
          None \<Rightarrow> (Some (PeerNotFound p), b, fs)
        | Some b' \<Rightarrow> saveLocked cd io (b', fs)))"

definition UnblacklistPeer :: "('ma, 'txt) codec \<Rightarrow> (peer_id \<Rightarrow> string) \<Rightarrow> io_faults \<Rightarrow> time_ns \<Rightarrow>
    peer_id \<Rightarrow> ('ma, 'txt) book_state \<Rightarrow> ('ma, 'txt) book_result" where
  "UnblacklistPeer cd ids io now p s =
     (case s of (b, fs) \<Rightarrow>
       (case update_entry ids p (\<lambda>e. e\<lparr>Blacklisted := False, UpdatedAt := now\<rparr>) b of
          None \<Rightarrow> (Some (PeerNotFound p), b, fs)
        | Some b' \<Rightarrow> saveLocked cd io (b', fs)))"

definition IsBlacklisted :: "(peer_id \<Rightarrow> string) \<Rightarrow> 'ma Book \<Rightarrow> peer_id \<Rightarrow> bool" where
  "IsBlacklisted ids b p = (case peers b (ids p) of None \<Rightarrow> False | Some e \<Rightarrow> Blacklisted e)"

definition UpdatePublicKey :: "('ma, 'txt) codec \<Rightarrow> (peer_id \<Rightarrow> string) \<Rightarrow> io_faults \<Rightarrow> time_ns \<Rightarrow>
    peer_id \<Rightarrow> bytes \<Rightarrow> ('ma, 'txt) book_state \<Rightarrow> ('ma, 'txt) book_result" where
  "UpdatePublicKey cd ids io now p key s =
     (case s of (b, fs) \<Rightarrow>
       (case update_entry ids p (\<lambda>e. e\<lparr>PublicKey := key, UpdatedAt := now\<rparr>) b of
          None \<Rightarrow> (Some (PeerNotFound p), b, fs)
        | Some b' \<Rightarrow> saveLocked cd io (b', fs)))"

text \<open>A batched change: the book becomes dirty and nothing is written.\<close>

definition UpdateLastSeen :: "(peer_id \<Rightarrow> string) \<Rightarrow> time_ns \<Rightarrow> peer_id \<Rightarrow>
    ('ma, 'txt) book_state \<Rightarrow> ('ma, 'txt) book_result" where
  "UpdateLastSeen ids now p s =
     (case s of (b, fs) \<Rightarrow>
       (case update_entry ids p (\<lambda>e. e\<lparr>LastSeen := now, UpdatedAt := now\<rparr>) b of
          None \<Rightarrow> (Some (PeerNotFound p), b, fs)
        | Some b' \<Rightarrow> (None, b'\<lparr>dirty := True\<rparr>, fs)))"

text \<open>The loop of \<^verbatim>\<open>UpdateMetadata\<close> over the pairs of the argument, in the order they are visited.\<close>

fun merge_metadata :: "(string \<times> string) list \<Rightarrow> (string \<rightharpoonup> string) \<Rightarrow> (string \<rightharpoonup> string)" where
  "merge_metadata [] m = m"
| "merge_metadata ((k, v) # kvs) m =
     merge_metadata kvs (if v = '''' then m(k := None) else m(k \<mapsto> v))"

definition UpdateMetadata :: "('ma, 'txt) codec \<Rightarrow> (peer_id \<Rightarrow> string) \<Rightarrow> io_faults \<Rightarrow> time_ns \<Rightarrow>
    peer_id \<Rightarrow> (string \<times> string) list \<Rightarrow> ('ma, 'txt) book_state \<Rightarrow> ('ma, 'txt) book_result" where
  "UpdateMetadata cd ids io now p kvs s =
     (case s of (b, fs) \<Rightarrow>
       (case update_entry ids p
               (\<lambda>e. e\<lparr>Metadata := Some (merge_metadata kvs (case Metadata e of None \<Rightarrow> Map.empty | Some m \<Rightarrow> m)),
                      UpdatedAt := now\<rparr>) b of
          None \<Rightarrow> (Some (PeerNotFound p), b, fs)
        | Some b' \<Rightarrow> saveLocked cd io (b', fs)))"

definition HasPeer :: "(peer_id \<Rightarrow> string) \<Rightarrow> 'ma Book \<Rightarrow> peer_id \<Rightarrow> bool" where
  "HasPeer ids b p = (peers b (ids p) \<noteq> None)"

definition Count :: "string list \<Rightarrow> 'ma Book \<Rightarrow> nat" where
  "Count ks b = length ks" \<comment> \<open>\<^verbatim>\<open>len(b.peers)\<close> for an enumeration \<open>ks\<close> of the keys\<close>

fun CountActive :: "string list \<Rightarrow> 'ma Book \<Rightarrow> nat" where
  "CountActive [] b = 0"
| "CountActive (k # ks) b =
     (case peers b k of
        None \<Rightarrow> CountActive ks b
      | Some e \<Rightarrow> if \<not> Blacklisted e then Suc (CountActive ks b) else CountActive ks b)"

definition Clear :: "('ma, 'txt) codec \<Rightarrow> io_faults \<Rightarrow> ('ma, 'txt) book_state \<Rightarrow> ('ma, 'txt) book_result" where
  "Clear cd io s = (case s of (b, fs) \<Rightarrow> saveLocked cd io (b\<lparr>peers := Map.empty\<rparr>, fs))"

definition Reload :: "('ma, 'txt) codec \<Rightarrow> io_faults \<Rightarrow> ('ma, 'txt) book_state \<Rightarrow> ('ma, 'txt) book_result" where
  "Reload cd io s =
     (case s of (b, fs) \<Rightarrow>
       (case storage_load cd io (storage_path b) fs of
          (Inl e, fs') \<Rightarrow> (Some (LoadError e), b, fs')
        | (Inr d, fs') \<Rightarrow> (None, b\<lparr>peers := Peers d, dirty := False\<rparr>, fs')))"

text \<open>One tick of \<^verbatim>\<open>flushLoop\<close>; its error is ignored.\<close>

definition flush_tick :: "('ma, 'txt) codec \<Rightarrow> io_faults \<Rightarrow> ('ma, 'txt) book_state \<Rightarrow> ('ma, 'txt) book_state" where
  "flush_tick cd io s = (if dirty (fst s) then snd (saveLocked cd io s) else s)"

definition Flush :: "('ma, 'txt) codec \<Rightarrow> io_faults \<Rightarrow> ('ma, 'txt) book_state \<Rightarrow> ('ma, 'txt) book_result" where
  "Flush cd io s = (if \<not> dirty (fst s) then (None, s) else saveLocked cd io s)"

definition Book_Close :: "('ma, 'txt) codec \<Rightarrow> io_faults \<Rightarrow> ('ma, 'txt) book_state \<Rightarrow> ('ma, 'txt) book_result" where
  "Book_Close cd io s =
     (case s of (b, fs) \<Rightarrow>
       let s' = (b\<lparr>flushStopped := True\<rparr>, fs) in
       if dirty b then saveLocked cd io s' else (None, s'))"

section \<open>Histories\<close>

datatype 'ma book_cmd =
    CAddPeer peer_id "'ma list" "(string \<rightharpoonup> string) option"
  | CRemovePeer peer_id
  | CBlacklistPeer peer_id
  | CUnblacklistPeer peer_id
  | CUpdatePublicKey peer_id bytes
  | CUpdateLastSeen peer_id
  | CUpdateMetadata peer_id "(string \<times> string) list"
  | CClear
  | CReload
  | CTick
  | CFlush
  | CClose

text \<open>A tick may still win the loop's select against the cancelled context, so it is allowed at any time.\<close>

record 'ma book_call =
  cmd :: "'ma book_cmd"
  faults :: io_faults
  clock :: time_ns

definition book_exec :: "('ma, 'txt) codec \<Rightarrow> (peer_id \<Rightarrow> string) \<Rightarrow> 'ma book_call \<Rightarrow>
    ('ma, 'txt) book_state \<Rightarrow> ('ma, 'txt) book_result" where
  "book_exec cd ids c s =
     (case cmd c of
        CAddPeer p addrs md \<Rightarrow> AddPeer cd ids (faults c) (clock c) p addrs md s
      | CRemovePeer p \<Rightarrow> RemovePeer cd ids (faults c) p s
      | CBlacklistPeer p \<Rightarrow> BlacklistPeer cd ids (faults c) (clock c) p s
      | CUnblacklistPeer p \<Rightarrow> UnblacklistPeer cd ids (faults c) (clock c) p s
      | CUpdatePublicKey p k \<Rightarrow> UpdatePublicKey cd ids (faults c) (clock c) p k s
      | CUpdateLastSeen p \<Rightarrow> UpdateLastSeen ids (clock c) p s
      | CUpdateMetadata p kvs \<Rightarrow> UpdateMetadata cd ids (faults c) (clock c) p kvs s
      | CClear \<Rightarrow> Clear cd (faults c) s
      | CReload \<Rightarrow> Reload cd (faults c) s
      | CTick \<Rightarrow> (None, flush_tick cd (faults c) s)
      | CFlush \<Rightarrow> Flush cd (faults c) s
      | CClose \<Rightarrow> Book_Close cd (faults c) s)"

inductive book_step :: "('ma, 'txt) codec \<Rightarrow> (peer_id \<Rightarrow> string) \<Rightarrow> ('ma, 'txt) book_state \<Rightarrow>
    'ma book_call \<times> book_err option \<Rightarrow> ('ma, 'txt) book_state \<Rightarrow> bool" for cd ids where
  book_step_call: "book_exec cd ids c s = (r, s') \<Longrightarrow> book_step cd ids s (c, r) s'"

inductive_cases book_stepE: "book_step cd ids s l s'"

section \<open>Interface: a store of banned peers\<close>

locale blacklist_store =
  fixes banned :: "'s \<Rightarrow> 'p \<Rightarrow> bool"
    and step :: "'s \<Rightarrow> 'l \<Rightarrow> 's \<Rightarrow> bool"
    and lifts :: "'l \<Rightarrow> 'p \<Rightarrow> bool"
  assumes ban_kept: "banned s p \<Longrightarrow> step s l s' \<Longrightarrow> \<not> lifts l p \<Longrightarrow> banned s' p"
begin

lemma banned_runs:
  "runs step s ls s' \<Longrightarrow> banned s p \<Longrightarrow> \<forall>l \<in> set ls. \<not> lifts l p \<Longrightarrow> banned s' p"
  by (induction rule: runs.induct) (auto intro: ban_kept)

end

section \<open>Lemmas on single operations\<close>

lemma saveLocked_peers [simp]:
  "peers (fst (snd (saveLocked cd io s))) = peers (fst s)"
  "storage_path (fst (snd (saveLocked cd io s))) = storage_path (fst s)"
  by (auto simp: saveLocked_def split: prod.splits option.splits)

lemma saveLocked_result: "fst (saveLocked cd io s) = None \<or> (\<exists>e. fst (saveLocked cd io s) = Some (SaveError e))"
  by (auto simp: saveLocked_def split: prod.splits option.splits)

lemma flush_tick_peers [simp]:
  "peers (fst (flush_tick cd io s)) = peers (fst s)"
  "storage_path (fst (flush_tick cd io s)) = storage_path (fst s)"
  by (simp_all add: flush_tick_def)

lemma Flush_peers [simp]:
  "peers (fst (snd (Flush cd io s))) = peers (fst s)"
  "storage_path (fst (snd (Flush cd io s))) = storage_path (fst s)"
  by (simp_all add: Flush_def)

lemma Book_Close_peers [simp]:
  "peers (fst (snd (Book_Close cd io s))) = peers (fst s)"
  "storage_path (fst (snd (Book_Close cd io s))) = storage_path (fst s)"
  by (auto simp: Book_Close_def Let_def split: prod.splits)

text \<open>
  What each operation does to the entries in memory, whether its save succeeds or not. \<^verbatim>\<open>Reload\<close> is
  left out: it depends on the file.
\<close>

fun mem_effect :: "(peer_id \<Rightarrow> string) \<Rightarrow> time_ns \<Rightarrow> 'ma book_cmd \<Rightarrow>
    (string \<rightharpoonup> 'ma PeerEntry) \<Rightarrow> (string \<rightharpoonup> 'ma PeerEntry)" where
  "mem_effect ids now (CAddPeer p addrs md) m =
     (case m (ids p) of
        Some e \<Rightarrow>
          if Blacklisted e then m
          else m(ids p \<mapsto> e\<lparr>Multiaddrs := addrs, Metadata := (if md = None then Metadata e else md),
                 UpdatedAt := now\<rparr>)
      | None \<Rightarrow>
          m(ids p \<mapsto> \<lparr>PeerID = p, Multiaddrs = addrs, RawMultiaddrs = [], PublicKey = [], Metadata = md,
               LastSeen = 0, Blacklisted = False, CreatedAt = now, UpdatedAt = now\<rparr>))"
| "mem_effect ids now (CRemovePeer p) m = m(ids p := None)"
| "mem_effect ids now (CBlacklistPeer p) m =
     m(ids p := map_option (\<lambda>e. e\<lparr>Blacklisted := True, UpdatedAt := now\<rparr>) (m (ids p)))"
| "mem_effect ids now (CUnblacklistPeer p) m =
     m(ids p := map_option (\<lambda>e. e\<lparr>Blacklisted := False, UpdatedAt := now\<rparr>) (m (ids p)))"
| "mem_effect ids now (CUpdatePublicKey p k) m =
     m(ids p := map_option (\<lambda>e. e\<lparr>PublicKey := k, UpdatedAt := now\<rparr>) (m (ids p)))"
| "mem_effect ids now (CUpdateLastSeen p) m =
     m(ids p := map_option (\<lambda>e. e\<lparr>LastSeen := now, UpdatedAt := now\<rparr>) (m (ids p)))"
| "mem_effect ids now (CUpdateMetadata p kvs) m =
     m(ids p := map_option (\<lambda>e. e\<lparr>Metadata := Some (merge_metadata kvs
          (case Metadata e of None \<Rightarrow> Map.empty | Some md \<Rightarrow> md)), UpdatedAt := now\<rparr>) (m (ids p)))"
| "mem_effect ids now CClear m = Map.empty"
| "mem_effect ids now c m = m"

lemma map_upd_same [simp]: "m k = None \<Longrightarrow> m(k := None) = m"
  by auto

lemma book_exec_peers:
  assumes "cmd c \<noteq> CReload"
  shows "peers (fst (snd (book_exec cd ids c s))) = mem_effect ids (clock c) (cmd c) (peers (fst s))"
  using assms
  by (cases "cmd c")
    (auto simp: book_exec_def AddPeer_def RemovePeer_def BlacklistPeer_def UnblacklistPeer_def
      UpdatePublicKey_def UpdateLastSeen_def UpdateMetadata_def Clear_def update_entry_def Let_def
      split: prod.splits option.splits)

text \<open>
  The specification of the book: a map from identifiers to entries, without files. A call reports the error of its lookup, and else success or, if it
  writes the file, an error of saving; the map changes in the same way whether the file could be written or not.
\<close>

fun lookup_error :: "(peer_id \<Rightarrow> string) \<Rightarrow> 'ma book_cmd \<Rightarrow> (string \<rightharpoonup> 'ma PeerEntry) \<Rightarrow> book_err option" where
  "lookup_error ids (CAddPeer p addrs md) m =
     (case m (ids p) of Some e \<Rightarrow> if Blacklisted e then Some (PeerBlacklisted p) else None | None \<Rightarrow> None)"
| "lookup_error ids (CRemovePeer p) m = (if m (ids p) = None then Some (PeerNotFound p) else None)"
| "lookup_error ids (CBlacklistPeer p) m = (if m (ids p) = None then Some (PeerNotFound p) else None)"
| "lookup_error ids (CUnblacklistPeer p) m = (if m (ids p) = None then Some (PeerNotFound p) else None)"
| "lookup_error ids (CUpdatePublicKey p k) m = (if m (ids p) = None then Some (PeerNotFound p) else None)"
| "lookup_error ids (CUpdateLastSeen p) m = (if m (ids p) = None then Some (PeerNotFound p) else None)"
| "lookup_error ids (CUpdateMetadata p kvs) m = (if m (ids p) = None then Some (PeerNotFound p) else None)"
| "lookup_error ids c m = None"

fun reports_save :: "'ma book_cmd \<Rightarrow> bool" where
  "reports_save (CUpdateLastSeen p) = False"
| "reports_save CTick = False"
| "reports_save c = True"

definition spec_step :: "(peer_id \<Rightarrow> string) \<Rightarrow> (string \<rightharpoonup> 'ma PeerEntry) \<Rightarrow> 'ma book_call \<times> book_err option \<Rightarrow>
    (string \<rightharpoonup> 'ma PeerEntry) \<Rightarrow> bool" where
  "spec_step ids m l m' \<longleftrightarrow>
     m' = mem_effect ids (clock (fst l)) (cmd (fst l)) m \<and>
     (case lookup_error ids (cmd (fst l)) m of
        Some e \<Rightarrow> snd l = Some e
      | None \<Rightarrow> snd l = None \<or> reports_save (cmd (fst l)) \<and> (\<exists>e. snd l = Some (SaveError e)))"

lemma book_exec_result:
  assumes "cmd c \<noteq> CReload"
  shows "case lookup_error ids (cmd c) (peers (fst s)) of
      Some e \<Rightarrow> fst (book_exec cd ids c s) = Some e
    | None \<Rightarrow> fst (book_exec cd ids c s) = None \<or> reports_save (cmd c) \<and> (\<exists>e. fst (book_exec cd ids c s) = Some (SaveError e))"
  using assms saveLocked_result [of cd "faults c"]
  by (cases s; cases "cmd c")
    (auto simp: book_exec_def AddPeer_def RemovePeer_def BlacklistPeer_def UnblacklistPeer_def
      UpdatePublicKey_def UpdateLastSeen_def UpdateMetadata_def Clear_def Flush_def Book_Close_def update_entry_def Let_def
      split: option.splits)

interpretation bookspec: simulation "\<lambda>s. peers (fst s)" "book_step cd ids" "spec_step ids" "\<lambda>l. cmd (fst l) \<noteq> CReload"
proof unfold_locales
  fix s l s'
  assume "book_step cd ids s l s'" and nr: "cmd (fst l) \<noteq> CReload"
  then obtain c r where "l = (c, r)" "book_exec cd ids c s = (r, s')" by (auto elim: book_stepE)
  then show "spec_step ids (peers (fst s)) l (peers (fst s'))"
    using book_exec_peers [where c = c and cd = cd and ids = ids and s = s] book_exec_result [where c = c and cd = cd and ids = ids and s = s] nr by (simp add: spec_step_def split: option.splits)
qed

text \<open>The calls after which a banned peer may be allowed again.\<close>

fun lifts_ban :: "(peer_id \<Rightarrow> string) \<Rightarrow> 'ma book_cmd \<Rightarrow> peer_id \<Rightarrow> bool" where
  "lifts_ban ids (CRemovePeer q) p = (ids q = ids p)"
| "lifts_ban ids (CUnblacklistPeer q) p = (ids q = ids p)"
| "lifts_ban ids CClear p = True"
| "lifts_ban ids CReload p = True"
| "lifts_ban ids c p = False"

lemma mem_effect_keeps_ban:
  assumes "m (ids p) = Some e" and "Blacklisted e" and "\<not> lifts_ban ids c p"
  shows "\<exists>e'. mem_effect ids now c m (ids p) = Some e' \<and> Blacklisted e'"
  using assms by (cases c; (auto; fail)?; auto split: option.splits)

lemma book_step_keeps_ban:
  assumes "IsBlacklisted ids (fst s) p" and "book_step cd ids s l s'" and "\<not> lifts_ban ids (cmd (fst l)) p"
  shows "IsBlacklisted ids (fst s') p"
proof -
  obtain c r where l: "l = (c, r)" "book_exec cd ids c s = (r, s')"
    using assms(2) by (auto elim: book_stepE)
  moreover from l assms(3) have "cmd c \<noteq> CReload" by auto
  ultimately have "peers (fst s') = mem_effect ids (clock c) (cmd c) (peers (fst s))"
    using book_exec_peers [of c cd ids s] by simp
  then show ?thesis
    using assms(1,3) l mem_effect_keeps_ban [of "peers (fst s)" ids p _ "cmd c" "clock c"]
    by (fastforce simp: IsBlacklisted_def split: option.splits)
qed

interpretation book: blacklist_store "\<lambda>s. IsBlacklisted ids (fst s)" "book_step cd ids"
    "\<lambda>l. lifts_ban ids (cmd (fst l))"
  by unfold_locales (rule book_step_keeps_ban)

section \<open>What is on disk\<close>

text \<open>The entries a load of the file would return; \<open>None\<close> for a corrupted file.\<close>

definition file_peers :: "('ma, 'txt) codec \<Rightarrow> string \<Rightarrow> 'txt filesys \<Rightarrow> (string \<rightharpoonup> 'ma PeerEntry) option" where
  "file_peers cd path fs =
     (case files fs path of
        None \<Rightarrow> Some Map.empty
      | Some data \<Rightarrow>
          if data = [] then Some Map.empty
          else map_option (\<lambda>d. Peers (data_of cd d)) (json_Unmarshal cd data))"

definition same_entries :: "('ma, 'txt) codec \<Rightarrow> (string \<rightharpoonup> 'ma PeerEntry) \<Rightarrow> (string \<rightharpoonup> 'ma PeerEntry) \<Rightarrow> bool" where
  "same_entries cd m m' \<longleftrightarrow> (\<forall>k. map_option (persisted cd) (m k) = map_option (persisted cd) (m' k))"

text \<open>A book that is not dirty has its entries on disk.\<close>

definition durable :: "('ma, 'txt) codec \<Rightarrow> ('ma, 'txt) book_state \<Rightarrow> bool" where
  "durable cd s \<longleftrightarrow>
     dirty (fst s) \<or>
     (\<exists>m. file_peers cd (storage_path (fst s)) (snd s) = Some m \<and> same_entries cd m (peers (fst s)))"

fun save_failed :: "book_err option \<Rightarrow> bool" where
  "save_failed (Some (SaveError e)) = True"
| "save_failed r = False"

lemma persisted_idem: "persisted cd (persisted cd e) = persisted cd e"
  by (auto simp: persisted_def PeerEntry_Clone_def split: option.splits)

lemma same_entries_refl [simp]: "same_entries cd m m"
  by (simp add: same_entries_def)

lemma same_entries_persisted: "same_entries cd (\<lambda>k. map_option (persisted cd) (m k)) m"
  by (simp add: same_entries_def option.map_comp comp_def persisted_idem)

lemma storage_save_file_peers:
  assumes "multiaddr_roundtrip cd" and "json_roundtrip cd"
    and "storage_save cd io path book fs = (None, fs')"
  shows "file_peers cd path fs' = Some (\<lambda>k. map_option (persisted cd) (Peers book k))"
proof -
  obtain bs where "json_Marshal cd (doc_of cd book) = Some bs" "files fs' path = Some bs"
    using storage_save_file [OF assms(3)] by blast
  moreover from this(1) have "bs \<noteq> []" "json_Unmarshal cd bs = Some (doc_of cd book)"
    using assms(2) by (auto simp: json_roundtrip_def)
  ultimately show ?thesis by (simp add: file_peers_def data_of_doc_of [OF assms(1)])
qed

lemma storage_load_file_peers:
  fixes cd :: "('ma, 'txt) codec"
  assumes "storage_load cd io path fs = (r, fs')"
  shows "case r of Inr d \<Rightarrow> file_peers cd path fs' = Some (Peers d)
                 | Inl e \<Rightarrow> file_peers cd path fs' = file_peers cd path fs"
proof -
  obtain le and lops :: "'txt fs_op list" where lock: "acquireFileLock io path = (le, lops)"
    by fastforce
  have keep: "files (fold fs_exec lops fs) path = files fs path" by (rule lock_keeps_path [OF lock])
  show ?thesis
    using assms lock keep
    by (auto simp: storage_load_def file_peers_def empty_data_def Let_def
        split: option.splits if_splits)
qed

lemma storage_load_succeeds:
  assumes "file_peers cd path fs = Some m"
    and "\<not> lockMkdirFails io" and "\<not> lockOpenFails io" and "\<not> flockFails io" and "\<not> readFails io"
  shows "\<exists>d fs'. storage_load cd io path fs = (Inr d, fs') \<and> Peers d = m"
  using assms
  by (auto simp: storage_load_def acquireFileLock_def file_peers_def empty_data_def
      split: option.splits if_splits)

lemma saveLocked_durable:
  assumes "multiaddr_roundtrip cd" and "json_roundtrip cd" and "saveLocked cd io s = (None, s')"
  shows "durable cd s' \<and> \<not> dirty (fst s')"
proof -
  obtain fs' where save: "storage_save cd io (storage_path (fst s))
        \<lparr>Version = currentVersion, Peers = peers (fst s)\<rparr> (snd s) = (None, fs')"
      and s': "s' = ((fst s)\<lparr>dirty := False\<rparr>, fs')"
    using assms(3) by (auto simp: saveLocked_def split: prod.splits option.splits)
  then show ?thesis
    using storage_save_file_peers [OF assms(1,2) save] by (simp add: durable_def same_entries_persisted)
qed

lemma saveLocked_error_dirty:
  "saveLocked cd io s = (Some e, s') \<Longrightarrow> dirty (fst s) \<Longrightarrow> durable cd s'"
  by (auto simp: saveLocked_def durable_def split: prod.splits option.splits)

lemma saveLocked_ok_durable:
  assumes "multiaddr_roundtrip cd" and "json_roundtrip cd"
    and "saveLocked cd io s = (r, s')" and "\<not> save_failed r"
  shows "durable cd s'"
proof (cases r)
  case None
  then show ?thesis using saveLocked_durable [OF assms(1,2)] assms(3) by blast
next
  case (Some e)
  then show ?thesis using saveLocked_result [of cd io s] assms(3,4) by auto
qed

lemma flush_tick_durable:
  assumes "multiaddr_roundtrip cd" and "json_roundtrip cd" and "durable cd s"
  shows "durable cd (flush_tick cd io s)"
proof (cases "dirty (fst s)")
  case True
  obtain r s' where "saveLocked cd io s = (r, s')" by (metis surj_pair)
  then show ?thesis
    using True saveLocked_durable [OF assms(1,2), of io s s'] saveLocked_error_dirty [of cd io s _ s']
    by (cases r) (simp_all add: flush_tick_def)
qed (simp add: flush_tick_def assms(3))

lemma Reload_durable:
  assumes "durable cd s" and "Reload cd io s = (r, s')"
  shows "durable cd s'"
proof -
  obtain lr fs' where load: "storage_load cd io (storage_path (fst s)) (snd s) = (lr, fs')"
    by fastforce
  show ?thesis
    using assms storage_load_file_peers [OF load] load
    by (cases lr) (auto simp: Reload_def durable_def split: prod.splits)
qed

lemma Book_Close_durable:
  assumes "multiaddr_roundtrip cd" and "json_roundtrip cd" and "durable cd s"
    and "Book_Close cd io s = (r, s')" and "\<not> save_failed r"
  shows "durable cd s' \<and> \<not> dirty (fst s')"
proof (cases "dirty (fst s)")
  case True
  then have save: "saveLocked cd io ((fst s)\<lparr>flushStopped := True\<rparr>, snd s) = (r, s')"
    using assms(4) by (simp add: Book_Close_def split: prod.splits)
  then have "r = None" using saveLocked_result [of cd io "((fst s)\<lparr>flushStopped := True\<rparr>, snd s)"] assms(5)
    by auto
  then show ?thesis using saveLocked_durable [OF assms(1,2)] save by simp
qed (use assms in \<open>auto simp: Book_Close_def durable_def Let_def split: prod.splits\<close>)

lemma book_exec_durable:
  assumes codec: "multiaddr_roundtrip cd" "json_roundtrip cd" and "durable cd s"
    and "book_exec cd ids c s = (r, s')" and "\<not> save_failed r"
  shows "durable cd s'"
proof -
  note save = saveLocked_ok_durable [OF codec]
  show ?thesis
  proof (cases "cmd c")
    case (CUpdateLastSeen p)
    then show ?thesis using assms(3,4)
      by (auto simp: book_exec_def UpdateLastSeen_def durable_def split: prod.splits option.splits)
  next
    case CReload
    then show ?thesis using assms(3,4) Reload_durable [of cd s] by (simp add: book_exec_def)
  next
    case CTick
    then show ?thesis using assms(3,4) flush_tick_durable [OF codec, of s] by (auto simp: book_exec_def)
  next
    case CClose
    then show ?thesis using assms Book_Close_durable [OF codec] by (auto simp: book_exec_def)
  qed (use assms(3-) in \<open>auto simp: book_exec_def AddPeer_def RemovePeer_def BlacklistPeer_def
      UnblacklistPeer_def UpdatePublicKey_def UpdateMetadata_def Clear_def Flush_def Let_def
      split: prod.splits option.splits if_splits intro: save\<close>)
qed

text \<open>A book that has just been opened, and the calls whose save does not fail.\<close>

definition opened :: "('ma, 'txt) codec \<Rightarrow> ('ma, 'txt) book_state \<Rightarrow> bool" where
  "opened cd s \<longleftrightarrow> (\<exists>io path fs. New cd io path fs = (Inr (fst s), snd s))"

lemma New_durable:
  assumes "New cd io path fs = (Inr b, fs')"
  shows "durable cd (b, fs') \<and> storage_path b = path"
proof -
  obtain r fs1 where load: "storage_load cd io path fs = (r, fs1)" by fastforce
  then show ?thesis
    using assms storage_load_file_peers [OF load] by (cases r) (auto simp: New_def durable_def)
qed

lemma opened_durable: "opened cd s \<Longrightarrow> durable cd s"
  using New_durable by (fastforce simp: opened_def)

interpretation disk: invariant_system "opened cd"
    "\<lambda>s l s'. book_step cd ids s l s' \<and> \<not> save_failed (snd l)"
    "\<lambda>s. multiaddr_roundtrip cd \<and> json_roundtrip cd \<longrightarrow> durable cd s"
  by unfold_locales (auto simp: opened_durable elim!: book_stepE intro: book_exec_durable)

lemma book_exec_path: "storage_path (fst (snd (book_exec cd ids c s))) = storage_path (fst s)"
  by (cases "cmd c")
    (auto simp: book_exec_def AddPeer_def RemovePeer_def BlacklistPeer_def UnblacklistPeer_def
      UpdatePublicKey_def UpdateLastSeen_def UpdateMetadata_def Clear_def Reload_def update_entry_def
      Let_def split: prod.splits option.splits sum.splits)

lemma book_runs_path:
  "runs (book_step cd ids) s ls s' \<Longrightarrow> storage_path (fst s') = storage_path (fst s)"
proof (induction rule: runs.induct)
  case (runs_snoc s ls s' l s'')
  then show ?case using book_exec_path by (metis book_stepE snd_conv)
qed simp

lemma New_reads_durable:
  assumes "durable cd s" and "\<not> dirty (fst s)"
    and "\<not> lockMkdirFails io" and "\<not> lockOpenFails io" and "\<not> flockFails io" and "\<not> readFails io"
  shows "\<exists>b fs'. New cd io (storage_path (fst s)) (snd s) = (Inr b, fs') \<and>
            same_entries cd (peers b) (peers (fst s))"
proof -
  obtain m where m: "file_peers cd (storage_path (fst s)) (snd s) = Some m"
      "same_entries cd m (peers (fst s))"
    using assms(1,2) by (auto simp: durable_def)
  then obtain d fs' where "storage_load cd io (storage_path (fst s)) (snd s) = (Inr d, fs')" "Peers d = m"
    using storage_load_succeeds [OF m(1) assms(3-6)] by blast
  then show ?thesis using m(2) by (simp add: New_def)
qed

section \<open>Properties\<close>

text \<open>
  A blacklisted peer stays blacklisted. In every history of calls on the book, whatever saves
  and loads fail, a peer that is blacklisted is still blacklisted at the end unless the history
  unblacklists or removes that very peer, clears the book or reloads it; in particular adding the
  peer again is refused with an error and changes neither the book nor the disk.
\<close>

theorem blacklisted_until_lifted:
  assumes "IsBlacklisted ids (fst s) p"
    and "runs (book_step cd ids) s ls s'"
    and "\<forall>l \<in> set ls. \<not> lifts_ban ids (cmd (fst l)) p"
  shows "IsBlacklisted ids (fst s') p \<and> AddPeer cd ids io now p addrs md s' = (Some (PeerBlacklisted p), s')"
proof -
  have "IsBlacklisted ids (fst s') p" by (rule book.banned_runs [OF assms(2,1,3)])
  then show ?thesis by (auto simp: IsBlacklisted_def AddPeer_def split: option.splits prod.splits)
qed


definition toy_entry :: "string PeerEntry" where
  "toy_entry = \<lparr>PeerID = ''p'', Multiaddrs = [''/ip4/1''], RawMultiaddrs = [], PublicKey = [], Metadata = None,
     LastSeen = 0, Blacklisted = True, CreatedAt = 1, UpdatedAt = 2\<rparr>"

definition toy_book :: "string Book" where
  "toy_book = \<lparr>storage_path = ''book'', peers = [''p'' \<mapsto> toy_entry], dirty = False, flushStopped = False\<rparr>"


theorem blacklisted_until_lifted_witness:
  "AddPeer toy_codec (\<lambda>p. p) no_faults 9 ''p'' [] None
     (snd (book_exec toy_codec (\<lambda>p. p)
        \<lparr>cmd = CUpdateLastSeen ''p'', faults = no_faults, clock = 5\<rparr> (toy_book, \<lparr>files = Map.empty\<rparr>))) =
   (Some (PeerBlacklisted ''p''),
    snd (book_exec toy_codec (\<lambda>p. p)
        \<lparr>cmd = CUpdateLastSeen ''p'', faults = no_faults, clock = 5\<rparr> (toy_book, \<lparr>files = Map.empty\<rparr>)))"
proof -
  let ?c = "\<lparr>cmd = CUpdateLastSeen ''p'', faults = no_faults, clock = 5\<rparr>"
  let ?s = "(toy_book, \<lparr>files = Map.empty :: string \<rightharpoonup> book_doc list\<rparr>)"
  let ?r = "book_exec toy_codec (\<lambda>p. p) ?c ?s"
  have "book_step toy_codec (\<lambda>p. p) ?s (?c, fst ?r) (snd ?r)" by (simp add: book_step_call)
  then have "runs (book_step toy_codec (\<lambda>p. p)) ?s [(?c, fst ?r)] (snd ?r)"
    by (rule runs_cons) (rule runs_nil)
  then show ?thesis
    using blacklisted_until_lifted [of "\<lambda>p. p" ?s "''p''" toy_codec "[(?c, fst ?r)]" "snd ?r"
        no_faults 9 "[]" None]
    by (simp add: IsBlacklisted_def toy_book_def toy_entry_def)
qed

text \<open>
  Durability. Take any history of calls on a book that has been opened, in which no call reports a
  failed save (background flushes may fail), ending with a successful \<^verbatim>\<open>Close\<close>. Opening the
  same path again, when the file can be locked and read, succeeds and gives exactly the entries that
  were in memory, up to what the file format does not distinguish.
\<close>

theorem book_survives_reopen:
  assumes codec: "multiaddr_roundtrip cd" "json_roundtrip cd"
    and open1: "New cd io path fs = (Inr b, fs0)"
    and history: "runs (book_step cd ids) (b, fs0) ls s" "\<forall>l \<in> set ls. \<not> save_failed (snd l)"
    and closed: "Book_Close cd io1 s = (None, s')"
    and "\<not> lockMkdirFails io2" and "\<not> lockOpenFails io2" and "\<not> flockFails io2" and "\<not> readFails io2"
  shows "\<exists>b' fs'. New cd io2 path (snd s') = (Inr b', fs') \<and> same_entries cd (peers b') (peers (fst s))"
proof -
  have "opened cd (b, fs0)" using open1 by (auto simp: opened_def)
  then have "durable cd s"
    using disk.inv_reachable [OF _ runs_restrict [OF history]] codec by blast
  then have "durable cd s' \<and> \<not> dirty (fst s')"
    using Book_Close_durable [OF codec _ closed] by simp
  moreover have "storage_path (fst s') = path" "peers (fst s') = peers (fst s)"
    using New_durable [OF open1] book_runs_path [OF history(1)] Book_Close_peers [of cd io1 s] closed by auto
  ultimately show ?thesis using New_reads_durable [of cd s' io2] assms(7-) by simp
qed

theorem book_survives_reopen_witness:
  "\<exists>b fs0 r s s' b' fs'.
     New toy_codec no_faults ''book'' \<lparr>files = Map.empty\<rparr> = (Inr b, fs0) \<and>
     book_exec toy_codec (\<lambda>p. p) \<lparr>cmd = CAddPeer ''p'' [''a''] None, faults = no_faults, clock = 5\<rparr> (b, fs0) = (r, s) \<and>
     Book_Close toy_codec no_faults s = (None, s') \<and>
     New toy_codec no_faults ''book'' (snd s') = (Inr b', fs') \<and> HasPeer (\<lambda>p. p) b' ''p''"
proof -
  let ?fs = "\<lparr>files = Map.empty :: string \<rightharpoonup> book_doc list\<rparr>"
  let ?c = "\<lparr>cmd = CAddPeer ''p'' [''a''] None, faults = no_faults, clock = 5\<rparr>"
  obtain b fs0 where o: "New toy_codec no_faults ''book'' ?fs = (Inr b, fs0)" and b: "peers b = Map.empty"
    by (simp add: New_def storage_load_def acquireFileLock_def no_faults_def Let_def empty_data_def)
  obtain s where r: "book_exec toy_codec (\<lambda>p. p) ?c (b, fs0) = (None, s)" and s: "\<not> dirty (fst s)"
      "peers (fst s) ''p'' \<noteq> None"
    using b by (simp add: book_exec_def AddPeer_def saveLocked_def storage_save_def storage_save_ops_def
        acquireFileLock_def save_ops_def toy_codec_def no_faults_def)
  obtain s' where c: "Book_Close toy_codec no_faults s = (None, s')"
    using s by (cases s) (simp add: Book_Close_def)
  have "runs (book_step toy_codec (\<lambda>p. p)) (b, fs0) [(?c, None)] s"
    using r by (auto intro: runs_cons [OF _ runs_nil] book_step_call)
  moreover have "multiaddr_roundtrip toy_codec" "json_roundtrip toy_codec"
    by (simp_all add: multiaddr_roundtrip_def json_roundtrip_def toy_codec_def)
  ultimately obtain b' fs' where n: "New toy_codec no_faults ''book'' (snd s') = (Inr b', fs')"
      and e: "same_entries toy_codec (peers b') (peers (fst s))"
    using book_survives_reopen [OF _ _ o _ _ c, of "\<lambda>p. p" "[(?c, None)]" no_faults]
    by (auto simp: no_faults_def)
  have "map_option (persisted toy_codec) (peers b' ''p'') = map_option (persisted toy_codec) (peers (fst s) ''p'')"
    using e by (simp add: same_entries_def)
  then have "HasPeer (\<lambda>p. p) b' ''p''" using s(2) by (auto simp: HasPeer_def)
  then show ?thesis using o r c n by blast
qed

text \<open>
  A change whose save fails is kept in memory without being marked as pending. After a failed
  \<^verbatim>\<open>AddPeer\<close> on a clean book, the peer is present, the book is still clean, and \<^verbatim>\<open>Close\<close> succeeds without
  writing it: the file never receives the peer unless a later change triggers a save.
\<close>

theorem failed_save_is_not_retried:
  assumes "\<not> dirty b" and "peers b (ids p) = None"
    and "AddPeer cd ids io now p addrs md (b, fs) = (Some (SaveError e), s')"
  shows "HasPeer ids (fst s') p \<and> \<not> dirty (fst s') \<and>
         Flush cd io2 s' = (None, s') \<and> flush_tick cd io2 s' = s' \<and>
         (\<exists>s''. Book_Close cd io2 s' = (None, s'') \<and> files (snd s'') (storage_path b) = files fs (storage_path b))"
proof -
  obtain e' where "s' = (b\<lparr>peers := (peers b)(ids p \<mapsto> e')\<rparr>, snd s')"
      and disk: "files (snd s') (storage_path b) = files fs (storage_path b)"
    using assms
    by (auto simp: AddPeer_def saveLocked_def split: prod.splits option.splits dest: storage_save_error)
  then show ?thesis
    using assms(1)
    by (cases s') (auto simp: HasPeer_def Flush_def flush_tick_def Book_Close_def Let_def)
qed

theorem failed_save_is_not_retried_witness:
  "\<exists>s'. AddPeer toy_codec (\<lambda>p. p) (no_faults\<lparr>syncFails := True\<rparr>) 3 ''q'' [] None (toy_book, \<lparr>files = Map.empty\<rparr>) =
          (Some (SaveError SyncTempFailed), s') \<and>
        HasPeer (\<lambda>p. p) (fst s') ''q'' \<and> Flush toy_codec no_faults s' = (None, s')"
proof -
  obtain s' where "AddPeer toy_codec (\<lambda>p. p) (no_faults\<lparr>syncFails := True\<rparr>) 3 ''q'' [] None
      (toy_book, \<lparr>files = Map.empty\<rparr>) = (Some (SaveError SyncTempFailed), s')"
    by (simp add: AddPeer_def saveLocked_def storage_save_def storage_save_ops_def
        acquireFileLock_def save_ops_def toy_codec_def no_faults_def toy_book_def)
  then show ?thesis
    using failed_save_is_not_retried [of toy_book "\<lambda>p. p" "''q''" toy_codec "no_faults\<lparr>syncFails := True\<rparr>" 3
        "[]" None "\<lparr>files = Map.empty\<rparr>" SyncTempFailed s' no_faults]
    by (simp add: toy_book_def)
qed

end
