(* ===== verification/Backoff.thy ===== *)
theory Backoff
  imports Prelude
begin

text \<open>
  The reconnection backoff (\<^verbatim>\<open>src/pkg/connection/reconnect.go\<close>). Durations are 64-bit: the doubling wraps.
  The jitter is a random floating-point product truncated to a duration; it is a parameter
  \<open>jitter\<close> of the capped delay, and \<open>jitter_ok\<close> is what the product guarantees: a tenth of the delay,
  up to the rounding of the double-precision product.
\<close>

record ReconnectState =
  Attempts :: int
  NextAttempt :: time_ns
  CurrentDelay :: duration
  rs_cancelled :: bool \<comment> \<open>\<^verbatim>\<open>Cancel\<close> has been called\<close>

definition NewReconnectState :: ReconnectState where
  "NewReconnectState = \<lparr>Attempts = 0, NextAttempt = 0, CurrentDelay = 0, rs_cancelled = False\<rparr>"

record BackoffCalculator =
  BaseDelay :: duration
  MaxDelay :: duration

definition NewBackoffCalculator :: "duration \<Rightarrow> duration \<Rightarrow> BackoffCalculator" where
  "NewBackoffCalculator base mx = \<lparr>BaseDelay = base, MaxDelay = mx\<rparr>"

text \<open>The doubling loop, for the remaining number of rounds.\<close>

fun double_loop :: "duration \<Rightarrow> nat \<Rightarrow> duration \<Rightarrow> duration" where
  "double_loop mx 0 delay = delay"
| "double_loop mx (Suc n) delay =
     (let delay' = wrap64 (delay * 2) in if mx \<le> delay' then mx else double_loop mx n delay')"

definition NextDelay :: "(duration \<Rightarrow> duration) \<Rightarrow> BackoffCalculator \<Rightarrow> int \<Rightarrow> duration" where
  "NextDelay jitter bc attempt =
     (let attempt' = (if attempt < 0 then 0 else attempt);
          delay1 = double_loop (MaxDelay bc) (nat attempt') (BaseDelay bc);
          delay2 = (if MaxDelay bc < delay1 then MaxDelay bc else delay1);
          delay3 = wrap64 (delay2 + jitter delay2)
      in if delay3 < 0 then BaseDelay bc else delay3)"

definition ScheduleNext ::
    "(duration \<Rightarrow> duration) \<Rightarrow> time_ns \<Rightarrow> BackoffCalculator \<Rightarrow> ReconnectState \<Rightarrow> ReconnectState" where
  "ScheduleNext jitter now bc rs =
     (let d = NextDelay jitter bc (Attempts rs)
      in rs\<lparr>CurrentDelay := d, NextAttempt := now + d, Attempts := Attempts rs + 1\<rparr>)"

definition ShouldRetry :: "int \<Rightarrow> int \<Rightarrow> bool" where
  "ShouldRetry attempts maxAttempts = (if maxAttempts = 0 then True else attempts < maxAttempts)"

definition jitter_ok :: "(duration \<Rightarrow> duration) \<Rightarrow> bool" where
  "jitter_ok jitter \<longleftrightarrow> (\<forall>d \<ge> 0. 10 * \<bar>jitter d\<bar> \<le> d + d div 2 ^ 50)"

section \<open>Lemmas\<close>

text \<open>The delay the doubling and the cap aim at.\<close>

definition ideal_delay :: "BackoffCalculator \<Rightarrow> nat \<Rightarrow> duration" where
  "ideal_delay bc n = min (BaseDelay bc * 2 ^ n) (MaxDelay bc)"

lemma double_loop_ideal:
  assumes "0 \<le> d" and "d \<le> 2 ^ 62 - 1" and "0 \<le> mx" and "mx \<le> 2 ^ 62"
  shows "min mx (double_loop mx n d) = min mx (d * 2 ^ n)"
  using assms(1,2)
proof (induction n arbitrary: d)
  case (Suc n)
  have w: "wrap64 (d * 2) = d * 2" using Suc.prems by (intro wrap64_id) simp_all
  show ?case
  proof (cases "mx \<le> d * 2")
    case True
    have "d * 2 * 1 \<le> d * 2 * 2 ^ n" using Suc.prems by (intro mult_left_mono) simp_all
    then have "mx \<le> d * 2 ^ Suc n" using True by (simp add: ac_simps)
    then show ?thesis using True by (simp add: w Let_def)
  next
    case False
    then have "min mx (double_loop mx n (d * 2)) = min mx (d * 2 * 2 ^ n)"
      using Suc assms(4) by simp
    then show ?thesis using False by (simp add: w Let_def ac_simps)
  qed
qed simp

lemma ideal_delay_range: "0 \<le> BaseDelay bc \<Longrightarrow> 0 \<le> MaxDelay bc \<Longrightarrow> 0 \<le> ideal_delay bc n \<and> ideal_delay bc n \<le> MaxDelay bc"
  by (simp add: ideal_delay_def)

section \<open>Properties\<close>

text \<open>
  Property C39: Exponential backoff. For delays below \<open>2 ^ 62\<close> nanoseconds the delay of attempt \<open>n\<close> is the base
  delay doubled \<open>n\<close> times and capped at the maximum, changed by the jitter by at most a tenth (up to
  the rounding of the product): no doubling overflows, the result is never negative and the
  fallback to the base delay is never taken; a negative attempt counts as the first.
\<close>

theorem NextDelay_exponential:
  assumes "jitter_ok jitter" and "0 \<le> BaseDelay bc" and "BaseDelay bc < 2 ^ 62"
    and "0 \<le> MaxDelay bc" and "MaxDelay bc \<le> 2 ^ 62"
  shows "10 * \<bar>NextDelay jitter bc attempt - ideal_delay bc (nat attempt)\<bar> \<le>
           ideal_delay bc (nat attempt) + ideal_delay bc (nat attempt) div 2 ^ 50 \<and>
         0 \<le> NextDelay jitter bc attempt"
proof -
  let ?d = "ideal_delay bc (nat attempt)"
  have "nat (if attempt < 0 then 0 else attempt) = nat attempt" by simp
  moreover have "min (MaxDelay bc) (double_loop (MaxDelay bc) (nat attempt) (BaseDelay bc)) = ?d"
    using double_loop_ideal [of "BaseDelay bc" "MaxDelay bc" "nat attempt"] assms(2-5)
    by (simp add: ideal_delay_def min.commute)
  ultimately have nd: "NextDelay jitter bc attempt =
      (if wrap64 (?d + jitter ?d) < 0 then BaseDelay bc else wrap64 (?d + jitter ?d))"
    by (simp add: NextDelay_def Let_def min_def not_le split: if_splits)
  have d: "0 \<le> ?d" "?d \<le> 2 ^ 62" using ideal_delay_range [OF assms(2,4)] assms(5) by (auto intro: order_trans)
  have j: "10 * \<bar>jitter ?d\<bar> \<le> ?d + ?d div 2 ^ 50" using assms(1) d by (simp add: jitter_ok_def)
  have "?d div 2 ^ 50 \<le> ?d" using d(1) using zdiv_mono2 [of ?d 1 "2 ^ 50"] by simp
  then have "0 \<le> ?d + jitter ?d" "?d + jitter ?d < 2 ^ 63" using j d by (simp, linarith)+
  then have "wrap64 (?d + jitter ?d) = ?d + jitter ?d" by (intro wrap64_id) simp_all
  then show ?thesis using nd j \<open>0 \<le> ?d + jitter ?d\<close> by simp
qed

text \<open>The exact jitter of a random number \<open>k / 2 ^ 53\<close> satisfies the hypothesis.\<close>

definition exact_jitter :: "int \<Rightarrow> duration \<Rightarrow> duration" where
  "exact_jitter k d = quot (d * (2 * k - 2 ^ 53)) (10 * 2 ^ 53)"

lemma exact_jitter_ok: "0 \<le> k \<Longrightarrow> k \<le> 2 ^ 53 \<Longrightarrow> jitter_ok (exact_jitter k)"
  unfolding jitter_ok_def
proof (intro allI impI)
  fix d :: int assume k: "0 \<le> k" "k \<le> 2 ^ 53" and d: "0 \<le> d"
  have "\<bar>exact_jitter k d\<bar> = \<bar>d * (2 * k - 2 ^ 53)\<bar> div (10 * 2 ^ 53)"
    by (simp add: exact_jitter_def abs_quot_le)
  moreover have "\<bar>d * (2 * k - 2 ^ 53)\<bar> \<le> d * 2 ^ 53"
    using k d by (auto simp: abs_mult abs_le_iff intro!: mult_left_mono)
  then have "\<bar>d * (2 * k - 2 ^ 53)\<bar> div (10 * 2 ^ 53) \<le> d * 2 ^ 53 div (10 * 2 ^ 53)"
    by (rule zdiv_mono1) simp
  moreover have "d * 2 ^ 53 div (10 * 2 ^ 53) = d div 10" by simp
  ultimately have "10 * \<bar>exact_jitter k d\<bar> \<le> d" by linarith
  moreover have "0 \<le> d div 2 ^ 50" using d by (simp add: pos_imp_zdiv_nonneg_iff)
  ultimately show "10 * \<bar>exact_jitter k d\<bar> \<le> d + d div 2 ^ 50" by linarith
qed

theorem NextDelay_exponential_witness:
  "10 * \<bar>NextDelay (exact_jitter 0) \<lparr>BaseDelay = second, MaxDelay = 60 * second\<rparr> 3 - 8 * second\<bar> \<le>
     8 * second + 8 * second div 2 ^ 50"
  using NextDelay_exponential [OF exact_jitter_ok [of 0], of "\<lparr>BaseDelay = second, MaxDelay = 60 * second\<rparr>" 3]
  by (simp add: ideal_delay_def second_def)

text \<open>
  The retry limit. A loop that asks \<^verbatim>\<open>ShouldRetry\<close> before each round and schedules the next attempt makes
  exactly \<open>maxAttempts\<close> rounds, and with a limit of zero it never stops.
\<close>

fun rounds_allowed :: "(duration \<Rightarrow> duration) \<Rightarrow> time_ns \<Rightarrow> BackoffCalculator \<Rightarrow> int \<Rightarrow> nat \<Rightarrow> ReconnectState \<Rightarrow> bool" where
  "rounds_allowed jitter now bc mx 0 rs = True"
| "rounds_allowed jitter now bc mx (Suc n) rs =
     (ShouldRetry (Attempts rs) mx \<and> rounds_allowed jitter now bc mx n (ScheduleNext jitter now bc rs))"

theorem retry_limit:
  "0 \<le> mx \<Longrightarrow> rounds_allowed jitter now bc mx n NewReconnectState \<longleftrightarrow> mx = 0 \<or> int n \<le> mx"
proof -
  have "rounds_allowed jitter now bc mx n rs \<longleftrightarrow> n = 0 \<or> mx = 0 \<or> Attempts rs + int n \<le> mx"
    for rs
    by (induction n arbitrary: rs) (auto simp: ShouldRetry_def ScheduleNext_def Let_def)
  then show "0 \<le> mx \<Longrightarrow> ?thesis" by (auto simp: NewReconnectState_def)
qed

theorem retry_limit_witness:
  "rounds_allowed (exact_jitter 0) 0 \<lparr>BaseDelay = 1, MaxDelay = 60\<rparr> 10 10 NewReconnectState \<and>
   \<not> rounds_allowed (exact_jitter 0) 0 \<lparr>BaseDelay = 1, MaxDelay = 60\<rparr> 10 11 NewReconnectState"
  using retry_limit [of 10 "exact_jitter 0" 0 "\<lparr>BaseDelay = 1, MaxDelay = 60\<rparr>" 10]
    retry_limit [of 10 "exact_jitter 0" 0 "\<lparr>BaseDelay = 1, MaxDelay = 60\<rparr>" 11] by simp

end
