(* ===== verification/Connection.thy ===== *)
theory Connection
  imports Prelude "HOL-Library.Transitive_Closure_Table"
begin

text \<open>
  The connection of one peer (\<^verbatim>\<open>src/pkg/connection/state.go\<close> and \<^verbatim>\<open>peer.go\<close>): the connection states with
  their transition table, and the connection object with its operations. An operation that stops
  a timer, cancels a context or discards a key buffer returns what it stopped, cancelled or
  discarded beside the new object.
\<close>

section \<open>Connection states\<close>

datatype ConnectionState =
    StateDisconnected | StateConnecting | StateConnected | StateEstablished
  | StateReconnecting | StateCooldown

fun ConnectionState_String :: "ConnectionState \<Rightarrow> string" where
  "ConnectionState_String StateDisconnected = ''Disconnected''"
| "ConnectionState_String StateConnecting = ''Connecting''"
| "ConnectionState_String StateConnected = ''Connected''"
| "ConnectionState_String StateEstablished = ''Established''"
| "ConnectionState_String StateReconnecting = ''Reconnecting''"
| "ConnectionState_String StateCooldown = ''Cooldown''"

definition IsTerminal :: "ConnectionState \<Rightarrow> bool" where
  "IsTerminal s = (s = StateDisconnected \<or> s = StateCooldown)"

definition IsActive :: "ConnectionState \<Rightarrow> bool" where
  "IsActive s = (s = StateConnecting \<or> s = StateConnected \<or> s = StateEstablished)"

definition validTransitions :: "(ConnectionState \<times> ConnectionState list) list" where
  "validTransitions =
     [(StateDisconnected, [StateConnecting, StateReconnecting]),
      (StateConnecting, [StateConnected, StateDisconnected]),
      (StateConnected, [StateEstablished, StateDisconnected, StateCooldown]),
      (StateEstablished, [StateDisconnected]),
      (StateReconnecting, [StateConnecting, StateDisconnected]),
      (StateCooldown, [StateDisconnected, StateReconnecting])]"

definition CanTransitionTo :: "ConnectionState \<Rightarrow> ConnectionState \<Rightarrow> bool" where
  "CanTransitionTo s target =
     (case map_of validTransitions s of
        None \<Rightarrow> False
      | Some allowed \<Rightarrow> list_ex (\<lambda>t. t = target) allowed)"

text \<open>The error of an invalid transition names the two states.\<close>

definition ValidateTransition ::
    "ConnectionState \<Rightarrow> ConnectionState \<Rightarrow> (ConnectionState \<times> ConnectionState) option" where
  "ValidateTransition s target = (if \<not> CanTransitionTo s target then Some (s, target) else None)"

section \<open>The connection object\<close>

text \<open>
  Handshake timers and reconnection states are objects of their own: a connection holds their
  numbers. \<open>'err\<close> is the type of the stored errors, \<open>'st\<close> the statistics recorder.
\<close>

record ('err, 'st) PeerConnection =
  pc_PeerID :: peer_id
  State :: ConnectionState
  IsOutbound :: bool
  HandshakeTimer :: "nat option"
  HandshakeCancel :: "nat option"
  SharedKey :: "bytes option"
  EncryptedStreams :: "string list"
  pc_ReconnectState :: "nat option"
  CooldownUntil :: time_ns
  LastError :: "'err option"
  LastStateChange :: time_ns
  Stats :: "'st option"

definition NewPeerConnection :: "time_ns \<Rightarrow> peer_id \<Rightarrow> ('err, 'st) PeerConnection" where
  "NewPeerConnection now p =
     \<lparr>pc_PeerID = p, State = StateDisconnected, IsOutbound = False, HandshakeTimer = None,
      HandshakeCancel = None, SharedKey = None, EncryptedStreams = [], pc_ReconnectState = None,
      CooldownUntil = 0, LastError = None, LastStateChange = now, Stats = None\<rparr>"

definition TransitionTo :: "time_ns \<Rightarrow> ConnectionState \<Rightarrow> ('err, 'st) PeerConnection \<Rightarrow>
    (ConnectionState \<times> ConnectionState) option \<times> ('err, 'st) PeerConnection" where
  "TransitionTo now newState pc =
     (case ValidateTransition (State pc) newState of
        Some e \<Rightarrow> (Some e, pc)
      | None \<Rightarrow> (None, pc\<lparr>State := newState, LastStateChange := now\<rparr>))"

text \<open>The timer that is stopped and the context that is cancelled are returned.\<close>

definition pc_CancelHandshakeTimeout :: "('err, 'st) PeerConnection \<Rightarrow>
    nat option \<times> nat option \<times> ('err, 'st) PeerConnection" where
  "pc_CancelHandshakeTimeout pc =
     (HandshakeTimer pc, HandshakeCancel pc, pc\<lparr>HandshakeTimer := None, HandshakeCancel := None\<rparr>)"

definition pc_SetSharedKey :: "bytes \<Rightarrow> ('err, 'st) PeerConnection \<Rightarrow> ('err, 'st) PeerConnection" where
  "pc_SetSharedKey key pc = pc\<lparr>SharedKey := Some key\<rparr>"

definition pc_GetSharedKey :: "('err, 'st) PeerConnection \<Rightarrow> bytes option" where
  "pc_GetSharedKey pc = SharedKey pc"

definition SetIsOutbound :: "bool \<Rightarrow> ('err, 'st) PeerConnection \<Rightarrow> ('err, 'st) PeerConnection" where
  "SetIsOutbound ob pc = pc\<lparr>IsOutbound := ob\<rparr>"

definition SetError :: "'err option \<Rightarrow> ('err, 'st) PeerConnection \<Rightarrow> ('err, 'st) PeerConnection" where
  "SetError e pc = pc\<lparr>LastError := e\<rparr>"

definition SetStats :: "'st option \<Rightarrow> ('err, 'st) PeerConnection \<Rightarrow> ('err, 'st) PeerConnection" where
  "SetStats st pc = pc\<lparr>Stats := st\<rparr>"

definition StartCooldown :: "time_ns \<Rightarrow> duration \<Rightarrow> ('err, 'st) PeerConnection \<Rightarrow>
    (ConnectionState \<times> ConnectionState) option \<times> ('err, 'st) PeerConnection" where
  "StartCooldown now d pc =
     (case ValidateTransition (State pc) StateCooldown of
        Some e \<Rightarrow> (Some e, pc)
      | None \<Rightarrow> (None, pc\<lparr>State := StateCooldown, CooldownUntil := now + d, LastStateChange := now\<rparr>))"

definition IsInCooldown :: "time_ns \<Rightarrow> ('err, 'st) PeerConnection \<Rightarrow> bool" where
  "IsInCooldown now pc = (if State pc \<noteq> StateCooldown then False else now < CooldownUntil pc)"

definition CooldownRemaining :: "time_ns \<Rightarrow> ('err, 'st) PeerConnection \<Rightarrow> duration" where
  "CooldownRemaining now pc =
     (if State pc \<noteq> StateCooldown then 0
      else let remaining = CooldownUntil pc - now in if remaining < 0 then 0 else remaining)"

text \<open>
  \<^verbatim>\<open>Cleanup\<close> overwrites the key buffer with zeros before dropping it: the last component is the
  contents with which the buffer is discarded.
\<close>

definition Cleanup :: "('err, 'st) PeerConnection \<Rightarrow>
    nat option \<times> nat option \<times> ('err, 'st) PeerConnection \<times> bytes option" where
  "Cleanup pc =
     (HandshakeTimer pc, HandshakeCancel pc,
      pc\<lparr>HandshakeTimer := None, HandshakeCancel := None, SharedKey := None, EncryptedStreams := [],
         pc_ReconnectState := None\<rparr>,
      map_option (\<lambda>k. replicate (length k) 0) (SharedKey pc))"

section \<open>Lemmas\<close>

lemma CanTransitionTo_iff:
  "CanTransitionTo s t \<longleftrightarrow>
     (s, t) \<in> {(StateDisconnected, StateConnecting), (StateDisconnected, StateReconnecting),
       (StateConnecting, StateConnected), (StateConnecting, StateDisconnected),
       (StateConnected, StateEstablished), (StateConnected, StateDisconnected),
       (StateConnected, StateCooldown), (StateEstablished, StateDisconnected),
       (StateReconnecting, StateConnecting), (StateReconnecting, StateDisconnected),
       (StateCooldown, StateDisconnected), (StateCooldown, StateReconnecting)}"
  by (cases s; cases t; simp add: CanTransitionTo_def validTransitions_def)

lemma CanTransitionTo_irrefl [simp]: "\<not> CanTransitionTo s s"
  by (cases s) (simp_all add: CanTransitionTo_iff)

lemma CanTransitionTo_Disconnected [simp]: "CanTransitionTo s StateDisconnected \<longleftrightarrow> s \<noteq> StateDisconnected"
  by (cases s) (simp_all add: CanTransitionTo_iff)

lemma CanTransitionTo_Established [simp]: "CanTransitionTo s StateEstablished \<longleftrightarrow> s = StateConnected"
  by (cases s) (simp_all add: CanTransitionTo_iff)

lemma CanTransitionTo_Cooldown [simp]: "CanTransitionTo s StateCooldown \<longleftrightarrow> s = StateConnected"
  by (cases s) (simp_all add: CanTransitionTo_iff)

lemma CanTransitionTo_Connected [simp]: "CanTransitionTo s StateConnected \<longleftrightarrow> s = StateConnecting"
  by (cases s) (simp_all add: CanTransitionTo_iff)

lemma CanTransitionTo_Connecting [simp]:
  "CanTransitionTo s StateConnecting \<longleftrightarrow> s = StateDisconnected \<or> s = StateReconnecting"
  by (cases s) (simp_all add: CanTransitionTo_iff)

lemma CanTransitionTo_Reconnecting [simp]:
  "CanTransitionTo s StateReconnecting \<longleftrightarrow> s = StateDisconnected \<or> s = StateCooldown"
  by (cases s) (simp_all add: CanTransitionTo_iff)

lemma TransitionTo_if:
  "TransitionTo now t pc =
     (if CanTransitionTo (State pc) t then (None, pc\<lparr>State := t, LastStateChange := now\<rparr>)
      else (Some (State pc, t), pc))"
  by (simp add: TransitionTo_def ValidateTransition_def)

lemma TransitionTo_State: "State (snd (TransitionTo now t pc)) = (if CanTransitionTo (State pc) t then t else State pc)"
  by (simp add: TransitionTo_if)

lemma TransitionTo_fields [simp]:
  "pc_PeerID (snd (TransitionTo now t pc)) = pc_PeerID pc"
  "HandshakeTimer (snd (TransitionTo now t pc)) = HandshakeTimer pc"
  "HandshakeCancel (snd (TransitionTo now t pc)) = HandshakeCancel pc"
  "SharedKey (snd (TransitionTo now t pc)) = SharedKey pc"
  by (simp_all add: TransitionTo_if)

section \<open>Properties\<close>

text \<open>
  The shape of the state machine. A connection can always be brought to Disconnected in one
  step; a connection is established only from Connected, which is entered only from Connecting,
  which is entered only from Disconnected or Reconnecting; so every path of valid transitions from
  a non-active state to Established passes through Connecting and then Connected, and cooldown
  is entered only from Connected.
\<close>

theorem transition_table_shape:
  "(s \<noteq> StateDisconnected \<longrightarrow> CanTransitionTo s StateDisconnected) \<and>
   (\<not> IsActive s \<and> rtrancl_path CanTransitionTo s path StateEstablished \<longrightarrow>
      (\<exists>pre. path = pre @ [StateConnecting, StateConnected, StateEstablished])) \<and>
   (rtrancl_path CanTransitionTo s (path @ [StateCooldown]) StateCooldown \<longrightarrow> last (s # path) = StateConnected)"
proof -
  have est: "path = [] \<and> s = StateEstablished \<or> path = [StateEstablished] \<and> s = StateConnected \<or>
      path = [StateConnected, StateEstablished] \<and> s = StateConnecting \<or>
      (\<exists>pre. path = pre @ [StateConnecting, StateConnected, StateEstablished])"
    if "rtrancl_path CanTransitionTo s path t" "t = StateEstablished" for s t path
    using that
  proof (induction rule: rtrancl_path.induct)
    case (step x y ys z)
    then consider "ys = []" "y = StateEstablished" | "ys = [StateEstablished]" "y = StateConnected"
      | "ys = [StateConnected, StateEstablished]" "y = StateConnecting"
      | "\<exists>pre. ys = pre @ [StateConnecting, StateConnected, StateEstablished]" by blast
    then show ?case using step.hyps(1) by cases auto
  qed simp
  have cool: "last (s # path) = StateConnected"
    if "rtrancl_path CanTransitionTo s (path @ [StateCooldown]) StateCooldown" for s path
    using that
  proof (induction path arbitrary: s)
    case Nil
    then show ?case by (auto elim: rtrancl_path.cases)
  next
    case (Cons a path)
    then show ?case by (auto elim: rtrancl_path.cases)
  qed
  show ?thesis using est [of s path StateEstablished] cool by (auto simp: IsActive_def)
qed

text \<open>
  Cooldown. A cooldown of a non-negative duration started at a time is in force exactly until
  that time plus the duration, and the reported remaining time is what is left, never negative.
\<close>

theorem cooldown_window:
  assumes "StartCooldown now d pc = (None, pc')"
  shows "State pc = StateConnected \<and> State pc' = StateCooldown \<and>
         IsInCooldown t pc' = (t < now + d) \<and>
         CooldownRemaining t pc' = max 0 (now + d - t) \<and>
         (IsInCooldown t pc' \<longleftrightarrow> 0 < CooldownRemaining t pc')"
  using assms
  by (auto simp: StartCooldown_def ValidateTransition_def IsInCooldown_def CooldownRemaining_def Let_def
      split: if_splits)

theorem cooldown_window_witness:
  "\<exists>pc'. StartCooldown 100 60 ((NewPeerConnection 0 ''p'' :: (nat, nat) PeerConnection)\<lparr>State := StateConnected\<rparr>) =
     (None, pc') \<and> IsInCooldown 159 pc' \<and> \<not> IsInCooldown 160 pc' \<and> CooldownRemaining 150 pc' = 10"
proof -
  obtain pc' where "StartCooldown 100 60
      ((NewPeerConnection 0 ''p'' :: (nat, nat) PeerConnection)\<lparr>State := StateConnected\<rparr>) = (None, pc')"
    by (simp add: StartCooldown_def ValidateTransition_def)
  then show ?thesis
    using cooldown_window [of 100 60 _ pc' 159] cooldown_window [of 100 60 _ pc' 160]
      cooldown_window [of 100 60 _ pc' 150] by fastforce
qed

end
