(* ===== verification/Channels.thy ===== *)
theory Channels
  imports Prelude
begin

text \<open>
  Go's buffered channels as the components use them: non-blocking sends
  (\<^verbatim>\<open>select { case ch <- v: default: }\<close>), receives and \<^verbatim>\<open>close\<close>. A send on a closed channel and
  a second \<^verbatim>\<open>close\<close> panic, which is the result \<open>None\<close>. The interface \<open>bounded_fifo\<close> is what the
  event dispatcher and the stream readers rely on: a bounded queue that keeps the order and
  drops only what does not fit.
\<close>

section \<open>Channels\<close>

record 'a channel =
  cbuf :: "'a list"
  ccap :: nat
  cclosed :: bool

definition make_chan :: "nat \<Rightarrow> 'a channel" where
  "make_chan n = \<lparr>cbuf = [], ccap = n, cclosed = False\<rparr>"

text \<open>The flag says whether the value was sent (the send case) or not (the default case).\<close>

definition chan_try_send :: "'a \<Rightarrow> 'a channel \<Rightarrow> (bool \<times> 'a channel) option" where
  "chan_try_send v c =
     (if cclosed c then None
      else if length (cbuf c) < ccap c then Some (True, c\<lparr>cbuf := cbuf c @ [v]\<rparr>)
      else Some (False, c))"

definition chan_close :: "'a channel \<Rightarrow> 'a channel option" where
  "chan_close c = (if cclosed c then None else Some (c\<lparr>cclosed := True\<rparr>))"

datatype 'a recv = Received 'a | RecvClosed | RecvBlocks

definition chan_recv :: "'a channel \<Rightarrow> 'a recv \<times> 'a channel" where
  "chan_recv c =
     (case cbuf c of
        v # vs \<Rightarrow> (Received v, c\<lparr>cbuf := vs\<rparr>)
      | [] \<Rightarrow> (if cclosed c then RecvClosed else RecvBlocks, c))"

section \<open>Interface: a bounded queue that drops what does not fit\<close>

locale bounded_fifo =
  fixes contents :: "'q \<Rightarrow> 'a list"
    and capacity :: "'q \<Rightarrow> nat"
    and accepting :: "'q \<Rightarrow> bool"
    and offer :: "'a \<Rightarrow> 'q \<Rightarrow> 'q"
  assumes offer_contents: "accepting q \<Longrightarrow>
      contents (offer x q) =
        (if length (contents q) < capacity q then contents q @ [x] else contents q)"
    and offer_capacity: "capacity (offer x q) = capacity q"
    and offer_accepting: "accepting q \<Longrightarrow> accepting (offer x q)"
    and offer_refusing: "\<not> accepting q \<Longrightarrow> offer x q = q"
begin

lemma offer_bounded:
  "length (contents q) \<le> capacity q \<Longrightarrow> length (contents (offer x q)) \<le> capacity (offer x q)"
  by (cases "accepting q") (auto simp: offer_contents offer_capacity offer_refusing)

lemma offer_all_contents:
  assumes "accepting q" and "length (contents q) \<le> capacity q"
  shows "contents (fold offer xs q) = take (capacity q) (contents q @ xs) \<and>
         capacity (fold offer xs q) = capacity q \<and> accepting (fold offer xs q)"
  using assms
proof (induction xs arbitrary: q)
  case Nil
  then show ?case by simp
next
  case (Cons x xs)
  have "length (contents (offer x q)) \<le> capacity (offer x q)"
    using Cons.prems(2) by (rule offer_bounded)
  moreover have "accepting (offer x q)" using Cons.prems(1) by (rule offer_accepting)
  ultimately have "contents (fold offer xs (offer x q)) =
      take (capacity (offer x q)) (contents (offer x q) @ xs) \<and>
      capacity (fold offer xs (offer x q)) = capacity (offer x q) \<and>
      accepting (fold offer xs (offer x q))"
    using Cons.IH by blast
  moreover have "take (capacity q) (contents (offer x q) @ xs) = take (capacity q) (contents q @ x # xs)"
    using Cons.prems by (auto simp: offer_contents take_Cons' Suc_diff_Suc)
  ultimately show ?case by (simp add: offer_capacity)
qed

lemma offer_all_refused: "\<not> accepting q \<Longrightarrow> fold offer xs q = q"
  by (induction xs) (auto simp: offer_refusing)

end

section \<open>A channel is a bounded queue while it is open\<close>

text \<open>A non-blocking send seen as an operation on the channel alone.\<close>

definition chan_offer :: "'a \<Rightarrow> 'a channel \<Rightarrow> 'a channel" where
  "chan_offer v c = (case chan_try_send v c of None \<Rightarrow> c | Some (_, c') \<Rightarrow> c')"

interpretation chq: bounded_fifo cbuf ccap "\<lambda>c. \<not> cclosed c" chan_offer
  by unfold_locales (auto simp: chan_offer_def chan_try_send_def)

lemma chan_try_send_open:
  "\<not> cclosed c \<Longrightarrow> chan_try_send v c = Some (length (cbuf c) < ccap c, chan_offer v c)"
  by (simp add: chan_offer_def chan_try_send_def)

lemma chan_recv_offer_empty:
  "\<not> cclosed c \<Longrightarrow> cbuf c = [] \<Longrightarrow> 0 < ccap c \<Longrightarrow> fst (chan_recv (chan_offer v c)) = Received v"
  by (simp add: chan_offer_def chan_try_send_def chan_recv_def)

end
