(* ===== verification/Dispatch.thy ===== *)
theory Dispatch
  imports Channels Connection
begin

text \<open>
  The event dispatcher (\<^verbatim>\<open>src/internal/eventdispatch/dispatcher.go\<close>): connection events are sent to a
  buffered channel without blocking and dropped when it is full or closed. Every method holds the
  dispatcher's mutex. The consumer receives from the channel concurrently. A \<^verbatim>\<open>None\<close> result is a
  panic (a send on or a close of a closed channel).
\<close>

section \<open>Events\<close>

record 'err Event =
  ev_PeerID :: peer_id
  ev_State :: ConnectionState
  ev_Error :: "'err option"
  ev_Timestamp :: time_ns

record 'err ConnectionEvent =
  ce_PeerID :: peer_id
  ce_State :: ConnectionState
  ce_Error :: "'err option"
  ce_Timestamp :: time_ns

definition IsError :: "'err ConnectionEvent \<Rightarrow> bool" where
  "IsError e = (ce_Error e \<noteq> None)"

definition to_ConnectionEvent :: "'err Event \<Rightarrow> 'err ConnectionEvent" where
  "to_ConnectionEvent e =
     \<lparr>ce_PeerID = ev_PeerID e, ce_State = ev_State e, ce_Error = ev_Error e, ce_Timestamp = ev_Timestamp e\<rparr>"

section \<open>The dispatcher\<close>

record 'err Dispatcher =
  events :: "'err ConnectionEvent channel"
  closed :: bool

definition NewDispatcher :: "nat \<Rightarrow> 'err Dispatcher" where
  "NewDispatcher bufferSize = \<lparr>events = make_chan bufferSize, closed = False\<rparr>"

definition EmitEvent :: "'err Event \<Rightarrow> 'err Dispatcher \<Rightarrow> 'err Dispatcher option" where
  "EmitEvent event d =
     (if closed d then Some d
      else case chan_try_send (to_ConnectionEvent event) (events d) of
        None \<Rightarrow> None
      | Some (_, ch) \<Rightarrow> Some (d\<lparr>events := ch\<rparr>))"

definition Dispatcher_Close :: "'err Dispatcher \<Rightarrow> 'err Dispatcher option" where
  "Dispatcher_Close d =
     (if \<not> closed d then
        (case chan_close (events d) of
           None \<Rightarrow> None
         | Some ch \<Rightarrow> Some (d\<lparr>closed := True, events := ch\<rparr>))
      else Some d)"

definition Dispatcher_IsClosed :: "'err Dispatcher \<Rightarrow> bool" where
  "Dispatcher_IsClosed d = closed d"

text \<open>The application receives from \<^verbatim>\<open>Events()\<close>.\<close>

definition Events_recv :: "'err Dispatcher \<Rightarrow> 'err ConnectionEvent recv \<times> 'err Dispatcher" where
  "Events_recv d = (case chan_recv (events d) of (r, ch) \<Rightarrow> (r, d\<lparr>events := ch\<rparr>))"

datatype 'err disp_op = DEmit "'err Event" | DClose | DRecv

inductive disp_step :: "'err Dispatcher \<Rightarrow> 'err disp_op \<Rightarrow> 'err Dispatcher \<Rightarrow> bool" where
  disp_emit: "EmitEvent e d = Some d' \<Longrightarrow> disp_step d (DEmit e) d'"
| disp_close: "Dispatcher_Close d = Some d' \<Longrightarrow> disp_step d DClose d'"
| disp_recv: "Events_recv d = (r, d') \<Longrightarrow> disp_step d DRecv d'"

inductive_cases disp_stepE: "disp_step d l d'"

text \<open>The flag and the channel agree, and the buffer never exceeds its capacity.\<close>

definition disp_inv :: "'err Dispatcher \<Rightarrow> bool" where
  "disp_inv d \<longleftrightarrow> closed d = cclosed (events d) \<and> length (cbuf (events d)) \<le> ccap (events d)"

section \<open>Lemmas\<close>

lemma disp_inv_New [inv_intros]: "disp_inv (NewDispatcher n)"
  by (simp add: disp_inv_def NewDispatcher_def make_chan_def)

lemma EmitEvent_total:
  "disp_inv d \<Longrightarrow> \<exists>d'. EmitEvent e d = Some d' \<and> disp_inv d' \<and> closed d' = closed d"
  by (auto simp: disp_inv_def EmitEvent_def chan_try_send_def)

lemma Dispatcher_Close_total:
  "disp_inv d \<Longrightarrow> \<exists>d'. Dispatcher_Close d = Some d' \<and> closed d' \<and> disp_inv d'"
  by (auto simp: disp_inv_def Dispatcher_Close_def chan_close_def)

lemma Events_recv_inv [inv_intros]:
  "disp_inv d \<Longrightarrow> disp_inv (snd (Events_recv d)) \<and> closed (snd (Events_recv d)) = closed d"
  by (auto simp: disp_inv_def Events_recv_def chan_recv_def split: list.splits prod.splits)

lemma disp_step_inv: "disp_inv d \<Longrightarrow> disp_step d l d' \<Longrightarrow> disp_inv d'"
  by (elim disp_stepE)
    (metis EmitEvent_total option.inject, metis Dispatcher_Close_total option.inject,
      metis Events_recv_inv snd_conv)

lemma disp_step_closed: "disp_inv d \<Longrightarrow> closed d \<Longrightarrow> disp_step d l d' \<Longrightarrow> closed d'"
  by (elim disp_stepE)
    (auto simp: EmitEvent_def Dispatcher_Close_def Events_recv_def split: prod.splits)

text \<open>The dispatcher as a bounded queue of converted events.\<close>

definition disp_offer :: "'err Event \<Rightarrow> 'err Dispatcher \<Rightarrow> 'err Dispatcher" where
  "disp_offer e d = (case EmitEvent e d of None \<Rightarrow> d | Some d' \<Rightarrow> d')"

definition queued :: "'err Dispatcher \<Rightarrow> 'err Event list" where
  "queued d = map (\<lambda>e. \<lparr>ev_PeerID = ce_PeerID e, ev_State = ce_State e, ev_Error = ce_Error e,
                        ev_Timestamp = ce_Timestamp e\<rparr>) (cbuf (events d))"

interpretation disp: closable disp_inv closed Dispatcher_Close disp_step
proof unfold_locales
  show "closed s \<Longrightarrow> Dispatcher_Close s = Some s" for s :: "'a Dispatcher"
    by (simp add: Dispatcher_Close_def)
qed (auto intro: Dispatcher_Close_total disp_step_inv disp_step_closed)

interpretation dq: bounded_fifo queued "\<lambda>d. ccap (events d)"
    "\<lambda>d. \<not> closed d \<and> \<not> cclosed (events d)" disp_offer
  by unfold_locales
    (auto simp: queued_def disp_offer_def EmitEvent_def chan_try_send_def to_ConnectionEvent_def)

lemma disp_init_queue [simp]:
  "queued (NewDispatcher n) = []" "ccap (events (NewDispatcher n)) = n"
  "\<not> closed (NewDispatcher n)" "\<not> cclosed (events (NewDispatcher n))"
  by (simp_all add: queued_def NewDispatcher_def make_chan_def)

section \<open>Properties\<close>

text \<open>
  No panic and a lasting close. Whatever sequence of emits, closes and receives is applied to a new
  dispatcher, the next emit and the next close succeed (no send on a closed channel, no second
  close of the channel); once closed it stays closed, a further close changes nothing and no emit
  changes it either.
\<close>

theorem dispatcher_never_panics:
  assumes "runs disp_step (NewDispatcher n) ls d"
  shows "(\<exists>d'. EmitEvent e d = Some d') \<and>
         (\<exists>d'. Dispatcher_Close d = Some d' \<and>
            (\<forall>ls' d''. runs disp_step d' ls' d'' \<longrightarrow>
               closed d'' \<and> Dispatcher_Close d'' = Some d'' \<and> EmitEvent e d'' = Some d''))"
proof -
  have inv: "disp_inv d"
    using assms
    by (induction "NewDispatcher n :: 'a Dispatcher" ls d rule: runs.induct)
      (auto intro: disp_inv_New disp_step_inv)
  obtain d' where d': "Dispatcher_Close d = Some d'" using Dispatcher_Close_total [OF inv] by blast
  have "closed d'' \<and> Dispatcher_Close d'' = Some d''" if "runs disp_step d' ls' d''" for ls' d''
    using disp.closed_forever [OF inv d' that] .
  then show ?thesis using d' EmitEvent_total [OF inv, of e] by (auto simp: EmitEvent_def)
qed

theorem dispatcher_never_panics_witness:
  "\<exists>d d'. Dispatcher_Close (NewDispatcher 2 :: nat Dispatcher) = Some d \<and> Dispatcher_Close d = Some d'"
proof -
  let ?e = "\<lparr>ev_PeerID = ''p'', ev_State = StateConnected, ev_Error = None, ev_Timestamp = 0\<rparr> :: nat Event"
  obtain d where d: "Dispatcher_Close (NewDispatcher 2 :: nat Dispatcher) = Some d"
    by (simp add: Dispatcher_Close_def NewDispatcher_def chan_close_def make_chan_def)
  then have "runs disp_step (NewDispatcher 2 :: nat Dispatcher) [DClose] d"
    by (auto intro: runs_cons [OF _ runs_nil] disp_close)
  then show ?thesis using dispatcher_never_panics [of 2 "[DClose]" d ?e] d by blast
qed

text \<open>
  What a slow consumer gets. After any list of events is emitted to a new dispatcher whose consumer
  does not receive, the channel holds exactly the first \<open>n\<close> of them in their order with all fields
  unchanged, where \<open>n\<close> is the buffer size; the rest is dropped.
\<close>

theorem dispatcher_keeps_first_events:
  "queued (fold disp_offer es (NewDispatcher n)) = take n es"
  using dq.offer_all_contents [of "NewDispatcher n" es] by simp

end
