(* ===== verification/ConnManager.thy ===== *)
theory ConnManager
  imports AddressBook Backoff Connection Dispatch
begin

text \<open>
  The connection manager (\<^verbatim>\<open>src/pkg/connection/manager.go\<close>). The manager's maps point to connection objects,
  reconnection states and handshake timers, which other goroutines also hold, so these live in
  stores indexed by number. Each critical section of the code is one definition; a method is the
  sequence of its sections, of the events it emits and of the calls to the host (an interface whose
  results are inputs here). The theory \<open>ConnGoroutines\<close> runs the same sections as interleaved goroutines.
\<close>

section \<open>State\<close>

datatype conn_err =
    CtxDone ctx_err
  | PeerIsBlacklisted peer_id
  | AlreadyConnected peer_id ConnectionState
  | InCooldown peer_id duration
  | NotInAddressBook peer_id book_err
  | BadTransition ConnectionState ConnectionState
  | ConnectFailed peer_id string
  | NotConnected peer_id
  | NotReconnecting peer_id
  | HandshakeTimedOut
  | AttemptsExhausted
  | MaxAttemptsReached
  | HostError string

record ManagerConfig =
  mc_HandshakeTimeout :: duration
  mc_ReconnectBaseDelay :: duration
  mc_ReconnectMaxDelay :: duration
  mc_ReconnectMaxAttempts :: int
  mc_FailedHandshakeCooldown :: duration

text \<open>
  The manager's fixed parameters: the text of an identifier, the configuration, the random jitter,
  and whether an event emitter was given.
\<close>

record menv =
  e_ids :: "peer_id \<Rightarrow> string"
  e_cfg :: ManagerConfig
  e_jitter :: "duration \<Rightarrow> duration"
  e_events :: bool

text \<open>A handshake timer with the context its callback checks.\<close>

record hs_timer =
  t_conn :: nat
  t_stopped :: bool
  t_cancelled :: bool
  t_fired :: bool

datatype 'ma host_call = HostConnect peer_id "'ma list" | HostDisconnect peer_id

record ('ma, 'txt, 'st) manager =
  connections :: "peer_id \<rightharpoonup> nat"
  reconnecting :: "peer_id \<rightharpoonup> nat"
  objs :: "nat \<Rightarrow> (conn_err, 'st) PeerConnection"
  nobjs :: nat
  rstates :: "nat \<Rightarrow> ReconnectState"
  nrs :: nat
  timers :: "nat \<Rightarrow> hs_timer"
  ntimers :: nat
  mctx_done :: bool
  abook :: "('ma, 'txt) book_state"
  emitted :: "conn_err Event list"
  host_log :: "'ma host_call list"

definition NewManager :: "('ma, 'txt) book_state \<Rightarrow> ('ma, 'txt, 'st) manager" where
  "NewManager book =
     \<lparr>connections = Map.empty, reconnecting = Map.empty,
      objs = (\<lambda>r. NewPeerConnection 0 ''''), nobjs = 0,
      rstates = (\<lambda>k. NewReconnectState), nrs = 0,
      timers = (\<lambda>t. \<lparr>t_conn = 0, t_stopped = True, t_cancelled = True, t_fired = True\<rparr>), ntimers = 0,
      mctx_done = False, abook = book, emitted = [], host_log = []\<rparr>"

section \<open>Access to the stores\<close>

definition set_obj :: "nat \<Rightarrow> (conn_err, 'st) PeerConnection \<Rightarrow> ('ma, 'txt, 'st) manager \<Rightarrow> ('ma, 'txt, 'st) manager" where
  "set_obj r pc m = m\<lparr>objs := (objs m)(r := pc)\<rparr>"

definition stop_timer :: "nat option \<Rightarrow> ('ma, 'txt, 'st) manager \<Rightarrow> ('ma, 'txt, 'st) manager" where
  "stop_timer t m =
     (case t of None \<Rightarrow> m | Some n \<Rightarrow> m\<lparr>timers := (timers m)(n := (timers m n)\<lparr>t_stopped := True\<rparr>)\<rparr>)"

definition cancel_timer_ctx :: "nat option \<Rightarrow> ('ma, 'txt, 'st) manager \<Rightarrow> ('ma, 'txt, 'st) manager" where
  "cancel_timer_ctx t m =
     (case t of None \<Rightarrow> m | Some n \<Rightarrow> m\<lparr>timers := (timers m)(n := (timers m n)\<lparr>t_cancelled := True\<rparr>)\<rparr>)"

text \<open>The methods of a connection, on the object at a reference.\<close>

definition conn_TransitionTo :: "time_ns \<Rightarrow> ConnectionState \<Rightarrow> nat \<Rightarrow> ('ma, 'txt, 'st) manager \<Rightarrow>
    conn_err option \<times> ('ma, 'txt, 'st) manager" where
  "conn_TransitionTo now t r m =
     (case TransitionTo now t (objs m r) of
        (Some (a, b), pc) \<Rightarrow> (Some (BadTransition a b), set_obj r pc m)
      | (None, pc) \<Rightarrow> (None, set_obj r pc m))"

definition conn_CancelHandshakeTimeout :: "nat \<Rightarrow> ('ma, 'txt, 'st) manager \<Rightarrow> ('ma, 'txt, 'st) manager" where
  "conn_CancelHandshakeTimeout r m =
     (case pc_CancelHandshakeTimeout (objs m r) of
        (t, c, pc) \<Rightarrow> cancel_timer_ctx c (stop_timer t (set_obj r pc m)))"

definition conn_Cleanup :: "nat \<Rightarrow> ('ma, 'txt, 'st) manager \<Rightarrow> ('ma, 'txt, 'st) manager" where
  "conn_Cleanup r m =
     (case Cleanup (objs m r) of
        (t, c, pc, _) \<Rightarrow> cancel_timer_ctx c (stop_timer t (set_obj r pc m)))"

definition conn_SetError :: "conn_err option \<Rightarrow> nat \<Rightarrow> ('ma, 'txt, 'st) manager \<Rightarrow> ('ma, 'txt, 'st) manager" where
  "conn_SetError e r m = set_obj r (SetError e (objs m r)) m"

definition cancel_rs :: "nat \<Rightarrow> ('ma, 'txt, 'st) manager \<Rightarrow> ('ma, 'txt, 'st) manager" where
  "cancel_rs k m = m\<lparr>rstates := (rstates m)(k := (rstates m k)\<lparr>rs_cancelled := True\<rparr>)\<rparr>"

definition emitEvent :: "menv \<Rightarrow> time_ns \<Rightarrow> peer_id \<Rightarrow> ConnectionState \<Rightarrow> conn_err option \<Rightarrow>
    ('ma, 'txt, 'st) manager \<Rightarrow> ('ma, 'txt, 'st) manager" where
  "emitEvent env now p st err m =
     (if e_events env then
        m\<lparr>emitted := emitted m @ [\<lparr>ev_PeerID = p, ev_State = st, ev_Error = err, ev_Timestamp = now\<rparr>]\<rparr>
      else m)"

definition host_call :: "'ma host_call \<Rightarrow> ('ma, 'txt, 'st) manager \<Rightarrow> ('ma, 'txt, 'st) manager" where
  "host_call c m = m\<lparr>host_log := host_log m @ [c]\<rparr>"

text \<open>\<^verbatim>\<open>_ = m.addressBook.UpdateLastSeen(peerID)\<close>\<close>

definition update_last_seen :: "menv \<Rightarrow> time_ns \<Rightarrow> peer_id \<Rightarrow> ('ma, 'txt, 'st) manager \<Rightarrow> ('ma, 'txt, 'st) manager" where
  "update_last_seen env now p m = m\<lparr>abook := snd (UpdateLastSeen (e_ids env) now p (abook m))\<rparr>"

definition book_IsBlacklisted :: "menv \<Rightarrow> ('ma, 'txt, 'st) manager \<Rightarrow> peer_id \<Rightarrow> bool" where
  "book_IsBlacklisted env m p = IsBlacklisted (e_ids env) (fst (abook m)) p"

section \<open>Critical sections\<close>

definition getOrCreate :: "time_ns \<Rightarrow> peer_id \<Rightarrow> ('ma, 'txt, 'st) manager \<Rightarrow> nat \<times> ('ma, 'txt, 'st) manager" where
  "getOrCreate now p m =
     (case connections m p of
        Some r \<Rightarrow> (r, m)
      | None \<Rightarrow>
          (nobjs m,
           m\<lparr>objs := (objs m)(nobjs m := NewPeerConnection now p), nobjs := Suc (nobjs m),
              connections := (connections m)(p \<mapsto> nobjs m)\<rparr>))"

definition setupHandshakeTimeout :: "nat \<Rightarrow> ('ma, 'txt, 'st) manager \<Rightarrow> ('ma, 'txt, 'st) manager" where
  "setupHandshakeTimeout r m =
     (let n = ntimers m;
          m1 = m\<lparr>timers := (timers m)(n := \<lparr>t_conn = r, t_stopped = False, t_cancelled = False, t_fired = False\<rparr>),
                 ntimers := Suc n\<rparr>
      in set_obj r ((objs m1 r)\<lparr>HandshakeCancel := Some n, HandshakeTimer := Some n\<rparr>) m1)"

text \<open>The checks on an existing connection in the first section of \<^verbatim>\<open>ConnectCtx\<close>.\<close>

definition connect_refused :: "time_ns \<Rightarrow> peer_id \<Rightarrow> ('ma, 'txt, 'st) manager \<Rightarrow> conn_err option" where
  "connect_refused now p m =
     (case connections m p of
        None \<Rightarrow> None
      | Some r \<Rightarrow>
          let pc = objs m r; st = State pc in
          if IsActive st then Some (AlreadyConnected p st)
          else if st = StateCooldown then
            (if IsInCooldown now pc then Some (InCooldown p (CooldownRemaining now pc)) else None)
          else None)"

definition connect_lock :: "menv \<Rightarrow> time_ns \<Rightarrow> peer_id \<Rightarrow> ('ma, 'txt, 'st) manager \<Rightarrow>
    (conn_err, nat \<times> 'ma list) result \<times> ('ma, 'txt, 'st) manager" where
  "connect_lock env now p m =
     (if book_IsBlacklisted env m p then (Inl (PeerIsBlacklisted p), m)
      else case connect_refused now p m of
        Some e \<Rightarrow> (Inl e, m)
      | None \<Rightarrow>
          (case GetPeer (e_ids env) p (fst (abook m)) of
             Inl e \<Rightarrow> (Inl (NotInAddressBook p e), m)
           | Inr entry \<Rightarrow>
               (case getOrCreate now p m of
                  (r, m1) \<Rightarrow>
                    let m2 = set_obj r (SetIsOutbound True (objs m1 r)) m1 in
                    (case conn_TransitionTo now StateConnecting r m2 of
                       (Some e, m3) \<Rightarrow> (Inl e, m3)
                     | (None, m3) \<Rightarrow> (Inr (r, Multiaddrs entry), m3)))))"

definition connected_lock :: "time_ns \<Rightarrow> nat \<Rightarrow> ('ma, 'txt, 'st) manager \<Rightarrow>
    conn_err option \<times> ('ma, 'txt, 'st) manager" where
  "connected_lock now r m =
     (case conn_TransitionTo now StateConnected r m of
        (Some e, m1) \<Rightarrow> (Some e, m1)
      | (None, m1) \<Rightarrow> (None, setupHandshakeTimeout r m1))"

definition connect_failure_lock :: "time_ns \<Rightarrow> peer_id \<Rightarrow> conn_err \<Rightarrow> ('ma, 'txt, 'st) manager \<Rightarrow> ('ma, 'txt, 'st) manager" where
  "connect_failure_lock now p err m =
     (case connections m p of
        None \<Rightarrow> m
      | Some r \<Rightarrow> snd (conn_TransitionTo now StateDisconnected r (conn_SetError (Some err) r m)))"

text \<open>The new reconnection state is returned when a loop is to be started.\<close>

definition start_reconnection_lock :: "time_ns \<Rightarrow> peer_id \<Rightarrow> ('ma, 'txt, 'st) manager \<Rightarrow>
    nat option \<times> ('ma, 'txt, 'st) manager" where
  "start_reconnection_lock now p m =
     (if reconnecting m p \<noteq> None then (None, m)
      else case connections m p of
        None \<Rightarrow> (None, m)
      | Some r \<Rightarrow>
          let k = nrs m;
              m1 = m\<lparr>rstates := (rstates m)(k := NewReconnectState), nrs := Suc k,
                     reconnecting := (reconnecting m)(p \<mapsto> k)\<rparr>;
              m2 = set_obj r ((objs m1 r)\<lparr>pc_ReconnectState := Some k\<rparr>) m1
          in (Some k, snd (conn_TransitionTo now StateReconnecting r m2)))"

definition delete_reconnecting :: "peer_id \<Rightarrow> ('ma, 'txt, 'st) manager \<Rightarrow> ('ma, 'txt, 'st) manager" where
  "delete_reconnecting p m = m\<lparr>reconnecting := (reconnecting m)(p := None)\<rparr>"

definition reconnected_lock :: "time_ns \<Rightarrow> peer_id \<Rightarrow> ('ma, 'txt, 'st) manager \<Rightarrow> ('ma, 'txt, 'st) manager" where
  "reconnected_lock now p m =
     (case connections m p of
        None \<Rightarrow> m
      | Some r \<Rightarrow> setupHandshakeTimeout r (snd (conn_TransitionTo now StateConnected r m)))"

definition exhausted_lock :: "time_ns \<Rightarrow> peer_id \<Rightarrow> ('ma, 'txt, 'st) manager \<Rightarrow> ('ma, 'txt, 'st) manager" where
  "exhausted_lock now p m =
     (let m1 = delete_reconnecting p m in
      case connections m1 p of
        None \<Rightarrow> m1
      | Some r \<Rightarrow> conn_SetError (Some AttemptsExhausted) r (snd (conn_TransitionTo now StateDisconnected r m1)))"

definition cancelled_lock :: "time_ns \<Rightarrow> peer_id \<Rightarrow> ('ma, 'txt, 'st) manager \<Rightarrow> ('ma, 'txt, 'st) manager" where
  "cancelled_lock now p m =
     (let m1 = delete_reconnecting p m in
      case connections m1 p of
        None \<Rightarrow> m1
      | Some r \<Rightarrow> snd (conn_TransitionTo now StateDisconnected r m1))"

text \<open>The section of \<^verbatim>\<open>handleHandshakeTimeout\<close>; the connection is returned when the timeout takes effect.\<close>

definition timeout_lock :: "menv \<Rightarrow> time_ns \<Rightarrow> peer_id \<Rightarrow> ('ma, 'txt, 'st) manager \<Rightarrow>
    nat option \<times> ('ma, 'txt, 'st) manager" where
  "timeout_lock env now p m =
     (case connections m p of
        None \<Rightarrow> (None, m)
      | Some r \<Rightarrow>
          if State (objs m r) \<noteq> StateConnected then (None, m)
          else case StartCooldown now (mc_FailedHandshakeCooldown (e_cfg env)) (objs m r) of
            (Some e, _) \<Rightarrow> (None, m)
          | (None, pc) \<Rightarrow> (Some r, set_obj r pc m))"

text \<open>The section after the cooldown timer: \<open>True\<close> when reconnection is to be started.\<close>

definition cooldown_expired_lock :: "time_ns \<Rightarrow> peer_id \<Rightarrow> ('ma, 'txt, 'st) manager \<Rightarrow>
    bool \<times> ('ma, 'txt, 'st) manager" where
  "cooldown_expired_lock now p m =
     (case connections m p of
        None \<Rightarrow> (False, m)
      | Some r \<Rightarrow>
          if State (objs m r) = StateCooldown then (True, snd (conn_TransitionTo now StateDisconnected r m))
          else (False, m))"

definition disconnect_lock :: "peer_id \<Rightarrow> ('ma, 'txt, 'st) manager \<Rightarrow>
    (conn_err, nat) result \<times> ('ma, 'txt, 'st) manager" where
  "disconnect_lock p m =
     (case connections m p of
        None \<Rightarrow> (Inl (NotConnected p), m)
      | Some r \<Rightarrow>
          (case reconnecting m p of
             None \<Rightarrow> (Inr r, m)
           | Some k \<Rightarrow> (Inr r, delete_reconnecting p (cancel_rs k m))))"

definition on_disconnect_lock :: "time_ns \<Rightarrow> peer_id \<Rightarrow> conn_err option \<Rightarrow> ('ma, 'txt, 'st) manager \<Rightarrow>
    bool \<times> ('ma, 'txt, 'st) manager" where
  "on_disconnect_lock now p err m =
     (case connections m p of
        None \<Rightarrow> (False, m)
      | Some r \<Rightarrow>
          (True, conn_SetError err r (snd (conn_TransitionTo now StateDisconnected r (conn_Cleanup r m)))))"

definition mark_established_lock :: "time_ns \<Rightarrow> peer_id \<Rightarrow> ('ma, 'txt, 'st) manager \<Rightarrow>
    conn_err option \<times> ('ma, 'txt, 'st) manager" where
  "mark_established_lock now p m =
     (case connections m p of
        None \<Rightarrow> (Some (NotConnected p), m)
      | Some r \<Rightarrow> conn_TransitionTo now StateEstablished r (conn_CancelHandshakeTimeout r m))"

text \<open>\<open>True\<close> when the connection became connected, so that the event is emitted.\<close>

definition register_incoming_lock :: "time_ns \<Rightarrow> peer_id \<Rightarrow> ('ma, 'txt, 'st) manager \<Rightarrow>
    bool \<times> ('ma, 'txt, 'st) manager" where
  "register_incoming_lock now p m =
     (case getOrCreate now p m of
        (r, m1) \<Rightarrow>
          let m2 = set_obj r (SetIsOutbound False (objs m1 r)) m1 in
          if State (objs m2 r) = StateDisconnected then
            (True, setupHandshakeTimeout r
                     (snd (conn_TransitionTo now StateConnected r
                       (snd (conn_TransitionTo now StateConnecting r m2)))))
          else (False, m2))"

definition CancelReconnection :: "time_ns \<Rightarrow> peer_id \<Rightarrow> ('ma, 'txt, 'st) manager \<Rightarrow>
    conn_err option \<times> ('ma, 'txt, 'st) manager" where
  "CancelReconnection now p m =
     (case reconnecting m p of
        None \<Rightarrow> (Some (NotReconnecting p), m)
      | Some k \<Rightarrow>
          let m1 = delete_reconnecting p (cancel_rs k m) in
          (None, case connections m1 p of
                   None \<Rightarrow> m1
                 | Some r \<Rightarrow> snd (conn_TransitionTo now StateDisconnected r m1)))"

text \<open>
  \<^verbatim>\<open>Shutdown\<close>: the manager's context is cancelled first, then every connection of the map is cleaned up
  and every reconnection cancelled. The map is visited in an unspecified order: \<open>rs\<close> and \<open>ks\<close> list its
  values.
\<close>

definition shutdown_lock :: "nat list \<Rightarrow> nat list \<Rightarrow> ('ma, 'txt, 'st) manager \<Rightarrow> ('ma, 'txt, 'st) manager" where
  "shutdown_lock rs ks m =
     (fold cancel_rs ks (fold conn_Cleanup rs m))\<lparr>connections := Map.empty, reconnecting := Map.empty\<rparr>"

definition Shutdown :: "nat list \<Rightarrow> nat list \<Rightarrow> ('ma, 'txt, 'st) manager \<Rightarrow> ('ma, 'txt, 'st) manager" where
  "Shutdown rs ks m = shutdown_lock rs ks (m\<lparr>mctx_done := True\<rparr>)"

section \<open>Methods\<close>

text \<open>The goroutines a method starts are returned beside its result.\<close>

datatype goroutine = GoLoop peer_id nat | GoCooldown peer_id | GoConnect peer_id

definition startReconnection :: "menv \<Rightarrow> time_ns \<Rightarrow> peer_id \<Rightarrow> ('ma, 'txt, 'st) manager \<Rightarrow>
    goroutine list \<times> ('ma, 'txt, 'st) manager" where
  "startReconnection env now p m =
     (if book_IsBlacklisted env m p then ([], m)
      else case start_reconnection_lock now p m of
        (None, m1) \<Rightarrow> ([], m1)
      | (Some k, m1) \<Rightarrow> ([GoLoop p k], emitEvent env now p StateReconnecting None m1))"

definition handleConnectFailure :: "menv \<Rightarrow> time_ns \<Rightarrow> peer_id \<Rightarrow> conn_err \<Rightarrow> ('ma, 'txt, 'st) manager \<Rightarrow>
    goroutine list \<times> ('ma, 'txt, 'st) manager" where
  "handleConnectFailure env now p err m =
     startReconnection env now p
       (emitEvent env now p StateDisconnected (Some err) (connect_failure_lock now p err m))"

text \<open>
  \<^verbatim>\<open>ConnectCtx\<close>, with the time before and after the dial and the error of \<^verbatim>\<open>host.Connect\<close> (which includes
  the expiry of the dial's own timeout and the cancellation of either context).
\<close>

definition ConnectCtx :: "menv \<Rightarrow> ctx \<Rightarrow> time_ns \<Rightarrow> time_ns \<Rightarrow> string option \<Rightarrow> peer_id \<Rightarrow>
    ('ma, 'txt, 'st) manager \<Rightarrow> conn_err option \<times> goroutine list \<times> ('ma, 'txt, 'st) manager" where
  "ConnectCtx env c t0 t1 hostErr p m =
     (if ctx_Done c 0 then (Some (CtxDone (ctxErr c)), [], m)
      else case connect_lock env t0 p m of
        (Inl e, m1) \<Rightarrow> (Some e, [], m1)
      | (Inr (r, addrs), m1) \<Rightarrow>
          let m2 = host_call (HostConnect p addrs) (emitEvent env t0 p StateConnecting None m1) in
          (case hostErr of
             Some he \<Rightarrow>
               (case handleConnectFailure env t1 p (HostError he) m2 of
                  (gs, m3) \<Rightarrow> (Some (ConnectFailed p he), gs, m3))
           | None \<Rightarrow>
               (case connected_lock t1 r m2 of
                  (Some e, m3) \<Rightarrow> (Some e, [], m3)
                | (None, m3) \<Rightarrow>
                    (None, [], update_last_seen env t1 p (emitEvent env t1 p StateConnected None m3)))))"

definition mgr_Connect :: "menv \<Rightarrow> time_ns \<Rightarrow> time_ns \<Rightarrow> string option \<Rightarrow> peer_id \<Rightarrow>
    ('ma, 'txt, 'st) manager \<Rightarrow> conn_err option \<times> goroutine list \<times> ('ma, 'txt, 'st) manager" where
  "mgr_Connect env = ConnectCtx env Background"

definition DisconnectCtx :: "menv \<Rightarrow> ctx \<Rightarrow> time_ns \<Rightarrow> peer_id \<Rightarrow> ('ma, 'txt, 'st) manager \<Rightarrow>
    conn_err option \<times> ('ma, 'txt, 'st) manager" where
  "DisconnectCtx env c now p m =
     (if ctx_Done c 0 then (Some (CtxDone (ctxErr c)), m)
      else case disconnect_lock p m of
        (Inl e, m1) \<Rightarrow> (Some e, m1)
      | (Inr r, m1) \<Rightarrow>
          if ctx_Done c 1 then (Some (CtxDone (ctxErr c)), m1)
          else
            let m2 = host_call (HostDisconnect p) (conn_Cleanup r m1);
                m3 = snd (conn_TransitionTo now StateDisconnected r m2)
            in (None, emitEvent env now p StateDisconnected None m3))"

definition mgr_GetState :: "('ma, 'txt, 'st) manager \<Rightarrow> peer_id \<Rightarrow> ConnectionState" where
  "mgr_GetState m p = (case connections m p of Some r \<Rightarrow> State (objs m r) | None \<Rightarrow> StateDisconnected)"

definition IsConnecting :: "('ma, 'txt, 'st) manager \<Rightarrow> peer_id \<Rightarrow> bool" where
  "IsConnecting m p = (mgr_GetState m p = StateConnecting)"

definition handleHandshakeTimeout :: "menv \<Rightarrow> time_ns \<Rightarrow> peer_id \<Rightarrow> ('ma, 'txt, 'st) manager \<Rightarrow>
    goroutine list \<times> ('ma, 'txt, 'st) manager" where
  "handleHandshakeTimeout env now p m =
     (case timeout_lock env now p m of
        (None, m1) \<Rightarrow> ([], m1)
      | (Some r, m1) \<Rightarrow>
          ([GoCooldown p],
           emitEvent env now p StateCooldown (Some HandshakeTimedOut)
             (host_call (HostDisconnect p) (conn_CancelHandshakeTimeout r m1))))"

text \<open>The callback of the handshake timer.\<close>

definition handshake_timer_callback :: "menv \<Rightarrow> time_ns \<Rightarrow> nat \<Rightarrow> ('ma, 'txt, 'st) manager \<Rightarrow>
    goroutine list \<times> ('ma, 'txt, 'st) manager" where
  "handshake_timer_callback env now n m =
     (if t_cancelled (timers m n) \<or> mctx_done m then ([], m)
      else handleHandshakeTimeout env now (pc_PeerID (objs m (t_conn (timers m n)))) m)"

text \<open>
  The goroutine of \<^verbatim>\<open>scheduleReconnectAfterCooldown\<close>; the flag says whether the select takes the case of the
  manager's context.
\<close>

definition cooldown_goroutine :: "menv \<Rightarrow> bool \<Rightarrow> time_ns \<Rightarrow> peer_id \<Rightarrow> ('ma, 'txt, 'st) manager \<Rightarrow>
    goroutine list \<times> ('ma, 'txt, 'st) manager" where
  "cooldown_goroutine env stopped now p m =
     (if stopped then ([], m)
      else case cooldown_expired_lock now p m of
        (False, m1) \<Rightarrow> ([], m1)
      | (True, m1) \<Rightarrow> startReconnection env now p (emitEvent env now p StateDisconnected None m1))"

definition OnDisconnect :: "menv \<Rightarrow> time_ns \<Rightarrow> peer_id \<Rightarrow> conn_err option \<Rightarrow> ('ma, 'txt, 'st) manager \<Rightarrow>
    goroutine list \<times> ('ma, 'txt, 'st) manager" where
  "OnDisconnect env now p err m =
     (case on_disconnect_lock now p err m of
        (False, m1) \<Rightarrow> ([], m1)
      | (True, m1) \<Rightarrow> startReconnection env now p (emitEvent env now p StateDisconnected err m1))"

definition handleReconnectionExhausted :: "menv \<Rightarrow> time_ns \<Rightarrow> peer_id \<Rightarrow> ('ma, 'txt, 'st) manager \<Rightarrow> ('ma, 'txt, 'st) manager" where
  "handleReconnectionExhausted env now p m =
     emitEvent env now p StateDisconnected (Some MaxAttemptsReached) (exhausted_lock now p m)"

definition handleReconnectionCancelled :: "menv \<Rightarrow> time_ns \<Rightarrow> peer_id \<Rightarrow> ('ma, 'txt, 'st) manager \<Rightarrow> ('ma, 'txt, 'st) manager" where
  "handleReconnectionCancelled env now p m =
     emitEvent env now p StateDisconnected None (cancelled_lock now p m)"

definition attemptReconnect :: "menv \<Rightarrow> time_ns \<Rightarrow> string option \<Rightarrow> peer_id \<Rightarrow> ('ma, 'txt, 'st) manager \<Rightarrow>
    conn_err option \<times> ('ma, 'txt, 'st) manager" where
  "attemptReconnect env now hostErr p m =
     (case GetPeer (e_ids env) p (fst (abook m)) of
        Inl e \<Rightarrow> (Some (NotInAddressBook p e), m)
      | Inr entry \<Rightarrow>
          let m1 = host_call (HostConnect p (Multiaddrs entry)) m in
          (case hostErr of
             Some he \<Rightarrow> (Some (HostError he), m1)
           | None \<Rightarrow>
               (None, update_last_seen env now p
                  (emitEvent env now p StateConnected None (reconnected_lock now p m1)))))"

definition env_backoff :: "menv \<Rightarrow> BackoffCalculator" where
  "env_backoff env = NewBackoffCalculator (mc_ReconnectBaseDelay (e_cfg env)) (mc_ReconnectMaxDelay (e_cfg env))"

definition schedule_rs :: "menv \<Rightarrow> time_ns \<Rightarrow> nat \<Rightarrow> ('ma, 'txt, 'st) manager \<Rightarrow> ('ma, 'txt, 'st) manager" where
  "schedule_rs env now k m =
     m\<lparr>rstates := (rstates m)(k := ScheduleNext (e_jitter env) now (env_backoff env) (rstates m k))\<rparr>"

definition loop_continues :: "menv \<Rightarrow> nat \<Rightarrow> ('ma, 'txt, 'st) manager \<Rightarrow> bool" where
  "loop_continues env k m = ShouldRetry (Attempts (rstates m k)) (mc_ReconnectMaxAttempts (e_cfg env))"

text \<open>
  What one round of the reconnection loop meets: whether its context is cancelled during the wait,
  and the error of the dial. \<open>reconnectionLoop\<close> runs one round per element; the flag of its result
  says that the loop has returned.
\<close>

record loop_round =
  lr_now :: time_ns
  lr_cancelled :: bool
  lr_dial :: "string option"

fun reconnectionLoop :: "menv \<Rightarrow> peer_id \<Rightarrow> nat \<Rightarrow> loop_round list \<Rightarrow> ('ma, 'txt, 'st) manager \<Rightarrow>
    bool \<times> ('ma, 'txt, 'st) manager" where
  "reconnectionLoop env p k [] m = (False, m)"
| "reconnectionLoop env p k (i # is) m =
     (if \<not> loop_continues env k m then (True, handleReconnectionExhausted env (lr_now i) p m)
      else
        let m1 = schedule_rs env (lr_now i) k m in
        if lr_cancelled i then (True, m1)
        else if book_IsBlacklisted env m1 p then (True, handleReconnectionCancelled env (lr_now i) p m1)
        else (case attemptReconnect env (lr_now i) (lr_dial i) p m1 of
                (None, m2) \<Rightarrow> (True, delete_reconnecting p m2)
              | (Some e, m2) \<Rightarrow> reconnectionLoop env p k is m2))"

definition mgr_GetSharedKey :: "('ma, 'txt, 'st) manager \<Rightarrow> peer_id \<Rightarrow> bytes option" where
  "mgr_GetSharedKey m p = (case connections m p of Some r \<Rightarrow> pc_GetSharedKey (objs m r) | None \<Rightarrow> None)"

definition mgr_SetSharedKey :: "time_ns \<Rightarrow> peer_id \<Rightarrow> bytes \<Rightarrow> ('ma, 'txt, 'st) manager \<Rightarrow> ('ma, 'txt, 'st) manager" where
  "mgr_SetSharedKey now p key m =
     (case getOrCreate now p m of (r, m1) \<Rightarrow> set_obj r (pc_SetSharedKey key (objs m1 r)) m1)"

definition MarkEstablished :: "menv \<Rightarrow> time_ns \<Rightarrow> peer_id \<Rightarrow> ('ma, 'txt, 'st) manager \<Rightarrow>
    conn_err option \<times> ('ma, 'txt, 'st) manager" where
  "MarkEstablished env now p m =
     (case mark_established_lock now p m of
        (Some e, m1) \<Rightarrow> (Some e, m1)
      | (None, m1) \<Rightarrow> (None, emitEvent env now p StateEstablished None m1))"

definition RegisterIncomingConnection :: "menv \<Rightarrow> time_ns \<Rightarrow> peer_id \<Rightarrow> ('ma, 'txt, 'st) manager \<Rightarrow> ('ma, 'txt, 'st) manager" where
  "RegisterIncomingConnection env now p m =
     (case register_incoming_lock now p m of
        (shouldEmit, m1) \<Rightarrow> if shouldEmit then emitEvent env now p StateConnected None m1 else m1)"

definition AutoConnect :: "peer_id \<Rightarrow> ('ma, 'txt, 'st) manager \<Rightarrow> goroutine list" where
  "AutoConnect p m = (if IsActive (mgr_GetState m p) then [] else [GoConnect p])"

definition mgr_CancelHandshakeTimeout :: "peer_id \<Rightarrow> ('ma, 'txt, 'st) manager \<Rightarrow>
    conn_err option \<times> ('ma, 'txt, 'st) manager" where
  "mgr_CancelHandshakeTimeout p m =
     (case connections m p of
        None \<Rightarrow> (Some (NotConnected p), m)
      | Some r \<Rightarrow> (None, conn_CancelHandshakeTimeout r m))"

definition mgr_IsOutbound :: "('ma, 'txt, 'st) manager \<Rightarrow> peer_id \<Rightarrow> (conn_err, bool) result" where
  "mgr_IsOutbound m p =
     (case connections m p of None \<Rightarrow> Inl (NotConnected p) | Some r \<Rightarrow> Inr (IsOutbound (objs m r)))"

section \<open>How the sections change the stores\<close>

text \<open>
  The change of one connection's state by one action: none, a valid transition, or the two
  transitions with which an incoming connection is registered under one lock.
\<close>

definition state_move :: "ConnectionState \<Rightarrow> ConnectionState \<Rightarrow> bool" where
  "state_move a b \<longleftrightarrow> a = b \<or> CanTransitionTo a b \<or> a = StateDisconnected \<and> b = StateConnected"

text \<open>The existing connections keep their peer, and their state changes only by such a move into \<open>T\<close>.\<close>

definition evolves :: "ConnectionState set \<Rightarrow> ('ma, 'txt, 'st) manager \<Rightarrow> ('ma, 'txt, 'st) manager \<Rightarrow> bool" where
  "evolves T m m' \<longleftrightarrow>
     nobjs m \<le> nobjs m' \<and> nrs m \<le> nrs m' \<and> ntimers m \<le> ntimers m' \<and>
     (\<forall>r < nobjs m.
        (State (objs m' r) = State (objs m r) \<or>
         state_move (State (objs m r)) (State (objs m' r)) \<and> State (objs m' r) \<in> T) \<and>
        pc_PeerID (objs m' r) = pc_PeerID (objs m r))"

text \<open>Nothing of what \<open>evolves\<close> watches changes.\<close>

definition quiet :: "('ma, 'txt, 'st) manager \<Rightarrow> ('ma, 'txt, 'st) manager \<Rightarrow> bool" where
  "quiet m m' \<longleftrightarrow>
     nobjs m' = nobjs m \<and> nrs m' = nrs m \<and> ntimers m' = ntimers m \<and>
     connections m' = connections m \<and>
     (\<forall>r. State (objs m' r) = State (objs m r) \<and> pc_PeerID (objs m' r) = pc_PeerID (objs m r))"

lemma state_move_refl [simp]: "state_move a a"
  by (simp add: state_move_def)

lemma quiet_refl [simp]: "quiet m m"
  by (simp add: quiet_def)

lemma quiet_trans: "quiet m m' \<Longrightarrow> quiet m' m'' \<Longrightarrow> quiet m m''"
  by (simp add: quiet_def)

lemma quiet_evolves: "quiet m m' \<Longrightarrow> evolves T m m'"
  by (simp add: quiet_def evolves_def)

lemma evolves_quiet: "evolves T m m' \<Longrightarrow> quiet m' m'' \<Longrightarrow> evolves T m m''"
  by (simp add: quiet_def evolves_def)

lemma quiet_then_evolves: "quiet m m' \<Longrightarrow> evolves T m' m'' \<Longrightarrow> evolves T m m''"
  by (simp add: quiet_def evolves_def)

lemma quiet_ops [simp]:
  "quiet m (conn_CancelHandshakeTimeout r m)" "quiet m (conn_Cleanup r m)" "quiet m (conn_SetError e r m)"
  "quiet m (cancel_rs k m)" "quiet m (emitEvent env now p st err m)" "quiet m (host_call c m)"
  "quiet m (update_last_seen env now p m)" "quiet m (delete_reconnecting p m)"
  "quiet m (schedule_rs env now k m)"
  by (auto simp: quiet_def conn_CancelHandshakeTimeout_def pc_CancelHandshakeTimeout_def
      conn_Cleanup_def Cleanup_def cancel_timer_ctx_def stop_timer_def set_obj_def conn_SetError_def
      SetError_def cancel_rs_def emitEvent_def host_call_def update_last_seen_def
      delete_reconnecting_def schedule_rs_def split: option.splits)

lemma quiet_fold: "(\<And>x m. quiet m (f x m)) \<Longrightarrow> quiet m (fold f xs m)"
  by (induction xs arbitrary: m) (auto intro: quiet_trans)

lemma conn_TransitionTo_cases:
  "conn_TransitionTo now t r m =
     (if CanTransitionTo (State (objs m r)) t
      then (None, m\<lparr>objs := (objs m)(r := (objs m r)\<lparr>State := t, LastStateChange := now\<rparr>)\<rparr>)
      else (Some (BadTransition (State (objs m r)) t), m))"
  by (simp add: conn_TransitionTo_def TransitionTo_if set_obj_def)

lemma conn_TransitionTo_evolves: "evolves {t} m (snd (conn_TransitionTo now t r m))"
  by (auto simp: conn_TransitionTo_cases evolves_def state_move_def)

lemma setupHandshakeTimeout_evolves: "evolves T m m' \<Longrightarrow> evolves T m (setupHandshakeTimeout r m')"
  by (auto simp: setupHandshakeTimeout_def set_obj_def evolves_def Let_def)

lemma getOrCreate_evolves: "getOrCreate now p m = (r, m1) \<Longrightarrow> evolves T m m1"
  by (auto simp: getOrCreate_def evolves_def split: option.splits)

lemma set_obj_quiet:
  "State pc = State (objs m r) \<Longrightarrow> pc_PeerID pc = pc_PeerID (objs m r) \<Longrightarrow> quiet m (set_obj r pc m)"
  by (auto simp: quiet_def set_obj_def)

lemma connect_lock_evolves: "evolves {StateConnecting} m (snd (connect_lock env now p m))"
  by (auto simp: connect_lock_def getOrCreate_def set_obj_def SetIsOutbound_def conn_TransitionTo_cases
      NewPeerConnection_def evolves_def state_move_def Let_def
      split: option.splits sum.splits)

lemma connected_lock_evolves: "evolves {StateConnected} m (snd (connected_lock now r m))"
  using setupHandshakeTimeout_evolves [OF conn_TransitionTo_evolves [of StateConnected m now r], of r]
    conn_TransitionTo_evolves [of StateConnected m now r]
  by (auto simp: connected_lock_def split: prod.splits option.splits)

lemma connect_failure_lock_evolves: "evolves {StateDisconnected} m (connect_failure_lock now p err m)"
  using quiet_then_evolves [OF quiet_ops(3) conn_TransitionTo_evolves]
  by (auto simp: connect_failure_lock_def quiet_evolves split: option.splits)

lemma start_reconnection_lock_evolves: "evolves {StateReconnecting} m (snd (start_reconnection_lock now p m))"
  by (auto simp: start_reconnection_lock_def set_obj_def conn_TransitionTo_cases evolves_def
      state_move_def Let_def split: option.splits)

lemma reconnected_lock_evolves: "evolves {StateConnected} m (reconnected_lock now p m)"
  using setupHandshakeTimeout_evolves [OF conn_TransitionTo_evolves]
  by (auto simp: reconnected_lock_def quiet_evolves split: option.splits)

lemma exhausted_lock_evolves: "evolves {StateDisconnected} m (exhausted_lock now p m)"
  using evolves_quiet [OF quiet_then_evolves [OF quiet_ops(8) conn_TransitionTo_evolves] quiet_ops(3)]
  by (auto simp: exhausted_lock_def quiet_evolves Let_def split: option.splits)

lemma cancelled_lock_evolves: "evolves {StateDisconnected} m (cancelled_lock now p m)"
  using quiet_then_evolves [OF quiet_ops(8) conn_TransitionTo_evolves]
  by (auto simp: cancelled_lock_def quiet_evolves Let_def split: option.splits)

lemma timeout_lock_evolves: "evolves {StateCooldown} m (snd (timeout_lock env now p m))"
  by (auto simp: timeout_lock_def StartCooldown_def ValidateTransition_def set_obj_def evolves_def
      state_move_def split: option.splits)

lemma cooldown_expired_lock_evolves: "evolves {StateDisconnected} m (snd (cooldown_expired_lock now p m))"
  using conn_TransitionTo_evolves
  by (auto simp: cooldown_expired_lock_def quiet_evolves split: option.splits)

lemma disconnect_lock_quiet: "quiet m (snd (disconnect_lock p m))"
  using quiet_trans [OF quiet_ops(4) quiet_ops(8)]
  by (auto simp: disconnect_lock_def split: option.splits)

lemma on_disconnect_lock_evolves: "evolves {StateDisconnected} m (snd (on_disconnect_lock now p err m))"
  using evolves_quiet [OF quiet_then_evolves [OF quiet_ops(2) conn_TransitionTo_evolves] quiet_ops(3)]
  by (auto simp: on_disconnect_lock_def quiet_evolves split: option.splits)

lemma mark_established_lock_evolves: "evolves {StateEstablished} m (snd (mark_established_lock now p m))"
  using quiet_then_evolves [OF quiet_ops(1) conn_TransitionTo_evolves]
  by (auto simp: mark_established_lock_def quiet_evolves split: option.splits)

lemma register_incoming_lock_evolves: "evolves {StateConnected} m (snd (register_incoming_lock now p m))"
  by (auto simp: register_incoming_lock_def getOrCreate_def set_obj_def SetIsOutbound_def
      conn_TransitionTo_cases NewPeerConnection_def setupHandshakeTimeout_def evolves_def state_move_def
      Let_def split: option.splits)

lemma CancelReconnection_evolves: "evolves {StateDisconnected} m (snd (CancelReconnection now p m))"
  using quiet_then_evolves [OF quiet_trans [OF quiet_ops(4) quiet_ops(8)] conn_TransitionTo_evolves]
    quiet_evolves [OF quiet_trans [OF quiet_ops(4) quiet_ops(8)]]
  by (auto simp: CancelReconnection_def quiet_evolves Let_def split: option.splits)

lemma shutdown_lock_evolves: "evolves {} m (shutdown_lock rs ks m)"
proof -
  have "quiet m (fold cancel_rs ks (fold conn_Cleanup rs m))"
    by (intro quiet_trans [OF quiet_fold quiet_fold]) simp_all
  then show ?thesis by (simp add: shutdown_lock_def quiet_def evolves_def)
qed

lemmas section_evolves =
  connect_lock_evolves connected_lock_evolves connect_failure_lock_evolves
  start_reconnection_lock_evolves reconnected_lock_evolves exhausted_lock_evolves
  cancelled_lock_evolves timeout_lock_evolves cooldown_expired_lock_evolves
  on_disconnect_lock_evolves mark_established_lock_evolves register_incoming_lock_evolves
  CancelReconnection_evolves shutdown_lock_evolves

lemma conn_Cleanup_simps [simp]:
  "connections (conn_Cleanup r m) = connections m" "reconnecting (conn_Cleanup r m) = reconnecting m"
  "rstates (conn_Cleanup r m) = rstates m" "host_log (conn_Cleanup r m) = host_log m"
  "emitted (conn_Cleanup r m) = emitted m" "mctx_done (conn_Cleanup r m) = mctx_done m"
  "objs (conn_Cleanup r m) = (objs m)(r := (objs m r)\<lparr>HandshakeTimer := None, HandshakeCancel := None,
      SharedKey := None, EncryptedStreams := [], pc_ReconnectState := None\<rparr>)"
  by (simp_all add: conn_Cleanup_def Cleanup_def cancel_timer_ctx_def stop_timer_def set_obj_def
      split: option.splits)

lemma conn_Cleanup_timers:
  "t_stopped (timers (conn_Cleanup r m) n) = (t_stopped (timers m n) \<or> HandshakeTimer (objs m r) = Some n)"
  "t_cancelled (timers (conn_Cleanup r m) n) = (t_cancelled (timers m n) \<or> HandshakeCancel (objs m r) = Some n)"
  by (auto simp: conn_Cleanup_def Cleanup_def cancel_timer_ctx_def stop_timer_def set_obj_def
      split: option.splits)

lemma to_Disconnected_simps [simp]:
  "State (objs (snd (conn_TransitionTo now StateDisconnected r m)) r) = StateDisconnected"
  by (simp add: conn_TransitionTo_cases)

lemma conn_TransitionTo_simps [simp]:
  "connections (snd (conn_TransitionTo now t r m)) = connections m"
  "reconnecting (snd (conn_TransitionTo now t r m)) = reconnecting m"
  "rstates (snd (conn_TransitionTo now t r m)) = rstates m"
  "timers (snd (conn_TransitionTo now t r m)) = timers m"
  "host_log (snd (conn_TransitionTo now t r m)) = host_log m"
  "emitted (snd (conn_TransitionTo now t r m)) = emitted m"
  "abook (snd (conn_TransitionTo now t r m)) = abook m"
  "SharedKey (objs (snd (conn_TransitionTo now t r m)) r') = SharedKey (objs m r')"
  "HandshakeTimer (objs (snd (conn_TransitionTo now t r m)) r') = HandshakeTimer (objs m r')"
  by (simp_all add: conn_TransitionTo_cases)

lemma emitEvent_simps [simp]:
  "connections (emitEvent env now p st err m) = connections m"
  "reconnecting (emitEvent env now p st err m) = reconnecting m"
  "rstates (emitEvent env now p st err m) = rstates m"
  "timers (emitEvent env now p st err m) = timers m"
  "objs (emitEvent env now p st err m) = objs m"
  "host_log (emitEvent env now p st err m) = host_log m"
  "abook (emitEvent env now p st err m) = abook m"
  by (simp_all add: emitEvent_def)

lemma host_call_simps [simp]:
  "connections (host_call c m) = connections m" "reconnecting (host_call c m) = reconnecting m"
  "rstates (host_call c m) = rstates m" "timers (host_call c m) = timers m"
  "objs (host_call c m) = objs m" "host_log (host_call c m) = host_log m @ [c]"
  "abook (host_call c m) = abook m" "emitted (host_call c m) = emitted m"
  by (simp_all add: host_call_def)

lemma disconnect_lock_effect:
  assumes "connections m p = Some r"
  shows "\<exists>m1. disconnect_lock p m = (Inr r, m1) \<and> connections m1 = connections m \<and> objs m1 = objs m \<and>
     timers m1 = timers m \<and> reconnecting m1 p = None \<and> host_log m1 = host_log m \<and>
     (\<forall>k. reconnecting m p = Some k \<longrightarrow> rs_cancelled (rstates m1 k))"
  using assms
  by (auto simp: disconnect_lock_def delete_reconnecting_def cancel_rs_def split: option.splits)

section \<open>Properties\<close>

text \<open>
  Property C34: When \<^verbatim>\<open>Connect\<close> refuses. A call whose context is done, or for a peer that is blacklisted, already
  active, in a running cooldown or missing from the address book, returns the corresponding error, in this order
  of precedence, and changes nothing: no state, no event and no call of the host.
\<close>

theorem ConnectCtx_refuses:
  "(ctx_Done c 0 \<longrightarrow> ConnectCtx env c t0 t1 he p m = (Some (CtxDone (ctxErr c)), [], m)) \<and>
   (\<not> ctx_Done c 0 \<and> book_IsBlacklisted env m p \<longrightarrow>
      ConnectCtx env c t0 t1 he p m = (Some (PeerIsBlacklisted p), [], m)) \<and>
   (\<not> ctx_Done c 0 \<and> \<not> book_IsBlacklisted env m p \<longrightarrow>
      (IsActive (mgr_GetState m p) \<longrightarrow>
         ConnectCtx env c t0 t1 he p m = (Some (AlreadyConnected p (mgr_GetState m p)), [], m)) \<and>
      (connections m p = Some r \<and> IsInCooldown t0 (objs m r) \<longrightarrow>
         ConnectCtx env c t0 t1 he p m = (Some (InCooldown p (CooldownUntil (objs m r) - t0)), [], m)) \<and>
      (\<not> IsActive (mgr_GetState m p) \<and> (\<forall>r. connections m p = Some r \<longrightarrow> \<not> IsInCooldown t0 (objs m r)) \<and>
       \<not> HasPeer (e_ids env) (fst (abook m)) p \<longrightarrow>
         ConnectCtx env c t0 t1 he p m = (Some (NotInAddressBook p (PeerNotFound p)), [], m)))"
  by (auto simp: ConnectCtx_def connect_lock_def connect_refused_def mgr_GetState_def IsActive_def
      IsInCooldown_def CooldownRemaining_def GetPeer_def HasPeer_def Let_def split: option.splits if_splits)

text \<open>A connection that may be dialled: it does not exist yet, or it is disconnected or reconnecting.\<close>

definition dialable :: "menv \<Rightarrow> peer_id \<Rightarrow> 'ma PeerEntry \<Rightarrow> ('ma, 'txt, 'st) manager \<Rightarrow> bool" where
  "dialable env p e m \<longleftrightarrow>
     \<not> book_IsBlacklisted env m p \<and> peers (fst (abook m)) (e_ids env p) = Some e \<and>
     (case connections m p of
        None \<Rightarrow> True
      | Some r \<Rightarrow> State (objs m r) = StateDisconnected \<or> State (objs m r) = StateReconnecting)"

lemma connect_lock_dialable:
  assumes "dialable env p e m"
  shows "\<exists>r pc m'. connect_lock env now p m = (Inr (r, Multiaddrs e), m') \<and>
     connections m' = (connections m)(p \<mapsto> r) \<and> objs m' = (objs m)(r := pc) \<and>
     State pc = StateConnecting \<and> IsOutbound pc \<and>
     (case connections m p of None \<Rightarrow> r = nobjs m | Some r' \<Rightarrow> r = r') \<and>
     emitted m' = emitted m \<and> host_log m' = host_log m \<and> abook m' = abook m \<and> ntimers m' = ntimers m"
  using assms
  by (auto simp: dialable_def connect_lock_def connect_refused_def GetPeer_def PeerEntry_Clone_def
      getOrCreate_def set_obj_def conn_TransitionTo_cases SetIsOutbound_def NewPeerConnection_def
      IsActive_def Let_def fun_upd_idem split: option.splits)

text \<open>
  A successful dial. When the peer may be dialled and the host connects, \<^verbatim>\<open>Connect\<close> returns no error; the host has
  been called once, with the peer's addresses from the address book; the connection is Connected
  and outbound with a handshake timer that is armed for it; the events are Connecting and then
  Connected; and no other peer's state has changed.
\<close>

theorem ConnectCtx_succeeds:
  assumes "\<not> ctx_Done c 0" and "dialable env p e m"
    and "\<forall>q r. connections m q = Some r \<longrightarrow> r < nobjs m \<and> pc_PeerID (objs m r) = q"
  shows "\<exists>m' r n. ConnectCtx env c t0 t1 None p m = (None, [], m') \<and>
     connections m' p = Some r \<and> mgr_GetState m' p = StateConnected \<and> mgr_IsOutbound m' p = Inr True \<and>
     HandshakeTimer (objs m' r) = Some n \<and>
     timers m' n = \<lparr>t_conn = r, t_stopped = False, t_cancelled = False, t_fired = False\<rparr> \<and>
     host_log m' = host_log m @ [HostConnect p (Multiaddrs e)] \<and>
     (e_events env \<longrightarrow> map (\<lambda>v. (ev_PeerID v, ev_State v)) (emitted m') =
        map (\<lambda>v. (ev_PeerID v, ev_State v)) (emitted m) @ [(p, StateConnecting), (p, StateConnected)]) \<and>
     (\<forall>q. q \<noteq> p \<longrightarrow> mgr_GetState m' q = mgr_GetState m q)"
proof -
  obtain r pc m1 where lock: "connect_lock env t0 p m = (Inr (r, Multiaddrs e), m1)"
      and conns: "connections m1 = (connections m)(p \<mapsto> r)" and objs: "objs m1 = (objs m)(r := pc)"
      and pc: "State pc = StateConnecting" "IsOutbound pc"
      and r: "case connections m p of None \<Rightarrow> r = nobjs m | Some r' \<Rightarrow> r = r'"
      and rest: "emitted m1 = emitted m" "host_log m1 = host_log m"
    using connect_lock_dialable [OF assms(2), of t0] by blast
  have other: "r' \<noteq> r" if "connections m q = Some r'" "q \<noteq> p" for q r'
  proof (cases "connections m p")
    case None
    have "r' < nobjs m" using assms(3) that(1) by blast
    then show ?thesis using r None by simp
  next
    case (Some a)
    then have "pc_PeerID (objs m a) = p" "pc_PeerID (objs m r') = q" using assms(3) that(1) by blast+
    then show ?thesis using r Some that(2) by auto
  qed
  show ?thesis
    using assms(1) lock conns objs pc rest other
    by (auto simp: ConnectCtx_def connected_lock_def conn_TransitionTo_cases setupHandshakeTimeout_def
        set_obj_def emitEvent_def host_call_def update_last_seen_def mgr_GetState_def mgr_IsOutbound_def
        Let_def split: option.splits)
qed

text \<open>
  Property C33: The race between the handshake timeout and the end of the handshake has one winner. If the timeout's
  section takes effect first, a later \<^verbatim>\<open>MarkEstablished\<close> reports an error and the peer stays in cooldown; if
  \<^verbatim>\<open>MarkEstablished\<close> succeeds first, the timeout's section changes nothing, even when its callback
  had already passed the check of its context, and the timer's context is cancelled.
\<close>

theorem handshake_timeout_race:
  assumes "connections m p = Some r"
  shows "(timeout_lock env now p m = (Some r', m1) \<longrightarrow>
            r' = r \<and> State (objs m r) = StateConnected \<and> mgr_GetState m1 p = StateCooldown \<and>
            (\<exists>m2. mark_established_lock now' p m1 = (Some (BadTransition StateCooldown StateEstablished), m2) \<and>
                  mgr_GetState m2 p = StateCooldown)) \<and>
         (mark_established_lock now p m = (None, m1) \<longrightarrow>
            State (objs m r) = StateConnected \<and> mgr_GetState m1 p = StateEstablished \<and>
            timeout_lock env now' p m1 = (None, m1) \<and>
            (\<forall>n. HandshakeCancel (objs m r) = Some n \<longrightarrow> t_cancelled (timers m1 n)))"
  using assms
  by (auto simp: timeout_lock_def mark_established_lock_def StartCooldown_def ValidateTransition_def
      conn_TransitionTo_cases conn_CancelHandshakeTimeout_def pc_CancelHandshakeTimeout_def
      cancel_timer_ctx_def stop_timer_def set_obj_def mgr_GetState_def split: option.splits if_splits)

text \<open>
  Disconnecting always cleans up. For a peer with a connection in any state, \<^verbatim>\<open>Disconnect\<close> without a cancelled
  context returns no error and leaves the connection Disconnected without a shared key, its
  handshake timer stopped and its context cancelled, and no reconnection recorded; the one that was
  running is cancelled.
\<close>

theorem DisconnectCtx_cleans_up:
  assumes "connections m p = Some r"
  shows "\<exists>m'. DisconnectCtx env Background now p m = (None, m') \<and>
     mgr_GetState m' p = StateDisconnected \<and> mgr_GetSharedKey m' p = None \<and>
     HandshakeTimer (objs m' r) = None \<and>
     (\<forall>n. HandshakeTimer (objs m r) = Some n \<longrightarrow> t_stopped (timers m' n)) \<and>
     (\<forall>n. HandshakeCancel (objs m r) = Some n \<longrightarrow> t_cancelled (timers m' n)) \<and>
     reconnecting m' p = None \<and>
     (\<forall>k. reconnecting m p = Some k \<longrightarrow> rs_cancelled (rstates m' k)) \<and>
     host_log m' = host_log m @ [HostDisconnect p]"
proof -
  obtain m1 where "disconnect_lock p m = (Inr r, m1)" "connections m1 = connections m" "objs m1 = objs m"
      "timers m1 = timers m" "reconnecting m1 p = None" "host_log m1 = host_log m"
      "\<forall>k. reconnecting m p = Some k \<longrightarrow> rs_cancelled (rstates m1 k)"
    using disconnect_lock_effect [OF assms] by blast
  then show ?thesis
    using assms
    by (simp add: DisconnectCtx_def Let_def mgr_GetState_def mgr_GetSharedKey_def pc_GetSharedKey_def
        conn_Cleanup_timers)
qed

text \<open>
  A reconnection that succeeds does not bring the connection to Connected. The transition from
  Reconnecting to Connected is not in the table and its error is ignored: after a successful
  attempt the Connected event has been emitted, but the state is still Reconnecting, the handshake
  timeout has no effect on it and \<^verbatim>\<open>MarkEstablished\<close> fails.
\<close>

theorem reconnect_leaves_Reconnecting:
  assumes "connections m p = Some r" and "State (objs m r) = StateReconnecting"
    and "attemptReconnect env now None p m = (None, m')"
  shows "mgr_GetState m' p = StateReconnecting \<and> timeout_lock env now' p m' = (None, m') \<and>
         (\<exists>m''. MarkEstablished env now' p m' = (Some (BadTransition StateReconnecting StateEstablished), m''))"
proof -
  have "connections m' p = Some r" "State (objs m' r) = StateReconnecting"
    using assms
    by (auto simp: attemptReconnect_def reconnected_lock_def setupHandshakeTimeout_def set_obj_def
        conn_TransitionTo_cases update_last_seen_def Let_def split: sum.splits)
  then show ?thesis
    by (simp add: mgr_GetState_def timeout_lock_def MarkEstablished_def mark_established_lock_def
        conn_TransitionTo_cases conn_CancelHandshakeTimeout_def pc_CancelHandshakeTimeout_def
        cancel_timer_ctx_def stop_timer_def set_obj_def split: option.splits)
qed

text \<open>
  An expired cooldown still blocks \<^verbatim>\<open>Connect\<close>. The check lets the call pass once the cooldown is over, but
  the transition from Cooldown to Connecting is not in the table: the call fails, after it has
  already marked the connection as outbound.
\<close>

theorem expired_cooldown_blocks_Connect:
  assumes "\<not> ctx_Done c 0" and "\<not> book_IsBlacklisted env m p" and "HasPeer (e_ids env) (fst (abook m)) p"
    and "connections m p = Some r" and "State (objs m r) = StateCooldown" and "CooldownUntil (objs m r) \<le> t0"
  shows "\<exists>m'. ConnectCtx env c t0 t1 he p m = (Some (BadTransition StateCooldown StateConnecting), [], m') \<and>
     mgr_GetState m' p = StateCooldown \<and> mgr_IsOutbound m' p = Inr True \<and> host_log m' = host_log m"
  using assms
  by (auto simp: ConnectCtx_def connect_lock_def connect_refused_def IsActive_def IsInCooldown_def HasPeer_def
      GetPeer_def getOrCreate_def set_obj_def SetIsOutbound_def conn_TransitionTo_cases mgr_GetState_def
      mgr_IsOutbound_def Let_def)

lemma failed_attempt:
  assumes "loop_continues env k m" and "\<not> book_IsBlacklisted env m p"
    and "\<not> lr_cancelled i" and "lr_dial i = Some he"
  shows "\<exists>m2. reconnectionLoop env p k (i # is) m = reconnectionLoop env p k is m2 \<and>
     connections m2 = connections m \<and> objs m2 = objs m \<and> abook m2 = abook m \<and>
     reconnecting m2 = reconnecting m \<and>
     Attempts (rstates m2 k) = Attempts (rstates m k) + 1 \<and>
     length (host_log m2) =
       length (host_log m) + (if HasPeer (e_ids env) (fst (abook m)) p then 1 else 0)"
  using assms
  by (auto simp: schedule_rs_def book_IsBlacklisted_def attemptReconnect_def GetPeer_def HasPeer_def
      ScheduleNext_def Let_def split: option.splits)

lemma exhausted_round:
  assumes "\<not> loop_continues env k m" and "connections m p = Some r"
  shows "\<exists>m'. reconnectionLoop env p k (i # is) m = (True, m') \<and>
     mgr_GetState m' p = StateDisconnected \<and> LastError (objs m' r) = Some AttemptsExhausted \<and>
     reconnecting m' p = None \<and> host_log m' = host_log m"
  using assms
  by (auto simp: handleReconnectionExhausted_def exhausted_lock_def delete_reconnecting_def conn_SetError_def
      SetError_def set_obj_def mgr_GetState_def conn_TransitionTo_cases Let_def)

lemma reconnectionLoop_gives_up:
  assumes "0 < mc_ReconnectMaxAttempts (e_cfg env)" and "connections m p = Some r"
    and "\<not> book_IsBlacklisted env m p"
    and "\<forall>i \<in> set is. \<not> lr_cancelled i \<and> lr_dial i \<noteq> None"
    and "int n = mc_ReconnectMaxAttempts (e_cfg env) - Attempts (rstates m k)" and "n < length is"
  shows "\<exists>m'. reconnectionLoop env p k is m = (True, m') \<and> mgr_GetState m' p = StateDisconnected \<and>
     LastError (objs m' r) = Some AttemptsExhausted \<and> reconnecting m' p = None \<and>
     length (host_log m') =
       length (host_log m) + (if HasPeer (e_ids env) (fst (abook m)) p then n else 0)"
  using assms(2-)
proof (induction "is" arbitrary: m n)
  case (Cons i "is")
  show ?case
  proof (cases "loop_continues env k m")
    case False
    then have "n = 0" using Cons.prems(4) assms(1) by (simp add: loop_continues_def ShouldRetry_def)
    then show ?thesis using exhausted_round [OF False Cons.prems(1), of i "is"] by auto
  next
    case True
    then obtain n' where n': "n = Suc n'"
      using Cons.prems(4) assms(1) by (cases n) (auto simp: loop_continues_def ShouldRetry_def)
    obtain he where "lr_dial i = Some he" "\<not> lr_cancelled i" using Cons.prems(3) by auto
    then obtain m2 where m2: "reconnectionLoop env p k (i # is) m = reconnectionLoop env p k is m2"
        "connections m2 = connections m" "objs m2 = objs m" "abook m2 = abook m"
        "Attempts (rstates m2 k) = Attempts (rstates m k) + 1"
        "length (host_log m2) =
           length (host_log m) + (if HasPeer (e_ids env) (fst (abook m)) p then 1 else 0)"
      using failed_attempt [OF True Cons.prems(2), of i he "is"] by blast
    have "\<exists>m'. reconnectionLoop env p k is m2 = (True, m') \<and> mgr_GetState m' p = StateDisconnected \<and>
        LastError (objs m' r) = Some AttemptsExhausted \<and> reconnecting m' p = None \<and>
        length (host_log m') = length (host_log m2) +
          (if HasPeer (e_ids env) (fst (abook m2)) p then n' else 0)"
      using Cons.prems m2 n' by (intro Cons.IH) (auto simp: book_IsBlacklisted_def)
    then show ?thesis using m2 n' by (cases "HasPeer (e_ids env) (fst (abook m)) p") auto
  qed
qed simp

text \<open>
  Property C36: Reconnection gives up. With a positive attempt limit, a reconnection loop that is neither cancelled nor
  stopped by the blacklist and whose dials all fail returns after at most one round more than the limit:
  it has dialled exactly as often as the limit says (if the peer is in the address book), the
  connection is Disconnected with the exhaustion error, and no reconnection is recorded.
\<close>

theorem reconnectionLoop_exhausts:
  assumes "0 < mc_ReconnectMaxAttempts (e_cfg env)" and "connections m p = Some r"
    and "\<not> book_IsBlacklisted env m p" and "rstates m k = NewReconnectState"
    and "\<forall>i \<in> set is. \<not> lr_cancelled i \<and> lr_dial i \<noteq> None"
    and "mc_ReconnectMaxAttempts (e_cfg env) < int (length is)"
  shows "\<exists>m'. reconnectionLoop env p k is m = (True, m') \<and> mgr_GetState m' p = StateDisconnected \<and>
     LastError (objs m' r) = Some AttemptsExhausted \<and> reconnecting m' p = None \<and>
     int (length (host_log m')) = int (length (host_log m)) +
       (if HasPeer (e_ids env) (fst (abook m)) p then mc_ReconnectMaxAttempts (e_cfg env) else 0)"
proof -
  let ?n = "nat (mc_ReconnectMaxAttempts (e_cfg env))"
  have n: "int ?n = mc_ReconnectMaxAttempts (e_cfg env) - Attempts (rstates m k)" "?n < length is"
    using assms(1,4,6) by (simp_all add: NewReconnectState_def)
  then obtain m' where "reconnectionLoop env p k is m = (True, m')" "mgr_GetState m' p = StateDisconnected"
      "LastError (objs m' r) = Some AttemptsExhausted" "reconnecting m' p = None"
      "length (host_log m') = length (host_log m) + (if HasPeer (e_ids env) (fst (abook m)) p then ?n else 0)"
    using reconnectionLoop_gives_up [OF assms(1-3,5) n] by blast
  then show ?thesis using assms(1) by (intro exI [of _ m']) simp
qed

lemma fold_Cleanup_key:
  "SharedKey (objs (fold conn_Cleanup rs m) r) = (if r \<in> set rs then None else SharedKey (objs m r))"
  by (induction rs arbitrary: m) auto

lemma fold_Cleanup_stopped:
  "t_stopped (timers (fold conn_Cleanup rs m) n) \<longleftrightarrow>
     t_stopped (timers m n) \<or> (\<exists>r \<in> set rs. HandshakeTimer (objs m r) = Some n)"
  by (induction rs arbitrary: m) (auto simp: conn_Cleanup_timers)

lemma fold_Cleanup_cancelled:
  "t_cancelled (timers (fold conn_Cleanup rs m) n) \<longleftrightarrow>
     t_cancelled (timers m n) \<or> (\<exists>r \<in> set rs. HandshakeCancel (objs m r) = Some n)"
  by (induction rs arbitrary: m) (auto simp: conn_Cleanup_timers)

lemma fold_cancel_rs:
  "objs (fold cancel_rs ks m) = objs m" "timers (fold cancel_rs ks m) = timers m"
  "mctx_done (fold cancel_rs ks m) = mctx_done m"
  "rs_cancelled (rstates (fold cancel_rs ks m) k) \<longleftrightarrow> rs_cancelled (rstates m k) \<or> k \<in> set ks"
  by (induction ks arbitrary: m) (auto simp: cancel_rs_def)

lemma fold_Cleanup_ctx: "mctx_done (fold conn_Cleanup rs m) = mctx_done m"
  by (induction rs arbitrary: m) auto

text \<open>
  Shutting down. After \<^verbatim>\<open>Shutdown\<close> no peer has a connection or a reconnection; every connection the manager had
  is without its key, its handshake timer is stopped and its context cancelled; every recorded
  reconnection is cancelled; and no callback of a handshake timer does anything.
\<close>

theorem Shutdown_stops_everything:
  assumes "ran (connections m) \<subseteq> set rs" and "ran (reconnecting m) \<subseteq> set ks"
  shows "(\<forall>p. connections (Shutdown rs ks m) p = None \<and> reconnecting (Shutdown rs ks m) p = None) \<and>
     (connections m p = Some r \<longrightarrow>
        SharedKey (objs (Shutdown rs ks m) r) = None \<and>
        (\<forall>n. HandshakeTimer (objs m r) = Some n \<longrightarrow> t_stopped (timers (Shutdown rs ks m) n)) \<and>
        (\<forall>n. HandshakeCancel (objs m r) = Some n \<longrightarrow> t_cancelled (timers (Shutdown rs ks m) n))) \<and>
     (reconnecting m p = Some k \<longrightarrow> rs_cancelled (rstates (Shutdown rs ks m) k)) \<and>
     handshake_timer_callback env now n' (Shutdown rs ks m) = ([], Shutdown rs ks m)"
proof -
  have "connections m p = Some r \<Longrightarrow> r \<in> set rs" "reconnecting m p = Some k \<Longrightarrow> k \<in> set ks"
    using assms by (auto simp: ran_def)
  then show ?thesis
    by (auto simp: Shutdown_def shutdown_lock_def fold_Cleanup_key fold_Cleanup_stopped fold_Cleanup_cancelled
        fold_cancel_rs fold_Cleanup_ctx handshake_timer_callback_def)
qed

section \<open>Concrete inputs\<close>

definition toy_env :: menv where
  "toy_env = \<lparr>e_ids = (\<lambda>p. p),
     e_cfg = \<lparr>mc_HandshakeTimeout = 30, mc_ReconnectBaseDelay = 1, mc_ReconnectMaxDelay = 60,
              mc_ReconnectMaxAttempts = 2, mc_FailedHandshakeCooldown = 60\<rparr>,
     e_jitter = (\<lambda>d. 0), e_events = True\<rparr>"

text \<open>A manager with one connection in the given state, whose peer is in the address book.\<close>

definition toy_mgr :: "ConnectionState \<Rightarrow> (string, book_doc, unit) manager" where
  "toy_mgr st =
     (NewManager (toy_book\<lparr>peers := [''p'' \<mapsto> toy_entry\<lparr>Blacklisted := False\<rparr>]\<rparr>, \<lparr>files = Map.empty\<rparr>))
       \<lparr>connections := [''p'' \<mapsto> 0], nobjs := 1,
        objs := (\<lambda>r. (NewPeerConnection 0 ''p'')\<lparr>State := st, CooldownUntil := 50\<rparr>)\<rparr>"

lemma toy_mgr_simps [simp]:
  "connections (toy_mgr st) = [''p'' \<mapsto> 0]" "State (objs (toy_mgr st) r) = st"
  "reconnecting (toy_mgr st) = Map.empty" "rstates (toy_mgr st) k = NewReconnectState"
  "pc_PeerID (objs (toy_mgr st) r) = ''p''" "nobjs (toy_mgr st) = 1"
  "CooldownUntil (objs (toy_mgr st) r) = 50"
  "HasPeer (e_ids toy_env) (fst (abook (toy_mgr st))) ''p''" "\<not> book_IsBlacklisted toy_env (toy_mgr st) ''p''"
  "peers (fst (abook (toy_mgr st))) (e_ids toy_env ''p'') = Some (toy_entry\<lparr>Blacklisted := False\<rparr>)"
  by (simp_all add: toy_mgr_def NewManager_def NewPeerConnection_def HasPeer_def book_IsBlacklisted_def
      IsBlacklisted_def toy_env_def toy_book_def)

theorem ConnectCtx_succeeds_witness:
  "\<exists>m'. ConnectCtx toy_env Background 1 2 None ''p'' (toy_mgr StateDisconnected) = (None, [], m') \<and>
     mgr_GetState m' ''p'' = StateConnected"
proof -
  have "\<forall>q r. connections (toy_mgr StateDisconnected) q = Some r \<longrightarrow>
      r < nobjs (toy_mgr StateDisconnected) \<and> pc_PeerID (objs (toy_mgr StateDisconnected) r) = q"
    by (simp split: if_splits)
  moreover have "dialable toy_env ''p'' (toy_entry\<lparr>Blacklisted := False\<rparr>) (toy_mgr StateDisconnected)"
    by (simp add: dialable_def)
  ultimately show ?thesis using ConnectCtx_succeeds [OF Background_not_done, of toy_env "''p''" _ _ 1 2] by blast
qed

theorem ConnectCtx_refuses_witness:
  "ConnectCtx toy_env Background 1 2 None ''p'' (toy_mgr StateEstablished) =
     (Some (AlreadyConnected ''p'' StateEstablished), [], toy_mgr StateEstablished)"
  using ConnectCtx_refuses [of Background toy_env 1 2 None "''p''" "toy_mgr StateEstablished" 0]
  by (simp add: IsActive_def mgr_GetState_def)

theorem handshake_timeout_race_witness:
  "\<exists>m1 m2. timeout_lock toy_env 5 ''p'' (toy_mgr StateConnected) = (Some 0, m1) \<and>
     mark_established_lock 6 ''p'' m1 = (Some (BadTransition StateCooldown StateEstablished), m2)"
proof -
  obtain m1 where "timeout_lock toy_env 5 ''p'' (toy_mgr StateConnected) = (Some 0, m1)"
    by (simp add: timeout_lock_def StartCooldown_def ValidateTransition_def)
  then show ?thesis
    using handshake_timeout_race [of "toy_mgr StateConnected" "''p''" 0 toy_env 5 0 m1 6] by auto
qed

theorem DisconnectCtx_cleans_up_witness:
  "\<exists>m'. DisconnectCtx toy_env Background 9 ''p'' (toy_mgr StateEstablished) = (None, m') \<and>
     mgr_GetState m' ''p'' = StateDisconnected"
  using DisconnectCtx_cleans_up [of "toy_mgr StateEstablished" "''p''" 0 toy_env 9] by auto

theorem reconnect_leaves_Reconnecting_witness:
  "\<exists>m'. attemptReconnect toy_env 3 None ''p'' (toy_mgr StateReconnecting) = (None, m') \<and>
     mgr_GetState m' ''p'' = StateReconnecting"
proof -
  obtain m' where "attemptReconnect toy_env 3 None ''p'' (toy_mgr StateReconnecting) = (None, m')"
    by (simp add: attemptReconnect_def GetPeer_def)
  then show ?thesis
    using reconnect_leaves_Reconnecting [of "toy_mgr StateReconnecting" "''p''" 0 toy_env 3 m' 4] by simp
qed

theorem expired_cooldown_blocks_Connect_witness:
  "\<exists>m'. ConnectCtx toy_env Background 50 51 None ''p'' (toy_mgr StateCooldown) =
     (Some (BadTransition StateCooldown StateConnecting), [], m')"
  using expired_cooldown_blocks_Connect [of Background toy_env "toy_mgr StateCooldown" "''p''" 0 50 51 None]
  by auto

theorem reconnectionLoop_exhausts_witness:
  "\<exists>m'. reconnectionLoop toy_env ''p'' 0
      (replicate 3 \<lparr>lr_now = 1, lr_cancelled = False, lr_dial = Some ''refused''\<rparr>) (toy_mgr StateReconnecting) =
      (True, m') \<and> mgr_GetState m' ''p'' = StateDisconnected"
  using reconnectionLoop_exhausts [of toy_env "toy_mgr StateReconnecting" "''p''" 0 0
      "replicate 3 \<lparr>lr_now = 1, lr_cancelled = False, lr_dial = Some ''refused''\<rparr>"]
  by (auto simp: toy_env_def [THEN arg_cong [of _ _ e_cfg]])

theorem Shutdown_stops_everything_witness:
  "connections (Shutdown [0] [] (toy_mgr StateConnected)) ''p'' = None \<and>
   SharedKey (objs (Shutdown [0] [] (toy_mgr StateConnected)) 0) = None"
  using Shutdown_stops_everything [of "toy_mgr StateConnected" "[0]" "[]" "''p''" 0 0 toy_env 0 0] by simp

end
