(* ===== verification/Crypto.thy ===== *)
theory Crypto
  imports Prelude
begin

text \<open>
  The cryptographic module (\<^verbatim>\<open>src/pkg/crypto\<close>: \<^verbatim>\<open>secure.go\<close>, \<^verbatim>\<open>keys.go\<close>, \<^verbatim>\<open>ecdh.go\<close>, \<^verbatim>\<open>cipher.go\<close>, \<^verbatim>\<open>module.go\<close>).
  Buffers that hold secrets live in a store of buffers addressed by number, so that what is zeroed
  and what is left behind can be stated; public values are byte lists. The primitives (SHA-512,
  the curve operations, HKDF, ChaCha20-Poly1305) are the fields of a parameter, with what the code
  relies on as named hypotheses.
\<close>

unbundle bit_operations_syntax

section \<open>Buffers (secure.go)\<close>

type_synonym mem = "bytes list"

definition alloc :: "bytes \<Rightarrow> mem \<Rightarrow> nat \<times> mem" where
  "alloc bs h = (length h, h @ [bs])"

definition SecureZero :: "nat \<Rightarrow> mem \<Rightarrow> mem" where
  "SecureZero a h = h[a := replicate (length (h ! a)) 0]"

definition SecureZeroMultiple :: "nat list \<Rightarrow> mem \<Rightarrow> mem" where
  "SecureZeroMultiple as h = fold SecureZero as h"

section \<open>Primitives\<close>

record prims =
  sha512 :: "bytes \<Rightarrow> bytes"
  ed_to_montgomery :: "bytes \<Rightarrow> bytes option" \<comment> \<open>\<^verbatim>\<open>SetBytes\<close>, then \<^verbatim>\<open>BytesMontgomery\<close>\<close>
  X25519 :: "bytes \<Rightarrow> bytes \<Rightarrow> bytes option"
  Basepoint :: bytes
  hkdf_sha256 :: "bytes \<Rightarrow> bytes \<Rightarrow> string \<Rightarrow> bytes option" \<comment> \<open>the first 32 bytes of the stream\<close>
  aead_Seal :: "bytes \<Rightarrow> bytes \<Rightarrow> bytes \<Rightarrow> bytes \<Rightarrow> bytes"
  aead_Open :: "bytes \<Rightarrow> bytes \<Rightarrow> bytes \<Rightarrow> bytes \<Rightarrow> bytes option"

datatype crypto_err =
    BadPrivateKeySize nat | BadPublicKeySize nat | NilKey | BadCurvePoint
  | BadX25519PrivateSize nat | BadX25519PublicSize nat | X25519Failed | LowOrderPoint | HKDFFailed
  | BadKeySize nat | NonceFailed | BadNonceSize nat | CipherClosed | CiphertextTooShort nat | TagMismatch
  | ModuleClosed | NoSharedKey

section \<open>Keys (keys.go)\<close>

definition X25519KeySize :: nat where "X25519KeySize = 32"

definition PrivateKeySize :: nat where "PrivateKeySize = 64"

definition PublicKeySize :: nat where "PublicKeySize = 32"

definition SeedSize :: nat where "SeedSize = 32"

definition clampX25519 :: "bytes \<Rightarrow> bytes" where
  "clampX25519 k =
     (let k1 = k[0 := (k ! 0) AND 248];
          k2 = k1[31 := (k1 ! 31) AND 127]
      in k2[31 := (k2 ! 31) OR 64])"

text \<open>The hash of the seed is a temporary buffer, zeroed on return; the result is a new buffer.\<close>

definition Ed25519PrivateToX25519 :: "prims \<Rightarrow> bytes \<Rightarrow> mem \<Rightarrow> (crypto_err, nat) result \<times> mem" where
  "Ed25519PrivateToX25519 pr edPriv h =
     (if length edPriv \<noteq> PrivateKeySize then (Inl (BadPrivateKeySize (length edPriv)), h)
      else
        case alloc (sha512 pr (take SeedSize edPriv)) h of
          (ha, h1) \<Rightarrow>
            (case alloc (clampX25519 (take 32 (h1 ! ha))) h1 of
               (xa, h2) \<Rightarrow> (Inr xa, SecureZero ha h2)))"

definition Ed25519PublicToX25519 :: "prims \<Rightarrow> bytes \<Rightarrow> (crypto_err, bytes) result" where
  "Ed25519PublicToX25519 pr edPub =
     (if length edPub \<noteq> PublicKeySize then Inl (BadPublicKeySize (length edPub))
      else case ed_to_montgomery pr edPub of None \<Rightarrow> Inl BadCurvePoint | Some u \<Rightarrow> Inr u)"

text \<open>A key argument may be nil.\<close>

definition ValidateEd25519PrivateKey :: "bytes option \<Rightarrow> crypto_err option" where
  "ValidateEd25519PrivateKey key =
     (case key of
        None \<Rightarrow> Some NilKey
      | Some k \<Rightarrow> if length k \<noteq> PrivateKeySize then Some (BadPrivateKeySize (length k)) else None)"

definition ValidateEd25519PublicKey :: "prims \<Rightarrow> bytes option \<Rightarrow> crypto_err option" where
  "ValidateEd25519PublicKey pr key =
     (case key of
        None \<Rightarrow> Some NilKey
      | Some k \<Rightarrow>
          if length k \<noteq> PublicKeySize then Some (BadPublicKeySize (length k))
          else if ed_to_montgomery pr k = None then Some BadCurvePoint else None)"

section \<open>Key agreement (ecdh.go)\<close>

definition SharedKeySize :: nat where "SharedKeySize = 32"

definition hkdfInfo :: string where "hkdfInfo = ''glueberry-v1-stream-key''"

text \<open>The result is a new buffer; the private key is read from its buffer.\<close>

definition ComputeX25519SharedSecret :: "prims \<Rightarrow> nat \<Rightarrow> bytes \<Rightarrow> mem \<Rightarrow> (crypto_err, nat) result \<times> mem" where
  "ComputeX25519SharedSecret pr localPrivate remotePublic h =
     (if length (h ! localPrivate) \<noteq> X25519KeySize then
        (Inl (BadX25519PrivateSize (length (h ! localPrivate))), h)
      else if length remotePublic \<noteq> X25519KeySize then
        (Inl (BadX25519PublicSize (length remotePublic)), h)
      else case X25519 pr (h ! localPrivate) remotePublic of
        None \<Rightarrow> (Inl X25519Failed, h)
      | Some secret \<Rightarrow>
          (case alloc secret h of
             (sa, h1) \<Rightarrow> if list_all (\<lambda>b. b = 0) secret then (Inl LowOrderPoint, h1) else (Inr sa, h1)))"

definition deriveKeyFromSecret :: "prims \<Rightarrow> nat \<Rightarrow> bytes \<Rightarrow> mem \<Rightarrow> (crypto_err, nat) result \<times> mem" where
  "deriveKeyFromSecret pr sharedSecret salt h =
     (case alloc (replicate SharedKeySize 0) h of
        (ka, h1) \<Rightarrow>
          (case hkdf_sha256 pr (h ! sharedSecret) salt hkdfInfo of
             None \<Rightarrow> (Inl HKDFFailed, h1)
           | Some k \<Rightarrow> (Inr ka, h1[ka := k])))"

definition DeriveSharedKey :: "prims \<Rightarrow> nat \<Rightarrow> bytes \<Rightarrow> bytes \<Rightarrow> mem \<Rightarrow> (crypto_err, nat) result \<times> mem" where
  "DeriveSharedKey pr localPrivate remotePublic salt h =
     (case ComputeX25519SharedSecret pr localPrivate remotePublic h of
        (Inl e, h1) \<Rightarrow> (Inl e, h1)
      | (Inr sa, h1) \<Rightarrow>
          (case deriveKeyFromSecret pr sa salt h1 of (r, h2) \<Rightarrow> (r, SecureZero sa h2)))"

definition X25519PublicFromPrivate :: "prims \<Rightarrow> nat \<Rightarrow> mem \<Rightarrow> (crypto_err, bytes) result" where
  "X25519PublicFromPrivate pr privateKey h =
     (if length (h ! privateKey) \<noteq> X25519KeySize then Inl (BadX25519PrivateSize (length (h ! privateKey)))
      else case X25519 pr (h ! privateKey) (Basepoint pr) of None \<Rightarrow> Inl X25519Failed | Some k \<Rightarrow> Inr k)"

section \<open>The cipher (cipher.go)\<close>

definition NonceSize :: nat where "NonceSize = 12"

definition TagSize :: nat where "TagSize = 16"

definition KeySize :: nat where "KeySize = 32"

text \<open>\<open>c_aead\<close> is the key inside the AEAD object of the library, \<open>c_key\<close> the cipher's own copy.\<close>

record Cipher =
  c_aead :: "bytes option"
  c_key :: "nat option"
  c_closed :: bool

definition NewCipher :: "nat \<Rightarrow> mem \<Rightarrow> (crypto_err, Cipher) result \<times> mem" where
  "NewCipher key h =
     (if length (h ! key) \<noteq> KeySize then (Inl (BadKeySize (length (h ! key))), h)
      else case alloc (h ! key) h of
        (ka, h1) \<Rightarrow> (Inr \<lparr>c_aead = Some (h ! key), c_key = Some ka, c_closed = False\<rparr>, h1))"

text \<open>
  The sealed text is appended inside the result's array, which has room for the plaintext and a tag; a
  longer text would be put elsewhere and the result keep its zeros.
\<close>

definition encryptWithNonceLocked :: "prims \<Rightarrow> Cipher \<Rightarrow> bytes \<Rightarrow> bytes \<Rightarrow> bytes \<Rightarrow> (crypto_err, bytes) result" where
  "encryptWithNonceLocked pr c nonce plaintext ad =
     (if length nonce \<noteq> NonceSize then Inl (BadNonceSize (length nonce))
      else
        let room = length plaintext + TagSize;
            sealed = aead_Seal pr (the (c_aead c)) nonce plaintext ad
        in Inr (nonce @ (if length sealed \<le> room then sealed @ replicate (room - length sealed) 0
                         else replicate room 0)))"

text \<open>\<open>nonce\<close> is what the random source returns, \<open>None\<close> when it fails.\<close>

definition Cipher_Encrypt :: "prims \<Rightarrow> bytes option \<Rightarrow> Cipher \<Rightarrow> bytes \<Rightarrow> bytes \<Rightarrow> (crypto_err, bytes) result" where
  "Cipher_Encrypt pr nonce c plaintext ad =
     (case nonce of
        None \<Rightarrow> Inl NonceFailed
      | Some n \<Rightarrow> if c_closed c then Inl CipherClosed else encryptWithNonceLocked pr c n plaintext ad)"

definition encryptWithNonce :: "prims \<Rightarrow> bytes \<Rightarrow> Cipher \<Rightarrow> bytes \<Rightarrow> bytes \<Rightarrow> (crypto_err, bytes) result" where
  "encryptWithNonce pr nonce c plaintext ad =
     (if c_closed c then Inl CipherClosed else encryptWithNonceLocked pr c nonce plaintext ad)"

definition Cipher_Decrypt :: "prims \<Rightarrow> Cipher \<Rightarrow> bytes \<Rightarrow> bytes \<Rightarrow> (crypto_err, bytes) result" where
  "Cipher_Decrypt pr c data ad =
     (if length data < NonceSize + TagSize then Inl (CiphertextTooShort (length data))
      else if c_closed c then Inl CipherClosed
      else case aead_Open pr (the (c_aead c)) (take NonceSize data) (drop NonceSize data) ad of
        None \<Rightarrow> Inl TagMismatch
      | Some p \<Rightarrow> Inr p)"

definition Cipher_Close :: "Cipher \<times> mem \<Rightarrow> Cipher \<times> mem" where
  "Cipher_Close s =
     (case s of (c, h) \<Rightarrow>
       if c_closed c then (c, h)
       else (\<lparr>c_aead = None, c_key = None, c_closed = True\<rparr>,
             case c_key c of None \<Rightarrow> h | Some a \<Rightarrow> SecureZero a h))"

definition Cipher_IsClosed :: "Cipher \<Rightarrow> bool" where
  "Cipher_IsClosed c = c_closed c"

text \<open>The convenience functions, with the cipher closed on return.\<close>

definition Encrypt :: "prims \<Rightarrow> bytes option \<Rightarrow> nat \<Rightarrow> bytes \<Rightarrow> bytes \<Rightarrow> mem \<Rightarrow> (crypto_err, bytes) result \<times> mem" where
  "Encrypt pr nonce key plaintext ad h =
     (case NewCipher key h of
        (Inl e, h1) \<Rightarrow> (Inl e, h1)
      | (Inr c, h1) \<Rightarrow> (Cipher_Encrypt pr nonce c plaintext ad, snd (Cipher_Close (c, h1))))"

definition Decrypt :: "prims \<Rightarrow> nat \<Rightarrow> bytes \<Rightarrow> bytes \<Rightarrow> mem \<Rightarrow> (crypto_err, bytes) result \<times> mem" where
  "Decrypt pr key data ad h =
     (case NewCipher key h of
        (Inl e, h1) \<Rightarrow> (Inl e, h1)
      | (Inr c, h1) \<Rightarrow> (Cipher_Decrypt pr c data ad, snd (Cipher_Close (c, h1))))"

section \<open>The module (module.go)\<close>

record Module =
  ed25519Private :: nat
  ed25519Public :: bytes
  x25519Private :: nat
  x25519Public :: bytes
  peerKeys :: "bytes \<rightharpoonup> nat"
  m_closed :: bool

text \<open>The module keeps the caller's private key buffer itself; \<open>None\<close> is a nil key.\<close>

definition NewModule :: "prims \<Rightarrow> nat option \<Rightarrow> mem \<Rightarrow> (crypto_err, Module) result \<times> mem" where
  "NewModule pr privateKey h =
     (case ValidateEd25519PrivateKey (map_option (\<lambda>a. h ! a) privateKey) of
        Some e \<Rightarrow> (Inl e, h)
      | None \<Rightarrow>
          let pa = the privateKey; publicKey = drop 32 (h ! pa) in
          (case Ed25519PrivateToX25519 pr (h ! pa) h of
             (Inl e, h1) \<Rightarrow> (Inl e, h1)
           | (Inr xa, h1) \<Rightarrow>
               (case Ed25519PublicToX25519 pr publicKey of
                  Inl e \<Rightarrow> (Inl e, SecureZero xa h1)
                | Inr xp \<Rightarrow>
                    (Inr \<lparr>ed25519Private = pa, ed25519Public = publicKey, x25519Private = xa,
                          x25519Public = xp, peerKeys = Map.empty, m_closed = False\<rparr>, h1))))"

text \<open>
  \<^verbatim>\<open>DeriveSharedKeyFromX25519\<close> in its two critical sections: the first finds the cached key (the result
  is a copy) or copies the private key; the second, after the derivation, caches the key.
\<close>

datatype lookup = Cached nat | NeedsDerivation nat

definition derive_lookup :: "bytes \<Rightarrow> Module \<times> mem \<Rightarrow> (crypto_err, lookup) result \<times> mem" where
  "derive_lookup remoteX25519 s =
     (case s of (m, h) \<Rightarrow>
       if length remoteX25519 \<noteq> X25519KeySize then (Inl (BadX25519PublicSize (length remoteX25519)), h)
       else if m_closed m then (Inl ModuleClosed, h)
       else case peerKeys m remoteX25519 of
         Some ka \<Rightarrow> (case alloc (h ! ka) h of (ra, h1) \<Rightarrow> (Inr (Cached ra), h1))
       | None \<Rightarrow> (case alloc (h ! x25519Private m) h of (xa, h1) \<Rightarrow> (Inr (NeedsDerivation xa), h1)))"

definition derive_store :: "bytes \<Rightarrow> nat \<Rightarrow> Module \<times> mem \<Rightarrow> (crypto_err, nat) result \<times> Module \<times> mem" where
  "derive_store remoteX25519 sharedKey s =
     (case s of (m, h) \<Rightarrow>
       if m_closed m then (Inl ModuleClosed, m, SecureZero sharedKey h)
       else
         let m1 = m\<lparr>peerKeys := (peerKeys m)(remoteX25519 \<mapsto> sharedKey)\<rparr> in
         (case alloc (h ! sharedKey) h of (ra, h1) \<Rightarrow> (Inr ra, m1, h1)))"

definition DeriveSharedKeyFromX25519 :: "prims \<Rightarrow> bytes \<Rightarrow> Module \<times> mem \<Rightarrow> (crypto_err, nat) result \<times> Module \<times> mem" where
  "DeriveSharedKeyFromX25519 pr remoteX25519 s =
     (case derive_lookup remoteX25519 s of
        (Inl e, h1) \<Rightarrow> (Inl e, fst s, h1)
      | (Inr (Cached ra), h1) \<Rightarrow> (Inr ra, fst s, h1)
      | (Inr (NeedsDerivation xa), h1) \<Rightarrow>
          (case DeriveSharedKey pr xa remoteX25519 [] h1 of
             (Inl e, h2) \<Rightarrow> (Inl e, fst s, SecureZero xa h2)
           | (Inr ka, h2) \<Rightarrow>
               (case derive_store remoteX25519 ka (fst s, h2) of
                  (r, m3, h3) \<Rightarrow> (r, m3, SecureZero xa h3))))"

definition Module_DeriveSharedKey :: "prims \<Rightarrow> bytes option \<Rightarrow> Module \<times> mem \<Rightarrow> (crypto_err, nat) result \<times> Module \<times> mem" where
  "Module_DeriveSharedKey pr remotePubKey s =
     (case ValidateEd25519PublicKey pr remotePubKey of
        Some e \<Rightarrow> (Inl e, s)
      | None \<Rightarrow>
          (case Ed25519PublicToX25519 pr (the remotePubKey) of
             Inl e \<Rightarrow> (Inl e, s)
           | Inr rx \<Rightarrow> DeriveSharedKeyFromX25519 pr rx s))"

definition RemovePeerKey :: "bytes \<Rightarrow> Module \<times> mem \<Rightarrow> Module \<times> mem" where
  "RemovePeerKey remoteX25519 s =
     (case s of (m, h) \<Rightarrow>
       (m\<lparr>peerKeys := (peerKeys m)(remoteX25519 := None)\<rparr>,
        case peerKeys m remoteX25519 of None \<Rightarrow> h | Some ka \<Rightarrow> SecureZero ka h))"

definition RemovePeerKeyByEd25519 :: "prims \<Rightarrow> bytes \<Rightarrow> Module \<times> mem \<Rightarrow> Module \<times> mem" where
  "RemovePeerKeyByEd25519 pr remotePubKey s =
     (if length remotePubKey = 0 then s
      else case Ed25519PublicToX25519 pr remotePubKey of Inl e \<Rightarrow> s | Inr rx \<Rightarrow> RemovePeerKey rx s)"

text \<open>\<open>kas\<close> lists the cached key buffers in the order the map is visited.\<close>

definition ClearPeerKeys :: "nat list \<Rightarrow> Module \<times> mem \<Rightarrow> Module \<times> mem" where
  "ClearPeerKeys kas s = (case s of (m, h) \<Rightarrow> (m\<lparr>peerKeys := Map.empty\<rparr>, fold SecureZero kas h))"

text \<open>Both copy the cached key, zero the copy on return, and use the convenience functions.\<close>

definition Module_Encrypt :: "prims \<Rightarrow> bytes option \<Rightarrow> bytes \<Rightarrow> bytes \<Rightarrow> Module \<times> mem \<Rightarrow> (crypto_err, bytes) result \<times> mem" where
  "Module_Encrypt pr nonce remoteX25519 plaintext s =
     (case s of (m, h) \<Rightarrow>
       if m_closed m then (Inl ModuleClosed, h)
       else case peerKeys m remoteX25519 of
         None \<Rightarrow> (Inl NoSharedKey, h)
       | Some ka \<Rightarrow>
           (case alloc (h ! ka) h of
              (ca, h1) \<Rightarrow> (case Encrypt pr nonce ca plaintext [] h1 of (r, h2) \<Rightarrow> (r, SecureZero ca h2))))"

definition Module_Decrypt :: "prims \<Rightarrow> bytes \<Rightarrow> bytes \<Rightarrow> Module \<times> mem \<Rightarrow> (crypto_err, bytes) result \<times> mem" where
  "Module_Decrypt pr remoteX25519 ciphertext s =
     (case s of (m, h) \<Rightarrow>
       if m_closed m then (Inl ModuleClosed, h)
       else case peerKeys m remoteX25519 of
         None \<Rightarrow> (Inl NoSharedKey, h)
       | Some ka \<Rightarrow>
           (case alloc (h ! ka) h of
              (ca, h1) \<Rightarrow> (case Decrypt pr ca ciphertext [] h1 of (r, h2) \<Rightarrow> (r, SecureZero ca h2))))"

definition EncryptWithKey :: "prims \<Rightarrow> bytes option \<Rightarrow> nat \<Rightarrow> bytes \<Rightarrow> mem \<Rightarrow> (crypto_err, bytes) result \<times> mem" where
  "EncryptWithKey pr nonce key plaintext h = Encrypt pr nonce key plaintext [] h"

definition DecryptWithKey :: "prims \<Rightarrow> nat \<Rightarrow> bytes \<Rightarrow> mem \<Rightarrow> (crypto_err, bytes) result \<times> mem" where
  "DecryptWithKey pr key ciphertext h = Decrypt pr key ciphertext [] h"

definition Module_Close :: "nat list \<Rightarrow> Module \<times> mem \<Rightarrow> Module \<times> mem" where
  "Module_Close kas s =
     (case s of (m, h) \<Rightarrow>
       (m\<lparr>m_closed := True, peerKeys := Map.empty\<rparr>,
        SecureZero (x25519Private m) (SecureZero (ed25519Private m) (fold SecureZero kas h))))"

section \<open>What the code relies on of the primitives\<close>

text \<open>
  The AEAD of RFC 8439: the sealed text is the plaintext's length plus the tag, opening inverts
  sealing, and opening accepts nothing but the sealed text of what it returns (the tag is a function of
  the key, the nonce, the ciphertext and the additional data).
\<close>

definition aead_correct :: "prims \<Rightarrow> bool" where
  "aead_correct pr \<longleftrightarrow>
     (\<forall>k n p ad. length (aead_Seal pr k n p ad) = length p + TagSize \<and>
        aead_Open pr k n (aead_Seal pr k n p ad) ad = Some p)"

definition aead_unforgeable_form :: "prims \<Rightarrow> bool" where
  "aead_unforgeable_form pr \<longleftrightarrow>
     (\<forall>k n c p ad. aead_Open pr k n c ad = Some p \<longrightarrow> c = aead_Seal pr k n p ad)"

text \<open>Diffie-Hellman: multiplying the base point by two scalars does not depend on the order.\<close>

definition dh_commutes :: "prims \<Rightarrow> bool" where
  "dh_commutes pr \<longleftrightarrow>
     (\<forall>a b pa pb. X25519 pr a (Basepoint pr) = Some pa \<and> X25519 pr b (Basepoint pr) = Some pb \<longrightarrow>
        X25519 pr a pb = X25519 pr b pa)"

text \<open>
  An Ed25519 key pair: the public half, mapped to the Montgomery curve, is the base point times the
  clamped hash of the seed.
\<close>

definition ed_keypair :: "prims \<Rightarrow> bytes \<Rightarrow> bool" where
  "ed_keypair pr k \<longleftrightarrow>
     length k = PrivateKeySize \<and>
     ed_to_montgomery pr (drop 32 k) \<noteq> None \<and>
     X25519 pr (clampX25519 (take 32 (sha512 pr (take SeedSize k)))) (Basepoint pr) =
       ed_to_montgomery pr (drop 32 k)"

definition hash_sizes :: "prims \<Rightarrow> bool" where
  "hash_sizes pr \<longleftrightarrow>
     (\<forall>x. length (sha512 pr x) = 64) \<and> (\<forall>x u. ed_to_montgomery pr x = Some u \<longrightarrow> length u = 32)"

section \<open>Lemmas on buffers\<close>

definition zeroed :: "mem \<Rightarrow> nat \<Rightarrow> bool" where
  "zeroed h a \<longleftrightarrow> (\<forall>b \<in> set (h ! a). b = 0)"

text \<open>
  From \<open>h\<close> to \<open>h'\<close> buffers were allocated, the old ones kept their length, zeros stayed zeros, and the new ones are zeroed
  except those in \<open>F\<close>.
\<close>

definition extends :: "nat set \<Rightarrow> mem \<Rightarrow> mem \<Rightarrow> bool" where
  "extends F h h' \<longleftrightarrow>
     length h \<le> length h' \<and> (\<forall>a < length h. zeroed h a \<longrightarrow> zeroed h' a) \<and>
     (\<forall>a. length h \<le> a \<and> a < length h' \<and> a \<notin> F \<longrightarrow> zeroed h' a)"

lemma extends_refl [simp]: "extends F h h"
  by (auto simp: extends_def)

lemma extends_trans:
  assumes "extends F h h'" and "extends G h' h''"
    and "\<And>a. a \<in> F \<Longrightarrow> length h \<le> a \<Longrightarrow> a < length h' \<Longrightarrow> a \<in> K \<or> zeroed h'' a" and "G \<subseteq> K"
  shows "extends K h h''"
  unfolding extends_def
proof (intro conjI allI impI)
  show "length h \<le> length h''" using assms(1,2) by (simp add: extends_def)
  show "zeroed h'' a" if "a < length h" "zeroed h a" for a
    using assms(1,2) that by (simp add: extends_def)
  show "zeroed h'' a" if "length h \<le> a \<and> a < length h'' \<and> a \<notin> K" for a
  proof (cases "a < length h'")
    case True
    then show ?thesis using assms(1,2) assms(3) [of a] that by (cases "a \<in> F") (auto simp: extends_def)
  next
    case False
    then have "a \<notin> G" "length h' \<le> a" using assms(4) that by auto
    then show ?thesis using assms(2) that by (simp add: extends_def)
  qed
qed

lemma alloc_extends: "alloc bs h = (a, h') \<Longrightarrow> a = length h \<and> extends {a} h h' \<and> h' ! a = bs \<and> length h' = Suc (length h)"
  by (auto simp: alloc_def extends_def zeroed_def nth_append)

lemma alloc_keeps: "alloc bs h = (a, h') \<Longrightarrow> b < length h \<Longrightarrow> h' ! b = h ! b"
  by (auto simp: alloc_def nth_append)

lemma SecureZero_length [simp]: "length (SecureZero a h) = length h"
  by (simp add: SecureZero_def)

lemma SecureZero_zeroed: "a < length h \<Longrightarrow> zeroed (SecureZero a h) a"
  by (simp add: SecureZero_def zeroed_def)

lemma SecureZero_keeps_zeroed: "zeroed h b \<Longrightarrow> zeroed (SecureZero a h) b"
  by (cases "a < length h"; cases "a = b") (auto simp: SecureZero_def zeroed_def list_update_beyond not_less)

lemma SecureZero_other [simp]: "a \<noteq> b \<Longrightarrow> SecureZero a h ! b = h ! b"
  by (simp add: SecureZero_def)

lemma SecureZero_extends [simp]: "extends F h (SecureZero a h)"
  by (auto simp: extends_def SecureZero_keeps_zeroed)

lemma SecureZero_after:
  assumes "extends F h h'" and "a < length h'"
  shows "extends (F - {a}) h (SecureZero a h')"
proof (rule extends_trans [OF assms(1) SecureZero_extends [of "{}"]])
  show "b \<in> F - {a} \<or> zeroed (SecureZero a h') b" if "b \<in> F" for b
    using that SecureZero_zeroed [OF assms(2)] by auto
qed simp

lemma fold_SecureZero_length [simp]: "length (fold SecureZero as h) = length h"
  by (induction as arbitrary: h) simp_all

lemma fold_SecureZero_keeps: "zeroed h b \<Longrightarrow> zeroed (fold SecureZero as h) b"
  by (induction as arbitrary: h) (simp_all add: SecureZero_keeps_zeroed)

lemma fold_SecureZero_zeroed: "a \<in> set as \<Longrightarrow> a < length h \<Longrightarrow> zeroed (fold SecureZero as h) a"
proof (induction as arbitrary: h)
  case (Cons x as)
  then show ?case
    by (cases "a = x") (auto intro: fold_SecureZero_keeps SecureZero_zeroed)
qed simp

section \<open>The cipher\<close>

lemma Cipher_roundtrip:
  assumes "aead_correct pr" and "length n = NonceSize" and "\<not> c_closed c"
  shows "\<exists>d. Cipher_Encrypt pr (Some n) c p ad = Inr d \<and> length d = NonceSize + length p + TagSize \<and>
     take NonceSize d = n \<and> Cipher_Decrypt pr c d ad = Inr p"
  using assms by (simp add: aead_correct_def Cipher_Encrypt_def encryptWithNonceLocked_def Cipher_Decrypt_def Let_def)

lemma Cipher_Encrypt_seal:
  assumes "aead_correct pr" and "c_aead c = Some k" and "\<not> c_closed c"
  shows "Cipher_Encrypt pr (Some n) c q ad = Inr d \<longleftrightarrow> length n = NonceSize \<and> d = n @ aead_Seal pr k n q ad"
  using assms by (auto simp: aead_correct_def Cipher_Encrypt_def encryptWithNonceLocked_def Let_def)

lemma Cipher_Decrypt_iff:
  assumes "aead_correct pr" and "aead_unforgeable_form pr" and "c_aead c = Some k" and "\<not> c_closed c"
  shows "Cipher_Decrypt pr c d ad = Inr q \<longleftrightarrow> Cipher_Encrypt pr (Some (take NonceSize d)) c q ad = Inr d"
    (is "?dec \<longleftrightarrow> ?enc")
proof
  let ?n = "take NonceSize d"
  assume ?dec
  then have len: "NonceSize + TagSize \<le> length d" and op: "aead_Open pr k ?n (drop NonceSize d) ad = Some q"
    using assms(3,4) by (auto simp: Cipher_Decrypt_def not_less split: if_splits option.splits)
  have "drop NonceSize d = aead_Seal pr k ?n q ad" using assms(2) op by (simp add: aead_unforgeable_form_def)
  then have "d = ?n @ aead_Seal pr k ?n q ad" by (metis append_take_drop_id)
  moreover have "length ?n = NonceSize" using len by simp
  ultimately show ?enc using Cipher_Encrypt_seal [OF assms(1,3,4)] by blast
next
  let ?n = "take NonceSize d"
  assume ?enc
  then have n: "length ?n = NonceSize" and d: "d = ?n @ aead_Seal pr k ?n q ad"
    using Cipher_Encrypt_seal [OF assms(1,3,4)] by blast+
  have "drop NonceSize d = aead_Seal pr k ?n q ad" using n d by (metis append_eq_conv_conj)
  moreover have "length d = NonceSize + (length q + TagSize)"
    using n d assms(1) by (metis aead_correct_def length_append)
  moreover have "aead_Open pr k ?n (aead_Seal pr k ?n q ad) ad = Some q" using assms(1) by (simp add: aead_correct_def)
  ultimately show ?dec using assms(3,4) by (simp add: Cipher_Decrypt_def)
qed

lemma NewCipher_extends:
  "NewCipher key h = (r, h1) \<Longrightarrow>
   case r of Inl e \<Rightarrow> h1 = h
   | Inr c \<Rightarrow> c_key c = Some (length h) \<and> c_aead c = Some (h ! key) \<and> \<not> c_closed c \<and>
       length (h ! key) = KeySize \<and> h1 = h @ [h ! key]"
  by (auto simp: NewCipher_def alloc_def split: if_splits)

lemma zero_last: "SecureZero (length h) (h @ [k]) = h @ [replicate (length k) 0]"
  by (simp add: SecureZero_def nth_append list_update_append)

lemma Encrypt_mem: "snd (Encrypt pr nonce key p ad h) \<in> {h, h @ [replicate KeySize 0]}"
proof -
  obtain r h1 where n: "NewCipher key h = (r, h1)" by fastforce
  show ?thesis using NewCipher_extends [OF n] n
    by (cases r) (auto simp: Encrypt_def Cipher_Close_def zero_last)
qed

lemma Decrypt_mem: "snd (Decrypt pr key d ad h) \<in> {h, h @ [replicate KeySize 0]}"
proof -
  obtain r h1 where n: "NewCipher key h = (r, h1)" by fastforce
  show ?thesis using NewCipher_extends [OF n] n
    by (cases r) (auto simp: Decrypt_def Cipher_Close_def zero_last)
qed

lemma Encrypt_result:
  "length (h ! key) = KeySize \<Longrightarrow>
   fst (Encrypt pr nonce key p ad h) =
     Cipher_Encrypt pr nonce \<lparr>c_aead = Some (h ! key), c_key = Some (length h), c_closed = False\<rparr> p ad"
  by (simp add: Encrypt_def NewCipher_def alloc_def)

lemma Decrypt_result:
  "length (h ! key) = KeySize \<Longrightarrow>
   fst (Decrypt pr key d ad h) =
     Cipher_Decrypt pr \<lparr>c_aead = Some (h ! key), c_key = Some (length h), c_closed = False\<rparr> d ad"
  by (simp add: Decrypt_def NewCipher_def alloc_def)

text \<open>A cipher with its buffer store can be closed once and for all.\<close>

definition cipher_inv :: "Cipher \<times> mem \<Rightarrow> bool" where
  "cipher_inv s \<longleftrightarrow> (c_closed (fst s) = (c_aead (fst s) = None)) \<and> (c_closed (fst s) = (c_key (fst s) = None))"

text \<open>The operations of other goroutines: they close the cipher or change the buffer store.\<close>

inductive cipher_step :: "Cipher \<times> mem \<Rightarrow> bool \<Rightarrow> Cipher \<times> mem \<Rightarrow> bool" where
  cs_close: "cipher_step s True (Cipher_Close s)"
| cs_other: "cipher_step (c, h) False (c, h')"

interpretation ciph: closable cipher_inv "\<lambda>s. c_closed (fst s)" "\<lambda>s. Some (Cipher_Close s)" cipher_step
  by unfold_locales
    (auto simp: cipher_inv_def Cipher_Close_def elim!: cipher_step.cases split: prod.splits if_splits)

section \<open>Clamping\<close>

text \<open>The little-endian number of a byte list.\<close>

fun le_nat :: "bytes \<Rightarrow> nat" where
  "le_nat [] = 0"
| "le_nat (b # bs) = unat b + 256 * le_nat bs"

lemma le_nat_append: "le_nat (xs @ ys) = le_nat xs + 256 ^ length xs * le_nat ys"
  by (induction xs) (simp_all add: algebra_simps)

lemma byte_bound: "unat (b :: byte) < 256"
  using unsigned_less [of b] by simp

lemma le_nat_bound: "le_nat xs < 256 ^ length xs"
proof (induction xs)
  case (Cons b bs)
  then show ?case using byte_bound [of b] by simp
qed simp

lemma clamp_low_byte: "8 dvd unat ((b :: byte) AND 248)"
proof -
  have "take_bit 3 (b AND 248) = (0 :: byte)" by (simp add: take_bit_and)
  then have "take_bit 3 (unat (b AND 248)) = 0" by (metis unsigned_take_bit_eq unsigned_0)
  then show ?thesis by (simp add: take_bit_eq_mod mod_eq_0_iff_dvd)
qed

lemma clamp_high_byte: "64 \<le> unat (((b :: byte) AND 127) OR 64) \<and> unat (((b :: byte) AND 127) OR 64) < 128"
proof
  let ?c = "(b AND 127) OR 64"
  have "?c AND 64 = (64 :: byte)" by (simp add: bit.conj_disj_distrib2 and.assoc)
  then have "uint (?c AND 64) = 64" by simp
  then have "uint ?c AND 64 = 64" by (simp only: unsigned_and_eq) simp
  moreover have "uint ?c AND 64 \<le> uint ?c" by (simp add: AND_upper1)
  ultimately have "64 \<le> nat (uint ?c)" by linarith
  then show "64 \<le> unat ?c" by (simp only: unat_eq_nat_uint)
  have "b AND 127 = take_bit 7 b" by (simp add: take_bit_eq_mask mask_eq_exp_minus_1)
  then have "take_bit 7 ?c = ?c" by (simp add: take_bit_or)
  then have "take_bit 7 (unat ?c) = unat ?c" by (metis unsigned_take_bit_eq)
  then show "unat ?c < 128" using take_bit_nat_less_exp [of 7 "unat ?c"] by simp
qed

lemma clampX25519_cons:
  "length mid = 30 \<Longrightarrow> clampX25519 (a # mid @ [z]) = (a AND 248) # mid @ [(z AND 127) OR 64]"
  by (simp add: clampX25519_def Let_def nth_append list_update_append)

lemma split_32: "length k = 32 \<Longrightarrow> \<exists>a mid z. k = a # mid @ [z] \<and> length mid = 30"
  by (cases k; cases "tl k" rule: rev_cases) auto

section \<open>The module\<close>

text \<open>The shared key of a private key and a public key, or the error of its derivation.\<close>

definition derived_key :: "prims \<Rightarrow> bytes \<Rightarrow> bytes \<Rightarrow> (crypto_err, bytes) result" where
  "derived_key pr priv pub =
     (case X25519 pr priv pub of
        None \<Rightarrow> Inl X25519Failed
      | Some secret \<Rightarrow>
          if list_all (\<lambda>b. b = 0) secret then Inl LowOrderPoint
          else case hkdf_sha256 pr secret [] hkdfInfo of None \<Rightarrow> Inl HKDFFailed | Some k \<Rightarrow> Inr k)"

lemma mem_simps:
  "(h @ x # xs) ! length h = x" "(h @ x # y # xs) ! Suc (length h) = y"
  "(h @ x # y # z # xs) ! Suc (Suc (length h)) = z"
  "(h @ x # xs)[length h := v] = h @ v # xs" "(h @ x # y # xs)[Suc (length h) := v] = h @ x # v # xs"
  "(h @ x # y # z # xs)[Suc (Suc (length h)) := v] = h @ x # y # v # xs"
  by (simp_all add: nth_append list_update_append)

text \<open>
  A derivation that misses the cache: the buffers it leaves are, in this order, the zeroed copy of the private
  key, the zeroed raw secret, the cached key and the copy handed to the caller.
\<close>

lemma derive_fresh:
  assumes "\<not> m_closed m" and "peerKeys m rx = None" and "length rx = X25519KeySize"
    and "length (h ! x25519Private m) = X25519KeySize"
  shows "case derived_key pr (h ! x25519Private m) rx of
      Inr k \<Rightarrow> (\<exists>s. DeriveSharedKeyFromX25519 pr rx (m, h) =
        (Inr (length h + 3), m\<lparr>peerKeys := (peerKeys m)(rx \<mapsto> length h + 2)\<rparr>,
         h @ [replicate X25519KeySize 0, replicate s 0, k, k]))
    | Inl e \<Rightarrow> (\<exists>zs. DeriveSharedKeyFromX25519 pr rx (m, h) = (Inl e, m, h @ zs) \<and>
        (\<forall>z \<in> set zs. \<forall>b \<in> set z. b = 0))"
  using assms
  by (auto simp: derived_key_def DeriveSharedKeyFromX25519_def derive_lookup_def derive_store_def
      DeriveSharedKey_def ComputeX25519SharedSecret_def deriveKeyFromSecret_def alloc_def SecureZero_def
      mem_simps list_all_iff Let_def split: option.splits)

lemma derive_cached:
  assumes "\<not> m_closed m" and "peerKeys m rx = Some ka" and "length rx = X25519KeySize"
  shows "DeriveSharedKeyFromX25519 pr rx (m, h) = (Inr (length h), m, h @ [h ! ka])"
  using assms by (simp add: DeriveSharedKeyFromX25519_def derive_lookup_def alloc_def)

lemma derive_refused:
  assumes "m_closed m \<or> length rx \<noteq> X25519KeySize"
  shows "\<exists>e. DeriveSharedKeyFromX25519 pr rx (m, h) = (Inl e, m, h)"
  using assms by (auto simp: DeriveSharedKeyFromX25519_def derive_lookup_def)

lemma NewModule_effect:
  assumes "NewModule pr (Some a) h = (Inr m, h1)" and "hash_sizes pr"
  shows "length (h ! a) = PrivateKeySize \<and> ed25519Private m = a \<and> ed25519Public m = drop 32 (h ! a) \<and>
     x25519Private m = Suc (length h) \<and> peerKeys m = Map.empty \<and> \<not> m_closed m \<and>
     ed_to_montgomery pr (drop 32 (h ! a)) = Some (x25519Public m) \<and>
     h1 = h @ [replicate 64 0, clampX25519 (take 32 (sha512 pr (take SeedSize (h ! a))))]"
  using assms
  by (auto simp: NewModule_def ValidateEd25519PrivateKey_def Ed25519PrivateToX25519_def Ed25519PublicToX25519_def
      alloc_def SecureZero_def mem_simps hash_sizes_def Let_def split: if_splits option.splits)

lemma clampX25519_length [simp]: "length (clampX25519 k) = length k"
  by (simp add: clampX25519_def Let_def)

lemma Module_derive_value:
  assumes "NewModule pr (Some a) h = (Inr m, h1)" and "hash_sizes pr"
    and "length pub = PublicKeySize" and "ed_to_montgomery pr pub = Some u"
  shows "case derived_key pr (clampX25519 (take 32 (sha512 pr (take SeedSize (h ! a))))) u of
      Inr k \<Rightarrow> (\<exists>ra m' h'. Module_DeriveSharedKey pr (Some pub) (m, h1) = (Inr ra, m', h') \<and> h' ! ra = k)
    | Inl e \<Rightarrow> (\<exists>m' h'. Module_DeriveSharedKey pr (Some pub) (m, h1) = (Inl e, m', h'))"
proof -
  let ?s = "clampX25519 (take 32 (sha512 pr (take SeedSize (h ! a))))"
  have m: "\<not> m_closed m" "peerKeys m u = None" "h1 ! x25519Private m = ?s"
    using NewModule_effect [OF assms(1,2)] by (auto simp: nth_append)
  have "length u = X25519KeySize" "length ?s = X25519KeySize"
    using assms(2,4) by (auto simp: hash_sizes_def X25519KeySize_def)
  moreover have "Module_DeriveSharedKey pr (Some pub) (m, h1) = DeriveSharedKeyFromX25519 pr u (m, h1)"
    using assms(3,4) by (simp add: Module_DeriveSharedKey_def ValidateEd25519PublicKey_def Ed25519PublicToX25519_def)
  ultimately show ?thesis
    using derive_fresh [of m u h1 pr] m by (auto simp: nth_append split: sum.splits)
qed

text \<open>What both sides derive is the same, by the commutation of the two scalar multiplications.\<close>

lemma derived_keys_agree:
  assumes "dh_commutes pr" and "hash_sizes pr" and "ed_keypair pr (hA ! a)" and "ed_keypair pr (hB ! b)"
    and nA: "NewModule pr (Some a) hA = (Inr mA, hA1)" and nB: "NewModule pr (Some b) hB = (Inr mB, hB1)"
  shows "derived_key pr (clampX25519 (take 32 (sha512 pr (take SeedSize (hA ! a))))) (x25519Public mB) =
    derived_key pr (clampX25519 (take 32 (sha512 pr (take SeedSize (hB ! b))))) (x25519Public mA)"
proof -
  let ?s = "\<lambda>k. clampX25519 (take 32 (sha512 pr (take SeedSize k)))"
  note eA = NewModule_effect [OF nA assms(2)] and eB = NewModule_effect [OF nB assms(2)]
  have "X25519 pr (?s (hA ! a)) (Basepoint pr) = ed_to_montgomery pr (drop 32 (hA ! a))"
    "X25519 pr (?s (hB ! b)) (Basepoint pr) = ed_to_montgomery pr (drop 32 (hB ! b))"
    using assms(3,4) by (simp_all only: ed_keypair_def)
  then have "X25519 pr (?s (hA ! a)) (Basepoint pr) = Some (x25519Public mA)"
    "X25519 pr (?s (hB ! b)) (Basepoint pr) = Some (x25519Public mB)" using eA eB by simp_all
  then have "X25519 pr (?s (hA ! a)) (x25519Public mB) = X25519 pr (?s (hB ! b)) (x25519Public mA)"
    using assms(1) unfolding dh_commutes_def by blast
  then show ?thesis by (simp add: derived_key_def)
qed

text \<open>Who owns a buffer: the module, or a caller (\<open>R\<close>).\<close>

type_synonym module_state = "Module \<times> mem \<times> nat set"

fun owned :: "module_state \<Rightarrow> nat set" where
  "owned (m, h, R) = {ed25519Private m, x25519Private m} \<union> ran (peerKeys m) \<union> R"

fun module_clean :: "module_state \<Rightarrow> bool" where
  "module_clean (m, h, R) \<longleftrightarrow>
     owned (m, h, R) \<subseteq> {..<length h} \<and> (\<forall>a < length h. a \<notin> owned (m, h, R) \<longrightarrow> zeroed h a) \<and>
     (\<not> m_closed m \<longrightarrow> length (h ! x25519Private m) = X25519KeySize)"

datatype module_op =
    MDerive bytes
  | MDeriveEd "bytes option"
  | MEncrypt "bytes option" bytes bytes
  | MDecrypt bytes bytes
  | MRemove bytes
  | MRemoveEd bytes
  | MClear "nat list"
  | MClose "nat list"

text \<open>The buffer that a derivation returns becomes the caller's.\<close>

fun give :: "(crypto_err, nat) result \<times> Module \<times> mem \<Rightarrow> nat set \<Rightarrow> module_state" where
  "give (Inr a, m, h) R = (m, h, insert a R)"
| "give (Inl e, m, h) R = (m, h, R)"

inductive module_step :: "prims \<Rightarrow> module_state \<Rightarrow> module_op \<Rightarrow> module_state \<Rightarrow> bool" for pr where
  ms_derive: "module_step pr (m, h, R) (MDerive rx) (give (DeriveSharedKeyFromX25519 pr rx (m, h)) R)"
| ms_derive_ed: "module_step pr (m, h, R) (MDeriveEd pub) (give (Module_DeriveSharedKey pr pub (m, h)) R)"
| ms_encrypt: "module_step pr (m, h, R) (MEncrypt nonce rx p) (m, snd (Module_Encrypt pr nonce rx p (m, h)), R)"
| ms_decrypt: "module_step pr (m, h, R) (MDecrypt rx c) (m, snd (Module_Decrypt pr rx c (m, h)), R)"
| ms_remove: "RemovePeerKey rx (m, h) = (m', h') \<Longrightarrow> module_step pr (m, h, R) (MRemove rx) (m', h', R)"
| ms_remove_ed: "RemovePeerKeyByEd25519 pr pub (m, h) = (m', h') \<Longrightarrow> module_step pr (m, h, R) (MRemoveEd pub) (m', h', R)"
| ms_clear: "set kas = ran (peerKeys m) \<Longrightarrow> ClearPeerKeys kas (m, h) = (m', h') \<Longrightarrow>
     module_step pr (m, h, R) (MClear kas) (m', h', R)"
| ms_close: "set kas = ran (peerKeys m) \<Longrightarrow> Module_Close kas (m, h) = (m', h') \<Longrightarrow>
     module_step pr (m, h, R) (MClose kas) (m', h', R)"

definition all_zero :: "bytes list \<Rightarrow> bool" where
  "all_zero zs \<longleftrightarrow> (\<forall>z \<in> set zs. \<forall>b \<in> set z. b = 0)"

lemma clean_append:
  assumes "module_clean (m, h, R)" and "all_zero zs"
  shows "module_clean (m, h @ zs, R)"
proof -
  have "zeroed (h @ zs) a" if "a < length (h @ zs)" "a \<notin> owned (m, h, R)" for a
  proof (cases "a < length h")
    case True
    then show ?thesis using assms(1) that by (simp add: zeroed_def nth_append)
  next
    case False
    then have "zs ! (a - length h) \<in> set zs" using that(1) by auto
    then show ?thesis using False assms(2) by (simp add: zeroed_def all_zero_def nth_append)
  qed
  moreover have "x25519Private m < length h" using assms(1) by simp
  ultimately show ?thesis using assms(1) by (auto simp: nth_append subset_iff less_Suc_eq)
qed

lemma SecureZero_nth_length [simp]: "length (SecureZero a h ! b) = length (h ! b)"
  by (cases "a < length h"; cases "a = b") (auto simp: SecureZero_def list_update_beyond not_less)

lemma fold_SecureZero_nth_length [simp]: "length (fold SecureZero as h ! b) = length (h ! b)"
  by (induction as arbitrary: h) simp_all

lemma Module_Encrypt_mem: "\<exists>zs. snd (Module_Encrypt pr nonce rx p (m, h)) = h @ zs \<and> all_zero zs"
proof (cases "m_closed m \<or> peerKeys m rx = None")
  case False
  then obtain ka where ka: "peerKeys m rx = Some ka" "\<not> m_closed m" by blast
  have "snd (Encrypt pr nonce (length h) p [] (h @ [h ! ka])) \<in> {h @ [h ! ka], (h @ [h ! ka]) @ [replicate KeySize 0]}"
    by (rule Encrypt_mem)
  then show ?thesis using ka
    by (auto simp: Module_Encrypt_def alloc_def all_zero_def SecureZero_def mem_simps split: prod.splits)
qed (auto simp: Module_Encrypt_def all_zero_def split: option.splits)

lemma Module_Decrypt_mem: "\<exists>zs. snd (Module_Decrypt pr rx c (m, h)) = h @ zs \<and> all_zero zs"
proof (cases "m_closed m \<or> peerKeys m rx = None")
  case False
  then obtain ka where ka: "peerKeys m rx = Some ka" "\<not> m_closed m" by blast
  have "snd (Decrypt pr (length h) c [] (h @ [h ! ka])) \<in> {h @ [h ! ka], (h @ [h ! ka]) @ [replicate KeySize 0]}"
    by (rule Decrypt_mem)
  then show ?thesis using ka
    by (auto simp: Module_Decrypt_def alloc_def all_zero_def SecureZero_def mem_simps split: prod.splits)
qed (auto simp: Module_Decrypt_def all_zero_def split: option.splits)

lemma clean_cached_copy:
  assumes "module_clean (m, h, R)"
  shows "module_clean (m, h @ [k], insert (length h) R)"
  using assms by (auto simp: nth_append zeroed_def less_Suc_eq subset_iff)

lemma clean_new_key:
  assumes "module_clean (m, h, R)" and "peerKeys m rx = None"
  shows "module_clean (m\<lparr>peerKeys := (peerKeys m)(rx \<mapsto> length h)\<rparr>, h @ [k], R)"
  using assms by (auto simp: nth_append zeroed_def less_Suc_eq subset_iff)

lemma derive_clean:
  assumes "module_clean (m, h, R)"
  shows "module_clean (give (DeriveSharedKeyFromX25519 pr rx (m, h)) R)"
proof (cases "m_closed m \<or> length rx \<noteq> X25519KeySize")
  case True
  then show ?thesis using derive_refused [of m rx pr h] assms by auto
next
  case False
  then have ok: "\<not> m_closed m" "length rx = X25519KeySize" by simp_all
  show ?thesis
  proof (cases "peerKeys m rx")
    case (Some ka)
    then show ?thesis using derive_cached [OF ok(1) Some ok(2)] clean_cached_copy [OF assms] by simp
  next
    case None
    have len: "length (h ! x25519Private m) = X25519KeySize" using assms ok by simp
    note fresh = derive_fresh [OF ok(1) None ok(2) len, of pr]
    show ?thesis
    proof (cases "derived_key pr (h ! x25519Private m) rx")
      case (Inl e)
      then obtain zs where "DeriveSharedKeyFromX25519 pr rx (m, h) = (Inl e, m, h @ zs)" "all_zero zs"
        using fresh by (auto simp: all_zero_def)
      then show ?thesis using clean_append [OF assms] by simp
    next
      case (Inr k)
      then obtain s where d: "DeriveSharedKeyFromX25519 pr rx (m, h) =
          (Inr (length h + 3), m\<lparr>peerKeys := (peerKeys m)(rx \<mapsto> length h + 2)\<rparr>,
           h @ [replicate X25519KeySize 0, replicate s 0, k, k])" using fresh by auto
      let ?h = "h @ [replicate X25519KeySize 0, replicate s 0]"
      have "module_clean (m, ?h, R)" by (intro clean_append [OF assms]) (simp add: all_zero_def)
      then have "module_clean (m\<lparr>peerKeys := (peerKeys m)(rx \<mapsto> length ?h)\<rparr>, (?h @ [k]) @ [k], insert (length (?h @ [k])) R)"
        using clean_cached_copy clean_new_key [OF _ None] by blast
      then show ?thesis by (simp add: d)
    qed
  qed
qed

lemma derive_ed_clean:
  "module_clean (m, h, R) \<Longrightarrow> module_clean (give (Module_DeriveSharedKey pr pub (m, h)) R)"
  using derive_clean [of m h R pr]
  by (auto simp: Module_DeriveSharedKey_def split: option.splits sum.splits)

lemma clean_drop_zeroed:
  assumes "module_clean (m, h, R)" and "length h' = length h" and "\<And>a. zeroed h a \<Longrightarrow> zeroed h' a"
    and "\<And>a. length (h' ! a) = length (h ! a)"
    and "ran pk \<subseteq> ran (peerKeys m)" and "\<And>a. a \<in> ran (peerKeys m) \<Longrightarrow> a \<notin> ran pk \<Longrightarrow> a < length h \<Longrightarrow> zeroed h' a"
    and "cl \<or> \<not> m_closed m"
  shows "module_clean (m\<lparr>peerKeys := pk, m_closed := cl\<rparr>, h', R)"
  using assms by (fastforce simp: subset_iff)

lemma RemovePeerKey_clean:
  assumes "module_clean (m, h, R)" and "RemovePeerKey rx (m, h) = (m', h')"
  shows "module_clean (m', h', R)"
proof -
  have h': "m' = m\<lparr>peerKeys := (peerKeys m)(rx := None), m_closed := m_closed m\<rparr>"
    "h' = (case peerKeys m rx of None \<Rightarrow> h | Some ka \<Rightarrow> SecureZero ka h)"
    using assms(2) by (auto simp: RemovePeerKey_def)
  have "a \<in> ran (peerKeys m) \<Longrightarrow> a \<notin> ran ((peerKeys m)(rx := None)) \<Longrightarrow> a < length h \<Longrightarrow> zeroed h' a" for a
  proof -
    assume a: "a \<in> ran (peerKeys m)" "a \<notin> ran ((peerKeys m)(rx := None))" "a < length h"
    then have "peerKeys m rx = Some a" by (auto simp: ran_def split: if_splits)
    then show ?thesis using h'(2) a(3) by (simp add: SecureZero_zeroed)
  qed
  moreover have "ran ((peerKeys m)(rx := None)) \<subseteq> ran (peerKeys m)" by (auto simp: ran_def)
  ultimately show ?thesis unfolding h'(1)
    by (intro clean_drop_zeroed [OF assms(1)]) (auto simp: h'(2) SecureZero_keeps_zeroed split: option.splits)
qed

lemma Clear_Close_clean:
  assumes "module_clean (m, h, R)" and "set kas = ran (peerKeys m)"
  shows "module_clean (m\<lparr>peerKeys := Map.empty\<rparr>, fold SecureZero kas h, R)"
    "module_clean (m\<lparr>m_closed := True, peerKeys := Map.empty\<rparr>,
       SecureZero (x25519Private m) (SecureZero (ed25519Private m) (fold SecureZero kas h)), R)"
proof -
  have z: "zeroed (fold SecureZero kas h) a" if "a \<in> ran (peerKeys m)" "a < length h" for a
    using fold_SecureZero_zeroed that assms(2) by blast
  have "module_clean (m\<lparr>peerKeys := Map.empty, m_closed := m_closed m\<rparr>, fold SecureZero kas h, R)"
    by (intro clean_drop_zeroed [OF assms(1)]) (auto simp: fold_SecureZero_keeps z)
  then show "module_clean (m\<lparr>peerKeys := Map.empty\<rparr>, fold SecureZero kas h, R)" by simp
  have "module_clean (m\<lparr>peerKeys := Map.empty, m_closed := True\<rparr>,
     SecureZero (x25519Private m) (SecureZero (ed25519Private m) (fold SecureZero kas h)), R)"
    by (intro clean_drop_zeroed [OF assms(1)]) (auto simp: fold_SecureZero_keeps SecureZero_keeps_zeroed z)
  then show "module_clean (m\<lparr>m_closed := True, peerKeys := Map.empty\<rparr>,
     SecureZero (x25519Private m) (SecureZero (ed25519Private m) (fold SecureZero kas h)), R)" by simp
qed

lemma module_step_clean: "module_step pr s l s' \<Longrightarrow> module_clean s \<Longrightarrow> module_clean s'"
proof (induction rule: module_step.induct)
  case (ms_derive m h R rx)
  then show ?case by (rule derive_clean)
next
  case (ms_derive_ed m h R pub)
  then show ?case by (rule derive_ed_clean)
next
  case (ms_encrypt m h R nonce rx p)
  then show ?case using Module_Encrypt_mem [of pr nonce rx p m h] clean_append by metis
next
  case (ms_decrypt m h R rx c)
  then show ?case using Module_Decrypt_mem [of pr rx c m h] clean_append by metis
next
  case (ms_remove rx m h m' h' R)
  then show ?case using RemovePeerKey_clean by blast
next
  case (ms_remove_ed pub m h m' h' R)
  then show ?case using RemovePeerKey_clean
    by (auto simp: RemovePeerKeyByEd25519_def simp del: module_clean.simps split: if_splits sum.splits)
next
  case (ms_clear kas m h m' h' R)
  then show ?case using Clear_Close_clean(1) [of m h R kas] by (auto simp: ClearPeerKeys_def)
next
  case (ms_close kas m h m' h' R)
  then show ?case using Clear_Close_clean(2) [of m h R kas] by (auto simp: Module_Close_def)
qed

text \<open>A module that has just been created: the buffers that existed before belong to the callers.\<close>

definition module_init :: "prims \<Rightarrow> module_state \<Rightarrow> bool" where
  "module_init pr s \<longleftrightarrow>
     hash_sizes pr \<and> (\<exists>a h m h1. a < length h \<and> NewModule pr (Some a) h = (Inr m, h1) \<and> s = (m, h1, {..<length h}))"

lemma module_init_clean: "module_init pr s \<Longrightarrow> module_clean s"
proof -
  assume "module_init pr s"
  then obtain a h m h1 where "hash_sizes pr" "a < length h" and n: "NewModule pr (Some a) h = (Inr m, h1)"
      and s: "s = (m, h1, {..<length h})" by (auto simp: module_init_def)
  then have "length (sha512 pr x) = 64" for x by (simp add: hash_sizes_def)
  then show ?thesis using NewModule_effect [OF n \<open>hash_sizes pr\<close>] \<open>a < length h\<close> s
    by (auto simp: zeroed_def nth_append less_Suc_eq X25519KeySize_def)
qed

interpretation modl: invariant_system "module_init pr" "module_step pr" module_clean
  by unfold_locales (auto intro: module_init_clean module_step_clean simp del: module_clean.simps)

section \<open>Properties\<close>

text \<open>
  Clamping a 32-byte key gives a valid Curve25519 scalar: as a little-endian number it is a
  multiple of the cofactor 8, at least \<open>2 ^ 254\<close> and below \<open>2 ^ 255\<close>; clamping again changes nothing.
\<close>

theorem clampX25519_scalar:
  assumes "length k = 32"
  shows "8 dvd le_nat (clampX25519 k) \<and> 2 ^ 254 \<le> le_nat (clampX25519 k) \<and> le_nat (clampX25519 k) < 2 ^ 255 \<and>
         length (clampX25519 k) = 32 \<and> clampX25519 (clampX25519 k) = clampX25519 k"
proof -
  obtain a mid z where k: "k = a # mid @ [z]" "length mid = 30" using split_32 [OF assms] by blast
  let ?a = "a AND 248" and ?z = "(z AND 127) OR 64"
  have c: "clampX25519 k = ?a # mid @ [?z]" by (simp add: k clampX25519_cons)
  have v: "le_nat (clampX25519 k) = unat ?a + 256 * (le_nat mid + 256 ^ 30 * unat ?z)"
    unfolding c by (simp add: le_nat_append k(2))
  have "8 dvd le_nat (clampX25519 k)" unfolding v using clamp_low_byte [of a]
    by (intro dvd_add) (simp_all add: dvd_mult2)
  moreover have "le_nat mid < 256 ^ 30" using le_nat_bound [of mid] k(2) by simp
  then have "2 ^ 254 \<le> le_nat (clampX25519 k)" "le_nat (clampX25519 k) < 2 ^ 255"
    unfolding v using clamp_high_byte [of z] byte_bound [of ?a] by simp_all
  moreover have "?a AND 248 = ?a" by (simp add: and.assoc)
  moreover have "(?z AND 127) OR 64 = ?z" by (simp add: bit.conj_disj_distrib2 and.assoc or.assoc)
  ultimately show ?thesis using k(2) by (simp add: c clampX25519_cons)
qed

theorem clampX25519_scalar_witness:
  "8 dvd le_nat (clampX25519 (replicate 32 255)) \<and> 2 ^ 254 \<le> le_nat (clampX25519 (replicate 32 255))"
  using clampX25519_scalar [of "replicate 32 255"] by simp

text \<open>
  Authenticated encryption. For a 32-byte key and a fresh 12-byte nonce, encryption succeeds, its output is the
  nonce, the ciphertext and the tag (28 bytes more than the plaintext), and decrypting with the same
  key and additional data gives the plaintext back; a text is accepted by decryption with result
  \<open>q\<close> exactly when it is the encryption of \<open>q\<close> under its own nonce; and both leave no copy of the key
  behind: every buffer they allocate is zeroed on return.
\<close>

theorem encryption_roundtrip:
  assumes "aead_correct pr" and "aead_unforgeable_form pr"
    and "length (h ! key) = KeySize" and "length n = NonceSize"
  shows "(\<exists>d. fst (Encrypt pr (Some n) key p ad h) = Inr d \<and> length d = length p + 28 \<and>
            fst (Decrypt pr key d ad h) = Inr p) \<and>
         (fst (Decrypt pr key d' ad h) = Inr q \<longleftrightarrow>
            fst (Encrypt pr (Some (take NonceSize d')) key q ad h) = Inr d') \<and>
         extends {} h (snd (Encrypt pr nonce key p ad h)) \<and> extends {} h (snd (Decrypt pr key d' ad h))"
proof (intro conjI)
  let ?c = "\<lparr>c_aead = Some (h ! key), c_key = Some (length h), c_closed = False\<rparr>"
  show "\<exists>d. fst (Encrypt pr (Some n) key p ad h) = Inr d \<and> length d = length p + 28 \<and>
      fst (Decrypt pr key d ad h) = Inr p"
    using Cipher_roundtrip [OF assms(1,4), of ?c p ad] assms(3)
    by (auto simp: Encrypt_result Decrypt_result NonceSize_def TagSize_def)
  show "fst (Decrypt pr key d' ad h) = Inr q \<longleftrightarrow>
      fst (Encrypt pr (Some (take NonceSize d')) key q ad h) = Inr d'"
    using assms(3) Cipher_Decrypt_iff [OF assms(1,2), of ?c "h ! key" d' ad q]
    by (simp add: Encrypt_result Decrypt_result)
  have "extends {} h (h @ [replicate KeySize 0])"
    by (auto simp: extends_def zeroed_def nth_append)
  then show "extends {} h (snd (Encrypt pr nonce key p ad h))" "extends {} h (snd (Decrypt pr key d' ad h))"
    using Encrypt_mem [of pr nonce key p ad h] Decrypt_mem [of pr key d' ad h] by auto
qed

text \<open>
  Property C14: Key agreement. Two nodes that each create a module from their own Ed25519 key pair and derive the shared key
  from the other's Ed25519 public key obtain the same key; if one of them fails, the other fails
  with the same error.
\<close>

theorem shared_keys_agree:
  assumes "dh_commutes pr" and "hash_sizes pr" and "ed_keypair pr (hA ! a)" and "ed_keypair pr (hB ! b)"
    and nA: "NewModule pr (Some a) hA = (Inr mA, hA1)" and nB: "NewModule pr (Some b) hB = (Inr mB, hB1)"
  shows "(\<exists>ka kb mA' mB' hA' hB'.
            Module_DeriveSharedKey pr (Some (ed25519Public mB)) (mA, hA1) = (Inr ka, mA', hA') \<and>
            Module_DeriveSharedKey pr (Some (ed25519Public mA)) (mB, hB1) = (Inr kb, mB', hB') \<and>
            hA' ! ka = hB' ! kb) \<or>
         (\<exists>e sA sB. Module_DeriveSharedKey pr (Some (ed25519Public mB)) (mA, hA1) = (Inl e, sA) \<and>
            Module_DeriveSharedKey pr (Some (ed25519Public mA)) (mB, hB1) = (Inl e, sB))"
proof -
  let ?s = "\<lambda>k. clampX25519 (take 32 (sha512 pr (take SeedSize k)))"
  note eA = NewModule_effect [OF nA assms(2)] and eB = NewModule_effect [OF nB assms(2)]
  have monA: "ed_to_montgomery pr (ed25519Public mA) = Some (x25519Public mA)"
    and monB: "ed_to_montgomery pr (ed25519Public mB) = Some (x25519Public mB)" using eA eB by simp_all
  note same = derived_keys_agree [OF assms]
  have "length (ed25519Public mA) = PublicKeySize" "length (ed25519Public mB) = PublicKeySize"
    using eA eB by (simp_all add: PrivateKeySize_def PublicKeySize_def)
  note dA = Module_derive_value [OF nA assms(2) this(2) monB] and dB = Module_derive_value [OF nB assms(2) this(1) monA]
  show ?thesis
  proof (cases "derived_key pr (?s (hA ! a)) (x25519Public mB)")
    case (Inl e)
    then show ?thesis using dA dB same by auto
  next
    case (Inr k)
    then have "\<exists>ra m' h'. Module_DeriveSharedKey pr (Some (ed25519Public mB)) (mA, hA1) = (Inr ra, m', h') \<and> h' ! ra = k"
      "\<exists>ra m' h'. Module_DeriveSharedKey pr (Some (ed25519Public mA)) (mB, hB1) = (Inr ra, m', h') \<and> h' ! ra = k"
      using dA dB same by simp_all
    then show ?thesis by metis
  qed
qed


text \<open>
  Two goroutines derive the key of the same peer: both look it up before either stores it. The result
  has the first goroutine's cached buffer, the two returned copies and the final state.
\<close>

definition concurrent_derive :: "prims \<Rightarrow> bytes \<Rightarrow> Module \<times> mem \<Rightarrow> (nat \<times> nat \<times> nat \<times> nat \<times> Module \<times> mem) option" where
  "concurrent_derive pr rx s =
     (case derive_lookup rx s of
        (Inr (NeedsDerivation x1), h1) \<Rightarrow>
          (case derive_lookup rx (fst s, h1) of
             (Inr (NeedsDerivation x2), h2) \<Rightarrow>
               (case DeriveSharedKey pr x1 rx [] h2 of
                  (Inr k1, h3) \<Rightarrow>
                    (case DeriveSharedKey pr x2 rx [] h3 of
                       (Inr k2, h4) \<Rightarrow>
                         (case derive_store rx k1 (fst s, h4) of
                            (Inr r1, m5, h5) \<Rightarrow>
                              (case derive_store rx k2 (m5, h5) of
                                 (Inr r2, m6, h6) \<Rightarrow> Some (k1, k2, r1, r2, m6, SecureZero x2 (SecureZero x1 h6))
                               | _ \<Rightarrow> None)
                          | _ \<Rightarrow> None)
                     | _ \<Rightarrow> None)
                | _ \<Rightarrow> None)
           | _ \<Rightarrow> None)
      | _ \<Rightarrow> None)"

text \<open>
  Concurrent derivations leak a key. When two goroutines derive the key of the same peer at the same time, the second
  overwrites the cache entry of the first without zeroing its buffer: the buffer is not cached, was not handed to anyone, and still
  holds the shared key after the module has been closed.
\<close>

theorem concurrent_derive_leaks:
  assumes "\<not> m_closed m" and "peerKeys m = Map.empty" and "length rx = X25519KeySize"
    and "x25519Private m < length h" and "ed25519Private m < length h"
    and "length (h ! x25519Private m) = X25519KeySize" and "derived_key pr (h ! x25519Private m) rx = Inr k"
  shows "\<exists>k1 k2 r1 r2 m' h' m'' h''.
     concurrent_derive pr rx (m, h) = Some (k1, k2, r1, r2, m', h') \<and>
     ran (peerKeys m') = {k2} \<and> Module_Close [k2] (m', h') = (m'', h'') \<and>
     k1 \<notin> {k2, r1, r2, x25519Private m, ed25519Private m} \<and> h'' ! k1 = k"
proof -
  obtain s where s: "X25519 pr (h ! x25519Private m) rx = Some s" "\<not> list_all (\<lambda>b. b = 0) s"
      "hkdf_sha256 pr s [] hkdfInfo = Some k"
    using assms(7) by (auto simp: derived_key_def split: option.splits if_splits)
  have "\<exists>h'. concurrent_derive pr rx (m, h) =
      Some (length h + 3, length h + 5, length h + 6, length h + 7, m\<lparr>peerKeys := [rx \<mapsto> length h + 5]\<rparr>, h') \<and>
      h' ! (length h + 3) = k"
    using assms s
    by (simp add: concurrent_derive_def derive_lookup_def derive_store_def DeriveSharedKey_def
        ComputeX25519SharedSecret_def deriveKeyFromSecret_def alloc_def SecureZero_def nth_append
        list_update_append numeral_eq_Suc)
  then show ?thesis using assms(4,5) by (auto simp: Module_Close_def)
qed

section \<open>Concrete primitives\<close>

text \<open>Simple functions that satisfy the hypotheses, for the witnesses.\<close>

definition zeros32 :: bytes where
  "zeros32 = replicate 32 0"

definition toy_prims :: prims where
  "toy_prims =
     \<lparr>sha512 = (\<lambda>x. take 64 (x @ replicate 64 0)),
      ed_to_montgomery = (\<lambda>x. Some (take 32 (x @ zeros32))),
      X25519 = (\<lambda>a b. Some (map2 (\<lambda>x y. x + y) a b)),
      Basepoint = zeros32,
      hkdf_sha256 = (\<lambda>s salt info. Some s),
      aead_Seal = (\<lambda>k n p ad. p @ replicate 16 0),
      aead_Open = (\<lambda>k n c ad. if 16 \<le> length c \<and> drop (length c - 16) c = replicate 16 0
                              then Some (take (length c - 16) c) else None)\<rparr>"

lemma toy_aead: "aead_correct toy_prims" "aead_unforgeable_form toy_prims"
  by (auto simp: aead_correct_def aead_unforgeable_form_def toy_prims_def TagSize_def)
    (metis append_take_drop_id)

lemma toy_sizes: "hash_sizes toy_prims"
  by (auto simp: hash_sizes_def toy_prims_def zeros32_def)

lemma map2_add_zeros: "map2 (\<lambda>x y. x + y) a (map2 (\<lambda>x y. x + y) b (z :: bytes)) = map2 (\<lambda>x y. x + y) b (map2 (\<lambda>x y. x + y) a z)"
proof (induction a arbitrary: b z)
  case (Cons x a)
  then show ?case by (cases b; cases z) (simp_all add: ac_simps)
qed simp

lemma toy_dh: "dh_commutes toy_prims"
  by (auto simp: dh_commutes_def toy_prims_def map2_add_zeros)

theorem encryption_roundtrip_witness:
  "\<exists>d. fst (Encrypt toy_prims (Some (replicate 12 7)) 0 [1, 2, 3] [] [replicate 32 9]) = Inr d \<and> length d = 31 \<and>
     fst (Decrypt toy_prims 0 d [] [replicate 32 9]) = Inr [1, 2, 3]"
proof -
  have "length ([replicate 32 9 :: bytes] ! 0) = KeySize" "length (replicate 12 7 :: bytes) = NonceSize"
    by (simp_all add: KeySize_def NonceSize_def)
  from conjunct1 [OF encryption_roundtrip [OF toy_aead this, of "[1, 2, 3]" "[]"]] show ?thesis by simp
qed

text \<open>A key pair of the toy primitives, and the module made of it.\<close>

definition toy_seckey :: "byte \<Rightarrow> bytes" where
  "toy_seckey b = replicate 32 b @ clampX25519 (replicate 32 b)"

lemma map2_zeros: "length a = 32 \<Longrightarrow> map2 (\<lambda>x y. x + y) a zeros32 = a"
  unfolding zeros32_def by (rule nth_equalityI) simp_all

lemma toy_keypair: "ed_keypair toy_prims (toy_seckey b)"
  by (simp add: ed_keypair_def toy_prims_def toy_seckey_def PrivateKeySize_def SeedSize_def map2_zeros)

lemma toy_module: "\<exists>m h1. NewModule toy_prims (Some 0) [toy_seckey b] = (Inr m, h1)"
  by (simp add: NewModule_def ValidateEd25519PrivateKey_def Ed25519PrivateToX25519_def Ed25519PublicToX25519_def
      toy_prims_def toy_seckey_def PrivateKeySize_def PublicKeySize_def alloc_def Let_def)

theorem shared_keys_agree_witness:
  "\<exists>mA hA1 mB hB1. NewModule toy_prims (Some 0) [toy_seckey 3] = (Inr mA, hA1) \<and>
     NewModule toy_prims (Some 0) [toy_seckey 5] = (Inr mB, hB1) \<and>
     ((\<exists>ka kb mA' mB' hA' hB'.
        Module_DeriveSharedKey toy_prims (Some (ed25519Public mB)) (mA, hA1) = (Inr ka, mA', hA') \<and>
        Module_DeriveSharedKey toy_prims (Some (ed25519Public mA)) (mB, hB1) = (Inr kb, mB', hB') \<and>
        hA' ! ka = hB' ! kb) \<or>
      (\<exists>e sA sB. Module_DeriveSharedKey toy_prims (Some (ed25519Public mB)) (mA, hA1) = (Inl e, sA) \<and>
        Module_DeriveSharedKey toy_prims (Some (ed25519Public mA)) (mB, hB1) = (Inl e, sB)))"
proof -
  obtain mA hA1 where a: "NewModule toy_prims (Some 0) [toy_seckey 3] = (Inr mA, hA1)" using toy_module by blast
  obtain mB hB1 where b: "NewModule toy_prims (Some 0) [toy_seckey 5] = (Inr mB, hB1)" using toy_module by blast
  have "ed_keypair toy_prims ([toy_seckey 3] ! 0)" "ed_keypair toy_prims ([toy_seckey 5] ! 0)"
    by (simp_all add: toy_keypair)
  from shared_keys_agree [OF toy_dh toy_sizes this a b] show ?thesis
    by (intro exI [of _ mA] exI [of _ hA1] exI [of _ mB] exI [of _ hB1]) (simp add: a b)
qed


theorem concurrent_derive_leaks_witness:
  "\<exists>r. concurrent_derive toy_prims (replicate 32 1)
     (\<lparr>ed25519Private = 0, ed25519Public = [], x25519Private = 1, x25519Public = [], peerKeys = Map.empty,
       m_closed = False\<rparr>, [[], replicate 32 2]) = Some r"
  using concurrent_derive_leaks [of "\<lparr>ed25519Private = 0, ed25519Public = [], x25519Private = 1, x25519Public = [],
      peerKeys = Map.empty, m_closed = False\<rparr>" "replicate 32 1" "[[], replicate 32 2]" toy_prims "replicate 32 3"]
  by (auto simp: derived_key_def toy_prims_def X25519KeySize_def list_all_iff zip_replicate)

end
