(* ===== verification/Streams.thy ===== *)
theory Streams
  imports Channels Crypto
begin

text \<open>
  The streams of one peer (\<^verbatim>\<open>src/pkg/streams/encrypted.go\<close>, \<^verbatim>\<open>unencrypted.go\<close>, \<^verbatim>\<open>handshake.go\<close>). The framing of
  messages on a libp2p stream is third-party code: a raw stream is the list of frames written to it, and the
  reader is fed with the frames or errors that its iterator returns. Buffers with key material
  live in the store of \<open>Crypto\<close>.
\<close>

section \<open>Raw streams and messages\<close>

record raw_stream =
  frames :: "bytes list"
  raw_closed :: bool

record IncomingMessage =
  im_PeerID :: peer_id
  im_StreamName :: string
  im_Data :: bytes
  im_Timestamp :: time_ns

text \<open>What \<^verbatim>\<open>reader.Next\<close> and \<^verbatim>\<open>reader.Err\<close> give: a frame, the end, an error, or no more messages.\<close>

datatype read_event = RMsg bytes | REOF | RErr string | RNone

text \<open>How writing a frame ends.\<close>

datatype write_result = WriteOk | WriteFails string | FlushFails string

datatype stream_err =
    SCtx ctx_err | SClosed | SEncrypt crypto_err | SWrite string | SFlush string | SRead string | SRawClose string
  | SDeadline | SEOF | SNoMessage

datatype callback =
    CBOversized peer_id string nat
  | CBDecryptionError peer_id crypto_err
  | CBMessageDropped peer_id string

section \<open>The encrypted stream\<close>

text \<open>The optional callbacks, set or nil, and the size limit (0 for none).\<close>

record EncryptedStreamConfig =
  OnDecryptionError :: bool
  OnOversizedMessage :: bool
  OnMessageDropped :: bool
  MaxMessageSize :: nat

record EncryptedStream =
  es_name :: string
  es_peerID :: peer_id
  es_stream :: raw_stream
  es_sharedKey :: nat
  es_cipher :: Cipher
  es_config :: EncryptedStreamConfig
  es_cancelled :: bool
  es_closed :: bool
  es_closeErr :: "stream_err option"

definition NewEncryptedStream :: "string \<Rightarrow> peer_id \<Rightarrow> raw_stream \<Rightarrow> nat \<Rightarrow> EncryptedStreamConfig \<Rightarrow> mem \<Rightarrow>
    (crypto_err, EncryptedStream) result \<times> mem" where
  "NewEncryptedStream name p raw sharedKey cfg h =
     (case NewCipher sharedKey h of
        (Inl e, h1) \<Rightarrow> (Inl e, h1)
      | (Inr c, h1) \<Rightarrow>
          (Inr \<lparr>es_name = name, es_peerID = p, es_stream = raw, es_sharedKey = sharedKey, es_cipher = c,
                es_config = cfg, es_cancelled = False, es_closed = False, es_closeErr = None\<rparr>, h1))"

text \<open>A write that fails leaves the frame unwritten; a failed flush may leave it written.\<close>

definition write_frame :: "write_result \<Rightarrow> bytes \<Rightarrow> raw_stream \<Rightarrow> stream_err option \<times> raw_stream" where
  "write_frame w f raw =
     (case w of
        WriteOk \<Rightarrow> (None, raw\<lparr>frames := frames raw @ [f]\<rparr>)
      | WriteFails e \<Rightarrow> (Some (SWrite e), raw)
      | FlushFails e \<Rightarrow> (Some (SFlush e), raw\<lparr>frames := frames raw @ [f]\<rparr>))"

text \<open>\<^verbatim>\<open>SendCtx\<close>: the context is polled three times, before the closed check, after it and under the write lock.\<close>

definition es_SendCtx :: "prims \<Rightarrow> bytes option \<Rightarrow> write_result \<Rightarrow> ctx \<Rightarrow> bytes \<Rightarrow> EncryptedStream \<Rightarrow>
    stream_err option \<times> EncryptedStream" where
  "es_SendCtx pr nonce w c data es =
     (if ctx_Done c 0 then (Some (SCtx (ctxErr c)), es)
      else if es_closed es then (Some SClosed, es)
      else if ctx_Done c 1 then (Some (SCtx (ctxErr c)), es)
      else case Cipher_Encrypt pr nonce (es_cipher es) data [] of
        Inl e \<Rightarrow> (Some (SEncrypt e), es)
      | Inr encrypted \<Rightarrow>
          if ctx_Done c 2 then (Some (SCtx (ctxErr c)), es)
          else (case write_frame w encrypted (es_stream es) of
                  (r, raw) \<Rightarrow> (r, es\<lparr>es_stream := raw\<rparr>)))"

definition es_Send :: "prims \<Rightarrow> bytes option \<Rightarrow> write_result \<Rightarrow> bytes \<Rightarrow> EncryptedStream \<Rightarrow>
    stream_err option \<times> EncryptedStream" where
  "es_Send pr nonce w data es = es_SendCtx pr nonce w Background data es"

definition es_markClosed :: "stream_err option \<Rightarrow> EncryptedStream \<Rightarrow> EncryptedStream" where
  "es_markClosed e es = (if \<not> es_closed es then es\<lparr>es_closed := True, es_closeErr := e\<rparr> else es)"

text \<open>
  One round of the read loop. The flag \<open>rd_continue\<close> says whether the loop goes on. The context may be
  cancelled while the loop waits for a frame: \<open>late\<close> says that the select on the incoming channel then takes
  the cancellation. The channel belongs to the node; a send on a closed channel would panic, and the
  round then ends the loop.
\<close>

record read_result =
  rd_continue :: bool
  rd_stream :: EncryptedStream
  rd_incoming :: "IncomingMessage channel"
  rd_callbacks :: "callback list"

definition call_if :: "bool \<Rightarrow> callback \<Rightarrow> callback list" where
  "call_if isset cb = (if isset then [cb] else [])"

definition es_read_step :: "prims \<Rightarrow> time_ns \<Rightarrow> bool \<Rightarrow> read_event \<Rightarrow> EncryptedStream \<Rightarrow>
    IncomingMessage channel \<Rightarrow> read_result" where
  "es_read_step pr now late ev es ch =
     (let stop = (\<lambda>es'. \<lparr>rd_continue = False, rd_stream = es', rd_incoming = ch, rd_callbacks = []\<rparr>);
          go = (\<lambda>ch' cbs. \<lparr>rd_continue = True, rd_stream = es, rd_incoming = ch', rd_callbacks = cbs\<rparr>);
          cfg = es_config es in
      if es_cancelled es then stop es
      else case ev of
        REOF \<Rightarrow> stop es
      | RErr e \<Rightarrow> stop (es_markClosed (Some (SRead e)) es)
      | RNone \<Rightarrow> stop es
      | RMsg encrypted \<Rightarrow>
          if 0 < MaxMessageSize cfg \<and> MaxMessageSize cfg < length encrypted then
            go ch (call_if (OnOversizedMessage cfg) (CBOversized (es_peerID es) (es_name es) (length encrypted)))
          else case Cipher_Decrypt pr (es_cipher es) encrypted [] of
            Inl e \<Rightarrow> go ch (call_if (OnDecryptionError cfg) (CBDecryptionError (es_peerID es) e))
          | Inr decrypted \<Rightarrow>
              let msg = \<lparr>im_PeerID = es_peerID es, im_StreamName = es_name es, im_Data = decrypted, im_Timestamp = now\<rparr>
              in if late then stop es
                 else (case chan_try_send msg ch of
                         None \<Rightarrow> stop es
                       | Some (True, ch') \<Rightarrow> go ch' []
                       | Some (False, ch') \<Rightarrow>
                           go ch' (call_if (OnMessageDropped cfg) (CBMessageDropped (es_peerID es) (es_name es)))))"

text \<open>The loop over what the reader returns, with the deferred \<^verbatim>\<open>markClosed(nil)\<close>.\<close>

fun es_readLoop :: "prims \<Rightarrow> time_ns \<Rightarrow> (bool \<times> read_event) list \<Rightarrow> EncryptedStream \<Rightarrow>
    IncomingMessage channel \<Rightarrow> read_result" where
  "es_readLoop pr now [] es ch =
     \<lparr>rd_continue = True, rd_stream = es, rd_incoming = ch, rd_callbacks = []\<rparr>"
| "es_readLoop pr now ((late, ev) # evs) es ch =
     (let r = es_read_step pr now late ev es ch in
      if rd_continue r then
        (let r' = es_readLoop pr now evs (rd_stream r) (rd_incoming r)
         in r'\<lparr>rd_callbacks := rd_callbacks r @ rd_callbacks r'\<rparr>)
      else r\<lparr>rd_stream := es_markClosed None (rd_stream r)\<rparr>)"

text \<open>\<^verbatim>\<open>Close\<close>; \<open>e\<close> is the error of closing the raw stream.\<close>

definition es_Close :: "stream_err option \<Rightarrow> EncryptedStream \<times> mem \<Rightarrow> stream_err option \<times> EncryptedStream \<times> mem" where
  "es_Close e s =
     (case s of (es, h) \<Rightarrow>
       if es_closed es then (es_closeErr es, es, h)
       else (case Cipher_Close (es_cipher es, h) of
               (c, h1) \<Rightarrow>
                 (e, es\<lparr>es_closed := True, es_cipher := c, es_cancelled := True,
                        es_stream := (es_stream es)\<lparr>raw_closed := True\<rparr>, es_closeErr := e\<rparr>, h1)))"

section \<open>The unencrypted stream\<close>

definition HandshakeStreamName :: string where
  "HandshakeStreamName = ''handshake''"

record UnencryptedStream =
  us_name :: string
  us_peerID :: peer_id
  us_stream :: raw_stream
  us_dropCallback :: bool
  us_cancelled :: bool
  us_closed :: bool
  us_closeErr :: "stream_err option"

definition NewUnencryptedStream :: "string \<Rightarrow> peer_id \<Rightarrow> raw_stream \<Rightarrow> UnencryptedStream" where
  "NewUnencryptedStream name p raw =
     \<lparr>us_name = name, us_peerID = p, us_stream = raw, us_dropCallback = False, us_cancelled = False,
      us_closed = False, us_closeErr = None\<rparr>"

definition SetOnMessageDropped :: "bool \<Rightarrow> UnencryptedStream \<Rightarrow> UnencryptedStream" where
  "SetOnMessageDropped cb us = us\<lparr>us_dropCallback := cb\<rparr>"

definition us_SendCtx :: "write_result \<Rightarrow> ctx \<Rightarrow> bytes \<Rightarrow> UnencryptedStream \<Rightarrow> stream_err option \<times> UnencryptedStream" where
  "us_SendCtx w c data us =
     (if ctx_Done c 0 then (Some (SCtx (ctxErr c)), us)
      else if us_closed us then (Some SClosed, us)
      else if ctx_Done c 1 then (Some (SCtx (ctxErr c)), us)
      else if ctx_Done c 2 then (Some (SCtx (ctxErr c)), us)
      else (case write_frame w data (us_stream us) of (r, raw) \<Rightarrow> (r, us\<lparr>us_stream := raw\<rparr>)))"

definition us_markClosed :: "stream_err option \<Rightarrow> UnencryptedStream \<Rightarrow> UnencryptedStream" where
  "us_markClosed e us = (if \<not> us_closed us then us\<lparr>us_closed := True, us_closeErr := e\<rparr> else us)"

fun us_readLoop :: "time_ns \<Rightarrow> read_event list \<Rightarrow> UnencryptedStream \<Rightarrow> IncomingMessage channel \<Rightarrow>
    UnencryptedStream \<times> IncomingMessage channel \<times> callback list" where
  "us_readLoop now [] us ch = (us, ch, [])"
| "us_readLoop now (ev # evs) us ch =
     (if us_cancelled us then (us_markClosed None us, ch, [])
      else case ev of
        REOF \<Rightarrow> (us_markClosed None us, ch, [])
      | RErr e \<Rightarrow> (us_markClosed None (us_markClosed (Some (SRead e)) us), ch, [])
      | RNone \<Rightarrow> (us_markClosed None us, ch, [])
      | RMsg data \<Rightarrow>
          let msg = \<lparr>im_PeerID = us_peerID us, im_StreamName = us_name us, im_Data = data, im_Timestamp = now\<rparr>
          in (case chan_try_send msg ch of
                None \<Rightarrow> (us_markClosed None us, ch, [])
              | Some (ok, ch') \<Rightarrow>
                  (case us_readLoop now evs us ch' of
                     (us', ch'', cbs) \<Rightarrow>
                       (us', ch'', if \<not> ok \<and> us_dropCallback us
                                   then CBMessageDropped (us_peerID us) (us_name us) # cbs else cbs))))"

definition us_Close :: "stream_err option \<Rightarrow> UnencryptedStream \<Rightarrow> stream_err option \<times> UnencryptedStream" where
  "us_Close e us =
     (if us_closed us then (us_closeErr us, us)
      else (e, us\<lparr>us_closed := True, us_cancelled := True,
                  us_stream := (us_stream us)\<lparr>raw_closed := True\<rparr>, us_closeErr := e\<rparr>))"

section \<open>The handshake stream\<close>

record HandshakeStream =
  hs_stream :: raw_stream
  hs_deadline :: time_ns
  hs_closed :: bool

definition NewHandshakeStream :: "time_ns \<Rightarrow> raw_stream \<Rightarrow> duration \<Rightarrow> HandshakeStream" where
  "NewHandshakeStream now raw timeout = \<lparr>hs_stream = raw, hs_deadline = now + timeout, hs_closed = False\<rparr>"

definition hs_Send :: "time_ns \<Rightarrow> write_result \<Rightarrow> bytes \<Rightarrow> HandshakeStream \<Rightarrow> stream_err option \<times> HandshakeStream" where
  "hs_Send now w msg hs =
     (if hs_closed hs then (Some SClosed, hs)
      else if hs_deadline hs < now then (Some SDeadline, hs)
      else (case write_frame w msg (hs_stream hs) of (r, raw) \<Rightarrow> (r, hs\<lparr>hs_stream := raw\<rparr>)))"

definition hs_Receive :: "time_ns \<Rightarrow> read_event \<Rightarrow> HandshakeStream \<Rightarrow> (stream_err, bytes) result" where
  "hs_Receive now ev hs =
     (if hs_closed hs then Inl SClosed
      else if hs_deadline hs < now then Inl SDeadline
      else case ev of
        RMsg m \<Rightarrow> Inr m
      | REOF \<Rightarrow> Inl SEOF
      | RErr e \<Rightarrow> Inl (SRead e)
      | RNone \<Rightarrow> Inl SNoMessage)"

text \<open>\<open>e\<close> is the error of resetting the raw stream.\<close>

definition hs_Close :: "stream_err option \<Rightarrow> HandshakeStream \<Rightarrow> stream_err option \<times> HandshakeStream" where
  "hs_Close e hs =
     (if hs_closed hs then (None, hs)
      else (e, hs\<lparr>hs_closed := True, hs_stream := (hs_stream hs)\<lparr>raw_closed := True\<rparr>\<rparr>))"

definition hs_CloseWrite :: "stream_err option \<Rightarrow> HandshakeStream \<Rightarrow> stream_err option" where
  "hs_CloseWrite e hs = (if hs_closed hs then Some SClosed else e)"

definition TimeRemaining :: "time_ns \<Rightarrow> HandshakeStream \<Rightarrow> duration" where
  "TimeRemaining now hs = (let remaining = hs_deadline hs - now in if remaining < 0 then 0 else remaining)"

section \<open>Lemmas\<close>

definition es_open :: "EncryptedStream \<Rightarrow> bytes \<Rightarrow> bool" where
  "es_open es k \<longleftrightarrow> \<not> es_closed es \<and> \<not> es_cancelled es \<and> c_aead (es_cipher es) = Some k \<and> \<not> c_closed (es_cipher es)"

definition es_message :: "EncryptedStream \<Rightarrow> time_ns \<Rightarrow> bytes \<Rightarrow> IncomingMessage" where
  "es_message es now d = \<lparr>im_PeerID = es_peerID es, im_StreamName = es_name es, im_Data = d, im_Timestamp = now\<rparr>"

text \<open>The frame of a plaintext under a key and a nonce.\<close>

definition frame_of :: "prims \<Rightarrow> bytes \<Rightarrow> bytes \<Rightarrow> bytes \<Rightarrow> bytes" where
  "frame_of pr k n d = n @ aead_Seal pr k n d []"

lemma frame_length:
  "aead_correct pr \<Longrightarrow> length n = NonceSize \<Longrightarrow> length (frame_of pr k n d) = length d + 28"
  by (simp add: frame_of_def aead_correct_def NonceSize_def TagSize_def)

lemma es_Send_frame:
  assumes "aead_correct pr" and "es_open es k" and "length n = NonceSize"
  shows "es_Send pr (Some n) WriteOk d es =
     (None, es\<lparr>es_stream := (es_stream es)\<lparr>frames := frames (es_stream es) @ [frame_of pr k n d]\<rparr>\<rparr>)"
proof -
  have "Cipher_Encrypt pr (Some n) (es_cipher es) d [] = Inr (frame_of pr k n d)"
    using Cipher_Encrypt_seal [OF assms(1), of "es_cipher es" k n d "[]"] assms(2,3)
    by (simp add: es_open_def frame_of_def)
  then show ?thesis using assms(2) by (simp add: es_Send_def es_SendCtx_def write_frame_def es_open_def)
qed

lemma es_open_stream [simp]: "es_open (es\<lparr>es_stream := raw\<rparr>) k = es_open es k"
  by (simp add: es_open_def)

lemma Decrypt_frame:
  assumes "aead_correct pr" and "c_aead c = Some k" and "\<not> c_closed c" and "length n = NonceSize"
  shows "Cipher_Decrypt pr c (frame_of pr k n d) [] = Inr d"
  using assms by (simp add: Cipher_Decrypt_def frame_of_def aead_correct_def)

lemma es_read_frame:
  assumes "aead_correct pr" and "es_open es k" and "length n = NonceSize" and "\<not> cclosed ch"
    and "MaxMessageSize (es_config es) = 0 \<or> length d + 28 \<le> MaxMessageSize (es_config es)"
  shows "rd_continue (es_read_step pr now False (RMsg (frame_of pr k n d)) es ch) \<and>
     rd_stream (es_read_step pr now False (RMsg (frame_of pr k n d)) es ch) = es \<and>
     rd_incoming (es_read_step pr now False (RMsg (frame_of pr k n d)) es ch) = chan_offer (es_message es now d) ch"
proof -
  have "Cipher_Decrypt pr (es_cipher es) (frame_of pr k n d) [] = Inr d"
    using Decrypt_frame [OF assms(1) _ _ assms(3)] assms(2) by (simp add: es_open_def)
  then show ?thesis
    using assms(2,4,5) frame_length [OF assms(1,3), of k d]
    by (auto simp: es_read_step_def es_open_def es_message_def chan_try_send_open Let_def
        split: bool.splits)
qed

lemma es_readLoop_frames:
  assumes "aead_correct pr" and "es_open es k" and "\<not> cclosed ch"
    and "\<forall>(n, d) \<in> set nds. length n = NonceSize \<and>
           (MaxMessageSize (es_config es) = 0 \<or> length d + 28 \<le> MaxMessageSize (es_config es))"
  shows "rd_continue (es_readLoop pr now (map (\<lambda>(n, d). (False, RMsg (frame_of pr k n d))) nds) es ch) \<and>
     rd_stream (es_readLoop pr now (map (\<lambda>(n, d). (False, RMsg (frame_of pr k n d))) nds) es ch) = es \<and>
     rd_incoming (es_readLoop pr now (map (\<lambda>(n, d). (False, RMsg (frame_of pr k n d))) nds) es ch) =
       fold chan_offer (map (\<lambda>(n, d). es_message es now d) nds) ch"
  using assms(3,4)
proof (induction nds arbitrary: ch)
  case (Cons nd nds)
  obtain n d where nd: "nd = (n, d)" by fastforce
  have "\<not> cclosed (chan_offer (es_message es now d) ch)"
    using Cons.prems(1) by (rule chq.offer_accepting)
  then show ?case
    using Cons.IH [of "chan_offer (es_message es now d) ch"] Cons.prems
      es_read_frame [OF assms(1,2), of n ch d now]
    by (simp add: nd Let_def)
qed simp

definition send_all :: "prims \<Rightarrow> (bytes \<times> bytes) list \<Rightarrow> EncryptedStream \<Rightarrow> EncryptedStream" where
  "send_all pr nds es = fold (\<lambda>(n, d) es. snd (es_Send pr (Some n) WriteOk d es)) nds es"

lemma send_all_frames:
  assumes "aead_correct pr" and "es_open es k" and "\<forall>(n, d) \<in> set nds. length n = NonceSize"
  shows "frames (es_stream (send_all pr nds es)) =
     frames (es_stream es) @ map (\<lambda>(n, d). frame_of pr k n d) nds"
  using assms(2,3)
proof (induction nds arbitrary: es)
  case (Cons nd nds)
  then show ?case by (cases nd) (simp add: send_all_def es_Send_frame [OF assms(1)])
qed (simp add: send_all_def)

lemma frames_delivered:
  assumes "aead_correct pr" and "es_open sender k" and "es_open receiver k"
    and "\<forall>(n, d) \<in> set nds. length n = NonceSize \<and>
           (MaxMessageSize (es_config receiver) = 0 \<or> length d + 28 \<le> MaxMessageSize (es_config receiver))"
    and "frames (es_stream sender) = []" and "\<not> cclosed ch" and "length (cbuf ch) \<le> ccap ch"
  shows "let r = es_readLoop pr now (map (\<lambda>f. (False, RMsg f)) (frames (es_stream (send_all pr nds sender)))) receiver ch
         in cbuf (rd_incoming r) = take (ccap ch) (cbuf ch @ map (\<lambda>(n, d). es_message receiver now d) nds) \<and>
            rd_continue r \<and> rd_stream r = receiver"
proof -
  have "\<forall>(n, d) \<in> set nds. length n = NonceSize" using assms(4) by auto
  then have fr: "frames (es_stream (send_all pr nds sender)) = map (\<lambda>(n, d). frame_of pr k n d) nds"
    using send_all_frames [OF assms(1,2)] assms(5) by simp
  have evs: "map (\<lambda>f. (False, RMsg f)) (frames (es_stream (send_all pr nds sender))) =
      map (\<lambda>(n, d). (False, RMsg (frame_of pr k n d))) nds" unfolding fr by auto
  show ?thesis unfolding evs Let_def
    using es_readLoop_frames [OF assms(1,3,6,4), of now]
      chq.offer_all_contents [of ch "map (\<lambda>(n, d). es_message receiver now d) nds"] assms(6,7)
    by simp
qed

text \<open>The stream's \<^verbatim>\<open>Close\<close> is a lasting close; the loops and the senders keep it.\<close>

inductive es_step :: "prims \<Rightarrow> EncryptedStream \<times> mem \<Rightarrow> nat \<Rightarrow> EncryptedStream \<times> mem \<Rightarrow> bool" for pr where
  ess_send: "es_SendCtx pr nonce w c d es = (r, es') \<Longrightarrow> es_step pr (es, h) 0 (es', h)"
| ess_read: "es_step pr (es, h) 1 (rd_stream (es_read_step pr now late ev es ch), h)"
| ess_mark: "es_step pr (es, h) 2 (es_markClosed e es, h)"
| ess_close: "es_step pr (es, h) 3 (snd (es_Close e (es, h)))"
| ess_mem: "es_step pr (es, h) 4 (es, h')"

lemma es_step_closed: "es_step pr s l s' \<Longrightarrow> es_closed (fst s) \<Longrightarrow> es_closed (fst s')"
  by (induction rule: es_step.induct)
    (auto simp: es_SendCtx_def es_read_step_def es_markClosed_def es_Close_def Let_def
      split: if_splits option.splits sum.splits prod.splits read_event.splits bool.splits)

interpretation estream: closable "\<lambda>s. True" "\<lambda>s. es_closed (fst s)" "\<lambda>s. Some (snd (es_Close e s))" "es_step pr"
  by unfold_locales (auto simp: es_Close_def es_step_closed split: prod.splits)

section \<open>Properties\<close>

text \<open>
  Property C11: End-to-end delivery. Two ends of a stream that share a key, both open: when the sender's writes succeed and the frames arrive, the
  reader puts into the incoming channel exactly the sent plaintexts, in order, labelled with the peer and the
  stream, as many as the channel has room for; it stays open and nothing else enters the channel.
\<close>

theorem encrypted_stream_delivers:
  assumes "aead_correct pr" and "es_open sender k" and "es_open receiver k"
    and "\<forall>(n, d) \<in> set nds. length n = NonceSize \<and>
           (MaxMessageSize (es_config receiver) = 0 \<or> length d + 28 \<le> MaxMessageSize (es_config receiver))"
    and "frames (es_stream sender) = []" and "\<not> cclosed ch" and "length (cbuf ch) \<le> ccap ch"
  shows "let r = es_readLoop pr now (map (\<lambda>f. (False, RMsg f)) (frames (es_stream (send_all pr nds sender)))) receiver ch
         in cbuf (rd_incoming r) = take (ccap ch) (cbuf ch @ map (\<lambda>(n, d). es_message receiver now d) nds) \<and>
            rd_continue r \<and> rd_stream r = receiver"
  using assms by (rule frames_delivered)

text \<open>
  Property C12: Only authentic frames are delivered. If a round of the read loop puts a message into the incoming channel, the
  frame was within the size limit and is the sealed form, under the stream's key and the frame's own nonce, of exactly the
  delivered data; every other frame is reported or dropped and the loop goes on.
\<close>

theorem delivered_only_if_authentic:
  assumes "aead_correct pr" and "aead_unforgeable_form pr" and "c_aead (es_cipher es) = Some k"
    and "es_read_step pr now late (RMsg f) es ch = r"
  shows "(rd_incoming r \<noteq> ch \<longrightarrow>
            (\<exists>n d. length n = NonceSize \<and> f = frame_of pr k n d \<and>
               cbuf (rd_incoming r) = cbuf ch @ [es_message es now d]) \<and>
            (MaxMessageSize (es_config es) = 0 \<or> length f \<le> MaxMessageSize (es_config es))) \<and>
         (\<not> es_cancelled es \<and> (\<nexists>n d. length n = NonceSize \<and> f = frame_of pr k n d) \<longrightarrow>
            rd_incoming r = ch \<and> rd_continue r \<and> rd_stream r = es)"
proof -
  have auth: "\<exists>n. length n = NonceSize \<and> f = frame_of pr k n d"
    if "Cipher_Decrypt pr (es_cipher es) f [] = Inr d" for d
  proof -
    have open': "\<not> c_closed (es_cipher es)"
      using that by (auto simp: Cipher_Decrypt_def split: if_splits)
    have "Cipher_Encrypt pr (Some (take NonceSize f)) (es_cipher es) d [] = Inr f"
      using Cipher_Decrypt_iff [OF assms(1-3) open'] that by blast
    then show ?thesis
      using Cipher_Encrypt_seal [OF assms(1,3) open'] by (metis frame_of_def)
  qed
  show ?thesis
    using assms(4) auth
    by (auto simp: es_read_step_def es_message_def chan_try_send_def Let_def
        split: if_splits sum.splits option.splits bool.splits)
qed

text \<open>
  Closing an open stream zeroes its copy of the key, closes the raw stream and stops the read loop, and it
  stays closed: no later operation reopens it, sending fails and closing again does nothing.
\<close>

theorem encrypted_stream_close:
  assumes "\<not> es_closed es" and "c_key (es_cipher es) = Some a" and "\<not> c_closed (es_cipher es)" and "a < length h"
    and "es_Close e (es, h) = (r, es', h')" and "runs (es_step pr) (es', h') ls (es'', h'')"
  shows "r = e \<and> zeroed h' a \<and> raw_closed (es_stream es') \<and> es_cancelled es' \<and>
         es_closed es'' \<and> es_Close e (es'', h'') = (es_closeErr es'', es'', h'') \<and>
         fst (es_Send pr nonce w d es'') = Some SClosed"
proof -
  have "Some (snd (es_Close e (es, h))) = Some (es', h')" using assms(5) by simp
  from estream.closed_forever [OF TrueI this assms(6)] have "es_closed es''" by simp
  then show ?thesis
    using assms(1-5)
    by (auto simp: es_Close_def Cipher_Close_def SecureZero_zeroed es_Send_def es_SendCtx_def)
qed

text \<open>
  After the read loop has ended, \<^verbatim>\<open>Close\<close> does not zero the key. When the remote side ends the stream, the loop
  marks the stream as closed; from then on \<^verbatim>\<open>Close\<close> returns at once: the cipher keeps its key, its copy in
  memory is not zeroed and the raw stream is not closed.
\<close>

theorem close_after_remote_end_keeps_key:
  assumes "es_open es k" and "es_readLoop pr now [(late, REOF)] es ch = r"
  shows "es_Close e (rd_stream r, h) = (None, rd_stream r, h) \<and> c_aead (es_cipher (rd_stream r)) = Some k \<and>
         es_stream (rd_stream r) = es_stream es"
  using assms by (auto simp: es_read_step_def es_markClosed_def es_Close_def es_open_def)

text \<open>
  The handshake stream obeys its deadline: after it, or once closed, nothing is written and nothing
  received, and the remaining time is positive exactly before the deadline.
\<close>

theorem handshake_stream_deadline:
  assumes "hs = NewHandshakeStream t0 raw timeout"
  shows "(t0 + timeout < now \<longrightarrow> hs_Send now w m hs = (Some SDeadline, hs) \<and> hs_Receive now ev hs = Inl SDeadline) \<and>
         (now \<le> t0 + timeout \<longrightarrow> hs_Send now WriteOk m hs =
            (None, hs\<lparr>hs_stream := raw\<lparr>frames := frames raw @ [m]\<rparr>\<rparr>) \<and> hs_Receive now (RMsg m) hs = Inr m) \<and>
         (0 < TimeRemaining now hs \<longleftrightarrow> now < t0 + timeout) \<and>
         (\<exists>hs'. hs_Close e hs = (e, hs') \<and> hs_Close e' hs' = (None, hs') \<and> hs_Send now w m hs' = (Some SClosed, hs'))"
  using assms
  by (auto simp: NewHandshakeStream_def hs_Send_def hs_Receive_def hs_Close_def TimeRemaining_def write_frame_def Let_def)

section \<open>Concrete inputs\<close>

definition toy_stream :: EncryptedStream where
  "toy_stream =
     \<lparr>es_name = ''chat'', es_peerID = ''p'', es_stream = \<lparr>frames = [], raw_closed = False\<rparr>, es_sharedKey = 0,
      es_cipher = \<lparr>c_aead = Some (replicate 32 9), c_key = Some 1, c_closed = False\<rparr>,
      es_config = \<lparr>OnDecryptionError = True, OnOversizedMessage = True, OnMessageDropped = True, MaxMessageSize = 100\<rparr>,
      es_cancelled = False, es_closed = False, es_closeErr = None\<rparr>"

lemma toy_stream_open: "es_open toy_stream (replicate 32 9)"
  by (simp add: es_open_def toy_stream_def)

theorem encrypted_stream_delivers_witness:
  "cbuf (rd_incoming (es_readLoop toy_prims 5
      (map (\<lambda>f. (False, RMsg f)) (frames (es_stream (send_all toy_prims [(replicate 12 1, [4, 2])] toy_stream))))
      toy_stream (make_chan 3))) = [es_message toy_stream 5 [4, 2]]"
proof -
  have cfg: "\<forall>(n, d) \<in> set [(replicate 12 1, [4, 2])]. length n = NonceSize \<and>
      (MaxMessageSize (es_config toy_stream) = 0 \<or> length d + 28 \<le> MaxMessageSize (es_config toy_stream))"
    by (simp add: NonceSize_def toy_stream_def)
  from encrypted_stream_delivers [OF toy_aead(1) toy_stream_open toy_stream_open cfg, of "make_chan 3" 5]
  show ?thesis by (simp add: Let_def make_chan_def) (simp add: toy_stream_def)
qed

theorem delivered_only_if_authentic_witness:
  "rd_incoming (es_read_step toy_prims 5 False (RMsg [1, 2, 3]) toy_stream (make_chan 3)) = make_chan 3"
proof -
  have "\<nexists>n d. length n = NonceSize \<and> [1, 2, 3] = frame_of toy_prims (replicate 32 9) n d"
    by (auto simp: NonceSize_def frame_of_def toy_prims_def dest!: arg_cong [of _ _ length])
  moreover have "c_aead (es_cipher toy_stream) = Some (replicate 32 9)" "\<not> es_cancelled toy_stream"
    by (simp_all add: toy_stream_def)
  ultimately show ?thesis
    using delivered_only_if_authentic [OF toy_aead, of toy_stream "replicate 32 9" 5 False "[1, 2, 3]" "make_chan 3"]
    by blast
qed

theorem encrypted_stream_close_witness:
  "\<exists>es' h'. es_Close None (toy_stream, [[], replicate 32 9]) = (None, es', h') \<and> zeroed h' 1"
proof -
  obtain r es' h' where c: "es_Close None (toy_stream, [[], replicate 32 9]) = (r, es', h')"
    by (metis prod_cases3)
  from encrypted_stream_close [OF _ _ _ _ c runs_nil, of 1 toy_prims None WriteOk "[]"] c show ?thesis
    by (auto simp: toy_stream_def)
qed

theorem close_after_remote_end_keeps_key_witness:
  "c_aead (es_cipher (rd_stream (es_readLoop toy_prims 5 [(False, REOF)] toy_stream (make_chan 3)))) =
     Some (replicate 32 9)"
  using close_after_remote_end_keeps_key [OF toy_stream_open refl] by blast

theorem handshake_stream_deadline_witness:
  "fst (hs_Send 31 WriteOk [1] (NewHandshakeStream 0 \<lparr>frames = [], raw_closed = False\<rparr> 30)) = Some SDeadline"
  using handshake_stream_deadline [OF refl, of 0 30 31 WriteOk "[1]"] by simp

end
