(* ===== verification/StreamManager.thy ===== *)
theory StreamManager
  imports Streams
begin

text \<open>
  The stream manager (\<^verbatim>\<open>src/pkg/streams/manager.go\<close>): which streams a peer may use, the shared key of each
  peer, and the streams that are opened lazily on the first send or accepted from the remote side. Stream objects
  live in stores indexed by number, keys in the buffer store of the crypto module. Opening a stream
  releases the manager's lock during the network call, so it is two critical sections.
\<close>

section \<open>State\<close>

datatype sm_err =
    SMCtx ctx_err | SMNoNames | SMDerive crypto_err | SMNotAllowed string | SMNoKey | SMOpen string
  | SMCipher crypto_err | SMStream stream_err | SMExists string

record smgr =
  sm_module :: Module
  sm_mem :: mem
  sm_streams :: "peer_id \<rightharpoonup> (string \<rightharpoonup> nat)"
  sm_unenc :: "peer_id \<rightharpoonup> (string \<rightharpoonup> nat)"
  sm_allowed :: "peer_id \<rightharpoonup> (string \<Rightarrow> bool)"
  sm_keys :: "peer_id \<rightharpoonup> nat"
  sm_config :: EncryptedStreamConfig
  sm_incoming :: "IncomingMessage channel"
  sm_cancelled :: bool
  encs :: "nat \<Rightarrow> EncryptedStream"
  nencs :: nat
  uncs :: "nat \<Rightarrow> UnencryptedStream"
  nuncs :: nat

definition dummy_stream :: EncryptedStream where
  "dummy_stream =
     \<lparr>es_name = '''', es_peerID = '''', es_stream = \<lparr>frames = [], raw_closed = True\<rparr>, es_sharedKey = 0,
      es_cipher = \<lparr>c_aead = None, c_key = None, c_closed = True\<rparr>,
      es_config = \<lparr>OnDecryptionError = False, OnOversizedMessage = False, OnMessageDropped = False, MaxMessageSize = 0\<rparr>,
      es_cancelled = True, es_closed = True, es_closeErr = None\<rparr>"

definition NewStreamManager :: "Module \<Rightarrow> mem \<Rightarrow> IncomingMessage channel \<Rightarrow> smgr" where
  "NewStreamManager md h ch =
     \<lparr>sm_module = md, sm_mem = h, sm_streams = Map.empty, sm_unenc = Map.empty, sm_allowed = Map.empty,
      sm_keys = Map.empty,
      sm_config = \<lparr>OnDecryptionError = False, OnOversizedMessage = False, OnMessageDropped = False, MaxMessageSize = 0\<rparr>,
      sm_incoming = ch, sm_cancelled = False, encs = (\<lambda>r. dummy_stream), nencs = 0,
      uncs = (\<lambda>r. NewUnencryptedStream '''' '''' \<lparr>frames = [], raw_closed = True\<rparr>), nuncs = 0\<rparr>"

text \<open>The setters of the callbacks and of the size limit.\<close>

definition SetDecryptionErrorCallback :: "bool \<Rightarrow> smgr \<Rightarrow> smgr" where
  "SetDecryptionErrorCallback cb m = m\<lparr>sm_config := (sm_config m)\<lparr>OnDecryptionError := cb\<rparr>\<rparr>"

definition SetOversizedMessageCallback :: "bool \<Rightarrow> smgr \<Rightarrow> smgr" where
  "SetOversizedMessageCallback cb m = m\<lparr>sm_config := (sm_config m)\<lparr>OnOversizedMessage := cb\<rparr>\<rparr>"

definition SetMessageDroppedCallback :: "bool \<Rightarrow> smgr \<Rightarrow> smgr" where
  "SetMessageDroppedCallback cb m = m\<lparr>sm_config := (sm_config m)\<lparr>OnMessageDropped := cb\<rparr>\<rparr>"

definition SetMaxMessageSize :: "nat \<Rightarrow> smgr \<Rightarrow> smgr" where
  "SetMaxMessageSize n m = m\<lparr>sm_config := (sm_config m)\<lparr>MaxMessageSize := n\<rparr>\<rparr>"

section \<open>Lookups\<close>

definition GetStream :: "smgr \<Rightarrow> peer_id \<Rightarrow> string \<Rightarrow> nat option" where
  "GetStream m p name = (case sm_streams m p of None \<Rightarrow> None | Some ss \<Rightarrow> ss name)"

definition get_unenc :: "smgr \<Rightarrow> peer_id \<Rightarrow> string \<Rightarrow> nat option" where
  "get_unenc m p name = (case sm_unenc m p of None \<Rightarrow> None | Some ss \<Rightarrow> ss name)"

definition is_allowed :: "smgr \<Rightarrow> peer_id \<Rightarrow> string \<Rightarrow> bool" where
  "is_allowed m p name = (case sm_allowed m p of None \<Rightarrow> False | Some al \<Rightarrow> al name)"

definition HasStreams :: "smgr \<Rightarrow> peer_id \<Rightarrow> bool" where
  "HasStreams m p = (case sm_streams m p of None \<Rightarrow> False | Some ss \<Rightarrow> dom ss \<noteq> {})"

text \<open>\<open>names\<close> is the order in which the map is visited.\<close>

definition ListStreams :: "string list \<Rightarrow> smgr \<Rightarrow> peer_id \<Rightarrow> string list" where
  "ListStreams names m p = (case sm_streams m p of None \<Rightarrow> [] | Some ss \<Rightarrow> names)"

section \<open>Operations\<close>

definition EstablishStreams :: "prims \<Rightarrow> peer_id \<Rightarrow> bytes option \<Rightarrow> string list \<Rightarrow> smgr \<Rightarrow> sm_err option \<times> smgr" where
  "EstablishStreams pr p pub names m =
     (if length names = 0 then (Some SMNoNames, m)
      else case Module_DeriveSharedKey pr pub (sm_module m, sm_mem m) of
        (Inl e, md, h) \<Rightarrow> (Some (SMDerive e), m\<lparr>sm_module := md, sm_mem := h\<rparr>)
      | (Inr ka, md, h) \<Rightarrow>
          let ss = (case sm_streams m p of None \<Rightarrow> Map.empty | Some ss \<Rightarrow> ss);
              al = (case sm_allowed m p of None \<Rightarrow> (\<lambda>n. False) | Some al \<Rightarrow> al)
          in (None, m\<lparr>sm_module := md, sm_mem := h, sm_keys := (sm_keys m)(p \<mapsto> ka),
                      sm_streams := (sm_streams m)(p \<mapsto> ss),
                      sm_allowed := (sm_allowed m)(p \<mapsto> (\<lambda>n. al n \<or> n \<in> set names))\<rparr>))"

text \<open>A context from a later poll on.\<close>

definition ctx_after :: "nat \<Rightarrow> ctx \<Rightarrow> ctx" where
  "ctx_after n c = c\<lparr>done_at := map_option (\<lambda>k. k - n) (done_at c)\<rparr>"

text \<open>
  The first section of \<^verbatim>\<open>openStreamLazilyCtx\<close>: an existing stream, or the key buffer to use. The code
  keeps a reference to the manager's key buffer.
\<close>

datatype open_plan = UseStream nat | OpenWithKey nat EncryptedStreamConfig

definition open_lock1 :: "ctx \<Rightarrow> peer_id \<Rightarrow> string \<Rightarrow> smgr \<Rightarrow> (sm_err, open_plan) result" where
  "open_lock1 c p name m =
     (if ctx_Done c 0 then Inl (SMCtx (ctxErr c))
      else case GetStream m p name of
        Some r \<Rightarrow>
          if \<not> es_closed (encs m r) then Inr (UseStream r)
          else if \<not> is_allowed m p name then Inl (SMNotAllowed name)
          else (case sm_keys m p of
                  None \<Rightarrow> Inl SMNoKey
                | Some ka \<Rightarrow> if ctx_Done c 1 then Inl (SMCtx (ctxErr c)) else Inr (OpenWithKey ka (sm_config m)))
      | None \<Rightarrow>
          if \<not> is_allowed m p name then Inl (SMNotAllowed name)
          else (case sm_keys m p of
                  None \<Rightarrow> Inl SMNoKey
                | Some ka \<Rightarrow> if ctx_Done c 1 then Inl (SMCtx (ctxErr c)) else Inr (OpenWithKey ka (sm_config m))))"

text \<open>\<^verbatim>\<open>Close\<close> of the stream object at a reference; \<open>ce\<close> gives the error of closing its raw stream.\<close>

definition close_enc :: "(nat \<Rightarrow> stream_err option) \<Rightarrow> nat \<Rightarrow> smgr \<Rightarrow> stream_err option \<times> smgr" where
  "close_enc ce r m =
     (case es_Close (ce r) (encs m r, sm_mem m) of
        (e, es, h) \<Rightarrow> (e, m\<lparr>encs := (encs m)(r := es), sm_mem := h\<rparr>))"

definition close_unc :: "(nat \<Rightarrow> stream_err option) \<Rightarrow> nat \<Rightarrow> smgr \<Rightarrow> stream_err option \<times> smgr" where
  "close_unc ce r m =
     (case us_Close (ce r) (uncs m r) of (e, us) \<Rightarrow> (e, m\<lparr>uncs := (uncs m)(r := us)\<rparr>))"

text \<open>A new stream's context is a child of the manager's.\<close>

definition alloc_enc :: "EncryptedStream \<Rightarrow> smgr \<Rightarrow> nat \<times> smgr" where
  "alloc_enc es m = (nencs m, m\<lparr>encs := (encs m)(nencs m := es\<lparr>es_cancelled := sm_cancelled m\<rparr>), nencs := Suc (nencs m)\<rparr>)"

definition put_stream :: "peer_id \<Rightarrow> string \<Rightarrow> nat \<Rightarrow> smgr \<Rightarrow> smgr" where
  "put_stream p name r m =
     m\<lparr>sm_streams := (sm_streams m)(p \<mapsto>
         (case sm_streams m p of None \<Rightarrow> Map.empty | Some ss \<Rightarrow> ss)(name \<mapsto> r))\<rparr>"

text \<open>The second section, for the stream object that has just been made.\<close>

definition open_lock2 :: "(nat \<Rightarrow> stream_err option) \<Rightarrow> peer_id \<Rightarrow> string \<Rightarrow> nat \<Rightarrow> smgr \<Rightarrow> nat \<times> smgr" where
  "open_lock2 ce p name r m =
     (case GetStream m p name of
        Some r' \<Rightarrow> if \<not> es_closed (encs m r') then (r', snd (close_enc ce r m)) else (r, put_stream p name r m)
      | None \<Rightarrow> (r, put_stream p name r m))"

text \<open>Between the sections: \<^verbatim>\<open>host.NewStream\<close> (\<open>ns\<close> is its result) and the encrypted stream.\<close>

definition open_make :: "(string, raw_stream) result \<Rightarrow> peer_id \<Rightarrow> string \<Rightarrow> nat \<Rightarrow> EncryptedStreamConfig \<Rightarrow> smgr \<Rightarrow>
    (sm_err, nat) result \<times> smgr" where
  "open_make ns p name ka cfg m =
     (case ns of
        Inl e \<Rightarrow> (Inl (SMOpen e), m)
      | Inr raw \<Rightarrow>
          (case NewEncryptedStream name p raw ka cfg (sm_mem m) of
             (Inl e, h) \<Rightarrow> (Inl (SMCipher e), m\<lparr>sm_mem := h\<rparr>)
           | (Inr es, h) \<Rightarrow> (case alloc_enc es (m\<lparr>sm_mem := h\<rparr>) of (r, m') \<Rightarrow> (Inr r, m'))))"

definition openStreamLazilyCtx :: "(nat \<Rightarrow> stream_err option) \<Rightarrow> (string, raw_stream) result \<Rightarrow> ctx \<Rightarrow> peer_id \<Rightarrow> string \<Rightarrow> smgr \<Rightarrow>
    (sm_err, nat) result \<times> smgr" where
  "openStreamLazilyCtx ce ns c p name m =
     (case open_lock1 c p name m of
        Inl e \<Rightarrow> (Inl e, m)
      | Inr (UseStream r) \<Rightarrow> (Inr r, m)
      | Inr (OpenWithKey ka cfg) \<Rightarrow>
          (case open_make ns p name ka cfg m of
             (Inl e, m1) \<Rightarrow> (Inl e, m1)
           | (Inr r, m1) \<Rightarrow> (case open_lock2 ce p name r m1 of (r', m2) \<Rightarrow> (Inr r', m2))))"

definition send_enc :: "prims \<Rightarrow> bytes option \<Rightarrow> write_result \<Rightarrow> ctx \<Rightarrow> bytes \<Rightarrow> nat \<Rightarrow> smgr \<Rightarrow> sm_err option \<times> smgr" where
  "send_enc pr nonce w c data r m =
     (case es_SendCtx pr nonce w c data (encs m r) of
        (e, es) \<Rightarrow> (map_option SMStream e, m\<lparr>encs := (encs m)(r := es)\<rparr>))"

definition send_unc :: "write_result \<Rightarrow> ctx \<Rightarrow> bytes \<Rightarrow> nat \<Rightarrow> smgr \<Rightarrow> sm_err option \<times> smgr" where
  "send_unc w c data r m =
     (case us_SendCtx w c data (uncs m r) of
        (e, us) \<Rightarrow> (map_option SMStream e, m\<lparr>uncs := (uncs m)(r := us)\<rparr>))"

definition put_unenc :: "peer_id \<Rightarrow> string \<Rightarrow> nat \<Rightarrow> smgr \<Rightarrow> smgr" where
  "put_unenc p name r m =
     m\<lparr>sm_unenc := (sm_unenc m)(p \<mapsto>
         (case sm_unenc m p of None \<Rightarrow> Map.empty | Some ss \<Rightarrow> ss)(name \<mapsto> r))\<rparr>"

definition alloc_unc :: "UnencryptedStream \<Rightarrow> smgr \<Rightarrow> nat \<times> smgr" where
  "alloc_unc us m = (nuncs m, m\<lparr>uncs := (uncs m)(nuncs m := us\<lparr>us_cancelled := sm_cancelled m\<rparr>), nuncs := Suc (nuncs m)\<rparr>)"

definition openUnencryptedStreamLazilyCtx :: "(nat \<Rightarrow> stream_err option) \<Rightarrow> (string, raw_stream) result \<Rightarrow> ctx \<Rightarrow> peer_id \<Rightarrow> string \<Rightarrow>
    smgr \<Rightarrow> (sm_err, nat) result \<times> smgr" where
  "openUnencryptedStreamLazilyCtx ce ns c p name m =
     (if ctx_Done c 0 then (Inl (SMCtx (ctxErr c)), m)
      else
        let existing = (case get_unenc m p name of None \<Rightarrow> None
                        | Some r \<Rightarrow> if \<not> us_closed (uncs m r) then Some r else None) in
        (case existing of
           Some r \<Rightarrow> (Inr r, m)
         | None \<Rightarrow>
             if ctx_Done c 1 then (Inl (SMCtx (ctxErr c)), m)
             else (case ns of
                     Inl e \<Rightarrow> (Inl (SMOpen e), m)
                   | Inr raw \<Rightarrow>
                       (case alloc_unc (SetOnMessageDropped (OnMessageDropped (sm_config m))
                                          (NewUnencryptedStream name p raw)) m of
                          (r, m1) \<Rightarrow>
                            (case get_unenc m1 p name of
                               Some r' \<Rightarrow>
                                 if \<not> us_closed (uncs m1 r') then (Inr r', snd (close_unc ce r m1))
                                 else (Inr r, put_unenc p name r m1)
                             | None \<Rightarrow> (Inr r, put_unenc p name r m1))))))"

definition sendUnencryptedCtx :: "write_result \<Rightarrow> (string, raw_stream) result \<Rightarrow> ctx \<Rightarrow> peer_id \<Rightarrow> string \<Rightarrow> bytes \<Rightarrow> smgr \<Rightarrow>
    sm_err option \<times> smgr" where
  "sendUnencryptedCtx w ns c p name data m =
     (if ctx_Done c 0 then (Some (SMCtx (ctxErr c)), m)
      else case get_unenc m p name of
        Some r \<Rightarrow>
          if \<not> us_closed (uncs m r) then send_unc w (ctx_after 1 c) data r m
          else (case openUnencryptedStreamLazilyCtx (\<lambda>r. None) ns (ctx_after 1 c) p name m of
                  (Inl e, m1) \<Rightarrow> (Some e, m1)
                | (Inr r', m1) \<Rightarrow> send_unc w (ctx_after 3 c) data r' m1)
      | None \<Rightarrow>
          (case openUnencryptedStreamLazilyCtx (\<lambda>r. None) ns (ctx_after 1 c) p name m of
             (Inl e, m1) \<Rightarrow> (Some e, m1)
           | (Inr r', m1) \<Rightarrow> send_unc w (ctx_after 3 c) data r' m1))"

definition sm_SendCtx :: "prims \<Rightarrow> bytes option \<Rightarrow> write_result \<Rightarrow> (string, raw_stream) result \<Rightarrow> ctx \<Rightarrow> peer_id \<Rightarrow> string \<Rightarrow>
    bytes \<Rightarrow> smgr \<Rightarrow> sm_err option \<times> smgr" where
  "sm_SendCtx pr nonce w ns c p name data m =
     (if ctx_Done c 0 then (Some (SMCtx (ctxErr c)), m)
      else if name = HandshakeStreamName then sendUnencryptedCtx w ns (ctx_after 1 c) p name data m
      else case GetStream m p name of
        Some r \<Rightarrow>
          if \<not> es_closed (encs m r) then send_enc pr nonce w (ctx_after 1 c) data r m
          else (case openStreamLazilyCtx (\<lambda>r. None) ns (ctx_after 1 c) p name m of
                  (Inl e, m1) \<Rightarrow> (Some e, m1)
                | (Inr r', m1) \<Rightarrow> send_enc pr nonce w (ctx_after 3 c) data r' m1)
      | None \<Rightarrow>
          (case openStreamLazilyCtx (\<lambda>r. None) ns (ctx_after 1 c) p name m of
             (Inl e, m1) \<Rightarrow> (Some e, m1)
           | (Inr r', m1) \<Rightarrow> send_enc pr nonce w (ctx_after 3 c) data r' m1))"

definition OpenHandshakeStream :: "peer_id \<Rightarrow> smgr \<Rightarrow> smgr" where
  "OpenHandshakeStream p m =
     (case sm_unenc m p of None \<Rightarrow> m\<lparr>sm_unenc := (sm_unenc m)(p \<mapsto> Map.empty)\<rparr> | Some ss \<Rightarrow> m)"

definition CloseHandshakeStream :: "(nat \<Rightarrow> stream_err option) \<Rightarrow> peer_id \<Rightarrow> smgr \<Rightarrow> stream_err option \<times> smgr" where
  "CloseHandshakeStream ce p m =
     (case sm_unenc m p of
        None \<Rightarrow> (None, m)
      | Some ss \<Rightarrow>
          (case ss HandshakeStreamName of
             None \<Rightarrow> (None, m)
           | Some r \<Rightarrow>
               (case close_unc ce r m of
                  (e, m1) \<Rightarrow> (e, m1\<lparr>sm_unenc := (sm_unenc m1)(p \<mapsto> ss(HandshakeStreamName := None))\<rparr>))))"

definition HandleIncomingHandshakeStream :: "peer_id \<Rightarrow> raw_stream \<Rightarrow> smgr \<Rightarrow> sm_err option \<times> smgr" where
  "HandleIncomingHandshakeStream p raw m =
     (let m0 = OpenHandshakeStream p m;
          busy = (case get_unenc m0 p HandshakeStreamName of None \<Rightarrow> False | Some r \<Rightarrow> \<not> us_closed (uncs m0 r)) in
      if busy then (Some (SMExists HandshakeStreamName), m0)
      else
        (case alloc_unc (SetOnMessageDropped (OnMessageDropped (sm_config m0))
                           (NewUnencryptedStream HandshakeStreamName p raw)) m0 of
           (r, m1) \<Rightarrow> (None, put_unenc p HandshakeStreamName r m1)))"

definition HandleIncomingStream :: "peer_id \<Rightarrow> string \<Rightarrow> raw_stream \<Rightarrow> smgr \<Rightarrow> sm_err option \<times> smgr" where
  "HandleIncomingStream p name raw m =
     (if \<not> is_allowed m p name then (Some (SMNotAllowed name), m)
      else case sm_keys m p of
        None \<Rightarrow> (Some SMNoKey, m)
      | Some ka \<Rightarrow>
          let m0 = (case sm_streams m p of None \<Rightarrow> m\<lparr>sm_streams := (sm_streams m)(p \<mapsto> Map.empty)\<rparr> | Some ss \<Rightarrow> m);
              busy = (case GetStream m0 p name of None \<Rightarrow> False | Some r \<Rightarrow> \<not> es_closed (encs m0 r)) in
          if busy then (Some (SMExists name), m0)
          else
            (case NewEncryptedStream name p raw ka (sm_config m0) (sm_mem m0) of
               (Inl e, h) \<Rightarrow> (Some (SMCipher e), m0\<lparr>sm_mem := h\<rparr>)
             | (Inr es, h) \<Rightarrow>
                 (case alloc_enc es (m0\<lparr>sm_mem := h\<rparr>) of (r, m1) \<Rightarrow> (None, put_stream p name r m1))))"

text \<open>
  The loops over the maps of streams close the objects in some order, and the last error wins.
\<close>

fun close_all :: "(nat \<Rightarrow> smgr \<Rightarrow> stream_err option \<times> smgr) \<Rightarrow> nat list \<Rightarrow> stream_err option \<times> smgr \<Rightarrow> stream_err option \<times> smgr" where
  "close_all f [] s = s"
| "close_all f (r # rs) (lastErr, m) =
     (case f r m of (e, m1) \<Rightarrow> close_all f rs (if e \<noteq> None then e else lastErr, m1))"

definition CloseStreams :: "(nat \<Rightarrow> stream_err option) \<Rightarrow> (nat \<Rightarrow> stream_err option) \<Rightarrow> nat list \<Rightarrow> nat list \<Rightarrow> peer_id \<Rightarrow> smgr \<Rightarrow>
    stream_err option \<times> smgr" where
  "CloseStreams ce cu rs us p m =
     (case close_all (close_enc ce) rs (None, m) of
        (e1, m1) \<Rightarrow>
          (case close_all (close_unc cu) us (e1, m1\<lparr>sm_streams := (sm_streams m1)(p := None)\<rparr>) of
             (e2, m2) \<Rightarrow>
               (e2, m2\<lparr>sm_unenc := (sm_unenc m2)(p := None), sm_allowed := (sm_allowed m2)(p := None),
                       sm_mem := (case sm_keys m2 p of None \<Rightarrow> sm_mem m2 | Some ka \<Rightarrow> SecureZero ka (sm_mem m2)),
                       sm_keys := (sm_keys m2)(p := None)\<rparr>)))"

text \<open>\<^verbatim>\<open>Shutdown\<close> cancels the context of all streams first; \<open>rs\<close>, \<open>us\<close> and \<open>ks\<close> list the values of the maps.\<close>

definition sm_Shutdown :: "(nat \<Rightarrow> stream_err option) \<Rightarrow> nat list \<Rightarrow> nat list \<Rightarrow> nat list \<Rightarrow> smgr \<Rightarrow> smgr" where
  "sm_Shutdown ce rs us ks m =
     (let m0 = m\<lparr>sm_cancelled := True, encs := (\<lambda>r. (encs m r)\<lparr>es_cancelled := True\<rparr>), uncs := (\<lambda>r. (uncs m r)\<lparr>us_cancelled := True\<rparr>)\<rparr>;
          m1 = snd (close_all (close_enc ce) rs (None, m0));
          m2 = snd (close_all (close_unc ce) us (None, m1))
      in m2\<lparr>sm_mem := fold SecureZero ks (sm_mem m2), sm_streams := Map.empty, sm_unenc := Map.empty,
            sm_allowed := Map.empty, sm_keys := Map.empty\<rparr>)"

section \<open>Lemmas\<close>

text \<open>A change of stream objects that keeps what the manager's maps rely on.\<close>

definition same_maps :: "smgr \<Rightarrow> smgr \<Rightarrow> bool" where
  "same_maps m m' \<longleftrightarrow>
     sm_streams m' = sm_streams m \<and> sm_unenc m' = sm_unenc m \<and> sm_allowed m' = sm_allowed m \<and>
     sm_keys m' = sm_keys m \<and> nencs m' = nencs m \<and> nuncs m' = nuncs m \<and> length (sm_mem m') = length (sm_mem m) \<and>
     (\<forall>a. zeroed (sm_mem m) a \<longrightarrow> zeroed (sm_mem m') a) \<and>
     (\<forall>a. length (sm_mem m' ! a) = length (sm_mem m ! a)) \<and>
     (\<forall>r. es_name (encs m' r) = es_name (encs m r) \<and> es_peerID (encs m' r) = es_peerID (encs m r) \<and>
          (es_closed (encs m r) \<longrightarrow> es_closed (encs m' r))) \<and>
     (\<forall>r. us_name (uncs m' r) = us_name (uncs m r) \<and> us_peerID (uncs m' r) = us_peerID (uncs m r))"

lemma same_maps_refl [simp]: "same_maps m m"
  by (simp add: same_maps_def)

lemma same_maps_trans: "same_maps m m' \<Longrightarrow> same_maps m' m'' \<Longrightarrow> same_maps m m''"
  by (simp add: same_maps_def)

lemma close_enc_same: "same_maps m (snd (close_enc ce r m))"
  by (auto simp: close_enc_def es_Close_def Cipher_Close_def same_maps_def SecureZero_keeps_zeroed
      split: prod.splits option.splits)

lemma close_unc_same: "same_maps m (snd (close_unc ce r m))"
  by (auto simp: close_unc_def us_Close_def same_maps_def)

lemma close_enc_closes: "es_closed (encs (snd (close_enc ce r m)) r)"
  by (auto simp: close_enc_def es_Close_def split: prod.splits)

lemma close_all_same:
  assumes "\<And>r m. same_maps m (snd (f r m))"
  shows "same_maps m (snd (close_all f rs (e, m)))"
proof (induction rs arbitrary: e m)
  case (Cons r rs)
  obtain e1 m1 where f: "f r m = (e1, m1)" by fastforce
  then have "same_maps m m1" using assms [of m r] by simp
  then show ?case using Cons same_maps_trans by (auto simp: f)
qed simp

lemma close_all_enc_closes: "r \<in> set rs \<Longrightarrow> es_closed (encs (snd (close_all (close_enc ce) rs (e, m))) r)"
proof (induction rs arbitrary: e m)
  case (Cons x rs)
  obtain e1 m1 where f: "close_enc ce x m = (e1, m1)" by fastforce
  show ?case
  proof (cases "r = x")
    case True
    then have "es_closed (encs m1 r)" using close_enc_closes [of ce x m] f by simp
    moreover have "same_maps m1 (snd (close_all (close_enc ce) rs (if e1 \<noteq> None then e1 else e, m1)))"
      by (rule close_all_same) (rule close_enc_same)
    ultimately show ?thesis by (simp add: f same_maps_def)
  next
    case False
    then show ?thesis using Cons by (simp add: f)
  qed
qed simp

lemma send_enc_same: "same_maps m (snd (send_enc pr nonce w c d r m))"
  by (auto simp: send_enc_def es_SendCtx_def same_maps_def split: prod.splits sum.splits)

lemma send_unc_same: "same_maps m (snd (send_unc w c d r m))"
  by (auto simp: send_unc_def us_SendCtx_def same_maps_def split: prod.splits)

section \<open>The invariant\<close>

text \<open>
  Every stream of the maps is an allocated object of that peer and that name; with \<open>st\<close>, an encrypted stream's
  name is moreover allowed for its peer, and the peer has a key.
\<close>

definition sm_inv :: "bool \<Rightarrow> smgr \<Rightarrow> bool" where
  "sm_inv st m \<longleftrightarrow>
     (\<forall>p n r. GetStream m p n = Some r \<longrightarrow>
        r < nencs m \<and> es_peerID (encs m r) = p \<and> es_name (encs m r) = n \<and>
        (st \<longrightarrow> is_allowed m p n \<and> sm_keys m p \<noteq> None)) \<and>
     (\<forall>p n r. get_unenc m p n = Some r \<longrightarrow> r < nuncs m \<and> us_peerID (uncs m r) = p \<and> us_name (uncs m r) = n)"

lemma sm_inv_lookup:
  "sm_inv st m \<Longrightarrow> GetStream m p n = Some r \<Longrightarrow>
   r < nencs m \<and> es_peerID (encs m r) = p \<and> es_name (encs m r) = n \<and> (st \<longrightarrow> is_allowed m p n \<and> sm_keys m p \<noteq> None)"
  "sm_inv st m \<Longrightarrow> get_unenc m p n = Some r \<Longrightarrow> r < nuncs m \<and> us_peerID (uncs m r) = p \<and> us_name (uncs m r) = n"
  by (simp_all add: sm_inv_def)

lemma sm_inv_same: "sm_inv st m \<Longrightarrow> same_maps m m' \<Longrightarrow> sm_inv st m'"
  by (simp add: sm_inv_def same_maps_def GetStream_def get_unenc_def is_allowed_def)

lemma sm_inv_New: "sm_inv st (NewStreamManager md h ch)"
  by (simp add: sm_inv_def NewStreamManager_def GetStream_def get_unenc_def)

lemma sm_inv_mem [simp]: "sm_inv st (m\<lparr>sm_mem := h\<rparr>) = sm_inv st m" "sm_inv st (m\<lparr>sm_module := md\<rparr>) = sm_inv st m"
  by (simp_all add: sm_inv_def GetStream_def get_unenc_def is_allowed_def)

lemma sm_inv_config [simp]: "sm_inv st (m\<lparr>sm_config := c\<rparr>) = sm_inv st m"
  by (simp add: sm_inv_def GetStream_def get_unenc_def is_allowed_def)

text \<open>Fewer streams, and no less permission for those that stay.\<close>

lemma sm_inv_shrink:
  assumes "sm_inv st m"
    and "\<And>p n r. GetStream m' p n = Some r \<Longrightarrow> GetStream m p n = Some r"
    and "\<And>p n r. GetStream m' p n = Some r \<Longrightarrow> is_allowed m p n \<Longrightarrow> is_allowed m' p n"
    and "\<And>p n r. GetStream m' p n = Some r \<Longrightarrow> sm_keys m p \<noteq> None \<Longrightarrow> sm_keys m' p \<noteq> None"
    and "\<And>p n r. get_unenc m' p n = Some r \<Longrightarrow> get_unenc m p n = Some r"
    and "nencs m' = nencs m" and "nuncs m' = nuncs m"
    and "\<And>r. es_name (encs m' r) = es_name (encs m r) \<and> es_peerID (encs m' r) = es_peerID (encs m r)"
    and "\<And>r. us_name (uncs m' r) = us_name (uncs m r) \<and> us_peerID (uncs m' r) = us_peerID (uncs m r)"
  shows "sm_inv st m'"
  unfolding sm_inv_def
proof (intro conjI allI impI)
  fix p n r assume g: "GetStream m' p n = Some r"
  then have "GetStream m p n = Some r" by (rule assms(2))
  then have i: "r < nencs m" "es_peerID (encs m r) = p" "es_name (encs m r) = n" "st \<Longrightarrow> is_allowed m p n" "st \<Longrightarrow> sm_keys m p \<noteq> None"
    using assms(1) by (simp_all add: sm_inv_def)
  show "r < nencs m'" "es_peerID (encs m' r) = p" "es_name (encs m' r) = n" using i assms(6,8) by simp_all
  show "is_allowed m' p n" "sm_keys m' p \<noteq> None" if st using assms(3,4) [OF g] i that by blast+
next
  fix p n r assume "get_unenc m' p n = Some r"
  then have "get_unenc m p n = Some r" by (rule assms(5))
  then have "r < nuncs m \<and> us_peerID (uncs m r) = p \<and> us_name (uncs m r) = n" using assms(1) by (simp add: sm_inv_def)
  then show "r < nuncs m'" "us_peerID (uncs m' r) = p" "us_name (uncs m' r) = n" using assms(7,9) by simp_all
qed

lemma EstablishStreams_inv:
  assumes "sm_inv st m"
  shows "sm_inv st (snd (EstablishStreams pr p pub names m))"
proof -
  obtain r md h where d: "Module_DeriveSharedKey pr pub (sm_module m, sm_mem m) = (r, md, h)"
    by (metis prod_cases3)
  show ?thesis
  proof (cases r)
    case (Inl e)
    then show ?thesis using assms d by (simp add: EstablishStreams_def)
  next
    case (Inr ka)
    show ?thesis
      by (rule sm_inv_shrink [OF assms])
        (auto simp: EstablishStreams_def d Inr GetStream_def get_unenc_def is_allowed_def Let_def
          split: option.splits if_splits)
  qed
qed

text \<open>Adding a new stream object under a name that is allowed.\<close>

lemma put_lookups:
  "GetStream (put_stream p n r m) p' n' = (if p' = p \<and> n' = n then Some r else GetStream m p' n')"
  "get_unenc (put_unenc p n r m) p' n' = (if p' = p \<and> n' = n then Some r else get_unenc m p' n')"
  "get_unenc (put_stream p n r m) = get_unenc m" "GetStream (put_unenc p n r m) = GetStream m"
  "is_allowed (put_stream p n r m) = is_allowed m" "is_allowed (put_unenc p n r m) = is_allowed m"
  by (auto simp: put_stream_def put_unenc_def GetStream_def get_unenc_def is_allowed_def fun_eq_iff split: option.splits)

lemma put_fields [simp]:
  "encs (put_stream p n r m) = encs m" "nencs (put_stream p n r m) = nencs m" "sm_keys (put_stream p n r m) = sm_keys m"
  "uncs (put_stream p n r m) = uncs m" "nuncs (put_stream p n r m) = nuncs m"
  "encs (put_unenc p n r m) = encs m" "nencs (put_unenc p n r m) = nencs m" "sm_keys (put_unenc p n r m) = sm_keys m"
  "uncs (put_unenc p n r m) = uncs m" "nuncs (put_unenc p n r m) = nuncs m"
  by (simp_all add: put_stream_def put_unenc_def)

lemma alloc_fields:
  "GetStream (m\<lparr>encs := a, nencs := b\<rparr>) = GetStream m" "GetStream (m\<lparr>uncs := c, nuncs := b\<rparr>) = GetStream m"
  "get_unenc (m\<lparr>encs := a, nencs := b\<rparr>) = get_unenc m" "get_unenc (m\<lparr>uncs := c, nuncs := b\<rparr>) = get_unenc m"
  "is_allowed (m\<lparr>encs := a, nencs := b\<rparr>) = is_allowed m" "is_allowed (m\<lparr>uncs := c, nuncs := b\<rparr>) = is_allowed m"
  by (simp_all add: GetStream_def get_unenc_def is_allowed_def fun_eq_iff)

lemma put_stream_inv:
  assumes "sm_inv st m" and "st \<Longrightarrow> is_allowed m p n" and "st \<Longrightarrow> sm_keys m p \<noteq> None" and "es_peerID es = p" and "es_name es = n"
    and "alloc_enc es m = (r, m1)"
  shows "sm_inv st (put_stream p n r m1)"
proof -
  have m1: "r = nencs m" "m1 = m\<lparr>encs := (encs m)(nencs m := es\<lparr>es_cancelled := sm_cancelled m\<rparr>), nencs := Suc (nencs m)\<rparr>"
    using assms(6) by (auto simp: alloc_enc_def)
  show ?thesis
    unfolding sm_inv_def
  proof (intro conjI allI impI)
    fix p' n' r' assume g: "GetStream (put_stream p n r m1) p' n' = Some r'"
    have "r' < Suc (nencs m) \<and> es_peerID (encs m1 r') = p' \<and> es_name (encs m1 r') = n' \<and>
        (st \<longrightarrow> is_allowed m p' n' \<and> sm_keys m p' \<noteq> None)"
    proof (cases "p' = p \<and> n' = n")
      case True
      then show ?thesis using g assms(2-5) by (simp add: put_lookups m1)
    next
      case False
      then have "GetStream m p' n' = Some r'" using g by (auto simp: put_lookups m1 alloc_fields split: if_splits)
      from sm_inv_lookup(1) [OF assms(1) this] show ?thesis by (simp add: m1)
    qed
    then show "r' < nencs (put_stream p n r m1)" "es_peerID (encs (put_stream p n r m1) r') = p'"
      "es_name (encs (put_stream p n r m1) r') = n'"
      "st \<Longrightarrow> is_allowed (put_stream p n r m1) p' n'" "st \<Longrightarrow> sm_keys (put_stream p n r m1) p' \<noteq> None"
      by (simp_all add: put_lookups alloc_fields m1)
  next
    fix p' n' r' assume "get_unenc (put_stream p n r m1) p' n' = Some r'"
    then have "r' < nuncs m \<and> us_peerID (uncs m r') = p' \<and> us_name (uncs m r') = n'"
      using assms(1) by (simp add: put_lookups alloc_fields m1 sm_inv_def)
    then show "r' < nuncs (put_stream p n r m1)" "us_peerID (uncs (put_stream p n r m1) r') = p'"
      "us_name (uncs (put_stream p n r m1) r') = n'" by (simp_all add: m1)
  qed
qed

lemma put_unenc_inv:
  assumes "sm_inv st m" and "us_peerID us = p" and "us_name us = n" and "alloc_unc us m = (r, m1)"
  shows "sm_inv st (put_unenc p n r m1)"
proof -
  have m1: "r = nuncs m" "m1 = m\<lparr>uncs := (uncs m)(nuncs m := us\<lparr>us_cancelled := sm_cancelled m\<rparr>), nuncs := Suc (nuncs m)\<rparr>"
    using assms(4) by (auto simp: alloc_unc_def)
  show ?thesis
    unfolding sm_inv_def
  proof (intro conjI allI impI)
    fix p' n' r' assume g: "get_unenc (put_unenc p n r m1) p' n' = Some r'"
    have "r' < Suc (nuncs m) \<and> us_peerID (uncs m1 r') = p' \<and> us_name (uncs m1 r') = n'"
    proof (cases "p' = p \<and> n' = n")
      case True
      then show ?thesis using g assms(2,3) by (simp add: put_lookups m1)
    next
      case False
      then have "get_unenc m p' n' = Some r'" using g by (auto simp: put_lookups m1 alloc_fields split: if_splits)
      from sm_inv_lookup(2) [OF assms(1) this] show ?thesis by (simp add: m1)
    qed
    then show "r' < nuncs (put_unenc p n r m1)" "us_peerID (uncs (put_unenc p n r m1) r') = p'"
      "us_name (uncs (put_unenc p n r m1) r') = n'" by (simp_all add: m1)
  next
    fix p' n' r' assume "GetStream (put_unenc p n r m1) p' n' = Some r'"
    then have "r' < nencs m \<and> es_peerID (encs m r') = p' \<and> es_name (encs m r') = n' \<and>
        (st \<longrightarrow> is_allowed m p' n' \<and> sm_keys m p' \<noteq> None)"
      using assms(1) by (simp add: put_lookups alloc_fields m1 sm_inv_def)
    then show "r' < nencs (put_unenc p n r m1)" "es_peerID (encs (put_unenc p n r m1) r') = p'"
      "es_name (encs (put_unenc p n r m1) r') = n'"
      "st \<Longrightarrow> is_allowed (put_unenc p n r m1) p' n'" "st \<Longrightarrow> sm_keys (put_unenc p n r m1) p' \<noteq> None"
      by (simp_all add: put_lookups alloc_fields m1)
  qed
qed

lemma alloc_enc_inv: "sm_inv st m \<Longrightarrow> alloc_enc es m = (r, m1) \<Longrightarrow> sm_inv st m1"
  by (fastforce simp: sm_inv_def alloc_enc_def GetStream_def get_unenc_def is_allowed_def less_Suc_eq)

lemma alloc_unc_inv: "sm_inv st m \<Longrightarrow> alloc_unc us m = (r, m1) \<Longrightarrow> sm_inv st m1"
  by (fastforce simp: sm_inv_def alloc_unc_def GetStream_def get_unenc_def is_allowed_def less_Suc_eq)

lemma open_lock1_plan:
  "open_lock1 c p n m = Inr (OpenWithKey ka cfg) \<Longrightarrow> is_allowed m p n \<and> sm_keys m p = Some ka \<and> cfg = sm_config m"
  "open_lock1 c p n m = Inr (UseStream r) \<Longrightarrow> GetStream m p n = Some r \<and> \<not> es_closed (encs m r)"
  by (auto simp: open_lock1_def split: if_splits option.splits)

lemma NewEncryptedStream_fields:
  "NewEncryptedStream n p raw ka cfg h = (Inr es, h1) \<Longrightarrow>
   es_name es = n \<and> es_peerID es = p \<and> es_stream es = raw \<and> \<not> es_closed es \<and>
   c_aead (es_cipher es) = Some (h ! ka) \<and> \<not> c_closed (es_cipher es) \<and> length (h ! ka) = KeySize"
  by (auto simp: NewEncryptedStream_def NewCipher_def split: if_splits prod.splits)

lemma openStreamLazilyCtx_inv:
  assumes "sm_inv st m"
  shows "sm_inv st (snd (openStreamLazilyCtx ce ns c p n m))"
proof (cases "open_lock1 c p n m")
  case (Inl e)
  then show ?thesis using assms by (simp add: openStreamLazilyCtx_def)
next
  case plan: (Inr pl)
  show ?thesis
  proof (cases pl)
    case (UseStream r)
    then show ?thesis using assms plan by (simp add: openStreamLazilyCtx_def)
  next
    case (OpenWithKey ka cfg)
    then have al: "is_allowed m p n" "sm_keys m p \<noteq> None" using open_lock1_plan(1) plan by fastforce+
    show ?thesis
    proof (cases ns)
      case (Inl e)
      then show ?thesis using assms plan OpenWithKey by (simp add: openStreamLazilyCtx_def open_make_def)
    next
      case (Inr raw)
      obtain x h where new: "NewEncryptedStream n p raw ka cfg (sm_mem m) = (x, h)" by fastforce
      show ?thesis
      proof (cases x)
        case (Inl e)
        then show ?thesis using assms plan OpenWithKey \<open>ns = Inr raw\<close> new
          by (simp add: openStreamLazilyCtx_def open_make_def)
      next
        case (Inr es)
        obtain r m1 where al1: "alloc_enc es (m\<lparr>sm_mem := h\<rparr>) = (r, m1)" by fastforce
        have inv: "sm_inv st (m\<lparr>sm_mem := h\<rparr>)" using assms by simp
        have "sm_inv st (put_stream p n r m1)"
          using NewEncryptedStream_fields [of n p raw ka cfg "sm_mem m" es h] new Inr al
          by (intro put_stream_inv [OF inv _ _ _ _ al1]) (simp_all add: is_allowed_def)
        moreover have "sm_inv st (snd (close_enc ce r m1))"
          using alloc_enc_inv [OF inv al1] close_enc_same by (rule sm_inv_same)
        ultimately show ?thesis
          using plan OpenWithKey \<open>ns = Inr raw\<close> new Inr al1
          by (auto simp: openStreamLazilyCtx_def open_make_def open_lock2_def split: option.splits)
      qed
    qed
  qed
qed

lemma openUnencrypted_inv:
  assumes "sm_inv st m"
  shows "sm_inv st (snd (openUnencryptedStreamLazilyCtx ce ns c p n m))"
proof -
  have "sm_inv st (put_unenc p n r m1) \<and> sm_inv st (snd (close_unc ce r m1))"
    if "alloc_unc (SetOnMessageDropped b (NewUnencryptedStream n p raw)) m = (r, m1)" for b raw r m1
    using put_unenc_inv [OF assms _ _ that] sm_inv_same [OF alloc_unc_inv [OF assms that] close_unc_same]
    by (simp add: SetOnMessageDropped_def NewUnencryptedStream_def)
  then show ?thesis using assms
    by (auto simp: openUnencryptedStreamLazilyCtx_def Let_def split: option.splits sum.splits prod.splits)
qed

lemma sm_SendCtx_inv:
  assumes "sm_inv st m"
  shows "sm_inv st (snd (sm_SendCtx pr nonce w ns c p n d m))"
proof -
  have enc: "sm_inv st (snd (send_enc pr nonce w c' d r m'))" if "sm_inv st m'" for c' r m'
    using that send_enc_same by (rule sm_inv_same)
  have unc: "sm_inv st (snd (send_unc w c' d r m'))" if "sm_inv st m'" for c' r m'
    using that send_unc_same by (rule sm_inv_same)
  have o1: "sm_inv st m1" if "openStreamLazilyCtx ce ns c' p n m = (x, m1)" for ce c' x m1
    using openStreamLazilyCtx_inv [OF assms, of ce ns c' p n] that by simp
  have o2: "sm_inv st m1" if "openUnencryptedStreamLazilyCtx ce ns c' p n m = (x, m1)" for ce c' x m1
    using openUnencrypted_inv [OF assms, of ce ns c' p n] that by simp
  show ?thesis
    using assms enc unc o1 o2
    by (auto simp: sm_SendCtx_def sendUnencryptedCtx_def split: option.splits sum.splits prod.splits)
qed

lemma HandleIncomingStream_inv:
  assumes "sm_inv st m"
  shows "sm_inv st (snd (HandleIncomingStream p n raw m))"
proof (cases "is_allowed m p n \<and> sm_keys m p \<noteq> None")
  case True
  then obtain ka where ka: "sm_keys m p = Some ka" by blast
  define m0 where "m0 = (case sm_streams m p of None \<Rightarrow> m\<lparr>sm_streams := (sm_streams m)(p \<mapsto> Map.empty)\<rparr> | Some ss \<Rightarrow> m)"
  have m0: "sm_inv st m0" "is_allowed m0 p n" "sm_keys m0 p \<noteq> None"
    using assms True
    by (auto simp: m0_def sm_inv_def GetStream_def get_unenc_def is_allowed_def split: option.splits if_splits)
  obtain x h where new: "NewEncryptedStream n p raw ka (sm_config m0) (sm_mem m0) = (x, h)" by fastforce
  have "sm_inv st (put_stream p n r m1)" if "x = Inr es" "alloc_enc es (m0\<lparr>sm_mem := h\<rparr>) = (r, m1)" for es r m1
    using put_stream_inv [OF _ _ _ _ _ that(2)] m0 NewEncryptedStream_fields [of n p raw ka "sm_config m0" "sm_mem m0" es h]
      new that(1) by (simp add: is_allowed_def)
  then show ?thesis
    using True ka new m0(1)
    by (auto simp: HandleIncomingStream_def Let_def m0_def [symmetric] split: sum.splits prod.splits option.splits)
qed (use assms in \<open>auto simp: HandleIncomingStream_def split: option.splits\<close>)

lemma HandshakeStream_inv:
  assumes "sm_inv st m"
  shows "sm_inv st (OpenHandshakeStream p m)" "sm_inv st (snd (CloseHandshakeStream ce p m))"
    "sm_inv st (snd (HandleIncomingHandshakeStream p raw m))"
proof -
  show op: "sm_inv st (OpenHandshakeStream p m)"
    using assms by (auto simp: OpenHandshakeStream_def sm_inv_def GetStream_def get_unenc_def is_allowed_def
        split: option.splits if_splits)
  show "sm_inv st (snd (CloseHandshakeStream ce p m))"
  proof (cases "get_unenc m p HandshakeStreamName")
    case None
    then show ?thesis using assms by (auto simp: CloseHandshakeStream_def get_unenc_def split: option.splits)
  next
    case (Some r)
    obtain e1 m1 where c: "close_unc ce r m = (e1, m1)" by fastforce
    have "same_maps m m1" using close_unc_same [of m ce r] c by simp
    then show ?thesis using Some c
      by (intro sm_inv_shrink [OF assms])
        (auto simp: CloseHandshakeStream_def get_unenc_def GetStream_def is_allowed_def same_maps_def
          split: option.splits if_splits)
  qed
  have "sm_inv st (put_unenc p HandshakeStreamName r m1)"
    if "alloc_unc (SetOnMessageDropped b (NewUnencryptedStream HandshakeStreamName p raw)) (OpenHandshakeStream p m) = (r, m1)"
    for b r m1
    using put_unenc_inv [OF op _ _ that] by (simp add: SetOnMessageDropped_def NewUnencryptedStream_def)
  then show "sm_inv st (snd (HandleIncomingHandshakeStream p raw m))"
    using op by (auto simp: HandleIncomingHandshakeStream_def Let_def split: prod.splits)
qed

lemma CloseStreams_inv:
  assumes "sm_inv st m"
  shows "sm_inv st (snd (CloseStreams ce cu rs us p m))"
proof -
  obtain e1 m1 where c1: "close_all (close_enc ce) rs (None, m) = (e1, m1)" by fastforce
  have s1: "same_maps m m1" using close_all_same [of "close_enc ce" m rs None] close_enc_same c1 by simp
  let ?m = "m1\<lparr>sm_streams := (sm_streams m1)(p := None)\<rparr>"
  obtain e2 m2 where c2: "close_all (close_unc cu) us (e1, ?m) = (e2, m2)" by fastforce
  have s2: "same_maps ?m m2" using close_all_same [of "close_unc cu" ?m us e1] close_unc_same c2 by simp
  show ?thesis
    by (rule sm_inv_shrink [OF sm_inv_same [OF assms s1]])
      (use s2 in \<open>auto simp: CloseStreams_def c1 c2 GetStream_def get_unenc_def is_allowed_def same_maps_def
        split: option.splits if_splits\<close>)
qed

lemma sm_Shutdown_empty:
  "sm_streams (sm_Shutdown ce rs us ks m) = Map.empty" "sm_unenc (sm_Shutdown ce rs us ks m) = Map.empty"
  "sm_allowed (sm_Shutdown ce rs us ks m) = Map.empty" "sm_keys (sm_Shutdown ce rs us ks m) = Map.empty"
  by (simp_all add: sm_Shutdown_def Let_def)

lemma sm_Shutdown_inv: "sm_inv st (sm_Shutdown ce rs us ks m)"
  by (simp add: sm_inv_def GetStream_def get_unenc_def sm_Shutdown_empty)

section \<open>Only the handshake travels in the clear\<close>

definition only_handshake_clear :: "smgr \<Rightarrow> bool" where
  "only_handshake_clear m \<longleftrightarrow> (\<forall>r < nuncs m. us_name (uncs m r) = HandshakeStreamName)"

lemma clear_same: "only_handshake_clear m \<Longrightarrow> same_maps m m' \<Longrightarrow> only_handshake_clear m'"
  by (simp add: only_handshake_clear_def same_maps_def)

lemma clear_frame:
  "only_handshake_clear m \<Longrightarrow> uncs m' = uncs m \<Longrightarrow> nuncs m' = nuncs m \<Longrightarrow> only_handshake_clear m'"
  by (simp add: only_handshake_clear_def)

lemma clear_alloc:
  assumes "only_handshake_clear m" and "us_name us = HandshakeStreamName" and "alloc_unc us m = (r, m1)"
  shows "only_handshake_clear m1"
  using assms by (auto simp: only_handshake_clear_def alloc_unc_def less_Suc_eq)

lemma clear_unenc_map [simp]:
  "only_handshake_clear (m\<lparr>sm_unenc := u\<rparr>) = only_handshake_clear m"
  "only_handshake_clear (put_unenc p n r m) = only_handshake_clear m"
  by (simp_all add: only_handshake_clear_def put_unenc_def)

text \<open>Sending under any other name leaves the unencrypted streams as they are.\<close>

lemma openStreamLazilyCtx_uncs:
  "openStreamLazilyCtx ce ns c p n m = (x, m1) \<Longrightarrow>
   uncs m1 = uncs m \<and> nuncs m1 = nuncs m \<and> sm_unenc m1 = sm_unenc m"
  by (auto simp: openStreamLazilyCtx_def open_make_def open_lock2_def alloc_enc_def put_stream_def close_enc_def
      split: sum.splits open_plan.splits prod.splits option.splits if_splits)

lemma send_enc_uncs [simp]:
  "uncs (snd (send_enc pr nonce w c d r m)) = uncs m" "nuncs (snd (send_enc pr nonce w c d r m)) = nuncs m"
  "sm_unenc (snd (send_enc pr nonce w c d r m)) = sm_unenc m"
  by (auto simp: send_enc_def split: prod.splits)

lemma sm_SendCtx_uncs:
  assumes "n \<noteq> HandshakeStreamName"
  shows "uncs (snd (sm_SendCtx pr nonce w ns c p n d m)) = uncs m \<and>
         nuncs (snd (sm_SendCtx pr nonce w ns c p n d m)) = nuncs m \<and>
         sm_unenc (snd (sm_SendCtx pr nonce w ns c p n d m)) = sm_unenc m"
  using assms
  by (auto simp: sm_SendCtx_def split: sum.splits prod.splits option.splits dest: openStreamLazilyCtx_uncs)

lemma openUnencrypted_clear:
  assumes "only_handshake_clear m"
    and "openUnencryptedStreamLazilyCtx ce ns c p HandshakeStreamName m = (x, m1)"
  shows "only_handshake_clear m1"
proof -
  have "only_handshake_clear m' \<and> only_handshake_clear (snd (close_unc ce r m'))"
    if "alloc_unc (SetOnMessageDropped b (NewUnencryptedStream HandshakeStreamName p raw)) m = (r, m')" for b raw r m'
  proof -
    have "only_handshake_clear m'"
      using assms(1) _ that by (rule clear_alloc) (simp add: SetOnMessageDropped_def NewUnencryptedStream_def)
    then show ?thesis using clear_same [OF _ close_unc_same] by blast
  qed
  then show ?thesis using assms
    by (auto simp: openUnencryptedStreamLazilyCtx_def Let_def split: option.splits sum.splits prod.splits if_splits)
qed

lemma sm_SendCtx_clear:
  assumes "only_handshake_clear m"
  shows "only_handshake_clear (snd (sm_SendCtx pr nonce w ns c p n d m))"
proof (cases "n = HandshakeStreamName")
  case True
  have "only_handshake_clear (snd (send_unc w c' d r m'))" if "only_handshake_clear m'" for c' r m'
    using that send_unc_same by (rule clear_same)
  then show ?thesis
    using assms openUnencrypted_clear [OF assms]
    by (auto simp: sm_SendCtx_def True sendUnencryptedCtx_def split: option.splits sum.splits prod.splits)
next
  case False
  then show ?thesis using clear_frame [OF assms] sm_SendCtx_uncs by blast
qed

lemma HandleIncomingHandshake_clear:
  assumes "only_handshake_clear m"
  shows "only_handshake_clear (snd (HandleIncomingHandshakeStream p raw m))"
proof -
  have o: "only_handshake_clear (OpenHandshakeStream p m)"
    using assms by (simp add: OpenHandshakeStream_def split: option.split)
  have "only_handshake_clear m1"
    if "alloc_unc (SetOnMessageDropped b (NewUnencryptedStream HandshakeStreamName p raw)) (OpenHandshakeStream p m) = (r, m1)"
    for b r m1
    using o _ that by (rule clear_alloc) (simp add: SetOnMessageDropped_def NewUnencryptedStream_def)
  then show ?thesis using o by (auto simp: HandleIncomingHandshakeStream_def Let_def split: prod.splits)
qed

lemma HandleIncomingStream_uncs:
  "uncs (snd (HandleIncomingStream p n raw m)) = uncs m" "nuncs (snd (HandleIncomingStream p n raw m)) = nuncs m"
  by (auto simp: HandleIncomingStream_def Let_def alloc_enc_def put_stream_def split: option.splits sum.splits prod.splits)

lemma EstablishStreams_uncs:
  "uncs (snd (EstablishStreams pr p pub names m)) = uncs m" "nuncs (snd (EstablishStreams pr p pub names m)) = nuncs m"
  by (auto simp: EstablishStreams_def Let_def split: option.splits sum.splits prod.splits)

lemma CloseHandshake_clear: "only_handshake_clear m \<Longrightarrow> only_handshake_clear (snd (CloseHandshakeStream ce p m))"
  using clear_same [OF _ close_unc_same]
  by (auto simp: CloseHandshakeStream_def split: option.splits prod.splits) (metis snd_conv)

lemma close_all_clear:
  assumes "only_handshake_clear m"
  shows "only_handshake_clear (snd (close_all (close_enc ce) rs (e, m)))" "only_handshake_clear (snd (close_all (close_unc ce) rs (e, m)))"
  by (rule clear_same [OF assms close_all_same], rule close_enc_same)
    (rule clear_same [OF assms close_all_same], rule close_unc_same)

lemma CloseStreams_clear:
  assumes "only_handshake_clear m"
  shows "only_handshake_clear (snd (CloseStreams ce cu rs us p m))"
proof -
  obtain e1 m1 where c1: "close_all (close_enc ce) rs (None, m) = (e1, m1)" by fastforce
  let ?m = "m1\<lparr>sm_streams := (sm_streams m1)(p := None)\<rparr>"
  have "only_handshake_clear ?m" using close_all_clear(1) [OF assms, of ce rs None] c1
    by (simp add: only_handshake_clear_def)
  from close_all_clear(2) [OF this, of cu us e1] show ?thesis
    by (auto simp: CloseStreams_def c1 only_handshake_clear_def split: prod.splits)
qed

lemma sm_Shutdown_clear:
  assumes "only_handshake_clear m"
  shows "only_handshake_clear (sm_Shutdown ce rs us ks m)"
proof -
  let ?m = "m\<lparr>sm_cancelled := True, encs := (\<lambda>r. (encs m r)\<lparr>es_cancelled := True\<rparr>), uncs := (\<lambda>r. (uncs m r)\<lparr>us_cancelled := True\<rparr>)\<rparr>"
  have "only_handshake_clear ?m" using assms by (simp add: only_handshake_clear_def)
  from close_all_clear(2) [OF close_all_clear(1) [OF this, of ce rs None], of ce us None] show ?thesis
    by (simp add: sm_Shutdown_def Let_def only_handshake_clear_def)
qed

section \<open>The goroutines on the manager\<close>

text \<open>
  A lazy open releases the lock between its two sections, so other calls may come in between: the state
  carries the opens under way. The read loops of the streams run beside the calls.
\<close>

type_synonym pending_open = "peer_id \<times> string \<times> nat \<times> EncryptedStreamConfig"

datatype sm_op =
    OpSetDecryption bool | OpSetOversized bool | OpSetDropped bool | OpSetMax nat
  | OpEstablish peer_id "bytes option" "string list"
  | OpSend "bytes option" write_result "(string, raw_stream) result" ctx peer_id string bytes
  | OpBeginOpen ctx peer_id string
  | OpFinishOpen nat "(string, raw_stream) result" "nat \<Rightarrow> stream_err option"
  | OpIncoming peer_id string raw_stream
  | OpIncomingHandshake peer_id raw_stream
  | OpOpenHandshake peer_id
  | OpCloseHandshake "nat \<Rightarrow> stream_err option" peer_id
  | OpCloseStreams "nat \<Rightarrow> stream_err option" "nat \<Rightarrow> stream_err option" "nat list" "nat list" peer_id
  | OpReadLoop time_ns "(bool \<times> read_event) list" nat
  | OpReadLoopClear time_ns "read_event list" nat
  | OpShutdown "nat \<Rightarrow> stream_err option" "nat list" "nat list" "nat list"

definition run_read :: "prims \<Rightarrow> time_ns \<Rightarrow> (bool \<times> read_event) list \<Rightarrow> nat \<Rightarrow> smgr \<Rightarrow> smgr" where
  "run_read pr now evs r m =
     (let x = es_readLoop pr now evs (encs m r) (sm_incoming m)
      in m\<lparr>encs := (encs m)(r := rd_stream x), sm_incoming := rd_incoming x\<rparr>)"

definition run_read_clear :: "time_ns \<Rightarrow> read_event list \<Rightarrow> nat \<Rightarrow> smgr \<Rightarrow> smgr" where
  "run_read_clear now evs r m =
     (case us_readLoop now evs (uncs m r) (sm_incoming m) of
        (us, ch, cbs) \<Rightarrow> m\<lparr>uncs := (uncs m)(r := us), sm_incoming := ch\<rparr>)"

definition begin_open :: "ctx \<Rightarrow> peer_id \<Rightarrow> string \<Rightarrow> smgr \<times> pending_open list \<Rightarrow> smgr \<times> pending_open list" where
  "begin_open c p n s =
     (case open_lock1 c p n (fst s) of
        Inr (OpenWithKey ka cfg) \<Rightarrow> (fst s, snd s @ [(p, n, ka, cfg)])
      | _ \<Rightarrow> s)"

definition finish_open :: "nat \<Rightarrow> (string, raw_stream) result \<Rightarrow> (nat \<Rightarrow> stream_err option) \<Rightarrow>
    smgr \<times> pending_open list \<Rightarrow> smgr \<times> pending_open list" where
  "finish_open i ns ce s =
     (if i < length (snd s) then
        (case snd s ! i of (p, n, ka, cfg) \<Rightarrow>
           (case open_make ns p n ka cfg (fst s) of
              (Inl e, m1) \<Rightarrow> (m1, take i (snd s) @ drop (Suc i) (snd s))
            | (Inr r, m1) \<Rightarrow> (snd (open_lock2 ce p n r m1), take i (snd s) @ drop (Suc i) (snd s))))
      else s)"

fun sm_exec :: "prims \<Rightarrow> sm_op \<Rightarrow> smgr \<times> pending_open list \<Rightarrow> smgr \<times> pending_open list" where
  "sm_exec pr (OpSetDecryption b) (m, ps) = (SetDecryptionErrorCallback b m, ps)"
| "sm_exec pr (OpSetOversized b) (m, ps) = (SetOversizedMessageCallback b m, ps)"
| "sm_exec pr (OpSetDropped b) (m, ps) = (SetMessageDroppedCallback b m, ps)"
| "sm_exec pr (OpSetMax n) (m, ps) = (SetMaxMessageSize n m, ps)"
| "sm_exec pr (OpEstablish p pub names) (m, ps) = (snd (EstablishStreams pr p pub names m), ps)"
| "sm_exec pr (OpSend nonce w ns c p n d) (m, ps) = (snd (sm_SendCtx pr nonce w ns c p n d m), ps)"
| "sm_exec pr (OpBeginOpen c p n) s = begin_open c p n s"
| "sm_exec pr (OpFinishOpen i ns ce) s = finish_open i ns ce s"
| "sm_exec pr (OpIncoming p n raw) (m, ps) = (snd (HandleIncomingStream p n raw m), ps)"
| "sm_exec pr (OpIncomingHandshake p raw) (m, ps) = (snd (HandleIncomingHandshakeStream p raw m), ps)"
| "sm_exec pr (OpOpenHandshake p) (m, ps) = (OpenHandshakeStream p m, ps)"
| "sm_exec pr (OpCloseHandshake ce p) (m, ps) = (snd (CloseHandshakeStream ce p m), ps)"
| "sm_exec pr (OpCloseStreams ce cu rs us p) (m, ps) = (snd (CloseStreams ce cu rs us p m), ps)"
| "sm_exec pr (OpReadLoop now evs r) (m, ps) = (run_read pr now evs r m, ps)"
| "sm_exec pr (OpReadLoopClear now evs r) (m, ps) = (run_read_clear now evs r m, ps)"
| "sm_exec pr (OpShutdown ce rs us ks) (m, ps) = (sm_Shutdown ce rs us ks m, ps)"

text \<open>A call that is not overtaken: no lazy open is interrupted.\<close>

fun uninterrupted :: "sm_op \<Rightarrow> bool" where
  "uninterrupted (OpFinishOpen i ns ce) = False"
| "uninterrupted op = True"

definition sm_step :: "prims \<Rightarrow> smgr \<times> pending_open list \<Rightarrow> sm_op \<Rightarrow> smgr \<times> pending_open list \<Rightarrow> bool" where
  "sm_step pr s op s' \<longleftrightarrow> s' = sm_exec pr op s"

definition sm_init :: "smgr \<times> pending_open list \<Rightarrow> bool" where
  "sm_init s \<longleftrightarrow> (\<exists>md h ch. s = (NewStreamManager md h ch, []))"

lemma es_markClosed_keeps [simp]:
  "es_name (es_markClosed e es) = es_name es" "es_peerID (es_markClosed e es) = es_peerID es" "es_closed (es_markClosed e es)"
  by (simp_all add: es_markClosed_def)

lemma es_read_step_keeps:
  "es_name (rd_stream (es_read_step pr now late ev es ch)) = es_name es \<and>
   es_peerID (rd_stream (es_read_step pr now late ev es ch)) = es_peerID es \<and>
   (es_closed es \<longrightarrow> es_closed (rd_stream (es_read_step pr now late ev es ch)))"
  by (auto simp: es_read_step_def Let_def split: read_event.splits sum.splits option.splits bool.splits)

lemma es_readLoop_keeps:
  "es_name (rd_stream (es_readLoop pr now evs es ch)) = es_name es \<and>
   es_peerID (rd_stream (es_readLoop pr now evs es ch)) = es_peerID es \<and>
   (es_closed es \<longrightarrow> es_closed (rd_stream (es_readLoop pr now evs es ch)))"
proof (induction evs arbitrary: es ch)
  case (Cons x evs)
  obtain late ev where x: "x = (late, ev)" by fastforce
  show ?case using Cons es_read_step_keeps [of pr now late ev es ch] by (simp add: x Let_def)
qed simp

lemma us_readLoop_keeps:
  "us_readLoop now evs us ch = (us', ch', cbs) \<Longrightarrow> us_name us' = us_name us \<and> us_peerID us' = us_peerID us"
proof (induction evs arbitrary: us ch us' ch' cbs)
  case (Cons ev evs)
  then show ?case
    by (auto simp: us_markClosed_def Let_def split: if_splits read_event.splits option.splits prod.splits)
qed simp

lemma run_read_same: "same_maps m (run_read pr now evs r m)"
  using es_readLoop_keeps [of pr now evs "encs m r" "sm_incoming m"]
  by (simp add: run_read_def Let_def same_maps_def)

lemma run_read_clear_same: "same_maps m (run_read_clear now evs r m)"
proof -
  obtain us ch cbs where l: "us_readLoop now evs (uncs m r) (sm_incoming m) = (us, ch, cbs)" by (metis prod_cases3)
  then show ?thesis using us_readLoop_keeps [OF l] by (simp add: run_read_clear_def same_maps_def)
qed

lemma setters_inv:
  assumes "sm_inv st m \<and> only_handshake_clear m"
  shows "sm_inv st (SetDecryptionErrorCallback b m) \<and> only_handshake_clear (SetDecryptionErrorCallback b m)"
    "sm_inv st (SetOversizedMessageCallback b m) \<and> only_handshake_clear (SetOversizedMessageCallback b m)"
    "sm_inv st (SetMessageDroppedCallback b m) \<and> only_handshake_clear (SetMessageDroppedCallback b m)"
    "sm_inv st (SetMaxMessageSize k m) \<and> only_handshake_clear (SetMaxMessageSize k m)"
  using assms
  by (simp_all add: SetDecryptionErrorCallback_def SetOversizedMessageCallback_def SetMessageDroppedCallback_def
      SetMaxMessageSize_def only_handshake_clear_def)

lemma finish_open_inv:
  assumes "sm_inv False m" and "only_handshake_clear m"
  shows "sm_inv False (fst (finish_open i ns ce (m, ps))) \<and> only_handshake_clear (fst (finish_open i ns ce (m, ps)))"
proof (cases "i < length ps")
  case True
  obtain p n ka cfg where pi: "ps ! i = (p, n, ka, cfg)" by (metis prod_cases4)
  show ?thesis
  proof (cases ns)
    case (Inl e)
    then show ?thesis using assms True pi by (simp add: finish_open_def open_make_def)
  next
    case (Inr raw)
    obtain x h where new: "NewEncryptedStream n p raw ka cfg (sm_mem m) = (x, h)" by fastforce
    show ?thesis
    proof (cases x)
      case (Inl e)
      then show ?thesis using assms True pi Inr new clear_frame [OF assms(2)]
        by (simp add: finish_open_def open_make_def)
    next
      case (Inr es)
      obtain r m1 where al: "alloc_enc es (m\<lparr>sm_mem := h\<rparr>) = (r, m1)" by fastforce
      have inv: "sm_inv False (m\<lparr>sm_mem := h\<rparr>)" using assms by simp
      have "sm_inv False (put_stream p n r m1)"
        using NewEncryptedStream_fields [of n p raw ka cfg "sm_mem m" es h] new Inr
        by (intro put_stream_inv [OF inv _ _ _ _ al]) simp_all
      moreover have "sm_inv False (snd (close_enc ce r m1))"
        using alloc_enc_inv [OF inv al] close_enc_same by (rule sm_inv_same)
      moreover have m1: "only_handshake_clear m1"
        using al by (intro clear_frame [OF assms(2)]) (auto simp: alloc_enc_def)
      moreover have "only_handshake_clear (snd (close_enc ce r m1))"
        using m1 close_enc_same by (rule clear_same)
      moreover have "only_handshake_clear (put_stream p n r m1)" by (intro clear_frame [OF m1]) simp_all
      ultimately show ?thesis
        using True pi \<open>ns = Inr raw\<close> new Inr al
        by (auto simp: finish_open_def open_make_def open_lock2_def split: option.splits)
    qed
  qed
qed (use assms in \<open>simp add: finish_open_def\<close>)

lemma begin_open_fst [simp]: "fst (begin_open c p n s) = fst s"
  by (simp add: begin_open_def split: sum.split open_plan.split)

lemma sm_exec_inv:
  assumes "sm_inv st (fst s) \<and> only_handshake_clear (fst s)" and "st \<Longrightarrow> uninterrupted op"
  shows "sm_inv st (fst (sm_exec pr op s)) \<and> only_handshake_clear (fst (sm_exec pr op s))"
proof -
  obtain m ps where s: "s = (m, ps)" by fastforce
  have i: "sm_inv st m" "only_handshake_clear m" using assms(1) by (simp_all add: s)
  show ?thesis
  proof (cases op)
    case (OpEstablish p pub names)
    then show ?thesis using EstablishStreams_inv [OF i(1)] clear_frame [OF i(2) EstablishStreams_uncs] by (simp add: s)
  next
    case (OpIncoming p n raw)
    then show ?thesis using HandleIncomingStream_inv [OF i(1)] clear_frame [OF i(2) HandleIncomingStream_uncs] by (simp add: s)
  next
    case (OpFinishOpen k ns ce)
    then have "\<not> st" using assms(2) by auto
    then show ?thesis using finish_open_inv i OpFinishOpen by (simp add: s)
  next
    case (OpOpenHandshake p)
    then show ?thesis using i HandshakeStream_inv(1) [OF i(1)]
      by (simp add: s) (simp add: OpenHandshakeStream_def split: option.split)
  qed (use i in \<open>simp_all add: s setters_inv sm_SendCtx_inv sm_SendCtx_clear HandshakeStream_inv HandleIncomingHandshake_clear
      CloseHandshake_clear CloseStreams_inv CloseStreams_clear sm_Shutdown_inv sm_Shutdown_clear
      sm_inv_same [OF _ run_read_same] clear_same [OF _ run_read_same]
      sm_inv_same [OF _ run_read_clear_same] clear_same [OF _ run_read_clear_same]\<close>)
qed

lemma sm_init_inv: "sm_init s \<Longrightarrow> sm_inv st (fst s) \<and> only_handshake_clear (fst s)"
  by (auto simp: sm_init_def sm_inv_New) (simp add: only_handshake_clear_def NewStreamManager_def)

lemma sm_step_inv:
  "sm_inv st (fst s) \<and> only_handshake_clear (fst s) \<Longrightarrow> sm_step pr s op s' \<Longrightarrow> (st \<Longrightarrow> uninterrupted op) \<Longrightarrow>
   sm_inv st (fst s') \<and> only_handshake_clear (fst s')"
  by (simp only: sm_step_def) (rule sm_exec_inv)

interpretation smsys: invariant_system sm_init "sm_step pr" "\<lambda>s. sm_inv False (fst s) \<and> only_handshake_clear (fst s)"
  by unfold_locales (erule sm_init_inv, erule sm_step_inv, assumption, simp)

interpretation smseq: invariant_system sm_init "\<lambda>s op s'. sm_step pr s op s' \<and> uninterrupted op"
  "\<lambda>s. sm_inv True (fst s) \<and> only_handshake_clear (fst s)"
  by unfold_locales (erule sm_init_inv, erule conjE, rule sm_step_inv)

section \<open>Effects of the operations\<close>

text \<open>A send that reports success has appended one frame, sealed under the key of the stream's cipher.\<close>

lemma send_enc_ok:
  assumes "aead_correct pr" and "send_enc pr (Some nc) w c d r m = (None, m')" and "c_aead (es_cipher (encs m r)) = Some k"
  shows "m' = m\<lparr>encs := (encs m)(r := (encs m r)\<lparr>es_stream := (es_stream (encs m r))
      \<lparr>frames := frames (es_stream (encs m r)) @ [frame_of pr k nc d]\<rparr>\<rparr>)\<rparr> \<and> \<not> es_closed (encs m r)"
proof -
  obtain es where es: "es_SendCtx pr (Some nc) w c d (encs m r) = (None, es)" "m' = m\<lparr>encs := (encs m)(r := es)\<rparr>"
    using assms(2) by (auto simp: send_enc_def split: prod.splits)
  have closed: "\<not> es_closed (encs m r)" using es(1) by (auto simp: es_SendCtx_def split: if_splits)
  have ns: "c_closed (es_cipher (encs m r)) \<Longrightarrow> Cipher_Encrypt pr (Some nc) (es_cipher (encs m r)) d [] = Inl CipherClosed"
    by (simp add: Cipher_Encrypt_def)
  obtain f where f: "Cipher_Encrypt pr (Some nc) (es_cipher (encs m r)) d [] = Inr f" "write_frame w f (es_stream (encs m r)) = (None, es_stream es)"
      "es = (encs m r)\<lparr>es_stream := es_stream es\<rparr>"
    using es(1) by (auto simp: es_SendCtx_def split: if_splits sum.splits prod.splits)
  then have "\<not> c_closed (es_cipher (encs m r))" using ns by auto
  with f(1) have "f = frame_of pr k nc d"
    using Cipher_Encrypt_seal [OF assms(1) assms(3)] by (simp add: frame_of_def)
  then show ?thesis using f(2,3) es(2) closed by (auto simp: write_frame_def split: write_result.splits)
qed

text \<open>A lazy open that nothing interrupts makes a new stream under the peer's key.\<close>

lemma openStreamLazilyCtx_ok:
  assumes "openStreamLazilyCtx ce ns c p n m = (Inr r, m1)"
    and "\<forall>r'. GetStream m p n = Some r' \<longrightarrow> r' < nencs m \<and> es_closed (encs m r')"
  shows "\<exists>raw ka es. ns = Inr raw \<and> sm_keys m p = Some ka \<and> is_allowed m p n \<and> r = nencs m \<and> nencs m1 = Suc r \<and>
     encs m1 = (encs m)(r := es) \<and> GetStream m1 p n = Some r \<and> es_stream es = raw \<and> c_aead (es_cipher es) = Some (sm_mem m ! ka) \<and> length (sm_mem m ! ka) = KeySize"
proof (cases "open_lock1 c p n m")
  case (Inl e)
  then show ?thesis using assms(1) by (simp add: openStreamLazilyCtx_def)
next
  case plan: (Inr pl)
  show ?thesis
  proof (cases pl)
    case (UseStream r')
    then show ?thesis using open_lock1_plan(2) plan assms(2) by blast
  next
    case pk: (OpenWithKey ka cfg)
    note lk = open_lock1_plan(1) [OF plan [unfolded pk]]
    obtain raw where raw: "ns = Inr raw" using assms(1) plan pk
      by (cases ns) (auto simp: openStreamLazilyCtx_def open_make_def)
    obtain x h where new: "NewEncryptedStream n p raw ka cfg (sm_mem m) = (x, h)" by fastforce
    obtain es where x: "x = Inr es" using assms(1) plan pk raw new
      by (cases x) (auto simp: openStreamLazilyCtx_def open_make_def)
    note f = NewEncryptedStream_fields [OF new [unfolded x]]
    define m0 where "m0 = snd (alloc_enc es (m\<lparr>sm_mem := h\<rparr>))"
    have m0: "alloc_enc es (m\<lparr>sm_mem := h\<rparr>) = (nencs m, m0)" "GetStream m0 = GetStream m"
      "encs m0 = (encs m)(nencs m := es\<lparr>es_cancelled := sm_cancelled m\<rparr>)" "nencs m0 = Suc (nencs m)"
      by (simp_all add: m0_def alloc_enc_def GetStream_def fun_eq_iff)
    have "open_lock2 ce p n (nencs m) m0 = (nencs m, put_stream p n (nencs m) m0)"
      using assms(2) by (auto simp: open_lock2_def m0(2,3) split: option.splits)
    then have "r = nencs m" "m1 = put_stream p n (nencs m) m0"
      using assms(1) plan pk raw new x m0(1) by (auto simp: openStreamLazilyCtx_def open_make_def)
    then show ?thesis
      using raw lk f m0 by (intro exI [of _ raw] exI [of _ ka] exI [of _ "es\<lparr>es_cancelled := sm_cancelled m\<rparr>"])
        (simp add: put_lookups)
  qed
qed

text \<open>A successful send for which there is no open stream opens one under the peer's key and writes one frame to it.\<close>

lemma sm_SendCtx_opens:
  assumes "aead_correct pr" and "n \<noteq> HandshakeStreamName"
    and "\<forall>r'. GetStream m p n = Some r' \<longrightarrow> r' < nencs m \<and> es_closed (encs m r')"
    and "sm_SendCtx pr (Some nc) w ns c p n d m = (None, m')"
  shows "\<exists>raw ka es. ns = Inr raw \<and> sm_keys m p = Some ka \<and> is_allowed m p n \<and> length (sm_mem m ! ka) = KeySize \<and>
     encs m' = (encs m)(nencs m := es) \<and> GetStream m' p n = Some (nencs m) \<and> c_aead (es_cipher es) = Some (sm_mem m ! ka) \<and>
     frames (es_stream es) = frames raw @ [frame_of pr (sm_mem m ! ka) nc d]"
proof -
  have nd: "\<not> ctx_Done c 0" using assms(4) by (auto simp: sm_SendCtx_def)
  obtain r m1 where o: "openStreamLazilyCtx (\<lambda>r. None) ns (ctx_after 1 c) p n m = (Inr r, m1)"
    and snd: "send_enc pr (Some nc) w (ctx_after 3 c) d r m1 = (None, m')"
    using assms(2-4) nd by (auto simp: sm_SendCtx_def split: option.splits sum.splits prod.splits)
  obtain raw ka es where x: "ns = Inr raw" "sm_keys m p = Some ka" "is_allowed m p n" "r = nencs m" "length (sm_mem m ! ka) = KeySize"
    "encs m1 = (encs m)(r := es)" "GetStream m1 p n = Some r" "es_stream es = raw" "c_aead (es_cipher es) = Some (sm_mem m ! ka)"
    using openStreamLazilyCtx_ok [OF o assms(3)] by blast
  then have k: "c_aead (es_cipher (encs m1 r)) = Some (sm_mem m ! ka)" by simp
  note e = send_enc_ok [OF assms(1) snd k]
  have "GetStream m' p n = Some r" using e x by (simp add: GetStream_def)
  then show ?thesis using e k x
    by (intro exI [of _ raw] exI [of _ ka] exI [of _ "encs m' r"]) simp
qed

text \<open>\<^verbatim>\<open>CloseStreams\<close> in one equation, up to the changes of the stream objects.\<close>

lemma CloseStreams_effect:
  assumes "CloseStreams ce cu rs us p m = (e, m')" and "\<And>n r. GetStream m p n = Some r \<Longrightarrow> r \<in> set rs"
    and "sm_keys m p = Some ka" and "ka < length (sm_mem m)"
  shows "sm_streams m' = (sm_streams m)(p := None)" "sm_unenc m' = (sm_unenc m)(p := None)"
    "sm_allowed m' = (sm_allowed m)(p := None)" "sm_keys m' = (sm_keys m)(p := None)" "zeroed (sm_mem m') ka"
    "length (sm_mem m' ! ka) = length (sm_mem m ! ka)" "nencs m' = nencs m"
    "\<And>n r. GetStream m p n = Some r \<Longrightarrow> es_closed (encs m' r)" "length (sm_mem m') = length (sm_mem m)"
proof -
  obtain e1 m1 where c1: "close_all (close_enc ce) rs (None, m) = (e1, m1)" by fastforce
  have s1: "same_maps m m1" using close_all_same [of "close_enc ce" m rs None] close_enc_same c1 by simp
  let ?m = "m1\<lparr>sm_streams := (sm_streams m1)(p := None)\<rparr>"
  obtain e2 m2 where c2: "close_all (close_unc cu) us (e1, ?m) = (e2, m2)" by fastforce
  have s2: "same_maps ?m m2" using close_all_same [of "close_unc cu" ?m us e1] close_unc_same c2 by simp
  have m': "m' = m2\<lparr>sm_unenc := (sm_unenc m2)(p := None), sm_allowed := (sm_allowed m2)(p := None),
      sm_mem := SecureZero ka (sm_mem m2), sm_keys := (sm_keys m2)(p := None)\<rparr>"
    using assms(1,3) s1 s2 by (simp add: CloseStreams_def c1 c2 same_maps_def)
  show "sm_streams m' = (sm_streams m)(p := None)" "sm_unenc m' = (sm_unenc m)(p := None)"
    "sm_allowed m' = (sm_allowed m)(p := None)" "sm_keys m' = (sm_keys m)(p := None)"
    "length (sm_mem m' ! ka) = length (sm_mem m ! ka)" "nencs m' = nencs m" "length (sm_mem m') = length (sm_mem m)"
    using s1 s2 by (simp_all add: m' same_maps_def)
  show "zeroed (sm_mem m') ka" using SecureZero_zeroed [of ka "sm_mem m2"] assms(4) s1 s2 by (simp add: m' same_maps_def)
  show "es_closed (encs m' r)" if "GetStream m p n = Some r" for n r
  proof -
    have "es_closed (encs m1 r)" using close_all_enc_closes [OF assms(2) [OF that], of ce None m] c1 by simp
    then show ?thesis using s2 by (simp add: m' same_maps_def)
  qed
qed

section \<open>Properties\<close>

text \<open>
  Property C8: Whatever the goroutines do to a new manager, and however lazy opens are interleaved with the other
  calls, a stream found for a peer and a name is an object of that peer and that name, and every unencrypted
  stream ever made is a handshake stream. If no lazy open is overtaken, a stream is found only under a name
  that is allowed for its peer, and the peer has a key.
\<close>

theorem stream_manager_invariant:
  assumes "runs (sm_step pr) (NewStreamManager md h ch, []) ops (m, ps)"
  shows "(\<forall>p n r. GetStream m p n = Some r \<longrightarrow>
            r < nencs m \<and> es_peerID (encs m r) = p \<and> es_name (encs m r) = n \<and>
            (list_all uninterrupted ops \<longrightarrow> is_allowed m p n \<and> sm_keys m p \<noteq> None)) \<and>
         (\<forall>r < nuncs m. us_name (uncs m r) = HandshakeStreamName)"
proof -
  have init: "sm_init (NewStreamManager md h ch, [])" by (auto simp: sm_init_def)
  have weak: "sm_inv False m" "only_handshake_clear m" using smsys.inv_reachable [OF init assms] by simp_all
  have strong: "sm_inv True m" if "list_all uninterrupted ops"
    using smseq.inv_reachable [OF init runs_restrict [OF assms, of uninterrupted]] that by (simp add: list_all_iff)
  show ?thesis using sm_inv_lookup(1) [OF weak(1)] sm_inv_lookup(1) [OF strong] weak(2)
    by (auto simp: only_handshake_clear_def)
qed

text \<open>
  Property C7: A successful send under any name but the handshake's encrypts: it leaves all unencrypted streams alone,
  and adds exactly one frame, the message sealed under the key of the stream that is then found for the peer and
  the name; no other stream gets a frame. If the stream is a new one, its name is allowed and its key is the
  peer's shared key.
\<close>

theorem send_encrypts:
  assumes "aead_correct pr" and "n \<noteq> HandshakeStreamName" and "sm_inv False m"
    and "\<forall>r. GetStream m p n = Some r \<longrightarrow> c_aead (es_cipher (encs m r)) \<noteq> None \<or> es_closed (encs m r)"
    and "sm_SendCtx pr (Some nc) w ns c p n d m = (None, m')"
  shows "uncs m' = uncs m \<and> sm_unenc m' = sm_unenc m \<and>
     (\<exists>r k old. GetStream m' p n = Some r \<and> c_aead (es_cipher (encs m' r)) = Some k \<and>
        frames (es_stream (encs m' r)) = old @ [frame_of pr k nc d] \<and>
        (\<forall>r'. r' \<noteq> r \<longrightarrow> encs m' r' = encs m r') \<and>
        (r < nencs m \<and> old = frames (es_stream (encs m r)) \<or>
         (\<exists>raw ka. r = nencs m \<and> ns = Inr raw \<and> old = frames raw \<and> is_allowed m p n \<and>
            sm_keys m p = Some ka \<and> k = sm_mem m ! ka)))"
proof -
  have clear: "uncs m' = uncs m \<and> sm_unenc m' = sm_unenc m" using sm_SendCtx_uncs [OF assms(2), of pr "Some nc" w ns c p d m] assms(5) by simp
  have nd: "\<not> ctx_Done c 0" using assms(5) by (auto simp: sm_SendCtx_def)
  show ?thesis
  proof (cases "\<exists>r. GetStream m p n = Some r \<and> \<not> es_closed (encs m r)")
    case True
    then obtain r where r: "GetStream m p n = Some r" "\<not> es_closed (encs m r)" by blast
    then obtain k where k: "c_aead (es_cipher (encs m r)) = Some k" using assms(4) by auto
    have "send_enc pr (Some nc) w (ctx_after 1 c) d r m = (None, m')" using assms(2,5) nd r by (simp add: sm_SendCtx_def)
    note e = send_enc_ok [OF assms(1) this k]
    have "GetStream m' p n = Some r" using e r by (simp add: GetStream_def)
    then show ?thesis using clear e k sm_inv_lookup(1) [OF assms(3) r(1)]
      by (intro conjI exI [of _ r] exI [of _ k] exI [of _ "frames (es_stream (encs m r))"]) simp_all
  next
    case False
    then have cl: "\<forall>r'. GetStream m p n = Some r' \<longrightarrow> r' < nencs m \<and> es_closed (encs m r')"
      using sm_inv_lookup(1) [OF assms(3)] by blast
    obtain raw ka es where x: "ns = Inr raw" "sm_keys m p = Some ka" "is_allowed m p n"
      "encs m' = (encs m)(nencs m := es)" "GetStream m' p n = Some (nencs m)" "c_aead (es_cipher es) = Some (sm_mem m ! ka)"
      "frames (es_stream es) = frames raw @ [frame_of pr (sm_mem m ! ka) nc d]"
      using sm_SendCtx_opens [OF assms(1,2) cl assms(5)] by blast
    then show ?thesis using clear
      by (intro conjI exI [of _ "nencs m"] exI [of _ "sm_mem m ! ka"] exI [of _ "frames raw"]) simp_all
  qed
qed

text \<open>
  Closing the streams of a peer closes every encrypted stream of the peer, zeroes the shared key's buffer
  and forgets key and permissions; other peers keep theirs. Afterwards a send or an incoming stream of the
  peer under any name but the handshake's is refused as not allowed and changes nothing, until streams are
  established again.
\<close>

theorem CloseStreams_revokes:
  assumes "CloseStreams ce cu rs us p m = (e, m')" and "\<forall>n r. GetStream m p n = Some r \<longrightarrow> r \<in> set rs"
    and "sm_keys m p = Some ka" and "ka < length (sm_mem m)"
  shows "zeroed (sm_mem m') ka \<and> sm_keys m' p = None \<and>
     (\<forall>n r. GetStream m p n = Some r \<longrightarrow> es_closed (encs m' r)) \<and>
     (\<forall>n. n \<noteq> HandshakeStreamName \<longrightarrow>
        sm_SendCtx pr nonce w ns Background p n d m' = (Some (SMNotAllowed n), m') \<and>
        HandleIncomingStream p n raw m' = (Some (SMNotAllowed n), m')) \<and>
     (\<forall>q n. q \<noteq> p \<longrightarrow> GetStream m' q n = GetStream m q n \<and> is_allowed m' q n = is_allowed m q n \<and>
        sm_keys m' q = sm_keys m q)"
proof -
  note x = CloseStreams_effect [OF assms(1) _ assms(3,4)]
  have in_rs: "\<And>n r. GetStream m p n = Some r \<Longrightarrow> r \<in> set rs" using assms(2) by blast
  have "\<not> is_allowed m' p n \<and> GetStream m' p n = None" for n
    using x(1,3) in_rs by (simp add: is_allowed_def GetStream_def)
  then show ?thesis
    using x [OF in_rs]
    by (auto simp: sm_SendCtx_def openStreamLazilyCtx_def open_lock1_def HandleIncomingStream_def GetStream_def is_allowed_def
        ctx_after_def Background_def ctx_Done_def)
qed

text \<open>
  A lazy open that is overtaken by \<^verbatim>\<open>CloseStreams\<close> uses the key buffer after it was zeroed: it stores a usable
  stream for a peer that has neither key nor permission, and what is sent on it is sealed under the all-zero key.
\<close>

theorem overtaken_open_uses_zero_key:
  assumes "open_lock1 c p n m = Inr (OpenWithKey ka cfg)" and "CloseStreams ce cu rs us p m = (e, m1)"
    and "\<forall>n r. GetStream m p n = Some r \<longrightarrow> r \<in> set rs"
    and "ka < length (sm_mem m)" and "length (sm_mem m ! ka) = KeySize" and "aead_correct pr"
    and "length nc = NonceSize" and "n \<noteq> HandshakeStreamName"
  shows "\<exists>m2. sm_exec pr (OpFinishOpen 0 (Inr raw) ce) (sm_exec pr (OpCloseStreams ce cu rs us p)
             (sm_exec pr (OpBeginOpen c p n) (m, []))) = (m2, []) \<and>
     GetStream m2 p n = Some (nencs m) \<and> \<not> is_allowed m2 p n \<and> sm_keys m2 p = None \<and>
     (\<exists>m3. sm_SendCtx pr (Some nc) WriteOk ns Background p n d m2 = (None, m3) \<and>
        frames (es_stream (encs m3 (nencs m))) = frames raw @ [frame_of pr (replicate KeySize 0) nc d])"
proof -
  note lk = open_lock1_plan(1) [OF assms(1)]
  then have key: "sm_keys m p = Some ka" by blast
  have in_rs: "\<And>n r. GetStream m p n = Some r \<Longrightarrow> r \<in> set rs" using assms(3) by blast
  note x = CloseStreams_effect [OF assms(2) in_rs key assms(4)]
  have nm: "nencs m1 = nencs m" and len: "length (sm_mem m1 ! ka) = KeySize" using x(6,7) assms(5) by simp_all
  have zero: "sm_mem m1 ! ka = replicate KeySize 0"
    using x(5) len by (auto simp: zeroed_def intro: replicate_eqI)
  obtain es h where new: "NewEncryptedStream n p raw ka cfg (sm_mem m1) = (Inr es, h)"
    using len by (auto simp: NewEncryptedStream_def NewCipher_def alloc_def)
  note f = NewEncryptedStream_fields [OF new]
  have ci: "\<not> es_cancelled es" using new by (auto simp: NewEncryptedStream_def split: prod.splits sum.splits)
  define es' where "es' = es\<lparr>es_cancelled := sm_cancelled m1\<rparr>"
  define m2 where "m2 = put_stream p n (nencs m) (m1\<lparr>sm_mem := h, encs := (encs m1)(nencs m := es'), nencs := Suc (nencs m)\<rparr>)"
  have no: "GetStream m1 p n = None" using x(1) by (simp add: GetStream_def)
  have fin: "finish_open 0 (Inr raw) ce (m1, [(p, n, ka, cfg)]) = (m2, [])"
    using no by (simp add: finish_open_def open_make_def new alloc_enc_def open_lock2_def m2_def nm es'_def GetStream_def
        split: option.splits)
  have g: "GetStream m2 p n = Some (nencs m)" by (simp add: m2_def put_lookups)
  have na: "\<not> is_allowed m2 p n" "sm_keys m2 p = None" using x(3,4) by (simp_all add: m2_def put_lookups is_allowed_def)
  have e2: "encs m2 (nencs m) = es'" by (simp add: m2_def)
  have enc: "Cipher_Encrypt pr (Some nc) (es_cipher es') d [] = Inr (frame_of pr (replicate KeySize 0) nc d)"
    using Cipher_Encrypt_seal [OF assms(6), of "es_cipher es'" "replicate KeySize 0" nc d "[]"] f assms(7)
    by (simp add: es'_def zero frame_of_def)
  have "es_SendCtx pr (Some nc) WriteOk (ctx_after 1 Background) d es' =
      (None, es'\<lparr>es_stream := raw\<lparr>frames := frames raw @ [frame_of pr (replicate KeySize 0) nc d]\<rparr>\<rparr>)"
    using f enc by (simp add: es_SendCtx_def es'_def write_frame_def ctx_after_def Background_def ctx_Done_def)
  moreover have "\<not> es_closed es'" using f by (simp add: es'_def)
  ultimately have "\<exists>m3. sm_SendCtx pr (Some nc) WriteOk ns Background p n d m2 = (None, m3) \<and>
        frames (es_stream (encs m3 (nencs m))) = frames raw @ [frame_of pr (replicate KeySize 0) nc d]"
    using g e2 assms(8) by (simp add: sm_SendCtx_def send_enc_def)
  then show ?thesis using fin g na assms(1,2) by (intro exI [of _ m2]) (simp add: begin_open_def)
qed

section \<open>Concrete inputs\<close>

text \<open>A manager with a key and one allowed name for one peer.\<close>

definition toy_md :: Module where
  "toy_md = \<lparr>ed25519Private = 0, ed25519Public = [], x25519Private = 1, x25519Public = [], peerKeys = Map.empty, m_closed = False\<rparr>"

definition toy_smgr :: smgr where
  "toy_smgr =
     (NewStreamManager toy_md [replicate 32 9] (make_chan 3))
     \<lparr>sm_keys := [''p'' \<mapsto> 0], sm_allowed := [''p'' \<mapsto> (\<lambda>n. n = ''chat'')]\<rparr>"

lemmas toy_smgr_eval = toy_smgr_def NewStreamManager_def GetStream_def get_unenc_def is_allowed_def

lemma toy_smgr_no_streams: "GetStream toy_smgr p n = None" "sm_keys toy_smgr ''p'' = Some 0" "sm_mem toy_smgr = [replicate 32 9]"
  by (simp_all add: toy_smgr_eval)

lemma toy_smgr_inv: "sm_inv False toy_smgr"
  by (simp add: sm_inv_def toy_smgr_eval)

theorem stream_manager_invariant_witness:
  "\<exists>m. runs (sm_step toy_prims) (NewStreamManager toy_md [] (make_chan 3), []) [OpIncomingHandshake ''p'' \<lparr>frames = [], raw_closed = False\<rparr>] (m, []) \<and>
     nuncs m = 1 \<and> us_name (uncs m 0) = HandshakeStreamName"
proof -
  let ?op = "OpIncomingHandshake ''p'' \<lparr>frames = [], raw_closed = False\<rparr>"
  let ?m = "snd (HandleIncomingHandshakeStream ''p'' \<lparr>frames = [], raw_closed = False\<rparr> (NewStreamManager toy_md [] (make_chan 3)))"
  have r: "runs (sm_step toy_prims) (NewStreamManager toy_md [] (make_chan 3), []) [?op] (?m, [])"
    by (rule runs_cons [OF _ runs_nil]) (simp add: sm_step_def)
  have "nuncs ?m = 1"
    by (simp add: HandleIncomingHandshakeStream_def OpenHandshakeStream_def NewStreamManager_def get_unenc_def alloc_unc_def)
  then show ?thesis using stream_manager_invariant [OF r] r by auto
qed

theorem send_encrypts_witness:
  "\<exists>m'. sm_SendCtx toy_prims (Some (replicate 12 1)) WriteOk (Inr \<lparr>frames = [], raw_closed = False\<rparr>) Background ''p'' ''chat'' [4, 2] toy_smgr = (None, m') \<and>
     uncs m' = uncs toy_smgr \<and>
     (\<exists>r. GetStream m' ''p'' ''chat'' = Some r \<and>
        (\<exists>k old. frames (es_stream (encs m' r)) = old @ [frame_of toy_prims k (replicate 12 1) [4, 2]]))"
proof -
  let ?s = "sm_SendCtx toy_prims (Some (replicate 12 1)) WriteOk (Inr \<lparr>frames = [], raw_closed = False\<rparr>) Background ''p'' ''chat'' [4, 2] toy_smgr"
  have "fst ?s = None"
    by (simp add: sm_SendCtx_def openStreamLazilyCtx_def open_lock1_def open_make_def open_lock2_def send_enc_def es_SendCtx_def
        toy_smgr_eval HandshakeStreamName_def ctx_after_def Background_def ctx_Done_def NewEncryptedStream_def NewCipher_def KeySize_def
        alloc_def alloc_enc_def put_stream_def Cipher_Encrypt_def encryptWithNonceLocked_def NonceSize_def TagSize_def toy_prims_def Let_def
        write_frame_def)
  then have s: "?s = (None, snd ?s)" by (metis prod.collapse)
  have "''chat'' \<noteq> HandshakeStreamName" by (simp add: HandshakeStreamName_def)
  from send_encrypts [OF toy_aead(1) this toy_smgr_inv _ s] show ?thesis
    by (intro exI [of _ "snd ?s"]) (use s toy_smgr_no_streams in auto)
qed

theorem CloseStreams_revokes_witness:
  "\<exists>e m'. CloseStreams (\<lambda>r. None) (\<lambda>r. None) [] [] ''p'' toy_smgr = (e, m') \<and> zeroed (sm_mem m') 0 \<and>
     sm_SendCtx toy_prims None WriteOk (Inl ''no network'') Background ''p'' ''chat'' [4, 2] m' = (Some (SMNotAllowed ''chat''), m')"
proof -
  obtain e m' where c: "CloseStreams (\<lambda>r. None) (\<lambda>r. None) [] [] ''p'' toy_smgr = (e, m')" by fastforce
  have "\<forall>n r. GetStream toy_smgr ''p'' n = Some r \<longrightarrow> r \<in> set []" "0 < length (sm_mem toy_smgr)"
    by (simp_all add: toy_smgr_no_streams)
  note x = CloseStreams_revokes [OF c this(1) toy_smgr_no_streams(2) this(2), of toy_prims None WriteOk "Inl ''no network''" "[4, 2]"
      "\<lparr>frames = [], raw_closed = False\<rparr>"]
  have "''chat'' \<noteq> HandshakeStreamName" by (simp add: HandshakeStreamName_def)
  with x c show ?thesis by blast
qed

theorem overtaken_open_uses_zero_key_witness:
  "\<exists>m2 m3. GetStream m2 ''p'' ''chat'' = Some 0 \<and> \<not> is_allowed m2 ''p'' ''chat'' \<and>
     sm_SendCtx toy_prims (Some (replicate 12 1)) WriteOk (Inl ''no network'') Background ''p'' ''chat'' [4, 2] m2 = (None, m3) \<and>
     frames (es_stream (encs m3 0)) = [frame_of toy_prims (replicate KeySize 0) (replicate 12 1) [4, 2]]"
proof -
  obtain e m1 where c: "CloseStreams (\<lambda>r. None) (\<lambda>r. None) [] [] ''p'' toy_smgr = (e, m1)" by fastforce
  have o: "open_lock1 Background ''p'' ''chat'' toy_smgr = Inr (OpenWithKey 0 (sm_config toy_smgr))"
    by (simp add: open_lock1_def toy_smgr_no_streams) (simp add: toy_smgr_eval)
  have "\<forall>n r. GetStream toy_smgr ''p'' n = Some r \<longrightarrow> r \<in> set []" "0 < length (sm_mem toy_smgr)"
    "length (sm_mem toy_smgr ! 0) = KeySize" "length (replicate 12 1 :: bytes) = NonceSize" "''chat'' \<noteq> HandshakeStreamName"
    "nencs toy_smgr = 0"
    by (simp_all add: toy_smgr_no_streams KeySize_def NonceSize_def HandshakeStreamName_def) (simp add: toy_smgr_eval)
  with overtaken_open_uses_zero_key [OF o c _ _ _ toy_aead(1), of "replicate 12 1" "\<lparr>frames = [], raw_closed = False\<rparr>"
      "Inl ''no network''" "[4, 2]"]
  show ?thesis by (metis append_Nil raw_stream.select_convs(1))
qed

end
