(* ===== verification/Stats.thy ===== *)
theory Stats
  imports Prelude
begin

text \<open>
  Per-peer statistics (\<^verbatim>\<open>src/stats.go\<close>). The counters are 64-bit integers that wrap; the clock is an input; the callback
  for nonce exhaustion is set or nil, and its invocation is returned. Every method holds the tracker's mutex.
  The lemmas describe a tracker after any history of its methods.
\<close>

section \<open>The tracker\<close>

definition NonceExhaustionWarningThreshold :: int where
  "NonceExhaustionWarningThreshold = 2 ^ 40"

record streamStatsInternal =
  ss_messagesSent :: int
  ss_messagesReceived :: int
  ss_bytesSent :: int
  ss_bytesReceived :: int
  ss_lastSentAt :: time_ns
  ss_lastReceivedAt :: time_ns

definition new_streamStats :: streamStatsInternal where
  "new_streamStats = \<lparr>ss_messagesSent = 0, ss_messagesReceived = 0, ss_bytesSent = 0, ss_bytesReceived = 0,
     ss_lastSentAt = 0, ss_lastReceivedAt = 0\<rparr>"

record PeerStatsTracker =
  st_peerID :: peer_id
  connectedAt :: time_ns
  totalConnectTime :: duration
  messagesSent :: int
  messagesReceived :: int
  bytesSent :: int
  bytesReceived :: int
  streamStats :: "string \<rightharpoonup> streamStatsInternal"
  lastMessageAt :: time_ns
  connectionCount :: int
  failureCount :: int
  nonceWarningEmitted :: bool
  onNonceExhaustion :: bool

definition NewPeerStatsTracker :: "peer_id \<Rightarrow> bool \<Rightarrow> PeerStatsTracker" where
  "NewPeerStatsTracker p cb =
     \<lparr>st_peerID = p, connectedAt = 0, totalConnectTime = 0, messagesSent = 0, messagesReceived = 0, bytesSent = 0,
      bytesReceived = 0, streamStats = Map.empty, lastMessageAt = 0, connectionCount = 0, failureCount = 0,
      nonceWarningEmitted = False, onNonceExhaustion = cb\<rparr>"

definition RecordConnectionStart :: "time_ns \<Rightarrow> PeerStatsTracker \<Rightarrow> PeerStatsTracker" where
  "RecordConnectionStart now s = s\<lparr>connectedAt := now, connectionCount := wrap64 (connectionCount s + 1)\<rparr>"

definition RecordConnectionEnd :: "time_ns \<Rightarrow> PeerStatsTracker \<Rightarrow> PeerStatsTracker" where
  "RecordConnectionEnd now s =
     (if connectedAt s \<noteq> 0
      then s\<lparr>totalConnectTime := wrap64 (totalConnectTime s + (now - connectedAt s)), connectedAt := 0\<rparr>
      else s)"

definition RecordFailure :: "PeerStatsTracker \<Rightarrow> PeerStatsTracker" where
  "RecordFailure s = s\<lparr>failureCount := wrap64 (failureCount s + 1)\<rparr>"

definition stream_stats :: "string \<Rightarrow> PeerStatsTracker \<Rightarrow> streamStatsInternal" where
  "stream_stats name s = (case streamStats s name of None \<Rightarrow> new_streamStats | Some ss \<Rightarrow> ss)"

text \<open>The counters, before the check for the warning.\<close>

definition count_sent :: "time_ns \<Rightarrow> string \<Rightarrow> int \<Rightarrow> PeerStatsTracker \<Rightarrow> PeerStatsTracker" where
  "count_sent now streamName sz s =
     (let ss = stream_stats streamName s;
          ss1 = ss\<lparr>ss_messagesSent := wrap64 (ss_messagesSent ss + 1), ss_bytesSent := wrap64 (ss_bytesSent ss + sz),
                   ss_lastSentAt := now\<rparr>
      in s\<lparr>messagesSent := wrap64 (messagesSent s + 1), bytesSent := wrap64 (bytesSent s + sz),
           lastMessageAt := now, streamStats := (streamStats s)(streamName \<mapsto> ss1)\<rparr>)"

text \<open>The second result is the invocation of the callback, if any: the peer and the message count.\<close>

definition RecordMessageSent :: "time_ns \<Rightarrow> string \<Rightarrow> int \<Rightarrow> PeerStatsTracker \<Rightarrow>
    PeerStatsTracker \<times> (peer_id \<times> int) option" where
  "RecordMessageSent now streamName sz s =
     (let s1 = count_sent now streamName sz s;
          shouldWarn = (\<not> nonceWarningEmitted s1 \<and> messagesSent s1 \<ge> NonceExhaustionWarningThreshold \<and> onNonceExhaustion s1);
          s2 = (if shouldWarn then s1\<lparr>nonceWarningEmitted := True\<rparr> else s1)
      in (s2, if shouldWarn \<and> onNonceExhaustion s2 then Some (st_peerID s2, messagesSent s2) else None))"

definition RecordMessageReceived :: "time_ns \<Rightarrow> string \<Rightarrow> int \<Rightarrow> PeerStatsTracker \<Rightarrow> PeerStatsTracker" where
  "RecordMessageReceived now streamName sz s =
     (let ss = stream_stats streamName s;
          ss1 = ss\<lparr>ss_messagesReceived := wrap64 (ss_messagesReceived ss + 1),
                   ss_bytesReceived := wrap64 (ss_bytesReceived ss + sz), ss_lastReceivedAt := now\<rparr>
      in s\<lparr>messagesReceived := wrap64 (messagesReceived s + 1), bytesReceived := wrap64 (bytesReceived s + sz),
           lastMessageAt := now, streamStats := (streamStats s)(streamName \<mapsto> ss1)\<rparr>)"

section \<open>Snapshots\<close>

record StreamStats =
  sn_Name :: string
  sn_MessagesSent :: int
  sn_MessagesReceived :: int
  sn_BytesSent :: int
  sn_BytesReceived :: int
  sn_LastSentAt :: time_ns
  sn_LastReceivedAt :: time_ns

record PeerStats =
  ps_PeerID :: peer_id
  ps_Connected :: bool
  ps_IsOutbound :: bool
  ps_ConnectedAt :: time_ns
  ps_TotalConnectTime :: duration
  ps_MessagesSent :: int
  ps_MessagesReceived :: int
  ps_BytesSent :: int
  ps_BytesReceived :: int
  ps_StreamStats :: "string \<rightharpoonup> StreamStats"
  ps_LastMessageAt :: time_ns
  ps_ConnectionCount :: int
  ps_FailureCount :: int

definition stream_snapshot :: "string \<Rightarrow> streamStatsInternal \<Rightarrow> StreamStats" where
  "stream_snapshot name ss =
     \<lparr>sn_Name = name, sn_MessagesSent = ss_messagesSent ss, sn_MessagesReceived = ss_messagesReceived ss,
      sn_BytesSent = ss_bytesSent ss, sn_BytesReceived = ss_bytesReceived ss, sn_LastSentAt = ss_lastSentAt ss,
      sn_LastReceivedAt = ss_lastReceivedAt ss\<rparr>"

definition Snapshot :: "time_ns \<Rightarrow> peer_id \<Rightarrow> bool \<Rightarrow> bool \<Rightarrow> PeerStatsTracker \<Rightarrow> PeerStats" where
  "Snapshot now p connected isOutbound s =
     \<lparr>ps_PeerID = p, ps_Connected = connected, ps_IsOutbound = isOutbound, ps_ConnectedAt = connectedAt s,
      ps_TotalConnectTime =
        (if connected \<and> connectedAt s \<noteq> 0 then wrap64 (totalConnectTime s + (now - connectedAt s)) else totalConnectTime s),
      ps_MessagesSent = messagesSent s, ps_MessagesReceived = messagesReceived s, ps_BytesSent = bytesSent s,
      ps_BytesReceived = bytesReceived s,
      ps_StreamStats = (\<lambda>name. map_option (stream_snapshot name) (streamStats s name)),
      ps_LastMessageAt = lastMessageAt s, ps_ConnectionCount = connectionCount s, ps_FailureCount = failureCount s\<rparr>"

definition LastActivity :: "time_ns \<Rightarrow> PeerStatsTracker \<Rightarrow> time_ns" where
  "LastActivity now s = (if connectedAt s \<noteq> 0 then now else lastMessageAt s)"

section \<open>Histories\<close>

datatype stat_op =
    SStart time_ns | SEnd time_ns | SFail
  | SSent time_ns string int | SRecv time_ns string int

fun stat_exec :: "stat_op \<Rightarrow> PeerStatsTracker \<Rightarrow> PeerStatsTracker \<times> (peer_id \<times> int) option" where
  "stat_exec (SStart t) s = (RecordConnectionStart t s, None)"
| "stat_exec (SEnd t) s = (RecordConnectionEnd t s, None)"
| "stat_exec SFail s = (RecordFailure s, None)"
| "stat_exec (SSent t n k) s = RecordMessageSent t n k s"
| "stat_exec (SRecv t n k) s = (RecordMessageReceived t n k s, None)"

text \<open>The tracker and the invocations of the callback after a history.\<close>

fun stat_run :: "stat_op list \<Rightarrow> PeerStatsTracker \<Rightarrow> PeerStatsTracker \<times> (peer_id \<times> int) list" where
  "stat_run [] s = (s, [])"
| "stat_run (op # ops) s =
     (case stat_exec op s of (s1, c) \<Rightarrow>
        (case stat_run ops s1 of (s2, cs) \<Rightarrow> (s2, (case c of None \<Rightarrow> cs | Some x \<Rightarrow> x # cs))))"

text \<open>What a history sent and received under a name, as a list of sizes.\<close>

fun sent_sizes :: "(string \<Rightarrow> bool) \<Rightarrow> stat_op list \<Rightarrow> int list" where
  "sent_sizes P [] = []"
| "sent_sizes P (SSent t n k # ops) = (if P n then k # sent_sizes P ops else sent_sizes P ops)"
| "sent_sizes P (_ # ops) = sent_sizes P ops"

fun recv_sizes :: "(string \<Rightarrow> bool) \<Rightarrow> stat_op list \<Rightarrow> int list" where
  "recv_sizes P [] = []"
| "recv_sizes P (SRecv t n k # ops) = (if P n then k # recv_sizes P ops else recv_sizes P ops)"
| "recv_sizes P (_ # ops) = recv_sizes P ops"

section \<open>Lemmas\<close>

lemma wrap64_add_left: "wrap64 (wrap64 x + k) = wrap64 (x + k)"
proof -
  have "((x + 2 ^ 63) mod 2 ^ 64 - 2 ^ 63 + k + 2 ^ 63) mod 2 ^ 64 = ((x + 2 ^ 63) mod 2 ^ 64 + k) mod (2 ^ 64 :: int)"
    by (simp add: algebra_simps)
  also have "\<dots> = (x + k + 2 ^ 63) mod 2 ^ 64" by (simp add: mod_simps algebra_simps)
  finally show ?thesis by (simp add: wrap64_def)
qed

lemma wrap64_add_right: "wrap64 (k + wrap64 x) = wrap64 (k + x)"
  using wrap64_add_left [of x k] by (simp add: add.commute)

lemma stat_run_snoc:
  "stat_run (ops @ [op]) s =
     (case stat_run ops s of (s1, cs) \<Rightarrow>
        (case stat_exec op s1 of (s2, c) \<Rightarrow> (s2, cs @ (case c of None \<Rightarrow> [] | Some x \<Rightarrow> [x]))))"
  by (induction ops arbitrary: s) (auto split: prod.splits option.splits)

lemma sent_sizes_append [simp]: "sent_sizes P (ops @ ops') = sent_sizes P ops @ sent_sizes P ops'"
  by (induction P ops rule: sent_sizes.induct) simp_all

lemma recv_sizes_append [simp]: "recv_sizes P (ops @ ops') = recv_sizes P ops @ recv_sizes P ops'"
  by (induction P ops rule: recv_sizes.induct) simp_all

lemma count_sent_fields [simp]:
  "st_peerID (count_sent t n k s) = st_peerID s" "onNonceExhaustion (count_sent t n k s) = onNonceExhaustion s"
  "messagesSent (count_sent t n k s) = wrap64 (messagesSent s + 1)" "bytesSent (count_sent t n k s) = wrap64 (bytesSent s + k)"
  "messagesReceived (count_sent t n k s) = messagesReceived s" "bytesReceived (count_sent t n k s) = bytesReceived s"
  "nonceWarningEmitted (count_sent t n k s) = nonceWarningEmitted s"
  "streamStats (count_sent t n k s) = (streamStats s)(n \<mapsto> (stream_stats n s)\<lparr>ss_messagesSent := wrap64 (ss_messagesSent (stream_stats n s) + 1),
     ss_bytesSent := wrap64 (ss_bytesSent (stream_stats n s) + k), ss_lastSentAt := t\<rparr>)"
  by (simp_all add: count_sent_def Let_def)

lemmas stat_defs = RecordConnectionStart_def RecordConnectionEnd_def RecordFailure_def RecordMessageSent_def count_sent_def
  RecordMessageReceived_def NewPeerStatsTracker_def stream_stats_def new_streamStats_def Let_def

text \<open>The counters of one name, and of all names together.\<close>

definition counts :: "(string \<Rightarrow> bool) \<Rightarrow> stat_op list \<Rightarrow> int \<times> int \<times> int \<times> int" where
  "counts P ops =
     (wrap64 (int (length (sent_sizes P ops))), wrap64 (sum_list (sent_sizes P ops)),
      wrap64 (int (length (recv_sizes P ops))), wrap64 (sum_list (recv_sizes P ops)))"

definition tracker_counts :: "PeerStatsTracker \<Rightarrow> int \<times> int \<times> int \<times> int" where
  "tracker_counts s = (messagesSent s, bytesSent s, messagesReceived s, bytesReceived s)"

definition stream_counts :: "streamStatsInternal \<Rightarrow> int \<times> int \<times> int \<times> int" where
  "stream_counts ss = (ss_messagesSent ss, ss_bytesSent ss, ss_messagesReceived ss, ss_bytesReceived ss)"

lemma counts_step:
  assumes "tracker_counts s = counts (\<lambda>n. True) ops" and "\<forall>n. stream_counts (stream_stats n s) = counts (\<lambda>m. m = n) ops"
    and "stat_exec op s = (s', c)"
  shows "tracker_counts s' = counts (\<lambda>n. True) (ops @ [op]) \<and>
     (\<forall>n. stream_counts (stream_stats n s') = counts (\<lambda>m. m = n) (ops @ [op]))"
proof -
  note w = wrap64_add_left wrap64_add_right add.commute
  show ?thesis
  proof (cases op)
    case (SStart t)
    then show ?thesis using assms by (auto simp: counts_def tracker_counts_def stream_counts_def stat_defs)
  next
    case (SEnd t)
    then show ?thesis using assms by (auto simp: counts_def tracker_counts_def stream_counts_def stat_defs)
  next
    case SFail
    then show ?thesis using assms by (auto simp: counts_def tracker_counts_def stream_counts_def stat_defs)
  next
    case (SSent t n k)
    then have s': "messagesSent s' = wrap64 (messagesSent s + 1)" "bytesSent s' = wrap64 (bytesSent s + k)"
      "messagesReceived s' = messagesReceived s" "bytesReceived s' = bytesReceived s"
      "stream_stats m s' = (if m = n then (stream_stats n s)\<lparr>ss_messagesSent := wrap64 (ss_messagesSent (stream_stats n s) + 1),
         ss_bytesSent := wrap64 (ss_bytesSent (stream_stats n s) + k), ss_lastSentAt := t\<rparr> else stream_stats m s)" for m
      using assms(3) by (auto simp: RecordMessageSent_def stream_stats_def Let_def split: if_splits)
    then show ?thesis using assms(1,2) SSent by (auto simp: counts_def tracker_counts_def stream_counts_def w)
  next
    case (SRecv t n k)
    then have s': "messagesSent s' = messagesSent s" "bytesSent s' = bytesSent s"
      "messagesReceived s' = wrap64 (messagesReceived s + 1)" "bytesReceived s' = wrap64 (bytesReceived s + k)"
      "stream_stats m s' = (if m = n then (stream_stats n s)\<lparr>ss_messagesReceived := wrap64 (ss_messagesReceived (stream_stats n s) + 1),
         ss_bytesReceived := wrap64 (ss_bytesReceived (stream_stats n s) + k), ss_lastReceivedAt := t\<rparr> else stream_stats m s)" for m
      using assms(3) by (auto simp: RecordMessageReceived_def Let_def) (auto simp: stream_stats_def)
    then show ?thesis using assms(1,2) SRecv by (auto simp: counts_def tracker_counts_def stream_counts_def w)
  qed
qed

lemma wrap64_0 [simp]: "wrap64 0 = 0"
  by (simp add: wrap64_def)

lemma stat_run_counts:
  "tracker_counts (fst (stat_run ops (NewPeerStatsTracker p cb))) = counts (\<lambda>n. True) ops \<and>
   (\<forall>n. stream_counts (stream_stats n (fst (stat_run ops (NewPeerStatsTracker p cb)))) = counts (\<lambda>m. m = n) ops)"
proof (induction ops rule: rev_induct)
  case Nil
  then show ?case by (simp add: counts_def tracker_counts_def stream_counts_def stat_defs)
next
  case (snoc op ops)
  obtain s1 cs where r: "stat_run ops (NewPeerStatsTracker p cb) = (s1, cs)" by fastforce
  obtain s2 c where e: "stat_exec op s1 = (s2, c)" by fastforce
  have "fst (stat_run (ops @ [op]) (NewPeerStatsTracker p cb)) = s2" by (simp add: stat_run_snoc r e)
  then show ?case using counts_step [OF _ _ e] snoc.IH r by simp
qed

lemma RecordMessageSent_fields:
  assumes "RecordMessageSent t n k s = (s', c)"
  shows "st_peerID s' = st_peerID s" "onNonceExhaustion s' = onNonceExhaustion s" "messagesSent s' = wrap64 (messagesSent s + 1)"
    "nonceWarningEmitted s' =
      (nonceWarningEmitted s \<or> onNonceExhaustion s \<and> NonceExhaustionWarningThreshold \<le> wrap64 (messagesSent s + 1))"
    "c = (if \<not> nonceWarningEmitted s \<and> onNonceExhaustion s \<and> NonceExhaustionWarningThreshold \<le> wrap64 (messagesSent s + 1)
          then Some (st_peerID s, wrap64 (messagesSent s + 1)) else None)"
  using assms by (auto simp: RecordMessageSent_def Let_def split: if_splits)

text \<open>The other methods leave the count and the warning alone.\<close>

lemma stat_exec_other:
  assumes "stat_exec op s = (s', c)" and "sent_sizes (\<lambda>n. True) [op] = []"
  shows "st_peerID s' = st_peerID s \<and> onNonceExhaustion s' = onNonceExhaustion s \<and> messagesSent s' = messagesSent s \<and>
    nonceWarningEmitted s' = nonceWarningEmitted s \<and> c = None"
  using assms
  by (cases op) (auto simp: RecordConnectionStart_def RecordConnectionEnd_def RecordFailure_def RecordMessageReceived_def Let_def
      split: if_splits)

text \<open>The callback is invoked by the message that reaches the threshold: one send after \<open>n\<close> sends.\<close>

lemma warning_step:
  assumes "RecordMessageSent t m k s = (s', c)" and "messagesSent s = n" and "0 \<le> n" and "n + 1 < 2 ^ 63"
    and "nonceWarningEmitted s = (onNonceExhaustion s \<and> NonceExhaustionWarningThreshold \<le> n)"
  shows "nonceWarningEmitted s' = (onNonceExhaustion s \<and> NonceExhaustionWarningThreshold \<le> n + 1) \<and> messagesSent s' = n + 1 \<and>
     c = (if onNonceExhaustion s \<and> n + 1 = NonceExhaustionWarningThreshold then Some (st_peerID s, n + 1) else None)"
proof -
  have "wrap64 (n + 1) = n + 1" using assms(3,4) by (intro wrap64_id) simp_all
  then show ?thesis using RecordMessageSent_fields [OF assms(1)] assms(2,5) by auto
qed

definition warned :: "bool \<Rightarrow> peer_id \<Rightarrow> int \<Rightarrow> PeerStatsTracker \<times> (peer_id \<times> int) list \<Rightarrow> bool" where
  "warned cb p n r \<longleftrightarrow> (case r of (s, cs) \<Rightarrow>
     st_peerID s = p \<and> onNonceExhaustion s = cb \<and> messagesSent s = n \<and>
     nonceWarningEmitted s = (cb \<and> NonceExhaustionWarningThreshold \<le> n) \<and>
     cs = (if cb \<and> NonceExhaustionWarningThreshold \<le> n then [(p, NonceExhaustionWarningThreshold)] else []))"

lemma warned_run:
  "int (length (sent_sizes (\<lambda>n. True) ops)) < 2 ^ 63 \<Longrightarrow>
   warned cb p (int (length (sent_sizes (\<lambda>n. True) ops))) (stat_run ops (NewPeerStatsTracker p cb))"
proof (induction ops rule: rev_induct)
  case Nil
  then show ?case by (simp add: warned_def NewPeerStatsTracker_def NonceExhaustionWarningThreshold_def)
next
  case (snoc op ops)
  let ?n = "int (length (sent_sizes (\<lambda>n. True) ops))"
  obtain s1 cs where r: "stat_run ops (NewPeerStatsTracker p cb) = (s1, cs)" by fastforce
  obtain s2 c where e: "stat_exec op s1 = (s2, c)" by fastforce
  have ih: "warned cb p ?n (s1, cs)" using snoc r by simp
  show ?case
  proof (cases "sent_sizes (\<lambda>n. True) [op] = []")
    case True
    then show ?thesis using ih stat_exec_other [OF e True] by (simp add: stat_run_snoc r e warned_def)
  next
    case False
    then obtain t m k where op: "op = SSent t m k" by (cases op) auto
    have e': "RecordMessageSent t m k s1 = (s2, c)" using e op by simp
    have "?n + 1 < 2 ^ 63" using snoc.prems op by simp
    note w = warning_step [OF e', of ?n, OF _ _ this]
    have "st_peerID s2 = p" "onNonceExhaustion s2 = cb" using RecordMessageSent_fields [OF e'] ih by (simp_all add: warned_def)
    then show ?thesis using w ih by (auto simp: stat_run_snoc r e' warned_def op)
  qed
qed

section \<open>Properties\<close>

text \<open>
  The counters are exact. After any history of a new tracker's methods, the messages and bytes sent and
  received are those of the history, modulo 64-bit wrap-around, both for the peer and for each stream; a snapshot shows
  the same numbers.
\<close>

theorem statistics_exact:
  "tracker_counts (fst (stat_run ops (NewPeerStatsTracker p cb))) = counts (\<lambda>n. True) ops \<and>
   stream_counts (stream_stats name (fst (stat_run ops (NewPeerStatsTracker p cb)))) = counts (\<lambda>m. m = name) ops \<and>
   (let sn = Snapshot now p connected outbound (fst (stat_run ops (NewPeerStatsTracker p cb)))
    in (ps_MessagesSent sn, ps_BytesSent sn, ps_MessagesReceived sn, ps_BytesReceived sn) = counts (\<lambda>n. True) ops)"
  using stat_run_counts [of ops p cb] by (simp add: Snapshot_def tracker_counts_def)

text \<open>
  The warning about nonce exhaustion is given once. In a history with fewer than \<open>2 ^ 63\<close> sends, the callback is invoked exactly
  when it is set and at least \<open>2 ^ 40\<close> messages were sent, once, and with the count \<open>2 ^ 40\<close>.
\<close>

theorem nonce_warning_once:
  assumes "int (length (sent_sizes (\<lambda>n. True) ops)) < 2 ^ 63"
  shows "snd (stat_run ops (NewPeerStatsTracker p cb)) =
     (if cb \<and> NonceExhaustionWarningThreshold \<le> int (length (sent_sizes (\<lambda>n. True) ops))
      then [(p, NonceExhaustionWarningThreshold)] else [])"
  using warned_run [OF assms, of cb p] by (auto simp: warned_def split: prod.splits)

theorem nonce_warning_once_witness:
  "snd (stat_run [SSent 1 ''a'' 10, SRecv 2 ''a'' 5] (NewPeerStatsTracker ''p'' True)) = []"
  using nonce_warning_once [of "[SSent 1 ''a'' 10, SRecv 2 ''a'' 5]" "''p''" True]
  by (simp add: NonceExhaustionWarningThreshold_def)

end
