(* ===== verification/Subscriptions.thy ===== *)
theory Subscriptions
  imports Dispatch
begin

text \<open>
  Events as the application sees them (\<^verbatim>\<open>src/events.go\<close> and the event part of \<^verbatim>\<open>src/node.go\<close>): the public event type, the
  forwarder that copies events from the dispatcher to the main channel and to the subscribers, subscriptions and
  filters. The forwarder, the calls of the application and one goroutine per subscription run concurrently; their sections are the
  operations of \<open>fw_exec\<close>, and a panic (a send on or a close of a closed channel) is \<open>None\<close>.
\<close>

section \<open>The public event type\<close>

datatype PublicState =
    PubDisconnected | PubConnecting | PubConnected | PubEstablished | PubReconnecting | PubCooldown

text \<open>The values of the two enumerations; a Go conversion keeps the number.\<close>

fun state_code :: "ConnectionState \<Rightarrow> nat" where
  "state_code StateDisconnected = 0"
| "state_code StateConnecting = 1"
| "state_code StateConnected = 2"
| "state_code StateEstablished = 3"
| "state_code StateReconnecting = 4"
| "state_code StateCooldown = 5"

fun public_code :: "PublicState \<Rightarrow> nat" where
  "public_code PubDisconnected = 0"
| "public_code PubConnecting = 1"
| "public_code PubConnected = 2"
| "public_code PubEstablished = 3"
| "public_code PubReconnecting = 4"
| "public_code PubCooldown = 5"

fun PublicState_String :: "PublicState \<Rightarrow> string" where
  "PublicState_String PubDisconnected = ''Disconnected''"
| "PublicState_String PubConnecting = ''Connecting''"
| "PublicState_String PubConnected = ''Connected''"
| "PublicState_String PubEstablished = ''Established''"
| "PublicState_String PubReconnecting = ''Reconnecting''"
| "PublicState_String PubCooldown = ''Cooldown''"

definition public_states :: "PublicState list" where
  "public_states = [PubDisconnected, PubConnecting, PubConnected, PubEstablished, PubReconnecting, PubCooldown]"

definition public_state :: "ConnectionState \<Rightarrow> PublicState" where
  "public_state s = public_states ! state_code s"

record 'err PublicEvent =
  pe_PeerID :: peer_id
  pe_State :: PublicState
  pe_Error :: "'err option"
  pe_Timestamp :: time_ns

definition PublicEvent_IsError :: "'err PublicEvent \<Rightarrow> bool" where
  "PublicEvent_IsError e = (pe_Error e \<noteq> None)"

definition to_PublicEvent :: "'err ConnectionEvent \<Rightarrow> 'err PublicEvent" where
  "to_PublicEvent e =
     \<lparr>pe_PeerID = ce_PeerID e, pe_State = public_state (ce_State e), pe_Error = ce_Error e, pe_Timestamp = ce_Timestamp e\<rparr>"

section \<open>Filters\<close>

record EventFilter =
  PeerIDs :: "peer_id list"
  States :: "PublicState list"

fun found_in :: "'a list \<Rightarrow> 'a \<Rightarrow> bool" where
  "found_in [] x = False"
| "found_in (y # ys) x = (if y = x then True else found_in ys x)"

definition matches :: "EventFilter \<Rightarrow> 'err PublicEvent \<Rightarrow> bool" where
  "matches f evt =
     (if length (PeerIDs f) > 0 \<and> \<not> found_in (PeerIDs f) (pe_PeerID evt) then False
      else if length (States f) > 0 \<and> \<not> found_in (States f) (pe_State evt) then False
      else True)"

text \<open>The filtering goroutine of \<^verbatim>\<open>FilteredEvents\<close> on the events it receives from the base subscription.\<close>

fun filter_forward :: "EventFilter \<Rightarrow> 'err PublicEvent list \<Rightarrow> 'err PublicEvent channel \<Rightarrow> 'err PublicEvent channel option" where
  "filter_forward f [] ch = Some ch"
| "filter_forward f (e # es) ch =
     (if matches f e
      then (case chan_try_send e ch of None \<Rightarrow> None | Some (_, ch') \<Rightarrow> filter_forward f es ch')
      else filter_forward f es ch)"

definition EventsForPeer :: "peer_id \<Rightarrow> EventFilter" where
  "EventsForPeer p = \<lparr>PeerIDs = [p], States = []\<rparr>"

definition EventsForStates :: "PublicState list \<Rightarrow> EventFilter" where
  "EventsForStates sts = \<lparr>PeerIDs = [], States = sts\<rparr>"

section \<open>The forwarder and the subscriptions\<close>

text \<open>
  \<open>sub_cancelled\<close> says that the subscription's own context is cancelled; it is a child of the node's context.
\<close>

record 'err EventSubscription =
  sub_ch :: "'err PublicEvent channel"
  sub_cancelled :: bool
  sub_done :: bool
  sub_closeOnce :: bool

text \<open>\<open>fw_subs\<close> is the set of subscriptions, \<open>None\<close> when it was set to nil; \<open>fw_ctx\<close> that the node's context is cancelled.\<close>

record 'err fwsys =
  fw_events :: "'err PublicEvent channel"
  fw_objs :: "nat \<Rightarrow> 'err EventSubscription"
  fw_next :: nat
  fw_subs :: "nat list option"
  fw_ctx :: bool

definition new_subscription :: "nat \<Rightarrow> 'err EventSubscription" where
  "new_subscription n = \<lparr>sub_ch = make_chan n, sub_cancelled = False, sub_done = False, sub_closeOnce = False\<rparr>"

definition new_fwsys :: "nat \<Rightarrow> 'err fwsys" where
  "new_fwsys n = \<lparr>fw_events = make_chan n, fw_objs = (\<lambda>r. new_subscription 0), fw_next = 0, fw_subs = Some [], fw_ctx = False\<rparr>"

definition set_sub :: "nat \<Rightarrow> 'err EventSubscription \<Rightarrow> 'err fwsys \<Rightarrow> 'err fwsys" where
  "set_sub r s w = w\<lparr>fw_objs := (fw_objs w)(r := s)\<rparr>"

definition closeChannel :: "nat \<Rightarrow> 'err fwsys \<Rightarrow> 'err fwsys option" where
  "closeChannel r w =
     (let s = fw_objs w r in
      if sub_closeOnce s then Some w
      else case chan_close (sub_ch s) of
        None \<Rightarrow> None
      | Some ch \<Rightarrow> Some (set_sub r (s\<lparr>sub_ch := ch, sub_closeOnce := True\<rparr>) w))"

text \<open>The three parts of \<^verbatim>\<open>Unsubscribe\<close>: the first sets the flag and says whether to go on.\<close>

definition unsub_mark :: "nat \<Rightarrow> 'err fwsys \<Rightarrow> bool \<times> 'err fwsys" where
  "unsub_mark r w =
     (let s = fw_objs w r in if sub_done s then (False, w) else (True, set_sub r (s\<lparr>sub_done := True\<rparr>) w))"

definition unsub_cancel :: "nat \<Rightarrow> 'err fwsys \<Rightarrow> 'err fwsys" where
  "unsub_cancel r w = set_sub r ((fw_objs w r)\<lparr>sub_cancelled := True\<rparr>) w"

definition unsub_delete :: "nat \<Rightarrow> 'err fwsys \<Rightarrow> 'err fwsys" where
  "unsub_delete r w = w\<lparr>fw_subs := map_option (filter (\<lambda>q. q \<noteq> r)) (fw_subs w)\<rparr>"

definition Unsubscribe :: "nat \<Rightarrow> 'err fwsys \<Rightarrow> 'err fwsys" where
  "Unsubscribe r w =
     (case unsub_mark r w of
        (False, w1) \<Rightarrow> w1
      | (True, w1) \<Rightarrow> unsub_delete r (unsub_cancel r w1))"

text \<open>The goroutine of a subscription runs when its context is done.\<close>

definition sub_goroutine :: "nat \<Rightarrow> 'err fwsys \<Rightarrow> 'err fwsys option" where
  "sub_goroutine r w = (if sub_cancelled (fw_objs w r) \<or> fw_ctx w then closeChannel r w else Some w)"

text \<open>
  \<^verbatim>\<open>SubscribeEvents\<close>: the new subscription with its goroutine, then the section under the lock. On a stopped node
  the context is cancelled and afterwards, as a further operation, the channel closed.
\<close>

definition subscribe_begin :: "nat \<Rightarrow> 'err fwsys \<Rightarrow> nat \<times> 'err fwsys" where
  "subscribe_begin n w = (fw_next w, set_sub (fw_next w) (new_subscription n) (w\<lparr>fw_next := Suc (fw_next w)\<rparr>))"

definition subscribe_lock :: "nat \<Rightarrow> 'err fwsys \<Rightarrow> bool \<times> 'err fwsys" where
  "subscribe_lock r w =
     (case fw_subs w of
        None \<Rightarrow> (False, unsub_cancel r w)
      | Some rs \<Rightarrow> (True, w\<lparr>fw_subs := Some (r # rs)\<rparr>))"

definition subscribe_close :: "nat \<Rightarrow> 'err fwsys \<Rightarrow> 'err fwsys option" where
  "subscribe_close r w =
     (case chan_close (sub_ch (fw_objs w r)) of
        None \<Rightarrow> None
      | Some ch \<Rightarrow> Some (set_sub r ((fw_objs w r)\<lparr>sub_ch := ch\<rparr>) w))"

definition SubscribeEvents :: "nat \<Rightarrow> 'err fwsys \<Rightarrow> (nat option \<times> 'err fwsys) option" where
  "SubscribeEvents n w =
     (case subscribe_begin n w of
        (r, w1) \<Rightarrow>
          (case subscribe_lock r w1 of
             (True, w2) \<Rightarrow> Some (Some r, w2)
           | (False, w2) \<Rightarrow> map_option (\<lambda>w3. (None, w3)) (subscribe_close r w2)))"

text \<open>One event: the main channel, then every subscriber.\<close>

fun send_subs :: "'err PublicEvent \<Rightarrow> nat list \<Rightarrow> 'err fwsys \<Rightarrow> 'err fwsys option" where
  "send_subs e [] w = Some w"
| "send_subs e (r # rs) w =
     (case chan_try_send e (sub_ch (fw_objs w r)) of
        None \<Rightarrow> None
      | Some (_, ch) \<Rightarrow> send_subs e rs (set_sub r ((fw_objs w r)\<lparr>sub_ch := ch\<rparr>) w))"

definition forward_event :: "'err PublicEvent \<Rightarrow> 'err fwsys \<Rightarrow> 'err fwsys option" where
  "forward_event e w =
     (case chan_try_send e (fw_events w) of
        None \<Rightarrow> None
      | Some (_, ch) \<Rightarrow>
          send_subs e (case fw_subs w of None \<Rightarrow> [] | Some rs \<Rightarrow> rs) (w\<lparr>fw_events := ch\<rparr>))"

text \<open>The deferred function of the forwarder.\<close>

fun close_subs :: "nat list \<Rightarrow> 'err fwsys \<Rightarrow> 'err fwsys option" where
  "close_subs [] w = Some w"
| "close_subs (r # rs) w = (case closeChannel r w of None \<Rightarrow> None | Some w1 \<Rightarrow> close_subs rs w1)"

definition forward_end :: "'err fwsys \<Rightarrow> 'err fwsys option" where
  "forward_end w =
     (case chan_close (fw_events w) of
        None \<Rightarrow> None
      | Some ch \<Rightarrow>
          map_option (\<lambda>w1. w1\<lparr>fw_subs := None\<rparr>)
            (close_subs (case fw_subs w of None \<Rightarrow> [] | Some rs \<Rightarrow> rs) (w\<lparr>fw_events := ch\<rparr>)))"

section \<open>Interleavings\<close>

datatype 'err fw_op =
    FEvent "'err PublicEvent" | FStop | FEnd | FSubscribe nat | FUnsubscribe nat | FGoroutine nat | FRecv nat

definition sub_recv :: "nat \<Rightarrow> 'err fwsys \<Rightarrow> 'err fwsys" where
  "sub_recv r w = set_sub r ((fw_objs w r)\<lparr>sub_ch := snd (chan_recv (sub_ch (fw_objs w r)))\<rparr>) w"

fun fw_exec :: "'err fw_op \<Rightarrow> 'err fwsys \<Rightarrow> 'err fwsys option" where
  "fw_exec (FEvent e) w = forward_event e w"
| "fw_exec FStop w = Some (w\<lparr>fw_ctx := True\<rparr>)"
| "fw_exec FEnd w = forward_end w"
| "fw_exec (FSubscribe n) w = map_option snd (SubscribeEvents n w)"
| "fw_exec (FUnsubscribe r) w = Some (Unsubscribe r w)"
| "fw_exec (FGoroutine r) w = sub_goroutine r w"
| "fw_exec (FRecv r) w = Some (sub_recv r w)"

text \<open>
  When an operation may happen: the forwarder runs until it has ended; here it does not take another event once the
  node's context is done, and no one subscribes after it has ended. The operations are not interrupted.
\<close>

fun fw_enabled :: "'err fw_op \<Rightarrow> 'err fwsys \<Rightarrow> bool" where
  "fw_enabled (FEvent e) w = (fw_subs w \<noteq> None \<and> \<not> fw_ctx w)"
| "fw_enabled FStop w = True"
| "fw_enabled FEnd w = (fw_subs w \<noteq> None)"
| "fw_enabled (FSubscribe n) w = (fw_subs w \<noteq> None)"
| "fw_enabled (FUnsubscribe r) w = (r < fw_next w)"
| "fw_enabled (FGoroutine r) w = (r < fw_next w)"
| "fw_enabled (FRecv r) w = (r < fw_next w)"

definition fw_step :: "'err fwsys \<Rightarrow> 'err fw_op \<Rightarrow> 'err fwsys \<Rightarrow> bool" where
  "fw_step w op w' \<longleftrightarrow> fw_enabled op w \<and> fw_exec op w = Some w'"

definition sub_ok :: "'err fwsys \<Rightarrow> nat \<Rightarrow> bool" where
  "sub_ok w r \<longleftrightarrow>
     cclosed (sub_ch (fw_objs w r)) = sub_closeOnce (fw_objs w r) \<and>
     (cclosed (sub_ch (fw_objs w r)) \<longrightarrow> sub_cancelled (fw_objs w r) \<or> fw_ctx w \<or> fw_subs w = None)"

definition active :: "'err fwsys \<Rightarrow> nat list" where
  "active w = (case fw_subs w of None \<Rightarrow> [] | Some rs \<Rightarrow> rs)"

definition fw_inv :: "'err fwsys \<Rightarrow> bool" where
  "fw_inv w \<longleftrightarrow>
     cclosed (fw_events w) = (fw_subs w = None) \<and> (\<forall>r < fw_next w. sub_ok w r) \<and> distinct (active w) \<and>
     (\<forall>r \<in> set (active w). r < fw_next w \<and> \<not> sub_cancelled (fw_objs w r) \<and> \<not> sub_done (fw_objs w r))"

section \<open>Lemmas\<close>

lemma found_in_iff [simp]: "found_in xs x \<longleftrightarrow> x \<in> set xs"
  by (induction xs) auto

lemma set_sub_fields [simp]:
  "fw_objs (set_sub r s w) = (fw_objs w)(r := s)" "fw_next (set_sub r s w) = fw_next w"
  "fw_subs (set_sub r s w) = fw_subs w" "fw_ctx (set_sub r s w) = fw_ctx w" "fw_events (set_sub r s w) = fw_events w"
  by (simp_all add: set_sub_def)

lemma chan_offer_closed [simp]: "cclosed (chan_offer v c) = cclosed c"
  by (simp add: chan_offer_def chan_try_send_def)

lemma chan_recv_closed [simp]: "cclosed (snd (chan_recv c)) = cclosed c"
  by (simp add: chan_recv_def split: list.split)

text \<open>Sending to the subscribers: each listed channel gets an offer, nothing else changes.\<close>

lemma send_subs_effect:
  assumes "distinct rs" and "\<forall>r \<in> set rs. \<not> cclosed (sub_ch (fw_objs w r))"
  shows "\<exists>w'. send_subs e rs w = Some w' \<and> fw_events w' = fw_events w \<and> fw_next w' = fw_next w \<and> fw_subs w' = fw_subs w \<and>
     fw_ctx w' = fw_ctx w \<and>
     (\<forall>r. fw_objs w' r = (if r \<in> set rs then (fw_objs w r)\<lparr>sub_ch := chan_offer e (sub_ch (fw_objs w r))\<rparr> else fw_objs w r))"
  using assms
proof (induction rs arbitrary: w)
  case (Cons r rs)
  let ?w = "set_sub r ((fw_objs w r)\<lparr>sub_ch := chan_offer e (sub_ch (fw_objs w r))\<rparr>) w"
  have "\<forall>q \<in> set rs. \<not> cclosed (sub_ch (fw_objs ?w q))" using Cons.prems by auto
  then obtain w' where w': "send_subs e rs ?w = Some w'" "fw_events w' = fw_events ?w" "fw_next w' = fw_next ?w"
      "fw_subs w' = fw_subs ?w" "fw_ctx w' = fw_ctx ?w"
      "\<forall>q. fw_objs w' q = (if q \<in> set rs then (fw_objs ?w q)\<lparr>sub_ch := chan_offer e (sub_ch (fw_objs ?w q))\<rparr> else fw_objs ?w q)"
    using Cons.IH [of ?w] Cons.prems(1) by auto
  then show ?case using Cons.prems by (intro exI [of _ w']) (auto simp: chan_try_send_open)
qed simp

lemma forward_event_effect:
  assumes "fw_inv w" and "fw_subs w = Some rs" and "\<not> fw_ctx w"
  shows "\<exists>w'. forward_event e w = Some w' \<and> fw_events w' = chan_offer e (fw_events w) \<and> fw_next w' = fw_next w \<and>
     fw_subs w' = fw_subs w \<and> fw_ctx w' = fw_ctx w \<and>
     (\<forall>r. fw_objs w' r = (if r \<in> set rs then (fw_objs w r)\<lparr>sub_ch := chan_offer e (sub_ch (fw_objs w r))\<rparr> else fw_objs w r))"
proof -
  let ?w = "w\<lparr>fw_events := chan_offer e (fw_events w)\<rparr>"
  have "\<not> cclosed (sub_ch (fw_objs w r))" if "r \<in> set rs" for r
    using assms that by (auto simp: fw_inv_def sub_ok_def active_def)
  moreover have "distinct rs" "\<not> cclosed (fw_events w)" using assms by (simp_all add: fw_inv_def active_def)
  ultimately show ?thesis
    using send_subs_effect [of rs ?w e] assms(2) by (auto simp: forward_event_def chan_try_send_open)
qed

lemma closeChannel_effect:
  assumes "cclosed (sub_ch (fw_objs w r)) = sub_closeOnce (fw_objs w r)"
  shows "closeChannel r w = Some (set_sub r ((fw_objs w r)\<lparr>sub_ch := (sub_ch (fw_objs w r))\<lparr>cclosed := True\<rparr>, sub_closeOnce := True\<rparr>) w)"
proof (cases "sub_closeOnce (fw_objs w r)")
  case True
  have "(fw_objs w r)\<lparr>sub_ch := (sub_ch (fw_objs w r))\<lparr>cclosed := True\<rparr>, sub_closeOnce := True\<rparr> = fw_objs w r"
    using assms True by (cases "fw_objs w r"; cases "sub_ch (fw_objs w r)") simp
  then have "set_sub r ((fw_objs w r)\<lparr>sub_ch := (sub_ch (fw_objs w r))\<lparr>cclosed := True\<rparr>, sub_closeOnce := True\<rparr>) w = w"
    by (simp add: set_sub_def)
  then show ?thesis using True by (simp add: closeChannel_def Let_def)
qed (use assms in \<open>simp add: closeChannel_def chan_close_def Let_def\<close>)

lemma close_subs_effect:
  assumes "\<forall>r \<in> set rs. cclosed (sub_ch (fw_objs w r)) = sub_closeOnce (fw_objs w r)"
  shows "\<exists>w'. close_subs rs w = Some w' \<and> fw_events w' = fw_events w \<and> fw_next w' = fw_next w \<and>
     fw_ctx w' = fw_ctx w \<and>
     (\<forall>r. fw_objs w' r = (if r \<in> set rs then (fw_objs w r)\<lparr>sub_ch := (sub_ch (fw_objs w r))\<lparr>cclosed := True\<rparr>, sub_closeOnce := True\<rparr>
                           else fw_objs w r))"
  using assms
proof (induction rs arbitrary: w)
  case (Cons r rs)
  let ?w = "set_sub r ((fw_objs w r)\<lparr>sub_ch := (sub_ch (fw_objs w r))\<lparr>cclosed := True\<rparr>, sub_closeOnce := True\<rparr>) w"
  have c: "closeChannel r w = Some ?w" using Cons.prems by (intro closeChannel_effect) simp
  have "\<forall>q \<in> set rs. cclosed (sub_ch (fw_objs ?w q)) = sub_closeOnce (fw_objs ?w q)" using Cons.prems by auto
  then obtain w' where w': "close_subs rs ?w = Some w'" "fw_events w' = fw_events ?w" "fw_next w' = fw_next ?w" "fw_ctx w' = fw_ctx ?w"
      "\<forall>q. fw_objs w' q = (if q \<in> set rs then (fw_objs ?w q)\<lparr>sub_ch := (sub_ch (fw_objs ?w q))\<lparr>cclosed := True\<rparr>, sub_closeOnce := True\<rparr>
                           else fw_objs ?w q)"
    using Cons.IH [of ?w] by auto
  then show ?case by (intro exI [of _ w']) (auto simp: c)
qed simp

text \<open>No enabled operation panics, and each keeps the invariant.\<close>

lemma fw_inv_New: "fw_inv (new_fwsys n)"
  by (simp add: fw_inv_def new_fwsys_def make_chan_def active_def)

lemma Unsubscribe_inv:
  assumes "fw_inv w"
  shows "fw_inv (Unsubscribe r w)"
  using assms
  by (auto simp: fw_inv_def Unsubscribe_def unsub_mark_def unsub_cancel_def unsub_delete_def sub_ok_def active_def Let_def
      split: option.splits)

lemma SubscribeEvents_effect:
  assumes "fw_inv w" and "fw_subs w = Some rs"
  shows "\<exists>w'. SubscribeEvents n w = Some (Some (fw_next w), w') \<and> fw_inv w' \<and> fw_subs w' = Some (fw_next w # rs) \<and>
     fw_objs w' (fw_next w) = new_subscription n"
proof -
  let ?w = "(set_sub (fw_next w) (new_subscription n) (w\<lparr>fw_next := Suc (fw_next w)\<rparr>))\<lparr>fw_subs := Some (fw_next w # rs)\<rparr>"
  have "SubscribeEvents n w = Some (Some (fw_next w), ?w)"
    using assms(2) by (simp add: SubscribeEvents_def subscribe_begin_def subscribe_lock_def)
  moreover have "fw_inv ?w"
    using assms by (auto simp: fw_inv_def sub_ok_def active_def new_subscription_def make_chan_def less_Suc_eq)
  ultimately show ?thesis by simp
qed

lemma sub_goroutine_inv:
  assumes "fw_inv w" and "r < fw_next w"
  shows "\<exists>w'. sub_goroutine r w = Some w' \<and> fw_inv w'"
proof (cases "sub_cancelled (fw_objs w r) \<or> fw_ctx w")
  case True
  have "closeChannel r w = Some (set_sub r ((fw_objs w r)\<lparr>sub_ch := (sub_ch (fw_objs w r))\<lparr>cclosed := True\<rparr>, sub_closeOnce := True\<rparr>) w)"
    using assms by (intro closeChannel_effect) (simp add: fw_inv_def sub_ok_def)
  then show ?thesis using assms True
    by (auto simp: sub_goroutine_def fw_inv_def sub_ok_def active_def split: option.splits)
qed (use assms in \<open>simp add: sub_goroutine_def\<close>)

lemma forward_event_inv:
  assumes "fw_inv w" and "fw_subs w \<noteq> None" and "\<not> fw_ctx w"
  shows "\<exists>w'. forward_event e w = Some w' \<and> fw_inv w'"
proof -
  obtain rs where rs: "fw_subs w = Some rs" using assms(2) by blast
  from forward_event_effect [OF assms(1) rs assms(3), of e] show ?thesis
    using assms(1) rs by (auto simp: fw_inv_def sub_ok_def active_def)
qed

lemma forward_end_inv:
  assumes "fw_inv w" and "fw_subs w \<noteq> None"
  shows "\<exists>w'. forward_end w = Some w' \<and> fw_inv w'"
proof -
  obtain rs where rs: "fw_subs w = Some rs" using assms(2) by blast
  let ?w = "w\<lparr>fw_events := (fw_events w)\<lparr>cclosed := True\<rparr>\<rparr>"
  have "\<forall>r \<in> set rs. cclosed (sub_ch (fw_objs ?w r)) = sub_closeOnce (fw_objs ?w r)" "\<not> cclosed (fw_events w)"
    using assms rs by (auto simp: fw_inv_def sub_ok_def active_def)
  with close_subs_effect [of rs ?w] rs assms(1) show ?thesis
    by (auto simp: forward_end_def chan_close_def fw_inv_def sub_ok_def active_def)
qed

lemma fw_exec_inv:
  assumes "fw_inv w" and "fw_enabled op w"
  shows "\<exists>w'. fw_exec op w = Some w' \<and> fw_inv w'"
proof (cases op)
  case FStop
  then show ?thesis using assms by (simp add: fw_inv_def sub_ok_def active_def)
next
  case (FRecv r)
  then show ?thesis using assms by (auto simp: fw_inv_def sub_recv_def sub_ok_def active_def)
next
  case (FSubscribe n)
  then obtain rs where "fw_subs w = Some rs" using assms(2) by auto
  with SubscribeEvents_effect [OF assms(1)] FSubscribe show ?thesis by fastforce
qed (use assms in \<open>simp_all add: Unsubscribe_inv sub_goroutine_inv forward_event_inv forward_end_inv\<close>)

interpretation fwd: invariant_system "\<lambda>w. \<exists>n. w = new_fwsys n" fw_step fw_inv
proof unfold_locales
  show "fw_inv w'" if "fw_inv w" "fw_step w op w'" for w op and w' :: "'a fwsys"
    using fw_exec_inv [OF that(1)] that(2) by (fastforce simp: fw_step_def)
qed (auto simp: fw_inv_New)

text \<open>The forwarder on a list of events.\<close>

fun forward_all :: "'err PublicEvent list \<Rightarrow> 'err fwsys \<Rightarrow> 'err fwsys option" where
  "forward_all [] w = Some w"
| "forward_all (e # es) w = (case forward_event e w of None \<Rightarrow> None | Some w1 \<Rightarrow> forward_all es w1)"

lemma forward_all_effect:
  assumes "fw_inv w" and "fw_subs w = Some rs" and "\<not> fw_ctx w" and "r \<in> set rs"
  shows "\<exists>w'. forward_all es w = Some w' \<and> sub_ch (fw_objs w' r) = fold chan_offer es (sub_ch (fw_objs w r)) \<and>
     fw_events w' = fold chan_offer es (fw_events w)"
  using assms(1-3)
proof (induction es arbitrary: w)
  case (Cons e es)
  obtain w1 where w1: "forward_event e w = Some w1" "fw_events w1 = chan_offer e (fw_events w)" "fw_subs w1 = Some rs" "\<not> fw_ctx w1"
      "sub_ch (fw_objs w1 r) = chan_offer e (sub_ch (fw_objs w r))" "fw_inv w1"
    using forward_event_effect [OF Cons.prems, of e] forward_event_inv [OF Cons.prems(1) _ Cons.prems(3), of e] Cons.prems(2,3) assms(4)
    by auto
  then show ?case using Cons.IH [of w1] by simp
qed simp

lemma filter_forward_effect:
  "\<not> cclosed ch \<Longrightarrow> filter_forward f es ch = Some (fold chan_offer (filter (matches f) es) ch)"
proof (induction es arbitrary: ch)
  case (Cons e es)
  then show ?case by (simp add: chan_try_send_open)
qed simp

lemma matches_iff:
  "matches f e \<longleftrightarrow> (PeerIDs f = [] \<or> pe_PeerID e \<in> set (PeerIDs f)) \<and> (States f = [] \<or> pe_State e \<in> set (States f))"
  by (auto simp: matches_def)

section \<open>Properties\<close>


text \<open>
  No panic in the event distribution, as long as calls are not overtaken: after any sequence of forwarded events, subscriptions,
  unsubscriptions, runs of the subscriptions' goroutines, receives and the stop of the node, the next operation succeeds.
\<close>

theorem subscriptions_never_panic:
  assumes "runs fw_step (new_fwsys n) ops w" and "fw_enabled op w"
  shows "\<exists>w'. fw_exec op w = Some w'"
  using fwd.inv_reachable [OF _ assms(1)] fw_exec_inv [OF _ assms(2)] by blast

theorem subscriptions_never_panic_witness:
  "\<exists>w w' :: string fwsys. runs fw_step (new_fwsys 2) [FSubscribe 1, FUnsubscribe 0] w \<and> fw_exec (FGoroutine 0) w = Some w'"
proof -
  have s1: "fw_step (new_fwsys 2) (FSubscribe 1) (snd (the (SubscribeEvents 1 (new_fwsys 2 :: string fwsys))))"
    by (simp add: fw_step_def new_fwsys_def SubscribeEvents_def subscribe_begin_def subscribe_lock_def)
  let ?w = "snd (the (SubscribeEvents 1 (new_fwsys 2 :: string fwsys)))"
  have s2: "fw_step ?w (FUnsubscribe 0) (Unsubscribe 0 ?w)"
    by (simp add: fw_step_def new_fwsys_def SubscribeEvents_def subscribe_begin_def subscribe_lock_def)
  have r: "runs fw_step (new_fwsys 2) [FSubscribe 1, FUnsubscribe 0] (Unsubscribe 0 ?w)"
    using runs_cons [where step = fw_step, OF s1 runs_cons [where step = fw_step, OF s2 runs_nil]] .
  have "fw_enabled (FGoroutine 0) (Unsubscribe 0 ?w)"
    by (simp add: new_fwsys_def SubscribeEvents_def subscribe_begin_def subscribe_lock_def Unsubscribe_def unsub_mark_def
        unsub_cancel_def unsub_delete_def new_subscription_def)
  from subscriptions_never_panic [OF r this] r show ?thesis by blast
qed


definition toy_event :: "peer_id \<Rightarrow> string PublicEvent" where
  "toy_event p = \<lparr>pe_PeerID = p, pe_State = PubConnected, pe_Error = None, pe_Timestamp = 5\<rparr>"

definition toy_fw :: "string fwsys" where
  "toy_fw = snd (the (SubscribeEvents 1 (new_fwsys 2)))"

lemma toy_fw_eval:
  "toy_fw = \<lparr>fw_events = make_chan 2, fw_objs = (\<lambda>r. new_subscription 0)(0 := new_subscription 1), fw_next = 1, fw_subs = Some [0], fw_ctx = False\<rparr>"
  by (simp add: toy_fw_def new_fwsys_def SubscribeEvents_def subscribe_begin_def subscribe_lock_def set_sub_def)

lemma toy_fw_inv: "fw_inv toy_fw"
  by (simp add: toy_fw_eval fw_inv_def sub_ok_def active_def new_subscription_def make_chan_def)


text \<open>
  Subscribing on a stopped node panics. When the forwarder has ended, \<^verbatim>\<open>SubscribeEvents\<close> cancels the subscription's context and closes
  its channel, and the subscription's goroutine closes the same channel: whichever of the two comes second panics.
\<close>

theorem subscribe_after_stop_panics:
  assumes "fw_subs w = None" and "subscribe_begin n w = (r, w1)" and "subscribe_lock r w1 = (b, w2)"
  shows "\<not> b \<and> (\<exists>w3. subscribe_close r w2 = Some w3 \<and> sub_goroutine r w3 = None) \<and>
     (\<exists>w3. sub_goroutine r w2 = Some w3 \<and> subscribe_close r w3 = None)"
  using assms
  by (auto simp: subscribe_begin_def subscribe_lock_def unsub_cancel_def subscribe_close_def sub_goroutine_def closeChannel_def
      chan_close_def new_subscription_def make_chan_def Let_def)

theorem subscribe_after_stop_panics_witness:
  "\<exists>w w3 :: string fwsys. forward_end (new_fwsys 2) = Some w \<and> sub_goroutine 0 (snd (subscribe_lock 0 (snd (subscribe_begin 1 w)))) = Some w3 \<and>
     subscribe_close 0 w3 = None"
proof -
  obtain w :: "string fwsys" where w: "forward_end (new_fwsys 2) = Some w" "fw_subs w = None" "fw_next w = 0"
    by (auto simp: forward_end_def new_fwsys_def make_chan_def chan_close_def)
  obtain r w1 where b: "subscribe_begin 1 w = (r, w1)" by fastforce
  obtain c w2 where l: "subscribe_lock r w1 = (c, w2)" by fastforce
  have "r = 0" using b w(3) by (simp add: subscribe_begin_def)
  with subscribe_after_stop_panics [OF w(2) b l] b l w(1) show ?thesis by auto
qed

text \<open>
  An overtaken unsubscribe panics. Between the cancellation of the context and the removal from the set of subscriptions, the
  subscription's goroutine may close the channel; the next event that the forwarder sends to it panics. The same
  happens when the node's context is cancelled and the forwarder still takes one event.
\<close>

theorem unsubscribe_overtaken_panics:
  assumes "fw_inv w" and "fw_subs w = Some rs" and "r \<in> set rs" and "\<not> fw_ctx w"
  shows "(\<exists>w1 w2. unsub_mark r w = (True, w1) \<and> sub_goroutine r (unsub_cancel r w1) = Some w2 \<and> forward_event e w2 = None) \<and>
    (\<exists>w2. sub_goroutine r (w\<lparr>fw_ctx := True\<rparr>) = Some w2 \<and> forward_event e w2 = None)"
proof -
  have closed_panics: "send_subs e qs v = None" if "r \<in> set qs" "cclosed (sub_ch (fw_objs v r))" for qs and v :: "'a fwsys"
    using that
  proof (induction qs arbitrary: v)
    case (Cons q qs)
    show ?case
    proof (cases "q = r")
      case False
      then have "cclosed (sub_ch (fw_objs (set_sub q x v) r))" for x using Cons.prems by simp
      then show ?thesis using Cons False by (auto split: option.split)
    qed (use Cons in \<open>simp add: chan_try_send_def\<close>)
  qed simp
  have r: "\<not> sub_done (fw_objs w r)" "\<not> cclosed (sub_ch (fw_objs w r))" "\<not> sub_closeOnce (fw_objs w r)" "\<not> cclosed (fw_events w)"
    using assms by (auto simp: fw_inv_def sub_ok_def active_def)
  have "\<exists>w1 w2. unsub_mark r w = (True, w1) \<and> sub_goroutine r (unsub_cancel r w1) = Some w2 \<and> forward_event e w2 = None"
    using r assms(2) closed_panics [OF assms(3)]
    by (simp add: unsub_mark_def unsub_cancel_def sub_goroutine_def closeChannel_def chan_close_def forward_event_def
        chan_try_send_open Let_def)
  moreover have "\<exists>w2. sub_goroutine r (w\<lparr>fw_ctx := True\<rparr>) = Some w2 \<and> forward_event e w2 = None"
    using r assms(2) closed_panics [OF assms(3)]
    by (simp add: sub_goroutine_def closeChannel_def chan_close_def forward_event_def chan_try_send_open Let_def)
  ultimately show ?thesis by blast
qed

theorem unsubscribe_overtaken_panics_witness:
  "\<exists>w2. sub_goroutine 0 (unsub_cancel 0 (snd (unsub_mark 0 toy_fw))) = Some w2 \<and> forward_event (toy_event ''a'') w2 = None"
proof -
  from unsubscribe_overtaken_panics [OF toy_fw_inv, of "[0]" 0 "toy_event ''a''"] show ?thesis by (auto simp: toy_fw_eval)
qed

end
