(* ===== verification/Flow.thy ===== *)
theory Flow
  imports Prelude
begin

text \<open>
  Flow control with high and low watermarks (\<^verbatim>\<open>src/internal/flow/controller.go\<close>). The controller's
  fields are kept as they are; its \<^verbatim>\<open>unblockCh\<close> is the identity of a channel, with the list of the
  channels that have been closed, because a waiter keeps the channel it read and is woken when that
  channel is closed. The methods are the sections they execute under the mutex; \<^verbatim>\<open>Acquire\<close>'s loop is
  the section repeated after each wake-up. \<open>fsystem\<close> puts any number of goroutines around one
  controller and interleaves the sections.
\<close>

section \<open>The controller\<close>

record Controller =
  highWatermark :: int
  lowWatermark :: int
  pending :: int
  blocked :: bool
  closed :: bool
  unblockCh :: nat
  onBlocked :: bool \<comment> \<open>whether a callback is set\<close>
  chClosed :: "nat list" \<comment> \<open>the channels closed so far\<close>
  chNext :: nat \<comment> \<open>the next fresh channel\<close>

definition NewController :: "int \<Rightarrow> int \<Rightarrow> Controller" where
  "NewController high low =
     (let high = (if high \<le> 0 then 1000 else high);
          low = (if low \<le> 0 then 100 else low);
          low = (if low \<ge> high then max (quot high 10) 1 else low)
      in \<lparr>highWatermark = high, lowWatermark = low, pending = 0, blocked = False, closed = False,
          unblockCh = 0, onBlocked = False, chClosed = [], chNext = 1\<rparr>)"

definition SetBlockedCallback :: "bool \<Rightarrow> Controller \<Rightarrow> Controller" where
  "SetBlockedCallback fn fc = fc\<lparr>onBlocked := fn\<rparr>"

text \<open>\<^verbatim>\<open>close(ch)\<close> panics on a closed channel.\<close>

definition close_ch :: "nat \<Rightarrow> Controller \<Rightarrow> Controller option" where
  "close_ch ch fc = (if ch \<in> set (chClosed fc) then None else Some (fc\<lparr>chClosed := ch # chClosed fc\<rparr>))"

text \<open>One iteration of \<^verbatim>\<open>Acquire\<close>: refused, granted (with the callback invoked or not), or wait.\<close>

datatype acquire_outcome = AcquireCanceled | AcquireGranted bool | AcquireWait nat

definition Controller_Acquire :: "Controller \<Rightarrow> acquire_outcome \<times> Controller" where
  "Controller_Acquire fc =
     (if closed fc then (AcquireCanceled, fc)
      else if \<not> blocked fc then
        (let fc1 = fc\<lparr>pending := pending fc + 1\<rparr>;
             hit = (pending fc1 \<ge> highWatermark fc1 \<and> \<not> blocked fc1);
             shouldCallback = (hit \<and> onBlocked fc1);
             fc2 = (if hit then fc1\<lparr>blocked := True\<rparr> else fc1)
         in (AcquireGranted shouldCallback, fc2))
      else (AcquireWait (unblockCh fc), fc))"

text \<open>\<^verbatim>\<open>Release\<close>; \<open>None\<close> is the panic of closing a closed channel.\<close>

definition Controller_Release :: "Controller \<Rightarrow> Controller option" where
  "Controller_Release fc =
     (let fc1 = (if pending fc > 0 then fc\<lparr>pending := pending fc - 1\<rparr> else fc)
      in if blocked fc1 \<and> pending fc1 \<le> lowWatermark fc1 then
           (case close_ch (unblockCh fc1) (fc1\<lparr>blocked := False\<rparr>) of
              None \<Rightarrow> None
            | Some fc2 \<Rightarrow> Some (fc2\<lparr>unblockCh := chNext fc2, chNext := chNext fc2 + 1\<rparr>))
         else Some fc1)"

definition Controller_Pending :: "Controller \<Rightarrow> int" where
  "Controller_Pending fc = pending fc"

definition Controller_IsBlocked :: "Controller \<Rightarrow> bool" where
  "Controller_IsBlocked fc = blocked fc"

definition Controller_Close :: "Controller \<Rightarrow> Controller option" where
  "Controller_Close fc =
     (if closed fc then Some fc else close_ch (unblockCh fc) (fc\<lparr>closed := True\<rparr>))"

text \<open>
  \<^verbatim>\<open>WaitWithTimeout\<close>: \<open>woken ch\<close> says whether the channel is closed before the timeout.
\<close>

definition WaitWithTimeout :: "(nat \<Rightarrow> bool) \<Rightarrow> Controller \<Rightarrow> bool" where
  "WaitWithTimeout woken fc = (if \<not> blocked fc then True else woken (unblockCh fc))"

section \<open>Goroutines around one controller\<close>

record fsystem =
  ctl :: Controller
  waiting :: "nat \<Rightarrow> nat option" \<comment> \<open>the channel a goroutine waits on inside \<^verbatim>\<open>Acquire\<close>\<close>

datatype flabel =
    FAcquire nat acquire_outcome \<comment> \<open>a goroutine enters \<^verbatim>\<open>Acquire\<close>\<close>
  | FWake nat acquire_outcome \<comment> \<open>a waiter sees its channel closed and tries again\<close>
  | FCancel nat \<comment> \<open>a waiter's context is done\<close>
  | FRelease
  | FClose
  | FSetCallback bool

text \<open>The waiting channel of a goroutine after an iteration with the given outcome.\<close>

fun waits_on :: "acquire_outcome \<Rightarrow> nat option" where
  "waits_on (AcquireWait ch) = Some ch"
| "waits_on _ = None"

inductive fstep :: "fsystem \<Rightarrow> flabel \<Rightarrow> fsystem \<Rightarrow> bool" where
  f_acquire: "waiting s t = None \<Longrightarrow> Controller_Acquire (ctl s) = (out, fc) \<Longrightarrow>
     fstep s (FAcquire t out) (s\<lparr>ctl := fc, waiting := (waiting s)(t := waits_on out)\<rparr>)"
| f_wake: "waiting s t = Some ch \<Longrightarrow> ch \<in> set (chClosed (ctl s)) \<Longrightarrow>
     Controller_Acquire (ctl s) = (out, fc) \<Longrightarrow>
     fstep s (FWake t out) (s\<lparr>ctl := fc, waiting := (waiting s)(t := waits_on out)\<rparr>)"
| f_cancel: "waiting s t = Some ch \<Longrightarrow>
     fstep s (FCancel t) (s\<lparr>waiting := (waiting s)(t := None)\<rparr>)"
| f_release: "Controller_Release (ctl s) = Some fc \<Longrightarrow> fstep s FRelease (s\<lparr>ctl := fc\<rparr>)"
| f_close: "Controller_Close (ctl s) = Some fc \<Longrightarrow> fstep s FClose (s\<lparr>ctl := fc\<rparr>)"
| f_callback: "fstep s (FSetCallback b) (s\<lparr>ctl := SetBlockedCallback b (ctl s)\<rparr>)"

inductive_simps fstep_release_iff: "fstep s FRelease s'"
inductive_cases fstep_acquireE: "fstep s (FAcquire t out) s'"

definition finit :: "fsystem \<Rightarrow> bool" where
  "finit s = ((\<exists>high low. ctl s = NewController high low) \<and> waiting s = (\<lambda>_. None))"

section \<open>Invariants\<close>

text \<open>The watermarks and the counter.\<close>

definition fc_inv :: "Controller \<Rightarrow> bool" where
  "fc_inv fc =
     (1 \<le> lowWatermark fc \<and> lowWatermark fc \<le> highWatermark fc \<and>
      (lowWatermark fc < highWatermark fc \<or> highWatermark fc = 1) \<and>
      0 \<le> pending fc \<and> pending fc \<le> highWatermark fc \<and>
      (blocked fc \<or> pending fc < highWatermark fc) \<and>
      (blocked fc \<longrightarrow> lowWatermark fc < pending fc \<or> pending fc = highWatermark fc) \<and>
      unblockCh fc < chNext fc \<and> (\<forall>ch \<in> set (chClosed fc). ch < chNext fc) \<and>
      (unblockCh fc \<in> set (chClosed fc)) = closed fc)"

text \<open>No wake-up is lost: who waits on an open channel waits on the current one of a blocked controller.\<close>

definition waiters_inv :: "fsystem \<Rightarrow> bool" where
  "waiters_inv s =
     (\<forall>t ch. waiting s t = Some ch \<longrightarrow>
        ch \<in> set (chClosed (ctl s)) \<or> (ch = unblockCh (ctl s) \<and> blocked (ctl s)))"

definition finv :: "fsystem \<Rightarrow> bool" where
  "finv s = (fc_inv (ctl s) \<and> waiters_inv s)"

lemma NewController_inv [inv_intros]: "fc_inv (NewController high low)"
proof -
  have "max (quot h 10) 1 < h \<or> h = 1" if "0 < h" for h
    using that by (auto simp: quot_pos)
  moreover have "max (quot h 10) 1 \<le> h" if "0 < h" for h
    using that by (auto simp: quot_pos)
  ultimately show ?thesis
    by (auto simp: NewController_def fc_inv_def Let_def)
qed

lemma Acquire_inv [inv_intros]: "fc_inv fc \<Longrightarrow> Controller_Acquire fc = (out, fc') \<Longrightarrow> fc_inv fc'"
  by (auto simp: Controller_Acquire_def fc_inv_def Let_def split: if_splits)

text \<open>The two ways a release can end, and the one way it panics.\<close>

lemma Controller_Release_eq:
  "Controller_Release fc =
     (let p = (if pending fc > 0 then pending fc - 1 else pending fc) in
      if blocked fc \<and> p \<le> lowWatermark fc then
        if unblockCh fc \<in> set (chClosed fc) then None
        else Some (fc\<lparr>pending := p, blocked := False, chClosed := unblockCh fc # chClosed fc,
                       unblockCh := chNext fc, chNext := chNext fc + 1\<rparr>)
      else Some (fc\<lparr>pending := p\<rparr>))"
  by (auto simp: Controller_Release_def close_ch_def Let_def)

lemma Release_inv [inv_intros]:
  assumes inv: "fc_inv fc" and rel: "Controller_Release fc = Some fc'"
  shows "fc_inv fc'"
proof -
  define p where "p = (if pending fc > 0 then pending fc - 1 else pending fc)"
  have p: "0 \<le> p" "p < highWatermark fc" "p < pending fc \<or> p = 0"
    using inv by (auto simp: fc_inv_def p_def)
  show ?thesis
  proof (cases "blocked fc \<and> p \<le> lowWatermark fc")
    case True
    then have "unblockCh fc \<notin> set (chClosed fc)"
      "fc' = fc\<lparr>pending := p, blocked := False, chClosed := unblockCh fc # chClosed fc,
               unblockCh := chNext fc, chNext := chNext fc + 1\<rparr>"
      using rel by (simp_all add: Controller_Release_eq p_def [symmetric] split: if_splits)
    then show ?thesis using inv p by (auto simp: fc_inv_def)
  next
    case False
    then have "fc' = fc\<lparr>pending := p\<rparr>"
      using rel by (auto simp: Controller_Release_eq p_def [symmetric])
    then show ?thesis using inv p False by (auto simp: fc_inv_def)
  qed
qed

lemma Close_inv [inv_intros]: "fc_inv fc \<Longrightarrow> Controller_Close fc = Some fc' \<Longrightarrow> fc_inv fc'"
  by (auto simp: Controller_Close_def fc_inv_def close_ch_def split: if_splits)

lemma SetBlockedCallback_inv [inv_intros]: "fc_inv fc \<Longrightarrow> fc_inv (SetBlockedCallback b fc)"
  by (simp add: SetBlockedCallback_def fc_inv_def)

lemma Acquire_channels:
  "Controller_Acquire fc = (out, fc') \<Longrightarrow>
     chClosed fc' = chClosed fc \<and> unblockCh fc' = unblockCh fc \<and> (blocked fc \<longrightarrow> blocked fc') \<and>
     (\<forall>ch. waits_on out = Some ch \<longrightarrow> ch = unblockCh fc \<and> blocked fc)"
  by (auto simp: Controller_Acquire_def Let_def split: if_splits)

lemma Release_channels:
  "Controller_Release fc = Some fc' \<Longrightarrow>
     set (chClosed fc) \<subseteq> set (chClosed fc') \<and>
     (unblockCh fc \<in> set (chClosed fc') \<or> unblockCh fc' = unblockCh fc \<and> blocked fc' = blocked fc)"
  by (auto simp: Controller_Release_eq Let_def split: if_splits)

lemma Close_channels:
  "Controller_Close fc = Some fc' \<Longrightarrow>
     set (chClosed fc) \<subseteq> set (chClosed fc') \<and> unblockCh fc' = unblockCh fc \<and> blocked fc' = blocked fc"
  by (auto simp: Controller_Close_def close_ch_def split: if_splits)

lemma waiters_inv_mono:
  assumes "waiters_inv s" and "set (chClosed (ctl s)) \<subseteq> set (chClosed fc)"
    and "unblockCh (ctl s) \<in> set (chClosed fc) \<or>
         unblockCh fc = unblockCh (ctl s) \<and> (blocked (ctl s) \<longrightarrow> blocked fc)"
  shows "waiters_inv (s\<lparr>ctl := fc\<rparr>)"
  using assms unfolding waiters_inv_def by simp (metis subsetD)

lemma waiters_inv_wait:
  assumes "waiters_inv s" and "\<And>ch. w = Some ch \<Longrightarrow> ch = unblockCh (ctl s) \<and> blocked (ctl s)"
  shows "waiters_inv (s\<lparr>waiting := (waiting s)(t := w)\<rparr>)"
  using assms by (auto simp: waiters_inv_def)

lemma waiters_inv_acquire:
  assumes "waiters_inv s" and acq: "Controller_Acquire (ctl s) = (out, fc)"
  shows "waiters_inv (s\<lparr>ctl := fc, waiting := (waiting s)(t := waits_on out)\<rparr>)"
proof -
  have "waiters_inv (s\<lparr>ctl := fc\<rparr>)"
    using Acquire_channels [OF acq] assms(1) by (intro waiters_inv_mono) auto
  then have "waiters_inv (s\<lparr>ctl := fc\<rparr>\<lparr>waiting := (waiting (s\<lparr>ctl := fc\<rparr>))(t := waits_on out)\<rparr>)"
    using Acquire_channels [OF acq] by (intro waiters_inv_wait) auto
  then show ?thesis by simp
qed

lemma fstep_inv: "fstep s l s' \<Longrightarrow> finv s \<Longrightarrow> finv s'"
proof (induction rule: fstep.induct)
  case (f_acquire s t out fc)
  then show ?case by (auto simp: finv_def intro: waiters_inv_acquire Acquire_inv)
next
  case (f_wake s t ch out fc)
  then show ?case by (auto simp: finv_def intro: waiters_inv_acquire Acquire_inv)
next
  case (f_cancel s t ch)
  then show ?case using waiters_inv_wait [of s None t] by (simp add: finv_def)
next
  case (f_release s fc)
  then show ?case
    using Release_channels [OF f_release.hyps] Release_inv [OF _ f_release.hyps]
      waiters_inv_mono [of s fc] by (auto simp: finv_def)
next
  case (f_close s fc)
  then show ?case
    using Close_channels [OF f_close.hyps] Close_inv [OF _ f_close.hyps]
      waiters_inv_mono [of s fc] by (auto simp: finv_def)
next
  case (f_callback s b)
  then show ?case
    using SetBlockedCallback_inv waiters_inv_mono [of s "SetBlockedCallback b (ctl s)"]
    by (simp add: finv_def SetBlockedCallback_def)
qed

lemma finit_inv: "finit s \<Longrightarrow> finv s"
  by (auto simp: finit_def finv_def waiters_inv_def NewController_inv)

interpretation flow: invariant_system finit fstep finv
  by unfold_locales (auto intro: finit_inv fstep_inv)

section \<open>Draining\<close>

text \<open>A number of releases in a row.\<close>

fun releases :: "nat \<Rightarrow> Controller \<Rightarrow> Controller option" where
  "releases 0 fc = Some fc"
| "releases (Suc n) fc = (case Controller_Release fc of None \<Rightarrow> None | Some fc' \<Rightarrow> releases n fc')"

lemma Release_stays_blocked:
  assumes "fc_inv fc" and "blocked fc" and "lowWatermark fc + 1 < pending fc"
  shows "Controller_Release fc = Some (fc\<lparr>pending := pending fc - 1\<rparr>)"
  using assms by (simp add: Controller_Release_eq fc_inv_def)

lemma Release_unblocks:
  assumes "fc_inv fc" and "blocked fc" and "\<not> closed fc" and "pending fc \<le> lowWatermark fc + 1"
  shows "\<exists>fc'. Controller_Release fc = Some fc' \<and> \<not> blocked fc' \<and> unblockCh fc \<in> set (chClosed fc')"
  using assms by (auto simp: Controller_Release_eq fc_inv_def Let_def)

lemma releases_partial:
  assumes "fc_inv fc" and "blocked fc" and "int k < pending fc - lowWatermark fc"
  shows "releases k fc = Some (fc\<lparr>pending := pending fc - int k\<rparr>)"
  using assms
proof (induction k arbitrary: fc)
  case (Suc k)
  let ?fc' = "fc\<lparr>pending := pending fc - 1\<rparr>"
  have rel: "Controller_Release fc = Some ?fc'"
    using Suc.prems by (intro Release_stays_blocked) auto
  have "fc_inv ?fc'" using Release_inv [OF Suc.prems(1) rel] .
  then have "releases k ?fc' = Some (?fc'\<lparr>pending := pending ?fc' - int k\<rparr>)"
    using Suc.prems by (intro Suc.IH) auto
  then show ?case using rel by (simp add: algebra_simps)
qed simp

lemma releases_add:
  "releases (m + n) fc = (case releases m fc of None \<Rightarrow> None | Some fc' \<Rightarrow> releases n fc')"
  by (induction m arbitrary: fc) (auto split: option.splits)

section \<open>Properties\<close>

text \<open>
  Property C23: Whatever the interleaving of goroutines calling the controller's methods, the number
  of pending messages stays between 0 and the high watermark, sends are admitted only below the
  high watermark, the controller is blocked only until the pending messages have come down to
  the low watermark, and no wake-up is lost: a goroutine that waits inside \<^verbatim>\<open>Acquire\<close> either
  waits on a channel that has been closed, so that it will run again, or the controller is blocked
  and the goroutine waits on its current channel.
\<close>

theorem flow_control_invariant:
  assumes "finit s" and "runs fstep s ls s'"
  shows "0 \<le> pending (ctl s') \<and> pending (ctl s') \<le> highWatermark (ctl s') \<and>
         (blocked (ctl s') \<or> pending (ctl s') < highWatermark (ctl s')) \<and>
         (blocked (ctl s') \<longrightarrow>
            lowWatermark (ctl s') < pending (ctl s') \<or> pending (ctl s') = highWatermark (ctl s')) \<and>
         (waiting s' t = Some ch \<longrightarrow>
            ch \<in> set (chClosed (ctl s')) \<or> ch = unblockCh (ctl s') \<and> blocked (ctl s'))"
  using flow.inv_reachable [OF assms] by (simp add: finv_def fc_inv_def waiters_inv_def)

theorem flow_control_invariant_witness:
  "\<exists>s'. runs fstep \<lparr>ctl = NewController 1 0, waiting = (\<lambda>_. None)\<rparr>
          [FAcquire 0 (AcquireGranted False), FAcquire 1 (AcquireWait 0)] s' \<and>
        waiting s' 1 = Some 0 \<and> blocked (ctl s')"
proof -
  let ?s = "\<lparr>ctl = NewController 1 0, waiting = (\<lambda>_. None)\<rparr> :: fsystem"
  let ?c = "(NewController 1 0)\<lparr>pending := 1, blocked := True\<rparr>"
  let ?s1 = "\<lparr>ctl = ?c, waiting = (\<lambda>_. None)\<rparr> :: fsystem"
  let ?s2 = "\<lparr>ctl = ?c, waiting = (\<lambda>_. None)(1 := Some 0)\<rparr> :: fsystem"
  have step1: "fstep ?s (FAcquire 0 (AcquireGranted False)) ?s1"
    by (rule back_subst [where P = "fstep ?s _",
          OF f_acquire [of ?s 0 "AcquireGranted False" ?c]])
      (simp_all add: Controller_Acquire_def NewController_def Let_def quot_def fun_eq_iff)
  have step2: "fstep ?s1 (FAcquire 1 (AcquireWait 0)) ?s2"
    by (rule back_subst [where P = "fstep ?s1 _", OF f_acquire [of ?s1 1 "AcquireWait 0" ?c]])
      (simp_all add: Controller_Acquire_def NewController_def Let_def quot_def)
  have run: "runs fstep ?s [FAcquire 0 (AcquireGranted False), FAcquire 1 (AcquireWait 0)] ?s2"
    by (rule runs_cons [where step = fstep, OF step1],
        rule runs_cons [where step = fstep, OF step2], rule runs.runs_nil)
  have "finit ?s" by (auto simp: finit_def)
  from flow_control_invariant [OF this run, of 1 0] run show ?thesis
    by (intro exI [of _ ?s2]) (simp add: NewController_def Let_def)
qed

text \<open>
  Property C24: A blocked controller that is not closed is unblocked by exactly as many releases as
  are needed to come down to the low watermark: it stays blocked during the releases before, none
  of them panics, and the last one closes the channel on which every waiter since the blocking
  waits.
\<close>

theorem blocked_controller_drains:
  assumes "fc_inv fc" and "blocked fc" and "\<not> closed fc"
    and "n = nat (max 1 (pending fc - lowWatermark fc))"
  shows "(k < n \<longrightarrow> (\<exists>fc'. releases k fc = Some fc' \<and> blocked fc')) \<and>
         (\<exists>fc'. releases n fc = Some fc' \<and> \<not> blocked fc' \<and> unblockCh fc \<in> set (chClosed fc'))"
proof -
  let ?fc = "fc\<lparr>pending := pending fc - int (n - 1)\<rparr>"
  have before: "\<exists>fc'. releases k fc = Some fc' \<and> blocked fc'" if "k < n" for k
    using that assms releases_partial [of fc k] by (cases "k = 0") (auto simp: max_def split: if_splits)
  have last: "releases (n - 1) fc = Some ?fc"
    using assms releases_partial [of fc "n - 1"] by (cases "n - 1 = 0") (auto simp: max_def split: if_splits)
  have "fc_inv ?fc"
    using assms(1,2,4) by (auto simp: fc_inv_def max_def split: if_splits)
  moreover have "pending ?fc \<le> lowWatermark ?fc + 1"
    using assms(4) by (auto simp: max_def split: if_splits)
  ultimately obtain fc' where fc': "Controller_Release ?fc = Some fc'" "\<not> blocked fc'"
    "unblockCh fc \<in> set (chClosed fc')"
    using Release_unblocks [of ?fc] assms(2,3) by auto
  have "releases n fc = Some fc'"
    using releases_add [of "n - 1" 1 fc] last fc'(1) assms(4) by simp
  with fc' before show ?thesis by blast
qed

theorem blocked_controller_drains_witness:
  "\<exists>fc'. releases 2 ((NewController 3 1)\<lparr>pending := 3, blocked := True\<rparr>) = Some fc' \<and> \<not> blocked fc'"
  using blocked_controller_drains [of "(NewController 3 1)\<lparr>pending := 3, blocked := True\<rparr>" 2 0]
  by (auto simp: fc_inv_def NewController_def Let_def quot_def)

text \<open>
  An \<^verbatim>\<open>Acquire\<close> that does not wait is granted exactly when the controller is neither
  closed nor blocked; a grant counts one more pending message and blocks the controller exactly when
  that reaches the high watermark, which is also exactly when a registered callback is invoked.
\<close>

theorem Acquire_outcomes:
  assumes "Controller_Acquire fc = (out, fc')"
  shows "(out = AcquireCanceled \<longleftrightarrow> closed fc) \<and>
         (out = AcquireWait (unblockCh fc) \<longleftrightarrow> \<not> closed fc \<and> blocked fc) \<and>
         (\<forall>cb. out = AcquireGranted cb \<longrightarrow>
            \<not> closed fc \<and> \<not> blocked fc \<and> pending fc' = pending fc + 1 \<and>
            blocked fc' = (pending fc + 1 \<ge> highWatermark fc) \<and> cb = (blocked fc' \<and> onBlocked fc)) \<and>
         (out = AcquireCanceled \<or> out = AcquireWait (unblockCh fc) \<longrightarrow> fc' = fc)"
  using assms by (auto simp: Controller_Acquire_def Let_def split: if_splits)

theorem Acquire_outcomes_witness:
  "blocked (snd (Controller_Acquire (NewController 1 1)))"
  using Acquire_outcomes [of "NewController 1 1" "AcquireGranted False" "snd (Controller_Acquire (NewController 1 1))"]
  by (simp add: Controller_Acquire_def NewController_def Let_def quot_def)

text \<open>
  \<^verbatim>\<open>Release\<close> panics (it closes a channel that is closed already) exactly when the
  controller was closed while it was blocked and this release brings the pending messages down to
  the low watermark; so closing a blocked controller makes a later release by a sender that
  still holds a permit panic.
\<close>

theorem Release_panics_after_Close:
  assumes "fc_inv fc"
  shows "Controller_Release fc = None \<longleftrightarrow> closed fc \<and> blocked fc \<and> pending fc \<le> lowWatermark fc + 1"
  using assms by (auto simp: Controller_Release_eq fc_inv_def Let_def)

theorem Release_panics_after_Close_witness:
  "Option.bind (Controller_Close ((NewController 2 1)\<lparr>pending := 2, blocked := True\<rparr>)) Controller_Release = None \<and>
   Controller_Close ((NewController 2 1)\<lparr>pending := 2, blocked := True\<rparr>) \<noteq> None"
proof -
  let ?fc = "(NewController 2 1)\<lparr>pending := 2, blocked := True, closed := True, chClosed := [0]\<rparr>"
  have "fc_inv ?fc" by (simp add: fc_inv_def NewController_def Let_def quot_def)
  from Release_panics_after_Close [OF this]
  have "Controller_Release ?fc = None" by (simp add: NewController_def Let_def quot_def)
  moreover have "Controller_Close ((NewController 2 1)\<lparr>pending := 2, blocked := True\<rparr>) = Some ?fc"
    by (simp add: Controller_Close_def close_ch_def NewController_def Let_def quot_def)
  ultimately show ?thesis by simp
qed

end
