(* ===== verification/Config.thy ===== *)
theory Config
  imports Errors
begin

text \<open>
  Node configuration (\<^verbatim>\<open>src/config.go\<close>): the struct, \<^verbatim>\<open>Validate\<close>, \<^verbatim>\<open>applyDefaults\<close>, the functional
  options and \<^verbatim>\<open>NewConfig\<close>. The fields that are only stored and passed on (logger, metrics, decryption
  callback, multiaddresses) are opaque values; their absence (\<^verbatim>\<open>nil\<close>) is \<open>None\<close>. The lemmas say what a
  node may rely on after validation and defaulting, and where the two disagree with the comments.
\<close>

section \<open>Model\<close>

text \<open>The field types \<open>'l\<close>, \<open>'m\<close>, \<open>'cb\<close> stand for the interfaces \<^verbatim>\<open>Logger\<close>, \<^verbatim>\<open>Metrics\<close> and the callback.\<close>

record ('a, 'l, 'm, 'cb) Config =
  PrivateKey :: "bytes option"
  AddressBookPath :: string
  ListenAddrs :: "'a list"
  HandshakeTimeout :: duration
  ReconnectBaseDelay :: duration
  ReconnectMaxDelay :: duration
  ReconnectMaxAttempts :: int
  FailedHandshakeCooldown :: duration
  EventBufferSize :: int
  MessageBufferSize :: int
  Logger :: "'l option"
  Metrics :: "'m option"
  HighWatermark :: int
  LowWatermark :: int
  MaxMessageSize :: int
  DisableBackpressure :: bool
  ConnMgrLowWatermark :: int
  ConnMgrHighWatermark :: int
  OnDecryptionError :: "'cb option"
  MaxStreamNameLength :: int
  MaxMetadataSize :: int

definition ed25519_PrivateKeySize :: nat where
  "ed25519_PrivateKeySize = 64"

definition invalid_config :: "string \<Rightarrow> goerr option" where
  "invalid_config msg = Some (Errorf msg (Some (Sentinel ErrInvalidConfig)))"

definition Config_Validate :: "('a, 'l, 'm, 'cb) Config \<Rightarrow> goerr option" where
  "Config_Validate c =
    (case PrivateKey c of None \<Rightarrow> Some (Sentinel ErrMissingPrivateKey) | Some key \<Rightarrow>
     if length key \<noteq> ed25519_PrivateKeySize
       then Some (Errorf ''expected 64 bytes'' (Some (Sentinel ErrInvalidPrivateKey)))
     else if AddressBookPath c = '''' then Some (Sentinel ErrMissingAddressBookPath)
     else if length (ListenAddrs c) = 0 then Some (Sentinel ErrMissingListenAddrs)
     else if HandshakeTimeout c < 0 then invalid_config ''handshake timeout cannot be negative''
     else if ReconnectBaseDelay c < 0 then invalid_config ''reconnect base delay cannot be negative''
     else if ReconnectMaxDelay c < 0 then invalid_config ''reconnect max delay cannot be negative''
     else if ReconnectMaxDelay c > 0 \<and> ReconnectMaxDelay c < ReconnectBaseDelay c
       then invalid_config ''reconnect max delay cannot be less than base delay''
     else if ReconnectMaxAttempts c < 0 then invalid_config ''reconnect max attempts cannot be negative''
     else if FailedHandshakeCooldown c < 0 then invalid_config ''failed handshake cooldown cannot be negative''
     else if EventBufferSize c < 0 then invalid_config ''event buffer size cannot be negative''
     else if MessageBufferSize c < 0 then invalid_config ''message buffer size cannot be negative''
     else if HighWatermark c < 0 then invalid_config ''high watermark cannot be negative''
     else if LowWatermark c < 0 then invalid_config ''low watermark cannot be negative''
     else if LowWatermark c > 0 \<and> HighWatermark c > 0 \<and> LowWatermark c \<ge> HighWatermark c
       then invalid_config ''low watermark must be less than high watermark''
     else if MaxMessageSize c < 0 then invalid_config ''max message size cannot be negative''
     else if ConnMgrLowWatermark c < 0 then invalid_config ''connection manager low watermark cannot be negative''
     else if ConnMgrHighWatermark c < 0 then invalid_config ''connection manager high watermark cannot be negative''
     else if ConnMgrLowWatermark c > 0 \<and> ConnMgrHighWatermark c > 0 \<and> ConnMgrLowWatermark c \<ge> ConnMgrHighWatermark c
       then invalid_config ''connection manager low watermark must be less than high watermark''
     else if MaxStreamNameLength c < 0 then invalid_config ''max stream name length cannot be negative''
     else if MaxMetadataSize c < 0 then invalid_config ''max metadata size cannot be negative''
     else None)"

text \<open>\<^verbatim>\<open>if x == 0 { x = d }\<close>, the default of a numeric field.\<close>

definition default_int :: "int \<Rightarrow> int \<Rightarrow> int" where
  "default_int d x = (if x = 0 then d else x)"

text \<open>
  The relations between watermarks that the end of \<^verbatim>\<open>applyDefaults\<close> restores; \<open>k\<close> is the divisor.
\<close>

definition fix_low :: "int \<Rightarrow> int \<Rightarrow> int \<Rightarrow> int" where
  "fix_low k low high = (if low \<ge> high then (if quot high k < 1 then 1 else quot high k) else low)"

definition applyDefaults ::
    "'l \<Rightarrow> 'm \<Rightarrow> ('a, 'l, 'm, 'cb) Config \<Rightarrow> ('a, 'l, 'm, 'cb) Config" where
  "applyDefaults nopLogger nopMetrics c =
     (let c1 = c\<lparr>HandshakeTimeout := default_int (30 * second) (HandshakeTimeout c),
                 ReconnectBaseDelay := default_int (1 * second) (ReconnectBaseDelay c),
                 ReconnectMaxDelay := default_int (300 * second) (ReconnectMaxDelay c),
                 ReconnectMaxAttempts := default_int 10 (ReconnectMaxAttempts c),
                 FailedHandshakeCooldown := default_int (60 * second) (FailedHandshakeCooldown c),
                 EventBufferSize := default_int 100 (EventBufferSize c),
                 MessageBufferSize := default_int 1000 (MessageBufferSize c),
                 Logger := Some (case Logger c of None \<Rightarrow> nopLogger | Some l \<Rightarrow> l),
                 Metrics := Some (case Metrics c of None \<Rightarrow> nopMetrics | Some m \<Rightarrow> m),
                 HighWatermark := default_int 1000 (HighWatermark c),
                 LowWatermark := default_int 100 (LowWatermark c),
                 MaxMessageSize := default_int (2 ^ 20) (MaxMessageSize c),
                 ConnMgrLowWatermark := default_int 100 (ConnMgrLowWatermark c),
                 ConnMgrHighWatermark := default_int 400 (ConnMgrHighWatermark c),
                 MaxStreamNameLength := default_int 64 (MaxStreamNameLength c),
                 MaxMetadataSize := default_int 4096 (MaxMetadataSize c)\<rparr>
      in c1\<lparr>LowWatermark := fix_low 10 (LowWatermark c1) (HighWatermark c1),
            ConnMgrLowWatermark := fix_low 4 (ConnMgrLowWatermark c1) (ConnMgrHighWatermark c1)\<rparr>)"

text \<open>The functional options, each a value of a datatype and its effect on the configuration.\<close>

datatype ('l, 'm, 'cb) ConfigOption =
    WithHandshakeTimeout duration
  | WithReconnectBaseDelay duration
  | WithReconnectMaxDelay duration
  | WithReconnectMaxAttempts int
  | WithFailedHandshakeCooldown duration
  | WithEventBufferSize int
  | WithMessageBufferSize int
  | WithLogger 'l
  | WithMetrics 'm
  | WithHighWatermark int
  | WithLowWatermark int
  | WithMaxMessageSize int
  | WithBackpressureDisabled
  | WithConnMgrLowWatermark int
  | WithConnMgrHighWatermark int
  | WithDecryptionErrorCallback 'cb
  | WithMaxStreamNameLength int
  | WithMaxMetadataSize int

fun apply_option ::
    "('l, 'm, 'cb) ConfigOption \<Rightarrow> ('a, 'l, 'm, 'cb) Config \<Rightarrow> ('a, 'l, 'm, 'cb) Config" where
  "apply_option (WithHandshakeTimeout d) c = c\<lparr>HandshakeTimeout := d\<rparr>"
| "apply_option (WithReconnectBaseDelay d) c = c\<lparr>ReconnectBaseDelay := d\<rparr>"
| "apply_option (WithReconnectMaxDelay d) c = c\<lparr>ReconnectMaxDelay := d\<rparr>"
| "apply_option (WithReconnectMaxAttempts n) c = c\<lparr>ReconnectMaxAttempts := n\<rparr>"
| "apply_option (WithFailedHandshakeCooldown d) c = c\<lparr>FailedHandshakeCooldown := d\<rparr>"
| "apply_option (WithEventBufferSize n) c = c\<lparr>EventBufferSize := n\<rparr>"
| "apply_option (WithMessageBufferSize n) c = c\<lparr>MessageBufferSize := n\<rparr>"
| "apply_option (WithLogger l) c = c\<lparr>Logger := Some l\<rparr>"
| "apply_option (WithMetrics m) c = c\<lparr>Metrics := Some m\<rparr>"
| "apply_option (WithHighWatermark n) c = c\<lparr>HighWatermark := n\<rparr>"
| "apply_option (WithLowWatermark n) c = c\<lparr>LowWatermark := n\<rparr>"
| "apply_option (WithMaxMessageSize n) c = c\<lparr>MaxMessageSize := n\<rparr>"
| "apply_option WithBackpressureDisabled c = c\<lparr>DisableBackpressure := True\<rparr>"
| "apply_option (WithConnMgrLowWatermark n) c = c\<lparr>ConnMgrLowWatermark := n\<rparr>"
| "apply_option (WithConnMgrHighWatermark n) c = c\<lparr>ConnMgrHighWatermark := n\<rparr>"
| "apply_option (WithDecryptionErrorCallback cb) c = c\<lparr>OnDecryptionError := Some cb\<rparr>"
| "apply_option (WithMaxStreamNameLength n) c = c\<lparr>MaxStreamNameLength := n\<rparr>"
| "apply_option (WithMaxMetadataSize n) c = c\<lparr>MaxMetadataSize := n\<rparr>"

definition zero_config :: "bytes option \<Rightarrow> string \<Rightarrow> 'a list \<Rightarrow> ('a, 'l, 'm, 'cb) Config" where
  "zero_config key path addrs =
     \<lparr>PrivateKey = key, AddressBookPath = path, ListenAddrs = addrs, HandshakeTimeout = 0,
      ReconnectBaseDelay = 0, ReconnectMaxDelay = 0, ReconnectMaxAttempts = 0,
      FailedHandshakeCooldown = 0, EventBufferSize = 0, MessageBufferSize = 0, Logger = None,
      Metrics = None, HighWatermark = 0, LowWatermark = 0, MaxMessageSize = 0,
      DisableBackpressure = False, ConnMgrLowWatermark = 0, ConnMgrHighWatermark = 0,
      OnDecryptionError = None, MaxStreamNameLength = 0, MaxMetadataSize = 0\<rparr>"

definition NewConfig ::
    "'l \<Rightarrow> 'm \<Rightarrow> bytes option \<Rightarrow> string \<Rightarrow> 'a list \<Rightarrow> ('l, 'm, 'cb) ConfigOption list \<Rightarrow>
     ('a, 'l, 'm, 'cb) Config" where
  "NewConfig nopLogger nopMetrics key path addrs opts =
     applyDefaults nopLogger nopMetrics (fold apply_option opts (zero_config key path addrs))"

section \<open>Lemmas\<close>

lemma invalid_config_neq_None [simp]: "invalid_config m \<noteq> None"
  by (simp add: invalid_config_def)

lemma second_pos [simp]: "0 < second"
  by (simp add: second_def)

lemma default_int_cases: "default_int d x = d \<and> x = 0 \<or> default_int d x = x \<and> x \<noteq> 0"
  by (simp add: default_int_def)

lemma default_int_idem: "d \<noteq> 0 \<Longrightarrow> default_int d (default_int d x) = default_int d x"
  by (simp add: default_int_def)

lemma default_int_pos: "0 < d \<Longrightarrow> 0 \<le> x \<Longrightarrow> 0 < default_int d x"
  by (simp add: default_int_def)

lemma default_int_id [simp]: "x \<noteq> 0 \<Longrightarrow> default_int d x = x"
  by (simp add: default_int_def)

lemma fix_low_idem: "fix_low k (fix_low k low high) high = fix_low k low high"
  by (simp add: fix_low_def)

lemma fix_low_pos: "0 < low \<Longrightarrow> 0 < fix_low k low high"
  by (simp add: fix_low_def)

lemma fix_low_nonzero: "low \<noteq> 0 \<Longrightarrow> fix_low k low high \<noteq> 0"
  by (simp add: fix_low_def)

lemma fix_low_less:
  assumes "2 \<le> k" and "0 < high" and "high \<noteq> 1"
  shows "fix_low k low high < high"
proof -
  have "quot high k = high div k" using assms by (simp add: quot_pos)
  moreover have "high div k < high" using assms by (simp add: int_div_less_self)
  ultimately show ?thesis using assms by (simp add: fix_low_def)
qed

lemma fix_low_one: "2 \<le> k \<Longrightarrow> 1 \<le> low \<Longrightarrow> fix_low k low 1 = 1"
  by (simp add: fix_low_def quot_pos)

text \<open>The fields after defaulting, one equation each.\<close>

lemma applyDefaults_fields [simp]:
  "PrivateKey (applyDefaults l m c) = PrivateKey c"
  "AddressBookPath (applyDefaults l m c) = AddressBookPath c"
  "ListenAddrs (applyDefaults l m c) = ListenAddrs c"
  "HandshakeTimeout (applyDefaults l m c) = default_int (30 * second) (HandshakeTimeout c)"
  "ReconnectBaseDelay (applyDefaults l m c) = default_int (1 * second) (ReconnectBaseDelay c)"
  "ReconnectMaxDelay (applyDefaults l m c) = default_int (300 * second) (ReconnectMaxDelay c)"
  "ReconnectMaxAttempts (applyDefaults l m c) = default_int 10 (ReconnectMaxAttempts c)"
  "FailedHandshakeCooldown (applyDefaults l m c) = default_int (60 * second) (FailedHandshakeCooldown c)"
  "EventBufferSize (applyDefaults l m c) = default_int 100 (EventBufferSize c)"
  "MessageBufferSize (applyDefaults l m c) = default_int 1000 (MessageBufferSize c)"
  "HighWatermark (applyDefaults l m c) = default_int 1000 (HighWatermark c)"
  "LowWatermark (applyDefaults l m c) =
     fix_low 10 (default_int 100 (LowWatermark c)) (default_int 1000 (HighWatermark c))"
  "MaxMessageSize (applyDefaults l m c) = default_int (2 ^ 20) (MaxMessageSize c)"
  "ConnMgrLowWatermark (applyDefaults l m c) =
     fix_low 4 (default_int 100 (ConnMgrLowWatermark c)) (default_int 400 (ConnMgrHighWatermark c))"
  "ConnMgrHighWatermark (applyDefaults l m c) = default_int 400 (ConnMgrHighWatermark c)"
  "MaxStreamNameLength (applyDefaults l m c) = default_int 64 (MaxStreamNameLength c)"
  "MaxMetadataSize (applyDefaults l m c) = default_int 4096 (MaxMetadataSize c)"
  "DisableBackpressure (applyDefaults l m c) = DisableBackpressure c"
  "OnDecryptionError (applyDefaults l m c) = OnDecryptionError c"
  "Logger (applyDefaults l m c) = Some (case Logger c of None \<Rightarrow> l | Some x \<Rightarrow> x)"
  "Metrics (applyDefaults l m c) = Some (case Metrics c of None \<Rightarrow> m | Some x \<Rightarrow> x)"
  by (simp_all add: applyDefaults_def Let_def)

text \<open>What a validated configuration satisfies, as one predicate on its fields.\<close>

definition config_ok :: "('a, 'l, 'm, 'cb) Config \<Rightarrow> bool" where
  "config_ok c =
     ((case PrivateKey c of None \<Rightarrow> False | Some key \<Rightarrow> length key = 64) \<and>
      AddressBookPath c \<noteq> '''' \<and> ListenAddrs c \<noteq> [] \<and>
      0 \<le> HandshakeTimeout c \<and> 0 \<le> ReconnectBaseDelay c \<and> 0 \<le> ReconnectMaxDelay c \<and>
      \<not> (ReconnectMaxDelay c > 0 \<and> ReconnectMaxDelay c < ReconnectBaseDelay c) \<and>
      0 \<le> ReconnectMaxAttempts c \<and> 0 \<le> FailedHandshakeCooldown c \<and>
      0 \<le> EventBufferSize c \<and> 0 \<le> MessageBufferSize c \<and>
      0 \<le> HighWatermark c \<and> 0 \<le> LowWatermark c \<and>
      \<not> (LowWatermark c > 0 \<and> HighWatermark c > 0 \<and> LowWatermark c \<ge> HighWatermark c) \<and>
      0 \<le> MaxMessageSize c \<and> 0 \<le> ConnMgrLowWatermark c \<and> 0 \<le> ConnMgrHighWatermark c \<and>
      \<not> (ConnMgrLowWatermark c > 0 \<and> ConnMgrHighWatermark c > 0 \<and>
         ConnMgrLowWatermark c \<ge> ConnMgrHighWatermark c) \<and>
      0 \<le> MaxStreamNameLength c \<and> 0 \<le> MaxMetadataSize c)"

lemma Config_Validate_None: "Config_Validate c = None \<longleftrightarrow> config_ok c"
  by (cases "PrivateKey c") (simp_all add: Config_Validate_def config_ok_def ed25519_PrivateKeySize_def not_less)

section \<open>Properties\<close>

text \<open>
  On a configuration that \<^verbatim>\<open>Validate\<close> accepts, \<^verbatim>\<open>applyDefaults\<close> makes every limit
  positive, and the result is accepted again exactly when neither high watermark is 1 and the
  defaulted base delay does not exceed the defaulted maximum delay. So the relations between
  the watermarks are restored except at a high watermark of 1, and the relation between
  the reconnection delays is not restored.
\<close>

theorem applyDefaults_valid_again:
  assumes "Config_Validate c = None"
  shows "0 < HandshakeTimeout (applyDefaults l m c) \<and> 0 < EventBufferSize (applyDefaults l m c) \<and>
         0 < MessageBufferSize (applyDefaults l m c) \<and> 0 < LowWatermark (applyDefaults l m c) \<and>
         0 < HighWatermark (applyDefaults l m c) \<and> 0 < MaxMessageSize (applyDefaults l m c) \<and>
         (Config_Validate (applyDefaults l m c) = None \<longleftrightarrow>
            HighWatermark c \<noteq> 1 \<and> ConnMgrHighWatermark c \<noteq> 1 \<and>
            default_int second (ReconnectBaseDelay c) \<le> default_int (300 * second) (ReconnectMaxDelay c))"
proof -
  define b where "b = default_int second (ReconnectBaseDelay c)"
  define mx where "mx = default_int (300 * second) (ReconnectMaxDelay c)"
  define hi where "hi = default_int 1000 (HighWatermark c)"
  define lo where "lo = default_int 100 (LowWatermark c)"
  define chi where "chi = default_int 400 (ConnMgrHighWatermark c)"
  define clo where "clo = default_int 100 (ConnMgrLowWatermark c)"
  have ok: "config_ok c" using assms by (simp add: Config_Validate_None)
  then have pos: "0 < b" "0 < mx" "0 < hi" "0 < lo" "0 < chi" "0 < clo"
    by (simp_all add: b_def mx_def hi_def lo_def chi_def clo_def config_ok_def default_int_pos)
  have one: "hi = 1 \<longleftrightarrow> HighWatermark c = 1" "chi = 1 \<longleftrightarrow> ConnMgrHighWatermark c = 1"
    by (simp_all add: hi_def chi_def default_int_def)
  have low: "fix_low 10 lo hi < hi \<longleftrightarrow> hi \<noteq> 1" "fix_low 4 clo chi < chi \<longleftrightarrow> chi \<noteq> 1"
    using pos fix_low_less [of 10 hi lo] fix_low_less [of 4 chi clo] fix_low_one [of 10 lo] fix_low_one [of 4 clo]
    by auto
  have "config_ok (applyDefaults l m c) \<longleftrightarrow> \<not> mx < b \<and> fix_low 10 lo hi < hi \<and> fix_low 4 clo chi < chi"
    using ok pos fix_low_pos [of lo 10 hi] fix_low_pos [of clo 4 chi]
      default_int_pos [of "30 * second" "HandshakeTimeout c"] default_int_pos [of 10 "ReconnectMaxAttempts c"]
      default_int_pos [of "60 * second" "FailedHandshakeCooldown c"] default_int_pos [of 100 "EventBufferSize c"]
      default_int_pos [of 1000 "MessageBufferSize c"] default_int_pos [of "2 ^ 20" "MaxMessageSize c"]
      default_int_pos [of 64 "MaxStreamNameLength c"] default_int_pos [of 4096 "MaxMetadataSize c"]
    unfolding config_ok_def applyDefaults_fields mult_1_left b_def [symmetric] mx_def [symmetric] hi_def [symmetric]
      lo_def [symmetric] chi_def [symmetric] clo_def [symmetric]
    by (simp add: not_le)
  then have again: "Config_Validate (applyDefaults l m c) = None \<longleftrightarrow>
      HighWatermark c \<noteq> 1 \<and> ConnMgrHighWatermark c \<noteq> 1 \<and> b \<le> mx"
    unfolding Config_Validate_None low one not_less by blast
  have "0 < LowWatermark (applyDefaults l m c)" "0 < HighWatermark (applyDefaults l m c)"
    using pos fix_low_pos [of lo 10 hi] by (simp_all add: lo_def hi_def)
  moreover have "0 < HandshakeTimeout (applyDefaults l m c)" "0 < EventBufferSize (applyDefaults l m c)"
    "0 < MessageBufferSize (applyDefaults l m c)" "0 < MaxMessageSize (applyDefaults l m c)"
    using ok by (simp_all add: default_int_pos config_ok_def)
  ultimately show ?thesis using again unfolding b_def mx_def by blast
qed

theorem applyDefaults_valid_again_witness:
  "Config_Validate (applyDefaults () () (zero_config (Some (replicate 64 0)) ''book'' [()] ::
     (unit, unit, unit, unit) Config)) = None \<and>
   Config_Validate (applyDefaults () ()
     ((zero_config (Some (replicate 64 0)) ''book'' [()] :: (unit, unit, unit, unit) Config)
        \<lparr>HighWatermark := 1\<rparr>)) \<noteq> None"
proof
  let ?c = "zero_config (Some (replicate 64 0)) ''book'' [()] :: (unit, unit, unit, unit) Config"
  have ok: "Config_Validate ?c = None"
    by (simp add: Config_Validate_None config_ok_def zero_config_def)
  have ok1: "Config_Validate (?c\<lparr>HighWatermark := 1\<rparr>) = None"
    by (simp add: Config_Validate_None config_ok_def zero_config_def)
  show "Config_Validate (applyDefaults () () ?c) = None"
    using applyDefaults_valid_again [OF ok, of "()" "()"]
    by (simp add: zero_config_def default_int_def second_def)
  show "Config_Validate (applyDefaults () () (?c\<lparr>HighWatermark := 1\<rparr>)) \<noteq> None"
    using applyDefaults_valid_again [OF ok1, of "()" "()"] by simp
qed

text \<open>
  Applying the defaults twice is the same as applying them once, so that the second
  \<^verbatim>\<open>applyDefaults\<close>, which \<^verbatim>\<open>New\<close> makes on a configuration built by \<^verbatim>\<open>NewConfig\<close>, changes nothing.
\<close>

theorem applyDefaults_idem:
  "applyDefaults l m (applyDefaults l m c) = applyDefaults l m c"
proof (rule Config.equality)
  show "LowWatermark (applyDefaults l m (applyDefaults l m c)) = LowWatermark (applyDefaults l m c)"
    by (simp add: default_int_idem fix_low_idem fix_low_nonzero default_int_def)
  show "ConnMgrLowWatermark (applyDefaults l m (applyDefaults l m c)) = ConnMgrLowWatermark (applyDefaults l m c)"
    by (simp add: default_int_idem fix_low_idem fix_low_nonzero default_int_def)
qed (simp_all add: default_int_idem second_def)

text \<open>
  The comments on \<^verbatim>\<open>ReconnectMaxAttempts\<close> and \<^verbatim>\<open>WithReconnectMaxAttempts\<close> say that 0 means
  unlimited attempts, but a configuration built with that option last has a limit of 10 attempts;
  no list of options gives a configuration without a limit.
\<close>

theorem NewConfig_no_unlimited_attempts:
  "ReconnectMaxAttempts (NewConfig l m key path addrs (opts @ [WithReconnectMaxAttempts 0])) = 10 \<and>
   ReconnectMaxAttempts (NewConfig l m key path addrs opts) \<noteq> 0"
  by (simp add: NewConfig_def default_int_def)

end
