(* ===== verification/Validation.thy ===== *)
theory Validation
  imports Runes Errors
begin

text \<open>
  Input validation of the root package (\<^verbatim>\<open>src/validation.go\<close>): stream names, lists of stream names
  and metadata sizes. The lemmas characterise exactly which inputs are accepted and which sentinel
  each rejection carries.
\<close>

section \<open>Model\<close>

definition isValidStreamNameChar :: "unicode_tables \<Rightarrow> nat \<Rightarrow> bool" where
  "isValidStreamNameChar u r = (IsLetter u r \<or> IsDigit u r \<or> r = of_char CHR ''-'' \<or> r = of_char CHR ''_'')"

fun check_chars :: "unicode_tables \<Rightarrow> (nat \<times> nat) list \<Rightarrow> goerr option" where
  "check_chars u [] = None"
| "check_chars u ((i, r) # rs) =
     (if \<not> isValidStreamNameChar u r
      then Some (Errorf ''invalid character (only alphanumeric, hyphen, and underscore allowed)''
             (Some (Sentinel ErrInvalidStreamName)))
      else check_chars u rs)"

definition ValidateStreamName :: "unicode_tables \<Rightarrow> string \<Rightarrow> int \<Rightarrow> goerr option" where
  "ValidateStreamName u name maxLength =
     (if name = '''' then Some (Errorf ''stream name cannot be empty'' (Some (Sentinel ErrInvalidStreamName)))
      else if maxLength > 0 \<and> int (length name) > maxLength
        then Some (Errorf ''characters exceeds maximum'' (Some (Sentinel ErrStreamNameTooLong)))
      else check_chars u (runes_of name))"

fun validate_each :: "unicode_tables \<Rightarrow> string list \<Rightarrow> int \<Rightarrow> goerr option" where
  "validate_each u [] maxLength = None"
| "validate_each u (name # names) maxLength =
     (case ValidateStreamName u name maxLength of
        Some err \<Rightarrow> Some err
      | None \<Rightarrow> validate_each u names maxLength)"

definition ValidateStreamNames :: "unicode_tables \<Rightarrow> string list \<Rightarrow> int \<Rightarrow> goerr option" where
  "ValidateStreamNames u names maxLength =
     (if length names = 0 then Some (Sentinel ErrNoStreamsRequested)
      else validate_each u names maxLength)"

text \<open>
  A Go map is the list of its entries in the order one iteration visits them; \<open>None\<close> is the nil
  map.
\<close>

fun metadata_size :: "(string \<times> string) list \<Rightarrow> int" where
  "metadata_size [] = 0"
| "metadata_size ((k, v) # kvs) = int (length k) + int (length v) + metadata_size kvs"

definition ValidateMetadataSize :: "(string \<times> string) list option \<Rightarrow> int \<Rightarrow> goerr option" where
  "ValidateMetadataSize metadata maxSize =
     (if maxSize \<le> 0 then None
      else case metadata of
        None \<Rightarrow> None
      | Some kvs \<Rightarrow>
          if metadata_size kvs > maxSize
          then Some (Errorf ''bytes exceeds maximum'' (Some (Sentinel ErrMetadataTooLarge)))
          else None)"

section \<open>Lemmas\<close>

lemma check_chars_None: "check_chars u rs = None \<longleftrightarrow> (\<forall>(i, r) \<in> set rs. isValidStreamNameChar u r)"
  by (induction u rs rule: check_chars.induct) auto

lemma check_chars_Some:
  "check_chars u rs = Some e \<Longrightarrow> errors_Is e (Sentinel ErrInvalidStreamName)"
  by (induction u rs rule: check_chars.induct) (auto split: if_splits)

lemma validate_each_None:
  "validate_each u names m = None \<longleftrightarrow> (\<forall>name \<in> set names. ValidateStreamName u name m = None)"
  by (induction names) (auto split: option.splits)

text \<open>The characters the documentation lists.\<close>

definition documented_char :: "nat \<Rightarrow> bool" where
  "documented_char r = (in_range (0x61, 0x7A) r \<or> in_range (0x41, 0x5A) r \<or> in_range (0x30, 0x39) r \<or>
     r = of_char CHR ''-'' \<or> r = of_char CHR ''_'')"

lemma valid_char_ascii: "r < 0x80 \<Longrightarrow> isValidStreamNameChar u r = documented_char r"
  by (auto simp: isValidStreamNameChar_def documented_char_def rune_class_defs)

lemma of_char_ascii: "r = of_char c \<Longrightarrow> r < (256 :: nat)"
  by simp

lemma range_runes_valid_bytes:
  "(\<forall>(i, r) \<in> set (range_runes i bs). documented_char r) \<longleftrightarrow> (\<forall>b \<in> set bs. documented_char b)"
  if "\<forall>b \<in> set bs. b < 0x80"
  using range_runes_ascii [OF that, of i] by (metis (mono_tags, lifting) case_prod_beta image_iff list.set_map)

lemma metadata_size_nonneg: "0 \<le> metadata_size kvs"
  by (induction kvs rule: metadata_size.induct) simp_all

section \<open>Properties\<close>

text \<open>
  \<^verbatim>\<open>ValidateStreamName\<close> accepts a name exactly when it is non-empty, not longer than the
  limit (when the limit is positive) and every rune of its UTF-8 decoding is a letter, a digit, a
  hyphen or an underscore; every rejection wraps \<^verbatim>\<open>ErrInvalidStreamName\<close> or
  \<^verbatim>\<open>ErrStreamNameTooLong\<close>, the latter exactly for non-empty names over the limit.
\<close>

theorem ValidateStreamName_exact:
  "(ValidateStreamName u name m = None \<longleftrightarrow>
      name \<noteq> '''' \<and> \<not> (m > 0 \<and> int (length name) > m) \<and>
      list_all (\<lambda>(i, r). isValidStreamNameChar u r) (runes_of name)) \<and>
   (case ValidateStreamName u name m of
      None \<Rightarrow> True
    | Some e \<Rightarrow> errors_Is e (Sentinel ErrInvalidStreamName) \<noteq> errors_Is e (Sentinel ErrStreamNameTooLong) \<and>
        errors_Is e (Sentinel ErrStreamNameTooLong) = (name \<noteq> '''' \<and> m > 0 \<and> int (length name) > m))"
proof -
  have long: "errors_Is e (Sentinel ErrStreamNameTooLong) = False"
    if "check_chars u rs = Some e" for e rs
    using that by (induction u rs rule: check_chars.induct) (auto split: if_splits)
  show ?thesis
    using check_chars_Some [of u "runes_of name"] long [of "runes_of name"]
    by (auto simp: ValidateStreamName_def check_chars_None list_all_iff split: option.splits)
qed

text \<open>
  The validation of a list of names rejects the empty list with
  \<^verbatim>\<open>ErrNoStreamsRequested\<close>, accepts a non-empty list exactly when each name is accepted, and
  otherwise returns the error of the first rejected name.
\<close>

theorem ValidateStreamNames_first_error:
  "ValidateStreamNames u names m =
     (if names = [] then Some (Sentinel ErrNoStreamsRequested)
      else case filter (\<lambda>n. ValidateStreamName u n m \<noteq> None) names of
             [] \<Rightarrow> None
           | n # _ \<Rightarrow> ValidateStreamName u n m)"
proof -
  have "validate_each u names m =
      (case filter (\<lambda>n. ValidateStreamName u n m \<noteq> None) names of
         [] \<Rightarrow> None | n # _ \<Rightarrow> ValidateStreamName u n m)"
    by (induction names) (auto split: option.splits)
  then show ?thesis by (simp add: ValidateStreamNames_def)
qed

text \<open>
  The comment on the stream names lists the characters a-z, A-Z, 0-9, hyphen and
  underscore, and on names of ASCII characters the code accepts exactly those; but it also
  accepts names with other letters, such as the two-byte name of the single rune U+00E9.
\<close>

theorem ValidateStreamName_beyond_ascii:
  assumes "list_all (\<lambda>c. of_char c < (0x80 :: nat)) name"
  shows "(ValidateStreamName u name 0 = None \<longleftrightarrow>
           name \<noteq> '''' \<and> list_all (\<lambda>c. documented_char (of_char c)) name) \<and>
         ValidateStreamName u [char_of (0xC3 :: nat), char_of (0xA9 :: nat)] 64 = None \<and>
         \<not> documented_char 0xE9"
proof (intro conjI)
  have runes: "map snd (runes_of name) = map of_char name"
    using assms by (simp add: runes_of_ascii list_all_iff)
  have "(\<forall>(i, r) \<in> set (runes_of name). isValidStreamNameChar u r) \<longleftrightarrow>
        (\<forall>r \<in> set (map snd (runes_of name)). isValidStreamNameChar u r)"
    by auto
  also have "\<dots> \<longleftrightarrow> (\<forall>c \<in> set name. documented_char (of_char c))"
    unfolding runes using assms by (auto simp: valid_char_ascii list_all_iff)
  finally show "ValidateStreamName u name 0 = None \<longleftrightarrow>
      name \<noteq> '''' \<and> list_all (\<lambda>c. documented_char (of_char c)) name"
    by (auto simp: ValidateStreamName_def check_chars_None list_all_iff)
  show "ValidateStreamName u [char_of (0xC3 :: nat), char_of (0xA9 :: nat)] 64 = None"
    by (simp add: ValidateStreamName_def check_chars_None runes_of_def string_bytes_def
        DecodeRune.simps accept_range_def isValidStreamNameChar_def rune_class_defs)
  show "\<not> documented_char 0xE9"
    by (simp add: documented_char_def in_range_def)
qed

theorem ValidateStreamName_beyond_ascii_witness:
  "ValidateStreamName \<lparr>uLetter = (\<lambda>_. False), uDigit = (\<lambda>_. False)\<rparr> ''block_1'' 0 = None"
  using ValidateStreamName_beyond_ascii
    [of "''block_1''" "\<lparr>uLetter = (\<lambda>_. False), uDigit = (\<lambda>_. False)\<rparr>"]
  by (simp add: documented_char_def in_range_def)

text \<open>
  The metadata check passes when no positive limit is set or the map is nil, and
  otherwise exactly when the sum of the key and value lengths does not exceed the limit; the
  order in which the map is iterated does not matter.
\<close>

theorem ValidateMetadataSize_exact:
  assumes "distinct (map fst kvs)" and "distinct (map fst kvs')" and "map_of kvs = map_of kvs'"
  shows "(ValidateMetadataSize (Some kvs) m = None \<longleftrightarrow>
           m \<le> 0 \<or> (\<Sum>(k, v) \<leftarrow> kvs. int (length k + length v)) \<le> m) \<and>
         ValidateMetadataSize (Some kvs') m = ValidateMetadataSize (Some kvs) m \<and>
         ValidateMetadataSize None m = None"
proof -
  have sum: "metadata_size l = (\<Sum>(k, v) \<leftarrow> l. int (length k + length v))" for l
    by (induction l rule: metadata_size.induct) simp_all
  have "set kvs = set kvs'"
    using assms by (metis map_of_inject_set)
  then have "(\<Sum>(k, v) \<leftarrow> kvs. int (length k + length v)) = (\<Sum>(k, v) \<leftarrow> kvs'. int (length k + length v))"
    using assms(1,2) by (simp add: sum_list_distinct_conv_sum_set distinct_map)
  then show ?thesis by (auto simp: ValidateMetadataSize_def sum)
qed

theorem ValidateMetadataSize_exact_witness:
  "ValidateMetadataSize (Some [(''k'', ''vv''), (''a'', ''b'')]) 4 \<noteq> None \<and>
   ValidateMetadataSize (Some [(''a'', ''b''), (''k'', ''vv'')]) 4 =
   ValidateMetadataSize (Some [(''k'', ''vv''), (''a'', ''b'')]) 4"
  using ValidateMetadataSize_exact [of "[(''k'', ''vv''), (''a'', ''b'')]" "[(''a'', ''b''), (''k'', ''vv'')]" 4]
  by (auto simp: fun_eq_iff)

end
