(* ===== verification/Gater.thy ===== *)
theory Gater
  imports AddressBook
begin

text \<open>
  The connection gater and the protocol identifiers (\<^verbatim>\<open>src/pkg/protocol/gater.go\<close>, \<^verbatim>\<open>ids.go\<close>). The gater asks
  two interfaces, the blacklist checker and, once it is set, the connection state checker; both
  are functions here, and the properties put the address book's \<^verbatim>\<open>IsBlacklisted\<close> in place of the
  first.
\<close>

datatype Direction = DirUnknown | DirInbound | DirOutbound

record ConnectionGater =
  checker :: "peer_id \<Rightarrow> bool"
  stateChecker :: "(peer_id \<Rightarrow> bool) option"

definition NewConnectionGater :: "(peer_id \<Rightarrow> bool) \<Rightarrow> ConnectionGater" where
  "NewConnectionGater chk = \<lparr>checker = chk, stateChecker = None\<rparr>"

definition SetStateChecker :: "(peer_id \<Rightarrow> bool) option \<Rightarrow> ConnectionGater \<Rightarrow> ConnectionGater" where
  "SetStateChecker chk g = g\<lparr>stateChecker := chk\<rparr>"

definition InterceptPeerDial :: "ConnectionGater \<Rightarrow> peer_id \<Rightarrow> bool" where
  "InterceptPeerDial g p = (\<not> checker g p)"

definition InterceptAddrDial :: "ConnectionGater \<Rightarrow> peer_id \<Rightarrow> 'ma \<Rightarrow> bool" where
  "InterceptAddrDial g p addr = (\<not> checker g p)"

definition InterceptAccept :: "ConnectionGater \<Rightarrow> 'addrs \<Rightarrow> bool" where
  "InterceptAccept g addrs = True"

definition InterceptSecured :: "ConnectionGater \<Rightarrow> Direction \<Rightarrow> peer_id \<Rightarrow> 'addrs \<Rightarrow> bool" where
  "InterceptSecured g dir p addrs =
     (if checker g p then False
      else if dir = DirInbound then
        (case stateChecker g of
           None \<Rightarrow> True
         | Some isConnecting \<Rightarrow> if isConnecting p then False else True)
      else True)"

definition InterceptUpgraded :: "ConnectionGater \<Rightarrow> peer_id \<Rightarrow> bool \<times> nat" where
  "InterceptUpgraded g remotePeer = (if checker g remotePeer then (False, 0) else (True, 0))"

section \<open>Protocol identifiers\<close>

definition HandshakeProtocolID :: string where
  "HandshakeProtocolID = ''/glueberry/handshake/1.0.0''"

definition StreamProtocolPrefix :: string where
  "StreamProtocolPrefix = ''/glueberry/stream/''"

definition StreamProtocolSuffix :: string where
  "StreamProtocolSuffix = ''/1.0.0''"

definition StreamProtocolID :: "string \<Rightarrow> string" where
  "StreamProtocolID name = StreamProtocolPrefix @ name @ StreamProtocolSuffix"

section \<open>A gater over a store of banned peers\<close>

text \<open>
  The stages a connection passes: a dial asks about the peer and about each address; an
  accepted connection is checked when secured and when upgraded.
\<close>

definition outbound_allowed :: "ConnectionGater \<Rightarrow> peer_id \<Rightarrow> 'ma \<Rightarrow> 'addrs \<Rightarrow> bool" where
  "outbound_allowed g p addr addrs \<longleftrightarrow>
     InterceptPeerDial g p \<and> InterceptAddrDial g p addr \<and> InterceptSecured g DirOutbound p addrs \<and>
     fst (InterceptUpgraded g p)"

definition inbound_allowed :: "ConnectionGater \<Rightarrow> peer_id \<Rightarrow> 'addrs \<Rightarrow> bool" where
  "inbound_allowed g p addrs \<longleftrightarrow>
     InterceptAccept g addrs \<and> InterceptSecured g DirInbound p addrs \<and> fst (InterceptUpgraded g p)"

lemma gater_outbound: "outbound_allowed g p addr addrs \<longleftrightarrow> \<not> checker g p"
  by (auto simp: outbound_allowed_def InterceptPeerDial_def InterceptAddrDial_def InterceptSecured_def
      InterceptUpgraded_def)

lemma gater_inbound:
  "inbound_allowed g p addrs \<longleftrightarrow>
     \<not> checker g p \<and> (case stateChecker g of None \<Rightarrow> True | Some c \<Rightarrow> \<not> c p)"
  by (auto simp: inbound_allowed_def InterceptAccept_def InterceptSecured_def InterceptUpgraded_def
      split: option.splits)

text \<open>A store whose check function is given to a gater keeps banned peers out in both directions.\<close>

locale gated_store = blacklist_store banned step lifts
  for banned :: "'s \<Rightarrow> peer_id \<Rightarrow> bool" and step :: "'s \<Rightarrow> 'l \<Rightarrow> 's \<Rightarrow> bool" and lifts :: "'l \<Rightarrow> peer_id \<Rightarrow> bool"
begin

lemma kept_out:
  assumes "runs step s ls s'" and "banned s p" and "\<forall>l \<in> set ls. \<not> lifts l p"
    and "checker g = banned s'"
  shows "\<not> outbound_allowed g p addr addrs \<and> \<not> inbound_allowed g p addrs"
  using banned_runs [OF assms(1-3)] assms(4) by (simp add: gater_outbound gater_inbound)

end

interpretation gbook: gated_store "\<lambda>s. IsBlacklisted ids (fst s)" "book_step cd ids"
    "\<lambda>l. lifts_ban ids (cmd (fst l))"
  by unfold_locales

section \<open>Properties\<close>

text \<open>
  The gate over the address book. After every history of the address book that does not lift the
  ban of a peer, the gater that checks the book refuses every outbound and every inbound connection
  of that peer; a peer that is not banned may be dialled, and its inbound connection is refused
  exactly when a state checker is set and reports that the peer is being dialled.
\<close>

theorem gater_enforces_blacklist:
  assumes "runs (book_step cd ids) s ls s'"
    and "g = SetStateChecker sc (NewConnectionGater (IsBlacklisted ids (fst s')))"
  shows "(IsBlacklisted ids (fst s) p \<and> (\<forall>l \<in> set ls. \<not> lifts_ban ids (cmd (fst l)) p) \<longrightarrow>
            \<not> outbound_allowed g p addr addrs \<and> \<not> inbound_allowed g p addrs) \<and>
         (\<not> IsBlacklisted ids (fst s') p \<longrightarrow>
            outbound_allowed g p addr addrs \<and>
            inbound_allowed g p addrs = (case sc of None \<Rightarrow> True | Some c \<Rightarrow> \<not> c p))"
proof -
  have "checker g = IsBlacklisted ids (fst s')" "stateChecker g = sc"
    by (simp_all add: assms(2) SetStateChecker_def NewConnectionGater_def)
  then show ?thesis using gbook.kept_out [OF assms(1)] by (simp add: gater_outbound gater_inbound)
qed

theorem gater_enforces_blacklist_witness:
  "\<not> inbound_allowed (SetStateChecker None (NewConnectionGater (IsBlacklisted (\<lambda>p. p) toy_book))) ''p'' () \<and>
   outbound_allowed (SetStateChecker None (NewConnectionGater (IsBlacklisted (\<lambda>p. p) toy_book))) ''q'' () ()"
  using gater_enforces_blacklist [of toy_codec "\<lambda>p. p" "(toy_book, \<lparr>files = Map.empty\<rparr>)" "[]"
      "(toy_book, \<lparr>files = Map.empty\<rparr>)"
      "SetStateChecker None (NewConnectionGater (IsBlacklisted (\<lambda>p. p) toy_book))" None "''p''" "()" "()"]
    gater_enforces_blacklist [of toy_codec "\<lambda>p. p" "(toy_book, \<lparr>files = Map.empty\<rparr>)" "[]"
      "(toy_book, \<lparr>files = Map.empty\<rparr>)"
      "SetStateChecker None (NewConnectionGater (IsBlacklisted (\<lambda>p. p) toy_book))" None "''q''" "()" "()"]
  by (simp add: runs_nil IsBlacklisted_def toy_book_def toy_entry_def)

text \<open>
  Distinct stream names have distinct protocol identifiers, and none of them is the handshake's.
\<close>

theorem StreamProtocolID_inj:
  "(StreamProtocolID a = StreamProtocolID b \<longleftrightarrow> a = b) \<and> StreamProtocolID a \<noteq> HandshakeProtocolID"
  by (simp add: StreamProtocolID_def StreamProtocolPrefix_def StreamProtocolSuffix_def HandshakeProtocolID_def)

end
