(* ===== verification/Node.thy ===== *)
theory Node
  imports ConnManager StreamManager Stats Subscriptions Flow Config Validation Version Gater
begin

text \<open>
  The node (\<^verbatim>\<open>src/node.go\<close>): the components put together. Its state holds the state of every component; the connection
  manager carries the address book and the stream manager the cryptography module with its buffers. Events that a call of the connection manager
  emits go to the dispatcher, and the forwarding goroutines take them on from there. What the libp2p host returns is an input.
\<close>

section \<open>State\<close>

datatype node_err =
    NGo goerr | NConfig goerr | NCryptoModule crypto_err | NBookOpen book_err | NHostCreate string | NHostClose string
  | NBook book_err | NConn conn_err | NDerive crypto_err | NStreams sm_err | NCancelTimeout conn_err | NMarkEstablished conn_err

text \<open>What is registered with the host for a protocol.\<close>

datatype handler = HandshakeHandler | StreamHandler string

record ('ma, 'txt, 'st, 'l, 'm, 'cb) node =
  nd_config :: "('ma, 'l, 'm, 'cb) Config"
  nd_conns :: "('ma, 'txt, 'st) manager"
  nd_streams :: smgr
  nd_dispatch :: "conn_err Dispatcher"
  nd_fw :: "conn_err fwsys"
  nd_messages :: "IncomingMessage channel"
  nd_stats :: "peer_id \<rightharpoonup> PeerStatsTracker"
  nd_flow :: "string \<rightharpoonup> Controller"
  nd_handlers :: "string \<rightharpoonup> handler"
  nd_started :: bool

text \<open>The parameters: codecs, the text of an identifier, jitter, primitives and Unicode tables.\<close>

record ('ma, 'txt) nenv =
  ne_codec :: "('ma, 'txt) codec"
  ne_ids :: "peer_id \<Rightarrow> string"
  ne_jitter :: "duration \<Rightarrow> duration"
  ne_prims :: prims
  ne_tables :: unicode_tables

definition node_menv :: "('ma, 'txt) nenv \<Rightarrow> ('ma, 'txt, 'st, 'l, 'm, 'cb) node \<Rightarrow> menv" where
  "node_menv env n =
     \<lparr>e_ids = ne_ids env,
      e_cfg = \<lparr>mc_HandshakeTimeout = HandshakeTimeout (nd_config n), mc_ReconnectBaseDelay = ReconnectBaseDelay (nd_config n),
               mc_ReconnectMaxDelay = ReconnectMaxDelay (nd_config n),
               mc_ReconnectMaxAttempts = ReconnectMaxAttempts (nd_config n),
               mc_FailedHandshakeCooldown = FailedHandshakeCooldown (nd_config n)\<rparr>,
      e_jitter = ne_jitter env, e_events = True\<rparr>"

text \<open>A step of the connection manager, with the events it emitted passed to the dispatcher.\<close>

definition apply_mgr :: "('ma, 'txt, 'st) manager \<Rightarrow> ('ma, 'txt, 'st, 'l, 'm, 'cb) node \<Rightarrow> ('ma, 'txt, 'st, 'l, 'm, 'cb) node" where
  "apply_mgr m n =
     n\<lparr>nd_conns := m,
       nd_dispatch := fold disp_offer (drop (length (emitted (nd_conns n))) (emitted m)) (nd_dispatch n)\<rparr>"

definition book :: "('ma, 'txt, 'st, 'l, 'm, 'cb) node \<Rightarrow> 'ma Book" where
  "book n = fst (abook (nd_conns n))"

definition set_book :: "('ma, 'txt) book_state \<Rightarrow> ('ma, 'txt, 'st, 'l, 'm, 'cb) node \<Rightarrow> ('ma, 'txt, 'st, 'l, 'm, 'cb) node" where
  "set_book s n = n\<lparr>nd_conns := (nd_conns n)\<lparr>abook := s\<rparr>\<rparr>"

definition set_crypto :: "Module \<times> mem \<Rightarrow> ('ma, 'txt, 'st, 'l, 'm, 'cb) node \<Rightarrow> ('ma, 'txt, 'st, 'l, 'm, 'cb) node" where
  "set_crypto s n = n\<lparr>nd_streams := (nd_streams n)\<lparr>sm_module := fst s, sm_mem := snd s\<rparr>\<rparr>"

definition crypto :: "('ma, 'txt, 'st, 'l, 'm, 'cb) node \<Rightarrow> Module \<times> mem" where
  "crypto n = (sm_module (nd_streams n), sm_mem (nd_streams n))"

section \<open>Construction, start and stop\<close>

text \<open>
  \<^verbatim>\<open>New\<close>: the private key's buffer is the first of the store. The callbacks for decryption errors and dropped messages are
  set, the one for oversized messages and the size limit are not.
\<close>

definition Node_New :: "('ma, 'txt) nenv \<Rightarrow> io_faults \<Rightarrow> string option \<Rightarrow> 'txt filesys \<Rightarrow> ('ma, 'l, 'm, 'cb) Config \<Rightarrow> 'l \<Rightarrow> 'm \<Rightarrow>
    (node_err, ('ma, 'txt, 'st, 'l, 'm, 'cb) node) result" where
  "Node_New env io hostErr fs cfg0 nopL nopM =
     (case Config_Validate cfg0 of
        Some e \<Rightarrow> Inl (NConfig e)
      | None \<Rightarrow>
          let cfg = applyDefaults nopL nopM cfg0 in
          (case NewModule (ne_prims env) (map_option (\<lambda>k. 0) (PrivateKey cfg)) [case PrivateKey cfg of None \<Rightarrow> [] | Some k \<Rightarrow> k] of
             (Inl e, h) \<Rightarrow> Inl (NCryptoModule e)
           | (Inr md, h) \<Rightarrow>
               (case New (ne_codec env) io (AddressBookPath cfg) fs of
                  (Inl e, fs1) \<Rightarrow> Inl (NBookOpen e)
                | (Inr b, fs1) \<Rightarrow>
                    (case hostErr of
                       Some e \<Rightarrow> Inl (NHostCreate e)
                     | None \<Rightarrow>
                         Inr \<lparr>nd_config = cfg, nd_conns = NewManager (b, fs1),
                              nd_streams = SetMessageDroppedCallback True (SetDecryptionErrorCallback True
                                (NewStreamManager md h (make_chan (nat (MessageBufferSize cfg))))),
                              nd_dispatch = NewDispatcher (nat (EventBufferSize cfg)),
                              nd_fw = new_fwsys (nat (EventBufferSize cfg)),
                              nd_messages = make_chan (nat (MessageBufferSize cfg)), nd_stats = Map.empty, nd_flow = Map.empty,
                              nd_handlers = Map.empty, nd_started = False\<rparr>))))"

text \<open>The gater that \<^verbatim>\<open>New\<close> gives to the host: it checks the address book and, once it is wired, the connection manager.\<close>

definition node_gater :: "('ma, 'txt) nenv \<Rightarrow> ('ma, 'txt, 'st, 'l, 'm, 'cb) node \<Rightarrow> ConnectionGater" where
  "node_gater env n = SetStateChecker (Some (IsConnecting (nd_conns n))) (NewConnectionGater (IsBlacklisted (ne_ids env) (book n)))"

text \<open>\<open>ks\<close> is the order in which the address book is visited; the goroutines are those of the automatic connections.\<close>

definition autoConnectToPeers :: "string list \<Rightarrow> ('ma, 'txt, 'st, 'l, 'm, 'cb) node \<Rightarrow> goroutine list" where
  "autoConnectToPeers ks n = concat (map (\<lambda>entry. AutoConnect (PeerID entry) (nd_conns n)) (ListPeers ks (book n)))"

definition Node_Start :: "string list \<Rightarrow> ('ma, 'txt, 'st, 'l, 'm, 'cb) node \<Rightarrow>
    node_err option \<times> goroutine list \<times> ('ma, 'txt, 'st, 'l, 'm, 'cb) node" where
  "Node_Start ks n =
     (if nd_started n then (Some (NGo (Sentinel ErrNodeAlreadyStarted)), [], n)
      else
        (None, autoConnectToPeers ks n,
         n\<lparr>nd_handlers := (nd_handlers n)(StreamProtocolID HandshakeStreamName \<mapsto> HandshakeHandler), nd_started := True\<rparr>))"

text \<open>The orders in which the maps are visited when everything is closed, and the errors of closing raw streams.\<close>

record close_order =
  co_enc :: "nat \<Rightarrow> stream_err option"
  co_unc :: "nat \<Rightarrow> stream_err option"
  co_rs :: "nat list"
  co_us :: "nat list"

definition Node_Stop :: "close_order \<Rightarrow> nat list \<Rightarrow> nat list \<Rightarrow> nat list \<Rightarrow> nat list \<Rightarrow> string option \<Rightarrow>
    ('ma, 'txt, 'st, 'l, 'm, 'cb) node \<Rightarrow> node_err option \<times> ('ma, 'txt, 'st, 'l, 'm, 'cb) node" where
  "Node_Stop co conns recs keys peerkeys hostErr n =
     (if \<not> nd_started n then (Some (NGo (Sentinel ErrNodeNotStarted)), n)
      else
        let n1 = n\<lparr>nd_fw := (nd_fw n)\<lparr>fw_ctx := True\<rparr>,
                   nd_conns := Shutdown conns recs (nd_conns n),
                   nd_streams := sm_Shutdown (co_enc co) (co_rs co) (co_us co) keys (nd_streams n),
                   nd_dispatch := (case Dispatcher_Close (nd_dispatch n) of None \<Rightarrow> nd_dispatch n | Some d \<Rightarrow> d)\<rparr>
        in case hostErr of
             Some e \<Rightarrow> (Some (NHostClose e), n1)
           | None \<Rightarrow> (None, (set_crypto (Module_Close peerkeys (crypto n1)) n1)\<lparr>nd_started := False\<rparr>))"

section \<open>Peers\<close>

definition Node_AddPeer :: "('ma, 'txt) nenv \<Rightarrow> io_faults \<Rightarrow> time_ns \<Rightarrow> peer_id \<Rightarrow> 'ma list \<Rightarrow> (string \<times> string) list option \<Rightarrow>
    ('ma, 'txt, 'st, 'l, 'm, 'cb) node \<Rightarrow> node_err option \<times> goroutine list \<times> ('ma, 'txt, 'st, 'l, 'm, 'cb) node" where
  "Node_AddPeer env io now p addrs metadata n =
     (case ValidateMetadataSize metadata (MaxMetadataSize (nd_config n)) of
        Some e \<Rightarrow> (Some (NGo e), [], n)
      | None \<Rightarrow>
          (case AddPeer (ne_codec env) (ne_ids env) io now p addrs (map_option map_of metadata) (abook (nd_conns n)) of
             (Some e, s) \<Rightarrow> (Some (NBook e), [], set_book s n)
           | (None, s) \<Rightarrow>
               let n1 = set_book s n
               in (None, if nd_started n1 then AutoConnect p (nd_conns n1) else [], n1)))"

definition Node_RemovePeer :: "('ma, 'txt) nenv \<Rightarrow> io_faults \<Rightarrow> peer_id \<Rightarrow> ('ma, 'txt, 'st, 'l, 'm, 'cb) node \<Rightarrow>
    node_err option \<times> ('ma, 'txt, 'st, 'l, 'm, 'cb) node" where
  "Node_RemovePeer env io p n =
     (case RemovePeer (ne_codec env) (ne_ids env) io p (abook (nd_conns n)) of (e, s) \<Rightarrow> (map_option NBook e, set_book s n))"

definition Node_BlacklistPeer :: "('ma, 'txt) nenv \<Rightarrow> io_faults \<Rightarrow> time_ns \<Rightarrow> peer_id \<Rightarrow> ('ma, 'txt, 'st, 'l, 'm, 'cb) node \<Rightarrow>
    node_err option \<times> ('ma, 'txt, 'st, 'l, 'm, 'cb) node" where
  "Node_BlacklistPeer env io now p n =
     (case BlacklistPeer (ne_codec env) (ne_ids env) io now p (abook (nd_conns n)) of
        (Some e, s) \<Rightarrow> (Some (NBook e), set_book s n)
      | (None, s) \<Rightarrow>
          let n1 = set_book s n
          in (None,
              if IsActive (mgr_GetState (nd_conns n1) p)
              then apply_mgr (snd (DisconnectCtx (node_menv env n1) Background now p (nd_conns n1))) n1
              else n1))"

definition Node_UnblacklistPeer :: "('ma, 'txt) nenv \<Rightarrow> io_faults \<Rightarrow> time_ns \<Rightarrow> peer_id \<Rightarrow> ('ma, 'txt, 'st, 'l, 'm, 'cb) node \<Rightarrow>
    node_err option \<times> ('ma, 'txt, 'st, 'l, 'm, 'cb) node" where
  "Node_UnblacklistPeer env io now p n =
     (case UnblacklistPeer (ne_codec env) (ne_ids env) io now p (abook (nd_conns n)) of (e, s) \<Rightarrow> (map_option NBook e, set_book s n))"

section \<open>Connections\<close>

definition Node_ConnectCtx :: "('ma, 'txt) nenv \<Rightarrow> ctx \<Rightarrow> time_ns \<Rightarrow> time_ns \<Rightarrow> string option \<Rightarrow> peer_id \<Rightarrow>
    ('ma, 'txt, 'st, 'l, 'm, 'cb) node \<Rightarrow> node_err option \<times> goroutine list \<times> ('ma, 'txt, 'st, 'l, 'm, 'cb) node" where
  "Node_ConnectCtx env c t0 t1 hostErr p n =
     (if \<not> nd_started n then (Some (NGo (Sentinel ErrNodeNotStarted)), [], n)
      else case ConnectCtx (node_menv env n) c t0 t1 hostErr p (nd_conns n) of
        (e, gs, m) \<Rightarrow> (map_option NConn e, gs, apply_mgr m n))"

definition cleanupPeerResources :: "('ma, 'txt) nenv \<Rightarrow> close_order \<Rightarrow> peer_id \<Rightarrow> ('ma, 'txt, 'st, 'l, 'm, 'cb) node \<Rightarrow>
    ('ma, 'txt, 'st, 'l, 'm, 'cb) node" where
  "cleanupPeerResources env co p n =
     (let n1 = n\<lparr>nd_streams := snd (CloseStreams (co_enc co) (co_unc co) (co_rs co) (co_us co) p (nd_streams n))\<rparr>
      in case GetPeer (ne_ids env) p (book n1) of
           Inl e \<Rightarrow> n1
         | Inr entry \<Rightarrow> set_crypto (RemovePeerKeyByEd25519 (ne_prims env) (PublicKey entry) (crypto n1)) n1)"

definition Node_DisconnectCtx :: "('ma, 'txt) nenv \<Rightarrow> close_order \<Rightarrow> ctx \<Rightarrow> time_ns \<Rightarrow> peer_id \<Rightarrow> ('ma, 'txt, 'st, 'l, 'm, 'cb) node \<Rightarrow>
    node_err option \<times> ('ma, 'txt, 'st, 'l, 'm, 'cb) node" where
  "Node_DisconnectCtx env co c now p n =
     (let n1 = cleanupPeerResources env co p n
      in case DisconnectCtx (node_menv env n1) c now p (nd_conns n1) of (e, m) \<Rightarrow> (map_option NConn e, apply_mgr m n1))"

section \<open>The handshake\<close>

fun register_handlers :: "string list \<Rightarrow> (string \<rightharpoonup> handler) \<Rightarrow> (string \<rightharpoonup> handler)" where
  "register_handlers [] hs = hs"
| "register_handlers (name # names) hs = register_handlers names (hs(StreamProtocolID name \<mapsto> StreamHandler name))"

text \<open>
  The steps that \<^verbatim>\<open>PrepareStreams\<close> and \<^verbatim>\<open>EstablishEncryptedStreams\<close> share: derive the key, store it with the connection, register the handlers,
  establish the streams, remember the public key.
\<close>

definition install_streams :: "('ma, 'txt) nenv \<Rightarrow> io_faults \<Rightarrow> time_ns \<Rightarrow> peer_id \<Rightarrow> bytes option \<Rightarrow> string list \<Rightarrow>
    ('ma, 'txt, 'st, 'l, 'm, 'cb) node \<Rightarrow> node_err option \<times> ('ma, 'txt, 'st, 'l, 'm, 'cb) node" where
  "install_streams env io now p pub names n =
     (case Module_DeriveSharedKey (ne_prims env) pub (crypto n) of
        (Inl e, s) \<Rightarrow> (Some (NDerive e), set_crypto s n)
      | (Inr ka, s) \<Rightarrow>
          let n1 = set_crypto s n;
              n2 = n1\<lparr>nd_conns := mgr_SetSharedKey now p (snd s ! ka) (nd_conns n1),
                      nd_handlers := register_handlers names (nd_handlers n1)\<rparr>
          in (case EstablishStreams (ne_prims env) p pub names (nd_streams n2) of
                (Some e, sm) \<Rightarrow> (Some (NStreams e), n2\<lparr>nd_streams := sm\<rparr>)
              | (None, sm) \<Rightarrow>
                  (None, set_book (snd (UpdatePublicKey (ne_codec env) (ne_ids env) io now p (the pub) (abook (nd_conns n2))))
                           (n2\<lparr>nd_streams := sm\<rparr>))))"

definition PrepareStreams :: "('ma, 'txt) nenv \<Rightarrow> io_faults \<Rightarrow> time_ns \<Rightarrow> peer_id \<Rightarrow> bytes option \<Rightarrow> string list \<Rightarrow>
    ('ma, 'txt, 'st, 'l, 'm, 'cb) node \<Rightarrow> node_err option \<times> ('ma, 'txt, 'st, 'l, 'm, 'cb) node" where
  "PrepareStreams env io now p pub names n =
     (if \<not> nd_started n then (Some (NGo (Sentinel ErrNodeNotStarted)), n)
      else case ValidateStreamNames (ne_tables env) names (MaxStreamNameLength (nd_config n)) of
        Some e \<Rightarrow> (Some (NGo e), n)
      | None \<Rightarrow> install_streams env io now p pub names n)"

definition FinalizeHandshake :: "('ma, 'txt) nenv \<Rightarrow> (nat \<Rightarrow> stream_err option) \<Rightarrow> time_ns \<Rightarrow> peer_id \<Rightarrow> ('ma, 'txt, 'st, 'l, 'm, 'cb) node \<Rightarrow>
    node_err option \<times> ('ma, 'txt, 'st, 'l, 'm, 'cb) node" where
  "FinalizeHandshake env ce now p n =
     (if \<not> nd_started n then (Some (NGo (Sentinel ErrNodeNotStarted)), n)
      else case mgr_CancelHandshakeTimeout p (nd_conns n) of
        (Some e, m) \<Rightarrow> (Some (NCancelTimeout e), n\<lparr>nd_conns := m\<rparr>)
      | (None, m) \<Rightarrow>
          let n1 = n\<lparr>nd_conns := m, nd_streams := snd (CloseHandshakeStream ce p (nd_streams n))\<rparr>
          in (case MarkEstablished (node_menv env n1) now p (nd_conns n1) of
                (e, m1) \<Rightarrow> (map_option NMarkEstablished e, apply_mgr m1 n1)))"

definition CompleteHandshake :: "('ma, 'txt) nenv \<Rightarrow> io_faults \<Rightarrow> (nat \<Rightarrow> stream_err option) \<Rightarrow> time_ns \<Rightarrow> peer_id \<Rightarrow> bytes option \<Rightarrow>
    string list \<Rightarrow> ('ma, 'txt, 'st, 'l, 'm, 'cb) node \<Rightarrow> node_err option \<times> ('ma, 'txt, 'st, 'l, 'm, 'cb) node" where
  "CompleteHandshake env io ce now p pub names n =
     (case PrepareStreams env io now p pub names n of
        (Some e, n1) \<Rightarrow> (Some e, n1)
      | (None, n1) \<Rightarrow> FinalizeHandshake env ce now p n1)"

definition EstablishEncryptedStreams :: "('ma, 'txt) nenv \<Rightarrow> io_faults \<Rightarrow> time_ns \<Rightarrow> peer_id \<Rightarrow> bytes option \<Rightarrow> string list \<Rightarrow>
    ('ma, 'txt, 'st, 'l, 'm, 'cb) node \<Rightarrow> node_err option \<times> ('ma, 'txt, 'st, 'l, 'm, 'cb) node" where
  "EstablishEncryptedStreams env io now p pub names n =
     (if \<not> nd_started n then (Some (NGo (Sentinel ErrNodeNotStarted)), n)
      else case ValidateStreamNames (ne_tables env) names (MaxStreamNameLength (nd_config n)) of
        Some e \<Rightarrow> (Some (NGo e), n)
      | None \<Rightarrow>
          let n1 = (if mgr_GetState (nd_conns n) p = StateDisconnected
                    then apply_mgr (RegisterIncomingConnection (node_menv env n) now p (nd_conns n)) n else n)
          in install_streams env io now p pub names n1)"

text \<open>A stream that the host accepted for a protocol; \<open>False\<close> when the handler resets it.\<close>

definition incoming :: "('ma, 'txt) nenv \<Rightarrow> time_ns \<Rightarrow> string \<Rightarrow> peer_id \<Rightarrow> raw_stream \<Rightarrow> ('ma, 'txt, 'st, 'l, 'm, 'cb) node \<Rightarrow>
    bool \<times> ('ma, 'txt, 'st, 'l, 'm, 'cb) node" where
  "incoming env now proto p raw n =
     (case nd_handlers n proto of
        None \<Rightarrow> (False, n)
      | Some HandshakeHandler \<Rightarrow>
          let n1 = apply_mgr (RegisterIncomingConnection (node_menv env n) now p (nd_conns n)) n
          in (case HandleIncomingHandshakeStream p raw (nd_streams n1) of (e, sm) \<Rightarrow> (e = None, n1\<lparr>nd_streams := sm\<rparr>))
      | Some (StreamHandler name) \<Rightarrow>
          (case HandleIncomingStream p name raw (nd_streams n) of (e, sm) \<Rightarrow> (e = None, n\<lparr>nd_streams := sm\<rparr>)))"

section \<open>Statistics\<close>

definition getOrCreatePeerStats :: "peer_id \<Rightarrow> ('ma, 'txt, 'st, 'l, 'm, 'cb) node \<Rightarrow> PeerStatsTracker" where
  "getOrCreatePeerStats p n = (case nd_stats n p of None \<Rightarrow> NewPeerStatsTracker p True | Some t \<Rightarrow> t)"

definition record_sent :: "time_ns \<Rightarrow> peer_id \<Rightarrow> string \<Rightarrow> int \<Rightarrow> ('ma, 'txt, 'st, 'l, 'm, 'cb) node \<Rightarrow> ('ma, 'txt, 'st, 'l, 'm, 'cb) node" where
  "record_sent now p name sz n =
     n\<lparr>nd_stats := (nd_stats n)(p \<mapsto> fst (RecordMessageSent now name sz (getOrCreatePeerStats p n)))\<rparr>"

definition record_received :: "time_ns \<Rightarrow> IncomingMessage \<Rightarrow> ('ma, 'txt, 'st, 'l, 'm, 'cb) node \<Rightarrow> ('ma, 'txt, 'st, 'l, 'm, 'cb) node" where
  "record_received now msg n =
     n\<lparr>nd_stats := (nd_stats n)(im_PeerID msg \<mapsto>
         RecordMessageReceived now (im_StreamName msg) (int (length (im_Data msg))) (getOrCreatePeerStats (im_PeerID msg) n))\<rparr>"

definition conn_established :: "('ma, 'txt, 'st) manager \<Rightarrow> peer_id \<Rightarrow> bool" where
  "conn_established m p = (case connections m p of None \<Rightarrow> False | Some r \<Rightarrow> State (objs m r) = StateEstablished)"

definition conn_outbound :: "('ma, 'txt, 'st) manager \<Rightarrow> peer_id \<Rightarrow> bool" where
  "conn_outbound m p = (case connections m p of None \<Rightarrow> False | Some r \<Rightarrow> IsOutbound (objs m r))"

definition PeerStatistics :: "time_ns \<Rightarrow> peer_id \<Rightarrow> ('ma, 'txt, 'st, 'l, 'm, 'cb) node \<Rightarrow> PeerStats option" where
  "PeerStatistics now p n =
     (case nd_stats n p of
        None \<Rightarrow> None
      | Some t \<Rightarrow> Some (Snapshot now p (conn_established (nd_conns n) p) (conn_outbound (nd_conns n) p) t))"

definition AllPeerStatistics :: "time_ns \<Rightarrow> ('ma, 'txt, 'st, 'l, 'm, 'cb) node \<Rightarrow> peer_id \<rightharpoonup> PeerStats" where
  "AllPeerStatistics now n =
     (\<lambda>p. map_option (Snapshot now p (conn_established (nd_conns n) p) (conn_outbound (nd_conns n) p)) (nd_stats n p))"

definition MessagesSent :: "peer_id \<Rightarrow> ('ma, 'txt, 'st, 'l, 'm, 'cb) node \<Rightarrow> nat" where
  "MessagesSent p n = (case nd_stats n p of None \<Rightarrow> 0 | Some t \<Rightarrow> if messagesSent t < 0 then 0 else nat (messagesSent t))"

definition staleThreshold :: duration where
  "staleThreshold = 24 * 3600 * second"

text \<open>One tick of the goroutine that removes stale statistics.\<close>

definition cleanupStalePeerStats :: "time_ns \<Rightarrow> ('ma, 'txt, 'st, 'l, 'm, 'cb) node \<Rightarrow> ('ma, 'txt, 'st, 'l, 'm, 'cb) node" where
  "cleanupStalePeerStats now n =
     n\<lparr>nd_stats := (\<lambda>p. case nd_stats n p of
         None \<Rightarrow> None
       | Some t \<Rightarrow>
           if conn_established (nd_conns n) p then Some t
           else if now - LastActivity now t > staleThreshold then None else Some t)\<rparr>"

section \<open>Sending\<close>

definition getOrCreateFlowController :: "string \<Rightarrow> ('ma, 'txt, 'st, 'l, 'm, 'cb) node \<Rightarrow> Controller" where
  "getOrCreateFlowController name n =
     (case nd_flow n name of
        Some fc \<Rightarrow> fc
      | None \<Rightarrow> SetBlockedCallback True (NewController (HighWatermark (nd_config n)) (LowWatermark (nd_config n))))"

text \<open>
  The loop of \<^verbatim>\<open>Acquire\<close>. While the caller waits, other goroutines change the controller: each element of the list is one wait, \<open>None\<close>
  when the context is done first, otherwise the controller as the caller finds it when it is woken. The result is \<open>None\<close> when the
  caller still waits at the end of the list.
\<close>

fun acquire_loop :: "ctx_err \<Rightarrow> Controller option list \<Rightarrow> Controller \<Rightarrow> (ctx_err option \<times> Controller) option" where
  "acquire_loop e ws fc =
     (case Controller_Acquire fc of
        (AcquireCanceled, fc1) \<Rightarrow> Some (Some Canceled, fc1)
      | (AcquireGranted cb, fc1) \<Rightarrow> Some (None, fc1)
      | (AcquireWait ch, fc1) \<Rightarrow>
          (case ws of
             [] \<Rightarrow> None
           | None # ws' \<Rightarrow> Some (Some e, fc1)
           | Some fc2 # ws' \<Rightarrow> acquire_loop e ws' fc2))"

text \<open>What a send meets: the context, the waits, the nonce, the new stream of the host and how the write ends.\<close>

record send_in =
  si_ctx :: ctx
  si_waits :: "Controller option list"
  si_nonce :: "bytes option"
  si_new :: "(string, raw_stream) result"
  si_write :: write_result
  si_now :: time_ns

definition stream_send :: "('ma, 'txt) nenv \<Rightarrow> send_in \<Rightarrow> peer_id \<Rightarrow> string \<Rightarrow> bytes \<Rightarrow> ('ma, 'txt, 'st, 'l, 'm, 'cb) node \<Rightarrow>
    node_err option \<times> ('ma, 'txt, 'st, 'l, 'm, 'cb) node" where
  "stream_send env i p name data n =
     (case sm_SendCtx (ne_prims env) (si_nonce i) (si_write i) (si_new i) (si_ctx i) p name data (nd_streams n) of
        (Some e, sm) \<Rightarrow> (Some (NStreams e), n\<lparr>nd_streams := sm\<rparr>)
      | (None, sm) \<Rightarrow> (None, record_sent (si_now i) p name (int (length data)) (n\<lparr>nd_streams := sm\<rparr>)))"

text \<open>The result is \<open>None\<close> when the call is still blocked, or when the deferred release panics.\<close>

definition Node_SendCtx :: "('ma, 'txt) nenv \<Rightarrow> send_in \<Rightarrow> peer_id \<Rightarrow> string \<Rightarrow> bytes \<Rightarrow> ('ma, 'txt, 'st, 'l, 'm, 'cb) node \<Rightarrow>
    (node_err option \<times> ('ma, 'txt, 'st, 'l, 'm, 'cb) node) option" where
  "Node_SendCtx env i p name data n =
     (if \<not> nd_started n then Some (Some (NGo (Sentinel ErrNodeNotStarted)), n)
      else case ValidateStreamName (ne_tables env) name (MaxStreamNameLength (nd_config n)) of
        Some e \<Rightarrow> Some (Some (NGo e), n)
      | None \<Rightarrow>
          if Config.MaxMessageSize (nd_config n) > 0 \<and> int (length data) > Config.MaxMessageSize (nd_config n)
          then Some (Some (NGo (RichError ErrCodeMessageTooLarge
                 (''message size '' @ show_decimal (length data) @ '' exceeds maximum '' @ show_decimal (nat (Config.MaxMessageSize (nd_config n))))
                 p name None False '''')), n)
          else if DisableBackpressure (nd_config n) then Some (stream_send env i p name data n)
          else
            (case acquire_loop (ctxErr (si_ctx i)) (si_waits i) (getOrCreateFlowController name n) of
               None \<Rightarrow> None
             | Some (Some e, fc) \<Rightarrow>
                 Some (Some (NGo (RichError ErrCodeBackpressure ''send blocked by backpressure'' p name (Some (CtxErr e)) True '''')),
                       n\<lparr>nd_flow := (nd_flow n)(name \<mapsto> fc)\<rparr>)
             | Some (None, fc) \<Rightarrow>
                 (case stream_send env i p name data (n\<lparr>nd_flow := (nd_flow n)(name \<mapsto> fc)\<rparr>) of
                    (r, n1) \<Rightarrow>
                      map_option (\<lambda>fc1. (r, n1\<lparr>nd_flow := (nd_flow n1)(name \<mapsto> fc1)\<rparr>))
                        (Controller_Release (getOrCreateFlowController name n1)))))"

section \<open>The forwarding goroutines\<close>

text \<open>
  One round of \<^verbatim>\<open>forwardMessagesWithStats\<close>; \<open>pick\<close> says that the select takes the case of the node's context, which it can when the
  context is cancelled. The flag of the result says whether the goroutine goes on; \<open>None\<close> is a panic.
\<close>

definition forwardMessage :: "bool \<Rightarrow> time_ns \<Rightarrow> ('ma, 'txt, 'st, 'l, 'm, 'cb) node \<Rightarrow>
    (bool \<times> ('ma, 'txt, 'st, 'l, 'm, 'cb) node) option" where
  "forwardMessage pick now n =
     (if pick \<and> fw_ctx (nd_fw n) then map_option (\<lambda>ch'. (False, n\<lparr>nd_messages := ch'\<rparr>)) (chan_close (nd_messages n))
      else case chan_recv (sm_incoming (nd_streams n)) of
        (Received msg, ch) \<Rightarrow>
          let n1 = record_received now msg (n\<lparr>nd_streams := (nd_streams n)\<lparr>sm_incoming := ch\<rparr>\<rparr>)
          in (case chan_try_send msg (nd_messages n1) of
                None \<Rightarrow> None
              | Some (_, ch') \<Rightarrow> Some (True, n1\<lparr>nd_messages := ch'\<rparr>))
      | (RecvClosed, ch) \<Rightarrow> map_option (\<lambda>ch'. (False, n\<lparr>nd_messages := ch'\<rparr>)) (chan_close (nd_messages n))
      | (RecvBlocks, ch) \<Rightarrow> Some (True, n))"

text \<open>One round of \<^verbatim>\<open>forwardEvents\<close>, with its deferred function when it returns.\<close>

definition forwardEvent :: "('ma, 'txt) nenv \<Rightarrow> close_order \<Rightarrow> bool \<Rightarrow> ('ma, 'txt, 'st, 'l, 'm, 'cb) node \<Rightarrow>
    (bool \<times> ('ma, 'txt, 'st, 'l, 'm, 'cb) node) option" where
  "forwardEvent env co pick n =
     (if pick \<and> fw_ctx (nd_fw n) then map_option (\<lambda>fw. (False, n\<lparr>nd_fw := fw\<rparr>)) (forward_end (nd_fw n))
      else case Events_recv (nd_dispatch n) of
        (Received evt, d) \<Rightarrow>
          let n1 = n\<lparr>nd_dispatch := d\<rparr>;
              n2 = (if public_state (ce_State evt) = PubDisconnected then cleanupPeerResources env co (ce_PeerID evt) n1 else n1)
          in map_option (\<lambda>fw. (True, n2\<lparr>nd_fw := fw\<rparr>)) (forward_event (to_PublicEvent evt) (nd_fw n2))
      | (RecvClosed, d) \<Rightarrow> map_option (\<lambda>fw. (False, n\<lparr>nd_fw := fw\<rparr>)) (forward_end (nd_fw n))
      | (RecvBlocks, d) \<Rightarrow> Some (True, n))"

section \<open>Queries\<close>

definition Node_ConnectionState :: "peer_id \<Rightarrow> ('ma, 'txt, 'st, 'l, 'm, 'cb) node \<Rightarrow> PublicState" where
  "Node_ConnectionState p n = public_state (mgr_GetState (nd_conns n) p)"

definition Node_IsOutbound :: "peer_id \<Rightarrow> ('ma, 'txt, 'st, 'l, 'm, 'cb) node \<Rightarrow> (conn_err, bool) result" where
  "Node_IsOutbound p n = mgr_IsOutbound (nd_conns n) p"

definition Node_CancelReconnection :: "time_ns \<Rightarrow> peer_id \<Rightarrow> ('ma, 'txt, 'st, 'l, 'm, 'cb) node \<Rightarrow>
    node_err option \<times> ('ma, 'txt, 'st, 'l, 'm, 'cb) node" where
  "Node_CancelReconnection now p n =
     (case CancelReconnection now p (nd_conns n) of (e, m) \<Rightarrow> (map_option NConn e, apply_mgr m n))"

definition Node_PublicKey :: "('ma, 'txt, 'st, 'l, 'm, 'cb) node \<Rightarrow> bytes" where
  "Node_PublicKey n = ed25519Public (sm_module (nd_streams n))"

text \<open>The variants without a context, and the calls that only pass on to a component.\<close>

definition Node_Connect :: "('ma, 'txt) nenv \<Rightarrow> time_ns \<Rightarrow> time_ns \<Rightarrow> string option \<Rightarrow> peer_id \<Rightarrow>
    ('ma, 'txt, 'st, 'l, 'm, 'cb) node \<Rightarrow> node_err option \<times> goroutine list \<times> ('ma, 'txt, 'st, 'l, 'm, 'cb) node" where
  "Node_Connect env = Node_ConnectCtx env Background"

definition Node_Disconnect :: "('ma, 'txt) nenv \<Rightarrow> close_order \<Rightarrow> time_ns \<Rightarrow> peer_id \<Rightarrow> ('ma, 'txt, 'st, 'l, 'm, 'cb) node \<Rightarrow>
    node_err option \<times> ('ma, 'txt, 'st, 'l, 'm, 'cb) node" where
  "Node_Disconnect env co = Node_DisconnectCtx env co Background"

definition Node_Send :: "('ma, 'txt) nenv \<Rightarrow> send_in \<Rightarrow> peer_id \<Rightarrow> string \<Rightarrow> bytes \<Rightarrow> ('ma, 'txt, 'st, 'l, 'm, 'cb) node \<Rightarrow>
    (node_err option \<times> ('ma, 'txt, 'st, 'l, 'm, 'cb) node) option" where
  "Node_Send env i = Node_SendCtx env (i\<lparr>si_ctx := Background\<rparr>)"

definition Node_GetPeer :: "('ma, 'txt) nenv \<Rightarrow> peer_id \<Rightarrow> ('ma, 'txt, 'st, 'l, 'm, 'cb) node \<Rightarrow> (book_err, 'ma PeerEntry) result" where
  "Node_GetPeer env p n = GetPeer (ne_ids env) p (book n)"

definition Node_ListPeers :: "string list \<Rightarrow> ('ma, 'txt, 'st, 'l, 'm, 'cb) node \<Rightarrow> 'ma PeerEntry list" where
  "Node_ListPeers ks n = ListPeers ks (book n)"

end
