(* ===== verification/NodeMessaging.thy ===== *)
theory NodeMessaging
  imports Node
begin

text \<open>
  Messages between two nodes: what \<^verbatim>\<open>New\<close> and \<^verbatim>\<open>Start\<close> make, what \<^verbatim>\<open>PrepareStreams\<close> installs, and how a message
  goes from \<^verbatim>\<open>Send\<close> on one node to the channel of \<^verbatim>\<open>Messages\<close> on the other; the guards and the flow control of a send.
\<close>

section \<open>A node that has been made and started\<close>

definition started_node :: "('ma, 'txt) nenv \<Rightarrow> bytes \<Rightarrow> ('ma, 'txt, 'st, 'l, 'm, 'cb) node \<Rightarrow> bool" where
  "started_node env sk n \<longleftrightarrow>
     (\<exists>io fs cfg l m ks gs n0. PrivateKey cfg = Some sk \<and> Node_New env io None fs cfg l m = Inr n0 \<and>
        Node_Start ks n0 = (None, gs, n))"

lemma set_crypto_fields [simp]:
  "nd_config (set_crypto s n) = nd_config n" "nd_conns (set_crypto s n) = nd_conns n" "nd_dispatch (set_crypto s n) = nd_dispatch n"
  "nd_fw (set_crypto s n) = nd_fw n" "nd_messages (set_crypto s n) = nd_messages n" "nd_stats (set_crypto s n) = nd_stats n"
  "nd_flow (set_crypto s n) = nd_flow n" "nd_handlers (set_crypto s n) = nd_handlers n" "nd_started (set_crypto s n) = nd_started n"
  "nd_streams (set_crypto s n) = (nd_streams n)\<lparr>sm_module := fst s, sm_mem := snd s\<rparr>"
  by (simp_all add: set_crypto_def)

lemma set_book_fields [simp]:
  "nd_config (set_book b n) = nd_config n" "nd_streams (set_book b n) = nd_streams n" "nd_dispatch (set_book b n) = nd_dispatch n"
  "nd_fw (set_book b n) = nd_fw n" "nd_messages (set_book b n) = nd_messages n" "nd_stats (set_book b n) = nd_stats n"
  "nd_flow (set_book b n) = nd_flow n" "nd_handlers (set_book b n) = nd_handlers n" "nd_started (set_book b n) = nd_started n"
  "connections (nd_conns (set_book b n)) = connections (nd_conns n)" "objs (nd_conns (set_book b n)) = objs (nd_conns n)"
  "timers (nd_conns (set_book b n)) = timers (nd_conns n)" "emitted (nd_conns (set_book b n)) = emitted (nd_conns n)"
  by (simp_all add: set_book_def)

text \<open>The module is new, there are no streams, and both message channels have room.\<close>

lemma started_node_fields:
  assumes "started_node env sk n"
  shows "\<exists>md h. NewModule (ne_prims env) (Some 0) [sk] = (Inr md, h) \<and> crypto n = (md, h)"
    "sm_keys (nd_streams n) = Map.empty" "sm_streams (nd_streams n) = Map.empty" "sm_allowed (nd_streams n) = Map.empty"
    "\<not> sm_cancelled (nd_streams n)" "nencs (nd_streams n) = 0" "EncryptedStreamConfig.MaxMessageSize (sm_config (nd_streams n)) = 0"
    "\<exists>b > 0. sm_incoming (nd_streams n) = make_chan b \<and> nd_messages n = make_chan b"
    "nd_started n" "\<not> fw_ctx (nd_fw n)" "nd_flow n = Map.empty" "nd_stats n = Map.empty"
proof -
  obtain io fs cfg l m ks gs n0 where x: "PrivateKey cfg = Some sk" "Node_New env io None fs cfg l m = Inr n0"
      "Node_Start ks n0 = (None, gs, n)" using assms by (auto simp: started_node_def)
  have ok: "config_ok cfg" using x(2) by (auto simp: Node_New_def Config_Validate_None [symmetric] split: option.splits)
  then have buf: "0 < nat (MessageBufferSize (applyDefaults l m cfg))" by (simp add: config_ok_def default_int_pos)
  obtain md h where md: "NewModule (ne_prims env) (Some 0) [sk] = (Inr md, h)"
    using x(1,2) by (auto simp: Node_New_def Let_def split: option.splits prod.splits sum.splits)
  obtain b fs1 where n0: "n0 = \<lparr>nd_config = applyDefaults l m cfg, nd_conns = NewManager (b, fs1),
      nd_streams = SetMessageDroppedCallback True (SetDecryptionErrorCallback True
        (NewStreamManager md h (make_chan (nat (MessageBufferSize (applyDefaults l m cfg)))))),
      nd_dispatch = NewDispatcher (nat (EventBufferSize (applyDefaults l m cfg))),
      nd_fw = new_fwsys (nat (EventBufferSize (applyDefaults l m cfg))),
      nd_messages = make_chan (nat (MessageBufferSize (applyDefaults l m cfg))), nd_stats = Map.empty, nd_flow = Map.empty,
      nd_handlers = Map.empty, nd_started = False\<rparr>"
    using x(1,2) md by (simp add: Node_New_def Let_def split: option.splits prod.splits sum.splits) blast
  have n: "nd_streams n = nd_streams n0" "nd_messages n = nd_messages n0" "nd_started n" "nd_fw n = nd_fw n0"
    "nd_flow n = nd_flow n0" "nd_stats n = nd_stats n0"
    using x(3) by (auto simp: Node_Start_def split: if_splits)
  show "\<exists>md h. NewModule (ne_prims env) (Some 0) [sk] = (Inr md, h) \<and> crypto n = (md, h)"
    using md by (simp add: crypto_def n n0 SetMessageDroppedCallback_def SetDecryptionErrorCallback_def NewStreamManager_def)
  show "\<exists>b > 0. sm_incoming (nd_streams n) = make_chan b \<and> nd_messages n = make_chan b"
    using buf by (intro exI [of _ "nat (MessageBufferSize (applyDefaults l m cfg))"])
      (simp add: n n0 SetMessageDroppedCallback_def SetDecryptionErrorCallback_def NewStreamManager_def)
  show "sm_keys (nd_streams n) = Map.empty" "sm_streams (nd_streams n) = Map.empty" "sm_allowed (nd_streams n) = Map.empty"
    "\<not> sm_cancelled (nd_streams n)" "nencs (nd_streams n) = 0" "EncryptedStreamConfig.MaxMessageSize (sm_config (nd_streams n)) = 0"
    "nd_started n" "\<not> fw_ctx (nd_fw n)" "nd_flow n = Map.empty" "nd_stats n = Map.empty"
    using n(3) by (simp_all add: n n0 SetMessageDroppedCallback_def SetDecryptionErrorCallback_def NewStreamManager_def new_fwsys_def)
qed

section \<open>What PrepareStreams installs\<close>

lemma StreamProtocolID_eq [simp]: "StreamProtocolID a = StreamProtocolID b \<longleftrightarrow> a = b"
  by (simp add: StreamProtocolID_def)

lemma register_handlers_other: "\<forall>name \<in> set names. proto \<noteq> StreamProtocolID name \<Longrightarrow> register_handlers names hs proto = hs proto"
  by (induction names arbitrary: hs) simp_all

lemma register_handlers_named: "name \<in> set names \<Longrightarrow> register_handlers names hs (StreamProtocolID name) = Some (StreamHandler name)"
proof (induction names arbitrary: hs)
  case (Cons a names)
  show ?case
  proof (cases "name \<in> set names")
    case False
    then have "\<forall>x \<in> set names. StreamProtocolID name \<noteq> StreamProtocolID x" by auto
    then show ?thesis using Cons.prems False by (simp add: register_handlers_other)
  qed (simp add: Cons.IH)
qed simp

text \<open>A second derivation finds the key of the first in the cache and returns another copy.\<close>

definition module_ready :: "Module \<times> mem \<Rightarrow> bool" where
  "module_ready s \<longleftrightarrow> \<not> m_closed (fst s) \<and> length (snd s ! x25519Private (fst s)) = X25519KeySize \<and>
     (\<forall>rx ka. peerKeys (fst s) rx = Some ka \<longrightarrow> ka < length (snd s))"

lemma Module_derive_ok:
  assumes "Module_DeriveSharedKey pr pub s = (Inr ka, s')"
  shows "\<exists>u. (\<forall>s. Module_DeriveSharedKey pr pub s = DeriveSharedKeyFromX25519 pr u s) \<and> length u = X25519KeySize \<and> \<not> m_closed (fst s) \<and>
     Ed25519PublicToX25519 pr (the pub) = Inr u"
proof -
  obtain u where u: "\<forall>s. Module_DeriveSharedKey pr pub s = DeriveSharedKeyFromX25519 pr u s" "Ed25519PublicToX25519 pr (the pub) = Inr u"
    using assms by (auto simp: Module_DeriveSharedKey_def split: option.splits sum.splits)
  then show ?thesis using assms derive_refused [of "fst s" u pr "snd s"] by (cases s) fastforce
qed

lemma derive_caches:
  assumes "module_ready s" and "Module_DeriveSharedKey pr pub s = (Inr ka, s1)"
  shows "\<exists>u kc. (\<forall>s. Module_DeriveSharedKey pr pub s = DeriveSharedKeyFromX25519 pr u s) \<and> Ed25519PublicToX25519 pr (the pub) = Inr u \<and>
     length u = X25519KeySize \<and> \<not> m_closed (fst s1) \<and> peerKeys (fst s1) u = Some kc \<and> kc < length (snd s1) \<and> snd s1 ! kc = snd s1 ! ka"
proof -
  obtain m h where s: "s = (m, h)" by fastforce
  obtain u where u: "\<forall>s. Module_DeriveSharedKey pr pub s = DeriveSharedKeyFromX25519 pr u s" "length u = X25519KeySize" "\<not> m_closed m"
      "Ed25519PublicToX25519 pr (the pub) = Inr u"
    using Module_derive_ok [OF assms(2)] s by auto
  have "\<exists>kc. peerKeys (fst s1) u = Some kc \<and> snd s1 ! kc = snd s1 ! ka \<and> kc < length (snd s1) \<and> \<not> m_closed (fst s1)"
  proof (cases "peerKeys m u")
    case None
    then show ?thesis
      using derive_fresh [of m u h pr] assms u s
      by (cases "derived_key pr (h ! x25519Private m) u") (auto simp: module_ready_def nth_append numeral_eq_Suc)
  next
    case (Some k0)
    then show ?thesis using derive_cached [of m u k0 pr h] assms u s by (fastforce simp: module_ready_def nth_append)
  qed
  then show ?thesis using u by blast
qed

lemma derive_twice:
  assumes "module_ready s" and "Module_DeriveSharedKey pr pub s = (Inr ka, s1)"
  shows "Module_DeriveSharedKey pr pub s1 = (Inr (length (snd s1)), fst s1, snd s1 @ [snd s1 ! ka])"
proof -
  obtain u kc where x: "\<forall>s. Module_DeriveSharedKey pr pub s = DeriveSharedKeyFromX25519 pr u s" "length u = X25519KeySize"
      "\<not> m_closed (fst s1)" "peerKeys (fst s1) u = Some kc" "snd s1 ! kc = snd s1 ! ka" using derive_caches [OF assms] by blast
  then show ?thesis using derive_cached [of "fst s1" u kc pr "snd s1"] by (simp add: spec [OF x(1)])
qed

definition installed :: "peer_id \<Rightarrow> string list \<Rightarrow> Module \<Rightarrow> mem \<Rightarrow> nat \<Rightarrow> smgr \<Rightarrow> smgr" where
  "installed p names md h ka m =
     m\<lparr>sm_module := md, sm_mem := h, sm_keys := (sm_keys m)(p \<mapsto> ka),
       sm_streams := (sm_streams m)(p \<mapsto> (case sm_streams m p of None \<Rightarrow> Map.empty | Some ss \<Rightarrow> ss)),
       sm_allowed := (sm_allowed m)(p \<mapsto> (\<lambda>x. (case sm_allowed m p of None \<Rightarrow> (\<lambda>n. False) | Some al \<Rightarrow> al) x \<or> x \<in> set names))\<rparr>"

lemma PrepareStreams_ok:
  assumes "PrepareStreams env io now p pub names n = (None, n')" and "module_ready (crypto n)"
  shows "\<exists>ka md h. Module_DeriveSharedKey (ne_prims env) pub (crypto n) = (Inr ka, md, h) \<and>
      n' = n\<lparr>nd_handlers := register_handlers names (nd_handlers n), nd_streams := installed p names md (h @ [h ! ka]) (length h) (nd_streams n),
             nd_conns := (mgr_SetSharedKey now p (h ! ka) (nd_conns n))
               \<lparr>abook := snd (UpdatePublicKey (ne_codec env) (ne_ids env) io now p (the pub) (abook (nd_conns n)))\<rparr>\<rparr> \<and> nd_started n \<and> names \<noteq> []"
proof -
  have st: "nd_started n" and inst: "install_streams env io now p pub names n = (None, n')" and nn: "names \<noteq> []"
    using assms(1) by (auto simp: PrepareStreams_def ValidateStreamNames_def split: if_splits option.splits)
  obtain ka md h where d1: "Module_DeriveSharedKey (ne_prims env) pub (crypto n) = (Inr ka, md, h)"
    using inst by (auto simp: install_streams_def split: sum.splits prod.splits)
  have d2: "Module_DeriveSharedKey (ne_prims env) pub (md, h) = (Inr (length h), md, h @ [h ! ka])"
    using derive_twice [OF assms(2) d1] by simp
  have est: "EstablishStreams (ne_prims env) p pub names ((nd_streams n)\<lparr>sm_module := md, sm_mem := h\<rparr>) =
      (None, installed p names md (h @ [h ! ka]) (length h) (nd_streams n))"
    using nn d2 by (simp add: EstablishStreams_def installed_def Let_def)
  have "abook (mgr_SetSharedKey now p k m) = abook m" for k and m :: "('a, 'b, 'c) manager"
    by (simp add: mgr_SetSharedKey_def getOrCreate_def set_obj_def split: option.splits)
  then show ?thesis using d1 inst st nn
    by (intro exI [of _ ka] exI [of _ md] exI [of _ h]) (simp add: install_streams_def est set_book_def set_crypto_def Let_def)
qed

text \<open>The keys that two new nodes install for each other are the same.\<close>

lemma NewModule_ready:
  assumes "NewModule pr (Some a) h = (Inr m, h1)" and "hash_sizes pr"
  shows "module_ready (m, h1)"
  using NewModule_effect [OF assms] assms(2)
  by (auto simp: module_ready_def hash_sizes_def X25519KeySize_def nth_append)

lemma prepared_keys_agree:
  assumes "dh_commutes pr" and "hash_sizes pr" and "ed_keypair pr skA" and "ed_keypair pr skB"
    and "NewModule pr (Some 0) [skA] = (Inr mA, hA)" and "NewModule pr (Some 0) [skB] = (Inr mB, hB)"
    and "Module_DeriveSharedKey pr (Some (drop 32 skB)) (mA, hA) = (Inr ka, mA', hA')"
    and "Module_DeriveSharedKey pr (Some (drop 32 skA)) (mB, hB) = (Inr kb, mB', hB')"
  shows "hA' ! ka = hB' ! kb"
proof -
  note eA = NewModule_effect [OF assms(5,2)] and eB = NewModule_effect [OF assms(6,2)]
  have len: "length (drop 32 skA) = PublicKeySize" "length (drop 32 skB) = PublicKeySize"
    using assms(3,4) by (simp_all add: ed_keypair_def PrivateKeySize_def PublicKeySize_def)
  have mon: "ed_to_montgomery pr (drop 32 skA) = Some (x25519Public mA)" "ed_to_montgomery pr (drop 32 skB) = Some (x25519Public mB)"
    using eA eB by simp_all
  have "derived_key pr (clampX25519 (take 32 (sha512 pr (take SeedSize skA)))) (x25519Public mB) =
      derived_key pr (clampX25519 (take 32 (sha512 pr (take SeedSize skB)))) (x25519Public mA)"
    using derived_keys_agree [OF assms(1,2) _ _ assms(5,6)] assms(3,4) by simp
  then show ?thesis
    using Module_derive_value [OF assms(5,2) len(2) mon(2)] Module_derive_value [OF assms(6,2) len(1) mon(1)] assms(7,8)
    by (auto split: sum.splits)
qed

section \<open>Receiving\<close>

text \<open>An incoming stream of a peer with a key, under an allowed name that has no stream yet.\<close>

lemma HandleIncomingStream_new:
  assumes "is_allowed m p name" and "sm_keys m p = Some ka" and "GetStream m p name = None" and "sm_streams m p = Some ss"
    and "length (sm_mem m ! ka) = KeySize" and "\<not> sm_cancelled m"
  shows "\<exists>m'. HandleIncomingStream p name raw m = (None, m') \<and> GetStream m' p name = Some (nencs m) \<and>
     es_open (encs m' (nencs m)) (sm_mem m ! ka) \<and> es_peerID (encs m' (nencs m)) = p \<and> es_name (encs m' (nencs m)) = name \<and>
     es_config (encs m' (nencs m)) = sm_config m \<and> sm_incoming m' = sm_incoming m"
  using assms
  by (auto simp: HandleIncomingStream_def NewEncryptedStream_def NewCipher_def alloc_def alloc_enc_def put_stream_def GetStream_def
      es_open_def)

lemma run_read_frame:
  assumes "aead_correct pr" and "es_open (encs m r) k" and "length nc = NonceSize" and "sm_incoming m = make_chan b" and "0 < b"
    and "EncryptedStreamConfig.MaxMessageSize (es_config (encs m r)) = 0"
  shows "sm_incoming (run_read pr now [(False, RMsg (frame_of pr k nc d))] r m) =
     (make_chan b)\<lparr>cbuf := [es_message (encs m r) now d]\<rparr>"
  using es_readLoop_frames [OF assms(1,2), of "sm_incoming m" "[(nc, d)]" now] assms(3-6)
  by (simp add: run_read_def Let_def chan_offer_def chan_try_send_def make_chan_def)

lemma forwardMessage_one:
  assumes "sm_incoming (nd_streams n) = (make_chan b)\<lparr>cbuf := [msg]\<rparr>" and "nd_messages n = make_chan b'" and "0 < b'"
  shows "\<exists>n'. forwardMessage False now n = Some (True, n') \<and> cbuf (nd_messages n') = [msg] \<and> cbuf (sm_incoming (nd_streams n')) = []"
  using assms by (simp add: forwardMessage_def chan_recv_def make_chan_def record_received_def chan_try_send_def Let_def)

section \<open>Sending\<close>

text \<open>A send through the node that reports success is a successful send of the stream manager.\<close>

lemma stream_send_ok:
  "stream_send env i p name d n = (None, n') \<Longrightarrow>
   sm_SendCtx (ne_prims env) (si_nonce i) (si_write i) (si_new i) (si_ctx i) p name d (nd_streams n) = (None, nd_streams n')"
  by (auto simp: stream_send_def record_sent_def split: prod.splits option.splits)

lemma Node_SendCtx_ok:
  assumes "Node_SendCtx env i p name d n = Some (None, n')"
  shows "sm_SendCtx (ne_prims env) (si_nonce i) (si_write i) (si_new i) (si_ctx i) p name d (nd_streams n) = (None, nd_streams n')"
  using assms stream_send_ok [of env i p name d]
  by (fastforce simp: Node_SendCtx_def split: if_splits option.splits prod.splits)

text \<open>
  A node that is started and has no key for any peer yet, as a new one that has only exchanged handshake messages; and what
  \<^verbatim>\<open>PrepareStreams\<close> makes of it for a peer: the key, the permissions, no stream yet, and channels with room.
\<close>

definition unkeyed_node :: "('ma, 'txt) nenv \<Rightarrow> bytes \<Rightarrow> ('ma, 'txt, 'st, 'l, 'm, 'cb) node \<Rightarrow> bool" where
  "unkeyed_node env sk n \<longleftrightarrow>
     (\<exists>md h. NewModule (ne_prims env) (Some 0) [sk] = (Inr md, h) \<and> crypto n = (md, h)) \<and>
     sm_streams (nd_streams n) = Map.empty \<and> sm_allowed (nd_streams n) = Map.empty \<and> \<not> sm_cancelled (nd_streams n) \<and>
     EncryptedStreamConfig.MaxMessageSize (sm_config (nd_streams n)) = 0 \<and>
     (\<exists>b > 0. sm_incoming (nd_streams n) = make_chan b \<and> nd_messages n = make_chan b) \<and> nd_started n"

definition keyed_node :: "('ma, 'txt) nenv \<Rightarrow> bytes \<Rightarrow> peer_id \<Rightarrow> bytes \<Rightarrow> string list \<Rightarrow> ('ma, 'txt, 'st, 'l, 'm, 'cb) node \<Rightarrow> bool" where
  "keyed_node env sk p pub names n \<longleftrightarrow>
     (\<exists>md h ka md' h' kb b. NewModule (ne_prims env) (Some 0) [sk] = (Inr md, h) \<and>
        Module_DeriveSharedKey (ne_prims env) (Some pub) (md, h) = (Inr ka, md', h') \<and>
        sm_keys (nd_streams n) p = Some kb \<and> sm_mem (nd_streams n) ! kb = h' ! ka \<and>
        sm_incoming (nd_streams n) = make_chan b \<and> nd_messages n = make_chan b \<and> 0 < b) \<and>
     (\<forall>name. GetStream (nd_streams n) p name = None) \<and> (\<forall>name. is_allowed (nd_streams n) p name \<longleftrightarrow> name \<in> set names) \<and>
     sm_streams (nd_streams n) p = Some Map.empty \<and> \<not> sm_cancelled (nd_streams n) \<and>
     EncryptedStreamConfig.MaxMessageSize (sm_config (nd_streams n)) = 0 \<and>
     (\<forall>name \<in> set names. nd_handlers n (StreamProtocolID name) = Some (StreamHandler name))"

lemma started_unkeyed: "started_node env sk n \<Longrightarrow> unkeyed_node env sk n"
  unfolding unkeyed_node_def using started_node_fields [of env sk n] by blast

lemma unkeyed_ready: "unkeyed_node env sk n \<Longrightarrow> hash_sizes (ne_prims env) \<Longrightarrow> module_ready (crypto n)"
  by (auto simp: unkeyed_node_def intro: NewModule_ready)

lemma prepared_node:
  assumes "unkeyed_node env sk n" and "hash_sizes (ne_prims env)" and "PrepareStreams env io now p (Some pub) names n = (None, n')"
  shows "keyed_node env sk p pub names n'"
proof -
  obtain md h where md: "NewModule (ne_prims env) (Some 0) [sk] = (Inr md, h)" and c: "crypto n = (md, h)"
    using assms(1) by (auto simp: unkeyed_node_def)
  from PrepareStreams_ok [OF assms(3) unkeyed_ready [OF assms(1,2)]] obtain ka md' h' cm where
    d: "Module_DeriveSharedKey (ne_prims env) (Some pub) (md, h) = (Inr ka, md', h')"
    and n': "n' = n\<lparr>nd_handlers := register_handlers names (nd_handlers n),
             nd_streams := installed p names md' (h' @ [h' ! ka]) (length h') (nd_streams n), nd_conns := cm\<rparr>"
    unfolding c by blast
  have "\<exists>b. sm_incoming (nd_streams n') = make_chan b \<and> nd_messages n' = make_chan b \<and> 0 < b"
    "sm_keys (nd_streams n') p = Some (length h')" "sm_mem (nd_streams n') ! length h' = h' ! ka"
    using assms(1) by (auto simp: n' installed_def unkeyed_node_def)
  moreover have "nd_handlers n' (StreamProtocolID name) = Some (StreamHandler name)" if "name \<in> set names" for name
    using that by (simp add: n' register_handlers_named)
  ultimately show ?thesis using md d assms(1) unfolding keyed_node_def
    by (intro conjI) (blast | simp add: n' installed_def GetStream_def is_allowed_def unkeyed_node_def)+
qed

text \<open>When the calls succeed.\<close>

lemma PrepareStreams_total:
  assumes "nd_started n" and "module_ready (crypto n)" and "ValidateStreamNames (ne_tables env) names (MaxStreamNameLength (nd_config n)) = None"
    and "Module_DeriveSharedKey (ne_prims env) pub (crypto n) = (Inr ka, s1)"
  shows "\<exists>n'. PrepareStreams env io now p pub names n = (None, n')"
proof -
  have "\<exists>sm. EstablishStreams (ne_prims env) p pub names ((nd_streams n)\<lparr>sm_module := fst s1, sm_mem := snd s1\<rparr>) = (None, sm)"
    using assms(3) derive_twice [OF assms(2,4)] by (auto simp: EstablishStreams_def ValidateStreamNames_def Let_def split: if_splits)
  then show ?thesis using assms by (auto simp: PrepareStreams_def install_streams_def Let_def)
qed

lemma sm_SendCtx_succeeds:
  assumes "aead_correct pr" and "n \<noteq> HandshakeStreamName" and "is_allowed m p n" and "sm_keys m p = Some ka"
    and "length (sm_mem m ! ka) = KeySize" and "GetStream m p n = None" and "length nc = NonceSize"
  shows "\<exists>m'. sm_SendCtx pr (Some nc) WriteOk (Inr raw) Background p n d m = (None, m')"
proof -
  let ?c = "\<lparr>c_aead = Some (sm_mem m ! ka), c_key = Some (length (sm_mem m)), c_closed = False\<rparr>"
  have "\<exists>f. Cipher_Encrypt pr (Some nc) ?c d [] = Inr f"
    using Cipher_Encrypt_seal [OF assms(1), of ?c "sm_mem m ! ka" nc d "[]"] assms(7) by simp
  then show ?thesis using assms(2-6)
    by (auto simp: sm_SendCtx_def openStreamLazilyCtx_def open_lock1_def open_make_def open_lock2_def send_enc_def es_SendCtx_def
        ctx_after_def Background_def ctx_Done_def NewEncryptedStream_def NewCipher_def alloc_def alloc_enc_def put_stream_def write_frame_def
        GetStream_def split: option.splits)
qed

text \<open>
  A message between two nodes that have each other's keys: what the sender puts on its new stream, and how the receiver's handler, read loop and
  forwarding goroutine take it to the channel of \<^verbatim>\<open>Messages\<close>.
\<close>

lemma message_delivered:
  assumes "aead_correct pr" and "dh_commutes pr" and "hash_sizes pr" and "ed_keypair pr skA" and "ed_keypair pr skB"
    and "ne_prims envA = pr" and "ne_prims envB = pr"
    and "keyed_node envA skA pB (drop 32 skB) namesA a1" and "keyed_node envB skB pA (drop 32 skA) namesB b1"
    and "name \<in> set namesB" and "name \<noteq> HandshakeStreamName" and "si_nonce i = Some nc" and "length nc = NonceSize"
    and "Node_SendCtx envA i pB name d a1 = Some (None, a2)"
  shows "\<exists>raw r f. si_new i = Inr raw \<and> GetStream (nd_streams a2) pB name = Some r \<and> frames (es_stream (encs (nd_streams a2) r)) = frames raw @ [f] \<and>
     (\<exists>b2 r' b3. incoming envB now (StreamProtocolID name) pA raw' b1 = (True, b2) \<and> GetStream (nd_streams b2) pA name = Some r' \<and>
        forwardMessage False now' (b2\<lparr>nd_streams := run_read pr now [(False, RMsg f)] r' (nd_streams b2)\<rparr>) = Some (True, b3) \<and>
        cbuf (nd_messages b3) = [\<lparr>im_PeerID = pA, im_StreamName = name, im_Data = d, im_Timestamp = now\<rparr>])"
proof -
  have gA: "GetStream (nd_streams a1) pB name = None" using assms(8) by (simp add: keyed_node_def)
  obtain ka md h kd md' h' where A: "NewModule pr (Some 0) [skA] = (Inr md, h)"
      "Module_DeriveSharedKey pr (Some (drop 32 skB)) (md, h) = (Inr kd, md', h')"
      "sm_keys (nd_streams a1) pB = Some ka" "sm_mem (nd_streams a1) ! ka = h' ! kd" using assms(6,8) unfolding keyed_node_def by blast
  have B': "GetStream (nd_streams b1) pA name = None" "is_allowed (nd_streams b1) pA name" "sm_streams (nd_streams b1) pA = Some Map.empty"
    "\<not> sm_cancelled (nd_streams b1)" "EncryptedStreamConfig.MaxMessageSize (sm_config (nd_streams b1)) = 0"
    "nd_handlers b1 (StreamProtocolID name) = Some (StreamHandler name)" using assms(9,10) by (simp_all add: keyed_node_def)
  obtain kb mdB hB kdB mdB' hB' bb where B: "NewModule pr (Some 0) [skB] = (Inr mdB, hB)"
      "Module_DeriveSharedKey pr (Some (drop 32 skA)) (mdB, hB) = (Inr kdB, mdB', hB')"
      "sm_keys (nd_streams b1) pA = Some kb" "sm_mem (nd_streams b1) ! kb = hB' ! kdB"
      "sm_incoming (nd_streams b1) = make_chan bb" "nd_messages b1 = make_chan bb" "0 < bb" using assms(7,9) unfolding keyed_node_def by blast
  have same: "sm_mem (nd_streams b1) ! kb = sm_mem (nd_streams a1) ! ka"
    using prepared_keys_agree [OF assms(2-5) A(1) B(1) A(2) B(2)] A(4) B(4) by simp
  have "sm_SendCtx pr (Some nc) (si_write i) (si_new i) (si_ctx i) pB name d (nd_streams a1) = (None, nd_streams a2)"
    using Node_SendCtx_ok [OF assms(14)] assms(6,12) by simp
  from sm_SendCtx_opens [OF assms(1,11) _ this] A(3) gA obtain raw es where S: "si_new i = Inr raw"
      "length (sm_mem (nd_streams a1) ! ka) = KeySize" "GetStream (nd_streams a2) pB name = Some (nencs (nd_streams a1))"
      "encs (nd_streams a2) (nencs (nd_streams a1)) = es" "frames (es_stream es) = frames raw @ [frame_of pr (sm_mem (nd_streams a1) ! ka) nc d]"
    by auto
  from HandleIncomingStream_new [OF B'(2) B(3) B'(1,3) _ B'(4), of raw'] same S(2) obtain mB where
    H: "HandleIncomingStream pA name raw' (nd_streams b1) = (None, mB)" "GetStream mB pA name = Some (nencs (nd_streams b1))"
      "es_open (encs mB (nencs (nd_streams b1))) (sm_mem (nd_streams b1) ! kb)" "es_peerID (encs mB (nencs (nd_streams b1))) = pA"
      "es_name (encs mB (nencs (nd_streams b1))) = name" "es_config (encs mB (nencs (nd_streams b1))) = sm_config (nd_streams b1)"
      "sm_incoming mB = sm_incoming (nd_streams b1)" by auto
  have inc: "incoming envB now (StreamProtocolID name) pA raw' b1 = (True, b1\<lparr>nd_streams := mB\<rparr>)"
    using B'(6) H(1) by (simp add: incoming_def)
  let ?b = "(b1\<lparr>nd_streams := mB\<rparr>)\<lparr>nd_streams := run_read pr now [(False, RMsg (frame_of pr (sm_mem (nd_streams a1) ! ka) nc d))]
      (nencs (nd_streams b1)) mB\<rparr>"
  have "sm_incoming (nd_streams ?b) = (make_chan bb)\<lparr>cbuf := [es_message (encs mB (nencs (nd_streams b1))) now d]\<rparr>"
    using run_read_frame [OF assms(1) H(3) assms(13), of bb now d] H(6,7) B(5,7) B'(5) same by simp
  from forwardMessage_one [OF this, of bb now'] B(6,7) obtain b3 where "forwardMessage False now' ?b = Some (True, b3)"
      "cbuf (nd_messages b3) = [\<lparr>im_PeerID = pA, im_StreamName = name, im_Data = d, im_Timestamp = now\<rparr>]"
    using H(4,5) by (auto simp: es_message_def)
  then show ?thesis using S inc H(2)
    by (intro exI [of _ raw] exI [of _ "nencs (nd_streams a1)"] exI [of _ "frame_of pr (sm_mem (nd_streams a1) ! ka) nc d"]
        conjI exI [of _ "b1\<lparr>nd_streams := mB\<rparr>"] exI [of _ "nencs (nd_streams b1)"] exI [of _ b3]) simp_all
qed

section \<open>Properties\<close>

text \<open>
  Property C1: End to end. Two nodes are made from their key pairs, started, and each prepares streams with the other's public key. When a message sent by the
  first on a stream that the second allows is reported as sent, the sender has put exactly one frame on the new stream. If that stream and that
  frame arrive at the second node, its handler accepts the stream, the read loop decrypts the frame and the forwarding goroutine puts exactly the
  sent bytes, labelled with the sender and the stream's name, into the channel of \<^verbatim>\<open>Messages\<close>.
\<close>

theorem message_reaches_the_other_node:
  assumes "aead_correct pr" and "dh_commutes pr" and "hash_sizes pr" and "ed_keypair pr skA" and "ed_keypair pr skB"
    and "ne_prims envA = pr" and "ne_prims envB = pr" and "started_node envA skA a" and "started_node envB skB b"
    and "PrepareStreams envA ioA tA pB (Some (drop 32 skB)) namesA a = (None, a1)"
    and "PrepareStreams envB ioB tB pA (Some (drop 32 skA)) namesB b = (None, b1)"
    and "name \<in> set namesB" and "name \<noteq> HandshakeStreamName" and "si_nonce i = Some nc" and "length nc = NonceSize"
    and "Node_SendCtx envA i pB name d a1 = Some (None, a2)"
  shows "\<exists>raw r f. si_new i = Inr raw \<and> GetStream (nd_streams a2) pB name = Some r \<and> frames (es_stream (encs (nd_streams a2) r)) = frames raw @ [f] \<and>
     (\<exists>b2 r' b3. incoming envB now (StreamProtocolID name) pA raw' b1 = (True, b2) \<and> GetStream (nd_streams b2) pA name = Some r' \<and>
        forwardMessage False now' (b2\<lparr>nd_streams := run_read pr now [(False, RMsg f)] r' (nd_streams b2)\<rparr>) = Some (True, b3) \<and>
        cbuf (nd_messages b3) = [\<lparr>im_PeerID = pA, im_StreamName = name, im_Data = d, im_Timestamp = now\<rparr>])"
proof -
  have "keyed_node envA skA pB (drop 32 skB) namesA a1" "keyed_node envB skB pA (drop 32 skA) namesB b1"
    using prepared_node [OF started_unkeyed [OF assms(8)] _ assms(10)] prepared_node [OF started_unkeyed [OF assms(9)] _ assms(11)] assms(3,6,7)
    by simp_all
  from message_delivered [OF assms(1-7) this assms(12-16)] show ?thesis .
qed

section \<open>Flow control around a send\<close>

text \<open>The controllers of a node: none is ever closed.\<close>

definition flow_ok :: "('ma, 'txt, 'st, 'l, 'm, 'cb) node \<Rightarrow> bool" where
  "flow_ok n \<longleftrightarrow> (\<forall>name fc. nd_flow n name = Some fc \<longrightarrow> fc_inv fc \<and> \<not> Controller.closed fc)"

lemma flow_ok_controller: "flow_ok n \<Longrightarrow> fc_inv (getOrCreateFlowController name n) \<and> \<not> Controller.closed (getOrCreateFlowController name n)"
  by (auto simp: flow_ok_def getOrCreateFlowController_def NewController_inv SetBlockedCallback_inv split: option.splits)
    (simp add: SetBlockedCallback_def NewController_def Let_def)

lemma Acquire_granted:
  assumes "Controller_Acquire fc = (AcquireGranted b, fc1)" and "fc_inv fc"
  shows "\<exists>fc2. Controller_Release fc1 = Some fc2 \<and> pending fc2 = pending fc \<and> fc_inv fc2 \<and> \<not> Controller.closed fc2"
proof -
  have x: "\<not> Controller.closed fc" "\<not> blocked fc" "pending fc1 = pending fc + 1" "chClosed fc1 = chClosed fc" "unblockCh fc1 = unblockCh fc"
      "\<not> Controller.closed fc1"
    using assms(1) by (auto simp: Controller_Acquire_def Let_def split: if_splits)
  have i1: "fc_inv fc1" using Acquire_inv [OF assms(2,1)] .
  then have nc: "unblockCh fc1 \<notin> set (chClosed fc1)" using x(6) by (simp add: fc_inv_def)
  have "0 \<le> pending fc" using assms(2) by (simp add: fc_inv_def)
  then have "\<exists>fc2. Controller_Release fc1 = Some fc2 \<and> pending fc2 = pending fc \<and> \<not> Controller.closed fc2"
    using nc x(3,6) by (simp add: Controller_Release_eq Let_def)
  then obtain fc2 where r: "Controller_Release fc1 = Some fc2" "pending fc2 = pending fc" "\<not> Controller.closed fc2" by blast
  then show ?thesis using Release_inv [OF i1 r(1)] by blast
qed

lemma stream_send_keeps:
  "stream_send env i p name d n = (r, n') \<Longrightarrow> nd_flow n' = nd_flow n \<and> nd_config n' = nd_config n \<and>
     nd_stats n' = (if r = None
       then (nd_stats n)(p \<mapsto> fst (RecordMessageSent (si_now i) name (int (length d)) (getOrCreatePeerStats p n))) else nd_stats n)"
  by (auto simp: stream_send_def record_sent_def getOrCreatePeerStats_def split: prod.splits option.splits)

lemma acquire_loop_alone:
  assumes "list_all (\<lambda>w. w = None) ws" and "acquire_loop e ws fc = Some (r, fc1)" and "\<not> Controller.closed fc"
  shows "r = None \<and> (\<exists>b. Controller_Acquire fc = (AcquireGranted b, fc1)) \<or> r = Some e \<and> blocked fc \<and> fc1 = fc"
  using assms by (cases ws) (auto simp: Controller_Acquire_def Let_def split: if_splits)

text \<open>The three refusals that come before anything else.\<close>

definition refused :: "('ma, 'txt) nenv \<Rightarrow> string \<Rightarrow> bytes \<Rightarrow> ('ma, 'txt, 'st, 'l, 'm, 'cb) node \<Rightarrow> bool" where
  "refused env name d n \<longleftrightarrow> \<not> nd_started n \<or> ValidateStreamName (ne_tables env) name (MaxStreamNameLength (nd_config n)) \<noteq> None \<or>
     Config.MaxMessageSize (nd_config n) > 0 \<and> int (length d) > Config.MaxMessageSize (nd_config n)"

lemma Node_SendCtx_refused:
  "refused env name d n \<Longrightarrow> \<exists>e. Node_SendCtx env i p name d n = Some (Some (NGo e), n)"
  by (auto simp: refused_def Node_SendCtx_def split: option.splits)

lemma Node_SendCtx_unrefused:
  assumes "\<not> refused env name d n"
  shows "Node_SendCtx env i p name d n =
     (if DisableBackpressure (nd_config n) then Some (stream_send env i p name d n)
      else case acquire_loop (ctxErr (si_ctx i)) (si_waits i) (getOrCreateFlowController name n) of
        None \<Rightarrow> None
      | Some (Some e, fc) \<Rightarrow>
          Some (Some (NGo (RichError ErrCodeBackpressure ''send blocked by backpressure'' p name (Some (CtxErr e)) True '''')),
                n\<lparr>nd_flow := (nd_flow n)(name \<mapsto> fc)\<rparr>)
      | Some (None, fc) \<Rightarrow>
          (case stream_send env i p name d (n\<lparr>nd_flow := (nd_flow n)(name \<mapsto> fc)\<rparr>) of
             (r, n1) \<Rightarrow>
               map_option (\<lambda>fc1. (r, n1\<lparr>nd_flow := (nd_flow n1)(name \<mapsto> fc1)\<rparr>))
                 (Controller_Release (getOrCreateFlowController name n1))))"
  using assms by (auto simp: refused_def Node_SendCtx_def split: option.splits)

text \<open>The rest of an accepted send, by the outcome of the controller.\<close>

lemma acquire_loop_alone_total:
  assumes "list_all (\<lambda>w. w = None) ws" and "\<not> Controller.closed fc"
  shows "acquire_loop e ws fc = None \<longleftrightarrow> blocked fc \<and> ws = []"
  using assms by (cases ws) (auto simp: Controller_Acquire_def Let_def split: if_splits)

lemma granted_send:
  assumes "fc_inv fc" and "Controller_Acquire fc = (AcquireGranted b, fc1)"
    and "stream_send env i p name d (n\<lparr>nd_flow := (nd_flow n)(name \<mapsto> fc1)\<rparr>) = (r, n1)"
  shows "\<exists>fc2. Controller_Release (getOrCreateFlowController name n1) = Some fc2 \<and> pending fc2 = pending fc \<and> fc_inv fc2 \<and>
     \<not> Controller.closed fc2 \<and> nd_flow n1 = (nd_flow n)(name \<mapsto> fc1)"
proof -
  have f: "nd_flow n1 = (nd_flow n)(name \<mapsto> fc1)" using stream_send_keeps [OF assms(3)] by simp
  then have "getOrCreateFlowController name n1 = fc1" by (simp add: getOrCreateFlowController_def)
  then show ?thesis using Acquire_granted [OF assms(2,1)] f by simp
qed

text \<open>What a send that goes through flow control leaves: the counts as they were, and the statistics of the result.\<close>

definition accounted :: "send_in \<Rightarrow> peer_id \<Rightarrow> string \<Rightarrow> bytes \<Rightarrow> ('ma, 'txt, 'st, 'l, 'm, 'cb) node \<Rightarrow> node_err option \<Rightarrow>
    ('ma, 'txt, 'st, 'l, 'm, 'cb) node \<Rightarrow> bool" where
  "accounted i p name d n r n' \<longleftrightarrow> flow_ok n' \<and> (\<forall>s. s \<noteq> name \<longrightarrow> nd_flow n' s = nd_flow n s) \<and>
     pending (getOrCreateFlowController name n') = pending (getOrCreateFlowController name n) \<and>
     nd_stats n' = (if r = None
       then (nd_stats n)(p \<mapsto> fst (RecordMessageSent (si_now i) name (int (length d)) (getOrCreatePeerStats p n))) else nd_stats n)"

lemma controlled_send_accounts:
  assumes "flow_ok n" and "list_all (\<lambda>w. w = None) (si_waits i)" and nr: "\<not> refused env name d n" and bp: "\<not> DisableBackpressure (nd_config n)"
    and acq: "acquire_loop (ctxErr (si_ctx i)) (si_waits i) (getOrCreateFlowController name n) = Some (e, fc1)"
  shows "\<exists>r n'. Node_SendCtx env i p name d n = Some (r, n') \<and> accounted i p name d n r n'"
proof -
  let ?fc = "getOrCreateFlowController name n"
  note u = Node_SendCtx_unrefused [OF nr, of i p]
  have fc: "fc_inv ?fc" "\<not> Controller.closed ?fc" using flow_ok_controller [OF assms(1)] by simp_all
  from acquire_loop_alone [OF assms(2) acq fc(2)]
  consider b where "e = None" "Controller_Acquire ?fc = (AcquireGranted b, fc1)" | "e = Some (ctxErr (si_ctx i))" "fc1 = ?fc" by blast
  then show ?thesis
  proof cases
    case 1
    obtain r n1 where ss: "stream_send env i p name d (n\<lparr>nd_flow := (nd_flow n)(name \<mapsto> fc1)\<rparr>) = (r, n1)" by fastforce
    from granted_send [OF fc(1) 1(2) ss] obtain fc2 where g: "Controller_Release (getOrCreateFlowController name n1) = Some fc2"
      "pending fc2 = pending ?fc" "fc_inv fc2" "\<not> Controller.closed fc2" "nd_flow n1 = (nd_flow n)(name \<mapsto> fc1)" by blast
    let ?n' = "n1\<lparr>nd_flow := (nd_flow n1)(name \<mapsto> fc2)\<rparr>"
    have "Node_SendCtx env i p name d n = Some (r, ?n')" using u bp acq 1(1) ss g(1) by simp
    moreover have "flow_ok ?n'" using assms(1) g by (simp add: flow_ok_def)
    moreover have "getOrCreateFlowController name ?n' = fc2" by (simp add: getOrCreateFlowController_def)
    ultimately show ?thesis using g(2,5) stream_send_keeps [OF ss] by (simp add: accounted_def getOrCreatePeerStats_def)
  next
    case 2
    let ?n' = "n\<lparr>nd_flow := (nd_flow n)(name \<mapsto> ?fc)\<rparr>"
    have "\<exists>e. Node_SendCtx env i p name d n = Some (Some (NGo e), ?n')" using u bp acq 2 by simp
    moreover have "flow_ok ?n'" using assms(1) fc by (simp add: flow_ok_def)
    moreover have "getOrCreateFlowController name ?n' = ?fc" by (simp add: getOrCreateFlowController_def)
    ultimately show ?thesis by (auto simp: accounted_def)
  qed
qed

text \<open>
  Property C25: Accounting of a send, while no other goroutine sends on the same stream. The call is stuck only when backpressure is on, the controller of
  the stream is blocked and the context does not end. Otherwise it returns: a node that is not started, an invalid name or a message over the limit is
  refused without any change; whatever the outcome, the count of pending messages of the stream is the one before the call, the other streams'
  controllers are untouched and all stay well-formed; and the statistics count the message exactly when the call reports success.
\<close>

theorem send_accounts:
  assumes "flow_ok n" and "list_all (\<lambda>w. w = None) (si_waits i)"
  shows "(Node_SendCtx env i p name d n = None \<longleftrightarrow> \<not> refused env name d n \<and> \<not> DisableBackpressure (nd_config n) \<and>
            blocked (getOrCreateFlowController name n) \<and> si_waits i = []) \<and>
     (\<forall>r n'. Node_SendCtx env i p name d n = Some (r, n') \<longrightarrow>
        (refused env name d n \<longrightarrow> r \<noteq> None \<and> n' = n) \<and> flow_ok n' \<and> (\<forall>s. s \<noteq> name \<longrightarrow> nd_flow n' s = nd_flow n s) \<and>
        pending (getOrCreateFlowController name n') = pending (getOrCreateFlowController name n) \<and>
        nd_stats n' = (if r = None
          then (nd_stats n)(p \<mapsto> fst (RecordMessageSent (si_now i) name (int (length d)) (getOrCreatePeerStats p n))) else nd_stats n))"
proof (cases "refused env name d n")
  case True
  then show ?thesis using Node_SendCtx_refused [OF True, of i p] assms(1) by auto
next
  case nr: False
  let ?fc = "getOrCreateFlowController name n"
  note u = Node_SendCtx_unrefused [OF nr, of i p]
  show ?thesis
  proof (cases "DisableBackpressure (nd_config n)")
    case True
    obtain r n1 where ss: "stream_send env i p name d n = (r, n1)" by fastforce
    note k = stream_send_keeps [OF ss]
    have "getOrCreateFlowController name n1 = ?fc" "flow_ok n1" using k assms(1) by (simp_all add: getOrCreateFlowController_def flow_ok_def split: option.splits)
    then show ?thesis using nr True u ss k by simp
  next
    case bp: False
    have fc: "fc_inv ?fc" "\<not> Controller.closed ?fc" using flow_ok_controller [OF assms(1)] by simp_all
    show ?thesis
    proof (cases "acquire_loop (ctxErr (si_ctx i)) (si_waits i) ?fc")
      case None
      then show ?thesis using u bp nr acquire_loop_alone_total [OF assms(2) fc(2)] by simp
    next
      case (Some x)
      obtain e fc1 where acq: "acquire_loop (ctxErr (si_ctx i)) (si_waits i) ?fc = Some (e, fc1)" using Some by (cases x) simp
      have "\<not> (blocked ?fc \<and> si_waits i = [])" using Some acquire_loop_alone_total [OF assms(2) fc(2)] by auto
      moreover obtain r n' where "Node_SendCtx env i p name d n = Some (r, n')" "accounted i p name d n r n'"
        using controlled_send_accounts [OF assms nr bp acq] by blast
      ultimately show ?thesis using nr by (simp add: accounted_def)
    qed
  qed
qed

section \<open>Concrete inputs\<close>

definition toy_nenv :: "(string, book_doc) nenv" where
  "toy_nenv = \<lparr>ne_codec = toy_codec, ne_ids = (\<lambda>p. p), ne_jitter = (\<lambda>d. d), ne_prims = toy_prims,
     ne_tables = \<lparr>uLetter = (\<lambda>_. False), uDigit = (\<lambda>_. False)\<rparr>\<rparr>"

lemma toy_nenv_prims [simp]: "ne_prims toy_nenv = toy_prims"
  by (simp add: toy_nenv_def)

type_synonym toy_node = "(string, book_doc, unit, unit, unit, unit) node"

lemma toy_started: "\<exists>n :: toy_node. started_node toy_nenv (toy_seckey b) n \<and> MaxStreamNameLength (nd_config n) = 64 \<and>
    Config.MaxMessageSize (nd_config n) = 2 ^ 20 \<and> book n = \<lparr>storage_path = ''book'', peers = Map.empty, dirty = False, flushStopped = False\<rparr> \<and>
    connections (nd_conns n) = Map.empty \<and> sm_unenc (nd_streams n) = Map.empty \<and>
    nd_handlers n (StreamProtocolID HandshakeStreamName) = Some HandshakeHandler"
proof -
  let ?cfg = "zero_config (Some (toy_seckey b)) ''book'' [''addr''] :: (string, unit, unit, unit) Config"
  let ?fs = "\<lparr>files = Map.empty :: string \<rightharpoonup> book_doc list\<rparr>"
  have len: "length (toy_seckey b) = 64" using toy_keypair [of b] by (simp add: ed_keypair_def PrivateKeySize_def)
  have v: "Config_Validate ?cfg = None" by (simp add: Config_Validate_None config_ok_def zero_config_def len)
  obtain md h where m: "NewModule toy_prims (Some 0) [toy_seckey b] = (Inr md, h)" using toy_module by blast
  let ?b = "\<lparr>storage_path = ''book'', peers = Map.empty, dirty = False, flushStopped = False\<rparr>"
  have "\<exists>fs. New toy_codec no_faults ''book'' ?fs = (Inr ?b, fs)"
    by (simp add: New_def storage_load_def acquireFileLock_def no_faults_def Let_def empty_data_def)
  then have "\<exists>n0 :: toy_node. Node_New toy_nenv no_faults None ?fs ?cfg () () = Inr n0 \<and> \<not> nd_started n0 \<and>
      nd_config n0 = applyDefaults () () ?cfg \<and> book n0 = ?b \<and> connections (nd_conns n0) = Map.empty \<and> sm_unenc (nd_streams n0) = Map.empty"
    using v m by (auto simp: Node_New_def toy_nenv_def zero_config_def Let_def book_def NewManager_def SetMessageDroppedCallback_def
        SetDecryptionErrorCallback_def NewStreamManager_def)
  then obtain n0 :: toy_node where n0: "Node_New toy_nenv no_faults None ?fs ?cfg () () = Inr n0" "\<not> nd_started n0"
      "nd_config n0 = applyDefaults () () ?cfg" "book n0 = ?b" "connections (nd_conns n0) = Map.empty" "sm_unenc (nd_streams n0) = Map.empty" by blast
  let ?n = "snd (snd (Node_Start [] n0))"
  have st: "Node_Start [] n0 = (None, fst (snd (Node_Start [] n0)), ?n)" using n0(2) by (simp add: Node_Start_def)
  have "PrivateKey ?cfg = Some (toy_seckey b)" by (simp add: zero_config_def)
  then have "started_node toy_nenv (toy_seckey b) ?n" unfolding started_node_def using n0(1) st by blast
  moreover have "nd_config ?n = nd_config n0" "nd_conns ?n = nd_conns n0" "nd_streams ?n = nd_streams n0"
    "nd_handlers ?n (StreamProtocolID HandshakeStreamName) = Some HandshakeHandler" using n0(2) by (simp_all add: Node_Start_def)
  ultimately show ?thesis using n0(3-6) by (intro exI [of _ ?n]) (simp add: zero_config_def default_int_def book_def)
qed

text \<open>The toy key of two key pairs; it is not zero when the bytes of the seeds do not cancel.\<close>

lemma clamp_replicate: "clampX25519 (replicate 32 b) = (b AND 248) # replicate 30 b @ [(b AND 127) OR 64]"
proof -
  have "replicate (Suc (30 + 1)) b = b # replicate 30 b @ [b]" by (simp only: replicate_Suc replicate_add) simp
  then show ?thesis by (simp add: clampX25519_cons)
qed

lemma toy_derived_key:
  assumes "a + b \<noteq> (0 :: byte)"
  shows "\<exists>k. derived_key toy_prims (clampX25519 (replicate 32 a)) (clampX25519 (replicate 32 b)) = Inr k \<and> length k = 32"
  using assms by (auto simp: derived_key_def toy_prims_def clamp_replicate zip_replicate list_all_iff)

text \<open>A toy node that has prepared the stream \<open>chat\<close> with another one.\<close>

lemma toy_chat_valid: "ValidateStreamName (ne_tables toy_nenv) ''chat'' 64 = None"
  by (simp add: ValidateStreamName_def runes_of_def string_bytes_def DecodeRune.simps isValidStreamNameChar_def rune_class_defs)

lemma toy_derives:
  assumes "a + b \<noteq> (0 :: byte)" and "started_node toy_nenv (toy_seckey a) n"
  shows "module_ready (crypto n)"
    "\<exists>ka md h. Module_DeriveSharedKey toy_prims (Some (drop 32 (toy_seckey b))) (crypto n) = (Inr ka, md, h) \<and> length (h ! ka) = 32"
proof -
  let ?pub = "drop 32 (toy_seckey b)"
  obtain md h where md: "NewModule toy_prims (Some 0) [toy_seckey a] = (Inr md, h)" "crypto n = (md, h)"
    using started_node_fields(1) [OF assms(2)] by auto
  have len: "length ?pub = PublicKeySize" by (simp add: toy_seckey_def PublicKeySize_def)
  have mon: "ed_to_montgomery toy_prims ?pub = Some (clampX25519 (replicate 32 b))" by (simp add: toy_prims_def toy_seckey_def)
  obtain k where k: "derived_key toy_prims (clampX25519 (replicate 32 a)) (clampX25519 (replicate 32 b)) = Inr k" "length k = 32"
    using toy_derived_key [OF assms(1)] by blast
  have sc: "clampX25519 (take 32 (sha512 toy_prims (take SeedSize ([toy_seckey a] ! 0)))) = clampX25519 (replicate 32 a)"
    by (simp add: toy_prims_def toy_seckey_def SeedSize_def)
  show "module_ready (crypto n)" using NewModule_ready [OF md(1) toy_sizes] md(2) by simp
  show "\<exists>ka md h. Module_DeriveSharedKey toy_prims (Some ?pub) (crypto n) = (Inr ka, md, h) \<and> length (h ! ka) = 32"
    using Module_derive_value [OF md(1) toy_sizes len mon, unfolded sc k(1)] k(2) md(2) by auto
qed

lemma toy_prepares:
  assumes "a + b \<noteq> (0 :: byte)" and "started_node toy_nenv (toy_seckey a) n0" and "crypto n = crypto n0" and "nd_started n"
    and "ValidateStreamNames (ne_tables toy_nenv) names (MaxStreamNameLength (nd_config n)) = None"
  shows "\<exists>n'. PrepareStreams toy_nenv no_faults 0 p (Some (drop 32 (toy_seckey b))) names n = (None, n')"
    "\<And>n' ka. PrepareStreams toy_nenv no_faults 0 p (Some (drop 32 (toy_seckey b))) names n = (None, n') \<Longrightarrow>
       sm_keys (nd_streams n') p = Some ka \<Longrightarrow> length (sm_mem (nd_streams n') ! ka) = KeySize"
proof -
  note r = toy_derives(1) [OF assms(1,2)]
  obtain ka md h where d: "Module_DeriveSharedKey toy_prims (Some (drop 32 (toy_seckey b))) (crypto n) = (Inr ka, md, h)" "length (h ! ka) = 32"
    using toy_derives(2) [OF assms(1,2)] assms(3) by auto
  then show "\<exists>n'. PrepareStreams toy_nenv no_faults 0 p (Some (drop 32 (toy_seckey b))) names n = (None, n')"
    using PrepareStreams_total [OF assms(4) _ assms(5)] r assms(3) by simp
  show "length (sm_mem (nd_streams n') ! kb) = KeySize"
    if "PrepareStreams toy_nenv no_faults 0 p (Some (drop 32 (toy_seckey b))) names n = (None, n')" "sm_keys (nd_streams n') p = Some kb" for n' kb
    using PrepareStreams_ok [OF that(1)] that(2) d r assms(3) by (auto simp: installed_def KeySize_def)
qed

lemma toy_chat_names: "MaxStreamNameLength (nd_config n) = 64 \<Longrightarrow> ValidateStreamNames (ne_tables toy_nenv) [''chat''] (MaxStreamNameLength (nd_config n)) = None"
  using toy_chat_valid by (simp add: ValidateStreamNames_def)

definition toy_send :: send_in where
  "toy_send = \<lparr>si_ctx = Background, si_waits = [], si_nonce = Some (replicate 12 1), si_new = Inr \<lparr>frames = [], raw_closed = False\<rparr>,
     si_write = WriteOk, si_now = 7\<rparr>"

text \<open>Its first message is sent.\<close>

lemma toy_sent:
  assumes "a + b \<noteq> (0 :: byte)" and "started_node toy_nenv (toy_seckey a) (n :: toy_node)" and "MaxStreamNameLength (nd_config n) = 64"
    and "Config.MaxMessageSize (nd_config n) = 2 ^ 20"
    and p: "PrepareStreams toy_nenv no_faults 0 p (Some (drop 32 (toy_seckey b))) [''chat''] n = (None, n')"
  shows "flow_ok n'" "\<exists>n2. Node_SendCtx toy_nenv toy_send p ''chat'' [4, 2] n' = Some (None, n2)"
proof -
  have x: "keyed_node toy_nenv (toy_seckey a) p (drop 32 (toy_seckey b)) [''chat''] n'"
    using prepared_node [OF started_unkeyed [OF assms(2)] _ p] by (simp add: toy_sizes)
  obtain ka where ka: "sm_keys (nd_streams n') p = Some ka" using x by (auto simp: keyed_node_def)
  have "\<exists>m'. sm_SendCtx toy_prims (Some (replicate 12 1)) WriteOk (Inr \<lparr>frames = [], raw_closed = False\<rparr>) Background p ''chat'' [4, 2]
      (nd_streams n') = (None, m')"
    using toy_prepares(2) [OF assms(1,2) refl started_node_fields(9) [OF assms(2)] toy_chat_names [OF assms(3)] p ka] ka x
    by (intro sm_SendCtx_succeeds [OF toy_aead(1)]) (simp_all add: HandshakeStreamName_def NonceSize_def keyed_node_def)
  then have "\<exists>n2. stream_send toy_nenv toy_send p ''chat'' [4, 2] (n'\<lparr>nd_flow := fl\<rparr>) = (None, n2) \<and> nd_flow n2 = fl" for fl
    by (auto simp: stream_send_def toy_send_def record_sent_def)
  note ss = this
  obtain k1 k2 k3 where n': "n' = n\<lparr>nd_handlers := k1, nd_streams := k2, nd_conns := k3\<rparr>" "nd_started n'"
    using PrepareStreams_ok [OF p] NewModule_ready [OF _ toy_sizes] started_node_fields(1) [OF assms(2)] by auto
  then have fl: "nd_flow n' = Map.empty" using started_node_fields(11) [OF assms(2)] by simp
  then show ok: "flow_ok n'" by (simp add: flow_ok_def)
  let ?fc = "getOrCreateFlowController ''chat'' n'"
  have fc: "fc_inv ?fc" "\<not> Controller.closed ?fc" using flow_ok_controller [OF ok] by simp_all
  have nb: "\<not> blocked ?fc" using fl by (simp add: getOrCreateFlowController_def SetBlockedCallback_def NewController_def Let_def)
  obtain g fc1 where acq: "Controller_Acquire ?fc = (AcquireGranted g, fc1)" using fc nb by (auto simp: Controller_Acquire_def Let_def)
  obtain n2 where n2: "stream_send toy_nenv toy_send p ''chat'' [4, 2] (n'\<lparr>nd_flow := (nd_flow n')(''chat'' \<mapsto> fc1)\<rparr>) = (None, n2)"
    using ss by blast
  obtain fc2 where "Controller_Release (getOrCreateFlowController ''chat'' n2) = Some fc2" using granted_send [OF fc(1) acq n2] by blast
  moreover have "\<not> refused toy_nenv ''chat'' [4, 2] n'" using n' assms(3,4) toy_chat_valid by (simp add: refused_def)
  moreover have "acquire_loop e [] ?fc = Some (None, fc1)" for e by (simp add: acq)
  moreover have "\<exists>n3. stream_send toy_nenv toy_send p ''chat'' [4, 2] n' = (None, n3)" using ss [of "nd_flow n'"] by auto
  ultimately show "\<exists>n2. Node_SendCtx toy_nenv toy_send p ''chat'' [4, 2] n' = Some (None, n2)"
    using n2 by (simp add: Node_SendCtx_unrefused toy_send_def del: acquire_loop.simps)
qed

theorem message_reaches_the_other_node_witness:
  "\<exists>(a :: toy_node) (b :: toy_node) a1 b1 a2 b2 b3. started_node toy_nenv (toy_seckey 3) a \<and> started_node toy_nenv (toy_seckey 5) b \<and>
     PrepareStreams toy_nenv no_faults 0 ''B'' (Some (drop 32 (toy_seckey 5))) [''chat''] a = (None, a1) \<and>
     PrepareStreams toy_nenv no_faults 0 ''A'' (Some (drop 32 (toy_seckey 3))) [''chat''] b = (None, b1) \<and>
     Node_SendCtx toy_nenv toy_send ''B'' ''chat'' [4, 2] a1 = Some (None, a2) \<and>
     incoming toy_nenv 9 (StreamProtocolID ''chat'') ''A'' \<lparr>frames = [], raw_closed = False\<rparr> b1 = (True, b2) \<and>
     (\<exists>r f. forwardMessage False 0 (b2\<lparr>nd_streams := run_read toy_prims 9 [(False, RMsg f)] r (nd_streams b2)\<rparr>) = Some (True, b3)) \<and>
     cbuf (nd_messages b3) = [\<lparr>im_PeerID = ''A'', im_StreamName = ''chat'', im_Data = [4, 2], im_Timestamp = 9\<rparr>]"
proof -
  have s: "3 + 5 \<noteq> (0 :: byte)" "5 + 3 \<noteq> (0 :: byte)" by simp_all
  obtain a :: toy_node where a: "started_node toy_nenv (toy_seckey 3) a" "MaxStreamNameLength (nd_config a) = 64"
      "Config.MaxMessageSize (nd_config a) = 2 ^ 20" using toy_started by blast
  obtain b :: toy_node where b: "started_node toy_nenv (toy_seckey 5) b" "MaxStreamNameLength (nd_config b) = 64" using toy_started by blast
  obtain a1 where a1: "PrepareStreams toy_nenv no_faults 0 ''B'' (Some (drop 32 (toy_seckey 5))) [''chat''] a = (None, a1)"
    using toy_prepares(1) [OF s(1) a(1) refl started_node_fields(9) [OF a(1)] toy_chat_names [OF a(2)]] by blast
  obtain b1 where b1: "PrepareStreams toy_nenv no_faults 0 ''A'' (Some (drop 32 (toy_seckey 3))) [''chat''] b = (None, b1)"
    using toy_prepares(1) [OF s(2) b(1) refl started_node_fields(9) [OF b(1)] toy_chat_names [OF b(2)]] by blast
  obtain a2 where a2: "Node_SendCtx toy_nenv toy_send ''B'' ''chat'' [4, 2] a1 = Some (None, a2)"
    using toy_sent(2) [OF s(1) a a1] by blast
  have "''chat'' \<in> set [''chat'']" "''chat'' \<noteq> HandshakeStreamName" "si_nonce toy_send = Some (replicate 12 1)"
    "length (replicate 12 1 :: bytes) = NonceSize" by (simp_all add: HandshakeStreamName_def toy_send_def NonceSize_def)
  from message_reaches_the_other_node [OF toy_aead(1) toy_dh toy_sizes toy_keypair toy_keypair toy_nenv_prims toy_nenv_prims a(1) b(1) a1 b1
      this a2, of 9 "\<lparr>frames = [], raw_closed = False\<rparr>" 0]
  show ?thesis using a(1) b(1) a1 b1 a2 by blast
qed

theorem send_accounts_witness:
  "\<exists>n n1 n2 :: toy_node. PrepareStreams toy_nenv no_faults 0 ''B'' (Some (drop 32 (toy_seckey 5))) [''chat''] n = (None, n1) \<and>
     Node_SendCtx toy_nenv toy_send ''B'' ''chat'' [4, 2] n1 = Some (None, n2) \<and>
     pending (getOrCreateFlowController ''chat'' n2) = pending (getOrCreateFlowController ''chat'' n1)"
proof -
  have s: "3 + 5 \<noteq> (0 :: byte)" by simp
  obtain a :: toy_node where a: "started_node toy_nenv (toy_seckey 3) a" "MaxStreamNameLength (nd_config a) = 64"
      "Config.MaxMessageSize (nd_config a) = 2 ^ 20" using toy_started by blast
  obtain a1 where a1: "PrepareStreams toy_nenv no_faults 0 ''B'' (Some (drop 32 (toy_seckey 5))) [''chat''] a = (None, a1)"
    using toy_prepares(1) [OF s a(1) refl started_node_fields(9) [OF a(1)] toy_chat_names [OF a(2)]] by blast
  obtain a2 where a2: "Node_SendCtx toy_nenv toy_send ''B'' ''chat'' [4, 2] a1 = Some (None, a2)" using toy_sent(2) [OF s a a1] by blast
  have "list_all (\<lambda>w. w = None) (si_waits toy_send)" by (simp add: toy_send_def)
  from send_accounts [OF toy_sent(1) [OF s a a1] this, of toy_nenv "''B''" "''chat''" "[4, 2]"] a2
  show ?thesis using a1 by blast
qed

end
