(* ===== verification/NodeLifecycle.thy ===== *)
theory NodeLifecycle
  imports NodeMessaging
begin

text \<open>
  The life of a connection and of the node: completing the handshake, disconnecting a peer and what becomes of its keys, stopping the node,
  and where the code does not clean up.
\<close>

section \<open>Lemmas\<close>

text \<open>Storing a key, cancelling the handshake timer and marking the connection as established, on an existing connection.\<close>

lemma mgr_SetSharedKey_existing:
  "connections m p = Some r \<Longrightarrow> mgr_SetSharedKey now p k m = set_obj r ((objs m r)\<lparr>SharedKey := Some k\<rparr>) m"
  by (simp add: mgr_SetSharedKey_def getOrCreate_def pc_SetSharedKey_def)

lemma CancelHandshakeTimeout_effect:
  "connections (conn_CancelHandshakeTimeout r m) = connections m" "emitted (conn_CancelHandshakeTimeout r m) = emitted m"
  "abook (conn_CancelHandshakeTimeout r m) = abook m"
  "objs (conn_CancelHandshakeTimeout r m) = (objs m)(r := (objs m r)\<lparr>HandshakeTimer := None, HandshakeCancel := None\<rparr>)"
  "t_stopped (timers (conn_CancelHandshakeTimeout r m) t) \<longleftrightarrow> t_stopped (timers m t) \<or> HandshakeTimer (objs m r) = Some t"
  "t_cancelled (timers (conn_CancelHandshakeTimeout r m) t) \<longleftrightarrow> t_cancelled (timers m t) \<or> HandshakeCancel (objs m r) = Some t"
  by (auto simp: conn_CancelHandshakeTimeout_def pc_CancelHandshakeTimeout_def cancel_timer_ctx_def stop_timer_def set_obj_def
      split: option.splits)

lemma MarkEstablished_effect:
  assumes "connections m p = Some r" and "State (objs m r) = StateConnected" and "e_events env"
  shows "\<exists>m'. MarkEstablished env now p m = (None, m') \<and> connections m' = connections m \<and> State (objs m' r) = StateEstablished \<and>
     SharedKey (objs m' r) = SharedKey (objs m r) \<and> HandshakeTimer (objs m' r) = None \<and> abook m' = abook m \<and>
     (\<forall>t. t_stopped (timers m' t) \<longleftrightarrow> t_stopped (timers m t) \<or> HandshakeTimer (objs m r) = Some t) \<and>
     emitted m' = emitted m @ [\<lparr>ev_PeerID = p, ev_State = StateEstablished, ev_Error = None, ev_Timestamp = now\<rparr>]"
proof -
  have "CanTransitionTo StateConnected StateEstablished" by (simp add: CanTransitionTo_def validTransitions_def)
  then show ?thesis using assms
    by (auto simp: MarkEstablished_def mark_established_lock_def conn_TransitionTo_def TransitionTo_def ValidateTransition_def set_obj_def
        CancelHandshakeTimeout_effect emitEvent_def)
qed

lemma CloseHandshakeStream_effect:
  "get_unenc (snd (CloseHandshakeStream ce p m)) p HandshakeStreamName = None"
  "sm_keys (snd (CloseHandshakeStream ce p m)) = sm_keys m" "sm_allowed (snd (CloseHandshakeStream ce p m)) = sm_allowed m"
  "sm_mem (snd (CloseHandshakeStream ce p m)) = sm_mem m"
  by (auto simp: CloseHandshakeStream_def get_unenc_def close_unc_def split: option.splits prod.splits)

text \<open>Finishing the handshake on a node with a connected peer.\<close>

lemma FinalizeHandshake_ok:
  assumes "nd_started n" and "connections (nd_conns n) p = Some r" and "State (objs (nd_conns n) r) = StateConnected"
  shows "\<exists>n'. FinalizeHandshake env ce now p n = (None, n') \<and> Node_ConnectionState p n' = PubEstablished \<and>
     mgr_GetSharedKey (nd_conns n') p = SharedKey (objs (nd_conns n) r) \<and>
     (\<forall>t. HandshakeTimer (objs (nd_conns n) r) = Some t \<longrightarrow> t_stopped (timers (nd_conns n') t)) \<and>
     nd_streams n' = snd (CloseHandshakeStream ce p (nd_streams n)) \<and>
     nd_dispatch n' = disp_offer \<lparr>ev_PeerID = p, ev_State = StateEstablished, ev_Error = None, ev_Timestamp = now\<rparr> (nd_dispatch n) \<and>
     abook (nd_conns n') = abook (nd_conns n) \<and> nd_started n'"
proof -
  let ?m = "conn_CancelHandshakeTimeout r (nd_conns n)"
  let ?n = "n\<lparr>nd_conns := ?m, nd_streams := snd (CloseHandshakeStream ce p (nd_streams n))\<rparr>"
  have c: "connections ?m p = Some r" "State (objs ?m r) = StateConnected" "e_events (node_menv env ?n)"
    using assms(2,3) by (simp_all add: CancelHandshakeTimeout_effect node_menv_def)
  from MarkEstablished_effect [OF c, of now] obtain m' where
    m': "MarkEstablished (node_menv env ?n) now p ?m = (None, m')" "connections m' p = Some r" "State (objs m' r) = StateEstablished"
      "SharedKey (objs m' r) = SharedKey (objs ?m r)" "abook m' = abook ?m" "\<forall>t. t_stopped (timers ?m t) \<longrightarrow> t_stopped (timers m' t)"
      "emitted m' = emitted ?m @ [\<lparr>ev_PeerID = p, ev_State = StateEstablished, ev_Error = None, ev_Timestamp = now\<rparr>]"
    using c by auto
  have "FinalizeHandshake env ce now p n = (None, apply_mgr m' ?n)"
    using assms(1,2) m'(1) by (simp add: FinalizeHandshake_def mgr_CancelHandshakeTimeout_def Let_def)
  then show ?thesis using m' assms(1)
    by (auto simp: apply_mgr_def Node_ConnectionState_def mgr_GetState_def mgr_GetSharedKey_def pc_GetSharedKey_def public_state_def public_states_def
        CancelHandshakeTimeout_effect)
qed

lemma FinalizeHandshake_refused:
  assumes "nd_started n" and "connections (nd_conns n) p = Some r" and "\<not> CanTransitionTo (State (objs (nd_conns n) r)) StateEstablished"
  shows "\<exists>n'. FinalizeHandshake env ce now p n = (Some (NMarkEstablished (BadTransition (State (objs (nd_conns n) r)) StateEstablished)), n') \<and>
     mgr_GetState (nd_conns n') p = State (objs (nd_conns n) r) \<and> nd_streams n' = snd (CloseHandshakeStream ce p (nd_streams n))"
  using assms
  by (simp add: FinalizeHandshake_def mgr_CancelHandshakeTimeout_def MarkEstablished_def mark_established_lock_def conn_TransitionTo_def
      TransitionTo_def ValidateTransition_def CancelHandshakeTimeout_effect set_obj_def apply_mgr_def mgr_GetState_def Let_def)

text \<open>The connection after a key was stored for the peer: it exists, in the state that was reported before.\<close>

lemma mgr_SetSharedKey_effect:
  "\<exists>r. connections (mgr_SetSharedKey now p k m) p = Some r \<and> State (objs (mgr_SetSharedKey now p k m) r) = mgr_GetState m p \<and>
     SharedKey (objs (mgr_SetSharedKey now p k m) r) = Some k \<and>
     (\<forall>r'. connections m p = Some r' \<longrightarrow> r = r' \<and> HandshakeTimer (objs (mgr_SetSharedKey now p k m) r) = HandshakeTimer (objs m r))"
  by (cases "connections m p")
    (simp_all add: mgr_SetSharedKey_def getOrCreate_def set_obj_def mgr_GetState_def pc_SetSharedKey_def NewPeerConnection_def)

lemma to_Established: "CanTransitionTo s StateEstablished \<longleftrightarrow> s = StateConnected"
  by (cases s) (simp_all add: CanTransitionTo_def validTransitions_def)

text \<open>Closing streams does not touch the module.\<close>

lemma close_all_module:
  "(\<And>r m. sm_module (snd (f r m)) = sm_module m) \<Longrightarrow> sm_module (snd (close_all f rs (e, m))) = sm_module m"
proof (induction rs arbitrary: e m)
  case (Cons r rs)
  obtain e1 m1 where f: "f r m = (e1, m1)" by fastforce
  then have "sm_module m1 = sm_module m" using Cons.prems [of r m] by simp
  then show ?case using Cons by (simp add: f)
qed simp

lemma close_module [simp]: "sm_module (snd (close_enc ce r m)) = sm_module m" "sm_module (snd (close_unc ce r m)) = sm_module m"
  by (simp_all add: close_enc_def close_unc_def split: prod.splits)

lemma CloseStreams_module: "sm_module (snd (CloseStreams ce cu rs us p m)) = sm_module m"
proof -
  obtain e1 m1 where c1: "close_all (close_enc ce) rs (None, m) = (e1, m1)" by fastforce
  obtain e2 m2 where c2: "close_all (close_unc cu) us (e1, m1\<lparr>sm_streams := (sm_streams m1)(p := None)\<rparr>) = (e2, m2)" by fastforce
  have "sm_module m1 = sm_module m" using close_all_module [of "close_enc ce" rs None m] c1 by simp
  moreover have "sm_module m2 = sm_module m1"
    using close_all_module [of "close_unc cu" us e1 "m1\<lparr>sm_streams := (sm_streams m1)(p := None)\<rparr>"] c2 by simp
  ultimately show ?thesis by (simp add: CloseStreams_def c1 c2)
qed

lemma sm_Shutdown_module: "sm_module (sm_Shutdown ce rs us ks m) = sm_module m"
  by (simp add: sm_Shutdown_def Let_def close_all_module)

lemma length_RemovePeerKey: "length (snd (RemovePeerKeyByEd25519 pr pub s)) = length (snd s)"
  by (auto simp: RemovePeerKeyByEd25519_def RemovePeerKey_def split: prod.splits option.splits sum.splits)

lemma RemovePeerKey_keeps_zeroed: "zeroed (snd s) a \<Longrightarrow> zeroed (snd (RemovePeerKeyByEd25519 pr pub s)) a"
  by (auto simp: RemovePeerKeyByEd25519_def RemovePeerKey_def SecureZero_keeps_zeroed split: prod.splits option.splits sum.splits)

lemma RemovePeerKey_zeroes:
  assumes "pub \<noteq> []" and "Ed25519PublicToX25519 pr pub = Inr u" and "peerKeys (fst s) u = Some kc" and "kc < length (snd s)"
  shows "zeroed (snd (RemovePeerKeyByEd25519 pr pub s)) kc \<and> peerKeys (fst (RemovePeerKeyByEd25519 pr pub s)) u = None"
  using assms by (auto simp: RemovePeerKeyByEd25519_def RemovePeerKey_def SecureZero_zeroed split: prod.splits)

text \<open>What a disconnection leaves of the streams and keys of a peer.\<close>

definition cached_for :: "('ma, 'txt) nenv \<Rightarrow> peer_id \<Rightarrow> ('ma, 'txt, 'st, 'l, 'm, 'cb) node \<Rightarrow> bytes \<Rightarrow> nat \<Rightarrow> bool" where
  "cached_for env p n u kc \<longleftrightarrow>
     (\<exists>entry. peers (book n) (ne_ids env p) = Some entry \<and> PublicKey entry \<noteq> [] \<and> Ed25519PublicToX25519 (ne_prims env) (PublicKey entry) = Inr u) \<and>
     peerKeys (sm_module (nd_streams n)) u = Some kc \<and> kc < length (sm_mem (nd_streams n))"

lemma cleanup_effect:
  assumes "\<And>name r. GetStream (nd_streams n) p name = Some r \<Longrightarrow> r \<in> set (co_rs co)"
    and "sm_keys (nd_streams n) p = Some ka" and "ka < length (sm_mem (nd_streams n))"
  shows "nd_conns (cleanupPeerResources env co p n) = nd_conns n" "nd_dispatch (cleanupPeerResources env co p n) = nd_dispatch n"
    "sm_streams (nd_streams (cleanupPeerResources env co p n)) p = None" "sm_allowed (nd_streams (cleanupPeerResources env co p n)) p = None"
    "sm_keys (nd_streams (cleanupPeerResources env co p n)) p = None" "zeroed (sm_mem (nd_streams (cleanupPeerResources env co p n))) ka"
    "\<And>u kc. cached_for env p n u kc \<Longrightarrow> zeroed (sm_mem (nd_streams (cleanupPeerResources env co p n))) kc \<and>
       peerKeys (sm_module (nd_streams (cleanupPeerResources env co p n))) u = None"
proof -
  obtain e m where c: "CloseStreams (co_enc co) (co_unc co) (co_rs co) (co_us co) p (nd_streams n) = (e, m)" by fastforce
  note x = CloseStreams_effect [OF c assms]
  have md: "sm_module m = sm_module (nd_streams n)" using CloseStreams_module [of "co_enc co" "co_unc co" "co_rs co" "co_us co" p "nd_streams n"] c by simp
  have len: "length (sm_mem m) = length (sm_mem (nd_streams n))" using x(9) .
  let ?n1 = "n\<lparr>nd_streams := m\<rparr>"
  have bk: "book ?n1 = book n" by (simp add: book_def)
  have eq: "cleanupPeerResources env co p n =
      (case GetPeer (ne_ids env) p (book n) of Inl e \<Rightarrow> ?n1
       | Inr entry \<Rightarrow> set_crypto (RemovePeerKeyByEd25519 (ne_prims env) (PublicKey entry) (crypto ?n1)) ?n1)"
    by (simp add: cleanupPeerResources_def c bk Let_def)
  show "nd_conns (cleanupPeerResources env co p n) = nd_conns n" "nd_dispatch (cleanupPeerResources env co p n) = nd_dispatch n"
    by (simp_all add: eq split: sum.splits)
  show "sm_streams (nd_streams (cleanupPeerResources env co p n)) p = None" "sm_allowed (nd_streams (cleanupPeerResources env co p n)) p = None"
    "sm_keys (nd_streams (cleanupPeerResources env co p n)) p = None" using x(1,3,4) by (simp_all add: eq split: sum.splits)
  show "zeroed (sm_mem (nd_streams (cleanupPeerResources env co p n))) ka"
    using x(5) RemovePeerKey_keeps_zeroed [of "crypto ?n1" ka] by (auto simp: eq crypto_def split: sum.splits)
  show "zeroed (sm_mem (nd_streams (cleanupPeerResources env co p n))) kc \<and> peerKeys (sm_module (nd_streams (cleanupPeerResources env co p n))) u = None"
    if ca: "cached_for env p n u kc" for u kc
  proof -
    obtain entry where en: "peers (book n) (ne_ids env p) = Some entry" "PublicKey entry \<noteq> []"
        "Ed25519PublicToX25519 (ne_prims env) (PublicKey entry) = Inr u" using ca by (auto simp: cached_for_def)
    have "peerKeys (fst (crypto ?n1)) u = Some kc" "kc < length (snd (crypto ?n1))" using ca md len by (simp_all add: cached_for_def crypto_def)
    from RemovePeerKey_zeroes [OF en(2,3) this] show ?thesis using en(1,2) by (simp add: eq GetPeer_def PeerEntry_Clone_def)
  qed
qed

lemma apply_mgr_same [simp]: "apply_mgr (nd_conns n) n = n"
  by (simp add: apply_mgr_def)

lemma DisconnectCtx_abook: "abook (snd (DisconnectCtx env c now p m)) = abook m"
  by (auto simp: DisconnectCtx_def disconnect_lock_def delete_reconnecting_def cancel_rs_def conn_Cleanup_def Cleanup_def cancel_timer_ctx_def
      stop_timer_def set_obj_def Let_def split: option.splits)

lemma DisconnectCtx_effect:
  assumes "connections m p = Some r"
  shows "\<exists>m'. DisconnectCtx env Background now p m = (None, m') \<and> mgr_GetState m' p = StateDisconnected \<and> mgr_GetSharedKey m' p = None"
  using disconnect_lock_effect [OF assms] assms
  by (auto simp: DisconnectCtx_def Let_def mgr_GetState_def mgr_GetSharedKey_def pc_GetSharedKey_def)

text \<open>The memory when the node stops: streams are closed and keys zeroed, first the streams', then the module's.\<close>

lemma sm_Shutdown_mem:
  "length (sm_mem (sm_Shutdown ce rs us ks m)) = length (sm_mem m)"
  "a \<in> set ks \<Longrightarrow> a < length (sm_mem m) \<Longrightarrow> zeroed (sm_mem (sm_Shutdown ce rs us ks m)) a"
proof -
  let ?m0 = "m\<lparr>sm_cancelled := True, encs := (\<lambda>r. (encs m r)\<lparr>es_cancelled := True\<rparr>), uncs := (\<lambda>r. (uncs m r)\<lparr>us_cancelled := True\<rparr>)\<rparr>"
  let ?m1 = "snd (close_all (close_enc ce) rs (None, ?m0))"
  let ?m2 = "snd (close_all (close_unc ce) us (None, ?m1))"
  have "same_maps ?m0 ?m1" "same_maps ?m1 ?m2"
    using close_all_same [of "close_enc ce" ?m0 rs None] close_enc_same close_all_same [of "close_unc ce" ?m1 us None] close_unc_same by blast+
  then have "length (sm_mem ?m2) = length (sm_mem m)" by (simp add: same_maps_def)
  then show "length (sm_mem (sm_Shutdown ce rs us ks m)) = length (sm_mem m)"
    "a \<in> set ks \<Longrightarrow> a < length (sm_mem m) \<Longrightarrow> zeroed (sm_mem (sm_Shutdown ce rs us ks m)) a"
    by (simp_all add: sm_Shutdown_def Let_def fold_SecureZero_zeroed)
qed

lemma Module_Close_zeroes:
  assumes "a \<in> set kas \<union> {ed25519Private (fst s), x25519Private (fst s)}" and "a < length (snd s)"
  shows "zeroed (snd (Module_Close kas s)) a"
  using assms by (auto simp: Module_Close_def fold_SecureZero_zeroed SecureZero_zeroed SecureZero_keeps_zeroed split: prod.splits)

lemma Module_Close_keeps_zeroed: "zeroed (snd s) a \<Longrightarrow> zeroed (snd (Module_Close kas s)) a"
  by (auto simp: Module_Close_def fold_SecureZero_keeps SecureZero_keeps_zeroed split: prod.splits)

section \<open>Properties\<close>

text \<open>
  Property C9: Completing the handshake. After the streams have been prepared, \<^verbatim>\<open>CompleteHandshake\<close> succeeds exactly when the peer's connection was Connected:
  it is then Established, its handshake timer is stopped, the handshake stream is gone, the requested streams are allowed, the key of the
  connection is the key of the streams, and the event was handed to the dispatcher. In any other state the call reports the refused transition
  and the state stays, but the key and the permissions that were prepared stay as well.
\<close>

theorem CompleteHandshake_establishes:
  assumes "PrepareStreams env io now p pub names n = (None, n1)" and "module_ready (crypto n)"
  shows "\<exists>e n2 ka. CompleteHandshake env io ce now p pub names n = (e, n2) \<and>
     get_unenc (nd_streams n2) p HandshakeStreamName = None \<and> list_all (is_allowed (nd_streams n2) p) names \<and> sm_keys (nd_streams n2) p = Some ka \<and>
     (if mgr_GetState (nd_conns n) p = StateConnected
      then e = None \<and> Node_ConnectionState p n2 = PubEstablished \<and> mgr_GetSharedKey (nd_conns n2) p = Some (sm_mem (nd_streams n2) ! ka) \<and>
        (\<forall>r t. connections (nd_conns n) p = Some r \<and> HandshakeTimer (objs (nd_conns n) r) = Some t \<longrightarrow> t_stopped (timers (nd_conns n2) t)) \<and>
        nd_dispatch n2 = disp_offer \<lparr>ev_PeerID = p, ev_State = StateEstablished, ev_Error = None, ev_Timestamp = now\<rparr> (nd_dispatch n)
      else e = Some (NMarkEstablished (BadTransition (mgr_GetState (nd_conns n) p) StateEstablished)) \<and>
        mgr_GetState (nd_conns n2) p = mgr_GetState (nd_conns n) p)"
proof -
  from PrepareStreams_ok [OF assms] obtain ka md h bk hs where
    n1: "n1 = n\<lparr>nd_handlers := hs, nd_streams := installed p names md (h @ [h ! ka]) (length h) (nd_streams n),
             nd_conns := (mgr_SetSharedKey now p (h ! ka) (nd_conns n))\<lparr>abook := bk\<rparr>\<rparr>" and st: "nd_started n" by blast
  obtain r where r: "connections (nd_conns n1) p = Some r" "State (objs (nd_conns n1) r) = mgr_GetState (nd_conns n) p"
      "SharedKey (objs (nd_conns n1) r) = Some (h ! ka)"
      "\<And>r'. connections (nd_conns n) p = Some r' \<Longrightarrow> r = r' \<and> HandshakeTimer (objs (nd_conns n1) r) = HandshakeTimer (objs (nd_conns n) r)"
    using mgr_SetSharedKey_effect [of now p "h ! ka" "nd_conns n"] by (auto simp: n1)
  have st1: "nd_started n1" using st by (simp add: n1)
  have C: "CompleteHandshake env io ce now p pub names n = FinalizeHandshake env ce now p n1"
    using assms(1) by (simp add: CompleteHandshake_def)
  have al: "list_all (is_allowed (nd_streams n1) p) names" "sm_keys (nd_streams n1) p = Some (length h)" "sm_mem (nd_streams n1) ! length h = h ! ka"
    by (simp_all add: n1 installed_def is_allowed_def list_all_iff)
  have ac: "is_allowed (snd (CloseHandshakeStream ce p m)) p = is_allowed m p" for m
    by (simp add: is_allowed_def fun_eq_iff CloseHandshakeStream_effect)
  show ?thesis
  proof (cases "mgr_GetState (nd_conns n) p = StateConnected")
    case True
    from FinalizeHandshake_ok [OF st1 r(1), of env ce now] r(2) True obtain n2 where
      n2: "FinalizeHandshake env ce now p n1 = (None, n2)" "Node_ConnectionState p n2 = PubEstablished"
        "mgr_GetSharedKey (nd_conns n2) p = SharedKey (objs (nd_conns n1) r)"
        "\<forall>t. HandshakeTimer (objs (nd_conns n1) r) = Some t \<longrightarrow> t_stopped (timers (nd_conns n2) t)"
        "nd_streams n2 = snd (CloseHandshakeStream ce p (nd_streams n1))"
        "nd_dispatch n2 = disp_offer \<lparr>ev_PeerID = p, ev_State = StateEstablished, ev_Error = None, ev_Timestamp = now\<rparr> (nd_dispatch n1)" by auto
    have "nd_dispatch n1 = nd_dispatch n" by (simp add: n1)
    then show ?thesis using C n2 r(3,4) al True
      by (intro exI [of _ None] exI [of _ n2] exI [of _ "length h"]) (auto simp: CloseHandshakeStream_effect ac)
  next
    case False
    from FinalizeHandshake_refused [OF st1 r(1), of env ce now] r(2) False
    obtain n2 where "FinalizeHandshake env ce now p n1 = (Some (NMarkEstablished (BadTransition (mgr_GetState (nd_conns n) p) StateEstablished)), n2)"
        "mgr_GetState (nd_conns n2) p = mgr_GetState (nd_conns n) p" "nd_streams n2 = snd (CloseHandshakeStream ce p (nd_streams n1))"
      by (auto simp: to_Established)
    then show ?thesis using C al False
      by (intro exI [of _ "Some (NMarkEstablished (BadTransition (mgr_GetState (nd_conns n) p) StateEstablished))"] exI [of _ n2]
          exI [of _ "length h"]) (auto simp: CloseHandshakeStream_effect ac)
  qed
qed


text \<open>
  Property C18: Blacklisting a known peer. Whatever happens, the peer is blacklisted in memory from then on: the gater refuses its connections in both
  directions, and connecting to it is refused without any effect. If the book was saved, the peer is not active any more; if saving failed, the error
  is returned and the connection is left as it was.
\<close>

theorem Blacklist_shuts_out:
  assumes "peers (book n) (ne_ids env p) \<noteq> None" and "Node_BlacklistPeer env io now p n = (e, n')"
  shows "IsBlacklisted (ne_ids env) (book n') p \<and>
     \<not> outbound_allowed (node_gater env n') p addr addrs \<and> \<not> inbound_allowed (node_gater env n') p addrs \<and>
     (nd_started n' \<longrightarrow> Node_ConnectCtx env Background t0 t1 he p n' = (Some (NConn (PeerIsBlacklisted p)), [], n')) \<and>
     (if e = None then \<not> IsActive (mgr_GetState (nd_conns n') p)
      else mgr_GetState (nd_conns n') p = mgr_GetState (nd_conns n) p)"
proof -
  define x where "x = BlacklistPeer (ne_codec env) (ne_ids env) io now p (abook (nd_conns n))"
  have ban: "IsBlacklisted (ne_ids env) (fst (snd x)) p"
    using assms(1) by (cases "abook (nd_conns n)") (auto simp: x_def BlacklistPeer_def update_entry_def IsBlacklisted_def book_def)
  let ?n1 = "set_book (snd x) n"
  have st1: "mgr_GetState (nd_conns ?n1) p = mgr_GetState (nd_conns n) p" by (simp add: mgr_GetState_def set_book_def split: option.splits)
  have "(e = None \<longrightarrow> \<not> IsActive (mgr_GetState (nd_conns n') p)) \<and> (e \<noteq> None \<longrightarrow> mgr_GetState (nd_conns n') p = mgr_GetState (nd_conns n) p) \<and>
      fst (abook (nd_conns n')) = fst (snd x)"
  proof (cases "fst x = None \<and> IsActive (mgr_GetState (nd_conns ?n1) p)")
    case True
    then obtain r where "connections (nd_conns ?n1) p = Some r" by (auto simp: mgr_GetState_def IsActive_def split: option.splits)
    from DisconnectCtx_effect [OF this, of "node_menv env ?n1" now] obtain m' where
      m': "DisconnectCtx (node_menv env ?n1) Background now p (nd_conns ?n1) = (None, m')" "mgr_GetState m' p = StateDisconnected" by blast
    have "e = None" "n' = apply_mgr m' ?n1"
      using assms(2) True m'(1) by (auto simp: Node_BlacklistPeer_def x_def [symmetric] Let_def split: prod.splits option.splits)
    then show ?thesis using m'(2) DisconnectCtx_abook [of "node_menv env ?n1" Background now p "nd_conns ?n1"]
      by (simp add: apply_mgr_def m'(1) IsActive_def) (simp add: set_book_def)
  next
    case False
    then have "n' = ?n1 \<and> (e = None \<longrightarrow> \<not> IsActive (mgr_GetState (nd_conns ?n1) p))"
      using assms(2) by (cases x) (auto simp: Node_BlacklistPeer_def x_def [symmetric] Let_def split: option.splits)
    then show ?thesis using st1 by (auto simp: set_book_def)
  qed
  note res = this
  then have bk: "IsBlacklisted (ne_ids env) (book n') p" using ban res by (simp add: book_def)
  then have "book_IsBlacklisted (node_menv env n') (nd_conns n') p" by (simp add: book_IsBlacklisted_def node_menv_def book_def)
  then have "ConnectCtx (node_menv env n') Background t0 t1 he p (nd_conns n') = (Some (PeerIsBlacklisted p), [], nd_conns n')"
    by (simp add: ConnectCtx_def connect_lock_def)
  then show ?thesis using bk res
    by (simp add: Node_ConnectCtx_def gater_outbound gater_inbound node_gater_def SetStateChecker_def NewConnectionGater_def)
qed

text \<open>
  Property C17: Stopping the node. On a started node whose host closes without an error, \<^verbatim>\<open>Stop\<close> returns no error and leaves the node stopped, its context cancelled,
  without connections, stream keys or permissions and with a closed cryptography module; the private keys, the keys cached for
  peers and the stream keys are zeroed; afterwards connecting, preparing streams, sending and a second stop are refused and change nothing. If closing
  the host fails, the error is returned before the module is closed: the module stays open and the node counts as started, so that \<^verbatim>\<open>Stop\<close> can be
  called again.
\<close>

theorem Stop_shuts_down:
  assumes "nd_started n" and "ran (sm_keys (nd_streams n)) \<subseteq> set keys" and "ran (peerKeys (sm_module (nd_streams n))) \<subseteq> set peerkeys"
    and "list_all (\<lambda>a. a < length (sm_mem (nd_streams n)))
           (ed25519Private (sm_module (nd_streams n)) # x25519Private (sm_module (nd_streams n)) # keys @ peerkeys)"
  shows "case Node_Stop co conns recs keys peerkeys hostErr n of (e, n') \<Rightarrow>
     (case hostErr of
        None \<Rightarrow> e = None \<and> \<not> nd_started n' \<and> fw_ctx (nd_fw n') \<and> connections (nd_conns n') = Map.empty \<and>
          sm_keys (nd_streams n') = Map.empty \<and> sm_allowed (nd_streams n') = Map.empty \<and> m_closed (sm_module (nd_streams n')) \<and>
          list_all (zeroed (sm_mem (nd_streams n')))
            (ed25519Private (sm_module (nd_streams n)) # x25519Private (sm_module (nd_streams n)) # keys @ peerkeys) \<and>
          Node_ConnectCtx env c t0 t1 he p n' = (Some (NGo (Sentinel ErrNodeNotStarted)), [], n') \<and>
          PrepareStreams env io t0 p pub names n' = (Some (NGo (Sentinel ErrNodeNotStarted)), n') \<and>
          Node_SendCtx env i p name d n' = Some (Some (NGo (Sentinel ErrNodeNotStarted)), n') \<and>
          Node_Stop co' conns' recs' keys' peerkeys' hostErr' n' = (Some (NGo (Sentinel ErrNodeNotStarted)), n')
      | Some x \<Rightarrow> e = Some (NHostClose x) \<and> nd_started n' \<and> sm_module (nd_streams n') = sm_module (nd_streams n))"
proof -
  let ?m = "sm_Shutdown (co_enc co) (co_rs co) (co_us co) keys (nd_streams n)"
  define n1 where "n1 = n\<lparr>nd_fw := (nd_fw n)\<lparr>fw_ctx := True\<rparr>, nd_conns := Shutdown conns recs (nd_conns n), nd_streams := ?m,
     nd_dispatch := (case Dispatcher_Close (nd_dispatch n) of None \<Rightarrow> nd_dispatch n | Some d \<Rightarrow> d)\<rparr>"
  have stop: "Node_Stop co conns recs keys peerkeys hostErr n =
      (case hostErr of Some e \<Rightarrow> (Some (NHostClose e), n1)
       | None \<Rightarrow> (None, (set_crypto (Module_Close peerkeys (crypto n1)) n1)\<lparr>nd_started := False\<rparr>))"
    using assms(1) by (cases hostErr) (simp_all add: Node_Stop_def n1_def Let_def)
  have cr: "crypto n1 = (sm_module (nd_streams n), sm_mem ?m)" by (simp add: n1_def crypto_def sm_Shutdown_module)
  have mod: "m_closed (fst (Module_Close peerkeys (crypto n1)))" by (simp add: Module_Close_def split: prod.splits)
  have z: "zeroed (snd (Module_Close peerkeys (crypto n1))) a"
    if el: "a \<in> set (ed25519Private (sm_module (nd_streams n)) # x25519Private (sm_module (nd_streams n)) # keys @ peerkeys)" for a
  proof -
    have a: "a < length (sm_mem (nd_streams n))" using el assms(4) by (auto simp: list_all_iff)
    then consider "a \<in> set keys" | "a \<in> set peerkeys \<union> {ed25519Private (fst (crypto n1)), x25519Private (fst (crypto n1))}"
      using el cr by auto
    then show ?thesis
    proof cases
      case 1
      then show ?thesis using sm_Shutdown_mem(2) [OF 1 a] cr by (intro Module_Close_keeps_zeroed) simp
    next
      case 2
      then show ?thesis using sm_Shutdown_mem(1) a cr by (intro Module_Close_zeroes) simp_all
    qed
  qed
  show ?thesis
  proof (cases hostErr)
    case None
    then show ?thesis using z mod unfolding stop
      by (simp add: Node_ConnectCtx_def PrepareStreams_def Node_SendCtx_def Node_Stop_def [of co'] list_all_iff)
        (simp add: n1_def Shutdown_def shutdown_lock_def sm_Shutdown_empty)
  next
    case (Some x)
    then show ?thesis using assms(1) unfolding stop by (simp add: n1_def sm_Shutdown_module)
  qed
qed

text \<open>
  The key of a peer that is not in the address book survives its disconnection. \<^verbatim>\<open>Disconnect\<close> is documented to remove the peer's cached key, but
  it looks up the public key in the address book, where \<^verbatim>\<open>PrepareStreams\<close> stores it only for peers that are there: after streams
  were prepared for another peer (one that connected to this node) and the peer was disconnected, the module still caches the shared key,
  unzeroed, and so does the buffer that \<^verbatim>\<open>PrepareStreams\<close> itself obtained.
\<close>

theorem Disconnect_keeps_key_of_unknown_peer:
  assumes "started_node env sk n" and "hash_sizes (ne_prims env)" and "peers (book n) (ne_ids env p) = None"
    and "PrepareStreams env io now p (Some pub) names n = (None, n1)" and "co_rs co = []" and "co_us co = []"
  shows "\<exists>n2 u kc ka. Node_DisconnectCtx env co Background now p n1 = (None, n2) \<and> Ed25519PublicToX25519 (ne_prims env) pub = Inr u \<and>
     peerKeys (sm_module (nd_streams n2)) u = Some kc \<and> sm_keys (nd_streams n1) p = Some ka \<and>
     sm_mem (nd_streams n2) ! kc = sm_mem (nd_streams n1) ! ka \<and> zeroed (sm_mem (nd_streams n2)) ka \<and>
     (\<exists>copy. copy \<noteq> kc \<and> copy \<noteq> ka \<and> copy < length (sm_mem (nd_streams n2)) \<and> sm_mem (nd_streams n2) ! copy = sm_mem (nd_streams n1) ! ka)"
proof -
  obtain md h where md: "NewModule (ne_prims env) (Some 0) [sk] = (Inr md, h)" and c: "crypto n = (md, h)"
    using started_node_fields(1) [OF assms(1)] by blast
  have r: "module_ready (md, h)" using NewModule_ready [OF md assms(2)] .
  from PrepareStreams_ok [OF assms(4)] r c obtain ka0 md' h' hs where d: "Module_DeriveSharedKey (ne_prims env) (Some pub) (md, h) = (Inr ka0, md', h')"
    and n1: "n1 = n\<lparr>nd_handlers := hs, nd_streams := installed p names md' (h' @ [h' ! ka0]) (length h') (nd_streams n),
        nd_conns := (mgr_SetSharedKey now p (h' ! ka0) (nd_conns n))
          \<lparr>abook := snd (UpdatePublicKey (ne_codec env) (ne_ids env) io now p pub (abook (nd_conns n)))\<rparr>\<rparr>" by auto
  obtain u where u: "\<forall>s. Module_DeriveSharedKey (ne_prims env) (Some pub) s = DeriveSharedKeyFromX25519 (ne_prims env) u s" "length u = X25519KeySize"
      "\<not> m_closed md" "Ed25519PublicToX25519 (ne_prims env) pub = Inr u" using Module_derive_ok [OF d] by auto
  have pk: "peerKeys md u = None" using NewModule_effect [OF md assms(2)] by simp
  obtain k z where k: "ka0 = length h + 3" "md' = md\<lparr>peerKeys := (peerKeys md)(u \<mapsto> length h + 2)\<rparr>" "h' = h @ [replicate X25519KeySize 0, z, k, k]"
    using derive_fresh [OF u(3) pk u(2), of h "ne_prims env"] d u(1) r
    by (cases "derived_key (ne_prims env) (h ! x25519Private md) u") (auto simp: module_ready_def)
  have hk: "h' ! ka0 = k" "(h' @ [k]) ! (length h + 2) = k" "(h' @ [k]) ! (length h + 3) = k" "length h' = length h + 4"
    by (simp_all add: k nth_append numeral_eq_Suc)
  have bk: "GetPeer (ne_ids env) p (book n1) = Inl (PeerNotFound p)"
    using assms(3) by (auto simp: n1 book_def UpdatePublicKey_def update_entry_def GetPeer_def split: prod.splits)
  have keys: "sm_keys (nd_streams n1) p = Some (length h')" "sm_mem (nd_streams n1) = h' @ [k]" "sm_module (nd_streams n1) = md'"
    by (simp_all add: n1 installed_def hk(1))
  define m2 where "m2 = snd (CloseStreams (co_enc co) (co_unc co) [] [] p (nd_streams n1))"
  have m2: "sm_mem m2 = SecureZero (length h') (h' @ [k])" "sm_module m2 = md'"
    by (simp_all add: m2_def CloseStreams_def keys)
  have cl: "cleanupPeerResources env co p n1 = n1\<lparr>nd_streams := m2\<rparr>"
    using bk assms(5,6) by (simp add: cleanupPeerResources_def m2_def book_def Let_def)
  obtain rc where "connections (nd_conns n1) p = Some rc" using mgr_SetSharedKey_effect [of now p "h' ! ka0" "nd_conns n"] by (auto simp: n1)
  then obtain m' where m': "DisconnectCtx (node_menv env (n1\<lparr>nd_streams := m2\<rparr>)) Background now p (nd_conns n1) = (None, m')"
    using DisconnectCtx_effect by blast
  have "Node_DisconnectCtx env co Background now p n1 = (None, apply_mgr m' (n1\<lparr>nd_streams := m2\<rparr>))"
    using m' by (simp add: Node_DisconnectCtx_def cl Let_def)
  moreover have "nd_streams (apply_mgr m' (n1\<lparr>nd_streams := m2\<rparr>)) = m2" by (simp add: apply_mgr_def)
  moreover have "peerKeys (sm_module m2) u = Some (length h + 2)" by (simp add: m2 k)
  moreover have "zeroed (sm_mem m2) (length h')" by (simp add: m2 SecureZero_zeroed)
  moreover have "sm_mem m2 ! (length h + 2) = k" "sm_mem m2 ! (length h + 3) = k" "length (sm_mem m2) = length h + 5"
    using hk(2-4) by (simp_all add: m2)
  moreover have "sm_mem (nd_streams n1) ! length h' = k" by (simp add: keys)
  ultimately show ?thesis using u(4) keys(1) hk(4)
    by (intro exI [of _ "apply_mgr m' (n1\<lparr>nd_streams := m2\<rparr>)"] exI [of _ u] exI [of _ "length h + 2"] exI [of _ "length h'"] conjI
        exI [of _ "length h + 3"]) simp_all
qed

text \<open>
  The name of the handshake stream is not reserved. \<^verbatim>\<open>PrepareStreams\<close> accepts it like any other name and then replaces the handler of the
  handshake protocol: an incoming handshake stream of a peer that is not connected is no longer registered, it is reset and
  the peer's connection stays as it was.
\<close>

theorem handshake_name_disables_handshakes:
  assumes "PrepareStreams env io now p pub names n = (None, n1)" and "module_ready (crypto n)" and "HandshakeStreamName \<in> set names"
    and "sm_allowed (nd_streams n) q = None" and "q \<noteq> p"
  shows "incoming env now' (StreamProtocolID HandshakeStreamName) q raw n1 = (False, n1)"
proof -
  from PrepareStreams_ok [OF assms(1,2)] obtain md h ka cm where
    n1: "n1 = n\<lparr>nd_handlers := register_handlers names (nd_handlers n),
           nd_streams := installed p names md (h @ [h ! ka]) (length h) (nd_streams n), nd_conns := cm\<rparr>" by blast
  then have "nd_handlers n1 (StreamProtocolID HandshakeStreamName) = Some (StreamHandler HandshakeStreamName)"
    using assms(3) by (simp add: register_handlers_named)
  moreover have "\<not> is_allowed (nd_streams n1) q HandshakeStreamName" using assms(4,5) by (simp add: n1 installed_def is_allowed_def)
  ultimately show ?thesis by (simp add: incoming_def HandleIncomingStream_def)
qed

section \<open>Concrete inputs\<close>

definition toy_order :: close_order where
  "toy_order = \<lparr>co_enc = (\<lambda>_. None), co_unc = (\<lambda>_. None), co_rs = [], co_us = []\<rparr>"

text \<open>A toy node whose one connection is in the given state, with the stream \<open>chat\<close> prepared for it.\<close>

lemma toy_connected:
  "\<exists>n0 n1 :: toy_node. crypto (n0\<lparr>nd_conns := toy_mgr st\<rparr>) = crypto n0 \<and> started_node toy_nenv (toy_seckey 3) n0 \<and>
     module_ready (crypto (n0\<lparr>nd_conns := toy_mgr st\<rparr>)) \<and>
     PrepareStreams toy_nenv no_faults 0 ''p'' (Some (drop 32 (toy_seckey 5))) [''chat''] (n0\<lparr>nd_conns := toy_mgr st\<rparr>) = (None, n1)"
proof -
  have s: "3 + 5 \<noteq> (0 :: byte)" by simp
  obtain n0 :: toy_node where n0: "started_node toy_nenv (toy_seckey 3) n0" "MaxStreamNameLength (nd_config n0) = 64" using toy_started by blast
  let ?n = "n0\<lparr>nd_conns := toy_mgr st\<rparr>"
  have c: "crypto ?n = crypto n0" by (simp add: crypto_def)
  have "nd_started ?n" "MaxStreamNameLength (nd_config ?n) = 64" using started_node_fields(9) [OF n0(1)] n0(2) by simp_all
  with toy_prepares(1) [OF s n0(1) c] toy_chat_names obtain n1 where
    "PrepareStreams toy_nenv no_faults 0 ''p'' (Some (drop 32 (toy_seckey 5))) [''chat''] ?n = (None, n1)" by blast
  then show ?thesis using toy_derives(1) [OF s n0(1)] c n0(1) by auto
qed

theorem CompleteHandshake_establishes_witness:
  "\<exists>n n2 :: toy_node. mgr_GetState (nd_conns n) ''p'' = StateConnected \<and>
     CompleteHandshake toy_nenv no_faults (\<lambda>_. None) 0 ''p'' (Some (drop 32 (toy_seckey 5))) [''chat''] n = (None, n2) \<and>
     Node_ConnectionState ''p'' n2 = PubEstablished"
proof -
  obtain n0 n1 :: toy_node where n: "module_ready (crypto (n0\<lparr>nd_conns := toy_mgr StateConnected\<rparr>))"
      "PrepareStreams toy_nenv no_faults 0 ''p'' (Some (drop 32 (toy_seckey 5))) [''chat''] (n0\<lparr>nd_conns := toy_mgr StateConnected\<rparr>) = (None, n1)"
    using toy_connected by blast
  have "mgr_GetState (nd_conns (n0\<lparr>nd_conns := toy_mgr StateConnected\<rparr>)) ''p'' = StateConnected" by (simp add: mgr_GetState_def)
  moreover from this have "\<exists>n2. CompleteHandshake toy_nenv no_faults (\<lambda>_. None) 0 ''p'' (Some (drop 32 (toy_seckey 5))) [''chat'']
      (n0\<lparr>nd_conns := toy_mgr StateConnected\<rparr>) = (None, n2) \<and> Node_ConnectionState ''p'' n2 = PubEstablished"
    using CompleteHandshake_establishes [OF n(2,1), of "\<lambda>_. None"] by auto
  ultimately show ?thesis by blast
qed

theorem Blacklist_shuts_out_witness:
  "\<exists>n n' :: toy_node. IsActive (mgr_GetState (nd_conns n) ''p'') \<and> Node_BlacklistPeer toy_nenv no_faults 7 ''p'' n = (None, n') \<and>
     \<not> IsActive (mgr_GetState (nd_conns n') ''p'') \<and> \<not> inbound_allowed (node_gater toy_nenv n') ''p'' ()"
proof -
  obtain n0 :: toy_node where "started_node toy_nenv (toy_seckey 3) n0" using toy_started by blast
  let ?n = "n0\<lparr>nd_conns := toy_mgr StateEstablished\<rparr>"
  have p: "peers (book ?n) (ne_ids toy_nenv ''p'') \<noteq> None" by (simp add: book_def toy_mgr_def NewManager_def toy_nenv_def)
  have a: "IsActive (mgr_GetState (nd_conns ?n) ''p'')" by (simp add: mgr_GetState_def IsActive_def)
  have "fst (BlacklistPeer toy_codec (\<lambda>p. p) no_faults 7 ''p'' (abook (toy_mgr StateEstablished))) = None"
    by (simp add: toy_mgr_def NewManager_def toy_book_def toy_entry_def BlacklistPeer_def update_entry_def saveLocked_def storage_save_def
        storage_save_ops_def acquireFileLock_def save_ops_def toy_codec_def no_faults_def)
  then have "fst (Node_BlacklistPeer toy_nenv no_faults 7 ''p'' ?n) = None"
    by (auto simp: Node_BlacklistPeer_def toy_nenv_def Let_def split: prod.splits option.splits)
  then obtain n' where n': "Node_BlacklistPeer toy_nenv no_faults 7 ''p'' ?n = (None, n')" by (metis prod.collapse)
  from Blacklist_shuts_out [OF p n', of "()" "()"] a n' show ?thesis by fastforce
qed


theorem Stop_shuts_down_witness:
  "\<exists>n n2 :: toy_node. started_node toy_nenv (toy_seckey 3) n \<and> Node_Stop toy_order [] [] [] [] None n = (None, n2) \<and> \<not> nd_started n2 \<and>
     zeroed (sm_mem (nd_streams n2)) 0"
proof -
  obtain n :: toy_node where n: "started_node toy_nenv (toy_seckey 3) n" using toy_started by blast
  obtain md h where md: "NewModule toy_prims (Some 0) [toy_seckey 3] = (Inr md, h)" "crypto n = (md, h)"
    using started_node_fields(1) [OF n] by auto
  note e = NewModule_effect [OF md(1) toy_sizes]
  have "ran (sm_keys (nd_streams n)) \<subseteq> set []" "ran (peerKeys (sm_module (nd_streams n))) \<subseteq> set []"
    "list_all (\<lambda>a. a < length (sm_mem (nd_streams n))) (ed25519Private (sm_module (nd_streams n)) # x25519Private (sm_module (nd_streams n)) # [] @ [])"
    using started_node_fields(2) [OF n] md(2) e by (auto simp: crypto_def)
  from Stop_shuts_down [OF started_node_fields(9) [OF n] this, where co = toy_order and conns = "[]" and recs = "[]" and hostErr = None]
  have "case Node_Stop toy_order [] [] [] [] None n of (e, n') \<Rightarrow> e = None \<and> \<not> nd_started n' \<and> zeroed (sm_mem (nd_streams n')) 0"
    using md(2) e by (auto simp: crypto_def)
  then show ?thesis using n by (metis (mono_tags, lifting) case_prodE)
qed

theorem Disconnect_keeps_key_of_unknown_peer_witness:
  "\<exists>n n1 n2 :: toy_node. PrepareStreams toy_nenv no_faults 0 ''x'' (Some (drop 32 (toy_seckey 5))) [''chat''] n = (None, n1) \<and>
     Node_DisconnectCtx toy_nenv toy_order Background 0 ''x'' n1 = (None, n2) \<and> (\<exists>u kc. peerKeys (sm_module (nd_streams n2)) u = Some kc)"
proof -
  have s: "3 + 5 \<noteq> (0 :: byte)" by simp
  obtain n :: toy_node where n: "started_node toy_nenv (toy_seckey 3) n" "MaxStreamNameLength (nd_config n) = 64"
      "book n = \<lparr>storage_path = ''book'', peers = Map.empty, dirty = False, flushStopped = False\<rparr>" using toy_started by blast
  obtain n1 where n1: "PrepareStreams toy_nenv no_faults 0 ''x'' (Some (drop 32 (toy_seckey 5))) [''chat''] n = (None, n1)"
    using toy_prepares(1) [OF s n(1) refl started_node_fields(9) [OF n(1)] toy_chat_names [OF n(2)]] by blast
  have "hash_sizes (ne_prims toy_nenv)" "peers (book n) (ne_ids toy_nenv ''x'') = None" using toy_sizes n(3) by simp_all
  from Disconnect_keeps_key_of_unknown_peer [OF n(1) this n1, of toy_order]
  have "\<exists>n2. Node_DisconnectCtx toy_nenv toy_order Background 0 ''x'' n1 = (None, n2) \<and> (\<exists>u kc. peerKeys (sm_module (nd_streams n2)) u = Some kc)"
    by (simp add: toy_order_def) blast
  then show ?thesis using n1 by blast
qed

theorem handshake_name_disables_handshakes_witness:
  "\<exists>n n1 :: toy_node. PrepareStreams toy_nenv no_faults 0 ''B'' (Some (drop 32 (toy_seckey 5))) [HandshakeStreamName] n = (None, n1) \<and>
     incoming toy_nenv 1 (StreamProtocolID HandshakeStreamName) ''C'' \<lparr>frames = [], raw_closed = False\<rparr> n1 = (False, n1)"
proof -
  have s: "3 + 5 \<noteq> (0 :: byte)" by simp
  obtain n :: toy_node where n: "started_node toy_nenv (toy_seckey 3) n" "MaxStreamNameLength (nd_config n) = 64" using toy_started by blast
  have "ValidateStreamNames (ne_tables toy_nenv) [HandshakeStreamName] (MaxStreamNameLength (nd_config n)) = None"
    using n(2) by (simp add: ValidateStreamNames_def ValidateStreamName_def runes_of_def string_bytes_def DecodeRune.simps isValidStreamNameChar_def
        rune_class_defs HandshakeStreamName_def)
  from toy_prepares(1) [OF s n(1) refl started_node_fields(9) [OF n(1)] this] obtain n1 where
    n1: "PrepareStreams toy_nenv no_faults 0 ''B'' (Some (drop 32 (toy_seckey 5))) [HandshakeStreamName] n = (None, n1)" by blast
  have "HandshakeStreamName \<in> set [HandshakeStreamName]" "sm_allowed (nd_streams n) ''C'' = None" "''C'' \<noteq> ''B''"
    using started_node_fields(4) [OF n(1)] by simp_all
  from handshake_name_disables_handshakes [OF n1 toy_derives(1) [OF s n(1)] this] show ?thesis using n1 by blast
qed

end
