(* ===== verification/ConnGoroutines.thy ===== *)
theory ConnGoroutines
  imports ConnManager
begin

text \<open>
  The connection manager's goroutines (\<^verbatim>\<open>src/pkg/connection/manager.go\<close>): calls from the application, the
  callbacks of handshake timers, reconnection loops and cooldown waits run concurrently and
  interleave between critical sections.
\<close>

section \<open>Goroutines\<close>

text \<open>
  A goroutine is the list of the actions it still has to do; an action is one critical section, one
  event or one call of an interface, and may put further actions in front of the rest and start
  new goroutines. The actions follow the methods above.
\<close>

datatype 'ma act =
    AConnect ctx peer_id
  | AEmit peer_id ConnectionState "conn_err option"
  | ADial peer_id nat "'ma list"
  | AConnectedLock peer_id nat
  | ALastSeen peer_id
  | AConnectFailure peer_id conn_err
  | AStartReconnection peer_id
  | AStartReconnectionLock peer_id
  | AGo goroutine
  | ALoop peer_id nat
  | ALoopWait peer_id nat
  | ALoopCheck peer_id nat
  | AAttempt peer_id nat
  | AReconnected peer_id
  | ALoopDone peer_id
  | AExhausted peer_id
  | ACancelled peer_id
  | ATimer nat
  | ATimeout peer_id
  | ACancelHandshake nat
  | AHostDisconnect peer_id
  | ACooldownWait peer_id
  | ADisconnect ctx peer_id
  | ADisconnectCheck ctx peer_id nat
  | ACleanup nat
  | ADisconnected nat
  | AOnDisconnect peer_id "conn_err option"
  | AMarkEstablished peer_id
  | ASetSharedKey peer_id bytes
  | AStoreKey nat bytes
  | ARegisterIncoming peer_id
  | ACancelReconnection peer_id
  | ACancelHandshakeTimeout peer_id
  | AAutoConnect peer_id
  | AShutdown
  | AShutdownLock
  | ABook "'ma book_call" \<comment> \<open>another part of the program uses the address book\<close>

text \<open>What an action reads from outside: the time, the dial's error, which select case is taken.\<close>

record inp =
  i_now :: time_ns
  i_dial :: "string option"
  i_done :: bool
  i_conns :: "nat list" \<comment> \<open>the order in which \<^verbatim>\<open>Shutdown\<close> visits the connections\<close>
  i_recs :: "nat list" \<comment> \<open>and the reconnections\<close>

fun go_acts :: "goroutine \<Rightarrow> 'ma act list" where
  "go_acts (GoLoop p k) = [ALoop p k]"
| "go_acts (GoCooldown p) = [ACooldownWait p]"
| "go_acts (GoConnect p) = [AConnect Background p]"

fun exec_act :: "('ma, 'txt) codec \<Rightarrow> menv \<Rightarrow> inp \<Rightarrow> 'ma act \<Rightarrow> ('ma, 'txt, 'st) manager \<Rightarrow>
    ('ma, 'txt, 'st) manager \<times> 'ma act list \<times> goroutine list" where
  "exec_act cd env i (AConnect c p) m =
     (if ctx_Done c 0 then (m, [], [])
      else case connect_lock env (i_now i) p m of
        (Inl e, m1) \<Rightarrow> (m1, [], [])
      | (Inr (r, addrs), m1) \<Rightarrow> (m1, [AEmit p StateConnecting None, ADial p r addrs], []))"
| "exec_act cd env i (AEmit p st err) m = (emitEvent env (i_now i) p st err m, [], [])"
| "exec_act cd env i (ADial p r addrs) m =
     (host_call (HostConnect p addrs) m,
      case i_dial i of
        Some he \<Rightarrow> [AConnectFailure p (HostError he), AEmit p StateDisconnected (Some (HostError he)),
                    AStartReconnection p]
      | None \<Rightarrow> [AConnectedLock p r], [])"
| "exec_act cd env i (AConnectedLock p r) m =
     (case connected_lock (i_now i) r m of
        (Some e, m1) \<Rightarrow> (m1, [], [])
      | (None, m1) \<Rightarrow> (m1, [AEmit p StateConnected None, ALastSeen p], []))"
| "exec_act cd env i (ALastSeen p) m = (update_last_seen env (i_now i) p m, [], [])"
| "exec_act cd env i (AConnectFailure p err) m = (connect_failure_lock (i_now i) p err m, [], [])"
| "exec_act cd env i (AStartReconnection p) m =
     (m, if book_IsBlacklisted env m p then [] else [AStartReconnectionLock p], [])"
| "exec_act cd env i (AStartReconnectionLock p) m =
     (case start_reconnection_lock (i_now i) p m of
        (None, m1) \<Rightarrow> (m1, [], [])
      | (Some k, m1) \<Rightarrow> (m1, [AEmit p StateReconnecting None, AGo (GoLoop p k)], []))"
| "exec_act cd env i (AGo g) m = (m, [], [g])"
| "exec_act cd env i (ALoop p k) m =
     (if \<not> loop_continues env k m then
        (m, [AExhausted p, AEmit p StateDisconnected (Some MaxAttemptsReached)], [])
      else (schedule_rs env (i_now i) k m, [ALoopWait p k], []))"
| "exec_act cd env i (ALoopWait p k) m =
     (m, if i_done i \<and> (rs_cancelled (rstates m k) \<or> mctx_done m) then [] else [ALoopCheck p k], [])"
| "exec_act cd env i (ALoopCheck p k) m =
     (m, if book_IsBlacklisted env m p then [ACancelled p, AEmit p StateDisconnected None]
         else [AAttempt p k], [])"
| "exec_act cd env i (AAttempt p k) m =
     (case GetPeer (e_ids env) p (fst (abook m)) of
        Inl e \<Rightarrow> (m, [ALoop p k], [])
      | Inr entry \<Rightarrow>
          (host_call (HostConnect p (Multiaddrs entry)) m,
           case i_dial i of
             Some he \<Rightarrow> [ALoop p k]
           | None \<Rightarrow> [AReconnected p, AEmit p StateConnected None, ALastSeen p, ALoopDone p], []))"
| "exec_act cd env i (AReconnected p) m = (reconnected_lock (i_now i) p m, [], [])"
| "exec_act cd env i (ALoopDone p) m = (delete_reconnecting p m, [], [])"
| "exec_act cd env i (AExhausted p) m = (exhausted_lock (i_now i) p m, [], [])"
| "exec_act cd env i (ACancelled p) m = (cancelled_lock (i_now i) p m, [], [])"
| "exec_act cd env i (ATimer n) m =
     (m, if t_cancelled (timers m n) \<or> mctx_done m then []
         else [ATimeout (pc_PeerID (objs m (t_conn (timers m n))))], [])"
| "exec_act cd env i (ATimeout p) m =
     (case timeout_lock env (i_now i) p m of
        (None, m1) \<Rightarrow> (m1, [], [])
      | (Some r, m1) \<Rightarrow>
          (m1, [ACancelHandshake r, AHostDisconnect p, AEmit p StateCooldown (Some HandshakeTimedOut),
                AGo (GoCooldown p)], []))"
| "exec_act cd env i (ACancelHandshake r) m = (conn_CancelHandshakeTimeout r m, [], [])"
| "exec_act cd env i (AHostDisconnect p) m = (host_call (HostDisconnect p) m, [], [])"
| "exec_act cd env i (ACooldownWait p) m =
     (if i_done i \<and> mctx_done m then (m, [], [])
      else case cooldown_expired_lock (i_now i) p m of
        (False, m1) \<Rightarrow> (m1, [], [])
      | (True, m1) \<Rightarrow> (m1, [AEmit p StateDisconnected None, AStartReconnection p], []))"
| "exec_act cd env i (ADisconnect c p) m =
     (if ctx_Done c 0 then (m, [], [])
      else case disconnect_lock p m of
        (Inl e, m1) \<Rightarrow> (m1, [], [])
      | (Inr r, m1) \<Rightarrow> (m1, [ADisconnectCheck c p r], []))"
| "exec_act cd env i (ADisconnectCheck c p r) m =
     (m, if ctx_Done c 1 then []
         else [ACleanup r, AHostDisconnect p, ADisconnected r, AEmit p StateDisconnected None], [])"
| "exec_act cd env i (ACleanup r) m = (conn_Cleanup r m, [], [])"
| "exec_act cd env i (ADisconnected r) m = (snd (conn_TransitionTo (i_now i) StateDisconnected r m), [], [])"
| "exec_act cd env i (AOnDisconnect p err) m =
     (case on_disconnect_lock (i_now i) p err m of
        (False, m1) \<Rightarrow> (m1, [], [])
      | (True, m1) \<Rightarrow> (m1, [AEmit p StateDisconnected err, AStartReconnection p], []))"
| "exec_act cd env i (AMarkEstablished p) m =
     (case mark_established_lock (i_now i) p m of
        (Some e, m1) \<Rightarrow> (m1, [], [])
      | (None, m1) \<Rightarrow> (m1, [AEmit p StateEstablished None], []))"
| "exec_act cd env i (ASetSharedKey p key) m =
     (case getOrCreate (i_now i) p m of (r, m1) \<Rightarrow> (m1, [AStoreKey r key], []))"
| "exec_act cd env i (AStoreKey r key) m = (set_obj r (pc_SetSharedKey key (objs m r)) m, [], [])"
| "exec_act cd env i (ARegisterIncoming p) m =
     (case register_incoming_lock (i_now i) p m of
        (shouldEmit, m1) \<Rightarrow> (m1, if shouldEmit then [AEmit p StateConnected None] else [], []))"
| "exec_act cd env i (ACancelReconnection p) m = (snd (CancelReconnection (i_now i) p m), [], [])"
| "exec_act cd env i (ACancelHandshakeTimeout p) m = (snd (mgr_CancelHandshakeTimeout p m), [], [])"
| "exec_act cd env i (AAutoConnect p) m = (m, [], AutoConnect p m)"
| "exec_act cd env i AShutdown m = (m\<lparr>mctx_done := True\<rparr>, [AShutdownLock], [])"
| "exec_act cd env i AShutdownLock m = (shutdown_lock (i_conns i) (i_recs i) m, [], [])"
| "exec_act cd env i (ABook c) m =
     (m\<lparr>abook := snd (book_exec cd (e_ids env) c (abook m))\<rparr>, [], [])"

text \<open>The actions with which a call from outside starts.\<close>

fun is_call :: "'ma act \<Rightarrow> bool" where
  "is_call (AConnect c p) = True"
| "is_call (ADisconnect c p) = True"
| "is_call (AOnDisconnect p err) = True"
| "is_call (AMarkEstablished p) = True"
| "is_call (ASetSharedKey p key) = True"
| "is_call (ARegisterIncoming p) = True"
| "is_call (ACancelReconnection p) = True"
| "is_call (ACancelHandshakeTimeout p) = True"
| "is_call (AAutoConnect p) = True"
| "is_call AShutdown = True"
| "is_call (ABook c) = True"
| "is_call a = False"

record ('ma, 'txt, 'st) msys =
  mgr :: "('ma, 'txt, 'st) manager"
  threads :: "'ma act list list"

datatype 'ma mlabel = LCall "'ma act" | LTimer nat | LRun nat inp

text \<open>
  A step: a call starts a goroutine, a handshake timer that has not been stopped fires, or a
  goroutine does its next action.
\<close>

definition visits_all :: "inp \<Rightarrow> ('ma, 'txt, 'st) manager \<Rightarrow> bool" where
  "visits_all i m \<longleftrightarrow> set (i_conns i) = ran (connections m) \<and> set (i_recs i) = ran (reconnecting m)"

inductive mstep :: "('ma, 'txt) codec \<Rightarrow> menv \<Rightarrow> ('ma, 'txt, 'st) msys \<Rightarrow> 'ma mlabel \<Rightarrow> ('ma, 'txt, 'st) msys \<Rightarrow> bool"
  for cd env where
  mstep_call: "is_call a \<Longrightarrow> mstep cd env s (LCall a) (s\<lparr>threads := threads s @ [[a]]\<rparr>)"
| mstep_timer: "n < ntimers (mgr s) \<Longrightarrow> \<not> t_stopped (timers (mgr s) n) \<Longrightarrow> \<not> t_fired (timers (mgr s) n) \<Longrightarrow>
     mstep cd env s (LTimer n)
       \<lparr>mgr = (mgr s)\<lparr>timers := (timers (mgr s))(n := (timers (mgr s) n)\<lparr>t_fired := True\<rparr>)\<rparr>,
        threads = threads s @ [[ATimer n]]\<rparr>"
| mstep_run: "j < length (threads s) \<Longrightarrow> threads s ! j = a # rest \<Longrightarrow>
     (a = AShutdownLock \<longrightarrow> visits_all i (mgr s)) \<Longrightarrow>
     exec_act cd env i a (mgr s) = (m', nxt, gs) \<Longrightarrow>
     mstep cd env s (LRun j i)
       \<lparr>mgr = m', threads = (threads s)[j := nxt @ rest] @ map go_acts gs\<rparr>"

inductive_cases mstepE: "mstep cd env s l s'"


section \<open>Every action evolves the connections\<close>

text \<open>The states into which an action may bring an existing connection.\<close>

fun act_targets :: "'ma act \<Rightarrow> ConnectionState set" where
  "act_targets (AConnect c p) = {StateConnecting}"
| "act_targets (AConnectedLock p r) = {StateConnected}"
| "act_targets (AConnectFailure p e) = {StateDisconnected}"
| "act_targets (AStartReconnectionLock p) = {StateReconnecting}"
| "act_targets (AReconnected p) = {StateConnected}"
| "act_targets (AExhausted p) = {StateDisconnected}"
| "act_targets (ACancelled p) = {StateDisconnected}"
| "act_targets (ATimeout p) = {StateCooldown}"
| "act_targets (ACooldownWait p) = {StateDisconnected}"
| "act_targets (ADisconnected r) = {StateDisconnected}"
| "act_targets (AOnDisconnect p e) = {StateDisconnected}"
| "act_targets (AMarkEstablished p) = {StateEstablished}"
| "act_targets (ARegisterIncoming p) = {StateConnected}"
| "act_targets (ACancelReconnection p) = {StateDisconnected}"
| "act_targets a = {}"

lemma exec_act_evolves: "evolves (act_targets a) m (fst (exec_act cd env i a m))"
proof (cases a)
  case (AConnect c p)
  then show ?thesis using connect_lock_evolves [of m env "i_now i" p]
    by (auto simp: quiet_evolves split: prod.splits sum.splits)
next
  case (AConnectedLock p r)
  then show ?thesis using connected_lock_evolves [of m "i_now i" r]
    by (auto split: prod.splits option.splits)
next
  case (AStartReconnectionLock p)
  then show ?thesis using start_reconnection_lock_evolves [of m "i_now i" p]
    by (auto split: prod.splits option.splits)
next
  case (ATimeout p)
  then show ?thesis using timeout_lock_evolves [of m env "i_now i" p]
    by (auto split: prod.splits option.splits)
next
  case (ACooldownWait p)
  then show ?thesis using cooldown_expired_lock_evolves [of m "i_now i" p]
    by (auto simp: quiet_evolves split: prod.splits bool.splits)
next
  case (ADisconnect c p)
  then show ?thesis using quiet_evolves [OF disconnect_lock_quiet, of "{}" m p]
    by (auto simp: quiet_evolves split: prod.splits sum.splits)
next
  case (AOnDisconnect p err)
  then show ?thesis using on_disconnect_lock_evolves [of m "i_now i" p err]
    by (auto split: prod.splits bool.splits)
next
  case (AMarkEstablished p)
  then show ?thesis using mark_established_lock_evolves [of m "i_now i" p]
    by (auto split: prod.splits option.splits)
next
  case (ASetSharedKey p key)
  then show ?thesis using getOrCreate_evolves [of "i_now i" p m _ _ "{}"] by (auto split: prod.splits)
next
  case (AStoreKey r key)
  then show ?thesis by (auto intro!: quiet_evolves set_obj_quiet simp: pc_SetSharedKey_def)
next
  case (ARegisterIncoming p)
  then show ?thesis using register_incoming_lock_evolves [of m "i_now i" p] by (auto split: prod.splits)
next
  case (ACancelHandshakeTimeout p)
  then show ?thesis by (auto simp: mgr_CancelHandshakeTimeout_def quiet_evolves split: option.splits)
next
  case (ABook c)
  then show ?thesis by (simp add: evolves_def)
next
  case AShutdown
  then show ?thesis by (simp add: evolves_def)
qed (auto simp: quiet_evolves section_evolves conn_TransitionTo_evolves split: sum.splits)

lemma mstep_evolves:
  assumes "mstep cd env s l s'"
  shows "\<exists>T. evolves T (mgr s) (mgr s')"
  using assms
proof (cases rule: mstep.cases)
  case (mstep_run j a rest i m' nxt gs)
  then show ?thesis using exec_act_evolves [of a "mgr s" cd env i] by (metis fst_conv msys.select_convs(1))
qed (auto simp: evolves_def)

section \<open>The invariant of the manager\<close>

text \<open>
  References are valid and belong to the right peer, the timer a connection holds was set up for that
  connection, and no reconnection makes more attempts than the limit.
\<close>

definition conns_wf :: "('ma, 'txt, 'st) manager \<Rightarrow> bool" where
  "conns_wf m \<longleftrightarrow> (\<forall>p r. connections m p = Some r \<longrightarrow> r < nobjs m \<and> pc_PeerID (objs m r) = p)"

definition timers_wf :: "('ma, 'txt, 'st) manager \<Rightarrow> bool" where
  "timers_wf m \<longleftrightarrow>
     (\<forall>n < ntimers m. t_conn (timers m n) < nobjs m) \<and>
     (\<forall>r < nobjs m. \<forall>n. HandshakeTimer (objs m r) = Some n \<or> HandshakeCancel (objs m r) = Some n \<longrightarrow>
        n < ntimers m \<and> t_conn (timers m n) = r)"

definition rstates_wf :: "menv \<Rightarrow> ('ma, 'txt, 'st) manager \<Rightarrow> bool" where
  "rstates_wf env m \<longleftrightarrow>
     (\<forall>p k. reconnecting m p = Some k \<longrightarrow> k < nrs m) \<and>
     (\<forall>k < nrs m. 0 \<le> Attempts (rstates m k) \<and>
        (0 < mc_ReconnectMaxAttempts (e_cfg env) \<longrightarrow>
           Attempts (rstates m k) \<le> mc_ReconnectMaxAttempts (e_cfg env)))"

definition mgr_wf :: "menv \<Rightarrow> ('ma, 'txt, 'st) manager \<Rightarrow> bool" where
  "mgr_wf env m \<longleftrightarrow> conns_wf m \<and> timers_wf m \<and> rstates_wf env m"

lemmas mgr_wf_defs = mgr_wf_def conns_wf_def timers_wf_def rstates_wf_def

lemma mgr_wf_conn: "mgr_wf env m \<Longrightarrow> connections m p = Some r \<Longrightarrow> r < nobjs m \<and> pc_PeerID (objs m r) = p"
  by (simp add: mgr_wf_defs)

lemma NewManager_wf: "mgr_wf env (NewManager b)"
  by (simp add: mgr_wf_defs NewManager_def)

text \<open>Updates of one object that keep its peer and set no new timer.\<close>

lemma set_obj_wf [inv_intros]:
  "mgr_wf env m \<Longrightarrow> pc_PeerID pc = pc_PeerID (objs m r) \<Longrightarrow>
   HandshakeTimer pc \<in> {None, HandshakeTimer (objs m r)} \<Longrightarrow>
   HandshakeCancel pc \<in> {None, HandshakeCancel (objs m r)} \<Longrightarrow> mgr_wf env (set_obj r pc m)"
  by (auto simp: mgr_wf_defs set_obj_def)

lemma stop_timer_wf [inv_intros]: "mgr_wf env m \<Longrightarrow> mgr_wf env (stop_timer t m)"
  by (auto simp: mgr_wf_defs stop_timer_def split: option.splits)

lemma cancel_timer_ctx_wf [inv_intros]: "mgr_wf env m \<Longrightarrow> mgr_wf env (cancel_timer_ctx t m)"
  by (auto simp: mgr_wf_defs cancel_timer_ctx_def split: option.splits)

lemma conn_TransitionTo_wf [inv_intros]: "mgr_wf env m \<Longrightarrow> mgr_wf env (snd (conn_TransitionTo now t r m))"
  using set_obj_wf [of env m "(objs m r)\<lparr>State := t, LastStateChange := now\<rparr>" r]
  by (simp add: conn_TransitionTo_cases set_obj_def)

lemma conn_CancelHandshakeTimeout_wf [inv_intros]:
  "mgr_wf env m \<Longrightarrow> mgr_wf env (conn_CancelHandshakeTimeout r m)"
  by (auto simp: conn_CancelHandshakeTimeout_def pc_CancelHandshakeTimeout_def intro!: inv_intros)

lemma conn_Cleanup_wf [inv_intros]: "mgr_wf env m \<Longrightarrow> mgr_wf env (conn_Cleanup r m)"
  by (auto simp: conn_Cleanup_def Cleanup_def intro!: inv_intros)

lemma conn_SetError_wf [inv_intros]: "mgr_wf env m \<Longrightarrow> mgr_wf env (conn_SetError e r m)"
  by (auto simp: conn_SetError_def SetError_def intro!: inv_intros)

lemma setupHandshakeTimeout_wf [inv_intros]:
  "mgr_wf env m \<Longrightarrow> r < nobjs m \<Longrightarrow> mgr_wf env (setupHandshakeTimeout r m)"
  by (auto simp: mgr_wf_defs setupHandshakeTimeout_def set_obj_def Let_def less_Suc_eq)

lemma getOrCreate_wf:
  "mgr_wf env m \<Longrightarrow> getOrCreate now p m = (r, m1) \<Longrightarrow> mgr_wf env m1 \<and> r < nobjs m1"
  by (fastforce simp: mgr_wf_defs getOrCreate_def NewPeerConnection_def less_Suc_eq
      split: option.splits if_splits)

lemma cancel_rs_wf [inv_intros]: "mgr_wf env m \<Longrightarrow> mgr_wf env (cancel_rs k m)"
  by (auto simp: mgr_wf_defs cancel_rs_def)

lemma delete_reconnecting_wf [inv_intros]: "mgr_wf env m \<Longrightarrow> mgr_wf env (delete_reconnecting p m)"
  by (auto simp: mgr_wf_defs delete_reconnecting_def)

lemma emitEvent_wf [inv_intros]: "mgr_wf env m \<Longrightarrow> mgr_wf env (emitEvent env' now p st e m)"
  by (auto simp: mgr_wf_defs emitEvent_def)

lemma host_call_wf [inv_intros]: "mgr_wf env m \<Longrightarrow> mgr_wf env (host_call c m)"
  by (auto simp: mgr_wf_defs host_call_def)

lemma update_last_seen_wf [inv_intros]: "mgr_wf env m \<Longrightarrow> mgr_wf env (update_last_seen env' now p m)"
  by (auto simp: mgr_wf_defs update_last_seen_def)

lemma schedule_rs_wf [inv_intros]:
  "mgr_wf env m \<Longrightarrow> loop_continues env k m \<Longrightarrow> mgr_wf env (schedule_rs env now k m)"
  by (auto simp: mgr_wf_defs schedule_rs_def loop_continues_def ShouldRetry_def ScheduleNext_def Let_def
      split: if_splits)

lemma fold_wf: "(\<And>x m. mgr_wf env m \<Longrightarrow> mgr_wf env (f x m)) \<Longrightarrow> mgr_wf env m \<Longrightarrow> mgr_wf env (fold f xs m)"
  by (induction xs arbitrary: m) simp_all

lemma nobjs_simps [simp]:
  "nobjs (snd (conn_TransitionTo now t r m)) = nobjs m" "nobjs (set_obj r pc m) = nobjs m"
  "nobjs (conn_SetError e r m) = nobjs m" "nobjs (delete_reconnecting p m) = nobjs m"
  by (simp_all add: conn_TransitionTo_cases set_obj_def conn_SetError_def delete_reconnecting_def)

lemma delete_reconnecting_conns [simp]: "connections (delete_reconnecting p m) = connections m"
  by (simp add: delete_reconnecting_def)

section \<open>The critical sections keep the invariant\<close>

lemma connect_lock_wf:
  assumes "mgr_wf env m" and "connect_lock env now p m = (x, m1)"
  shows "mgr_wf env m1 \<and> (\<forall>r as. x = Inr (r, as) \<longrightarrow> r < nobjs m1)"
proof -
  obtain r0 m0 where gc: "getOrCreate now p m = (r0, m0)" by fastforce
  have wf: "mgr_wf env m0" "r0 < nobjs m0" using getOrCreate_wf [OF assms(1) gc] by simp_all
  let ?m = "set_obj r0 (SetIsOutbound True (objs m0 r0)) m0"
  have "mgr_wf env ?m" using wf(1) by (auto simp: SetIsOutbound_def intro!: inv_intros)
  moreover obtain e m2 where tr: "conn_TransitionTo now StateConnecting r0 ?m = (e, m2)" by fastforce
  ultimately have "mgr_wf env m2" "r0 < nobjs m2"
    using wf(2) conn_TransitionTo_wf [of env ?m now StateConnecting r0] nobjs_simps(1) [of now StateConnecting r0 ?m]
    by simp_all
  then show ?thesis using assms gc tr
    by (auto simp: connect_lock_def Let_def split: if_splits option.splits sum.splits prod.splits)
qed

lemma connected_lock_wf:
  assumes "mgr_wf env m" and "r < nobjs m" and "connected_lock now r m = (e, m1)"
  shows "mgr_wf env m1"
  using assms conn_TransitionTo_wf [OF assms(1), of now StateConnected r]
  by (auto simp: connected_lock_def conn_TransitionTo_cases intro!: setupHandshakeTimeout_wf
      split: if_splits)

lemma new_reconnection_wf:
  "mgr_wf env m \<Longrightarrow>
   mgr_wf env (m\<lparr>rstates := (rstates m)(nrs m := NewReconnectState), nrs := Suc (nrs m),
                reconnecting := (reconnecting m)(p \<mapsto> nrs m)\<rparr>)"
  by (auto simp: mgr_wf_defs NewReconnectState_def less_Suc_eq split: if_splits)

lemma start_reconnection_lock_wf:
  assumes "mgr_wf env m" and "start_reconnection_lock now p m = (x, m1)"
  shows "mgr_wf env m1 \<and> (\<forall>k. x = Some k \<longrightarrow> k < nrs m1)"
proof (cases "reconnecting m p = None \<and> connections m p \<noteq> None")
  case True
  then obtain r where r: "connections m p = Some r" by blast
  let ?m1 = "m\<lparr>rstates := (rstates m)(nrs m := NewReconnectState), nrs := Suc (nrs m),
               reconnecting := (reconnecting m)(p \<mapsto> nrs m)\<rparr>"
  let ?m2 = "set_obj r ((objs ?m1 r)\<lparr>pc_ReconnectState := Some (nrs m)\<rparr>) ?m1"
  have "mgr_wf env ?m2" by (intro set_obj_wf new_reconnection_wf [OF assms(1)]) simp_all
  then have "mgr_wf env (snd (conn_TransitionTo now StateReconnecting r ?m2))" by (rule inv_intros)
  moreover have "x = Some (nrs m)" "m1 = snd (conn_TransitionTo now StateReconnecting r ?m2)"
    using assms(2) True r by (auto simp: start_reconnection_lock_def Let_def)
  ultimately show ?thesis by (simp add: conn_TransitionTo_cases set_obj_def)
next
  case False
  then show ?thesis using assms by (auto simp: start_reconnection_lock_def split: option.splits if_splits)
qed

lemma reconnected_lock_wf: "mgr_wf env m \<Longrightarrow> mgr_wf env (reconnected_lock now p m)"
  by (auto simp: reconnected_lock_def dest: mgr_wf_conn intro!: inv_intros split: option.splits)

lemma timeout_lock_wf:
  assumes "mgr_wf env m" and "timeout_lock env now p m = (x, m1)"
  shows "mgr_wf env m1 \<and> (\<forall>r. x = Some r \<longrightarrow> r < nobjs m1)"
  using assms mgr_wf_conn [OF assms(1), of p]
  by (auto simp: timeout_lock_def StartCooldown_def ValidateTransition_def intro!: inv_intros
      split: option.splits if_splits)

lemma register_incoming_lock_wf:
  assumes "mgr_wf env m" and "register_incoming_lock now p m = (x, m1)"
  shows "mgr_wf env m1"
proof -
  obtain r0 m0 where gc: "getOrCreate now p m = (r0, m0)" by fastforce
  have wf: "mgr_wf env m0" "r0 < nobjs m0" using getOrCreate_wf [OF assms(1) gc] by simp_all
  then have "mgr_wf env (set_obj r0 (SetIsOutbound False (objs m0 r0)) m0)"
    by (auto simp: SetIsOutbound_def intro!: inv_intros)
  then show ?thesis using assms gc wf(2)
    by (auto simp: register_incoming_lock_def Let_def intro!: inv_intros split: if_splits)
qed

lemma other_locks_wf [inv_intros]:
  "mgr_wf env m \<Longrightarrow> mgr_wf env (connect_failure_lock now p e m)"
  "mgr_wf env m \<Longrightarrow> mgr_wf env (exhausted_lock now p m)"
  "mgr_wf env m \<Longrightarrow> mgr_wf env (cancelled_lock now p m)"
  "mgr_wf env m \<Longrightarrow> mgr_wf env (snd (cooldown_expired_lock now p m))"
  "mgr_wf env m \<Longrightarrow> mgr_wf env (snd (disconnect_lock p m))"
  "mgr_wf env m \<Longrightarrow> mgr_wf env (snd (on_disconnect_lock now p e' m))"
  "mgr_wf env m \<Longrightarrow> mgr_wf env (snd (mark_established_lock now p m))"
  "mgr_wf env m \<Longrightarrow> mgr_wf env (snd (CancelReconnection now p m))"
  "mgr_wf env m \<Longrightarrow> mgr_wf env (snd (mgr_CancelHandshakeTimeout p m))"
  by (auto simp: connect_failure_lock_def exhausted_lock_def cancelled_lock_def cooldown_expired_lock_def
      disconnect_lock_def on_disconnect_lock_def mark_established_lock_def CancelReconnection_def
      mgr_CancelHandshakeTimeout_def Let_def intro!: inv_intros split: option.splits)

lemma shutdown_lock_wf [inv_intros]: "mgr_wf env m \<Longrightarrow> mgr_wf env (shutdown_lock rs ks m)"
proof -
  assume "mgr_wf env m"
  then have "mgr_wf env (fold cancel_rs ks (fold conn_Cleanup rs m))"
    by (intro fold_wf) (auto intro: inv_intros)
  then show ?thesis by (simp add: shutdown_lock_def mgr_wf_defs)
qed

section \<open>Every interleaving keeps the invariant\<close>

fun act_ok :: "('ma, 'txt, 'st) manager \<Rightarrow> 'ma act \<Rightarrow> bool" where
  "act_ok m (ADial p r as) = (r < nobjs m)"
| "act_ok m (AConnectedLock p r) = (r < nobjs m)"
| "act_ok m (ACancelHandshake r) = (r < nobjs m)"
| "act_ok m (ADisconnectCheck c p r) = (r < nobjs m)"
| "act_ok m (ACleanup r) = (r < nobjs m)"
| "act_ok m (ADisconnected r) = (r < nobjs m)"
| "act_ok m (AStoreKey r key) = (r < nobjs m)"
| "act_ok m (AGo (GoLoop p k)) = (k < nrs m)"
| "act_ok m (ALoop p k) = (k < nrs m)"
| "act_ok m (ALoopWait p k) = (k < nrs m)"
| "act_ok m (ALoopCheck p k) = (k < nrs m)"
| "act_ok m (AAttempt p k) = (k < nrs m)"
| "act_ok m (ATimer n) = (n < ntimers m)"
| "act_ok m a = True"

lemma act_ok_mono: "evolves T m m' \<Longrightarrow> act_ok m a \<Longrightarrow> act_ok m' a"
  by (cases "(m, a)" rule: act_ok.cases) (auto simp: evolves_def)

lemma exec_act_wf:
  assumes "mgr_wf env m" and "act_ok m a" and "exec_act cd env i a m = (m', nxt, gs)"
  shows "mgr_wf env m' \<and> (\<forall>b \<in> set nxt. act_ok m' b) \<and> (\<forall>g \<in> set gs. \<forall>b \<in> set (go_acts g). act_ok m' b)"
proof (cases a)
  case (AConnect c p)
  then show ?thesis using assms connect_lock_wf [OF assms(1), of "i_now i" p]
    by (auto split: prod.splits sum.splits if_splits)
next
  case (AConnectedLock p r)
  then show ?thesis using assms connected_lock_wf [OF assms(1), of r "i_now i"]
    by (auto split: prod.splits option.splits)
next
  case (AStartReconnectionLock p)
  then show ?thesis using assms start_reconnection_lock_wf [OF assms(1), of "i_now i" p]
    by (auto split: prod.splits option.splits)
next
  case (AGo g)
  then show ?thesis using assms by (cases g) auto
next
  case (ATimeout p)
  then show ?thesis using assms timeout_lock_wf [OF assms(1), of "i_now i" p]
    by (auto split: prod.splits option.splits)
next
  case (ACooldownWait p)
  then show ?thesis using assms other_locks_wf(4) [OF assms(1), of "i_now i" p]
    by (auto split: prod.splits bool.splits if_splits)
next
  case (ADisconnect c p)
  then show ?thesis using assms other_locks_wf(5) [OF assms(1), of p] mgr_wf_conn [OF assms(1), of p]
    by (auto simp: disconnect_lock_def cancel_rs_def split: prod.splits sum.splits option.splits if_splits)
next
  case (AOnDisconnect p err)
  then show ?thesis using assms other_locks_wf(6) [OF assms(1), of "i_now i" p err]
    by (auto split: prod.splits bool.splits)
next
  case (AMarkEstablished p)
  then show ?thesis using assms other_locks_wf(7) [OF assms(1), of "i_now i" p]
    by (auto split: prod.splits option.splits)
next
  case (ASetSharedKey p key)
  then show ?thesis using assms getOrCreate_wf [OF assms(1), of "i_now i" p] by (auto split: prod.splits)
next
  case (AStoreKey r key)
  then show ?thesis using assms by (auto simp: pc_SetSharedKey_def intro!: inv_intros)
next
  case (ARegisterIncoming p)
  then show ?thesis using assms register_incoming_lock_wf [OF assms(1), of "i_now i" p]
    by (auto split: prod.splits if_splits)
next
  case (AAutoConnect p)
  then show ?thesis using assms by (auto simp: AutoConnect_def split: if_splits)
next
  case (ABook c)
  then show ?thesis using assms by (auto simp: mgr_wf_defs)
next
  case AShutdown
  then show ?thesis using assms by (auto simp: mgr_wf_defs)
next
  case (AAttempt p k)
  then show ?thesis using assms host_call_wf [OF assms(1)]
    by (auto simp: host_call_def split: sum.splits option.splits)
next
  case (ADial p r as)
  then show ?thesis using assms host_call_wf [OF assms(1)]
    by (auto simp: host_call_def split: option.splits)
next
  case (ALoop p k)
  then show ?thesis using assms by (auto simp: schedule_rs_def [THEN arg_cong [of _ _ nrs]] intro: inv_intros split: if_splits)
qed (use assms in \<open>auto intro: inv_intros reconnected_lock_wf split: if_splits\<close>)

definition sys_inv :: "menv \<Rightarrow> ('ma, 'txt, 'st) msys \<Rightarrow> bool" where
  "sys_inv env s \<longleftrightarrow> mgr_wf env (mgr s) \<and> (\<forall>t \<in> set (threads s). \<forall>a \<in> set t. act_ok (mgr s) a)"

definition sys_init :: "('ma, 'txt, 'st) msys \<Rightarrow> bool" where
  "sys_init s \<longleftrightarrow> (\<exists>b. mgr s = NewManager b) \<and> threads s = []"

lemma is_call_ok: "is_call a \<Longrightarrow> act_ok m a"
  by (cases a) auto

lemma sys_inv_step:
  assumes "sys_inv env s" and "mstep cd env s l s'"
  shows "sys_inv env s'"
  using assms(2)
proof (cases rule: mstep.cases)
  case (mstep_call a)
  then show ?thesis using assms(1) by (auto simp: sys_inv_def is_call_ok)
next
  case (mstep_timer n)
  have ev: "evolves {} (mgr s) (mgr s')" using mstep_timer by (auto simp: evolves_def)
  then show ?thesis using assms(1) mstep_timer act_ok_mono [OF ev]
    by (auto simp: sys_inv_def mgr_wf_defs)
next
  case (mstep_run j a rest i m' nxt gs)
  have t: "a # rest \<in> set (threads s)" using mstep_run by (metis nth_mem)
  then have ok: "act_ok (mgr s) a" "\<forall>b \<in> set rest. act_ok (mgr s) b" and wf: "mgr_wf env (mgr s)"
    using assms(1) by (auto simp: sys_inv_def)
  note ex = exec_act_wf [OF wf ok(1) mstep_run(6)]
  have ev: "evolves (act_targets a) (mgr s) m'"
    using exec_act_evolves [of a "mgr s" cd env i] mstep_run(6) by simp
  have "set (threads s') \<subseteq> set (threads s) \<union> {nxt @ rest} \<union> go_acts ` set gs"
    using mstep_run(2) set_update_subset_insert [of "threads s" j "nxt @ rest"] by auto
  then have "\<forall>b \<in> set t. act_ok m' b" if "t \<in> set (threads s')" for t
    using that ex ok(2) act_ok_mono [OF ev] assms(1) by (fastforce simp: sys_inv_def)
  then show ?thesis using ex mstep_run(2) by (auto simp: sys_inv_def)
qed

lemma sys_inv_init: "sys_init s \<Longrightarrow> sys_inv env s"
  by (auto simp: sys_init_def sys_inv_def NewManager_wf)

interpretation msys: invariant_system sys_init "mstep cd env" "sys_inv env"
  by unfold_locales (auto intro: sys_inv_init sys_inv_step)

lemma state_move_rtrancl: "state_move a b \<Longrightarrow> CanTransitionTo\<^sup>*\<^sup>* a b"
  unfolding state_move_def
  by (metis CanTransitionTo_Connected CanTransitionTo_Connecting converse_rtranclp_into_rtranclp
      rtranclp.rtrancl_refl r_into_rtranclp)

lemma evolves_rtrancl:
  "evolves T m m' \<Longrightarrow> r < nobjs m \<Longrightarrow>
     CanTransitionTo\<^sup>*\<^sup>* (State (objs m r)) (State (objs m' r)) \<and> pc_PeerID (objs m' r) = pc_PeerID (objs m r) \<and>
     r < nobjs m'"
  by (auto simp: evolves_def intro: state_move_rtrancl)

lemma runs_rtrancl:
  assumes "runs (mstep cd env) s ls s'" and "r < nobjs (mgr s)"
  shows "CanTransitionTo\<^sup>*\<^sup>* (State (objs (mgr s) r)) (State (objs (mgr s') r)) \<and>
     pc_PeerID (objs (mgr s') r) = pc_PeerID (objs (mgr s) r) \<and> r < nobjs (mgr s')"
  using assms
proof (induction rule: runs.induct)
  case (runs_snoc s ls s' l s'')
  then obtain T where "evolves T (mgr s') (mgr s'')" using mstep_evolves by blast
  then show ?case using runs_snoc evolves_rtrancl [of T "mgr s'" "mgr s''" r]
    by (metis rtranclp_trans)
qed simp

section \<open>Properties\<close>

text \<open>
  Property C5: No interleaving breaks the state machine. In every interleaving of calls, timer callbacks,
  reconnection loops and cooldown waits, each step changes the state of an existing connection
  only along the transition table (an incoming connection makes the two transitions to Connecting and Connected
  under one lock), a connection never changes its peer, and between any two moments of a run the
  states are joined by valid transitions.
\<close>

theorem interleavings_follow_table:
  assumes "runs (mstep cd env) s ls s'" and "mstep cd env s' l s''" and "r < nobjs (mgr s)"
  shows "state_move (State (objs (mgr s') r)) (State (objs (mgr s'') r)) \<and>
         CanTransitionTo\<^sup>*\<^sup>* (State (objs (mgr s) r)) (State (objs (mgr s'') r)) \<and>
         pc_PeerID (objs (mgr s'') r) = pc_PeerID (objs (mgr s) r)"
proof -
  have r: "r < nobjs (mgr s')" using runs_rtrancl [OF assms(1,3)] by simp
  obtain T where T: "evolves T (mgr s') (mgr s'')" using mstep_evolves [OF assms(2)] by blast
  have "runs (mstep cd env) s (ls @ [l]) s''" using runs_snoc [OF assms(1,2)] .
  then show ?thesis using T r runs_rtrancl [of cd env s "ls @ [l]" s'' r] assms(3)
    by (auto simp: evolves_def)
qed

text \<open>
  Property C6: The manager's invariant. In every interleaving from a new manager, each peer's connection is an allocated
  object of that very peer (so two peers never share one), the handshake timer a connection
  holds was set up for that connection, recorded reconnections exist, and no reconnection has
  scheduled more attempts than the configured limit.
\<close>

theorem manager_invariant:
  assumes "sys_init s" and "runs (mstep cd env) s ls s'"
  shows "(connections (mgr s') p = Some r \<longrightarrow> r < nobjs (mgr s') \<and> pc_PeerID (objs (mgr s') r) = p) \<and>
         (connections (mgr s') p = Some r \<and> connections (mgr s') q = Some r \<longrightarrow> p = q) \<and>
         (r < nobjs (mgr s') \<and> HandshakeTimer (objs (mgr s') r) = Some n \<longrightarrow>
            n < ntimers (mgr s') \<and> t_conn (timers (mgr s') n) = r) \<and>
         (reconnecting (mgr s') p = Some k \<longrightarrow> k < nrs (mgr s')) \<and>
         (k < nrs (mgr s') \<and> 0 < mc_ReconnectMaxAttempts (e_cfg env) \<longrightarrow>
            0 \<le> Attempts (rstates (mgr s') k) \<and>
            Attempts (rstates (mgr s') k) \<le> mc_ReconnectMaxAttempts (e_cfg env))"
proof -
  have "sys_inv env s'" by (rule msys.inv_reachable [OF assms])
  then have wf: "mgr_wf env (mgr s')" by (simp add: sys_inv_def)
  then have "connections (mgr s') p = Some r \<and> connections (mgr s') q = Some r \<longrightarrow> p = q"
    using mgr_wf_conn by metis
  with wf show ?thesis by (auto simp: mgr_wf_defs)
qed

text \<open>A system whose only goroutine is about to run \<^verbatim>\<open>MarkEstablished\<close>, and its step.\<close>

definition toy_sys :: "(string, book_doc, unit) msys" where
  "toy_sys = \<lparr>mgr = toy_mgr StateConnected, threads = [[AMarkEstablished ''p'']]\<rparr>"

definition toy_inp :: inp where
  "toy_inp = \<lparr>i_now = 7, i_dial = None, i_done = False, i_conns = [], i_recs = []\<rparr>"

lemma toy_sys_step:
  "\<exists>s'. mstep toy_codec toy_env toy_sys (LRun 0 toy_inp) s' \<and> State (objs (mgr s') 0) = StateEstablished"
proof -
  obtain m' nxt gs where ex: "exec_act toy_codec toy_env toy_inp (AMarkEstablished ''p'') (mgr toy_sys) =
      (m', nxt, gs)" and st: "State (objs m' 0) = StateEstablished"
    by (auto simp: mark_established_lock_def conn_CancelHandshakeTimeout_def pc_CancelHandshakeTimeout_def
        conn_TransitionTo_cases toy_sys_def toy_mgr_def NewPeerConnection_def set_obj_def stop_timer_def
        cancel_timer_ctx_def)
  have "mstep toy_codec toy_env toy_sys (LRun 0 toy_inp)
      \<lparr>mgr = m', threads = (threads toy_sys)[0 := nxt @ []] @ map go_acts gs\<rparr>"
    by (rule mstep_run [OF _ _ _ ex])
      (simp_all add: toy_sys_def)
  then show ?thesis using st by (metis msys.select_convs(1))
qed

theorem interleavings_follow_table_witness:
  "\<exists>s'. mstep toy_codec toy_env toy_sys (LRun 0 toy_inp) s' \<and>
     state_move (State (objs (mgr toy_sys) 0)) (State (objs (mgr s') 0))"
proof -
  obtain s' where step: "mstep toy_codec toy_env toy_sys (LRun 0 toy_inp) s'" using toy_sys_step by blast
  then show ?thesis
    using interleavings_follow_table [OF runs_nil step, of 0] by (auto simp: toy_sys_def)
qed

theorem manager_invariant_witness:
  "\<exists>s'. runs (mstep toy_codec toy_env)
          \<lparr>mgr = NewManager (toy_book, \<lparr>files = Map.empty\<rparr>) :: (string, book_doc, unit) manager, threads = []\<rparr>
          [LCall (ARegisterIncoming ''p''), LRun 0 toy_inp] s' \<and>
        connections (mgr s') ''p'' = Some 0 \<and> pc_PeerID (objs (mgr s') 0) = ''p''"
proof -
  let ?m = "NewManager (toy_book, \<lparr>files = Map.empty\<rparr>) :: (string, book_doc, unit) manager"
  let ?s0 = "\<lparr>mgr = ?m, threads = []\<rparr>"
  let ?s1 = "\<lparr>mgr = ?m, threads = [[ARegisterIncoming ''p'']]\<rparr>"
  obtain m' nxt gs where ex: "exec_act toy_codec toy_env toy_inp (ARegisterIncoming ''p'') (mgr ?s1) = (m', nxt, gs)"
      and c: "connections m' ''p'' = Some 0"
    by (simp add: register_incoming_lock_def getOrCreate_def NewManager_def set_obj_def setupHandshakeTimeout_def
        NewPeerConnection_def SetIsOutbound_def conn_TransitionTo_cases)
  have "mstep toy_codec toy_env ?s0 (LCall (ARegisterIncoming ''p'')) ?s1"
    using mstep_call [of "ARegisterIncoming ''p''" toy_codec toy_env ?s0] by simp
  moreover have "mstep toy_codec toy_env ?s1 (LRun 0 toy_inp)
      \<lparr>mgr = m', threads = (threads ?s1)[0 := nxt @ []] @ map go_acts gs\<rparr>" (is "mstep _ _ _ _ ?s2")
    by (rule mstep_run [OF _ _ _ ex]) simp_all
  ultimately have run: "runs (mstep toy_codec toy_env) ?s0 [LCall (ARegisterIncoming ''p''), LRun 0 toy_inp] ?s2"
    by (auto intro: runs_cons runs_nil)
  have "sys_init ?s0" unfolding sys_init_def by auto
  then show ?thesis using manager_invariant [OF _ run, of "''p''" 0 "''p''" 0 0] run c by auto
qed

text \<open>
  Only the end of the handshake establishes a connection, and only a handshake timeout puts it into
  cooldown. If a step of an interleaving makes an existing connection Established, a goroutine has
  just run \<^verbatim>\<open>MarkEstablished\<close> and the connection was Connected; if it makes it Cooldown, a goroutine
  has just run the timeout handler and the connection was Connected.
\<close>

theorem who_may_establish:
  assumes "mstep cd env s l s'" and "r < nobjs (mgr s)"
    and "State (objs (mgr s) r) \<noteq> State (objs (mgr s') r)"
  shows "\<exists>j i a rest. l = LRun j i \<and> threads s ! j = a # rest \<and>
     (State (objs (mgr s') r) = StateEstablished \<longrightarrow>
        State (objs (mgr s) r) = StateConnected \<and> (\<exists>p. a = AMarkEstablished p)) \<and>
     (State (objs (mgr s') r) = StateCooldown \<longrightarrow>
        State (objs (mgr s) r) = StateConnected \<and> (\<exists>p. a = ATimeout p))"
  using assms(1)
proof (cases rule: mstep.cases)
  case (mstep_run j a rest i m' nxt gs)
  have "evolves (act_targets a) (mgr s) m'"
    using exec_act_evolves [of a "mgr s" cd env i] mstep_run(6) by simp
  then have m: "state_move (State (objs (mgr s) r)) (State (objs m' r))" "State (objs m' r) \<in> act_targets a"
    using assms(2,3) mstep_run(2) by (auto simp: evolves_def)
  then have "State (objs m' r) = StateEstablished \<Longrightarrow> \<exists>p. a = AMarkEstablished p"
    "State (objs m' r) = StateCooldown \<Longrightarrow> \<exists>p. a = ATimeout p" by (cases a; simp)+
  then show ?thesis using m(1) assms(3) mstep_run by (auto simp: state_move_def)
qed (use assms(3) in auto)

theorem who_may_establish_witness:
  "\<exists>s'. mstep toy_codec toy_env toy_sys (LRun 0 toy_inp) s' \<and> State (objs (mgr s') 0) = StateEstablished \<and>
     State (objs (mgr toy_sys) 0) = StateConnected"
proof -
  obtain s' where step: "mstep toy_codec toy_env toy_sys (LRun 0 toy_inp) s'"
      and st: "State (objs (mgr s') 0) = StateEstablished" using toy_sys_step by blast
  then show ?thesis using who_may_establish [OF step, of 0] by (auto simp: toy_sys_def)
qed

end
