(* ===== verification/NodeSystem.thy ===== *)
theory NodeSystem
  imports NodeLifecycle ConnGoroutines
begin

text \<open>
  The running node: calls of the application, streams that arrive, read loops, the forwarding goroutines and the goroutines of the
  connection manager, in any order. The calls of the node are not interrupted; the goroutines and timers of the connection manager
  take their steps in between. The invariant puts those of the components together, and gives what a client of a running node can rely on.
\<close>

section \<open>Calls of the connection manager keep its invariant\<close>

text \<open>The invariant, and that references stay allocated.\<close>

definition mgr_next :: "menv \<Rightarrow> ('ma, 'txt, 'st) manager \<Rightarrow> ('ma, 'txt, 'st) manager \<Rightarrow> bool" where
  "mgr_next env m m' \<longleftrightarrow> mgr_wf env m' \<and> nobjs m \<le> nobjs m' \<and> nrs m \<le> nrs m' \<and> ntimers m \<le> ntimers m'"

lemma mgr_next_refl: "mgr_wf env m \<Longrightarrow> mgr_next env m m"
  by (simp add: mgr_next_def)

lemma mgr_next_ext: "mgr_next env m m' \<Longrightarrow> evolves T m' m'' \<Longrightarrow> (mgr_wf env m' \<Longrightarrow> mgr_wf env m'') \<Longrightarrow> mgr_next env m m''"
  by (auto simp: mgr_next_def evolves_def)

lemma mgr_next_act_ok: "mgr_next env m m' \<Longrightarrow> act_ok m a \<Longrightarrow> act_ok m' a"
  by (cases "(m, a)" rule: act_ok.cases) (auto simp: mgr_next_def)

text \<open>The steps between the critical sections.\<close>

lemma mgr_next_steps [inv_intros]:
  "mgr_next env m m' \<Longrightarrow> mgr_next env m (emitEvent env' now p st e m')"
  "mgr_next env m m' \<Longrightarrow> mgr_next env m (host_call c m')"
  "mgr_next env m m' \<Longrightarrow> mgr_next env m (update_last_seen env' now p m')"
  "mgr_next env m m' \<Longrightarrow> mgr_next env m (conn_Cleanup r m')"
  "mgr_next env m m' \<Longrightarrow> mgr_next env m (snd (conn_TransitionTo now t r m'))"
  "mgr_next env m m' \<Longrightarrow> mgr_next env m (connect_failure_lock now p err m')"
  by (erule mgr_next_ext [OF _ quiet_evolves], simp, erule inv_intros)+
    (erule mgr_next_ext [OF _ conn_TransitionTo_evolves], erule inv_intros,
     erule mgr_next_ext [OF _ connect_failure_lock_evolves], erule inv_intros)

lemma mgr_next_book [simp]: "mgr_next env m (m'\<lparr>abook := b\<rparr>) = mgr_next env m m'"
  by (simp add: mgr_next_def mgr_wf_defs)

definition goroutines_ok :: "('ma, 'txt, 'st) manager \<Rightarrow> goroutine list \<Rightarrow> bool" where
  "goroutines_ok m gs \<longleftrightarrow> (\<forall>g \<in> set gs. \<forall>b \<in> set (go_acts g :: 'ma act list). act_ok m b)"

lemma goroutines_ok_simps [simp]:
  "goroutines_ok m []" "goroutines_ok m [GoConnect p]" "goroutines_ok m [GoLoop p k] = (k < nrs m)"
  "goroutines_ok m (AutoConnect p m')"
  by (simp_all add: goroutines_ok_def AutoConnect_def)

lemma goroutines_ok_append: "goroutines_ok m (concat (map (\<lambda>e. AutoConnect (f e) m') es))"
  by (auto simp: goroutines_ok_def AutoConnect_def split: if_splits)

lemma startReconnection_next:
  assumes "mgr_next env m m1" and "startReconnection env now p m1 = (gs, m2)"
  shows "mgr_next env m m2 \<and> goroutines_ok m2 gs"
proof (cases "book_IsBlacklisted env m1 p")
  case False
  obtain x m3 where l: "start_reconnection_lock now p m1 = (x, m3)" by fastforce
  have wf: "mgr_wf env m1" using assms(1) by (simp add: mgr_next_def)
  have "mgr_next env m m3" using start_reconnection_lock_evolves [of m1 now p] start_reconnection_lock_wf [OF wf l] l
    by (intro mgr_next_ext [OF assms(1)]) simp_all
  then show ?thesis using assms(2) False l start_reconnection_lock_wf [OF wf l]
    by (auto simp: startReconnection_def emitEvent_def split: option.splits intro: inv_intros)
      (metis emitEvent_def mgr_next_steps(1))
qed (use assms in \<open>simp add: startReconnection_def\<close>)

lemma ConnectCtx_next:
  assumes "mgr_wf env m" and "ConnectCtx env c t0 t1 he p m = (e, gs, m')"
  shows "mgr_next env m m' \<and> goroutines_ok m' gs"
proof (cases "ctx_Done c 0")
  case False
  obtain x m1 where l: "connect_lock env t0 p m = (x, m1)" by fastforce
  note wf1 = connect_lock_wf [OF assms(1) l]
  have n1: "mgr_next env m m1" using connect_lock_evolves [of m env t0 p] l wf1
    by (intro mgr_next_ext [OF mgr_next_refl [OF assms(1)]]) simp_all
  show ?thesis
  proof (cases x)
    case (Inl e)
    then show ?thesis using assms False l n1 by (simp add: ConnectCtx_def)
  next
    case (Inr y)
    obtain r addrs where y: "y = (r, addrs)" by fastforce
    define m2 where "m2 = host_call (HostConnect p addrs) (emitEvent env t0 p StateConnecting None m1)"
    have n2: "mgr_next env m m2" and r: "r < nobjs m2" using n1 wf1 Inr y
      by (auto simp: m2_def host_call_def emitEvent_def intro!: inv_intros) (auto simp: mgr_next_def mgr_wf_defs)
    have wf2: "mgr_wf env m2" using n2 by (simp add: mgr_next_def)
    show ?thesis
    proof (cases he)
      case None
      obtain e3 m3 where c: "connected_lock t1 r m2 = (e3, m3)" by fastforce
      have "mgr_next env m m3" using connected_lock_evolves [of m2 t1 r] connected_lock_wf [OF wf2 r c] c
        by (intro mgr_next_ext [OF n2]) simp_all
      then show ?thesis using assms(2) False l Inr y None c
        by (auto simp: ConnectCtx_def m2_def [symmetric] Let_def split: option.splits intro: inv_intros)
    next
      case (Some h)
      let ?m = "emitEvent env t1 p StateDisconnected (Some (HostError h)) (connect_failure_lock t1 p (HostError h) m2)"
      have "mgr_next env m ?m" by (intro inv_intros n2)
      from startReconnection_next [OF this] show ?thesis using assms(2) False l Inr y Some
        by (auto simp: ConnectCtx_def m2_def [symmetric] handleConnectFailure_def Let_def split: prod.splits)
    qed
  qed
qed (use assms in \<open>simp add: ConnectCtx_def mgr_next_refl\<close>)

lemma DisconnectCtx_next:
  assumes "mgr_wf env m"
  shows "mgr_next env m (snd (DisconnectCtx env' c now p m))"
proof -
  obtain x m1 where l: "disconnect_lock p m = (x, m1)" by fastforce
  have "mgr_next env m m1" using quiet_evolves [OF disconnect_lock_quiet, of "{}" m p] other_locks_wf(5) [OF assms, of p] l
    by (intro mgr_next_ext [OF mgr_next_refl [OF assms]]) simp_all
  then show ?thesis using l mgr_next_refl [OF assms]
    by (auto simp: DisconnectCtx_def Let_def split: sum.split intro!: inv_intros)
qed

lemma manager_calls_next:
  assumes "mgr_wf env m"
  shows "mgr_next env m (RegisterIncomingConnection env' now p m)" and "mgr_next env m (mgr_SetSharedKey now p key m)"
    and "mgr_next env m (snd (mgr_CancelHandshakeTimeout p m))" and "mgr_next env m (snd (MarkEstablished env' now p m))"
    and "mgr_next env m (snd (CancelReconnection now p m))" and "mgr_next env m (Shutdown rs ks m)"
proof -
  note ext = mgr_next_ext [OF mgr_next_refl [OF assms]]
  obtain b m1 where l: "register_incoming_lock now p m = (b, m1)" by fastforce
  have "mgr_next env m m1" using register_incoming_lock_evolves [of m now p] register_incoming_lock_wf [OF assms l] l
    by (intro ext) simp_all
  then show "mgr_next env m (RegisterIncomingConnection env' now p m)"
    using l by (auto simp: RegisterIncomingConnection_def intro: inv_intros)
  obtain r m2 where g: "getOrCreate now p m = (r, m2)" by fastforce
  have "mgr_next env m m2" using getOrCreate_wf [OF assms g] by (intro ext [OF getOrCreate_evolves [OF g]]) simp
  then show "mgr_next env m (mgr_SetSharedKey now p key m)"
    using g by (auto simp: mgr_SetSharedKey_def pc_SetSharedKey_def
        intro!: mgr_next_ext [OF _ quiet_evolves [OF set_obj_quiet]] inv_intros)
  show "mgr_next env m (snd (mgr_CancelHandshakeTimeout p m))"
    using other_locks_wf(9) [OF assms, of p]
    by (intro ext [OF quiet_evolves]) (auto simp: mgr_CancelHandshakeTimeout_def split: option.splits)
  obtain e m3 where k: "mark_established_lock now p m = (e, m3)" by fastforce
  have "mgr_next env m m3" using mark_established_lock_evolves [of m now p] other_locks_wf(7) [OF assms, of now p] k
    by (intro ext) simp_all
  then show "mgr_next env m (snd (MarkEstablished env' now p m))"
    using k by (auto simp: MarkEstablished_def split: option.splits intro: inv_intros)
  show "mgr_next env m (snd (CancelReconnection now p m))"
    using CancelReconnection_evolves other_locks_wf(8) [OF assms] by (rule ext)
  have "mgr_wf env (m\<lparr>mctx_done := True\<rparr>)" using assms by (simp add: mgr_wf_defs)
  then have "mgr_wf env (Shutdown rs ks m)" unfolding Shutdown_def by (rule shutdown_lock_wf)
  then show "mgr_next env m (Shutdown rs ks m)"
    using shutdown_lock_evolves [of "m\<lparr>mctx_done := True\<rparr>" rs ks] by (auto simp: mgr_next_def evolves_def Shutdown_def)
qed

section \<open>The system\<close>

text \<open>A call of the application, an arriving stream, or a round of one of the node's own goroutines.\<close>

datatype 'ma node_call =
    DoStart "string list"
  | DoStop close_order "nat list" "nat list" "nat list" "nat list" "string option"
  | DoAddPeer io_faults time_ns peer_id "'ma list" "(string \<times> string) list option"
  | DoRemovePeer io_faults peer_id
  | DoBlacklistPeer io_faults time_ns peer_id
  | DoUnblacklistPeer io_faults time_ns peer_id
  | DoConnect ctx time_ns time_ns "string option" peer_id
  | DoDisconnect close_order ctx time_ns peer_id
  | DoPrepareStreams io_faults time_ns peer_id "bytes option" "string list"
  | DoFinalizeHandshake "nat \<Rightarrow> stream_err option" time_ns peer_id
  | DoCompleteHandshake io_faults "nat \<Rightarrow> stream_err option" time_ns peer_id "bytes option" "string list"
  | DoEstablishStreams io_faults time_ns peer_id "bytes option" "string list"
  | DoCancelReconnection time_ns peer_id
  | DoSend send_in peer_id string bytes
  | DoSubscribe nat
  | DoUnsubscribe nat
  | DoIncoming time_ns string peer_id raw_stream
  | DoRead time_ns "(bool \<times> read_event) list" nat
  | DoReadHandshake time_ns "read_event list" nat
  | DoForwardMessage bool time_ns
  | DoForwardEvent close_order bool
  | DoSubscription nat
  | DoCleanupStats time_ns

definition on_streams :: "(smgr \<Rightarrow> smgr) \<Rightarrow> ('ma, 'txt, 'st, 'l, 'm, 'cb) node \<Rightarrow> ('ma, 'txt, 'st, 'l, 'm, 'cb) node" where
  "on_streams f n = n\<lparr>nd_streams := f (nd_streams n)\<rparr>"

definition on_fw :: "(conn_err fwsys \<Rightarrow> conn_err fwsys option) \<Rightarrow> ('ma, 'txt, 'st, 'l, 'm, 'cb) node \<Rightarrow>
    (goroutine list \<times> ('ma, 'txt, 'st, 'l, 'm, 'cb) node) option" where
  "on_fw f n = map_option (\<lambda>w. ([], n\<lparr>nd_fw := w\<rparr>)) (f (nd_fw n))"

text \<open>The goroutines of the connection manager that a call starts, and the new state; \<open>None\<close> when the call panics or blocks.\<close>

fun node_exec :: "('ma, 'txt) nenv \<Rightarrow> 'ma node_call \<Rightarrow> ('ma, 'txt, 'st, 'l, 'm, 'cb) node \<Rightarrow>
    (goroutine list \<times> ('ma, 'txt, 'st, 'l, 'm, 'cb) node) option" where
  "node_exec env (DoStart ks) n = Some (snd (Node_Start ks n))"
| "node_exec env (DoStop co cs rs ks pks he) n = Some ([], snd (Node_Stop co cs rs ks pks he n))"
| "node_exec env (DoAddPeer io now p as md) n = Some (snd (Node_AddPeer env io now p as md n))"
| "node_exec env (DoRemovePeer io p) n = Some ([], snd (Node_RemovePeer env io p n))"
| "node_exec env (DoBlacklistPeer io now p) n = Some ([], snd (Node_BlacklistPeer env io now p n))"
| "node_exec env (DoUnblacklistPeer io now p) n = Some ([], snd (Node_UnblacklistPeer env io now p n))"
| "node_exec env (DoConnect c t0 t1 he p) n = Some (snd (Node_ConnectCtx env c t0 t1 he p n))"
| "node_exec env (DoDisconnect co c now p) n = Some ([], snd (Node_DisconnectCtx env co c now p n))"
| "node_exec env (DoPrepareStreams io now p pub names) n = Some ([], snd (PrepareStreams env io now p pub names n))"
| "node_exec env (DoFinalizeHandshake ce now p) n = Some ([], snd (FinalizeHandshake env ce now p n))"
| "node_exec env (DoCompleteHandshake io ce now p pub names) n = Some ([], snd (CompleteHandshake env io ce now p pub names n))"
| "node_exec env (DoEstablishStreams io now p pub names) n = Some ([], snd (EstablishEncryptedStreams env io now p pub names n))"
| "node_exec env (DoCancelReconnection now p) n = Some ([], snd (Node_CancelReconnection now p n))"
| "node_exec env (DoSend i p name d) n = map_option (\<lambda>x. ([], snd x)) (Node_SendCtx env i p name d n)"
| "node_exec env (DoSubscribe cap) n = on_fw (\<lambda>w. map_option snd (SubscribeEvents cap w)) n"
| "node_exec env (DoUnsubscribe r) n = on_fw (\<lambda>w. Some (Unsubscribe r w)) n"
| "node_exec env (DoIncoming now proto p raw) n = Some ([], snd (incoming env now proto p raw n))"
| "node_exec env (DoRead now evs r) n = Some ([], on_streams (run_read (ne_prims env) now evs r) n)"
| "node_exec env (DoReadHandshake now evs r) n = Some ([], on_streams (run_read_clear now evs r) n)"
| "node_exec env (DoForwardMessage pick now) n = map_option (\<lambda>x. ([], snd x)) (forwardMessage pick now n)"
| "node_exec env (DoForwardEvent co pick) n = map_option (\<lambda>x. ([], snd x)) (forwardEvent env co pick n)"
| "node_exec env (DoSubscription r) n = on_fw (sub_goroutine r) n"
| "node_exec env (DoCleanupStats now) n = Some ([], cleanupStalePeerStats now n)"

text \<open>
  When a call may happen. No other send is under way on the stream of a send. A forwarding goroutine runs until it has closed its channel.
  As in \<open>Subscriptions\<close>, the event forwarder ends when the node's context is done, and no one subscribes after it has ended.
\<close>

fun node_enabled :: "'ma node_call \<Rightarrow> ('ma, 'txt, 'st, 'l, 'm, 'cb) node \<Rightarrow> bool" where
  "node_enabled (DoSend i p name d) n = list_all (\<lambda>w. w = None) (si_waits i)"
| "node_enabled (DoSubscribe cap) n = (fw_subs (nd_fw n) \<noteq> None)"
| "node_enabled (DoUnsubscribe r) n = (r < fw_next (nd_fw n))"
| "node_enabled (DoForwardMessage pick now) n = (\<not> cclosed (nd_messages n))"
| "node_enabled (DoForwardEvent co pick) n = (fw_subs (nd_fw n) \<noteq> None \<and> (fw_ctx (nd_fw n) \<longrightarrow> pick))"
| "node_enabled (DoSubscription r) n = (r < fw_next (nd_fw n))"
| "node_enabled c n = True"

record ('ma, 'txt, 'st, 'l, 'm, 'cb) nsys =
  ns_node :: "('ma, 'txt, 'st, 'l, 'm, 'cb) node"
  ns_threads :: "'ma act list list"

datatype 'ma nlabel = NCall "'ma node_call" | NManager "'ma mlabel"

text \<open>A call, or a step of a timer or goroutine of the connection manager.\<close>

inductive nstep :: "('ma, 'txt) nenv \<Rightarrow> ('ma, 'txt, 'st, 'l, 'm, 'cb) nsys \<Rightarrow> 'ma nlabel \<Rightarrow> ('ma, 'txt, 'st, 'l, 'm, 'cb) nsys \<Rightarrow> bool"
  for env where
  nstep_call: "node_enabled c (ns_node s) \<Longrightarrow> node_exec env c (ns_node s) = Some (gs, n') \<Longrightarrow>
     nstep env s (NCall c) \<lparr>ns_node = n', ns_threads = ns_threads s @ map go_acts gs\<rparr>"
| nstep_manager: "\<forall>a. l \<noteq> LCall a \<Longrightarrow>
     mstep (ne_codec env) (node_menv env (ns_node s)) \<lparr>mgr = nd_conns (ns_node s), threads = ns_threads s\<rparr> l \<lparr>mgr = m', threads = ts\<rparr> \<Longrightarrow>
     nstep env s (NManager l) \<lparr>ns_node = apply_mgr m' (ns_node s), ns_threads = ts\<rparr>"

inductive_cases nstepE: "nstep env s l s'"

definition node_init :: "('ma, 'txt) nenv \<Rightarrow> ('ma, 'txt, 'st, 'l, 'm, 'cb) nsys \<Rightarrow> bool" where
  "node_init env s \<longleftrightarrow> ns_threads s = [] \<and> (\<exists>io fs cfg l m. Node_New env io None fs cfg l m = Inr (ns_node s))"

section \<open>The invariant\<close>

text \<open>Between calls no message is pending in a flow controller, and no controller is closed.\<close>

definition flow_idle :: "('ma, 'txt, 'st, 'l, 'm, 'cb) node \<Rightarrow> bool" where
  "flow_idle n \<longleftrightarrow> (\<forall>name fc. nd_flow n name = Some fc \<longrightarrow> fc_inv fc \<and> \<not> Controller.closed fc \<and> pending fc = 0)"

definition handlers_ok :: "('ma, 'txt, 'st, 'l, 'm, 'cb) node \<Rightarrow> bool" where
  "handlers_ok n \<longleftrightarrow> (\<forall>proto name. nd_handlers n proto = Some (StreamHandler name) \<longrightarrow> proto = StreamProtocolID name)"

definition smgr_ok :: "smgr \<Rightarrow> bool" where
  "smgr_ok m \<longleftrightarrow> sm_inv True m \<and> only_handshake_clear m"

definition channels_ok :: "('ma, 'txt, 'st, 'l, 'm, 'cb) node \<Rightarrow> bool" where
  "channels_ok n \<longleftrightarrow> fw_inv (nd_fw n) \<and> disp_inv (nd_dispatch n)"

text \<open>What a call must do for the invariant: the parts of the node, the manager, and the configuration, which never changes.\<close>

definition node_next :: "('ma, 'txt) nenv \<Rightarrow> ('ma, 'txt, 'st, 'l, 'm, 'cb) node \<Rightarrow> ('ma, 'txt, 'st, 'l, 'm, 'cb) node \<Rightarrow> bool" where
  "node_next env n n' \<longleftrightarrow>
     nd_config n' = nd_config n \<and> mgr_next (node_menv env n) (nd_conns n) (nd_conns n') \<and>
     smgr_ok (nd_streams n') \<and> flow_idle n' \<and> channels_ok n' \<and> handlers_ok n'"

definition node_ok :: "('ma, 'txt) nenv \<Rightarrow> ('ma, 'txt, 'st, 'l, 'm, 'cb) node \<Rightarrow> bool" where
  "node_ok env n \<longleftrightarrow> mgr_wf (node_menv env n) (nd_conns n) \<and> smgr_ok (nd_streams n) \<and> flow_idle n \<and> channels_ok n \<and> handlers_ok n"

definition node_inv :: "('ma, 'txt) nenv \<Rightarrow> ('ma, 'txt, 'st, 'l, 'm, 'cb) nsys \<Rightarrow> bool" where
  "node_inv env s \<longleftrightarrow> node_ok env (ns_node s) \<and> (\<forall>t \<in> set (ns_threads s). \<forall>a \<in> set t. act_ok (nd_conns (ns_node s)) a)"

lemma node_menv_config: "nd_config n' = nd_config n \<Longrightarrow> node_menv env n' = node_menv env n"
  by (simp add: node_menv_def)

lemma node_next_refl: "node_ok env n \<Longrightarrow> node_next env n n"
  by (simp add: node_ok_def node_next_def mgr_next_refl)

lemma node_next_ok: "node_next env n n' \<Longrightarrow> node_ok env n'"
  using node_menv_config [of n' n env] by (simp add: node_ok_def node_next_def mgr_next_def)

lemma node_next_trans: "node_next env n n1 \<Longrightarrow> node_next env n1 n2 \<Longrightarrow> node_next env n n2"
  using node_menv_config [of n1 n env] by (auto simp: node_next_def mgr_next_def)

lemma node_next_then: "node_next env n n1 \<Longrightarrow> (node_ok env n1 \<Longrightarrow> node_next env n1 n2) \<Longrightarrow> node_next env n n2"
  using node_next_trans node_next_ok by blast

text \<open>The parts of the node one by one.\<close>

lemma smgr_ok_ops [inv_intros]:
  assumes "smgr_ok m"
  shows "smgr_ok (snd (EstablishStreams pr p pub names m))" and "smgr_ok (snd (sm_SendCtx pr nonce w ns c p name d m))"
    and "smgr_ok (snd (HandleIncomingStream p name raw m))" and "smgr_ok (snd (HandleIncomingHandshakeStream p raw m))"
    and "smgr_ok (snd (CloseHandshakeStream ce p m))" and "smgr_ok (snd (CloseStreams ce cu rs us p m))"
    and "smgr_ok (run_read pr now evs r m)" and "smgr_ok (run_read_clear now evs' r m)" and "smgr_ok (sm_Shutdown ce rs us ks m)"
proof -
  have ex: "smgr_ok (fst (sm_exec pr op (m, [])))" if "uninterrupted op" for op
    using sm_exec_inv [of True "(m, [])" op pr] that assms by (simp add: smgr_ok_def)
  show "smgr_ok (snd (EstablishStreams pr p pub names m))" using ex [of "OpEstablish p pub names"] by simp
  show "smgr_ok (snd (sm_SendCtx pr nonce w ns c p name d m))" using ex [of "OpSend nonce w ns c p name d"] by simp
  show "smgr_ok (snd (HandleIncomingStream p name raw m))" using ex [of "OpIncoming p name raw"] by simp
  show "smgr_ok (snd (HandleIncomingHandshakeStream p raw m))" using ex [of "OpIncomingHandshake p raw"] by simp
  show "smgr_ok (snd (CloseHandshakeStream ce p m))" using ex [of "OpCloseHandshake ce p"] by simp
  show "smgr_ok (snd (CloseStreams ce cu rs us p m))" using ex [of "OpCloseStreams ce cu rs us p"] by simp
  show "smgr_ok (run_read pr now evs r m)" using ex [of "OpReadLoop now evs r"] by simp
  show "smgr_ok (run_read_clear now evs' r m)" using ex [of "OpReadLoopClear now evs' r"] by simp
  show "smgr_ok (sm_Shutdown ce rs us ks m)" using ex [of "OpShutdown ce rs us ks"] by simp
qed

lemma smgr_ok_frame [simp]:
  "smgr_ok (m\<lparr>sm_mem := h\<rparr>) = smgr_ok m" "smgr_ok (m\<lparr>sm_module := md\<rparr>) = smgr_ok m" "smgr_ok (m\<lparr>sm_incoming := ch\<rparr>) = smgr_ok m"
  by (simp_all add: smgr_ok_def only_handshake_clear_def sm_inv_def GetStream_def get_unenc_def is_allowed_def)

lemma disp_offers_inv: "disp_inv d \<Longrightarrow> disp_inv (fold disp_offer es d)"
proof (induction es arbitrary: d)
  case (Cons e es)
  then show ?case using EmitEvent_total [OF Cons.prems, of e] by (auto simp: disp_offer_def)
qed simp

lemma apply_mgr_fields [simp]:
  "nd_config (apply_mgr m n) = nd_config n" "nd_conns (apply_mgr m n) = m" "nd_streams (apply_mgr m n) = nd_streams n"
  "nd_fw (apply_mgr m n) = nd_fw n" "nd_messages (apply_mgr m n) = nd_messages n" "nd_flow (apply_mgr m n) = nd_flow n"
  "nd_handlers (apply_mgr m n) = nd_handlers n" "nd_started (apply_mgr m n) = nd_started n"
  "nd_dispatch (apply_mgr m n) = fold disp_offer (drop (length (emitted (nd_conns n))) (emitted m)) (nd_dispatch n)"
  by (simp_all add: apply_mgr_def)

lemmas node_ok_defs = node_ok_def node_next_def flow_idle_def channels_ok_def handlers_ok_def

lemma apply_mgr_next [inv_intros]:
  "node_ok env n \<Longrightarrow> mgr_next (node_menv env n) (nd_conns n) m \<Longrightarrow> node_next env n (apply_mgr m n)"
  by (simp add: node_ok_defs disp_offers_inv)

lemma set_conns_next: "node_ok env n \<Longrightarrow> mgr_next (node_menv env n) (nd_conns n) m \<Longrightarrow> node_next env n (n\<lparr>nd_conns := m\<rparr>)"
  by (simp add: node_ok_defs)

lemma set_book_next [inv_intros]: "node_ok env n \<Longrightarrow> node_next env n (set_book b n)"
  by (simp add: node_ok_defs mgr_next_refl) (simp add: set_book_def mgr_next_refl)

lemma set_crypto_next [inv_intros]: "node_ok env n \<Longrightarrow> node_next env n (set_crypto c n)"
  by (simp add: node_ok_defs mgr_next_refl)

lemma set_streams_next [inv_intros]: "node_ok env n \<Longrightarrow> smgr_ok m \<Longrightarrow> node_next env n (n\<lparr>nd_streams := m\<rparr>)"
  by (simp add: node_ok_defs mgr_next_refl)

lemma set_fw_next [inv_intros]: "node_ok env n \<Longrightarrow> fw_inv w \<Longrightarrow> node_next env n (n\<lparr>nd_fw := w\<rparr>)"
  by (simp add: node_ok_defs mgr_next_refl)

lemma set_quiet_next [inv_intros]:
  "node_ok env n \<Longrightarrow> node_next env n (n\<lparr>nd_stats := st\<rparr>)" "node_ok env n \<Longrightarrow> node_next env n (n\<lparr>nd_messages := ch\<rparr>)"
  "node_ok env n \<Longrightarrow> node_next env n (n\<lparr>nd_started := b\<rparr>)"
  by (simp_all add: node_ok_defs mgr_next_refl)

lemma set_dispatch_next [inv_intros]: "node_ok env n \<Longrightarrow> disp_inv d \<Longrightarrow> node_next env n (n\<lparr>nd_dispatch := d\<rparr>)"
  by (simp add: node_ok_defs mgr_next_refl)

lemma node_ok_parts:
  "node_ok env n \<Longrightarrow> mgr_wf (node_menv env n) (nd_conns n)" "node_ok env n \<Longrightarrow> smgr_ok (nd_streams n)"
  "node_ok env n \<Longrightarrow> fw_inv (nd_fw n)" "node_ok env n \<Longrightarrow> disp_inv (nd_dispatch n)"
  by (simp_all add: node_ok_defs)

section \<open>Every call keeps the invariant\<close>

lemma Node_Start_next:
  assumes "node_ok env n" and "Node_Start ks n = (e, gs, n')"
  shows "node_next env n n' \<and> goroutines_ok (nd_conns n') gs"
proof -
  have "node_next env n (n\<lparr>nd_handlers := (nd_handlers n)(StreamProtocolID HandshakeStreamName \<mapsto> HandshakeHandler), nd_started := True\<rparr>)"
    using assms(1) by (simp add: node_ok_defs mgr_next_refl)
  then show ?thesis using assms node_next_refl [OF assms(1)]
    by (auto simp: Node_Start_def autoConnectToPeers_def goroutines_ok_append split: if_splits)
qed

lemma Node_Stop_next:
  assumes "node_ok env n"
  shows "node_next env n (snd (Node_Stop co cs rs ks pks he n))"
proof (cases "nd_started n")
  case True
  note ok = node_ok_parts [OF assms]
  define n1 where "n1 = n\<lparr>nd_fw := (nd_fw n)\<lparr>fw_ctx := True\<rparr>, nd_conns := Shutdown cs rs (nd_conns n),
      nd_streams := sm_Shutdown (co_enc co) (co_rs co) (co_us co) ks (nd_streams n),
      nd_dispatch := (case Dispatcher_Close (nd_dispatch n) of None \<Rightarrow> nd_dispatch n | Some d \<Rightarrow> d)\<rparr>"
  have "fw_inv ((nd_fw n)\<lparr>fw_ctx := True\<rparr>)" using fw_exec_inv [OF ok(3), of FStop] by simp
  moreover have "disp_inv (nd_dispatch n1)" using Dispatcher_Close_total [OF ok(4)] by (auto simp: n1_def)
  ultimately have n1: "node_next env n n1"
    using assms manager_calls_next(6) [OF ok(1), of cs rs] smgr_ok_ops(9) [OF ok(2)] by (simp add: node_ok_defs n1_def)
  have "node_next env n ((set_crypto c n1)\<lparr>nd_started := False\<rparr>)" for c
    by (rule node_next_then [OF node_next_then [OF n1 set_crypto_next]]) (auto intro: inv_intros)
  then show ?thesis using n1 True by (simp add: Node_Stop_def n1_def [symmetric] Let_def split: option.split)
qed (use assms in \<open>simp add: Node_Stop_def node_next_refl\<close>)

lemma peer_calls_next:
  assumes "node_ok env n"
  shows "node_next env n (snd (Node_RemovePeer env io p n))" and "node_next env n (snd (Node_UnblacklistPeer env io now p n))"
    and "node_next env n (snd (Node_BlacklistPeer env io now p n))"
    and "Node_AddPeer env io now p as md n = (e, gs, n') \<Longrightarrow> node_next env n n' \<and> goroutines_ok (nd_conns n') gs"
proof -
  note bk = set_book_next [OF assms]
  show "node_next env n (snd (Node_RemovePeer env io p n))" "node_next env n (snd (Node_UnblacklistPeer env io now p n))"
    by (auto simp: Node_RemovePeer_def Node_UnblacklistPeer_def bk split: prod.split)
  have "node_next env n (apply_mgr (snd (DisconnectCtx (node_menv env (set_book b n)) Background now p (nd_conns (set_book b n)))) (set_book b n))" for b
    by (rule node_next_then [OF bk]) (auto intro!: inv_intros DisconnectCtx_next node_ok_parts)
  then show "node_next env n (snd (Node_BlacklistPeer env io now p n))"
    by (auto simp: Node_BlacklistPeer_def Let_def bk split: prod.split option.split)
  show "Node_AddPeer env io now p as md n = (e, gs, n') \<Longrightarrow> node_next env n n' \<and> goroutines_ok (nd_conns n') gs"
    using bk node_next_refl [OF assms] by (auto simp: Node_AddPeer_def Let_def split: prod.splits option.splits if_splits)
qed

lemma cleanupPeerResources_next:
  assumes "node_ok env n"
  shows "node_next env n (cleanupPeerResources env co p n)"
proof -
  let ?n = "n\<lparr>nd_streams := snd (CloseStreams (co_enc co) (co_unc co) (co_rs co) (co_us co) p (nd_streams n))\<rparr>"
  have n1: "node_next env n ?n" by (rule set_streams_next [OF assms smgr_ok_ops(6) [OF node_ok_parts(2) [OF assms]]])
  have "node_next env n (set_crypto c ?n)" for c by (rule node_next_then [OF n1 set_crypto_next])
  then show ?thesis using n1 by (auto simp: cleanupPeerResources_def Let_def split: sum.split)
qed

lemma connection_calls_next:
  assumes "node_ok env n"
  shows "node_next env n (snd (Node_DisconnectCtx env co c now p n))" and "node_next env n (snd (Node_CancelReconnection now p n))"
    and "Node_ConnectCtx env c t0 t1 he p n = (e, gs, n') \<Longrightarrow> node_next env n n' \<and> goroutines_ok (nd_conns n') gs"
proof -
  note wf = node_ok_parts(1) [OF assms]
  show "node_next env n (snd (Node_DisconnectCtx env co c now p n))"
    using node_next_then [OF cleanupPeerResources_next [OF assms] apply_mgr_next [OF _ DisconnectCtx_next [OF node_ok_parts(1)]]]
    by (simp add: Node_DisconnectCtx_def Let_def case_prod_beta)
  show "node_next env n (snd (Node_CancelReconnection now p n))"
    using apply_mgr_next [OF assms manager_calls_next(5) [OF wf, of now p]] by (simp add: Node_CancelReconnection_def case_prod_beta)
  show "Node_ConnectCtx env c t0 t1 he p n = (e, gs, n') \<Longrightarrow> node_next env n n' \<and> goroutines_ok (nd_conns n') gs"
    using ConnectCtx_next [OF wf, of c t0 t1 he p] apply_mgr_next [OF assms] node_next_refl [OF assms]
    by (auto simp: Node_ConnectCtx_def split: prod.splits if_splits)
qed

lemma register_handlers_ok:
  assumes "\<forall>proto name. hs proto = Some (StreamHandler name) \<longrightarrow> proto = StreamProtocolID name"
  shows "register_handlers names hs proto = Some (StreamHandler name) \<Longrightarrow> proto = StreamProtocolID name"
  using assms by (induction names arbitrary: hs) (auto split: if_splits)

lemma set_handlers_next:
  assumes "node_ok env n"
  shows "node_next env n (n\<lparr>nd_handlers := register_handlers names (nd_handlers n)\<rparr>)"
proof -
  have "handlers_ok n" using assms by (simp add: node_ok_def)
  then have "handlers_ok (n\<lparr>nd_handlers := register_handlers names (nd_handlers n)\<rparr>)"
    unfolding handlers_ok_def using register_handlers_ok [of "nd_handlers n" names] by (metis node.select_convs(9) node.update_convs(9) node.surjective)
  then show ?thesis using assms by (simp add: node_ok_def node_next_def mgr_next_refl flow_idle_def channels_ok_def)
qed

lemma install_streams_next:
  assumes "node_ok env n"
  shows "node_next env n (snd (install_streams env io now p pub names n))"
proof -
  obtain x s where d: "Module_DeriveSharedKey (ne_prims env) pub (crypto n) = (x, s)" by (rule prod.exhaust)
  have n1: "node_next env n (set_crypto s n)" using set_crypto_next [OF assms] .
  show ?thesis
  proof (cases x)
    case (Inl e)
    then show ?thesis using n1 d by (simp add: install_streams_def)
  next
    case (Inr ka)
    let ?n1 = "set_crypto s n"
    define n2 where "n2 = ?n1\<lparr>nd_conns := mgr_SetSharedKey now p (snd s ! ka) (nd_conns ?n1), nd_handlers := register_handlers names (nd_handlers ?n1)\<rparr>"
    have k: "node_next env n (?n1\<lparr>nd_conns := mgr_SetSharedKey now p (snd s ! ka) (nd_conns ?n1)\<rparr>)"
      by (rule node_next_then [OF n1]) (intro set_conns_next manager_calls_next(2) node_ok_parts(1), assumption+)
    have n2: "node_next env n n2" unfolding n2_def
      by (rule node_next_then [OF k]) (drule set_handlers_next [where names = names], simp)
    obtain e sm where es: "EstablishStreams (ne_prims env) p pub names (nd_streams n2) = (e, sm)" by fastforce
    have "smgr_ok sm" using smgr_ok_ops(1) [OF node_ok_parts(2) [OF node_next_ok [OF n2]], of "ne_prims env" p pub names] es by simp
    then have n3: "node_next env n (n2\<lparr>nd_streams := sm\<rparr>)" by (intro node_next_then [OF n2] set_streams_next)
    have "node_next env n (set_book b (n2\<lparr>nd_streams := sm\<rparr>))" for b by (rule node_next_then [OF n3 set_book_next])
    moreover have "install_streams env io now p pub names n = (case (e, sm) of
        (Some e, sm) \<Rightarrow> (Some (NStreams e), n2\<lparr>nd_streams := sm\<rparr>)
      | (None, sm) \<Rightarrow> (None, set_book (snd (UpdatePublicKey (ne_codec env) (ne_ids env) io now p (the pub) (abook (nd_conns n2)))) (n2\<lparr>nd_streams := sm\<rparr>)))"
      unfolding es [symmetric] by (simp only: install_streams_def d Inr n2_def Let_def prod.case sum.case)
    ultimately show ?thesis using n3 by (auto split: option.split)
  qed
qed

lemma PrepareStreams_next: "node_ok env n \<Longrightarrow> node_next env n (snd (PrepareStreams env io now p pub names n))"
  by (simp add: PrepareStreams_def install_streams_next node_next_refl split: option.split)

lemma FinalizeHandshake_next:
  assumes "node_ok env n"
  shows "node_next env n (snd (FinalizeHandshake env ce now p n))"
proof -
  obtain x m where c: "mgr_CancelHandshakeTimeout p (nd_conns n) = (x, m)" by fastforce
  note ok = node_ok_parts [OF assms]
  have m: "mgr_next (node_menv env n) (nd_conns n) m" using manager_calls_next(3) [OF ok(1), of p] c by simp
  let ?n = "n\<lparr>nd_conns := m, nd_streams := snd (CloseHandshakeStream ce p (nd_streams n))\<rparr>"
  have n1: "node_next env n ?n" using assms m smgr_ok_ops(5) [OF ok(2)] by (simp add: node_ok_defs)
  have "node_next env n (apply_mgr (snd (MarkEstablished env' now p (nd_conns ?n))) ?n)" for env'
    by (intro node_next_then [OF n1] apply_mgr_next manager_calls_next(4) node_ok_parts(1)) assumption+
  then show ?thesis using c set_conns_next [OF assms m] node_next_refl [OF assms]
    by (auto simp: FinalizeHandshake_def Let_def case_prod_beta split: option.split)
qed

lemma CompleteHandshake_next:
  assumes "node_ok env n"
  shows "node_next env n (snd (CompleteHandshake env io ce now p pub names n))"
proof -
  obtain e n1 where "PrepareStreams env io now p pub names n = (e, n1)" by fastforce
  then show ?thesis using PrepareStreams_next [OF assms, of io now p pub names] node_next_then [OF _ FinalizeHandshake_next]
    by (auto simp: CompleteHandshake_def split: option.split)
qed

lemma register_incoming_next:
  "node_ok env n \<Longrightarrow> node_next env n (apply_mgr (RegisterIncomingConnection env' now p (nd_conns n)) n)"
  by (intro apply_mgr_next manager_calls_next(1) node_ok_parts(1))

lemma EstablishEncryptedStreams_next:
  "node_ok env n \<Longrightarrow> node_next env n (snd (EstablishEncryptedStreams env io now p pub names n))"
  using node_next_then [OF register_incoming_next install_streams_next]
  by (auto simp: EstablishEncryptedStreams_def Let_def install_streams_next node_next_refl split: option.split)

lemma incoming_next:
  assumes "node_ok env n"
  shows "node_next env n (snd (incoming env now proto p raw n))"
proof -
  let ?n = "apply_mgr (RegisterIncomingConnection (node_menv env n) now p (nd_conns n)) n"
  have n1: "node_next env n ?n" by (rule register_incoming_next [OF assms])
  have "node_next env n (?n\<lparr>nd_streams := snd (HandleIncomingHandshakeStream p raw (nd_streams ?n))\<rparr>)"
    by (rule node_next_then [OF n1], intro set_streams_next smgr_ok_ops(4) node_ok_parts(2)) assumption+
  moreover have "node_next env n (n\<lparr>nd_streams := snd (HandleIncomingStream p name raw (nd_streams n))\<rparr>)" for name
    by (rule set_streams_next [OF assms smgr_ok_ops(3) [OF node_ok_parts(2) [OF assms]]])
  ultimately show ?thesis using node_next_refl [OF assms]
    by (auto simp: incoming_def Let_def case_prod_beta split: option.split handler.split)
qed

lemma idle_controller:
  assumes "flow_idle n"
  shows "fc_inv (getOrCreateFlowController name n)" and "\<not> Controller.closed (getOrCreateFlowController name n)"
    and "pending (getOrCreateFlowController name n) = 0" and "\<not> blocked (getOrCreateFlowController name n)"
proof -
  have "flow_ok n" using assms by (simp add: flow_ok_def flow_idle_def)
  then show i: "fc_inv (getOrCreateFlowController name n)" "\<not> Controller.closed (getOrCreateFlowController name n)"
    using flow_ok_controller by blast+
  show z: "pending (getOrCreateFlowController name n) = 0"
    using assms by (auto simp: flow_idle_def getOrCreateFlowController_def SetBlockedCallback_def NewController_def Let_def split: option.split)
  show "\<not> blocked (getOrCreateFlowController name n)" using i(1) z by (auto simp: fc_inv_def)
qed

lemma stream_send_fields:
  assumes "stream_send env i p name d n = (r, n')"
  shows "nd_config n' = nd_config n" "nd_conns n' = nd_conns n" "nd_fw n' = nd_fw n" "nd_dispatch n' = nd_dispatch n"
    "nd_handlers n' = nd_handlers n" "nd_flow n' = nd_flow n"
    "nd_streams n' = snd (sm_SendCtx (ne_prims env) (si_nonce i) (si_write i) (si_new i) (si_ctx i) p name d (nd_streams n))"
  using assms by (auto simp: stream_send_def record_sent_def split: prod.splits option.splits)

text \<open>With the flow controllers idle, a send does not wait.\<close>

lemma Node_SendCtx_next:
  assumes "node_ok env n" and "list_all (\<lambda>w. w = None) (si_waits i)"
  shows "\<exists>r n'. Node_SendCtx env i p name d n = Some (r, n') \<and> node_next env n n'"
proof (cases "refused env name d n")
  case True
  then show ?thesis using Node_SendCtx_refused [OF True, of i p] node_next_refl [OF assms(1)] by blast
next
  case nr: False
  note u = Node_SendCtx_unrefused [OF nr, of i p]
  have idle: "flow_idle n" using assms(1) by (simp add: node_ok_def)
  show ?thesis
  proof (cases "DisableBackpressure (nd_config n)")
    case True
    obtain r n1 where ss: "stream_send env i p name d n = (r, n1)" by fastforce
    have "node_next env n n1" using assms(1) smgr_ok_ops(2) stream_send_fields [OF ss] by (simp add: node_ok_defs mgr_next_refl)
    then show ?thesis using u ss True by simp
  next
    case False
    let ?fc = "getOrCreateFlowController name n"
    note fc = idle_controller [OF idle, of name]
    obtain b fc1 where g: "Controller_Acquire ?fc = (AcquireGranted b, fc1)" using fc(2,4) by (simp add: Controller_Acquire_def Let_def)
    then have al: "acquire_loop (ctxErr (si_ctx i)) (si_waits i) ?fc = Some (None, fc1)" by (simp add: acquire_loop.simps)
    obtain r n1 where ss: "stream_send env i p name d (n\<lparr>nd_flow := (nd_flow n)(name \<mapsto> fc1)\<rparr>) = (r, n1)" by fastforce
    from granted_send [OF fc(1) g ss] obtain fc2 where
      fc2: "Controller_Release (getOrCreateFlowController name n1) = Some fc2" "pending fc2 = 0" "fc_inv fc2" "\<not> Controller.closed fc2"
      using fc(3) by auto
    have "node_next env n (n1\<lparr>nd_flow := (nd_flow n1)(name \<mapsto> fc2)\<rparr>)"
      using assms(1) smgr_ok_ops(2) stream_send_fields [OF ss] fc2(2-4) by (simp add: node_ok_defs mgr_next_refl)
    then show ?thesis using u False al ss fc2(1) by simp
  qed
qed

lemma forwardMessage_next:
  assumes "node_ok env n" and "\<not> cclosed (nd_messages n)"
  shows "\<exists>b n'. forwardMessage pick now n = Some (b, n') \<and> node_next env n n'"
proof -
  have close: "\<exists>ch. chan_close (nd_messages n) = Some ch" using assms(2) by (simp add: chan_close_def)
  have set: "node_next env n (n\<lparr>nd_messages := ch\<rparr>)" for ch by (rule set_quiet_next(2) [OF assms(1)])
  obtain x ch where r: "chan_recv (sm_incoming (nd_streams n)) = (x, ch)" by fastforce
  have rec: "node_next env n (record_received now msg (n\<lparr>nd_streams := (nd_streams n)\<lparr>sm_incoming := ch\<rparr>\<rparr>))" for msg
    using assms(1) by (simp add: record_received_def node_ok_defs mgr_next_refl)
  have "node_next env n ((record_received now msg (n\<lparr>nd_streams := (nd_streams n)\<lparr>sm_incoming := ch\<rparr>\<rparr>))\<lparr>nd_messages := ch'\<rparr>)" for msg ch'
    by (rule node_next_then [OF rec set_quiet_next(2)])
  then show ?thesis using close set rec r assms node_next_refl [OF assms(1)]
    by (cases x) (auto simp: forwardMessage_def record_received_def chan_try_send_def Let_def)
qed

lemma forwardEvent_next:
  assumes "node_ok env n" and "fw_subs (nd_fw n) \<noteq> None" and "fw_ctx (nd_fw n) \<longrightarrow> pick"
  shows "\<exists>b n'. forwardEvent env co pick n = Some (b, n') \<and> node_next env n n'"
proof -
  note ok = node_ok_parts [OF assms(1)]
  obtain w where e: "forward_end (nd_fw n) = Some w" "fw_inv w" using forward_end_inv [OF ok(3) assms(2)] by blast
  have fin: "node_next env n (n\<lparr>nd_fw := w\<rparr>)" by (rule set_fw_next [OF assms(1) e(2)])
  show ?thesis
  proof (cases "fw_ctx (nd_fw n)")
    case True
    then show ?thesis using assms(3) e(1) fin by (intro exI [of _ False] exI [of _ "n\<lparr>nd_fw := w\<rparr>"]) (simp add: forwardEvent_def)
  next
    case False
    obtain x d where r: "Events_recv (nd_dispatch n) = (x, d)" by fastforce
    show ?thesis
    proof (cases x)
      case (Received evt)
      have "disp_inv d" using Events_recv_inv [OF ok(4)] r by simp
      then have n1: "node_next env n (n\<lparr>nd_dispatch := d\<rparr>)" by (rule set_dispatch_next [OF assms(1)])
      define n2 where "n2 = (if public_state (ce_State evt) = PubDisconnected
        then cleanupPeerResources env co (ce_PeerID evt) (n\<lparr>nd_dispatch := d\<rparr>) else n\<lparr>nd_dispatch := d\<rparr>)"
      have n2: "node_next env n n2" using n1 node_next_then [OF n1 cleanupPeerResources_next] by (auto simp: n2_def)
      have fw: "nd_fw n2 = nd_fw n" by (simp add: n2_def cleanupPeerResources_def Let_def split: sum.split)
      obtain w' where w': "forward_event (to_PublicEvent evt) (nd_fw n) = Some w'" "fw_inv w'"
        using forward_event_inv [OF ok(3) assms(2) False] by blast
      have "node_next env n (n2\<lparr>nd_fw := w'\<rparr>)" by (rule node_next_then [OF n2 set_fw_next [OF _ w'(2)]])
      moreover have "forwardEvent env co pick n = Some (True, n2\<lparr>nd_fw := w'\<rparr>)"
        using r Received False fw w'(1) by (simp add: forwardEvent_def n2_def [symmetric] Let_def)
      ultimately show ?thesis by blast
    qed (use r e(1) fin False node_next_refl [OF assms(1)] in \<open>auto simp: forwardEvent_def\<close>)
  qed
qed

lemma on_fw_next:
  assumes "node_ok env n" and "\<exists>w. f (nd_fw n) = Some w \<and> fw_inv w"
  shows "\<exists>n'. on_fw f n = Some ([], n') \<and> node_next env n n'"
  using assms(2) set_fw_next [OF assms(1)] by (auto simp: on_fw_def)

lemma node_exec_next:
  assumes "node_ok env n" and "node_enabled c n"
  shows "\<exists>gs n'. node_exec env c n = Some (gs, n') \<and> node_next env n n' \<and> goroutines_ok (nd_conns n') gs"
proof (cases c)
  case (DoStart ks)
  then show ?thesis using Node_Start_next [OF assms(1), of ks] by (cases "Node_Start ks n") auto
next
  case (DoAddPeer io now p as md)
  then show ?thesis using peer_calls_next(4) [OF assms(1), of io now p as md] by (cases "Node_AddPeer env io now p as md n") auto
next
  case (DoConnect c t0 t1 he p)
  then show ?thesis using connection_calls_next(3) [OF assms(1), of c t0 t1 he p] by (cases "Node_ConnectCtx env c t0 t1 he p n") auto
next
  case (DoSend i p name d)
  then show ?thesis using Node_SendCtx_next [OF assms(1), of i p name d] assms(2) by auto
next
  case (DoForwardMessage pick now)
  then show ?thesis using forwardMessage_next [OF assms(1), of pick now] assms(2) by auto
next
  case (DoForwardEvent co pick)
  then show ?thesis using forwardEvent_next [OF assms(1), of pick co] assms(2) by auto
next
  case (DoSubscribe cap)
  then show ?thesis using fw_exec_inv [OF node_ok_parts(3) [OF assms(1)], of "FSubscribe cap"] assms(2)
      on_fw_next [OF assms(1), of "\<lambda>w. map_option snd (SubscribeEvents cap w)"] by auto
next
  case (DoUnsubscribe r)
  then show ?thesis using on_fw_next [OF assms(1), of "\<lambda>w. Some (Unsubscribe r w)"] Unsubscribe_inv [OF node_ok_parts(3) [OF assms(1)]] by auto
next
  case (DoSubscription r)
  then show ?thesis using on_fw_next [OF assms(1), of "sub_goroutine r"] sub_goroutine_inv [OF node_ok_parts(3) [OF assms(1)]] assms(2) by auto
next
  case (DoCleanupStats now)
  then show ?thesis using set_quiet_next(1) [OF assms(1)] by (simp add: cleanupStalePeerStats_def)
qed (use assms(1) set_streams_next [OF assms(1)] smgr_ok_ops(7,8) [OF node_ok_parts(2) [OF assms(1)]] in
    \<open>simp_all add: Node_Stop_next peer_calls_next connection_calls_next PrepareStreams_next FinalizeHandshake_next CompleteHandshake_next
      EstablishEncryptedStreams_next incoming_next on_streams_def\<close>)

text \<open>A new node, and every step.\<close>

lemma new_smgr_ok: "smgr_ok (SetMessageDroppedCallback x (SetDecryptionErrorCallback y (NewStreamManager md h ch)))"
proof -
  have "sm_init (NewStreamManager md h ch, [])" by (auto simp: sm_init_def)
  from sm_init_inv [OF this, of True] show ?thesis unfolding smgr_ok_def by (intro setters_inv) simp
qed

lemma Node_New_ok: "Node_New env io None fs cfg l m = Inr n \<Longrightarrow> node_ok env n"
  by (auto simp: Node_New_def Let_def node_ok_defs NewManager_wf fw_inv_New disp_inv_New new_smgr_ok
      split: option.splits prod.splits sum.splits)

lemma node_init_New: "Node_New env io None fs cfg l m = Inr n \<Longrightarrow> node_init env \<lparr>ns_node = n, ns_threads = []\<rparr>"
  unfolding node_init_def by (simp only: nsys.simps) blast

lemma node_init_inv: "node_init env s \<Longrightarrow> node_inv env s"
  by (auto simp: node_init_def node_inv_def Node_New_ok)

lemma node_step_inv:
  assumes "node_inv env s" and "nstep env s l s'"
  shows "node_inv env s'"
  using assms(2)
proof (cases rule: nstep.cases)
  case (nstep_call c gs n')
  have n: "node_next env (ns_node s) n'" "goroutines_ok (nd_conns n') gs"
    using node_exec_next [of env "ns_node s" c] nstep_call assms(1) by (auto simp: node_inv_def)
  then have "mgr_next (node_menv env (ns_node s)) (nd_conns (ns_node s)) (nd_conns n')" by (simp add: node_next_def)
  from mgr_next_act_ok [OF this] have "\<forall>t \<in> set (ns_threads s). \<forall>a \<in> set t. act_ok (nd_conns n') a"
    using assms(1) by (auto simp: node_inv_def)
  then show ?thesis using nstep_call n(2) node_next_ok [OF n(1)] by (auto simp: node_inv_def goroutines_ok_def)
next
  case (nstep_manager l' m' ts)
  let ?s = "\<lparr>mgr = nd_conns (ns_node s), threads = ns_threads s\<rparr>"
  have "sys_inv (node_menv env (ns_node s)) ?s" using assms(1) by (simp add: node_inv_def node_ok_def sys_inv_def)
  from sys_inv_step [OF this nstep_manager(4)] have i: "mgr_wf (node_menv env (ns_node s)) m'" "\<forall>t \<in> set ts. \<forall>a \<in> set t. act_ok m' a"
    by (simp_all add: sys_inv_def)
  obtain T where "evolves T (nd_conns (ns_node s)) m'" using mstep_evolves [OF nstep_manager(4)] by auto
  then have "node_next env (ns_node s) (apply_mgr m' (ns_node s))"
    using assms(1) i(1) by (intro apply_mgr_next) (auto simp: node_inv_def mgr_next_def evolves_def)
  then show ?thesis using node_next_ok i(2) nstep_manager(2) by (auto simp: node_inv_def)
qed

interpretation nodes: invariant_system "node_init env" "nstep env" "node_inv env"
  by unfold_locales (auto intro: node_init_inv node_step_inv)

section \<open>Properties\<close>

text \<open>
  Property C3: The invariant of a running node. After any sequence of calls, arriving streams, rounds of the node's goroutines and steps of the connection
  manager's goroutines and timers, a peer's connection is an allocated object of that peer; an encrypted stream found for a peer and a name
  belongs to them, the name is allowed and the peer has a key; only handshake streams are unencrypted; a registered handler serves the
  protocol of its own name; no message is pending in a flow controller; and the channel of events is closed exactly when there are no subscriptions any more.
\<close>

theorem node_invariant:
  assumes "Node_New env io None fs cfg l m = Inr n0" and "runs (nstep env) \<lparr>ns_node = n0, ns_threads = []\<rparr> ls s" and "n = ns_node s"
  shows "(\<forall>p r. connections (nd_conns n) p = Some r \<longrightarrow> r < nobjs (nd_conns n) \<and> pc_PeerID (objs (nd_conns n) r) = p) \<and>
     (\<forall>p name r. GetStream (nd_streams n) p name = Some r \<longrightarrow>
        es_peerID (encs (nd_streams n) r) = p \<and> es_name (encs (nd_streams n) r) = name \<and>
        is_allowed (nd_streams n) p name \<and> sm_keys (nd_streams n) p \<noteq> None) \<and>
     (\<forall>r < nuncs (nd_streams n). us_name (uncs (nd_streams n) r) = HandshakeStreamName) \<and>
     (\<forall>proto name. nd_handlers n proto = Some (StreamHandler name) \<longrightarrow> proto = StreamProtocolID name) \<and>
     (\<forall>name fc. nd_flow n name = Some fc \<longrightarrow> pending fc = 0 \<and> \<not> blocked fc) \<and>
     cclosed (fw_events (nd_fw n)) = (fw_subs (nd_fw n) = None)"
proof -
  from nodes.inv_reachable [OF node_init_New [OF assms(1)] assms(2)] have ok: "node_ok env n" by (simp add: node_inv_def assms(3))
  have "pending fc = 0 \<and> \<not> blocked fc" if "nd_flow n name = Some fc" for name fc
    using idle_controller [of n name] ok that by (simp add: node_ok_def getOrCreateFlowController_def)
  moreover have "sm_inv True (nd_streams n)" "\<forall>r < nuncs (nd_streams n). us_name (uncs (nd_streams n) r) = HandshakeStreamName"
    using ok by (simp_all add: node_ok_def smgr_ok_def only_handshake_clear_def)
  ultimately show ?thesis using ok mgr_wf_conn [OF node_ok_parts(1) [OF ok]] sm_inv_lookup(1) [of True "nd_streams n"]
    by (auto simp: node_ok_def handlers_ok_def channels_ok_def fw_inv_def)
qed


section \<open>Witnesses\<close>

text \<open>A node that was made and started, and has prepared streams for a peer.\<close>

lemma toy_node_run:
  "\<exists>io fs cfg ks (n0 :: toy_node) s r. Node_New toy_nenv io None fs cfg () () = Inr n0 \<and>
     runs (nstep toy_nenv) \<lparr>ns_node = n0, ns_threads = []\<rparr>
       [NCall (DoStart ks), NCall (DoPrepareStreams no_faults 0 ''p'' (Some (drop 32 (toy_seckey 5))) [''chat''])] s \<and>
     connections (nd_conns (ns_node s)) ''p'' = Some r"
proof -
  let ?pub = "Some (drop 32 (toy_seckey 5))"
  obtain n :: toy_node where n: "started_node toy_nenv (toy_seckey 3) n" "MaxStreamNameLength (nd_config n) = 64" using toy_started by blast
  then obtain io fs cfg ks gs n0 where n0: "Node_New toy_nenv io None fs cfg () () = Inr n0" "Node_Start ks n0 = (None, gs, n)"
    unfolding started_node_def by (metis (full_types) old.unit.exhaust)
  have ab: "3 + 5 \<noteq> (0 :: byte)" by simp
  have st: "nd_started n" using n0(2) by (auto simp: Node_Start_def split: if_splits)
  obtain n1 where pr: "PrepareStreams toy_nenv no_faults 0 ''p'' ?pub [''chat''] n = (None, n1)"
    using toy_prepares(1) [OF ab n(1) refl st toy_chat_names [OF n(2)]] by blast
  from PrepareStreams_ok [OF pr toy_derives(1) [OF ab n(1)]] obtain ka md h where
    "nd_conns n1 = (mgr_SetSharedKey 0 ''p'' (h ! ka) (nd_conns n))
       \<lparr>abook := snd (UpdatePublicKey (ne_codec toy_nenv) (ne_ids toy_nenv) no_faults 0 ''p'' (the ?pub) (abook (nd_conns n)))\<rparr>" by auto
  then have "\<exists>r. connections (nd_conns n1) ''p'' = Some r" using mgr_SetSharedKey_effect [of 0 "''p''" "h ! ka" "nd_conns n"] by auto
  moreover have s1: "nstep toy_nenv \<lparr>ns_node = n0, ns_threads = []\<rparr> (NCall (DoStart ks)) \<lparr>ns_node = n, ns_threads = map go_acts gs\<rparr>"
    using nstep_call [of "DoStart ks" "\<lparr>ns_node = n0, ns_threads = []\<rparr>" toy_nenv gs n] n0(2) by simp
  moreover have s2: "nstep toy_nenv \<lparr>ns_node = n, ns_threads = map go_acts gs\<rparr> (NCall (DoPrepareStreams no_faults 0 ''p'' ?pub [''chat'']))
      \<lparr>ns_node = n1, ns_threads = map go_acts gs\<rparr>"
    using nstep_call [of "DoPrepareStreams no_faults 0 ''p'' ?pub [''chat'']" "\<lparr>ns_node = n, ns_threads = map go_acts gs\<rparr>" toy_nenv "[]" n1] pr by simp
  ultimately show ?thesis using n0(1) runs_cons [where step = "nstep toy_nenv", OF s1 runs_cons [where step = "nstep toy_nenv", OF s2 runs_nil]]
    by (metis nsys.select_convs(1))
qed

theorem node_invariant_witness:
  "\<exists>io fs cfg ks (n0 :: toy_node) s r. Node_New toy_nenv io None fs cfg () () = Inr n0 \<and>
     runs (nstep toy_nenv) \<lparr>ns_node = n0, ns_threads = []\<rparr>
       [NCall (DoStart ks), NCall (DoPrepareStreams no_faults 0 ''p'' (Some (drop 32 (toy_seckey 5))) [''chat''])] s \<and>
     connections (nd_conns (ns_node s)) ''p'' = Some r \<and> pc_PeerID (objs (nd_conns (ns_node s)) r) = ''p''"
  using toy_node_run node_invariant [OF _ _ refl, where env = toy_nenv] by meson


end
