(* ===== verification/Health.thy ===== *)
theory Health
  imports Node
begin

text \<open>
  Health checks (\<^verbatim>\<open>src/health.go\<close>) and the summaries of the address book for debugging (\<^verbatim>\<open>src/debug.go\<close>). What the probes find of the host
  is an input; the bodies of the HTTP responses are the values that are encoded.
\<close>

section \<open>Checks\<close>

record CheckResult =
  cr_Name :: string
  cr_Healthy :: bool
  cr_Message :: string
  cr_Duration :: duration

record HealthStatus =
  hs_Healthy :: bool
  hs_Checks :: "CheckResult list"
  hs_Timestamp :: time_ns

text \<open>
  What a probe meets: whether the host and its libp2p host are there, whether the address book is, the number of peers of the host's network
  (\<open>None\<close> when there is no network), and the readings of the clock.
\<close>

record probe =
  pb_host :: bool
  pb_book :: bool
  pb_peers :: "nat option"
  pb_now :: time_ns
  pb_spent :: "nat \<Rightarrow> duration"

definition boolToMessage :: "bool \<Rightarrow> string \<Rightarrow> string \<Rightarrow> string" where
  "boolToMessage b trueMsg falseMsg = (if b then trueMsg else falseMsg)"

definition IsHealthy :: "probe \<Rightarrow> ('ma, 'txt, 'st, 'l, 'm, 'cb) node \<Rightarrow> bool" where
  "IsHealthy pb n = (if \<not> nd_started n then False else if \<not> pb_host pb then False else True)"

definition add_check :: "CheckResult \<Rightarrow> bool \<Rightarrow> HealthStatus \<Rightarrow> HealthStatus" where
  "add_check c fails s = s\<lparr>hs_Checks := hs_Checks s @ [c], hs_Healthy := (if fails then False else hs_Healthy s)\<rparr>"

definition ReadinessChecks :: "probe \<Rightarrow> ('ma, 'txt, 'st, 'l, 'm, 'cb) node \<Rightarrow> HealthStatus" where
  "ReadinessChecks pb n =
     (let s0 = \<lparr>hs_Healthy = True, hs_Checks = [], hs_Timestamp = pb_now pb\<rparr>;
          started = nd_started n;
          s1 = add_check \<lparr>cr_Name = ''node_started'', cr_Healthy = started,
                 cr_Message = boolToMessage started ''node is running'' ''node is not started'', cr_Duration = pb_spent pb 0\<rparr> (\<not> started) s0;
          hostOK = pb_host pb;
          s2 = add_check \<lparr>cr_Name = ''host_running'', cr_Healthy = hostOK,
                 cr_Message = boolToMessage hostOK ''libp2p host is running'' ''libp2p host is not available'', cr_Duration = pb_spent pb 1\<rparr> (\<not> hostOK) s1;
          bookOK = pb_book pb;
          bookMsg = (if bookOK then ''address book is accessible'' else ''address book is not available'');
          s3 = add_check \<lparr>cr_Name = ''address_book'', cr_Healthy = bookOK, cr_Message = bookMsg, cr_Duration = pb_spent pb 2\<rparr> (\<not> bookOK) s2;
          connMsg = (case pb_peers pb of
                       None \<Rightarrow> ''no active connections''
                     | Some k \<Rightarrow> if hostOK \<and> 0 < k then ''has active connections'' else ''no active connections'')
      in add_check \<lparr>cr_Name = ''connections'', cr_Healthy = True, cr_Message = connMsg, cr_Duration = pb_spent pb 3\<rparr> False s3)"

text \<open>The handlers: the status code and the body.\<close>

definition HealthHandler :: "probe \<Rightarrow> ('ma, 'txt, 'st, 'l, 'm, 'cb) node \<Rightarrow> nat \<times> HealthStatus" where
  "HealthHandler pb n = (let status = ReadinessChecks pb n in (if hs_Healthy status then 200 else 503, status))"

definition LivenessHandler :: "probe \<Rightarrow> ('ma, 'txt, 'st, 'l, 'm, 'cb) node \<Rightarrow> nat \<times> string" where
  "LivenessHandler pb n = (if IsHealthy pb n then (200, ''{\"healthy\":true}'') else (503, ''{\"healthy\":false}''))"

section \<open>Summaries of the address book\<close>

record DebugAddressBook =
  TotalPeers :: int
  ActivePeers :: int
  BlacklistedPeers :: int
  dab_PeerIDs :: "string list"

text \<open>The two calls visit the map in orders of their own.\<close>

definition dumpAddressBook :: "('ma, 'txt) nenv \<Rightarrow> string list \<Rightarrow> string list \<Rightarrow> ('ma, 'txt, 'st, 'l, 'm, 'cb) node \<Rightarrow> DebugAddressBook" where
  "dumpAddressBook env ks ks' n =
     (let allPeers = ListAllPeers ks (book n); activePeers = ListPeers ks' (book n)
      in \<lparr>TotalPeers = int (length allPeers), ActivePeers = int (length activePeers),
          BlacklistedPeers = int (length allPeers) - int (length activePeers),
          dab_PeerIDs = map (\<lambda>p. ne_ids env (PeerID p)) activePeers\<rparr>)"

definition ConnectionSummary :: "string list \<Rightarrow> ('ma, 'txt, 'st, 'l, 'm, 'cb) node \<Rightarrow> (string \<times> int) list" where
  "ConnectionSummary ks n = [(''known'', int (length (ListPeers ks (book n))))]"

definition ListKnownPeers :: "string list \<Rightarrow> ('ma, 'txt, 'st, 'l, 'm, 'cb) node \<Rightarrow> peer_id list" where
  "ListKnownPeers ks n = map PeerID (ListPeers ks (book n))"

section \<open>Lemmas\<close>

lemma length_ListPeers: "length (ListPeers ks b) = length (filter (\<lambda>k. \<exists>e. peers b k = Some e \<and> \<not> Blacklisted e) ks)"
  by (induction ks) (auto split: option.splits)

lemma length_ListAllPeers: "length (ListAllPeers ks b) = length (filter (\<lambda>k. peers b k \<noteq> None) ks)"
  by (induction ks) (auto split: option.splits)

section \<open>Properties\<close>

text \<open>
  The health endpoints. The readiness endpoint answers 200 exactly when every listed check passes, and 503 otherwise; it always lists the same four checks; when
  it answers 200 so does the liveness endpoint; and as long as the node has its address book the two endpoints agree.
\<close>

theorem health_endpoints:
  "map cr_Name (hs_Checks (snd (HealthHandler pb n))) = [''node_started'', ''host_running'', ''address_book'', ''connections''] \<and>
   fst (HealthHandler pb n) = (if list_all cr_Healthy (hs_Checks (snd (HealthHandler pb n))) then 200 else 503) \<and>
   (fst (HealthHandler pb n) = 200 \<longleftrightarrow> fst (LivenessHandler pb n) = 200 \<and> pb_book pb) \<and>
   (fst (LivenessHandler pb n) = 200 \<longleftrightarrow> nd_started n \<and> pb_host pb)"
  by (simp add: HealthHandler_def LivenessHandler_def ReadinessChecks_def IsHealthy_def add_check_def Let_def)

text \<open>
  The address book's summary is exact, whatever order the map is visited in: the total is the number of entries, and the difference that is reported as
  blacklisted is the number of blacklisted entries.
\<close>

theorem address_book_summary:
  assumes "distinct ks" and "distinct ks'" and "set ks = dom (peers (book n))" and "set ks' = dom (peers (book n))"
  shows "TotalPeers (dumpAddressBook env ks ks' n) = int (card (dom (peers (book n)))) \<and>
     BlacklistedPeers (dumpAddressBook env ks ks' n) = int (card {k. \<exists>e. peers (book n) k = Some e \<and> Blacklisted e}) \<and>
     length (dab_PeerIDs (dumpAddressBook env ks ks' n)) = length (ListKnownPeers ks' n)"
proof -
  let ?a = "{k. \<exists>e. peers (book n) k = Some e \<and> \<not> Blacklisted e}" and ?b = "{k. \<exists>e. peers (book n) k = Some e \<and> Blacklisted e}"
  have "length (ListAllPeers ks (book n)) = card (dom (peers (book n)))"
  proof -
    have "\<forall>k \<in> set ks. peers (book n) k \<noteq> None" using assms(3) by auto
    then show ?thesis using assms(1,3) distinct_card [OF assms(1)] by (simp add: length_ListAllPeers)
  qed
  have act: "length (ListPeers ks' (book n)) = card ?a"
  proof -
    have "?a \<inter> set ks' = ?a" using assms(4) by auto
    then show ?thesis using assms(2) by (simp add: length_ListPeers distinct_length_filter)
  qed
  have u: "dom (peers (book n)) = ?a \<union> ?b" "?a \<inter> ?b = {}" by auto
  have "finite (dom (peers (book n)))" by (simp add: assms(3) [symmetric])
  then have "finite ?a" "finite ?b" unfolding u(1) by simp_all
  then have "card (dom (peers (book n))) = card ?a + card ?b" unfolding u(1) using u(2) by (rule card_Un_disjoint)
  then show ?thesis using act \<open>length (ListAllPeers ks (book n)) = card (dom (peers (book n)))\<close>
    by (simp add: dumpAddressBook_def ListKnownPeers_def Let_def)
qed

end
