(* ===== verification/Debug.thy ===== *)
theory Debug
  imports Health
begin

text \<open>
  The dump of a node's state for debugging (\<^verbatim>\<open>src/debug.go\<close>): the record, its text, and what is reported about one peer. The orders in which
  Go visits the maps, the addresses of the host and the time of the capture (as text, because it depends on the local time zone) are inputs.
\<close>

section \<open>Formatting\<close>

text \<open>The verb \<^verbatim>\<open>%x\<close> on bytes.\<close>

definition hex_digit :: "nat \<Rightarrow> char" where
  "hex_digit d = char_of (if d < 10 then 48 + d else 87 + d)"

definition show_hex :: "bytes \<Rightarrow> string" where
  "show_hex bs = concat (map (\<lambda>b. [hex_digit (unat b div 16), hex_digit (unat b mod 16)]) bs)"

text \<open>The verb \<^verbatim>\<open>%d\<close> on a number that may be negative.\<close>

definition show_int :: "int \<Rightarrow> string" where
  "show_int i = (if i < 0 then ''-'' @ show_decimal (nat (- i)) else show_decimal (nat i))"

text \<open>
  \<^verbatim>\<open>Duration.String\<close>: the fraction is written from its last digit, without trailing zeros; what is left of the number follows. The sign
  for micro is the two bytes of its UTF-8 encoding.
\<close>

fun fmtFrac :: "nat \<Rightarrow> nat \<Rightarrow> bool \<Rightarrow> string \<Rightarrow> string \<times> nat" where
  "fmtFrac 0 v pr buf = (if pr then CHR ''.'' # buf else buf, v)"
| "fmtFrac (Suc prec) v pr buf =
     (let digit = v mod 10; pr' = pr \<or> digit \<noteq> 0
      in fmtFrac prec (v div 10) pr' (if pr' then digit_char digit # buf else buf))"

definition with_unit :: "nat \<Rightarrow> nat \<Rightarrow> string \<Rightarrow> string" where
  "with_unit prec u unit = (case fmtFrac prec u False unit of (buf, v) \<Rightarrow> show_decimal v @ buf)"

definition Duration_String :: "duration \<Rightarrow> string" where
  "Duration_String d =
     (let u = nat (abs d);
          text =
            (if u = 0 then ''0s''
             else if u < 1000 then with_unit 0 u ''ns''
             else if u < 1000000 then with_unit 3 u [char_of (194 :: nat), char_of (181 :: nat), CHR ''s'']
             else if u < 1000000000 then with_unit 6 u ''ms''
             else case fmtFrac 9 u False ''s'' of (buf, secs) \<Rightarrow>
               (if secs div 60 = 0 then show_decimal secs @ buf
                else if secs div 3600 = 0 then show_decimal (secs div 60) @ ''m'' @ show_decimal (secs mod 60) @ buf
                else show_decimal (secs div 3600) @ ''h'' @ show_decimal (secs div 60 mod 60) @ ''m'' @ show_decimal (secs mod 60) @ buf))
      in if d < 0 then ''-'' @ text else text)"

section \<open>The dump\<close>

record DebugConfig =
  dc_HandshakeTimeout :: string
  dc_MaxReconnectDelay :: string
  dc_HighWatermark :: int
  dc_LowWatermark :: int
  dc_MaxMessageSize :: int

record DebugFlowControl =
  df_Stream :: string
  df_Pending :: int
  df_IsBlocked :: bool

record DebugState =
  ds_PeerID :: string
  ds_PublicKey :: string
  ds_ListenAddrs :: "string list"
  ds_Version :: string
  ds_AddressBook :: DebugAddressBook
  ds_Config :: DebugConfig
  ds_PeersWithStats :: int
  ds_FlowControllers :: "DebugFlowControl list"
  ds_CapturedAt :: string

text \<open>What the call meets: the host's identifier and addresses, the orders of the maps, the time.\<close>

record 'ma dump_in =
  di_host :: peer_id
  di_addrs :: "'ma list"
  di_all :: "string list"
  di_active :: "string list"
  di_stats :: "peer_id list"
  di_flow :: "string list"
  di_now :: string

definition dumpConfig :: "('ma, 'txt, 'st, 'l, 'm, 'cb) node \<Rightarrow> DebugConfig" where
  "dumpConfig n =
     \<lparr>dc_HandshakeTimeout = Duration_String (HandshakeTimeout (nd_config n)),
      dc_MaxReconnectDelay = Duration_String (ReconnectMaxDelay (nd_config n)),
      dc_HighWatermark = HighWatermark (nd_config n), dc_LowWatermark = LowWatermark (nd_config n),
      dc_MaxMessageSize = Config.MaxMessageSize (nd_config n)\<rparr>"

fun dump_flow :: "(string \<rightharpoonup> Controller) \<Rightarrow> string list \<Rightarrow> DebugFlowControl list" where
  "dump_flow fcs [] = []"
| "dump_flow fcs (name # names) =
     (case fcs name of
        None \<Rightarrow> dump_flow fcs names
      | Some fc \<Rightarrow> \<lparr>df_Stream = name, df_Pending = pending fc, df_IsBlocked = blocked fc\<rparr> # dump_flow fcs names)"

definition DumpState :: "('ma, 'txt) nenv \<Rightarrow> 'ma dump_in \<Rightarrow> ('ma, 'txt, 'st, 'l, 'm, 'cb) node \<Rightarrow> DebugState" where
  "DumpState env i n =
     \<lparr>ds_PeerID = ne_ids env (di_host i), ds_PublicKey = show_hex (Node_PublicKey n),
      ds_ListenAddrs = map (ma_String (ne_codec env)) (di_addrs i), ds_Version = Version_String CurrentVersion,
      ds_AddressBook = dumpAddressBook env (di_all i) (di_active i) n, ds_Config = dumpConfig n,
      ds_PeersWithStats = int (length (filter (\<lambda>p. nd_stats n p \<noteq> None) (di_stats i))),
      ds_FlowControllers = dump_flow (nd_flow n) (di_flow i), ds_CapturedAt = di_now i\<rparr>"

definition nl :: string where
  "nl = [char_of (10 :: nat)]"

definition flow_line :: "DebugFlowControl \<Rightarrow> string" where
  "flow_line fc = ''    '' @ df_Stream fc @ '': '' @ show_int (df_Pending fc) @ '' pending'' @ (if df_IsBlocked fc then '' (BLOCKED)'' else []) @ nl"

definition DumpStateString :: "('ma, 'txt) nenv \<Rightarrow> 'ma dump_in \<Rightarrow> ('ma, 'txt, 'st, 'l, 'm, 'cb) node \<Rightarrow> string" where
  "DumpStateString env i n =
     (let state = DumpState env i n; ab = ds_AddressBook state; cfg = ds_Config state in
      ''=== Glueberry Node Debug State ==='' @ nl @ nl @
      ''IDENTITY:'' @ nl @
      ''  Peer ID:    '' @ ds_PeerID state @ nl @
      (if 16 \<le> length (ds_PublicKey state) then ''  Public Key: '' @ take 16 (ds_PublicKey state) @ ''...'' @ nl else []) @
      ''  Version:    '' @ ds_Version state @ nl @ nl @
      ''LISTEN ADDRESSES:'' @ nl @
      (if ds_ListenAddrs state = [] then ''  (none)'' @ nl else concat (map (\<lambda>a. ''  - '' @ a @ nl) (ds_ListenAddrs state))) @ nl @
      ''ADDRESS BOOK:'' @ nl @
      ''  Total:       '' @ show_int (TotalPeers ab) @ '' peers'' @ nl @
      ''  Active:      '' @ show_int (ActivePeers ab) @ '' peers'' @ nl @
      ''  Blacklisted: '' @ show_int (BlacklistedPeers ab) @ '' peers'' @ nl @ nl @
      ''CONFIGURATION:'' @ nl @
      ''  Handshake Timeout:  '' @ dc_HandshakeTimeout cfg @ nl @
      ''  Max Reconnect:      '' @ dc_MaxReconnectDelay cfg @ nl @
      ''  High Watermark:     '' @ show_int (dc_HighWatermark cfg) @ nl @
      ''  Low Watermark:      '' @ show_int (dc_LowWatermark cfg) @ nl @
      ''  Max Message Size:   '' @ show_int (dc_MaxMessageSize cfg) @ '' bytes'' @ nl @ nl @
      ''STATISTICS:'' @ nl @
      ''  Peers tracked: '' @ show_int (ds_PeersWithStats state) @ nl @
      (if ds_FlowControllers state = [] then [] else ''  Flow controllers:'' @ nl @ concat (map flow_line (ds_FlowControllers state))) @ nl @
      ''Captured at: '' @ ds_CapturedAt state @ nl @
      ''================================='' @ nl)"

text \<open>What is reported about one peer; a field is absent when the code leaves its key out of the map.\<close>

record peer_info =
  pi_peer_id :: string
  pi_blacklisted :: bool
  pi_created_at :: time_ns
  pi_updated_at :: time_ns
  pi_last_seen :: "time_ns option"
  pi_addresses :: "string list option"
  pi_metadata :: "(string \<rightharpoonup> string) option"
  pi_stats :: "(int \<times> int \<times> int \<times> int) option"

definition PeerInfo :: "('ma, 'txt) nenv \<Rightarrow> time_ns \<Rightarrow> peer_id \<Rightarrow> ('ma, 'txt, 'st, 'l, 'm, 'cb) node \<Rightarrow> (book_err, peer_info) result" where
  "PeerInfo env now p n =
     (case GetPeer (ne_ids env) p (book n) of
        Inl e \<Rightarrow> Inl e
      | Inr entry \<Rightarrow>
          Inr \<lparr>pi_peer_id = ne_ids env (PeerID entry), pi_blacklisted = Blacklisted entry, pi_created_at = CreatedAt entry,
               pi_updated_at = UpdatedAt entry, pi_last_seen = (if LastSeen entry = 0 then None else Some (LastSeen entry)),
               pi_addresses = (if Multiaddrs entry = [] then None else Some (map (ma_String (ne_codec env)) (Multiaddrs entry))),
               pi_metadata = (case Metadata entry of None \<Rightarrow> None | Some md \<Rightarrow> if md = Map.empty then None else Some md),
               pi_stats = map_option (\<lambda>st. (ps_MessagesSent st, ps_MessagesReceived st, ps_BytesSent st, ps_BytesReceived st)) (PeerStatistics now p n)\<rparr>)"

section \<open>Lemmas\<close>

lemma fmtFrac_numeral [simp]:
  "fmtFrac (numeral k) v pr buf =
     (let digit = v mod 10; pr' = pr \<or> digit \<noteq> 0
      in fmtFrac (pred_numeral k) (v div 10) pr' (if pr' then digit_char digit # buf else buf))"
  by (simp only: numeral_eq_Suc [of k] fmtFrac.simps)

text \<open>The fraction takes the last digits away; when they are all zero nothing is written.\<close>

lemma fmtFrac_rest: "snd (fmtFrac prec v pr buf) = v div 10 ^ prec"
  by (induction prec v pr buf rule: fmtFrac.induct) (simp_all add: Let_def div_mult2_eq)

lemma fmtFrac_zero: "10 ^ prec dvd v \<Longrightarrow> fmtFrac prec v False buf = (buf, v div 10 ^ prec)"
proof (induction prec arbitrary: v)
  case (Suc prec)
  then obtain k where k: "v = 10 * (10 ^ prec * k)" by (auto simp: dvd_def mult.assoc)
  show ?case using Suc.IH [of "10 ^ prec * k"] by (simp add: k Let_def)
qed simp

lemma Duration_examples:
  "Duration_String 0 = ''0s''" "Duration_String 1500000000 = ''1.5s''" "Duration_String 300000000000 = ''5m0s''"
  "Duration_String (- 2000000) = ''-2ms''" "Duration_String 3661000000000 = ''1h1m1s''"
  by (simp_all add: Duration_String_def with_unit_def show_decimal.simps digit_char_def Let_def) code_simp+

lemma Duration_long:
  assumes "0 \<le> d" and "nat d = u" and "1000000000 \<le> u" and "fmtFrac 9 u False ''s'' = (buf, secs)"
  shows "Duration_String d =
     (if secs < 60 then show_decimal secs @ buf
      else if secs < 3600 then show_decimal (secs div 60) @ ''m'' @ show_decimal (secs mod 60) @ buf
      else show_decimal (secs div 3600) @ ''h'' @ show_decimal (secs div 60 mod 60) @ ''m'' @ show_decimal (secs mod 60) @ buf)"
  using assms by (simp add: Duration_String_def Let_def div_eq_0_iff del: fmtFrac_numeral)

lemma length_show_hex: "length (show_hex bs) = 2 * length bs"
  by (induction bs) (simp_all add: show_hex_def)

section \<open>Properties\<close>

text \<open>
  The text of a duration of whole seconds, from one second to less than a minute, from a minute to less than an hour, and beyond.
\<close>

theorem Duration_String_seconds:
  assumes "0 < s"
  shows "Duration_String (int s * second) =
     (if 3600 \<le> s then show_decimal (s div 3600) @ ''h'' else []) @
     (if 60 \<le> s then show_decimal (s div 60 mod 60) @ ''m'' else []) @ show_decimal (s mod 60) @ ''s''"
proof -
  have u: "nat (int s * second) = s * 1000000000" "0 \<le> int s * second" by (simp_all add: second_def nat_mult_distrib)
  have f: "fmtFrac 9 (s * 1000000000) False ''s'' = (''s'', s)"
    using fmtFrac_zero [of 9 "s * 1000000000" "''s''"] by (simp del: fmtFrac_numeral)
  have "1000000000 \<le> s * 1000000000" using assms by simp
  from Duration_long [OF u(2,1) this f] show ?thesis by (simp add: not_less [symmetric])
qed

text \<open>
  The dump shows nothing of the secrets. Whatever the buffers, the cached keys, the streams and the shared keys of the connections hold, two nodes
  that agree in their public key, address book, configuration, statistics and flow controllers have the same dump; and of
  a public key of 32 bytes the text shows eight.
\<close>

theorem dump_shows_no_secrets:
  assumes "Node_PublicKey n' = Node_PublicKey n" and "book n' = book n" and "nd_config n' = nd_config n"
    and "nd_stats n' = nd_stats n" and "nd_flow n' = nd_flow n"
  shows "DumpState env i n' = DumpState env i n \<and> DumpStateString env i n' = DumpStateString env i n \<and>
     (length (Node_PublicKey n) = 32 \<longrightarrow> take 16 (ds_PublicKey (DumpState env i n)) = show_hex (take 8 (Node_PublicKey n)))"
proof -
  have d: "DumpState env i n' = DumpState env i n"
    using assms by (simp add: DumpState_def dumpAddressBook_def dumpConfig_def Let_def)
  have "take (2 * k) (show_hex bs) = show_hex (take k bs)" for k bs
    by (induction bs arbitrary: k) (simp_all add: show_hex_def take_Cons split: nat.split)
  from this [of 8] show ?thesis using d by (simp add: DumpStateString_def DumpState_def)
qed

end
