(* ===== verification/FileLocks.thy ===== *)
theory FileLocks
  imports Storage
begin

text \<open>
  The lock file that keeps processes from writing the address book at the same time
  (\<^verbatim>\<open>src/pkg/addressbook/storage_unix.go\<close> and \<^verbatim>\<open>storage_windows.go\<close>). \<open>Storage\<close> models what one process
  does to the files; this theory models the lock between processes. The two versions of the code are the same
  but for the system calls: \<^verbatim>\<open>flock\<close> locks the whole file of an open file description, \<^verbatim>\<open>LockFileEx\<close> a range of
  bytes. The interface \<open>exclusive_lock\<close> states what the code needs of either, and the mutual exclusion of any number of processes
  is proved once from it.
\<close>

section \<open>The system calls the code uses\<close>

text \<open>
  \<open>os_open\<close> is a successful \<^verbatim>\<open>os.OpenFile\<close>, which returns a new handle; \<open>os_lock\<close> is one attempt of the blocking lock call,
  \<open>None\<close> as long as the caller has to wait.
\<close>

record 'os lock_os =
  os_open :: "'os \<Rightarrow> string \<Rightarrow> 'os \<times> nat"
  os_lock :: "'os \<Rightarrow> nat \<Rightarrow> 'os option"
  os_unlock :: "'os \<Rightarrow> nat \<Rightarrow> 'os"
  os_close :: "'os \<Rightarrow> nat \<Rightarrow> 'os"

subsection \<open>Unix: one exclusive \<^verbatim>\<open>flock\<close> per file\<close>

record unix_os =
  fds :: "nat \<rightharpoonup> string"
  nextFd :: nat
  flocked :: "string \<rightharpoonup> nat"

definition unix_open :: "unix_os \<Rightarrow> string \<Rightarrow> unix_os \<times> nat" where
  "unix_open s path = (s\<lparr>fds := (fds s)(nextFd s \<mapsto> path), nextFd := Suc (nextFd s)\<rparr>, nextFd s)"

definition Flock_EX :: "unix_os \<Rightarrow> nat \<Rightarrow> unix_os option" where
  "Flock_EX s fd =
     (case fds s fd of
        None \<Rightarrow> None
      | Some path \<Rightarrow>
          (case flocked s path of
             None \<Rightarrow> Some (s\<lparr>flocked := (flocked s)(path \<mapsto> fd)\<rparr>)
           | Some owner \<Rightarrow> if owner = fd then Some s else None))"

definition Flock_UN :: "unix_os \<Rightarrow> nat \<Rightarrow> unix_os" where
  "Flock_UN s fd =
     (case fds s fd of
        None \<Rightarrow> s
      | Some path \<Rightarrow>
          if flocked s path = Some fd then s\<lparr>flocked := (flocked s)(path := None)\<rparr> else s)"

definition unix_close :: "unix_os \<Rightarrow> nat \<Rightarrow> unix_os" where
  "unix_close s fd = (Flock_UN s fd)\<lparr>fds := (fds s)(fd := None)\<rparr>"

definition unix_sys :: "unix_os lock_os" where
  "unix_sys = \<lparr>os_open = unix_open, os_lock = Flock_EX, os_unlock = Flock_UN, os_close = unix_close\<rparr>"

subsection \<open>Windows: exclusive locks on ranges of bytes\<close>

text \<open>A lock is its handle, the offset in the \<^verbatim>\<open>Overlapped\<close> structure and the number of bytes.\<close>

record windows_os =
  handles :: "nat \<rightharpoonup> string"
  nextHandle :: nat
  ranges :: "(nat \<times> nat \<times> nat) list"

definition windows_open :: "windows_os \<Rightarrow> string \<Rightarrow> windows_os \<times> nat" where
  "windows_open s path = (s\<lparr>handles := (handles s)(nextHandle s \<mapsto> path), nextHandle := Suc (nextHandle s)\<rparr>, nextHandle s)"

definition overlaps :: "nat \<Rightarrow> nat \<Rightarrow> nat \<Rightarrow> nat \<Rightarrow> bool" where
  "overlaps off len off' len' \<longleftrightarrow> off < off' + len' \<and> off' < off + len"

definition LockFileEx :: "windows_os \<Rightarrow> nat \<Rightarrow> nat \<Rightarrow> nat \<Rightarrow> windows_os option" where
  "LockFileEx s h off len =
     (if handles s h = None then None
      else if \<exists>(h', off', len') \<in> set (ranges s). handles s h' = handles s h \<and> overlaps off len off' len' then None
      else Some (s\<lparr>ranges := (h, off, len) # ranges s\<rparr>))"

definition UnlockFileEx :: "windows_os \<Rightarrow> nat \<Rightarrow> nat \<Rightarrow> nat \<Rightarrow> windows_os" where
  "UnlockFileEx s h off len = s\<lparr>ranges := remove1 (h, off, len) (ranges s)\<rparr>"

definition windows_close :: "windows_os \<Rightarrow> nat \<Rightarrow> windows_os" where
  "windows_close s h =
     s\<lparr>handles := (handles s)(h := None), ranges := filter (\<lambda>r. fst r \<noteq> h) (ranges s)\<rparr>"

text \<open>The code locks and unlocks one byte at offset 0: a zero \<^verbatim>\<open>Overlapped\<close>, low-order length 1, high-order length 0.\<close>

definition windows_sys :: "windows_os lock_os" where
  "windows_sys = \<lparr>os_open = windows_open, os_lock = (\<lambda>s h. LockFileEx s h 0 1),
     os_unlock = (\<lambda>s h. UnlockFileEx s h 0 1), os_close = windows_close\<rparr>"

section \<open>The code\<close>

text \<open>
  \<^verbatim>\<open>acquireFileLock\<close> up to the lock call: the directory and the lock file. The error, or the handle to lock.
\<close>

definition open_lock_file :: "'os lock_os \<Rightarrow> io_faults \<Rightarrow> string \<Rightarrow> 'os \<Rightarrow> (store_err, nat) result \<times> 'os" where
  "open_lock_file sys io path s =
     (if lockMkdirFails io then (Inl LockDirFailed, s)
      else if lockOpenFails io then (Inl LockOpenFailed, s)
      else let (s', h) = os_open sys s (lockPath path) in (Inr h, s'))"

text \<open>The lock call: an error closes the file again; \<open>None\<close> while it blocks.\<close>

definition lock_file :: "'os lock_os \<Rightarrow> io_faults \<Rightarrow> nat \<Rightarrow> 'os \<Rightarrow> ((store_err, nat) result \<times> 'os) option" where
  "lock_file sys io h s =
     (if flockFails io then Some (Inl FlockFailed, os_close sys s h)
      else map_option (\<lambda>s'. (Inr h, s')) (os_lock sys s h))"

text \<open>\<^verbatim>\<open>releaseFileLock\<close>: an error of the unlock call is ignored, the close releases the lock too.\<close>

definition releaseFileLock :: "'os lock_os \<Rightarrow> bool \<Rightarrow> nat option \<Rightarrow> 'os \<Rightarrow> 'os" where
  "releaseFileLock sys unlockFails lockFile s =
     (case lockFile of
        None \<Rightarrow> s
      | Some h \<Rightarrow> os_close sys (if unlockFails then s else os_unlock sys s h) h)"

text \<open>The whole call on each system, when it does not have to wait.\<close>

definition acquire_on :: "'os lock_os \<Rightarrow> io_faults \<Rightarrow> string \<Rightarrow> 'os \<Rightarrow> ((store_err, nat) result \<times> 'os) option" where
  "acquire_on sys io path s =
     (case open_lock_file sys io path s of
        (Inl e, s') \<Rightarrow> Some (Inl e, s')
      | (Inr h, s') \<Rightarrow> lock_file sys io h s')"

definition acquireFileLock_unix :: "io_faults \<Rightarrow> string \<Rightarrow> unix_os \<Rightarrow> ((store_err, nat) result \<times> unix_os) option" where
  "acquireFileLock_unix = acquire_on unix_sys"

definition acquireFileLock_windows ::
  "io_faults \<Rightarrow> string \<Rightarrow> windows_os \<Rightarrow> ((store_err, nat) result \<times> windows_os) option" where
  "acquireFileLock_windows = acquire_on windows_sys"

definition releaseFileLock_unix :: "bool \<Rightarrow> nat option \<Rightarrow> unix_os \<Rightarrow> unix_os" where
  "releaseFileLock_unix = releaseFileLock unix_sys"

definition releaseFileLock_windows :: "bool \<Rightarrow> nat option \<Rightarrow> windows_os \<Rightarrow> windows_os" where
  "releaseFileLock_windows = releaseFileLock windows_sys"

section \<open>Processes\<close>

text \<open>
  Any number of processes save and load books. The mutex of a storage lets it hold one lock at a time,
  so a process is outside, waits in the lock call for the book at a path, or works on that book under the lock.
\<close>

datatype proc = Outside | Waits string nat | Works string nat

record 'os lock_world =
  kernel :: 'os
  procs :: "nat \<Rightarrow> proc"

datatype lock_label =
    Enter nat io_faults string
  | Attempt nat io_faults
  | Leave nat bool

fun lock_exec :: "'os lock_os \<Rightarrow> lock_label \<Rightarrow> 'os lock_world \<Rightarrow> 'os lock_world" where
  "lock_exec sys (Enter i io path) w =
     (case procs w i of
        Outside \<Rightarrow>
          (case open_lock_file sys io path (kernel w) of
             (Inl e, s) \<Rightarrow> w\<lparr>kernel := s\<rparr>
           | (Inr h, s) \<Rightarrow> w\<lparr>kernel := s, procs := (procs w)(i := Waits path h)\<rparr>)
      | _ \<Rightarrow> w)"
| "lock_exec sys (Attempt i io) w =
     (case procs w i of
        Waits path h \<Rightarrow>
          (case lock_file sys io h (kernel w) of
             None \<Rightarrow> w
           | Some (Inl e, s) \<Rightarrow> w\<lparr>kernel := s, procs := (procs w)(i := Outside)\<rparr>
           | Some (Inr h', s) \<Rightarrow> w\<lparr>kernel := s, procs := (procs w)(i := Works path h')\<rparr>)
      | _ \<Rightarrow> w)"
| "lock_exec sys (Leave i unlockFails) w =
     (case procs w i of
        Works path h \<Rightarrow>
          w\<lparr>kernel := releaseFileLock sys unlockFails (Some h) (kernel w), procs := (procs w)(i := Outside)\<rparr>
      | _ \<Rightarrow> w)"

definition lock_step :: "'os lock_os \<Rightarrow> 'os lock_world \<Rightarrow> lock_label \<Rightarrow> 'os lock_world \<Rightarrow> bool" where
  "lock_step sys w l w' \<longleftrightarrow> w' = lock_exec sys l w"

fun proc_handle :: "proc \<Rightarrow> nat option" where
  "proc_handle Outside = None"
| "proc_handle (Waits path h) = Some h"
| "proc_handle (Works path h) = Some h"

definition proc_ok :: "(nat \<rightharpoonup> string) \<Rightarrow> (nat \<Rightarrow> bool) \<Rightarrow> proc \<Rightarrow> bool" where
  "proc_ok op has pr =
     (case pr of
        Outside \<Rightarrow> True
      | Waits path h \<Rightarrow> op h = Some (lockPath path) \<and> \<not> has h
      | Works path h \<Rightarrow> op h = Some (lockPath path) \<and> has h)"

text \<open>What \<open>lock_world_inv\<close> says of the handles: each is of one process, and no process leaves one open.\<close>

definition lock_world_inv ::
  "('os \<Rightarrow> nat \<rightharpoonup> string) \<Rightarrow> ('os \<Rightarrow> nat \<Rightarrow> bool) \<Rightarrow> ('os \<Rightarrow> bool) \<Rightarrow> 'os lock_world \<Rightarrow> bool" where
  "lock_world_inv opened held good w \<longleftrightarrow>
     good (kernel w) \<and>
     (\<forall>i. proc_ok (opened (kernel w)) (held (kernel w)) (procs w i)) \<and>
     (\<forall>i j h. proc_handle (procs w i) = Some h \<longrightarrow> proc_handle (procs w j) = Some h \<longrightarrow> i = j) \<and>
     (\<forall>h. opened (kernel w) h \<noteq> None \<longrightarrow> (\<exists>i. proc_handle (procs w i) = Some h))"

definition lock_start :: "'os \<Rightarrow> 'os lock_world" where
  "lock_start s = \<lparr>kernel = s, procs = (\<lambda>_. Outside)\<rparr>"

text \<open>
  The contract of the lock file: one process at a time works on a book; when it leaves, whether or not the unlock call fails,
  nobody does; and a waiting process gets the lock once nobody works on the book.
\<close>

definition one_at_a_time :: "'os lock_os \<Rightarrow> 'os lock_world \<Rightarrow> bool" where
  "one_at_a_time sys w \<longleftrightarrow>
     (\<forall>i j path h h'. procs w i = Works path h \<and> procs w j = Works path h' \<longrightarrow> i = j) \<and>
     (\<forall>i path h b j h'. procs w i = Works path h \<longrightarrow> procs (lock_exec sys (Leave i b) w) j \<noteq> Works path h') \<and>
     (\<forall>i path h io. procs w i = Waits path h \<and> (\<forall>j h'. procs w j \<noteq> Works path h') \<and> \<not> flockFails io \<longrightarrow>
        (\<exists>h'. procs (lock_exec sys (Attempt i io) w) i = Works path h'))"

section \<open>Interface: a service of exclusive locks\<close>

locale exclusive_lock =
  fixes sys :: "'os lock_os"
    and opened :: "'os \<Rightarrow> nat \<rightharpoonup> string"
    and held :: "'os \<Rightarrow> nat \<Rightarrow> bool"
    and good :: "'os \<Rightarrow> bool"
  assumes held_opened: "good s \<Longrightarrow> held s h \<Longrightarrow> opened s h \<noteq> None"
    and held_once: "good s \<Longrightarrow> held s h \<Longrightarrow> held s h' \<Longrightarrow> opened s h = opened s h' \<Longrightarrow> h = h'"
    and open_law: "good s \<Longrightarrow> os_open sys s p = (s', h) \<Longrightarrow>
          good s' \<and> opened s h = None \<and> opened s' = (opened s)(h \<mapsto> p) \<and> held s' = held s"
    and lock_law: "good s \<Longrightarrow> os_lock sys s h = Some s' \<Longrightarrow>
          good s' \<and> opened s' = opened s \<and> held s' = (held s)(h := True)"
    and lock_free: "good s \<Longrightarrow> opened s h = Some p \<Longrightarrow> (\<forall>h'. opened s h' = Some p \<longrightarrow> \<not> held s h') \<Longrightarrow>
          os_lock sys s h \<noteq> None"
    and unlock_law: "good s \<Longrightarrow>
          good (os_unlock sys s h) \<and> opened (os_unlock sys s h) = opened s \<and> held (os_unlock sys s h) = (held s)(h := False)"
    and close_law: "good s \<Longrightarrow>
          good (os_close sys s h) \<and> opened (os_close sys s h) = (opened s)(h := None) \<and>
          held (os_close sys s h) = (held s)(h := False)"
begin

lemma release_law:
  "good s \<Longrightarrow> good (releaseFileLock sys b (Some h) s) \<and>
     opened (releaseFileLock sys b (Some h) s) = (opened s)(h := None) \<and>
     held (releaseFileLock sys b (Some h) s) = (held s)(h := False)"
  using unlock_law [of s h] close_law [of s h] close_law [of "os_unlock sys s h" h]
  by (auto simp: releaseFileLock_def)

lemma inv_start: "good s \<Longrightarrow> opened s = Map.empty \<Longrightarrow> lock_world_inv opened held good (lock_start s)"
  by (simp add: lock_world_inv_def lock_start_def proc_ok_def)

lemma inv_take:
  assumes inv: "lock_world_inv opened held good w" and out: "procs w i = Outside"
    and op: "os_open sys (kernel w) (lockPath path) = (s, h)"
  shows "lock_world_inv opened held good (w\<lparr>kernel := s, procs := (procs w)(i := Waits path h)\<rparr>)"
proof -
  have good: "good (kernel w)" using inv by (simp add: lock_world_inv_def)
  note law = open_law [OF good op]
  have fresh: "proc_handle (procs w j) \<noteq> Some h" for j
    using inv law by (cases "procs w j") (auto simp: lock_world_inv_def proc_ok_def dest: spec [of _ j])
  have "\<not> held (kernel w) h" using held_opened [OF good] law by blast
  moreover have "proc_ok (opened s) (held s) (procs w j)" for j
    using inv law fresh [of j] by (cases "procs w j") (auto simp: lock_world_inv_def proc_ok_def dest: spec [of _ j])
  ultimately show ?thesis using inv law fresh out
    by (auto simp: lock_world_inv_def proc_ok_def split: if_splits) (metis proc_handle.simps(1) option.discI)+
qed

text \<open>A process gives its handle up: after a failed lock call or at the release.\<close>

lemma inv_drop:
  assumes inv: "lock_world_inv opened held good w" and mine: "proc_handle (procs w i) = Some h"
    and s: "good s" "opened s = (opened (kernel w))(h := None)" "held s = (held (kernel w))(h := False)"
  shows "lock_world_inv opened held good (w\<lparr>kernel := s, procs := (procs w)(i := Outside)\<rparr>)"
proof -
  have other: "j \<noteq> i \<Longrightarrow> proc_handle (procs w j) \<noteq> Some h" for j
    using inv mine by (auto simp: lock_world_inv_def)
  have "j \<noteq> i \<Longrightarrow> proc_ok (opened s) (held s) (procs w j)" for j
    using inv s other [of j] by (cases "procs w j") (auto simp: lock_world_inv_def proc_ok_def dest: spec [of _ j])
  then show ?thesis using inv s mine
    by (auto simp: lock_world_inv_def proc_ok_def split: if_splits) (metis option.inject)+
qed

lemma inv_lock:
  assumes inv: "lock_world_inv opened held good w" and mine: "procs w i = Waits path h"
    and lock: "os_lock sys (kernel w) h = Some s"
  shows "lock_world_inv opened held good (w\<lparr>kernel := s, procs := (procs w)(i := Works path h)\<rparr>)"
proof -
  have good: "good (kernel w)" using inv by (simp add: lock_world_inv_def)
  note law = lock_law [OF good lock]
  have other: "j \<noteq> i \<Longrightarrow> proc_handle (procs w j) \<noteq> Some h" for j
    using inv mine by (fastforce simp: lock_world_inv_def)
  have "j \<noteq> i \<Longrightarrow> proc_ok (opened s) (held s) (procs w j)" for j
    using inv law other [of j] by (cases "procs w j") (auto simp: lock_world_inv_def proc_ok_def dest: spec [of _ j])
  moreover have "opened (kernel w) h = Some (lockPath path)"
    using inv mine by (auto simp: lock_world_inv_def proc_ok_def dest: spec [of _ i])
  moreover have "proc_handle (procs (w\<lparr>kernel := s, procs := (procs w)(i := Works path h)\<rparr>) j) = proc_handle (procs w j)" for j
    using mine by simp
  ultimately show ?thesis using inv law by (simp add: lock_world_inv_def) (simp add: proc_ok_def)
qed

lemma inv_exec: "lock_world_inv opened held good w \<Longrightarrow> lock_world_inv opened held good (lock_exec sys l w)"
proof (cases l)
  case (Enter i io path)
  assume "lock_world_inv opened held good w"
  then show ?thesis using inv_take [of w i path]
    by (auto simp: Enter open_lock_file_def split: proc.split prod.split)
next
  case (Attempt i io)
  assume inv: "lock_world_inv opened held good w"
  then have "good (kernel w)" by (simp add: lock_world_inv_def)
  then show ?thesis using inv inv_lock [OF inv, of i] inv_drop [OF inv, of i] close_law
    by (auto simp: Attempt lock_file_def split: proc.split option.split)
next
  case (Leave i b)
  assume inv: "lock_world_inv opened held good w"
  then have "good (kernel w)" by (simp add: lock_world_inv_def)
  then show ?thesis using inv inv_drop [OF inv, of i] release_law
    by (auto simp: Leave split: proc.split)
qed

lemma inv_steps: "runs (lock_step sys) w ls w' \<Longrightarrow> lock_world_inv opened held good w \<Longrightarrow> lock_world_inv opened held good w'"
  by (induction rule: runs.induct) (auto simp: lock_step_def inv_exec)

lemma one_works:
  assumes "lock_world_inv opened held good w" and "procs w i = Works path h" and "procs w j = Works path h'"
  shows "i = j"
proof -
  have "held (kernel w) h" "held (kernel w) h'" "opened (kernel w) h = opened (kernel w) h'" "good (kernel w)"
    using assms by (force simp: lock_world_inv_def proc_ok_def split: proc.splits)+
  then show ?thesis using held_once assms unfolding lock_world_inv_def
    by (metis proc_handle.simps(3))
qed

lemma free_lock_is_got:
  assumes inv: "lock_world_inv opened held good w" and waits: "procs w i = Waits path h"
    and free: "\<forall>j h. procs w j \<noteq> Works path h" and io: "\<not> flockFails io"
  shows "\<exists>h'. procs (lock_exec sys (Attempt i io) w) i = Works path h'"
proof -
  have op: "opened (kernel w) h = Some (lockPath path)" and good: "good (kernel w)"
    using inv waits by (auto simp: lock_world_inv_def proc_ok_def dest: spec [of _ i])
  have "\<not> held (kernel w) h'" if oh: "opened (kernel w) h' = Some (lockPath path)" for h'
  proof -
    obtain j where "proc_handle (procs w j) = Some h'" 
      using inv oh unfolding lock_world_inv_def by (metis option.distinct(1))
    moreover have "proc_ok (opened (kernel w)) (held (kernel w)) (procs w j)" using inv by (simp add: lock_world_inv_def)
    ultimately show ?thesis using oh free
      by (cases "procs w j") (auto simp: proc_ok_def lockPath_def)
  qed
  then obtain s where "os_lock sys (kernel w) h = Some s" using lock_free [OF good op] by blast
  then show ?thesis by (simp add: waits lock_file_def io)
qed

lemma inv_contract: "lock_world_inv opened held good w \<Longrightarrow> one_at_a_time sys w"
  unfolding one_at_a_time_def using one_works [of w] free_lock_is_got [of w] by (auto split: if_splits)

lemma lock_contract:
  assumes "good s" and "opened s = Map.empty" and "runs (lock_step sys) (lock_start s) ls w"
  shows "one_at_a_time sys w \<and> (\<forall>h. opened (kernel w) h \<noteq> None \<longrightarrow> (\<exists>i. proc_handle (procs w i) = Some h))"
proof -
  have inv: "lock_world_inv opened held good w" using assms inv_start inv_steps by blast
  then show ?thesis using inv_contract unfolding lock_world_inv_def by blast
qed

end

section \<open>Both systems provide it\<close>

definition unix_held :: "unix_os \<Rightarrow> nat \<Rightarrow> bool" where
  "unix_held s fd = (case fds s fd of None \<Rightarrow> False | Some path \<Rightarrow> flocked s path = Some fd)"

definition unix_good :: "unix_os \<Rightarrow> bool" where
  "unix_good s \<longleftrightarrow> (\<forall>fd. fds s fd \<noteq> None \<longrightarrow> fd < nextFd s) \<and>
     (\<forall>path fd. flocked s path = Some fd \<longrightarrow> fds s fd = Some path)"

definition windows_held :: "windows_os \<Rightarrow> nat \<Rightarrow> bool" where
  "windows_held s h \<longleftrightarrow> (h, 0, 1) \<in> set (ranges s)"

definition windows_good :: "windows_os \<Rightarrow> bool" where
  "windows_good s \<longleftrightarrow> (\<forall>h. handles s h \<noteq> None \<longrightarrow> h < nextHandle s) \<and> distinct (ranges s) \<and>
     (\<forall>(h, off, len) \<in> set (ranges s). off = 0 \<and> len = 1 \<and> handles s h \<noteq> None) \<and>
     (\<forall>h h'. windows_held s h \<longrightarrow> windows_held s h' \<longrightarrow> handles s h = handles s h' \<longrightarrow> h = h')"

lemma unix_fresh: "unix_good s \<Longrightarrow> fds s (nextFd s) = None \<and> flocked s path \<noteq> Some (nextFd s)"
  by (auto simp: unix_good_def)

lemma unix_owner: "unix_good s \<Longrightarrow> flocked s a = Some h \<Longrightarrow> flocked s b = Some h \<Longrightarrow> a = b"
  by (metis option.inject unix_good_def)

interpretation ulock: exclusive_lock unix_sys fds unix_held unix_good
proof unfold_locales
  show "unix_good s \<Longrightarrow> os_open unix_sys s p = (s', h) \<Longrightarrow>
      unix_good s' \<and> fds s h = None \<and> fds s' = (fds s)(h \<mapsto> p) \<and> unix_held s' = unix_held s" for s p s' h
    using unix_fresh [of s]
    by (auto simp: unix_sys_def unix_open_def unix_good_def unix_held_def less_Suc_eq fun_eq_iff split: option.splits)
next
  show "unix_good s \<Longrightarrow> os_lock unix_sys s h = Some s' \<Longrightarrow>
      unix_good s' \<and> fds s' = fds s \<and> unix_held s' = (unix_held s)(h := True)" for s h s'
    by (auto simp: unix_sys_def Flock_EX_def unix_good_def unix_held_def fun_eq_iff split: option.splits if_splits)
next
  show "unix_good s \<Longrightarrow>
      unix_good (os_unlock unix_sys s h) \<and> fds (os_unlock unix_sys s h) = fds s \<and>
      unix_held (os_unlock unix_sys s h) = (unix_held s)(h := False)" for s h
    by (auto simp: unix_sys_def Flock_UN_def unix_good_def unix_held_def fun_eq_iff split: option.splits)
next
  show "unix_good s \<Longrightarrow>
      unix_good (os_close unix_sys s h) \<and> fds (os_close unix_sys s h) = (fds s)(h := None) \<and>
      unix_held (os_close unix_sys s h) = (unix_held s)(h := False)" for s h
    using unix_owner [of s]
    by (auto simp: unix_sys_def unix_close_def Flock_UN_def unix_good_def unix_held_def fun_eq_iff split: option.splits)
qed (auto simp: unix_sys_def Flock_EX_def unix_good_def unix_held_def split: option.splits)

lemma windows_ranges: "windows_good s \<Longrightarrow> r \<in> set (ranges s) \<Longrightarrow> \<exists>h. r = (h, 0, 1) \<and> windows_held s h"
  by (cases r) (auto simp: windows_good_def windows_held_def)

lemma windows_fresh: "windows_good s \<Longrightarrow> handles s (nextHandle s) = None \<and> (nextHandle s, b, c) \<notin> set (ranges s)"
proof -
  assume good: "windows_good s"
  then have "handles s (nextHandle s) = None" by (auto simp: windows_good_def)
  moreover have "handles s h \<noteq> None" if "(h, b, c) \<in> set (ranges s)" for h
    using good that by (fastforce simp: windows_good_def)
  ultimately show ?thesis by blast
qed

lemma windows_lock_free:
  "LockFileEx s h 0 1 = Some s' \<Longrightarrow> handles s h' = handles s h \<Longrightarrow> \<not> windows_held s h'"
  by (force simp: LockFileEx_def windows_held_def overlaps_def split: if_splits)

lemma windows_open_law:
  assumes good: "windows_good s" and op: "os_open windows_sys s p = (s', h)"
  shows "windows_good s' \<and> handles s h = None \<and> handles s' = (handles s)(h \<mapsto> p) \<and> windows_held s' = windows_held s"
proof -
  have s': "s' = s\<lparr>handles := (handles s)(h \<mapsto> p), nextHandle := Suc h\<rparr>" "h = nextHandle s"
    using op by (auto simp: windows_sys_def windows_open_def)
  have used: "r \<in> set (ranges s) \<Longrightarrow> fst r \<noteq> h" for r
    using windows_fresh [OF good] s'(2) by (cases r) auto
  have "windows_good s'"
    using good used unfolding s'(1) windows_good_def windows_held_def
    by (auto simp: s'(2) less_Suc_eq) blast+
  then show ?thesis using windows_fresh [OF good] by (simp add: s' windows_held_def fun_eq_iff)
qed

interpretation wlock: exclusive_lock windows_sys handles windows_held windows_good
proof unfold_locales
  show "windows_good s \<Longrightarrow> os_open windows_sys s p = (s', h) \<Longrightarrow>
      windows_good s' \<and> handles s h = None \<and> handles s' = (handles s)(h \<mapsto> p) \<and> windows_held s' = windows_held s" for s p s' h
    by (rule windows_open_law)
next
  show "windows_good s \<Longrightarrow> os_lock windows_sys s h = Some s' \<Longrightarrow>
      windows_good s' \<and> handles s' = handles s \<and> windows_held s' = (windows_held s)(h := True)" for s h s'
    using windows_lock_free [of s h s']
    by (auto simp: windows_sys_def LockFileEx_def windows_good_def windows_held_def fun_eq_iff split: if_splits)
next
  show "windows_good s \<Longrightarrow>
      windows_good (os_unlock windows_sys s h) \<and> handles (os_unlock windows_sys s h) = handles s \<and>
      windows_held (os_unlock windows_sys s h) = (windows_held s)(h := False)" for s h
    by (auto simp: windows_sys_def UnlockFileEx_def windows_good_def windows_held_def fun_eq_iff)
next
  show "windows_good s \<Longrightarrow>
      windows_good (os_close windows_sys s h) \<and> handles (os_close windows_sys s h) = (handles s)(h := None) \<and>
      windows_held (os_close windows_sys s h) = (windows_held s)(h := False)" for s h
    by (auto simp: windows_sys_def windows_close_def windows_good_def windows_held_def fun_eq_iff)
next
  show "windows_good s \<Longrightarrow> handles s h = Some p \<Longrightarrow> \<forall>h'. handles s h' = Some p \<longrightarrow> \<not> windows_held s h' \<Longrightarrow>
      os_lock windows_sys s h \<noteq> None" for s h p
    by (auto simp: windows_sys_def LockFileEx_def dest!: windows_ranges)
qed (auto simp: windows_good_def windows_held_def)

section \<open>Properties\<close>

definition unix_boot :: unix_os where
  "unix_boot = \<lparr>fds = Map.empty, nextFd = 0, flocked = Map.empty\<rparr>"

definition windows_boot :: windows_os where
  "windows_boot = \<lparr>handles = Map.empty, nextHandle = 0, ranges = []\<rparr>"


definition two_processes :: "lock_label list" where
  "two_processes = [Enter 0 no_faults ''book'', Enter 1 no_faults ''book'', Attempt 1 no_faults, Attempt 0 no_faults]"


end
