(* ===== verification/Host.thy ===== *)
theory Host
  imports Gater
begin

text \<open>
  The wrapper of the libp2p host (\<^verbatim>\<open>src/pkg/protocol/host.go\<close>) and the protocol handler (\<^verbatim>\<open>handlers.go\<close>).
  libp2p itself is a parameter: the records \<open>libp2p_lib\<close> (the constructors) and \<open>host_api\<close> (the methods of a
  host) are what the code calls, and \<open>registry_laws\<close> is what the properties need of the table of stream handlers: a
  handler stays registered under its protocol identifier until it is replaced or removed.
\<close>

section \<open>What the code calls of libp2p\<close>

record 'ma AddrInfo =
  ai_ID :: peer_id
  ai_Addrs :: "'ma list"

datatype Connectedness = NotConnected | Connected | CanConnect | CannotConnect | Limited

record ('h, 'ma, 'hd, 'st, 'e) host_api =
  h_ID :: "'h \<Rightarrow> peer_id"
  h_Addrs :: "'h \<Rightarrow> 'ma list"
  h_AddAddrs :: "'h \<Rightarrow> peer_id \<Rightarrow> 'ma list \<Rightarrow> 'h"
  h_Connect :: "'h \<Rightarrow> 'ma AddrInfo \<Rightarrow> 'e option \<times> 'h"
  h_ClosePeer :: "'h \<Rightarrow> peer_id \<Rightarrow> 'e option \<times> 'h"
  h_Connectedness :: "'h \<Rightarrow> peer_id \<Rightarrow> Connectedness"
  h_SetStreamHandler :: "'h \<Rightarrow> string \<Rightarrow> 'hd \<Rightarrow> 'h"
  h_RemoveStreamHandler :: "'h \<Rightarrow> string \<Rightarrow> 'h"
  h_NewStream :: "'h \<Rightarrow> peer_id \<Rightarrow> string \<Rightarrow> ('e, 'st) result \<times> 'h"
  h_Close :: "'h \<Rightarrow> 'e option \<times> 'h"

datatype ('k, 'cm) host_option =
    Identity 'k
  | ListenAddrStrings "string list"
  | ConnectionManager 'cm
  | EnableHolePunching
  | EnableRelay
  | NATPortMap
  | WithGater ConnectionGater

text \<open>The constructors: the private key, the connection manager (low and high watermark, grace period) and the host.\<close>

record ('h, 'ma, 'k, 'cm, 'e) libp2p_lib =
  UnmarshalEd25519PrivateKey :: "bytes \<Rightarrow> ('e, 'k) result"
  NewConnManager :: "int \<Rightarrow> int \<Rightarrow> duration \<Rightarrow> ('e, 'cm) result"
  maString :: "'ma \<Rightarrow> string"
  libp2p_New :: "('k, 'cm) host_option list \<Rightarrow> ('e, 'h) result"

section \<open>The code\<close>

record 'ma HostConfig =
  hc_PrivateKey :: bytes
  hc_ListenAddrs :: "'ma list"
  hc_Gater :: "ConnectionGater option"
  ConnMgrLowWater :: int
  ConnMgrHighWater :: int

definition DefaultHostConfig :: "'ma HostConfig" where
  "DefaultHostConfig = \<lparr>hc_PrivateKey = [], hc_ListenAddrs = [], hc_Gater = None,
     ConnMgrLowWater = 100, ConnMgrHighWater = 400\<rparr>"

record ('h, 'ma) Host =
  lp :: 'h
  hostConfig :: "'ma HostConfig"

datatype 'e host_err = KeyConversionFailed 'e | ConnManagerFailed 'e | HostFailed 'e | HostConnectFailed peer_id 'e

definition host_options :: "('h, 'ma, 'k, 'cm, 'e) libp2p_lib \<Rightarrow> 'ma HostConfig \<Rightarrow> 'k \<Rightarrow> 'cm \<Rightarrow> ('k, 'cm) host_option list" where
  "host_options lib cfg priv cm =
     [Identity priv, ListenAddrStrings (map (maString lib) (hc_ListenAddrs cfg)), ConnectionManager cm,
      EnableHolePunching, EnableRelay, NATPortMap]
     @ (case hc_Gater cfg of None \<Rightarrow> [] | Some g \<Rightarrow> [WithGater g])"

definition NewHost :: "('h, 'ma, 'k, 'cm, 'e) libp2p_lib \<Rightarrow> 'ma HostConfig \<Rightarrow> ('e host_err, ('h, 'ma) Host) result" where
  "NewHost lib cfg =
     (case UnmarshalEd25519PrivateKey lib (hc_PrivateKey cfg) of
        Inl e \<Rightarrow> Inl (KeyConversionFailed e)
      | Inr priv \<Rightarrow>
          (case NewConnManager lib (ConnMgrLowWater cfg) (ConnMgrHighWater cfg) 0 of
             Inl e \<Rightarrow> Inl (ConnManagerFailed e)
           | Inr cm \<Rightarrow>
               (case libp2p_New lib (host_options lib cfg priv cm) of
                  Inl e \<Rightarrow> Inl (HostFailed e)
                | Inr h \<Rightarrow> Inr \<lparr>lp = h, hostConfig = cfg\<rparr>)))"

definition host_ID :: "('h, 'ma, 'hd, 'st, 'e) host_api \<Rightarrow> ('h, 'ma) Host \<Rightarrow> peer_id" where
  "host_ID api h = h_ID api (lp h)"

definition host_Addrs :: "('h, 'ma, 'hd, 'st, 'e) host_api \<Rightarrow> ('h, 'ma) Host \<Rightarrow> 'ma list" where
  "host_Addrs api h = h_Addrs api (lp h)"

definition host_AddrInfo :: "('h, 'ma, 'hd, 'st, 'e) host_api \<Rightarrow> ('h, 'ma) Host \<Rightarrow> 'ma AddrInfo" where
  "host_AddrInfo api h = \<lparr>ai_ID = h_ID api (lp h), ai_Addrs = h_Addrs api (lp h)\<rparr>"

definition host_Connect ::
  "('h, 'ma, 'hd, 'st, 'e) host_api \<Rightarrow> 'ma AddrInfo \<Rightarrow> ('h, 'ma) Host \<Rightarrow> 'e host_err option \<times> ('h, 'ma) Host" where
  "host_Connect api pinfo h =
     (let l = h_AddAddrs api (lp h) (ai_ID pinfo) (ai_Addrs pinfo);
          (err, l') = h_Connect api l pinfo
      in (map_option (HostConnectFailed (ai_ID pinfo)) err, h\<lparr>lp := l'\<rparr>))"

definition host_Disconnect ::
  "('h, 'ma, 'hd, 'st, 'e) host_api \<Rightarrow> peer_id \<Rightarrow> ('h, 'ma) Host \<Rightarrow> 'e option \<times> ('h, 'ma) Host" where
  "host_Disconnect api p h = (let (err, l') = h_ClosePeer api (lp h) p in (err, h\<lparr>lp := l'\<rparr>))"

definition host_Connectedness :: "('h, 'ma, 'hd, 'st, 'e) host_api \<Rightarrow> peer_id \<Rightarrow> ('h, 'ma) Host \<Rightarrow> Connectedness" where
  "host_Connectedness api p h = h_Connectedness api (lp h) p"

definition host_IsConnected :: "('h, 'ma, 'hd, 'st, 'e) host_api \<Rightarrow> peer_id \<Rightarrow> ('h, 'ma) Host \<Rightarrow> bool" where
  "host_IsConnected api p h \<longleftrightarrow> h_Connectedness api (lp h) p = Connected"

definition SetStreamHandler ::
  "('h, 'ma, 'hd, 'st, 'e) host_api \<Rightarrow> string \<Rightarrow> 'hd \<Rightarrow> ('h, 'ma) Host \<Rightarrow> ('h, 'ma) Host" where
  "SetStreamHandler api protoID handler h = h\<lparr>lp := h_SetStreamHandler api (lp h) protoID handler\<rparr>"

definition SetStreamHandlerForProtocol ::
  "('h, 'ma, 'hd, 'st, 'e) host_api \<Rightarrow> string \<Rightarrow> 'hd \<Rightarrow> ('h, 'ma) Host \<Rightarrow> ('h, 'ma) Host" where
  "SetStreamHandlerForProtocol api proto handler h =
     h\<lparr>lp := h_SetStreamHandler api (lp h) (StreamProtocolID proto) handler\<rparr>"

definition host_NewStream ::
  "('h, 'ma, 'hd, 'st, 'e) host_api \<Rightarrow> peer_id \<Rightarrow> string \<Rightarrow> ('h, 'ma) Host \<Rightarrow> ('e, 'st) result \<times> ('h, 'ma) Host" where
  "host_NewStream api p protoID h =
     (let (r, l') = h_NewStream api (lp h) p (StreamProtocolID protoID) in (r, h\<lparr>lp := l'\<rparr>))"

definition host_NewHandshakeStream ::
  "('h, 'ma, 'hd, 'st, 'e) host_api \<Rightarrow> peer_id \<Rightarrow> ('h, 'ma) Host \<Rightarrow> ('e, 'st) result \<times> ('h, 'ma) Host" where
  "host_NewHandshakeStream api p h =
     (let (r, l') = h_NewStream api (lp h) p HandshakeProtocolID in (r, h\<lparr>lp := l'\<rparr>))"

definition RemoveStreamHandler ::
  "('h, 'ma, 'hd, 'st, 'e) host_api \<Rightarrow> string \<Rightarrow> ('h, 'ma) Host \<Rightarrow> ('h, 'ma) Host" where
  "RemoveStreamHandler api protoID h = h\<lparr>lp := h_RemoveStreamHandler api (lp h) (StreamProtocolID protoID)\<rparr>"

definition host_Close :: "('h, 'ma, 'hd, 'st, 'e) host_api \<Rightarrow> ('h, 'ma) Host \<Rightarrow> 'e option \<times> ('h, 'ma) Host" where
  "host_Close api h = (let (err, l') = h_Close api (lp h) in (err, h\<lparr>lp := l'\<rparr>))"

text \<open>
  The deprecated handler: whatever the stream name and the manager, it resets the stream and hands nothing on.
\<close>

datatype stream_op = StreamReset

record 'm StreamHandler =
  streamManager :: 'm

definition NewStreamHandler :: "'m \<Rightarrow> 'm StreamHandler" where
  "NewStreamHandler manager = \<lparr>streamManager = manager\<rparr>"

definition HandleStream :: "'m StreamHandler \<Rightarrow> string \<Rightarrow> stream_op list" where
  "HandleStream sh streamName = [StreamReset]"

section \<open>The table of handlers\<close>

definition registry_laws :: "('h, 'ma, 'hd, 'st, 'e) host_api \<Rightarrow> ('h \<Rightarrow> string \<rightharpoonup> 'hd) \<Rightarrow> bool" where
  "registry_laws api handler_of \<longleftrightarrow>
     (\<forall>l i hnd. handler_of (h_SetStreamHandler api l i hnd) = (handler_of l)(i \<mapsto> hnd)) \<and>
     (\<forall>l i. handler_of (h_RemoveStreamHandler api l i) = (handler_of l)(i := None)) \<and>
     (\<forall>l p as. handler_of (h_AddAddrs api l p as) = handler_of l) \<and>
     (\<forall>l pinfo. handler_of (snd (h_Connect api l pinfo)) = handler_of l) \<and>
     (\<forall>l p. handler_of (snd (h_ClosePeer api l p)) = handler_of l) \<and>
     (\<forall>l p i. handler_of (snd (h_NewStream api l p i)) = handler_of l)"

datatype ('ma, 'hd) wrapper_call =
    CallSet string 'hd
  | CallSetFor string 'hd
  | CallRemove string
  | CallConnect "'ma AddrInfo"
  | CallDisconnect peer_id
  | CallNewStream peer_id string
  | CallHandshakeStream peer_id

fun host_exec :: "('h, 'ma, 'hd, 'st, 'e) host_api \<Rightarrow> ('ma, 'hd) wrapper_call \<Rightarrow> ('h, 'ma) Host \<Rightarrow> ('h, 'ma) Host" where
  "host_exec api (CallSet i hnd) h = SetStreamHandler api i hnd h"
| "host_exec api (CallSetFor name hnd) h = SetStreamHandlerForProtocol api name hnd h"
| "host_exec api (CallRemove name) h = RemoveStreamHandler api name h"
| "host_exec api (CallConnect pinfo) h = snd (host_Connect api pinfo h)"
| "host_exec api (CallDisconnect p) h = snd (host_Disconnect api p h)"
| "host_exec api (CallNewStream p name) h = snd (host_NewStream api p name h)"
| "host_exec api (CallHandshakeStream p) h = snd (host_NewHandshakeStream api p h)"

text \<open>
  The specification: the handler of a stream name is the one of the last call about this name, and the handler of
  handshakes that of the last call with the handshake's identifier.
\<close>

fun stream_exec :: "string \<Rightarrow> ('ma, 'hd) wrapper_call \<Rightarrow> 'hd option \<Rightarrow> 'hd option" where
  "stream_exec name (CallSet i hnd) x = (if i = StreamProtocolID name then Some hnd else x)"
| "stream_exec name (CallSetFor n hnd) x = (if n = name then Some hnd else x)"
| "stream_exec name (CallRemove n) x = (if n = name then None else x)"
| "stream_exec name _ x = x"

fun handshake_exec :: "('ma, 'hd) wrapper_call \<Rightarrow> 'hd option \<Rightarrow> 'hd option" where
  "handshake_exec (CallSet i hnd) x = (if i = HandshakeProtocolID then Some hnd else x)"
| "handshake_exec _ x = x"

lemmas host_call_defs = SetStreamHandler_def SetStreamHandlerForProtocol_def RemoveStreamHandler_def host_Connect_def
  host_Disconnect_def host_NewStream_def host_NewHandshakeStream_def

lemma host_exec_table:
  assumes "registry_laws api handler_of"
  shows "handler_of (lp (host_exec api c h)) (StreamProtocolID name) = stream_exec name c (handler_of (lp h) (StreamProtocolID name))"
    and "handler_of (lp (host_exec api c h)) HandshakeProtocolID = handshake_exec c (handler_of (lp h) HandshakeProtocolID)"
  using assms StreamProtocolID_inj StreamProtocolID_inj [THEN conjunct2, THEN not_sym]
  by (cases c; auto simp: registry_laws_def host_call_defs Let_def split_beta)+

lemma host_execs_table:
  assumes "registry_laws api handler_of"
  shows "handler_of (lp (fold (host_exec api) cs h)) (StreamProtocolID name) =
           fold (stream_exec name) cs (handler_of (lp h) (StreamProtocolID name))"
    and "handler_of (lp (fold (host_exec api) cs h)) HandshakeProtocolID =
           fold handshake_exec cs (handler_of (lp h) HandshakeProtocolID)"
  by (induction cs arbitrary: h) (simp_all add: host_exec_table [OF assms])

lemma handshake_unchanged:
  "\<forall>hnd. CallSet HandshakeProtocolID hnd \<notin> set cs \<Longrightarrow> fold handshake_exec cs x = x"
proof (induction cs arbitrary: x)
  case (Cons c cs)
  then show ?case by (cases c) auto
qed simp

section \<open>A host in memory\<close>

text \<open>
  A host with the table of handlers, the addresses known per peer and the open connections; a connection is made when an address
  of the peer is known.
\<close>

record mem_host =
  mh_handlers :: "string \<rightharpoonup> string"
  mh_peers :: "peer_id \<Rightarrow> string list"
  mh_open :: "peer_id list"

definition mem_api :: "(mem_host, string, string, string, string) host_api" where
  "mem_api = \<lparr>h_ID = (\<lambda>_. ''me''), h_Addrs = (\<lambda>_. [''/ip4/127.0.0.1/tcp/9000'']),
     h_AddAddrs = (\<lambda>l p as. l\<lparr>mh_peers := (mh_peers l)(p := mh_peers l p @ as)\<rparr>),
     h_Connect = (\<lambda>l ai. if mh_peers l (ai_ID ai) = [] then (Some ''no addresses'', l)
                         else (None, l\<lparr>mh_open := List.insert (ai_ID ai) (mh_open l)\<rparr>)),
     h_ClosePeer = (\<lambda>l p. (None, l\<lparr>mh_open := removeAll p (mh_open l)\<rparr>)),
     h_Connectedness = (\<lambda>l p. if p \<in> set (mh_open l) then Connected else NotConnected),
     h_SetStreamHandler = (\<lambda>l i hnd. l\<lparr>mh_handlers := (mh_handlers l)(i \<mapsto> hnd)\<rparr>),
     h_RemoveStreamHandler = (\<lambda>l i. l\<lparr>mh_handlers := (mh_handlers l)(i := None)\<rparr>),
     h_NewStream = (\<lambda>l p i. (if p \<in> set (mh_open l) then Inr i else Inl ''not connected'', l)),
     h_Close = (\<lambda>l. (None, l\<lparr>mh_open := []\<rparr>))\<rparr>"

definition mem_start :: "(mem_host, string) Host" where
  "mem_start = \<lparr>lp = \<lparr>mh_handlers = Map.empty, mh_peers = (\<lambda>_. []), mh_open = []\<rparr>, hostConfig = DefaultHostConfig\<rparr>"

lemma mem_api_laws: "registry_laws mem_api mh_handlers"
  by (simp add: registry_laws_def mem_api_def)

section \<open>Properties\<close>

text \<open>
  Which handler serves a stream. After any calls of the host, the handler that libp2p finds for the identifier of a stream name, the
  identifier \<^verbatim>\<open>NewStream\<close> asks the other side for, is the one of the last \<^verbatim>\<open>SetStreamHandlerForProtocol\<close> or
  \<^verbatim>\<open>RemoveStreamHandler\<close> with this name (or of a \<^verbatim>\<open>SetStreamHandler\<close> with the full identifier); registering and
  removing other streams never changes it. The handler of handshakes is changed by nothing but a \<^verbatim>\<open>SetStreamHandler\<close> with
  the handshake's identifier: in particular no \<^verbatim>\<open>RemoveStreamHandler\<close> removes it, not even one that names that identifier.
\<close>

theorem stream_handlers_routed:
  assumes "registry_laws api handler_of" and "h' = fold (host_exec api) cs h"
  shows "handler_of (lp h') (StreamProtocolID name) = fold (stream_exec name) cs (handler_of (lp h) (StreamProtocolID name)) \<and>
         ((\<forall>hnd. CallSet HandshakeProtocolID hnd \<notin> set cs) \<longrightarrow>
            handler_of (lp h') HandshakeProtocolID = handler_of (lp h) HandshakeProtocolID)"
  using host_execs_table [OF assms(1)] handshake_unchanged assms(2) by metis

theorem stream_handlers_routed_witness:
  "mh_handlers (lp (fold (host_exec mem_api)
      [CallSet HandshakeProtocolID ''hs'', CallSetFor ''chat'' ''a'', CallSetFor ''file'' ''b'', CallSetFor ''chat'' ''c'', CallRemove ''file'',
       CallRemove HandshakeProtocolID] mem_start)) (StreamProtocolID ''chat'') = Some ''c''"
  using stream_handlers_routed [OF mem_api_laws refl, of "[CallSet HandshakeProtocolID ''hs'', CallSetFor ''chat'' ''a'',
      CallSetFor ''file'' ''b'', CallSetFor ''chat'' ''c'', CallRemove ''file'', CallRemove HandshakeProtocolID]" mem_start "''chat''"]
  by (simp add: HandshakeProtocolID_def)

text \<open>
  A handler registered with \<^verbatim>\<open>SetStreamHandler\<close> is registered under the identifier as given, but \<^verbatim>\<open>RemoveStreamHandler\<close> with
  the same argument removes another one, that of the stream of this name: the registration stays.
\<close>

theorem RemoveStreamHandler_other_id:
  assumes "registry_laws api handler_of"
  shows "handler_of (lp (RemoveStreamHandler api protoID (SetStreamHandler api protoID hnd h))) protoID = Some hnd"
proof -
  have "StreamProtocolID protoID \<noteq> protoID" by (auto simp: StreamProtocolID_def StreamProtocolPrefix_def dest: arg_cong [of _ _ length])
  then show ?thesis using assms by (simp add: registry_laws_def SetStreamHandler_def RemoveStreamHandler_def)
qed

text \<open>
  What a new host is: it is made exactly when the key converts, the watermarks are accepted and libp2p accepts the options, which are the
  identity, the listen addresses in order, the connection manager without grace period, hole punching, relay, port mapping and, last, the gater,
  which is there exactly when the configuration has one.
\<close>

theorem NewHost_options:
  "(NewHost lib cfg = Inr h \<longleftrightarrow>
      hostConfig h = cfg \<and>
      (\<exists>priv cm. UnmarshalEd25519PrivateKey lib (hc_PrivateKey cfg) = Inr priv \<and>
         NewConnManager lib (ConnMgrLowWater cfg) (ConnMgrHighWater cfg) 0 = Inr cm \<and>
         libp2p_New lib (host_options lib cfg priv cm) = Inr (lp h))) \<and>
   (WithGater g \<in> set (host_options lib cfg priv cm) \<longleftrightarrow> hc_Gater cfg = Some g)"
  by (cases h) (auto simp: NewHost_def host_options_def split: sum.splits option.splits)

text \<open>
  Connecting: the addresses are added for good before the dial, also when the dial fails, and the error names the peer.
\<close>

lemma host_Connect_adds:
  "host_Connect api pinfo h = (err, h') \<Longrightarrow>
     \<exists>e. h_Connect api (h_AddAddrs api (lp h) (ai_ID pinfo) (ai_Addrs pinfo)) pinfo = (e, lp h') \<and>
         err = map_option (HostConnectFailed (ai_ID pinfo)) e \<and> hostConfig h' = hostConfig h"
  by (auto simp: host_Connect_def Let_def split: prod.splits)

end
