(* ===== verification/Observability.thy ===== *)
theory Observability
  imports Prelude "HOL-Library.Log_Nat" "HOL-Library.Sublist"
begin

text \<open>
  What the library reports about itself: the metrics interface with its Prometheus implementation (\<^verbatim>\<open>src/metrics.go\<close>,
  \<^verbatim>\<open>src/internal/observability/prometheus/metrics.go\<close>), the tracer (\<^verbatim>\<open>src/internal/observability/otel/tracing.go\<close>) and the loggers
  (\<^verbatim>\<open>src/logging.go\<close>). The Prometheus and OpenTelemetry libraries are not part of the repository. A method is the list of the calls it makes to
  them, in order, with their arguments; the registry is a parameter with \<open>registerer_laws\<close>.
\<close>

section \<open>The metrics\<close>

text \<open>The fields of \<^verbatim>\<open>Metrics\<close>, one per metric, in the order in which they are registered.\<close>

datatype metric =
  ConnectionsOpened | ConnectionsClosed | ConnectionAttempts | HandshakeDurations | HandshakeResults |
  MessagesSent | MessagesReceived | BytesSent | BytesReceived | StreamsOpened | StreamsClosed | EncryptionErrors
  | DecryptionErrors | KeyDerivations | EventsEmitted | EventsDropped | MessagesDropped |
  BackpressureEngagements | BackpressureWaits | PendingGauge

text \<open>The kind of a metric with the name of its label, if it has one; buckets are in thousandths of a second.\<close>

datatype metric_kind = CounterK "string option" | HistogramK "string option" "nat list" | GaugeK "string option"

fun metric_name :: "metric \<Rightarrow> string" where
  "metric_name ConnectionsOpened = ''connections_opened_total''"
| "metric_name ConnectionsClosed = ''connections_closed_total''"
| "metric_name ConnectionAttempts = ''connection_attempts_total''"
| "metric_name HandshakeDurations = ''handshake_duration_seconds''"
| "metric_name HandshakeResults = ''handshake_results_total''"
| "metric_name MessagesSent = ''messages_sent_total''"
| "metric_name MessagesReceived = ''messages_received_total''"
| "metric_name BytesSent = ''bytes_sent_total''"
| "metric_name BytesReceived = ''bytes_received_total''"
| "metric_name StreamsOpened = ''streams_opened_total''"
| "metric_name StreamsClosed = ''streams_closed_total''"
| "metric_name EncryptionErrors = ''encryption_errors_total''"
| "metric_name DecryptionErrors = ''decryption_errors_total''"
| "metric_name KeyDerivations = ''key_derivations_total''"
| "metric_name EventsEmitted = ''events_emitted_total''"
| "metric_name EventsDropped = ''events_dropped_total''"
| "metric_name MessagesDropped = ''messages_dropped_total''"
| "metric_name BackpressureEngagements = ''backpressure_engaged_total''"
| "metric_name BackpressureWaits = ''backpressure_wait_seconds''"
| "metric_name PendingGauge = ''pending_messages''"

fun kind_of :: "metric \<Rightarrow> metric_kind" where
  "kind_of ConnectionsOpened = CounterK (Some ''direction'')"
| "kind_of ConnectionsClosed = CounterK (Some ''direction'')"
| "kind_of ConnectionAttempts = CounterK (Some ''result'')"
| "kind_of HandshakeDurations = HistogramK None [10, 50, 100, 250, 500, 1000, 2500, 5000, 10000]"
| "kind_of HandshakeResults = CounterK (Some ''result'')"
| "kind_of MessagesSent = CounterK (Some ''stream'')"
| "kind_of MessagesReceived = CounterK (Some ''stream'')"
| "kind_of BytesSent = CounterK (Some ''stream'')"
| "kind_of BytesReceived = CounterK (Some ''stream'')"
| "kind_of StreamsOpened = CounterK (Some ''stream'')"
| "kind_of StreamsClosed = CounterK (Some ''stream'')"
| "kind_of EncryptionErrors = CounterK None"
| "kind_of DecryptionErrors = CounterK None"
| "kind_of KeyDerivations = CounterK (Some ''cached'')"
| "kind_of EventsEmitted = CounterK (Some ''state'')"
| "kind_of EventsDropped = CounterK None"
| "kind_of MessagesDropped = CounterK None"
| "kind_of BackpressureEngagements = CounterK (Some ''stream'')"
| "kind_of BackpressureWaits = HistogramK (Some ''stream'') [1, 5, 10, 50, 100, 500, 1000, 5000, 10000]"
| "kind_of PendingGauge = GaugeK (Some ''stream'')"

definition all_metrics :: "metric list" where
  "all_metrics =
    [ConnectionsOpened, ConnectionsClosed, ConnectionAttempts, HandshakeDurations, HandshakeResults, MessagesSent,
     MessagesReceived, BytesSent, BytesReceived, StreamsOpened, StreamsClosed, EncryptionErrors, DecryptionErrors,
     KeyDerivations, EventsEmitted, EventsDropped, MessagesDropped, BackpressureEngagements, BackpressureWaits,
     PendingGauge]"

definition DefaultNamespace :: string where
  "DefaultNamespace = ''glueberry''"

text \<open>The full name of a metric without subsystem is its namespace and its name, joined by an underscore.\<close>

definition fq_name :: "string \<Rightarrow> metric \<Rightarrow> string" where
  "fq_name namespace m = namespace @ ''_'' @ metric_name m"

definition effective_namespace :: "string \<Rightarrow> string" where
  "effective_namespace namespace = (if namespace = [] then DefaultNamespace else namespace)"

record Metrics =
  metricsNamespace :: string

text \<open>
  \<^verbatim>\<open>NewMetricsWithRegisterer\<close>: \<open>must_register\<close> is \<^verbatim>\<open>MustRegister\<close>, \<open>None\<close> when it panics. A nil registerer registers nothing.
\<close>

definition NewMetricsWithRegisterer ::
  "('r \<Rightarrow> string list \<Rightarrow> 'r option) \<Rightarrow> string \<Rightarrow> 'r option \<Rightarrow> (Metrics \<times> 'r option) option" where
  "NewMetricsWithRegisterer must_register namespace registerer =
     (let ns = effective_namespace namespace in
      case registerer of
        None \<Rightarrow> Some (\<lparr>metricsNamespace = ns\<rparr>, None)
      | Some r \<Rightarrow>
          (case must_register r (map (fq_name ns) all_metrics) of
             None \<Rightarrow> None
           | Some r' \<Rightarrow> Some (\<lparr>metricsNamespace = ns\<rparr>, Some r')))"

definition NewMetrics ::
  "('r \<Rightarrow> string list \<Rightarrow> 'r option) \<Rightarrow> string \<Rightarrow> 'r \<Rightarrow> (Metrics \<times> 'r option) option" where
  "NewMetrics must_register namespace defaultRegisterer =
     NewMetricsWithRegisterer must_register namespace (Some defaultRegisterer)"

text \<open>What is documented of the registry: it takes new, valid names and panics otherwise.\<close>

definition registerer_laws ::
  "('r \<Rightarrow> string list \<Rightarrow> 'r option) \<Rightarrow> ('r \<Rightarrow> string \<Rightarrow> bool) \<Rightarrow> (string \<Rightarrow> bool) \<Rightarrow> bool" where
  "registerer_laws must_register taken valid \<longleftrightarrow>
     (\<forall>r names. must_register r names \<noteq> None \<longleftrightarrow>
        distinct names \<and> (\<forall>n \<in> set names. valid n \<and> \<not> taken r n)) \<and>
     (\<forall>r names r'. must_register r names = Some r' \<longrightarrow> taken r' = (\<lambda>n. taken r n \<or> n \<in> set names))"

section \<open>Reporting\<close>

text \<open>\<^verbatim>\<open>float64(n)\<close>: the nearest number with 53 significant bits, ties to even.\<close>

definition round_even :: "int \<Rightarrow> int \<Rightarrow> int" where
  "round_even a m =
     (if 2 * (a mod m) < m \<or> (2 * (a mod m) = m \<and> even (a div m)) then (a div m) * m else (a div m + 1) * m)"

definition float64_of_int :: "int \<Rightarrow> int" where
  "float64_of_int x =
     (if \<bar>x\<bar> \<le> 2 ^ 53 then x else sgn x * round_even \<bar>x\<bar> (2 ^ (floorlog 2 (nat \<bar>x\<bar>) - 53)))"

text \<open>A call of the metrics interface; a duration is a number of seconds of some type of floats.\<close>

datatype 'f metrics_call =
    ConnectionOpened string | ConnectionClosed string | ConnectionAttempt string | HandshakeDuration 'f | HandshakeResult string
  | MessageSent string int | MessageReceived string int | StreamOpened string | StreamClosed string
  | EncryptionError | DecryptionError | KeyDerivation bool | EventEmitted string | EventDropped | MessageDropped
  | BackpressureEngaged string | BackpressureWait string 'f | PendingMessages string int

text \<open>A call of the Prometheus library on the metric with the given label values.\<close>

datatype 'f metric_op =
    Inc metric "string list"
  | AddTo metric "string list" int
  | Observe metric "string list" 'f
  | SetTo metric "string list" int

definition FormatBool :: "bool \<Rightarrow> string" where
  "FormatBool b = (if b then ''true'' else ''false'')"

fun prometheus_ops :: "'f metrics_call \<Rightarrow> 'f metric_op list" where
  "prometheus_ops (ConnectionOpened direction) = [Inc ConnectionsOpened [direction]]"
| "prometheus_ops (ConnectionClosed direction) = [Inc ConnectionsClosed [direction]]"
| "prometheus_ops (ConnectionAttempt result) = [Inc ConnectionAttempts [result]]"
| "prometheus_ops (HandshakeDuration seconds) = [Observe HandshakeDurations [] seconds]"
| "prometheus_ops (HandshakeResult result) = [Inc HandshakeResults [result]]"
| "prometheus_ops (MessageSent stream n) = [Inc MessagesSent [stream], AddTo BytesSent [stream] (float64_of_int n)]"
| "prometheus_ops (MessageReceived stream n) = [Inc MessagesReceived [stream], AddTo BytesReceived [stream] (float64_of_int n)]"
| "prometheus_ops (StreamOpened stream) = [Inc StreamsOpened [stream]]"
| "prometheus_ops (StreamClosed stream) = [Inc StreamsClosed [stream]]"
| "prometheus_ops EncryptionError = [Inc EncryptionErrors []]"
| "prometheus_ops DecryptionError = [Inc DecryptionErrors []]"
| "prometheus_ops (KeyDerivation cached) = [Inc KeyDerivations [FormatBool cached]]"
| "prometheus_ops (EventEmitted state) = [Inc EventsEmitted [state]]"
| "prometheus_ops EventDropped = [Inc EventsDropped []]"
| "prometheus_ops MessageDropped = [Inc MessagesDropped []]"
| "prometheus_ops (BackpressureEngaged stream) = [Inc BackpressureEngagements [stream]]"
| "prometheus_ops (BackpressureWait stream seconds) = [Observe BackpressureWaits [stream] seconds]"
| "prometheus_ops (PendingMessages stream count) = [SetTo PendingGauge [stream] (float64_of_int count)]"

text \<open>\<^verbatim>\<open>NopMetrics\<close>, the default, drops every call.\<close>

definition nop_ops :: "'f metrics_call \<Rightarrow> 'f metric_op list" where
  "nop_ops c = []"

text \<open>A logger call: the level, the message and the key-value pairs. \<^verbatim>\<open>NopLogger\<close> writes nothing.\<close>

datatype log_level = LevelDebug | LevelInfo | LevelWarn | LevelError

record 'v log_call =
  log_level :: log_level
  log_msg :: string
  keysAndValues :: "'v list"

definition nop_log :: "'v log_call \<Rightarrow> 'v log_call list" where
  "nop_log c = []"


section \<open>Lemmas about the metrics\<close>

lemma all_metrics_complete: "m \<in> set all_metrics"
  by (cases m) (simp_all add: all_metrics_def)

text \<open>No name ends in another name after an underscore, so full names do not clash across namespaces.\<close>

lemma names_no_suffix: "\<not> suffix (CHR 0x5F # metric_name m) (metric_name m')"
proof -
  have "\<forall>m \<in> set all_metrics. \<forall>m' \<in> set all_metrics. \<not> prefix (rev (metric_name m) @ [CHR 0x5F]) (rev (metric_name m'))"
    by code_simp
  then show ?thesis by (simp add: all_metrics_complete suffix_to_prefix)
qed

lemma metric_name_inj: "metric_name m = metric_name m' \<longleftrightarrow> m = m'"
proof -
  have "distinct (map metric_name all_metrics)" by code_simp
  then show ?thesis using all_metrics_complete by (auto simp: distinct_map inj_on_def)
qed

lemma fq_name_inj: "fq_name ns m = fq_name ns' m' \<longleftrightarrow> ns = ns' \<and> m = m'"
proof
  assume "fq_name ns m = fq_name ns' m'"
  then obtain us where "(ns = ns' @ us \<and> us @ CHR 0x5F # metric_name m = CHR 0x5F # metric_name m') \<or>
      (ns @ us = ns' \<and> CHR 0x5F # metric_name m = us @ CHR 0x5F # metric_name m')"
    by (auto simp: fq_name_def append_eq_append_conv2)
  then show "ns = ns' \<and> m = m'"
    using names_no_suffix [of m m'] names_no_suffix [of m' m]
    by (cases us) (auto simp: metric_name_inj suffix_def eq_commute [of "_ @ _" "metric_name _"])
qed simp

text \<open>
  When the library does not panic on a call: the operation fits the kind, a label value is given for exactly the declared
  label, and a counter is not decreased.
\<close>

definition labels_fit :: "string option \<Rightarrow> string list \<Rightarrow> bool" where
  "labels_fit l vs \<longleftrightarrow> length vs = (case l of None \<Rightarrow> 0 | Some _ \<Rightarrow> 1)"

fun op_ok :: "'f metric_op \<Rightarrow> bool" where
  "op_ok (Inc m vs) = (case kind_of m of CounterK l \<Rightarrow> labels_fit l vs | GaugeK l \<Rightarrow> labels_fit l vs | _ \<Rightarrow> False)"
| "op_ok (AddTo m vs x) = (case kind_of m of CounterK l \<Rightarrow> labels_fit l vs \<and> 0 \<le> x | GaugeK l \<Rightarrow> labels_fit l vs | _ \<Rightarrow> False)"
| "op_ok (Observe m vs x) = (case kind_of m of HistogramK l b \<Rightarrow> labels_fit l vs | _ \<Rightarrow> False)"
| "op_ok (SetTo m vs x) = (case kind_of m of GaugeK l \<Rightarrow> labels_fit l vs | _ \<Rightarrow> False)"

fun call_size :: "'f metrics_call \<Rightarrow> int" where
  "call_size (MessageSent stream n) = n"
| "call_size (MessageReceived stream n) = n"
| "call_size _ = 0"

lemma float64_exact [simp]: "\<bar>x\<bar> \<le> 2 ^ 53 \<Longrightarrow> float64_of_int x = x"
  by (simp add: float64_of_int_def)

lemma round_even_nonneg: "0 \<le> a \<Longrightarrow> 0 < m \<Longrightarrow> 0 \<le> round_even a m"
  by (simp add: round_even_def pos_imp_zdiv_nonneg_iff)

lemma round_even_ge: "0 < m \<Longrightarrow> m \<le> a \<Longrightarrow> m \<le> round_even a m"
proof -
  assume "0 < m" "m \<le> a"
  then have "1 \<le> a div m" by (simp add: pos_imp_zdiv_pos_iff int_one_le_iff_zero_less)
  then have "1 * m \<le> a div m * m" "1 * m \<le> (a div m + 1) * m"
    using \<open>0 < m\<close> by (auto intro!: mult_right_mono)
  then show ?thesis by (simp add: round_even_def)
qed

lemma float64_sign: "0 \<le> float64_of_int x \<longleftrightarrow> 0 \<le> x"
proof (cases "\<bar>x\<bar> \<le> 2 ^ 53")
  case False
  define e where "e = floorlog 2 (nat \<bar>x\<bar>) - 53"
  have "(2::nat) ^ (floorlog 2 (nat \<bar>x\<bar>) - 1) \<le> nat \<bar>x\<bar>" using False floorlog_bounds [of "nat \<bar>x\<bar>" 2] by simp
  moreover have "(2::nat) ^ e \<le> 2 ^ (floorlog 2 (nat \<bar>x\<bar>) - 1)" unfolding e_def by (rule power_increasing) simp_all
  ultimately have "2 ^ e \<le> nat \<bar>x\<bar>" by linarith
  then have "2 ^ e \<le> \<bar>x\<bar>" by (metis abs_ge_zero of_nat_le_iff of_nat_numeral of_nat_power int_nat_eq)
  then have "(2::int) ^ e \<le> round_even \<bar>x\<bar> (2 ^ e)" by (intro round_even_ge) simp_all
  then have "0 < round_even \<bar>x\<bar> (2 ^ e)" by (meson less_le_trans zero_less_numeral zero_less_power)
  then show ?thesis using False by (auto simp: float64_of_int_def e_def zero_le_mult_iff sgn_if)
qed simp

lemma prometheus_ops_ok: "(\<forall>op \<in> set (prometheus_ops c). op_ok op) \<longleftrightarrow> 0 \<le> call_size c"
  by (cases c) (simp_all add: labels_fit_def float64_sign)

text \<open>The increase of a counter by a list of library calls, and the value a gauge is left with.\<close>

fun op_increase :: "metric \<Rightarrow> string list \<Rightarrow> 'f metric_op \<Rightarrow> int" where
  "op_increase m vs (Inc m' vs') = (if m' = m \<and> vs' = vs then 1 else 0)"
| "op_increase m vs (AddTo m' vs' x) = (if m' = m \<and> vs' = vs then x else 0)"
| "op_increase m vs _ = 0"

definition counter_total :: "metric \<Rightarrow> string list \<Rightarrow> 'f metric_op list \<Rightarrow> int" where
  "counter_total m vs ops = sum_list (map (op_increase m vs) ops)"

lemma counter_total_concat:
  "counter_total m vs (concat (map f cs)) = sum_list (map (\<lambda>c. counter_total m vs (f c)) cs)"
  by (induction cs) (simp_all add: counter_total_def)

lemma counter_counts:
  assumes "\<And>c. c \<in> set cs \<Longrightarrow> counter_total m vs (prometheus_ops c) = (if P c then g c else 0)"
  shows "counter_total m vs (concat (map prometheus_ops cs)) = (\<Sum>c \<leftarrow> filter P cs. g c)"
  using assms unfolding counter_total_concat by (induction cs) simp_all

section \<open>The tracer\<close>

datatype attr_value = AttrString string | AttrInt int

datatype span_kind = SpanKindInternal | SpanKindClient | SpanKindProducer | SpanKindConsumer

text \<open>The arguments of the \<^verbatim>\<open>Start\<close> of an OpenTelemetry tracer.\<close>

record span_start =
  sp_name :: string
  sp_attrs :: "(string \<times> attr_value) list"
  sp_kind :: span_kind

definition TracerName :: string where
  "TracerName = ''github.com/blockberries/glueberry''"

datatype span_name = SpanConnect | SpanDial | SpanHandshake | SpanKeyDerive | SpanStreamSetup | SpanEstablished | SpanSend
  | SpanEncrypt | SpanWrite | SpanReceive | SpanRead | SpanDecrypt | SpanDisconnect

fun span_string :: "span_name \<Rightarrow> string" where
  "span_string SpanConnect = ''glueberry.connect''"
| "span_string SpanDial = ''glueberry.dial''"
| "span_string SpanHandshake = ''glueberry.handshake''"
| "span_string SpanKeyDerive = ''glueberry.key_derivation''"
| "span_string SpanStreamSetup = ''glueberry.stream_setup''"
| "span_string SpanEstablished = ''glueberry.established''"
| "span_string SpanSend = ''glueberry.send''"
| "span_string SpanEncrypt = ''glueberry.encrypt''"
| "span_string SpanWrite = ''glueberry.write''"
| "span_string SpanReceive = ''glueberry.receive''"
| "span_string SpanRead = ''glueberry.read''"
| "span_string SpanDecrypt = ''glueberry.decrypt''"
| "span_string SpanDisconnect = ''glueberry.disconnect''"

definition AttrPeerID :: string where
  "AttrPeerID = ''peer.id''"

definition AttrStreamName :: string where
  "AttrStreamName = ''stream.name''"

definition AttrMessageSize :: string where
  "AttrMessageSize = ''message.size''"

definition AttrConnectionDirection :: string where
  "AttrConnectionDirection = ''connection.direction''"

definition AttrHandshakeResult :: string where
  "AttrHandshakeResult = ''handshake.result''"

definition AttrErrorMessage :: string where
  "AttrErrorMessage = ''error.message''"

text \<open>The tracer of the given provider, or the one of the provider that does nothing.\<close>

datatype 'p tracer_of = NoopTracer string | ProviderTracer 'p string

record 'p Tracer =
  tracer :: "'p tracer_of"

definition NewTracer :: "'p option \<Rightarrow> 'p Tracer" where
  "NewTracer provider =
     (case provider of
        None \<Rightarrow> \<lparr>tracer = NoopTracer TracerName\<rparr>
      | Some p \<Rightarrow> \<lparr>tracer = ProviderTracer p TracerName\<rparr>)"

definition NewNopTracer :: "'p Tracer" where
  "NewNopTracer = NewTracer None"

text \<open>Each method starts one span on the tracer; \<open>idStr\<close> is \<^verbatim>\<open>peer.ID.String\<close>.\<close>

definition StartConnect :: "(peer_id \<Rightarrow> string) \<Rightarrow> 'p Tracer \<Rightarrow> peer_id \<Rightarrow> string \<Rightarrow> 'p tracer_of \<times> span_start" where
  "StartConnect idStr t peerID direction =
     (tracer t, \<lparr>sp_name = span_string SpanConnect,
        sp_attrs = [(AttrPeerID, AttrString (idStr peerID)), (AttrConnectionDirection, AttrString direction)],
        sp_kind = SpanKindClient\<rparr>)"

definition StartDial :: "(peer_id \<Rightarrow> string) \<Rightarrow> 'p Tracer \<Rightarrow> peer_id \<Rightarrow> 'p tracer_of \<times> span_start" where
  "StartDial idStr t peerID =
     (tracer t, \<lparr>sp_name = span_string SpanDial, sp_attrs = [(AttrPeerID, AttrString (idStr peerID))], sp_kind = SpanKindInternal\<rparr>)"

definition StartHandshake :: "(peer_id \<Rightarrow> string) \<Rightarrow> 'p Tracer \<Rightarrow> peer_id \<Rightarrow> 'p tracer_of \<times> span_start" where
  "StartHandshake idStr t peerID =
     (tracer t, \<lparr>sp_name = span_string SpanHandshake, sp_attrs = [(AttrPeerID, AttrString (idStr peerID))], sp_kind = SpanKindInternal\<rparr>)"

definition StartKeyDerivation :: "(peer_id \<Rightarrow> string) \<Rightarrow> 'p Tracer \<Rightarrow> peer_id \<Rightarrow> 'p tracer_of \<times> span_start" where
  "StartKeyDerivation idStr t peerID =
     (tracer t, \<lparr>sp_name = span_string SpanKeyDerive, sp_attrs = [(AttrPeerID, AttrString (idStr peerID))], sp_kind = SpanKindInternal\<rparr>)"

definition StartStreamSetup :: "(peer_id \<Rightarrow> string) \<Rightarrow> 'p Tracer \<Rightarrow> peer_id \<Rightarrow> string \<Rightarrow> 'p tracer_of \<times> span_start" where
  "StartStreamSetup idStr t peerID streamName =
     (tracer t, \<lparr>sp_name = span_string SpanStreamSetup,
        sp_attrs = [(AttrPeerID, AttrString (idStr peerID)), (AttrStreamName, AttrString streamName)],
        sp_kind = SpanKindInternal\<rparr>)"

definition StartSend :: "(peer_id \<Rightarrow> string) \<Rightarrow> 'p Tracer \<Rightarrow> peer_id \<Rightarrow> string \<Rightarrow> int \<Rightarrow> 'p tracer_of \<times> span_start" where
  "StartSend idStr t peerID streamName sz =
     (tracer t, \<lparr>sp_name = span_string SpanSend,
        sp_attrs = [(AttrPeerID, AttrString (idStr peerID)), (AttrStreamName, AttrString streamName), (AttrMessageSize, AttrInt sz)],
        sp_kind = SpanKindProducer\<rparr>)"

definition StartEncrypt :: "'p Tracer \<Rightarrow> int \<Rightarrow> 'p tracer_of \<times> span_start" where
  "StartEncrypt t sz =
     (tracer t, \<lparr>sp_name = span_string SpanEncrypt, sp_attrs = [(AttrMessageSize, AttrInt sz)], sp_kind = SpanKindInternal\<rparr>)"

definition StartReceive :: "(peer_id \<Rightarrow> string) \<Rightarrow> 'p Tracer \<Rightarrow> peer_id \<Rightarrow> string \<Rightarrow> 'p tracer_of \<times> span_start" where
  "StartReceive idStr t peerID streamName =
     (tracer t, \<lparr>sp_name = span_string SpanReceive,
        sp_attrs = [(AttrPeerID, AttrString (idStr peerID)), (AttrStreamName, AttrString streamName)],
        sp_kind = SpanKindConsumer\<rparr>)"

definition StartDecrypt :: "'p Tracer \<Rightarrow> 'p tracer_of \<times> span_start" where
  "StartDecrypt t = (tracer t, \<lparr>sp_name = span_string SpanDecrypt, sp_attrs = [], sp_kind = SpanKindInternal\<rparr>)"

definition StartDisconnect :: "(peer_id \<Rightarrow> string) \<Rightarrow> 'p Tracer \<Rightarrow> peer_id \<Rightarrow> 'p tracer_of \<times> span_start" where
  "StartDisconnect idStr t peerID =
     (tracer t, \<lparr>sp_name = span_string SpanDisconnect, sp_attrs = [(AttrPeerID, AttrString (idStr peerID))], sp_kind = SpanKindInternal\<rparr>)"

text \<open>The calls on a span; an error is given by its text, \<^verbatim>\<open>err.Error()\<close>.\<close>

datatype span_status = StatusOk | StatusError string

datatype span_op = SetAttribute string attr_value | SetStatus span_status | RecordErr string | EndIt

definition RecordHandshakeResult :: "string \<Rightarrow> string option \<Rightarrow> span_op list" where
  "RecordHandshakeResult result err =
     SetAttribute AttrHandshakeResult (AttrString result) #
     (case err of
        Some e \<Rightarrow> [SetStatus (StatusError e), SetAttribute AttrErrorMessage (AttrString e)]
      | None \<Rightarrow> [SetStatus StatusOk])"

definition RecordError :: "string option \<Rightarrow> span_op list" where
  "RecordError err = (case err of Some e \<Rightarrow> [RecordErr e, SetStatus (StatusError e)] | None \<Rightarrow> [])"

definition EndSpan :: "string option \<Rightarrow> span_op list" where
  "EndSpan err = (case err of Some e \<Rightarrow> [RecordErr e, SetStatus (StatusError e)] | None \<Rightarrow> []) @ [EndIt]"

text \<open>The status a span is left with by a list of calls.\<close>

fun status_after :: "span_status option \<Rightarrow> span_op list \<Rightarrow> span_status option" where
  "status_after st [] = st"
| "status_after st (SetStatus x # ops) = status_after (Some x) ops"
| "status_after st (_ # ops) = status_after st ops"

lemma EndSpan_is_RecordError: "EndSpan err = RecordError err @ [EndIt]"
  by (simp add: EndSpan_def RecordError_def)

lemma status_after_append: "status_after st (xs @ ys) = status_after (status_after st xs) ys"
  by (induction st xs rule: status_after.induct) simp_all

lemma span_string_inj: "span_string a = span_string b \<longleftrightarrow> a = b"
  by (cases a; cases b; simp)

section \<open>Properties\<close>

text \<open>
  Two collectors on one registry. With valid names, a second collector can be created on the registry of a first one exactly when their
  namespaces differ, an empty namespace counting as the default one; otherwise the creation panics.
\<close>

theorem collectors_coexist:
  assumes "registerer_laws must_register taken valid"
    and "\<forall>m. valid (fq_name (effective_namespace a) m) \<and> valid (fq_name (effective_namespace b) m)"
    and "\<forall>n. \<not> taken r n"
  shows "\<exists>r'. NewMetrics must_register a r = Some (\<lparr>metricsNamespace = effective_namespace a\<rparr>, Some r') \<and>
           (NewMetrics must_register b r' \<noteq> None \<longleftrightarrow> effective_namespace a \<noteq> effective_namespace b)"
proof -
  define na where "na = map (fq_name (effective_namespace a)) all_metrics"
  define nb where "nb = map (fq_name (effective_namespace b)) all_metrics"
  have dm: "distinct all_metrics" by (simp add: all_metrics_def)
  have dist: "distinct na" "distinct nb" using dm
    by (auto simp: na_def nb_def distinct_map inj_on_def fq_name_inj)
  have "must_register r na \<noteq> None" using assms dist(1) by (auto simp: registerer_laws_def na_def)
  then obtain r' where r': "must_register r na = Some r'" by blast
  then have taken: "taken r' = (\<lambda>n. n \<in> set na)" using assms(1,3) by (simp add: registerer_laws_def)
  have meet: "(\<forall>n \<in> set nb. n \<notin> set na) \<longleftrightarrow> effective_namespace a \<noteq> effective_namespace b"
    using all_metrics_complete by (auto simp: na_def nb_def fq_name_inj)
  have valid: "\<forall>n \<in> set nb. valid n" using assms(2) by (auto simp: nb_def)
  have law: "must_register r' nb \<noteq> None \<longleftrightarrow> distinct nb \<and> (\<forall>n \<in> set nb. valid n \<and> \<not> taken r' n)"
    using assms(1) unfolding registerer_laws_def by blast
  have "must_register r' nb \<noteq> None \<longleftrightarrow> (\<forall>n \<in> set nb. n \<notin> set na)"
    unfolding law taken using dist(2) valid by blast
  then show ?thesis unfolding meet using r'
    by (auto simp: NewMetrics_def NewMetricsWithRegisterer_def Let_def na_def nb_def split: option.splits)
qed

text \<open>A registry that keeps the list of names.\<close>

definition list_register :: "string list \<Rightarrow> string list \<Rightarrow> string list option" where
  "list_register r names = (if distinct names \<and> (\<forall>n \<in> set names. n \<notin> set r) then Some (r @ names) else None)"

theorem collectors_coexist_witness:
  "(\<exists>r'. NewMetrics list_register [] [] = Some (\<lparr>metricsNamespace = ''glueberry''\<rparr>, Some r') \<and>
      NewMetrics list_register ''glueberry'' r' = None) \<and>
   (\<exists>r'. NewMetrics list_register [] [] = Some (\<lparr>metricsNamespace = ''glueberry''\<rparr>, Some r') \<and>
      NewMetrics list_register ''myapp'' r' \<noteq> None)"
proof -
  have laws: "registerer_laws list_register (\<lambda>r n. n \<in> set r) (\<lambda>_. True)"
    by (auto simp: registerer_laws_def list_register_def fun_eq_iff split: if_splits)
  have ns: "effective_namespace [] = ''glueberry''" "effective_namespace ''glueberry'' = ''glueberry''"
    "effective_namespace ''myapp'' = ''myapp''"
    by (simp_all add: effective_namespace_def DefaultNamespace_def)
  show ?thesis
    using collectors_coexist [OF laws, where a = "[]" and b = "''glueberry''" and r = "[]"]
      collectors_coexist [OF laws, where a = "[]" and b = "''myapp''" and r = "[]"]
    by (simp add: ns del: not_None_eq)
qed

text \<open>
  The counters are exact. After any calls of the collector with sizes that are not negative, no call of the Prometheus library panics
  (every operation fits the kind of its metric, has exactly the declared label, and adds no negative number), the counter of
  messages sent on a stream has grown by the number of messages reported for this stream, and the counter of bytes by the sum of their sizes, as long
  as each size is at most \<open>2 ^ 53\<close>; a negative size makes the collector panic.
\<close>

theorem collector_counts:
  assumes "\<forall>c \<in> set cs. call_size c \<le> 2 ^ 53"
  shows "((\<forall>op \<in> set (concat (map prometheus_ops cs)). op_ok op) \<longleftrightarrow> (\<forall>c \<in> set cs. 0 \<le> call_size c)) \<and>
         ((\<forall>c \<in> set cs. 0 \<le> call_size c) \<longrightarrow>
           counter_total MessagesSent [stream] (concat (map prometheus_ops cs)) =
             int (length (filter (\<lambda>c. \<exists>n. c = MessageSent stream n) cs)) \<and>
           counter_total BytesSent [stream] (concat (map prometheus_ops cs)) =
             (\<Sum>c \<leftarrow> filter (\<lambda>c. \<exists>n. c = MessageSent stream n) cs. call_size c))"
proof (intro conjI impI)
  show "(\<forall>op \<in> set (concat (map prometheus_ops cs)). op_ok op) \<longleftrightarrow> (\<forall>c \<in> set cs. 0 \<le> call_size c)"
    using prometheus_ops_ok by fastforce
next
  show "counter_total MessagesSent [stream] (concat (map prometheus_ops cs)) =
      int (length (filter (\<lambda>c. \<exists>n. c = MessageSent stream n) cs))"
  proof -
    have "counter_total MessagesSent [stream] (prometheus_ops c) = (if \<exists>n. c = MessageSent stream n then 1 else 0)" for c :: "'a metrics_call"
      by (cases c) (simp_all add: counter_total_def)
    then show ?thesis
      using counter_counts [of cs MessagesSent "[stream]" "\<lambda>c. \<exists>n. c = MessageSent stream n" "\<lambda>_. 1"]
      by (simp add: sum_list_triv)
  qed
next
  assume "\<forall>c \<in> set cs. 0 \<le> call_size c"
  then have "\<bar>call_size c\<bar> \<le> 2 ^ 53" if "c \<in> set cs" for c using assms that by auto
  then have "c \<in> set cs \<Longrightarrow> counter_total BytesSent [stream] (prometheus_ops c) =
      (if \<exists>n. c = MessageSent stream n then call_size c else 0)" for c
    by (cases c) (force simp: counter_total_def)+
  then show "counter_total BytesSent [stream] (concat (map prometheus_ops cs)) =
      (\<Sum>c \<leftarrow> filter (\<lambda>c. \<exists>n. c = MessageSent stream n) cs. call_size c)"
    by (rule counter_counts)
qed

theorem collector_counts_witness:
  "counter_total BytesSent [''chat''] (concat (map prometheus_ops
     [MessageSent ''chat'' 5, MessageSent ''file'' 9, EncryptionError, MessageSent ''chat'' 2 :: nat metrics_call])) = 7"
  using collector_counts [of "[MessageSent ''chat'' 5, MessageSent ''file'' 9, EncryptionError, MessageSent ''chat'' 2 :: nat metrics_call]" "''chat''"]
  by simp

text \<open>
  A span that is ended ends once, as its last call, and has the status of the error given at the end, or of what was recorded before
  when there is none; a handshake result sets the status in either case.
\<close>

lemma span_ends_with_its_error:
  "\<exists>ops. EndSpan err = ops @ [EndIt] \<and> EndIt \<notin> set ops \<and>
     status_after st (RecordHandshakeResult result e @ EndSpan err) =
       Some (case err of Some x \<Rightarrow> StatusError x | None \<Rightarrow> (case e of Some x \<Rightarrow> StatusError x | None \<Rightarrow> StatusOk))"
  by (rule exI [of _ "RecordError err"])
    (auto simp: EndSpan_is_RecordError RecordError_def RecordHandshakeResult_def split: option.splits)

end
