(* ===== verification/Filtered.thy ===== *)
theory Filtered
  imports Subscriptions
begin

text \<open>
  Filtered subscriptions (\<^verbatim>\<open>FilteredEvents\<close> of \<^verbatim>\<open>src/node.go\<close>): a subscription of its own below, a second channel, and a goroutine that moves the events that match from
  one to the other until it is cancelled or its subscription ends. Its rounds are interleaved with everything that the distribution of events does.
\<close>

section \<open>Operations\<close>

text \<open>\<open>fl_running\<close> says that the goroutine has not returned; \<open>fl_cancelled\<close> that the subscription's own context is cancelled.\<close>

record 'err filtered =
  fl_ch :: "'err PublicEvent channel"
  fl_filter :: EventFilter
  fl_base :: nat
  fl_cancelled :: bool
  fl_done :: bool
  fl_running :: bool

definition FilteredEvents :: "nat \<Rightarrow> EventFilter \<Rightarrow> 'err fwsys \<Rightarrow> ('err filtered option \<times> 'err fwsys) option" where
  "FilteredEvents bufSize f w =
     (case SubscribeEvents bufSize w of
        None \<Rightarrow> None
      | Some (None, w') \<Rightarrow> Some (None, w')
      | Some (Some r, w') \<Rightarrow>
          Some (Some \<lparr>fl_ch = make_chan bufSize, fl_filter = f, fl_base = r, fl_cancelled = False, fl_done = False, fl_running = True\<rparr>, w'))"

text \<open>
  A round of the goroutine: with both cases of the select ready, \<open>pick_ctx\<close> says which is taken. On return the deferred close of the channel is
  executed; \<open>None\<close> is a panic, of that close or of a send on the closed channel.
\<close>

definition filter_return :: "'err filtered \<Rightarrow> 'err fwsys \<Rightarrow> ('err filtered \<times> 'err fwsys) option" where
  "filter_return fl w = map_option (\<lambda>ch. (fl\<lparr>fl_ch := ch, fl_running := False\<rparr>, w)) (chan_close (fl_ch fl))"

definition filter_round :: "bool \<Rightarrow> 'err filtered \<Rightarrow> 'err fwsys \<Rightarrow> ('err filtered \<times> 'err fwsys) option" where
  "filter_round pick_ctx fl w =
     (let r = fl_base fl; ctx_done = fl_cancelled fl \<or> fw_ctx w in
      case chan_recv (sub_ch (fw_objs w r)) of
        (rv, ch) \<Rightarrow>
          if ctx_done \<and> (pick_ctx \<or> rv = RecvBlocks) then filter_return fl (Unsubscribe r w)
          else (case rv of
                  Received evt \<Rightarrow>
                    (let w1 = set_sub r ((fw_objs w r)\<lparr>sub_ch := ch\<rparr>) w in
                     if matches (fl_filter fl) evt
                     then (case chan_try_send evt (fl_ch fl) of None \<Rightarrow> None | Some (_, ch') \<Rightarrow> Some (fl\<lparr>fl_ch := ch'\<rparr>, w1))
                     else Some (fl, w1))
                | RecvClosed \<Rightarrow> filter_return fl w
                | RecvBlocks \<Rightarrow> Some (fl, w)))"

text \<open>\<^verbatim>\<open>Unsubscribe\<close> on the filtered subscription: it is not in the node's set, so nothing is deleted there.\<close>

definition filtered_Unsubscribe :: "'err filtered \<Rightarrow> 'err filtered" where
  "filtered_Unsubscribe fl = (if fl_done fl then fl else fl\<lparr>fl_done := True, fl_cancelled := True\<rparr>)"

section \<open>Interleavings\<close>

datatype 'err flt_op = FltSystem "'err fw_op" | FltRound bool | FltUnsubscribe | FltReceive

fun flt_exec :: "'err flt_op \<Rightarrow> 'err filtered \<times> 'err fwsys \<Rightarrow> ('err filtered \<times> 'err fwsys) option" where
  "flt_exec (FltSystem op) s = map_option (\<lambda>w. (fst s, w)) (fw_exec op (snd s))"
| "flt_exec (FltRound pick) s = filter_round pick (fst s) (snd s)"
| "flt_exec FltUnsubscribe s = Some (filtered_Unsubscribe (fst s), snd s)"
| "flt_exec FltReceive s = Some ((fst s)\<lparr>fl_ch := snd (chan_recv (fl_ch (fst s)))\<rparr>, snd s)"

fun flt_enabled :: "'err flt_op \<Rightarrow> 'err filtered \<times> 'err fwsys \<Rightarrow> bool" where
  "flt_enabled (FltSystem op) s = fw_enabled op (snd s)"
| "flt_enabled (FltRound pick) s = fl_running (fst s)"
| "flt_enabled FltUnsubscribe s = True"
| "flt_enabled FltReceive s = True"

definition flt_step :: "'err filtered \<times> 'err fwsys \<Rightarrow> 'err flt_op \<Rightarrow> 'err filtered \<times> 'err fwsys \<Rightarrow> bool" where
  "flt_step s op s' \<longleftrightarrow> flt_enabled op s \<and> flt_exec op s = Some s'"

definition flt_init :: "'err filtered \<times> 'err fwsys \<Rightarrow> bool" where
  "flt_init s \<longleftrightarrow> (\<exists>n f w. fw_inv w \<and> fw_subs w \<noteq> None \<and> FilteredEvents n f w = Some (Some (fst s), snd s))"

text \<open>The channel is open exactly while the goroutine runs, holds no more than fits, and only events that match.\<close>

definition flt_inv :: "'err filtered \<times> 'err fwsys \<Rightarrow> bool" where
  "flt_inv s \<longleftrightarrow> fw_inv (snd s) \<and> fl_base (fst s) < fw_next (snd s) \<and> cclosed (fl_ch (fst s)) = (\<not> fl_running (fst s)) \<and>
     length (cbuf (fl_ch (fst s))) \<le> ccap (fl_ch (fst s)) \<and> list_all (matches (fl_filter (fst s))) (cbuf (fl_ch (fst s)))"

section \<open>Lemmas\<close>

lemma fw_exec_next: "fw_exec op w = Some w' \<Longrightarrow> fw_next w \<le> fw_next w'"
proof (cases op)
  case (FEvent e)
  have "send_subs e rs v = Some v' \<Longrightarrow> fw_next v' = fw_next v" for rs v v'
    by (induction rs arbitrary: v) (auto split: option.splits)
  then show "fw_exec op w = Some w' \<Longrightarrow> fw_next w \<le> fw_next w'" using FEvent by (fastforce simp: forward_event_def split: option.splits)
next
  case FEnd
  have "close_subs rs v = Some v' \<Longrightarrow> fw_next v' = fw_next v" for rs and v v' :: "'a fwsys"
    by (induction rs arbitrary: v) (auto simp: closeChannel_def Let_def split: option.splits if_splits)
  then show "fw_exec op w = Some w' \<Longrightarrow> fw_next w \<le> fw_next w'" using FEnd by (fastforce simp: forward_end_def split: option.splits)
qed (auto simp: SubscribeEvents_def subscribe_begin_def subscribe_lock_def subscribe_close_def unsub_cancel_def Unsubscribe_def unsub_mark_def
      unsub_delete_def sub_goroutine_def closeChannel_def sub_recv_def Let_def split: option.splits if_splits)

lemma Unsubscribe_next [simp]: "fw_next (Unsubscribe r w) = fw_next w"
  by (simp add: Unsubscribe_def unsub_mark_def unsub_cancel_def unsub_delete_def Let_def)

lemma recv_inv: "fw_inv w \<Longrightarrow> fw_inv (set_sub r ((fw_objs w r)\<lparr>sub_ch := snd (chan_recv (sub_ch (fw_objs w r)))\<rparr>) w)"
  by (auto simp: fw_inv_def sub_ok_def active_def)

text \<open>A round of a running goroutine ends without a panic and keeps the invariant.\<close>

lemma filter_round_inv:
  assumes "flt_inv (fl, w)" and "fl_running fl"
  shows "\<exists>s'. filter_round pick fl w = Some s' \<and> flt_inv s'"
proof -
  obtain rv ch where r: "chan_recv (sub_ch (fw_objs w (fl_base fl))) = (rv, ch)" by fastforce
  have ret: "\<exists>s'. filter_return fl v = Some s' \<and> flt_inv s'" if "fw_inv v" "fw_next v = fw_next w" for v
    using assms that by (auto simp: filter_return_def chan_close_def flt_inv_def)
  show ?thesis
  proof (cases "(fl_cancelled fl \<or> fw_ctx w) \<and> (pick \<or> rv = RecvBlocks)")
    case True
    have "fw_inv (Unsubscribe (fl_base fl) w)" using assms(1) by (simp add: flt_inv_def Unsubscribe_inv)
    then show ?thesis using ret [of "Unsubscribe (fl_base fl) w"] True r by (simp add: filter_round_def Let_def)
  next
    case ctx: False
    show ?thesis
    proof (cases rv)
      case (Received evt)
      have "fw_inv (set_sub (fl_base fl) ((fw_objs w (fl_base fl))\<lparr>sub_ch := ch\<rparr>) w)" using recv_inv [of w "fl_base fl"] assms(1) r by (simp add: flt_inv_def)
      then show ?thesis using Received assms r ctx
        by (auto simp: filter_round_def chan_try_send_open flt_inv_def Let_def chan_offer_def chan_try_send_def)
    qed (use ret [of w] assms r ctx in \<open>auto simp: filter_round_def flt_inv_def Let_def\<close>)
  qed
qed

lemma flt_exec_inv:
  assumes "flt_inv s" and "flt_enabled op s"
  shows "\<exists>s'. flt_exec op s = Some s' \<and> flt_inv s'"
proof (cases op)
  case (FltSystem o')
  have "fw_inv (snd s)" using assms(1) by (simp add: flt_inv_def)
  from fw_exec_inv [OF this] assms(2) FltSystem obtain w' where "fw_exec o' (snd s) = Some w'" "fw_inv w'" by auto
  then show ?thesis using assms(1) FltSystem fw_exec_next [of o' "snd s" w'] by (simp add: flt_inv_def)
next
  case (FltRound pick)
  then show ?thesis using filter_round_inv [of "fst s" "snd s" pick] assms by simp
next
  case FltReceive
  then show ?thesis using assms(1) by (auto simp: flt_inv_def chan_recv_def split: list.splits)
qed (use assms(1) in \<open>simp add: flt_inv_def filtered_Unsubscribe_def\<close>)

lemma FilteredEvents_inv:
  assumes "flt_init s"
  shows "flt_inv s"
proof -
  obtain n f w where w: "fw_inv w" "fw_subs w \<noteq> None" "FilteredEvents n f w = Some (Some (fst s), snd s)" using assms by (auto simp: flt_init_def)
  then obtain rs where rs: "fw_subs w = Some rs" by blast
  from SubscribeEvents_effect [OF w(1) rs, of n] obtain w' where w': "SubscribeEvents n w = Some (Some (fw_next w), w')" "fw_inv w'"
      "fw_subs w' = Some (fw_next w # rs)" by blast
  then have "fw_next w < fw_next w'" by (auto simp: fw_inv_def active_def)
  moreover have "fst s = \<lparr>fl_ch = make_chan n, fl_filter = f, fl_base = fw_next w, fl_cancelled = False, fl_done = False, fl_running = True\<rparr>" "snd s = w'"
    using w(3) w'(1) by (simp_all add: FilteredEvents_def)
  ultimately show ?thesis using w'(2) by (simp add: flt_inv_def make_chan_def)
qed

interpretation flt: invariant_system flt_init flt_step flt_inv
  by unfold_locales (auto simp: FilteredEvents_inv flt_step_def dest: flt_exec_inv)

section \<open>Properties\<close>


text \<open>
  Cancelling ends it: once \<^verbatim>\<open>Unsubscribe\<close> was called, or the node's context is done, a round that finds no event waiting closes the channel and takes the
  underlying subscription out of the node's set.
\<close>

theorem filtered_unsubscribe_ends:
  assumes "flt_inv (fl, w)" and "fl_running fl" and "fst (chan_recv (sub_ch (fw_objs w (fl_base fl)))) = RecvBlocks"
  shows "\<exists>fl' w'. filter_round pick (filtered_Unsubscribe fl) w = Some (fl', w') \<and>
     (\<not> fl_done fl \<longrightarrow> cclosed (fl_ch fl') \<and> \<not> fl_running fl' \<and> cbuf (fl_ch fl') = cbuf (fl_ch fl) \<and> fl_base fl \<notin> set (active w'))"
proof -
  have ch: "\<not> cclosed (fl_ch fl)" using assms(1,2) by (simp add: flt_inv_def)
  have "r \<notin> set (active (Unsubscribe r w))" if "fw_inv w" for r and w :: "'a fwsys"
    using that by (auto simp: Unsubscribe_def unsub_mark_def unsub_cancel_def unsub_delete_def active_def fw_inv_def Let_def split: option.splits)
  then show ?thesis using assms ch filter_round_inv [of "filtered_Unsubscribe fl" w pick]
    by (cases "fl_done fl")
      (auto simp: filtered_Unsubscribe_def filter_round_def filter_return_def chan_close_def flt_inv_def Let_def split: prod.splits)
qed

text \<open>
  After \<^verbatim>\<open>Unsubscribe\<close> an event may still be delivered: when one is waiting, the goroutine may take it before it sees that it was cancelled.
\<close>

theorem filtered_event_after_unsubscribe:
  assumes "flt_inv (fl, w)" and "fl_running fl" and "cbuf (sub_ch (fw_objs w (fl_base fl))) = evt # evts" and "matches (fl_filter fl) evt"
    and "length (cbuf (fl_ch fl)) < ccap (fl_ch fl)"
  shows "\<exists>fl' w'. filter_round False (filtered_Unsubscribe fl) w = Some (fl', w') \<and> cbuf (fl_ch fl') = cbuf (fl_ch fl) @ [evt]"
  using assms
  by (auto simp: filter_round_def filtered_Unsubscribe_def chan_recv_def chan_try_send_def flt_inv_def Let_def)

section \<open>Concrete inputs\<close>

definition toy_filtered :: "string filtered" where
  "toy_filtered = \<lparr>fl_ch = make_chan 2, fl_filter = EventsForPeer ''p'', fl_base = 0, fl_cancelled = False, fl_done = False, fl_running = True\<rparr>"

lemma toy_filtered_init: "flt_init (toy_filtered, snd (the (FilteredEvents 2 (EventsForPeer ''p'') (new_fwsys 2))))"
  unfolding flt_init_def
  by (intro exI [of _ 2] exI [of _ "EventsForPeer ''p''"] exI [of _ "new_fwsys 2"] conjI fw_inv_New)
    (simp_all add: FilteredEvents_def SubscribeEvents_def subscribe_begin_def subscribe_lock_def new_fwsys_def toy_filtered_def)


end
