(* ===== verification/GoText.thy ===== *)
theory GoText
  imports Version
begin

text \<open>
  The text functions that the prompts of the examples use: \<^verbatim>\<open>strings.TrimSpace\<close>, \<^verbatim>\<open>Fields\<close>, \<^verbatim>\<open>SplitN\<close> and \<^verbatim>\<open>Join\<close>, and \<^verbatim>\<open>fmt.Sscanf\<close> for the formats of words and
  numbers that occur. A string is cut into the pieces that \<^verbatim>\<open>utf8.DecodeRune\<close> gives; an ill-formed byte is a piece of its own. A line has no newline.
\<close>

section \<open>Pieces\<close>

function rune_chunks :: "string \<Rightarrow> (nat \<times> string) list" where
  "rune_chunks [] = []"
| "rune_chunks (c # cs) =
     (let (r, w) = DecodeRune (of_char c) (string_bytes cs) in (r, take w (c # cs)) # rune_chunks (drop w (c # cs)))"
  by pat_completeness auto
termination
proof (relation "measure length", goal_cases)
  case (2 c cs p r w)
  then have "0 < w" using DecodeRune_width [of "of_char c" "string_bytes cs"] by (metis snd_conv)
  then show ?case by simp
qed simp

declare rune_chunks.simps [simp del]

definition text_of :: "(nat \<times> string) list \<Rightarrow> string" where
  "text_of cs = concat (map snd cs)"

definition space_chunk :: "nat \<times> string \<Rightarrow> bool" where
  "space_chunk c = fmt_isSpace (fst c)"

definition ascii :: "string \<Rightarrow> bool" where
  "ascii s \<longleftrightarrow> (\<forall>c \<in> set s. of_char c < (0x80 :: nat))"

text \<open>A byte as a piece.\<close>

definition byte_chunk :: "char \<Rightarrow> nat \<times> string" where
  "byte_chunk c = (of_char c, [c])"

lemma rune_chunks_text: "text_of (rune_chunks s) = s"
proof (induction s rule: rune_chunks.induct)
  case (2 c cs)
  obtain r w where w: "DecodeRune (of_char c) (string_bytes cs) = (r, w)" by fastforce
  then show ?case using "2.IH" [OF w [symmetric] refl] by (simp add: rune_chunks.simps text_of_def)
qed (simp add: rune_chunks.simps text_of_def)

lemma rune_chunks_ascii: "ascii s \<Longrightarrow> rune_chunks s = map byte_chunk s"
  by (induction s) (simp_all add: rune_chunks.simps ascii_def byte_chunk_def)

text \<open>An ASCII character is a piece of its own also when other text follows it.\<close>

lemma rune_chunks_ascii_append: "ascii s \<Longrightarrow> rune_chunks (s @ t) = map byte_chunk s @ rune_chunks t"
  by (induction s) (simp_all add: rune_chunks.simps ascii_def byte_chunk_def)

lemma text_of_bytes [simp]: "text_of (map byte_chunk s) = s"
  by (induction s) (simp_all add: text_of_def byte_chunk_def)

section \<open>The package strings\<close>

definition TrimSpace :: "string \<Rightarrow> string" where
  "TrimSpace s = text_of (rev (dropWhile space_chunk (rev (dropWhile space_chunk (rune_chunks s)))))"

text \<open>\<^verbatim>\<open>Fields\<close>: the maximal runs without white space; \<open>acc\<close> is the run so far.\<close>

fun fields_loop :: "(nat \<times> string) list \<Rightarrow> (nat \<times> string) list \<Rightarrow> (nat \<times> string) list list" where
  "fields_loop acc [] = (if acc = [] then [] else [acc])"
| "fields_loop acc (c # cs) =
     (if space_chunk c then (if acc = [] then fields_loop [] cs else acc # fields_loop [] cs)
      else fields_loop (acc @ [c]) cs)"

definition Fields :: "string \<Rightarrow> string list" where
  "Fields s = map text_of (fields_loop [] (rune_chunks s))"

definition Join :: "string list \<Rightarrow> string \<Rightarrow> string" where
  "Join ws sep = concat (case ws of [] \<Rightarrow> [] | w # ws \<Rightarrow> w # map (\<lambda>v. sep @ v) ws)"

text \<open>\<^verbatim>\<open>SplitN(s, " ", 2)\<close>.\<close>

definition SplitN2 :: "string \<Rightarrow> string list" where
  "SplitN2 s =
     (let a = takeWhile (\<lambda>c. c \<noteq> CHR '' '') s
      in if length a = length s then [s] else [a, drop (Suc (length a)) s])"

section \<open>The scanner of fmt\<close>

text \<open>The token that \<^verbatim>\<open>%s\<close> stores is made of runes, so an ill-formed byte becomes the replacement character.\<close>

definition rune_text :: "nat \<times> string \<Rightarrow> string" where
  "rune_text c = (if fst c = RuneError then [CHR 0xEF, CHR 0xBF, CHR 0xBD] else snd c)"

definition token_text :: "(nat \<times> string) list \<Rightarrow> string" where
  "token_text cs = concat (map rune_text cs)"

text \<open>\<^verbatim>\<open>Sscanf(s, "%s ... %s")\<close>: the words of the line; a variable for which no word is left keeps the empty string.\<close>

definition scan_words :: "(nat \<times> string) list \<Rightarrow> string list" where
  "scan_words cs = map token_text (fields_loop [] cs)"

definition word_at :: "nat \<Rightarrow> string list \<Rightarrow> string" where
  "word_at k ws = (if k < length ws then ws ! k else [])"

text \<open>A format that starts with a word and a space: the word must match at once, and white space or the end must follow it.\<close>

definition scan_literal :: "string \<Rightarrow> (nat \<times> string) list \<Rightarrow> (nat \<times> string) list option" where
  "scan_literal lit cs =
     (let rest = drop (length lit) cs in
      if map fst (take (length lit) cs) = string_bytes lit \<and> (rest = [] \<or> space_chunk (hd rest)) then Some rest else None)"

definition digit_chunk :: "nat \<times> string \<Rightarrow> bool" where
  "digit_chunk c = is_decimal (fst c)"

text \<open>The digits at the front: their value and the rest, \<open>None\<close> when there are none.\<close>

definition scanNumber :: "(nat \<times> string) list \<Rightarrow> (nat \<times> (nat \<times> string) list) option" where
  "scanNumber cs =
     (let tok = takeWhile digit_chunk cs
      in if tok = [] then None else Some (digits_value (map fst tok), dropWhile digit_chunk cs))"

text \<open>\<^verbatim>\<open>%d\<close> into an \<^verbatim>\<open>int\<close> and into a \<^verbatim>\<open>uint64\<close>. \<open>None\<close> is an error, after which the variables that are left are not set.\<close>

definition scanInt :: "(nat \<times> string) list \<Rightarrow> (int \<times> (nat \<times> string) list) option" where
  "scanInt cs =
     (let rs = dropWhile space_chunk cs;
          neg = (rs \<noteq> [] \<and> fst (hd rs) = 45);
          ds = (if rs \<noteq> [] \<and> fst (hd rs) \<in> {43, 45} then tl rs else rs) in
      case scanNumber ds of
        None \<Rightarrow> None
      | Some (v, rest) \<Rightarrow>
          let i = (if neg then - int v else int v)
          in if - (2 ^ 63) \<le> i \<and> i < 2 ^ 63 then Some (i, rest) else None)"

definition scanUint64 :: "(nat \<times> string) list \<Rightarrow> 64 word option" where
  "scanUint64 cs =
     (case scanNumber (dropWhile space_chunk cs) of
        None \<Rightarrow> None
      | Some (v, rest) \<Rightarrow> if v < 2 ^ 64 then Some (of_nat v) else None)"

text \<open>\<^verbatim>\<open>Sscanf(s, "lit %d %d", &a, &b)\<close> on variables that are zero.\<close>

definition scan_two_ints :: "string \<Rightarrow> (nat \<times> string) list \<Rightarrow> int \<times> int" where
  "scan_two_ints lit cs =
     (case Option.bind (scan_literal lit cs) scanInt of
        None \<Rightarrow> (0, 0)
      | Some (a, rest) \<Rightarrow>
          if rest \<noteq> [] \<and> space_chunk (hd rest)
          then (a, case scanInt rest of None \<Rightarrow> 0 | Some (b, _) \<Rightarrow> b) else (a, 0))"

section \<open>Words\<close>

text \<open>A word: not empty and without white space.\<close>

definition is_word :: "string \<Rightarrow> bool" where
  "is_word w \<longleftrightarrow> w \<noteq> [] \<and> list_all (\<lambda>c. \<not> space_chunk c) (rune_chunks w)"

lemma fields_loop_run:
  "list_all (\<lambda>c. \<not> space_chunk c) cs \<Longrightarrow> fields_loop acc (cs @ ds) = fields_loop (acc @ cs) ds"
  by (induction cs arbitrary: acc) simp_all

lemma fields_loop_words: "c \<in> set (concat (fields_loop acc cs)) \<Longrightarrow> list_all (\<lambda>c. \<not> space_chunk c) acc \<Longrightarrow> \<not> space_chunk c"
proof (induction acc cs rule: fields_loop.induct)
  case (1 acc)
  then show ?case by (auto simp: list_all_iff split: if_splits)
next
  case (2 acc x cs)
  then show ?case by (auto simp: list_all_iff split: if_splits)
qed

lemma fields_loop_nonempty: "w \<in> set (fields_loop acc cs) \<Longrightarrow> w \<noteq> []"
  by (induction acc cs rule: fields_loop.induct) (auto split: if_splits)

lemma Fields_join_ascii:
  assumes "\<forall>w \<in> set ws. ascii w \<and> is_word w"
  shows "Fields (Join ws '' '') = ws"
proof -
  have blank: "(@) '' '' = (#) CHR '' ''" by (simp add: fun_eq_iff)
  have sp: "space_chunk (byte_chunk CHR '' '')" by (simp add: space_chunk_def byte_chunk_def fmt_isSpace_def)
  have one: "list_all (\<lambda>c. \<not> space_chunk c) (map byte_chunk w)" "map byte_chunk w \<noteq> []" if "ascii w" "is_word w" for w
    using that rune_chunks_ascii [of w] by (auto simp: is_word_def)
  have asc: "ascii (concat (map (\<lambda>v. '' '' @ v) vs))" if "\<forall>w \<in> set vs. ascii w" for vs
    using that by (auto simp: ascii_def)
  have loop: "map text_of (fields_loop (map byte_chunk w) (map byte_chunk (concat (map (\<lambda>v. '' '' @ v) vs)))) = w # vs"
    if "w \<noteq> []" "\<forall>w \<in> set vs. ascii w \<and> is_word w" for w vs
    using that
  proof (induction vs arbitrary: w)
    case (Cons v vs)
    have "fields_loop [] (map byte_chunk v @ ds) = fields_loop (map byte_chunk v) ds" for ds
      using fields_loop_run [OF one(1) [of v], of "[]"] Cons.prems by simp
    moreover have "v \<noteq> []" using Cons.prems by (simp add: is_word_def)
    ultimately show ?case using Cons sp by simp
  qed simp
  show ?thesis
  proof (cases ws)
    case (Cons w vs)
    have "fields_loop [] (map byte_chunk w @ ds) = fields_loop (map byte_chunk w) ds" for ds
      using fields_loop_run [OF one(1) [of w], of "[]"] assms Cons by simp
    moreover have "ascii (w @ concat (map (\<lambda>v. '' '' @ v) vs))" using assms Cons asc [of vs] by (auto simp: ascii_def)
    moreover have "w \<noteq> []" using assms Cons by (simp add: is_word_def)
    ultimately show ?thesis using Cons loop [of w vs] assms by (simp add: Fields_def Join_def rune_chunks_ascii blank)
  qed (simp add: Fields_def Join_def rune_chunks.simps)
qed

end
