(* ===== verification/MockNode.thy ===== *)
theory MockNode
  imports Storage Streams
begin

text \<open>
  The test double for applications (\<^verbatim>\<open>src/internal/testutil/mock.go\<close>): a node without a network that records what is sent
  through it and lets a test inject messages, events and errors. Every method is a function on the record \<open>MockNode\<close>; a send on a
  closed channel and a second \<^verbatim>\<open>close\<close> panic, which is \<open>None\<close>. Time is an argument of the methods that read the clock, the order in
  which Go iterates over a map an argument of those that range over one. The copies of the data that \<^verbatim>\<open>SendCtx\<close>, \<^verbatim>\<open>SimulateMessage\<close> and
  \<^verbatim>\<open>SentMessages\<close> make are the values themselves.
\<close>

section \<open>State\<close>

datatype mock_err = ErrPeerNotFound | ErrPeerBlacklisted | ErrNotConnected | Injected string

record SentMessage =
  sent_PeerID :: peer_id
  sent_StreamName :: string
  sent_Data :: bytes
  sent_Timestamp :: time_ns

record 'ma mockPeerState =
  mp_Addrs :: "'ma list"
  mp_Metadata :: "(string \<rightharpoonup> string) option"
  mp_PublicKey :: bytes
  mp_IsOutbound :: bool
  mp_State :: string

record MockEvent =
  me_PeerID :: peer_id
  me_State :: string
  me_Error :: "string option"

record 'ma MockNode =
  mk_peerID :: peer_id
  mk_publicKey :: bytes
  mk_started :: bool
  mk_addrs :: "'ma list"
  mk_peers :: "peer_id \<rightharpoonup> 'ma mockPeerState"
  mk_connections :: "peer_id \<rightharpoonup> bool"
  mk_blacklisted :: "peer_id \<rightharpoonup> bool"
  mk_sentMessages :: "SentMessage list"
  mk_messages :: "IncomingMessage channel"
  mk_events :: "MockEvent channel"
  mk_connectErr :: "string option"
  mk_sendErr :: "string option"
  mk_disconnectErr :: "string option"

text \<open>Reading a \<^verbatim>\<open>map[peer.ID]bool\<close> gives \<^verbatim>\<open>false\<close> for a missing key.\<close>

definition lookup_bool :: "(peer_id \<rightharpoonup> bool) \<Rightarrow> peer_id \<Rightarrow> bool" where
  "lookup_bool m p = (m p = Some True)"

section \<open>Construction and lifecycle\<close>

definition NewMockNodeWithID :: "peer_id \<Rightarrow> bytes \<Rightarrow> 'ma MockNode" where
  "NewMockNodeWithID p pub =
     \<lparr>mk_peerID = p, mk_publicKey = pub, mk_started = False, mk_addrs = [], mk_peers = Map.empty, mk_connections = Map.empty,
      mk_blacklisted = Map.empty, mk_sentMessages = [], mk_messages = make_chan 100, mk_events = make_chan 100,
      mk_connectErr = None, mk_sendErr = None, mk_disconnectErr = None\<rparr>"

text \<open>\<^verbatim>\<open>peer.ID(pub[:20])\<close> panics when the generated key is shorter than 20 bytes, as it is when \<^verbatim>\<open>GenerateKey\<close> fails.\<close>

definition NewMockNode :: "bytes \<Rightarrow> 'ma MockNode option" where
  "NewMockNode pub =
     (if length pub < 20 then None
      else Some (NewMockNodeWithID (map (\<lambda>b. char_of (unat b)) (take 20 pub)) pub))"

definition mk_Start :: "'ma MockNode \<Rightarrow> 'ma MockNode" where
  "mk_Start m = m\<lparr>mk_started := True\<rparr>"

definition mk_Stop :: "'ma MockNode \<Rightarrow> 'ma MockNode option" where
  "mk_Stop m =
     (case chan_close (mk_messages m) of
        None \<Rightarrow> None
      | Some ms \<Rightarrow>
          (case chan_close (mk_events m) of
             None \<Rightarrow> None
           | Some es \<Rightarrow> Some (m\<lparr>mk_started := False, mk_messages := ms, mk_events := es\<rparr>)))"

definition SetAddrs :: "'ma list \<Rightarrow> 'ma MockNode \<Rightarrow> 'ma MockNode" where
  "SetAddrs as m = m\<lparr>mk_addrs := as\<rparr>"

section \<open>Peers\<close>

definition mk_AddPeer :: "peer_id \<Rightarrow> 'ma list \<Rightarrow> (string \<rightharpoonup> string) option \<Rightarrow> 'ma MockNode \<Rightarrow> mock_err option \<times> 'ma MockNode" where
  "mk_AddPeer p as md m =
     (if lookup_bool (mk_blacklisted m) p then (Some ErrPeerBlacklisted, m)
      else (None, m\<lparr>mk_peers := (mk_peers m)(p \<mapsto> \<lparr>mp_Addrs = as, mp_Metadata = md, mp_PublicKey = [], mp_IsOutbound = False,
                                                mp_State = []\<rparr>)\<rparr>))"

definition mk_RemovePeer :: "peer_id \<Rightarrow> 'ma MockNode \<Rightarrow> mock_err option \<times> 'ma MockNode" where
  "mk_RemovePeer p m =
     (if mk_peers m p = None then (Some ErrPeerNotFound, m)
      else (None, m\<lparr>mk_peers := (mk_peers m)(p := None), mk_connections := (mk_connections m)(p := None)\<rparr>))"

definition mk_BlacklistPeer :: "peer_id \<Rightarrow> 'ma MockNode \<Rightarrow> 'ma MockNode" where
  "mk_BlacklistPeer p m = m\<lparr>mk_blacklisted := (mk_blacklisted m)(p \<mapsto> True)\<rparr>"

definition mk_UnblacklistPeer :: "peer_id \<Rightarrow> 'ma MockNode \<Rightarrow> 'ma MockNode" where
  "mk_UnblacklistPeer p m = m\<lparr>mk_blacklisted := (mk_blacklisted m)(p := None)\<rparr>"

definition mk_entry :: "peer_id \<Rightarrow> 'ma mockPeerState \<Rightarrow> bool \<Rightarrow> 'ma PeerEntry" where
  "mk_entry p st bl =
     \<lparr>PeerID = p, Multiaddrs = mp_Addrs st, RawMultiaddrs = [], PublicKey = mp_PublicKey st, Metadata = mp_Metadata st,
      LastSeen = 0, Blacklisted = bl, CreatedAt = 0, UpdatedAt = 0\<rparr>"

definition mk_GetPeer :: "peer_id \<Rightarrow> 'ma MockNode \<Rightarrow> (mock_err, 'ma PeerEntry) result" where
  "mk_GetPeer p m =
     (case mk_peers m p of
        None \<Rightarrow> Inl ErrPeerNotFound
      | Some st \<Rightarrow> Inr (mk_entry p st (lookup_bool (mk_blacklisted m) p)))"

text \<open>\<open>ord\<close> lists the keys of the map in the order of the iteration.\<close>

definition mk_ListPeers :: "peer_id list \<Rightarrow> 'ma MockNode \<Rightarrow> 'ma PeerEntry list" where
  "mk_ListPeers ord m =
     concat (map (\<lambda>p. case mk_peers m p of
                        None \<Rightarrow> []
                      | Some st \<Rightarrow> if lookup_bool (mk_blacklisted m) p then [] else [mk_entry p st False]) ord)"

section \<open>Connections and messages\<close>

text \<open>The context is not consulted.\<close>

definition mk_ConnectCtx :: "ctx \<Rightarrow> peer_id \<Rightarrow> 'ma MockNode \<Rightarrow> mock_err option \<times> 'ma MockNode" where
  "mk_ConnectCtx c p m =
     (case mk_connectErr m of
        Some e \<Rightarrow> (Some (Injected e), m)
      | None \<Rightarrow>
          if lookup_bool (mk_blacklisted m) p then (Some ErrPeerBlacklisted, m)
          else (None, m\<lparr>mk_connections := (mk_connections m)(p \<mapsto> True),
                        mk_peers := (case mk_peers m p of
                                       Some st \<Rightarrow> (mk_peers m)(p \<mapsto> st\<lparr>mp_IsOutbound := True\<rparr>)
                                     | None \<Rightarrow> mk_peers m)\<rparr>))"

definition mk_Connect :: "peer_id \<Rightarrow> 'ma MockNode \<Rightarrow> mock_err option \<times> 'ma MockNode" where
  "mk_Connect p m = mk_ConnectCtx Background p m"

definition mk_DisconnectCtx :: "ctx \<Rightarrow> peer_id \<Rightarrow> 'ma MockNode \<Rightarrow> mock_err option \<times> 'ma MockNode" where
  "mk_DisconnectCtx c p m =
     (case mk_disconnectErr m of
        Some e \<Rightarrow> (Some (Injected e), m)
      | None \<Rightarrow> (None, m\<lparr>mk_connections := (mk_connections m)(p := None)\<rparr>))"

definition mk_Disconnect :: "peer_id \<Rightarrow> 'ma MockNode \<Rightarrow> mock_err option \<times> 'ma MockNode" where
  "mk_Disconnect p m = mk_DisconnectCtx Background p m"

definition mk_IsConnected :: "peer_id \<Rightarrow> 'ma MockNode \<Rightarrow> bool" where
  "mk_IsConnected p m = lookup_bool (mk_connections m) p"

definition mk_IsOutbound :: "peer_id \<Rightarrow> 'ma MockNode \<Rightarrow> (mock_err, bool) result" where
  "mk_IsOutbound p m = (case mk_peers m p of None \<Rightarrow> Inl ErrPeerNotFound | Some st \<Rightarrow> Inr (mp_IsOutbound st))"

definition mk_SendCtx :: "time_ns \<Rightarrow> ctx \<Rightarrow> peer_id \<Rightarrow> string \<Rightarrow> bytes \<Rightarrow> 'ma MockNode \<Rightarrow> mock_err option \<times> 'ma MockNode" where
  "mk_SendCtx now c p s d m =
     (case mk_sendErr m of
        Some e \<Rightarrow> (Some (Injected e), m)
      | None \<Rightarrow>
          if \<not> lookup_bool (mk_connections m) p then (Some ErrNotConnected, m)
          else (None, m\<lparr>mk_sentMessages := mk_sentMessages m @
                          [\<lparr>sent_PeerID = p, sent_StreamName = s, sent_Data = d, sent_Timestamp = now\<rparr>]\<rparr>))"

definition mk_Send :: "time_ns \<Rightarrow> peer_id \<Rightarrow> string \<Rightarrow> bytes \<Rightarrow> 'ma MockNode \<Rightarrow> mock_err option \<times> 'ma MockNode" where
  "mk_Send now p s d m = mk_SendCtx now Background p s d m"

section \<open>Test helpers\<close>

definition emit_event :: "MockEvent \<Rightarrow> 'ma MockNode \<Rightarrow> 'ma MockNode option" where
  "emit_event e m = map_option (\<lambda>r. m\<lparr>mk_events := snd r\<rparr>) (chan_try_send e (mk_events m))"

definition SimulateConnect :: "peer_id \<Rightarrow> 'ma list \<Rightarrow> 'ma MockNode \<Rightarrow> 'ma MockNode option" where
  "SimulateConnect p as m =
     emit_event \<lparr>me_PeerID = p, me_State = ''connected'', me_Error = None\<rparr>
       (m\<lparr>mk_peers := (mk_peers m)(p \<mapsto> \<lparr>mp_Addrs = as, mp_Metadata = None, mp_PublicKey = [], mp_IsOutbound = False, mp_State = []\<rparr>),
          mk_connections := (mk_connections m)(p \<mapsto> True)\<rparr>)"

definition SimulateDisconnect :: "peer_id \<Rightarrow> 'ma MockNode \<Rightarrow> 'ma MockNode option" where
  "SimulateDisconnect p m =
     emit_event \<lparr>me_PeerID = p, me_State = ''disconnected'', me_Error = None\<rparr>
       (m\<lparr>mk_connections := (mk_connections m)(p := None)\<rparr>)"

definition SimulateMessage :: "time_ns \<Rightarrow> peer_id \<Rightarrow> string \<Rightarrow> bytes \<Rightarrow> 'ma MockNode \<Rightarrow> 'ma MockNode option" where
  "SimulateMessage now p s d m =
     map_option (\<lambda>r. m\<lparr>mk_messages := snd r\<rparr>)
       (chan_try_send \<lparr>im_PeerID = p, im_StreamName = s, im_Data = d, im_Timestamp = now\<rparr> (mk_messages m))"

definition SimulateEvent :: "peer_id \<Rightarrow> string \<Rightarrow> string option \<Rightarrow> 'ma MockNode \<Rightarrow> 'ma MockNode option" where
  "SimulateEvent p st err m = emit_event \<lparr>me_PeerID = p, me_State = st, me_Error = err\<rparr> m"

definition SetConnectError :: "string option \<Rightarrow> 'ma MockNode \<Rightarrow> 'ma MockNode" where
  "SetConnectError e m = m\<lparr>mk_connectErr := e\<rparr>"

definition SetSendError :: "string option \<Rightarrow> 'ma MockNode \<Rightarrow> 'ma MockNode" where
  "SetSendError e m = m\<lparr>mk_sendErr := e\<rparr>"

definition SetDisconnectError :: "string option \<Rightarrow> 'ma MockNode \<Rightarrow> 'ma MockNode" where
  "SetDisconnectError e m = m\<lparr>mk_disconnectErr := e\<rparr>"

definition SentMessages :: "'ma MockNode \<Rightarrow> SentMessage list" where
  "SentMessages m = mk_sentMessages m"

definition ClearSentMessages :: "'ma MockNode \<Rightarrow> 'ma MockNode" where
  "ClearSentMessages m = m\<lparr>mk_sentMessages := []\<rparr>"

text \<open>The loop of \<^verbatim>\<open>AssertSent\<close>.\<close>

fun assert_loop :: "peer_id \<Rightarrow> string \<Rightarrow> SentMessage list \<Rightarrow> SentMessage list \<Rightarrow> SentMessage list" where
  "assert_loop p s [] matches = matches"
| "assert_loop p s (msg # msgs) matches =
     assert_loop p s msgs (if sent_PeerID msg = p \<and> sent_StreamName msg = s then matches @ [msg] else matches)"

definition AssertSent :: "peer_id \<Rightarrow> string \<Rightarrow> 'ma MockNode \<Rightarrow> SentMessage list" where
  "AssertSent p s m = assert_loop p s (mk_sentMessages m) []"

definition AssertNotSent :: "peer_id \<Rightarrow> string \<Rightarrow> 'ma MockNode \<Rightarrow> bool" where
  "AssertNotSent p s m = (length (AssertSent p s m) = 0)"

text \<open>Every key of the map is listed, whatever its value.\<close>

definition ConnectedPeers :: "peer_id list \<Rightarrow> 'ma MockNode \<Rightarrow> peer_id list" where
  "ConnectedPeers ord m = filter (\<lambda>p. mk_connections m p \<noteq> None) ord"

definition Reset :: "'ma MockNode \<Rightarrow> 'ma MockNode" where
  "Reset m = m\<lparr>mk_peers := Map.empty, mk_connections := Map.empty, mk_blacklisted := Map.empty, mk_sentMessages := [],
               mk_connectErr := None, mk_sendErr := None, mk_disconnectErr := None\<rparr>"

section \<open>The calls of a test\<close>

datatype 'ma mock_call =
    CStart | CStop | CSetAddrs "'ma list"
  | CAddPeer peer_id "'ma list" "(string \<rightharpoonup> string) option" | CRemovePeer peer_id | CBlacklist peer_id | CUnblacklist peer_id
  | CConnect ctx peer_id | CDisconnect ctx peer_id | CSend time_ns ctx peer_id string bytes
  | CSimConnect peer_id "'ma list" | CSimDisconnect peer_id | CSimMessage time_ns peer_id string bytes
  | CSimEvent peer_id string "string option"
  | CSetConnectError "string option" | CSetSendError "string option" | CSetDisconnectError "string option"
  | CClear | CReset | CRecvMessage | CRecvEvent

text \<open>The last two are the test's receives from the channels of \<^verbatim>\<open>Messages\<close> and \<^verbatim>\<open>Events\<close>. The error each call returns (nil for the methods that return nothing) and the state after it; \<open>None\<close> when it panics.\<close>

definition no_result :: "'s \<Rightarrow> ('e option \<times> 's) option" where
  "no_result m = Some (None, m)"

fun mock_exec :: "'ma mock_call \<Rightarrow> 'ma MockNode \<Rightarrow> (mock_err option \<times> 'ma MockNode) option" where
  "mock_exec CStart m = no_result (mk_Start m)"
| "mock_exec CStop m = map_option (Pair None) (mk_Stop m)"
| "mock_exec (CSetAddrs as) m = no_result (SetAddrs as m)"
| "mock_exec (CAddPeer p as md) m = Some (mk_AddPeer p as md m)"
| "mock_exec (CRemovePeer p) m = Some (mk_RemovePeer p m)"
| "mock_exec (CBlacklist p) m = no_result (mk_BlacklistPeer p m)"
| "mock_exec (CUnblacklist p) m = no_result (mk_UnblacklistPeer p m)"
| "mock_exec (CConnect c p) m = Some (mk_ConnectCtx c p m)"
| "mock_exec (CDisconnect c p) m = Some (mk_DisconnectCtx c p m)"
| "mock_exec (CSend now c p s d) m = Some (mk_SendCtx now c p s d m)"
| "mock_exec (CSimConnect p as) m = map_option (Pair None) (SimulateConnect p as m)"
| "mock_exec (CSimDisconnect p) m = map_option (Pair None) (SimulateDisconnect p m)"
| "mock_exec (CSimMessage now p s d) m = map_option (Pair None) (SimulateMessage now p s d m)"
| "mock_exec (CSimEvent p st e) m = map_option (Pair None) (SimulateEvent p st e m)"
| "mock_exec (CSetConnectError e) m = no_result (SetConnectError e m)"
| "mock_exec (CSetSendError e) m = no_result (SetSendError e m)"
| "mock_exec (CSetDisconnectError e) m = no_result (SetDisconnectError e m)"
| "mock_exec CClear m = no_result (ClearSentMessages m)"
| "mock_exec CReset m = no_result (Reset m)"
| "mock_exec CRecvMessage m = no_result (m\<lparr>mk_messages := snd (chan_recv (mk_messages m))\<rparr>)"
| "mock_exec CRecvEvent m = no_result (m\<lparr>mk_events := snd (chan_recv (mk_events m))\<rparr>)"

text \<open>A test as a sequence of calls with what each returned.\<close>

definition mock_step :: "'ma MockNode \<Rightarrow> 'ma mock_call \<times> mock_err option \<Rightarrow> 'ma MockNode \<Rightarrow> bool" where
  "mock_step m l m' = (mock_exec (fst l) m = Some (snd l, m'))"

lemmas mock_ops = mk_Start_def mk_Stop_def SetAddrs_def mk_AddPeer_def mk_RemovePeer_def mk_BlacklistPeer_def mk_UnblacklistPeer_def
  mk_ConnectCtx_def mk_DisconnectCtx_def mk_SendCtx_def SimulateConnect_def SimulateDisconnect_def SimulateMessage_def SimulateEvent_def
  SetConnectError_def SetSendError_def SetDisconnectError_def ClearSentMessages_def Reset_def emit_event_def no_result_def
  chan_try_send_def chan_close_def chan_recv_def

section \<open>What the mock records\<close>

text \<open>The log a test should see: a successful send is appended, clearing and resetting empty it, everything else leaves it.\<close>

fun track :: "SentMessage list \<Rightarrow> 'ma mock_call \<times> mock_err option \<Rightarrow> SentMessage list" where
  "track log (CSend now c p s d, None) =
     log @ [\<lparr>sent_PeerID = p, sent_StreamName = s, sent_Data = d, sent_Timestamp = now\<rparr>]"
| "track log (CClear, r) = []"
| "track log (CReset, r) = []"
| "track log (c, r) = log"

lemma mock_step_log: "mock_step m l m' \<Longrightarrow> mk_sentMessages m' = track (mk_sentMessages m) l"
  by (cases l; cases "fst l"; cases "snd l")
    (auto simp: mock_step_def mock_ops split: option.splits if_splits list.splits)

interpretation mocklog: simulation mk_sentMessages mock_step "\<lambda>log l log'. log' = track log l" "\<lambda>l. True"
  by unfold_locales (simp add: mock_step_log)

lemma track_runs: "runs (\<lambda>log l log'. log' = track log l) log ls log' \<Longrightarrow> log' = foldl track log ls"
  by (induction rule: runs.induct) simp_all

lemma assert_loop_filter: "assert_loop p s ms acc = acc @ filter (\<lambda>x. sent_PeerID x = p \<and> sent_StreamName x = s) ms"
  by (induction ms arbitrary: acc) auto

section \<open>Invariant\<close>

text \<open>The maps hold only \<^verbatim>\<open>true\<close>, the two channels are closed together and hold at most 100 values.\<close>

definition mock_inv :: "'ma MockNode \<Rightarrow> bool" where
  "mock_inv m \<longleftrightarrow> False \<notin> ran (mk_connections m) \<and> False \<notin> ran (mk_blacklisted m) \<and>
     (cclosed (mk_messages m) \<longleftrightarrow> cclosed (mk_events m)) \<and> length (cbuf (mk_messages m)) \<le> 100 \<and> ccap (mk_messages m) = 100 \<and>
     length (cbuf (mk_events m)) \<le> 100 \<and> ccap (mk_events m) = 100"

lemma ran_upd_subset: "x \<notin> ran m \<Longrightarrow> x \<noteq> y \<Longrightarrow> x \<notin> ran (m(k \<mapsto> y))"
  by (auto simp: ran_def)

lemma ran_del_subset: "x \<notin> ran m \<Longrightarrow> x \<notin> ran (m(k := None))"
  by (auto simp: ran_def)

lemma mock_inv_step: "mock_inv m \<Longrightarrow> mock_step m l m' \<Longrightarrow> mock_inv m'"
  by (cases l; cases "fst l")
    (auto simp: mock_step_def mock_inv_def mock_ops ran_upd_subset ran_del_subset split: option.splits if_splits list.splits)

interpretation mocks: invariant_system "\<lambda>m. \<exists>p pub. m = NewMockNodeWithID p pub" mock_step mock_inv
proof
  show "mock_inv m" if "\<exists>p pub. m = NewMockNodeWithID p pub" for m :: "'a MockNode"
    using that by (auto simp: mock_inv_def NewMockNodeWithID_def make_chan_def)
qed (rule mock_inv_step)

lemma connected_iff: "mock_inv m \<Longrightarrow> mk_connections m p \<noteq> None \<longleftrightarrow> mk_IsConnected p m"
  by (cases "mk_connections m p"; cases "the (mk_connections m p)") (auto simp: mock_inv_def mk_IsConnected_def lookup_bool_def ran_def)

section \<open>Properties\<close>

text \<open>
  The mock records exactly the successful sends: after any sequence of calls on a new mock, \<^verbatim>\<open>SentMessages\<close> is the sends that returned nil
  since the last \<^verbatim>\<open>ClearSentMessages\<close> or \<^verbatim>\<open>Reset\<close>, in order, and \<^verbatim>\<open>AssertSent\<close> gives those of them for its peer and stream.
\<close>

theorem mock_records_sends:
  assumes "runs mock_step (NewMockNodeWithID pid pub) ls m"
  shows "SentMessages m = foldl track [] ls \<and>
     AssertSent p s m = filter (\<lambda>x. sent_PeerID x = p \<and> sent_StreamName x = s) (foldl track [] ls)"
proof -
  have "runs (\<lambda>log l log'. log' = track log l) [] ls (mk_sentMessages m)"
    using mocklog.sim_runs [OF assms] by (simp add: NewMockNodeWithID_def)
  then have "mk_sentMessages m = foldl track [] ls" by (rule track_runs)
  then show ?thesis by (simp add: SentMessages_def AssertSent_def assert_loop_filter)
qed

text \<open>
  Which calls of the mock panic: on a mock reached from a new one, exactly a second \<^verbatim>\<open>Stop\<close> and the \<^verbatim>\<open>Simulate\<close> helpers after a
  \<^verbatim>\<open>Stop\<close>; no other call ever does, and \<^verbatim>\<open>ConnectedPeers\<close> lists exactly the peers for which \<^verbatim>\<open>IsConnected\<close> holds.
\<close>

theorem mock_panics_only_after_stop:
  assumes "runs mock_step (NewMockNodeWithID pid pub) ls m"
  shows "(mock_exec c m = None \<longleftrightarrow>
            cclosed (mk_messages m) \<and> (c = CStop \<or> (\<exists>p as. c = CSimConnect p as) \<or> (\<exists>p. c = CSimDisconnect p) \<or>
              (\<exists>now p s d. c = CSimMessage now p s d) \<or> (\<exists>p st e. c = CSimEvent p st e))) \<and>
         ConnectedPeers ord m = filter (\<lambda>p. mk_IsConnected p m) ord"
proof -
  have inv: "mock_inv m" using mocks.inv_reachable assms by blast
  then have ev: "cclosed (mk_events m) \<longleftrightarrow> cclosed (mk_messages m)" by (simp add: mock_inv_def)
  have "mock_exec c m = None \<longleftrightarrow>
      cclosed (mk_messages m) \<and> (c = CStop \<or> (\<exists>p as. c = CSimConnect p as) \<or> (\<exists>p. c = CSimDisconnect p) \<or>
        (\<exists>now p s d. c = CSimMessage now p s d) \<or> (\<exists>p st e. c = CSimEvent p st e))"
    by (cases c) (auto simp: mock_ops ev split: option.splits list.splits)
  then show ?thesis using connected_iff [OF inv] by (simp add: ConnectedPeers_def)
qed

text \<open>A blacklisted peer stays connected and can still be sent to: unlike the node's, the mock's \<^verbatim>\<open>BlacklistPeer\<close> does not disconnect.\<close>

theorem mock_blacklist_keeps_connection:
  assumes "mk_IsConnected p m" and "mk_sendErr m = None"
  shows "mk_IsConnected p (mk_BlacklistPeer p m) \<and> fst (mk_Send now p s d (mk_BlacklistPeer p m)) = None"
  using assms by (simp add: mk_IsConnected_def mk_BlacklistPeer_def mk_Send_def mk_SendCtx_def)

section \<open>Witnesses\<close>

definition toy_mock :: "string MockNode" where
  "toy_mock = NewMockNodeWithID ''me'' []"

lemma toy_mock_run:
  "\<exists>m. runs mock_step toy_mock
     [(CConnect Background ''p'', None), (CSend 3 Background ''p'' ''chat'' [1], None), (CSend 4 Background ''q'' ''chat'' [2], Some ErrNotConnected),
      (CStop, None)] m \<and> cclosed (mk_messages m)"
  unfolding toy_mock_def NewMockNodeWithID_def make_chan_def
  by (rule exI, rule conjI, (rule runs_cons, simp add: mock_step_def mock_ops lookup_bool_def)+, rule runs.runs_nil, simp)

theorem mock_records_sends_witness:
  "\<exists>m ls. runs mock_step (NewMockNodeWithID ''me'' [] :: string MockNode) ls m \<and>
     AssertSent ''p'' ''chat'' m = [\<lparr>sent_PeerID = ''p'', sent_StreamName = ''chat'', sent_Data = [1], sent_Timestamp = 3\<rparr>]"
proof -
  obtain m where "runs mock_step (NewMockNodeWithID ''me'' [] :: string MockNode)
     [(CConnect Background ''p'', None), (CSend 3 Background ''p'' ''chat'' [1], None), (CSend 4 Background ''q'' ''chat'' [2], Some ErrNotConnected),
      (CStop, None)] m" using toy_mock_run by (auto simp: toy_mock_def)
  then show ?thesis using mock_records_sends [of "''me''" "[]" _ m "''p''" "''chat''"] by fastforce
qed

theorem mock_panics_only_after_stop_witness:
  "\<exists>m ls. runs mock_step (NewMockNodeWithID ''me'' [] :: string MockNode) ls m \<and> mock_exec CStop m = None \<and> mock_exec CStart m \<noteq> None"
proof -
  obtain m ls where m: "runs mock_step (NewMockNodeWithID ''me'' [] :: string MockNode) ls m" "cclosed (mk_messages m)"
    using toy_mock_run by (auto simp: toy_mock_def)
  then have "mock_exec CStop m = None" "mock_exec CStart m \<noteq> None"
    using mock_panics_only_after_stop [OF m(1), of CStop] mock_panics_only_after_stop [OF m(1), of CStart] by blast+
  then show ?thesis using m(1) by blast
qed

theorem mock_blacklist_keeps_connection_witness:
  "fst (mk_Send 0 ''p'' ''chat'' [1] (mk_BlacklistPeer ''p'' (snd (mk_Connect ''p'' toy_mock)))) = None"
  using mock_blacklist_keeps_connection [of "''p''" "snd (mk_Connect ''p'' toy_mock)" 0 "''chat''" "[1]"]
  by (simp add: mk_IsConnected_def mk_Connect_def mk_ConnectCtx_def toy_mock_def NewMockNodeWithID_def lookup_bool_def)

end
