(* ===== verification/NodeApi.thy ===== *)
theory NodeApi
  imports MockNode "HOL-Library.Sublist"
begin

text \<open>
  What the example applications (\<^verbatim>\<open>src/examples\<close>) call of a node. A handler of an application takes the node's methods as a record of
  functions on the node's state, and its laws about what is sent are the locale \<open>sending_node\<close>: a send that returns nil appends one
  message to what leaves the node, one that fails appends nothing. The mock node is an instance. The handlers run one message at a time
  in the goroutine that ranges over \<^verbatim>\<open>Messages()\<close>; what they only print is left out.
\<close>

section \<open>The methods of a node\<close>

record ('n, 'e, 'ma) node_api =
  ap_PeerID :: peer_id
  ap_Addrs :: "'n \<Rightarrow> 'ma list"
  ap_PeerAddrs :: "peer_id \<Rightarrow> 'n \<Rightarrow> 'ma list"
  ap_Send :: "peer_id \<Rightarrow> string \<Rightarrow> bytes \<Rightarrow> 'n \<Rightarrow> 'e option \<times> 'n"
  ap_AddPeer :: "peer_id \<Rightarrow> 'ma list \<Rightarrow> (string \<rightharpoonup> string) option \<Rightarrow> 'n \<Rightarrow> 'e option \<times> 'n"
  ap_Connect :: "peer_id \<Rightarrow> 'n \<Rightarrow> 'e option \<times> 'n"
  ap_Disconnect :: "peer_id \<Rightarrow> 'n \<Rightarrow> 'e option \<times> 'n"
  ap_PrepareStreams :: "peer_id \<Rightarrow> bytes \<Rightarrow> string list \<Rightarrow> 'n \<Rightarrow> 'e option \<times> 'n"
  ap_FinalizeHandshake :: "peer_id \<Rightarrow> 'n \<Rightarrow> 'e option \<times> 'n"
  ap_CompleteHandshake :: "peer_id \<Rightarrow> bytes \<Rightarrow> string list \<Rightarrow> 'n \<Rightarrow> 'e option \<times> 'n"
  ap_IsOutbound :: "peer_id \<Rightarrow> 'n \<Rightarrow> ('e, bool) result"

text \<open>\<^verbatim>\<open>_ = node.Send(...)\<close>: the error is discarded.\<close>

definition send_ignored :: "('n, 'e, 'ma) node_api \<Rightarrow> peer_id \<Rightarrow> string \<Rightarrow> bytes \<Rightarrow> 'n \<Rightarrow> 'n" where
  "send_ignored api p s d n = snd (ap_Send api p s d n)"

text \<open>The loops \<^verbatim>\<open>for _, pid := range peers { _ = node.Send(pid, stream, msg) }\<close>.\<close>

definition send_to_all :: "('n, 'e, 'ma) node_api \<Rightarrow> peer_id list \<Rightarrow> string \<Rightarrow> bytes \<Rightarrow> 'n \<Rightarrow> 'n" where
  "send_to_all api ps s d n = fold (\<lambda>p n. send_ignored api p s d n) ps n"

text \<open>A Go string is a sequence of bytes; the conversions \<^verbatim>\<open>[]byte(s)\<close> and \<^verbatim>\<open>string(b)\<close>.\<close>

definition str_bytes :: "string \<Rightarrow> bytes" where
  "str_bytes s = map (\<lambda>c. of_nat (of_char c)) s"

definition bytes_str :: "bytes \<Rightarrow> string" where
  "bytes_str b = map (\<lambda>x. char_of (unat x)) b"

lemma bytes_str_bytes [simp]: "bytes_str (str_bytes s) = s"
proof -
  have "char_of (unat (of_nat (of_char c) :: byte)) = c" for c
    using nat_of_char_less_256 [of c] by (simp add: unat_of_nat)
  then show ?thesis by (simp add: bytes_str_def str_bytes_def comp_def)
qed

lemma length_str_bytes [simp]: "length (str_bytes s) = length s"
  by (simp add: str_bytes_def)

section \<open>Interface: a node that sends\<close>

text \<open>\<open>log\<close> is what has left the node; \<open>up n p\<close> says that a send to \<open>p\<close> succeeds now.\<close>

locale sending_node =
  fixes send :: "peer_id \<Rightarrow> string \<Rightarrow> bytes \<Rightarrow> 'n \<Rightarrow> 'e option \<times> 'n"
    and log :: "'n \<Rightarrow> (peer_id \<times> string \<times> bytes) list"
    and up :: "'n \<Rightarrow> peer_id \<Rightarrow> bool"
  assumes send_ok: "send p s d n = (None, n') \<Longrightarrow> log n' = log n @ [(p, s, d)]"
    and send_fails: "send p s d n = (Some e, n') \<Longrightarrow> log n' = log n"
    and send_up: "up n p \<Longrightarrow> fst (send p s d n) = None"
    and send_keeps_up: "up (snd (send p s d n)) q = up n q"
begin

lemma send_log: "log (snd (send p s d n)) = log n @ (if fst (send p s d n) = None then [(p, s, d)] else [])"
  using send_ok send_fails by (cases "send p s d n"; cases "fst (send p s d n)") auto

lemma send_up_log: "up n p \<Longrightarrow> log (snd (send p s d n)) = log n @ [(p, s, d)]"
  by (simp add: send_log send_up)

text \<open>A loop of sends that ignores the errors reaches a subsequence of the peers, all of them when they are up.\<close>

lemma sends_log:
  "\<exists>qs. subseq qs ps \<and> log (fold (\<lambda>p n. snd (send p s d n)) ps n) = log n @ map (\<lambda>p. (p, s, d)) qs"
proof (induction ps arbitrary: n)
  case (Cons p ps)
  obtain qs where "subseq qs ps"
    "log (fold (\<lambda>p n. snd (send p s d n)) ps (snd (send p s d n))) = log (snd (send p s d n)) @ map (\<lambda>p. (p, s, d)) qs"
    using Cons.IH by blast
  then show ?case
    by (intro exI [of _ "(if fst (send p s d n) = None then [p] else []) @ qs"]) (auto simp: send_log)
qed simp

lemma sends_up_log:
  "\<forall>p \<in> set ps. up n p \<Longrightarrow> log (fold (\<lambda>p n. snd (send p s d n)) ps n) = log n @ map (\<lambda>p. (p, s, d)) ps"
  by (induction ps arbitrary: n) (simp_all add: send_up_log send_keeps_up)

lemma sends_keep_up: "up (fold (\<lambda>p n. snd (send p s d n)) ps n) q = up n q"
  by (induction ps arbitrary: n) (simp_all add: send_keeps_up)

end

section \<open>The mock node sends\<close>

definition mock_log :: "'ma MockNode \<Rightarrow> (peer_id \<times> string \<times> bytes) list" where
  "mock_log m = map (\<lambda>x. (sent_PeerID x, sent_StreamName x, sent_Data x)) (mk_sentMessages m)"

definition mock_up :: "'ma MockNode \<Rightarrow> peer_id \<Rightarrow> bool" where
  "mock_up m p \<longleftrightarrow> mk_sendErr m = None \<and> mk_IsConnected p m"

interpretation msend: sending_node "mk_Send now" mock_log mock_up
  by unfold_locales
    (auto simp: mk_Send_def mk_SendCtx_def mock_log_def mock_up_def mk_IsConnected_def split: option.splits if_splits)

text \<open>The mock as a node of an application. It has no handshake methods: a test that runs an application over it lets them return nil.\<close>

definition mock_api :: "time_ns \<Rightarrow> ('ma MockNode, mock_err, 'ma) node_api" where
  "mock_api now =
     \<lparr>ap_PeerID = ''me'', ap_Addrs = mk_addrs, ap_PeerAddrs = (\<lambda>p m. case mk_peers m p of None \<Rightarrow> [] | Some st \<Rightarrow> mp_Addrs st),
      ap_Send = mk_Send now, ap_AddPeer = mk_AddPeer, ap_Connect = mk_Connect, ap_Disconnect = mk_Disconnect,
      ap_PrepareStreams = (\<lambda>p k ss m. (None, m)), ap_FinalizeHandshake = (\<lambda>p m. (None, m)),
      ap_CompleteHandshake = (\<lambda>p k ss m. (None, m)), ap_IsOutbound = mk_IsOutbound\<rparr>"

section \<open>A node that records the calls made on it\<close>

text \<open>
  For every node, the same node that also records the calls an application makes and whether they returned nil. What an application does is
  stated about the recorded calls, whatever the node underneath does.
\<close>

datatype api_call =
    ASend peer_id string bytes bool
  | AAddPeer peer_id bool
  | AConnect peer_id bool
  | ADisconnect peer_id bool
  | APrepare peer_id bytes "string list" bool
  | AFinalize peer_id bool
  | AComplete peer_id bytes "string list" bool

definition noting :: "(bool \<Rightarrow> api_call) \<Rightarrow> ('n \<Rightarrow> 'e option \<times> 'n) \<Rightarrow> 'n \<times> api_call list \<Rightarrow> 'e option \<times> 'n \<times> api_call list" where
  "noting c f nt = (case f (fst nt) of (r, n') \<Rightarrow> (r, n', snd nt @ [c (r = None)]))"

definition traced :: "('n, 'e, 'ma) node_api \<Rightarrow> ('n \<times> api_call list, 'e, 'ma) node_api" where
  "traced api =
     \<lparr>ap_PeerID = ap_PeerID api, ap_Addrs = (\<lambda>nt. ap_Addrs api (fst nt)), ap_PeerAddrs = (\<lambda>p nt. ap_PeerAddrs api p (fst nt)),
      ap_Send = (\<lambda>p s d. noting (ASend p s d) (ap_Send api p s d)),
      ap_AddPeer = (\<lambda>p as md. noting (AAddPeer p) (ap_AddPeer api p as md)),
      ap_Connect = (\<lambda>p. noting (AConnect p) (ap_Connect api p)),
      ap_Disconnect = (\<lambda>p. noting (ADisconnect p) (ap_Disconnect api p)),
      ap_PrepareStreams = (\<lambda>p k ss. noting (APrepare p k ss) (ap_PrepareStreams api p k ss)),
      ap_FinalizeHandshake = (\<lambda>p. noting (AFinalize p) (ap_FinalizeHandshake api p)),
      ap_CompleteHandshake = (\<lambda>p k ss. noting (AComplete p k ss) (ap_CompleteHandshake api p k ss)),
      ap_IsOutbound = (\<lambda>p nt. ap_IsOutbound api p (fst nt))\<rparr>"

lemma noting_trace: "snd (snd (noting c f nt)) = snd nt @ [c (fst (noting c f nt) = None)]"
  by (simp add: noting_def split: prod.splits)

lemma noting_result: "fst (noting c f nt) = fst (f (fst nt))"
  by (simp add: noting_def split: prod.splits)

lemma traced_calls [simp]:
  "ap_Send (traced api) p s d = noting (ASend p s d) (ap_Send api p s d)"
  "ap_AddPeer (traced api) p as md = noting (AAddPeer p) (ap_AddPeer api p as md)"
  "ap_Connect (traced api) p = noting (AConnect p) (ap_Connect api p)"
  "ap_Disconnect (traced api) p = noting (ADisconnect p) (ap_Disconnect api p)"
  "ap_PrepareStreams (traced api) p k ss = noting (APrepare p k ss) (ap_PrepareStreams api p k ss)"
  "ap_FinalizeHandshake (traced api) p = noting (AFinalize p) (ap_FinalizeHandshake api p)"
  "ap_CompleteHandshake (traced api) p k ss = noting (AComplete p k ss) (ap_CompleteHandshake api p k ss)"
  "ap_IsOutbound (traced api) p nt = ap_IsOutbound api p (fst nt)"
  "ap_PeerID (traced api) = ap_PeerID api"
  "ap_PeerAddrs (traced api) p nt = ap_PeerAddrs api p (fst nt)"
  "ap_Addrs (traced api) nt = ap_Addrs api (fst nt)"
  by (simp_all add: traced_def)

text \<open>The messages that left the node, in order.\<close>

fun sent_calls :: "api_call list \<Rightarrow> (peer_id \<times> string \<times> bytes) list" where
  "sent_calls [] = []"
| "sent_calls (ASend p s d True # tr) = (p, s, d) # sent_calls tr"
| "sent_calls (c # tr) = sent_calls tr"

lemma sent_calls_append [simp]: "sent_calls (tr @ tr') = sent_calls tr @ sent_calls tr'"
  by (induction tr rule: sent_calls.induct) simp_all

text \<open>No promise is made about which sends succeed.\<close>

interpretation tsend: sending_node "ap_Send (traced api)" "\<lambda>nt. sent_calls (snd nt)" "\<lambda>nt p. False"
  by unfold_locales (auto simp: noting_def split: prod.splits)

text \<open>No send has failed; and what was sent on a stream between two traces.\<close>

definition sends_ok :: "api_call list \<Rightarrow> bool" where
  "sends_ok tr \<longleftrightarrow> (\<forall>p s d. ASend p s d False \<notin> set tr)"

definition new_sends :: "string \<Rightarrow> api_call list \<Rightarrow> api_call list \<Rightarrow> (peer_id \<times> bytes) list" where
  "new_sends st old new = map (\<lambda>(p, s, d). (p, d)) (filter (\<lambda>(p, s, d). s = st) (sent_calls (drop (length old) new)))"

lemma new_sends_same [simp]: "new_sends st tr tr = []"
  by (simp add: new_sends_def)

lemma subseq_set: "subseq xs ys \<Longrightarrow> set xs \<subseteq> set ys"
  by (induction rule: list_emb.induct) auto

lemma subseq_distinct: "subseq xs ys \<Longrightarrow> distinct ys \<Longrightarrow> distinct xs"
  by (induction rule: list_emb.induct) (auto dest: subseq_set)

lemma send_to_all_trace:
  "\<exists>qs tr. snd (send_to_all (traced api) ps s d nt) = snd nt @ tr \<and> subseq qs ps \<and> sent_calls tr = map (\<lambda>p. (p, s, d)) qs \<and>
     (sends_ok tr \<longrightarrow> qs = ps)"
proof (induction ps arbitrary: nt)
  case (Cons p ps)
  let ?n1 = "send_ignored (traced api) p s d nt"
  define ok where "ok = (fst (ap_Send api p s d (fst nt)) = None)"
  have n1: "snd ?n1 = snd nt @ [ASend p s d ok]" by (simp add: send_ignored_def noting_trace noting_result ok_def)
  obtain qs tr where IH: "snd (send_to_all (traced api) ps s d ?n1) = snd ?n1 @ tr" "subseq qs ps" "sent_calls tr = map (\<lambda>p. (p, s, d)) qs"
    "sends_ok tr \<longrightarrow> qs = ps" using Cons.IH by blast
  have "snd (send_to_all (traced api) (p # ps) s d nt) = snd nt @ ASend p s d ok # tr" using IH(1) n1 by (simp add: send_to_all_def)
  then show ?case using IH(2-4)
    by (intro exI [of _ "(if ok then [p] else []) @ qs"] exI [of _ "ASend p s d ok # tr"]) (cases ok; auto simp: sends_ok_def)
qed (auto simp: send_to_all_def)

lemma send_to_all_sends:
  "\<exists>qs. subseq qs ps \<and> new_sends s (snd nt) (snd (send_to_all (traced api) ps s d nt)) = map (\<lambda>p. (p, d)) qs \<and>
     (sends_ok (snd (send_to_all (traced api) ps s d nt)) \<longrightarrow> qs = ps \<and> sends_ok (snd nt))"
proof -
  obtain qs tr where "snd (send_to_all (traced api) ps s d nt) = snd nt @ tr" "subseq qs ps" "sent_calls tr = map (\<lambda>p. (p, s, d)) qs"
    "sends_ok tr \<longrightarrow> qs = ps" using send_to_all_trace by blast
  then show ?thesis by (intro exI [of _ qs]) (auto simp: new_sends_def sends_ok_def filter_map comp_def)
qed

section \<open>Multi-byte integers on the wire\<close>

text \<open>\<^verbatim>\<open>binary.BigEndian.PutUint32\<close>, \<^verbatim>\<open>PutUint64\<close> and their inverses, the most significant byte first.\<close>

fun put_be :: "nat \<Rightarrow> nat \<Rightarrow> bytes" where
  "put_be 0 x = []"
| "put_be (Suc k) x = put_be k (x div 256) @ [of_nat (x mod 256)]"

definition get_be :: "bytes \<Rightarrow> nat" where
  "get_be bs = foldl (\<lambda>acc b. acc * 256 + unat b) 0 bs"

lemma length_put_be [simp]: "length (put_be k x) = k"
  by (induction k arbitrary: x) simp_all

lemma get_put_be: "get_be (put_be k x) = x mod 256 ^ k"
proof (induction k arbitrary: x)
  case (Suc k)
  have "unat (of_nat (x mod 256) :: byte) = x mod 256"
    by (simp add: unat_of_nat)
  then show ?case using Suc.IH [of "x div 256"] by (simp add: mod_mult2_eq get_be_def)
qed (simp add: get_be_def)

end
