(* ===== verification/AppHandshake.thy ===== *)
theory AppHandshake
  imports NodeApi
begin

text \<open>
  The handshake that the examples \<^verbatim>\<open>basic\<close>, \<^verbatim>\<open>simple-chat\<close>, \<^verbatim>\<open>rpc\<close> and \<^verbatim>\<open>file-transfer\<close> run on the handshake stream: Hello, PubKey, Complete. The four
  handlers have the same shape and differ in four places, which are the parameters below: whether the peer's state is created before or after the
  check for an empty message, whether a Complete needs an earlier Hello, what follows the type byte of their Hello, and the stream they open.
  The state has the fields of \<^verbatim>\<open>simple-chat\<close>; \<^verbatim>\<open>rpc\<close> and \<^verbatim>\<open>file-transfer\<close> have only the last two of them, \<^verbatim>\<open>basic\<close> the last three, and never read the others.
  The handlers of \<^verbatim>\<open>cluster\<close> and \<^verbatim>\<open>blockberry-integration\<close> are in theories of their own.
\<close>

section \<open>The handler\<close>

definition msgHello :: byte where "msgHello = 1"

definition msgPubKey :: byte where "msgPubKey = 2"

definition msgComplete :: byte where "msgComplete = 3"

lemmas msg_types = msgHello_def msgPubKey_def msgComplete_def

record peerState =
  ps_name :: string
  gotHello :: bool
  gotPubKey :: bool
  peerPubKey :: bytes

definition new_peerState :: peerState where
  "new_peerState = \<lparr>ps_name = [], gotHello = False, gotPubKey = False, peerPubKey = []\<rparr>"

type_synonym peerStates = "peer_id \<rightharpoonup> peerState"

record hs_params =
  create_first :: bool
  need_hello :: bool
  hello_body :: bytes
  own_key :: bytes
  app_stream :: string

definition state_of :: "peerStates \<Rightarrow> peer_id \<Rightarrow> peerState" where
  "state_of sts p = (case sts p of None \<Rightarrow> new_peerState | Some st \<Rightarrow> st)"

definition on_handshake :: "hs_params \<Rightarrow> ('n, 'e, 'ma) node_api \<Rightarrow> IncomingMessage \<Rightarrow> peerStates \<times> 'n \<Rightarrow> peerStates \<times> 'n" where
  "on_handshake hp api msg w =
     (let p = im_PeerID msg; sts = fst w; n = snd w; st = state_of sts p in
      case im_Data msg of
        [] \<Rightarrow> (if create_first hp then sts(p \<mapsto> st) else sts, n)
      | t # body \<Rightarrow>
          if t = msgHello then
            (let st' = st\<lparr>gotHello := True, ps_name := if body \<noteq> [] then bytes_str body else ps_name st\<rparr>;
                 n1 = send_ignored api p HandshakeStreamName (msgHello # hello_body hp) n
             in (sts(p \<mapsto> st'), send_ignored api p HandshakeStreamName (msgPubKey # own_key hp) n1))
          else if t = msgPubKey then
            (sts(p \<mapsto> if body \<noteq> [] then st\<lparr>peerPubKey := body, gotPubKey := True\<rparr> else st), n)
          else if t = msgComplete then
            (if (need_hello hp \<longrightarrow> gotHello st) \<and> gotPubKey st then
               (let n1 = send_ignored api p HandshakeStreamName [msgComplete] n
                in (sts(p := None), snd (ap_CompleteHandshake api p (peerPubKey st) [app_stream hp] n1)))
             else (sts(p \<mapsto> st), n))
          else (sts(p \<mapsto> st), n))"

section \<open>The four applications\<close>

definition basic_params :: "bytes \<Rightarrow> hs_params" where
  "basic_params pub = \<lparr>create_first = True, need_hello = True, hello_body = [], own_key = pub, app_stream = ''messages''\<rparr>"

definition chat_params :: "string \<Rightarrow> bytes \<Rightarrow> hs_params" where
  "chat_params name pub = \<lparr>create_first = False, need_hello = True, hello_body = str_bytes name, own_key = pub, app_stream = ''chat''\<rparr>"

definition rpc_params :: "bytes \<Rightarrow> hs_params" where
  "rpc_params pub = \<lparr>create_first = True, need_hello = False, hello_body = [], own_key = pub, app_stream = ''rpc''\<rparr>"

definition file_params :: "bytes \<Rightarrow> hs_params" where
  "file_params pub = \<lparr>create_first = True, need_hello = False, hello_body = [], own_key = pub, app_stream = ''file-transfer''\<rparr>"

text \<open>The message loops of \<^verbatim>\<open>basic\<close> and \<^verbatim>\<open>simple-chat\<close>: other messages are only printed.\<close>

definition basic_on_message :: "bytes \<Rightarrow> ('n, 'e, 'ma) node_api \<Rightarrow> IncomingMessage \<Rightarrow> peerStates \<times> 'n \<Rightarrow> peerStates \<times> 'n" where
  "basic_on_message pub api msg w = (if im_StreamName msg = HandshakeStreamName then on_handshake (basic_params pub) api msg w else w)"

definition chat_on_message :: "string \<Rightarrow> bytes \<Rightarrow> ('n, 'e, 'ma) node_api \<Rightarrow> IncomingMessage \<Rightarrow> peerStates \<times> 'n \<Rightarrow> peerStates \<times> 'n" where
  "chat_on_message name pub api msg w =
     (if im_StreamName msg = HandshakeStreamName then on_handshake (chat_params name pub) api msg w else w)"

section \<open>The initiator\<close>

text \<open>
  Connecting: the peer's state is reset, the peer added and dialled, Hello and PubKey are sent. \<^verbatim>\<open>simple-chat\<close> gives up when a send fails (\<open>strict\<close>), the
  others ignore it. \<open>True\<close> says that the polling that follows is started. The address has been parsed into the peer and its addresses.
\<close>

definition connectToPeer :: "hs_params \<Rightarrow> bool \<Rightarrow> (string \<rightharpoonup> string) option \<Rightarrow> ('n, 'e, 'ma) node_api \<Rightarrow> peer_id \<Rightarrow> 'ma list \<Rightarrow>
    peerStates \<times> 'n \<Rightarrow> bool \<times> peerStates \<times> 'n" where
  "connectToPeer hp strict md api p addrs w =
     (let sts = (fst w)(p \<mapsto> new_peerState); n1 = snd (ap_AddPeer api p addrs md (snd w)) in
      case ap_Connect api p n1 of
        (Some e, n2) \<Rightarrow> (False, sts, n2)
      | (None, n2) \<Rightarrow>
          (case ap_Send api p HandshakeStreamName (msgHello # hello_body hp) n2 of
             (r, n3) \<Rightarrow>
               if strict \<and> r \<noteq> None then (False, sts, n3)
               else (case ap_Send api p HandshakeStreamName (msgPubKey # own_key hp) n3 of
                       (r', n4) \<Rightarrow> (\<not> (strict \<and> r' \<noteq> None), sts, n4))))"

text \<open>
  One round of the polling goroutine (of a hundred): once the peer's key is there, Complete is sent and the handshake completed. \<^verbatim>\<open>simple-chat\<close>
  keeps the state when \<^verbatim>\<open>CompleteHandshake\<close> fails (\<open>strict\<close>), and returns if the state is gone when it starts (\<open>first\<close>). \<open>True\<close> says that the goroutine is done.
\<close>

definition poll_round :: "hs_params \<Rightarrow> bool \<Rightarrow> bool \<Rightarrow> ('n, 'e, 'ma) node_api \<Rightarrow> peer_id \<Rightarrow> peerStates \<times> 'n \<Rightarrow> bool \<times> peerStates \<times> 'n" where
  "poll_round hp strict first api p w =
     (case fst w p of
        None \<Rightarrow> (strict \<and> first, w)
      | Some st \<Rightarrow>
          if \<not> gotPubKey st then (False, w)
          else (let n1 = send_ignored api p HandshakeStreamName [msgComplete] (snd w) in
                case ap_CompleteHandshake api p (peerPubKey st) [app_stream hp] n1 of
                  (r, n2) \<Rightarrow> (True, if strict \<and> r \<noteq> None then fst w else (fst w)(p := None), n2)))"

section \<open>The key file of simple-chat\<close>

text \<open>
  \<^verbatim>\<open>loadOrGenerateKey\<close>: \<open>file\<close> is the content of the key file (\<open>None\<close> when it cannot be read), \<open>gen\<close> the key that \<^verbatim>\<open>GenerateKey\<close> gives (\<open>None\<close> for an error),
  \<open>saves\<close> whether writing succeeds. The new content of the file is the second component.
\<close>

definition KeyFileSize :: nat where
  "KeyFileSize = 64"

definition loadOrGenerateKey :: "bytes option \<Rightarrow> bytes option \<Rightarrow> bool \<Rightarrow> bytes option \<times> bytes option" where
  "loadOrGenerateKey file gen saves =
     (let fresh = (case gen of
                     None \<Rightarrow> (None, file)
                   | Some priv \<Rightarrow> (Some priv, if saves then Some priv else file)) in
      case file of
        Some data \<Rightarrow> if length data = KeyFileSize then (Some data, file) else fresh
      | None \<Rightarrow> fresh)"

text \<open>\<^verbatim>\<open>sendMessage\<close>; \<open>decode\<close> is \<^verbatim>\<open>peer.Decode\<close>. The result says whether the message was sent.\<close>

definition sendMessage :: "(string \<Rightarrow> peer_id option) \<Rightarrow> ('n, 'e, 'ma) node_api \<Rightarrow> string \<Rightarrow> string \<Rightarrow> string \<Rightarrow> 'n \<Rightarrow> bool \<times> 'n" where
  "sendMessage decode api peerIDStr sender content n =
     (case decode peerIDStr of
        None \<Rightarrow> (False, n)
      | Some p \<Rightarrow>
          (case ap_Send api p ''chat'' (str_bytes (''['' @ sender @ '']: '' @ content)) n of
             (r, n') \<Rightarrow> (r = None, n')))"

section \<open>Which handshakes are completed\<close>

text \<open>Hello and the public keys that a peer has sent.\<close>

definition hello_from :: "peer_id \<Rightarrow> IncomingMessage list \<Rightarrow> bool" where
  "hello_from p msgs \<longleftrightarrow> (\<exists>m \<in> set msgs. im_PeerID m = p \<and> (\<exists>b. im_Data m = msgHello # b))"

definition keys_from :: "peer_id \<Rightarrow> IncomingMessage list \<Rightarrow> bytes set" where
  "keys_from p msgs = {k. k \<noteq> [] \<and> (\<exists>m \<in> set msgs. im_PeerID m = p \<and> im_Data m = msgPubKey # k)}"

definition justified :: "hs_params \<Rightarrow> IncomingMessage list \<Rightarrow> api_call \<Rightarrow> bool" where
  "justified hp msgs c \<longleftrightarrow>
     (\<forall>p k ss ok. c = AComplete p k ss ok \<longrightarrow>
        k \<in> keys_from p msgs \<and> (need_hello hp \<longrightarrow> hello_from p msgs) \<and> ss = [app_stream hp])"

definition states_ok :: "IncomingMessage list \<Rightarrow> peerStates \<Rightarrow> bool" where
  "states_ok msgs sts \<longleftrightarrow>
     (\<forall>p st. sts p = Some st \<longrightarrow> (gotHello st \<longrightarrow> hello_from p msgs) \<and> (gotPubKey st \<longrightarrow> peerPubKey st \<in> keys_from p msgs))"

lemma from_mono:
  "hello_from p msgs \<Longrightarrow> hello_from p (msgs @ ms)"
  "k \<in> keys_from p msgs \<Longrightarrow> k \<in> keys_from p (msgs @ ms)"
  by (auto simp: hello_from_def keys_from_def)

lemma justified_mono: "justified hp msgs c \<Longrightarrow> justified hp (msgs @ ms) c"
  by (auto simp: justified_def from_mono)

lemma states_ok_mono: "states_ok msgs sts \<Longrightarrow> states_ok (msgs @ ms) sts"
  by (auto simp: states_ok_def from_mono)

lemma states_ok_upd:
  "states_ok msgs sts \<Longrightarrow> (gotHello st \<Longrightarrow> hello_from p msgs) \<Longrightarrow> (gotPubKey st \<Longrightarrow> peerPubKey st \<in> keys_from p msgs) \<Longrightarrow>
     states_ok msgs (sts(p \<mapsto> st))"
  by (auto simp: states_ok_def)

lemma states_ok_del: "states_ok msgs sts \<Longrightarrow> states_ok msgs (sts(p := None))"
  by (auto simp: states_ok_def)

lemma state_of_ok:
  "states_ok msgs sts \<Longrightarrow>
     (gotHello (state_of sts p) \<longrightarrow> hello_from p msgs) \<and> (gotPubKey (state_of sts p) \<longrightarrow> peerPubKey (state_of sts p) \<in> keys_from p msgs)"
  by (auto simp: states_ok_def state_of_def new_peerState_def split: option.splits)

lemma justified_send [simp]: "justified hp msgs (ASend p s d ok)"
  by (simp add: justified_def)

lemma send_ignored_traced: "snd (send_ignored (traced api) p s d nt) = snd nt @ [ASend p s d (fst (ap_Send api p s d (fst nt)) = None)]"
  by (simp add: send_ignored_def noting_trace noting_result)

lemma on_handshake_justified:
  assumes "states_ok msgs (fst w)" and "\<forall>c \<in> set (snd (snd w)). justified hp msgs c"
  shows "states_ok (msgs @ [msg]) (fst (on_handshake hp (traced api) msg w)) \<and>
     (\<forall>c \<in> set (snd (snd (on_handshake hp (traced api) msg w))). justified hp (msgs @ [msg]) c)"
proof -
  let ?p = "im_PeerID msg" and ?st = "state_of (fst w) (im_PeerID msg)"
  have st: "states_ok (msgs @ [msg]) (fst w)" using assms(1) by (rule states_ok_mono)
  note so = state_of_ok [OF st, of ?p]
  have calls: "\<forall>c \<in> set (snd (snd w)). justified hp (msgs @ [msg]) c" using assms(2) justified_mono by blast
  have "hello_from ?p (msgs @ [msg])" if "im_Data msg = msgHello # b" for b
    using that by (auto simp: hello_from_def)
  moreover have "b \<in> keys_from ?p (msgs @ [msg])" if "im_Data msg = msgPubKey # b" "b \<noteq> []" for b
    using that by (auto simp: keys_from_def)
  moreover have "justified hp (msgs @ [msg]) (AComplete ?p (peerPubKey ?st) [app_stream hp] ok)"
    if "need_hello hp \<longrightarrow> gotHello ?st" "gotPubKey ?st" for ok
    using that so by (auto simp: justified_def)
  ultimately show ?thesis using st so calls
    by (cases "im_Data msg")
      (auto simp: on_handshake_def Let_def send_ignored_traced noting_trace intro!: states_ok_upd states_ok_del)
qed

lemma handshakes_justified:
  assumes "states_ok ms (fst w)" and "\<forall>c \<in> set (snd (snd w)). justified hp ms c"
  shows "states_ok (ms @ msgs) (fst (fold (on_handshake hp (traced api)) msgs w)) \<and>
     (\<forall>c \<in> set (snd (snd (fold (on_handshake hp (traced api)) msgs w))). justified hp (ms @ msgs) c)"
  using assms
proof (induction msgs arbitrary: ms w)
  case (Cons m msgs)
  from on_handshake_justified [OF Cons.prems, of m api] Cons.IH [of "ms @ [m]" "on_handshake hp (traced api) m w"]
  show ?case by simp
qed simp

section \<open>Two nodes\<close>

text \<open>
  Two nodes whose applications run the same handshake, and the handshake messages each has sent to the other. \<open>delivered\<close> counts the messages
  of each that the other's handler has been given, in order.
\<close>

type_synonym 'n app = "peerStates \<times> 'n \<times> api_call list"

record 'n pair =
  appA :: "'n app"
  appB :: "'n app"
  deliveredA :: nat
  deliveredB :: nat

definition outbox :: "peer_id \<Rightarrow> 'n app \<Rightarrow> bytes list" where
  "outbox q a = map (\<lambda>(p, s, d). d) (filter (\<lambda>(p, s, d). p = q \<and> s = HandshakeStreamName) (sent_calls (snd (snd a))))"

datatype pair_move = DeliverToB | DeliverToA | PollA bool bool | PollB bool bool

inductive pair_step :: "hs_params \<Rightarrow> hs_params \<Rightarrow> ('n, 'e, 'ma) node_api \<Rightarrow> ('n, 'e, 'ma) node_api \<Rightarrow> peer_id \<Rightarrow> peer_id \<Rightarrow>
    'n pair \<Rightarrow> pair_move \<Rightarrow> 'n pair \<Rightarrow> bool" for hpA hpB apiA apiB a b where
  deliver_b: "deliveredA s < length (outbox b (appA s)) \<Longrightarrow>
     pair_step hpA hpB apiA apiB a b s DeliverToB
       (s\<lparr>appB := on_handshake hpB (traced apiB)
            \<lparr>im_PeerID = a, im_StreamName = HandshakeStreamName, im_Data = outbox b (appA s) ! deliveredA s, im_Timestamp = now\<rparr> (appB s),
          deliveredA := Suc (deliveredA s)\<rparr>)"
| deliver_a: "deliveredB s < length (outbox a (appB s)) \<Longrightarrow>
     pair_step hpA hpB apiA apiB a b s DeliverToA
       (s\<lparr>appA := on_handshake hpA (traced apiA)
            \<lparr>im_PeerID = b, im_StreamName = HandshakeStreamName, im_Data = outbox a (appB s) ! deliveredB s, im_Timestamp = now\<rparr> (appA s),
          deliveredB := Suc (deliveredB s)\<rparr>)"
| poll_a: "pair_step hpA hpB apiA apiB a b s (PollA st fi) (s\<lparr>appA := snd (poll_round hpA st fi (traced apiA) b (appA s))\<rparr>)"
| poll_b: "pair_step hpA hpB apiA apiB a b s (PollB st fi) (s\<lparr>appB := snd (poll_round hpB st fi (traced apiB) a (appB s))\<rparr>)"

definition all_sent :: "'n app \<Rightarrow> bool" where
  "all_sent w \<longleftrightarrow> (\<forall>p s d. ASend p s d False \<notin> set (snd (snd w)))"

definition hello_waits :: "peer_id \<Rightarrow> nat \<Rightarrow> 'n app \<Rightarrow> bool" where
  "hello_waits q k w \<longleftrightarrow> (\<exists>i < length (outbox q w). k \<le> i \<and> (\<exists>b. outbox q w ! i = msgHello # b))"

text \<open>The trace of a node only grows, and what it has sent stays sent.\<close>

definition grows :: "'n app \<Rightarrow> 'n app \<Rightarrow> bool" where
  "grows w w' \<longleftrightarrow> (\<exists>tr. snd (snd w') = snd (snd w) @ tr)"

lemma on_handshake_grows: "grows w (on_handshake hp (traced api) msg w)"
  by (auto simp: grows_def on_handshake_def Let_def send_ignored_traced noting_trace split: list.splits)

lemma poll_round_grows: "grows w (snd (poll_round hp st fi (traced api) p w))"
proof (cases "fst w p")
  case (Some ps)
  obtain r n2 where c: "ap_CompleteHandshake (traced api) p (peerPubKey ps) [app_stream hp]
      (send_ignored (traced api) p HandshakeStreamName [msgComplete] (snd w)) = (r, n2)" using prod.exhaust by blast
  have "snd n2 = snd (send_ignored (traced api) p HandshakeStreamName [msgComplete] (snd w)) @ [AComplete p (peerPubKey ps) [app_stream hp] (r = None)]"
    using noting_trace [of "AComplete p (peerPubKey ps) [app_stream hp]" _ "send_ignored (traced api) p HandshakeStreamName [msgComplete] (snd w)"] c
    by (metis fst_conv snd_conv traced_calls(7))
  then show ?thesis using Some c by (auto simp: grows_def poll_round_def Let_def send_ignored_traced simp del: traced_calls)
qed (simp add: grows_def poll_round_def)

lemma grows_outbox: "grows w w' \<Longrightarrow> \<exists>ds. outbox q w' = outbox q w @ ds"
  by (auto simp: grows_def outbox_def)

lemma grows_all_sent: "grows w w' \<Longrightarrow> all_sent w' \<Longrightarrow> all_sent w"
  by (auto simp: grows_def all_sent_def)

lemma hello_waits_grows:
  assumes "hello_waits q k w" and "grows w w'"
  shows "hello_waits q k w'"
proof -
  obtain i b where i: "i < length (outbox q w)" "k \<le> i" "outbox q w ! i = msgHello # b" using assms(1) by (auto simp: hello_waits_def)
  obtain ds where "outbox q w' = outbox q w @ ds" using grows_outbox [OF assms(2)] by blast
  then show ?thesis using i unfolding hello_waits_def by (intro exI [of _ i]) (simp add: nth_append)
qed

lemma hello_waits_next: "hello_waits q k w \<Longrightarrow> (\<exists>b. outbox q w ! k = msgHello # b) \<or> hello_waits q (Suc k) w"
  unfolding hello_waits_def by (metis le_neq_implies_less Suc_leI)

text \<open>The answer to a Hello is another Hello.\<close>

lemma hello_is_answered:
  assumes "im_Data msg = msgHello # b" and "all_sent (on_handshake hp (traced api) msg w)" and "k \<le> length (outbox (im_PeerID msg) w)"
  shows "hello_waits (im_PeerID msg) k (on_handshake hp (traced api) msg w)"
proof -
  let ?n1 = "send_ignored (traced api) (im_PeerID msg) HandshakeStreamName (msgHello # hello_body hp) (snd w)"
  obtain ok1 ok2 where tr: "snd (snd (on_handshake hp (traced api) msg w)) =
      snd (snd w) @ [ASend (im_PeerID msg) HandshakeStreamName (msgHello # hello_body hp) ok1,
                     ASend (im_PeerID msg) HandshakeStreamName (msgPubKey # own_key hp) ok2]"
    using assms(1) by (simp add: on_handshake_def Let_def send_ignored_traced)
  then have "ok1" "ok2" using assms(2) by (auto simp: all_sent_def)
  then have "outbox (im_PeerID msg) (on_handshake hp (traced api) msg w) =
      outbox (im_PeerID msg) w @ [msgHello # hello_body hp, msgPubKey # own_key hp]"
    by (simp add: outbox_def tr)
  then show ?thesis using assms(3) by (auto simp: hello_waits_def nth_append intro!: exI [of _ "length (outbox (im_PeerID msg) w)"])
qed

text \<open>Deliveries do not run ahead of what was sent; while no send has failed, a Hello is on its way.\<close>

definition storm :: "peer_id \<Rightarrow> peer_id \<Rightarrow> 'n pair \<Rightarrow> bool" where
  "storm a b s \<longleftrightarrow> hello_waits b (deliveredA s) (appA s) \<or> hello_waits a (deliveredB s) (appB s)"

definition pair_inv :: "peer_id \<Rightarrow> peer_id \<Rightarrow> 'n pair \<Rightarrow> bool" where
  "pair_inv a b s \<longleftrightarrow> deliveredA s \<le> length (outbox b (appA s)) \<and> deliveredB s \<le> length (outbox a (appB s)) \<and>
     (all_sent (appA s) \<and> all_sent (appB s) \<longrightarrow> storm a b s)"

lemma grows_length: "grows w w' \<Longrightarrow> length (outbox q w) \<le> length (outbox q w')"
  using grows_outbox [of w w' q] by auto

text \<open>One delivery, seen from the receiver: \<open>w\<close> sends, \<open>v\<close> receives.\<close>

lemma delivery_keeps_storm:
  assumes "hello_waits q k w \<or> hello_waits p l v" and "k < length (outbox q w)" and "l \<le> length (outbox p v)"
    and "im_PeerID msg = p" and "im_Data msg = outbox q w ! k" and "all_sent (on_handshake hp (traced api) msg v)"
  shows "hello_waits q (Suc k) w \<or> hello_waits p l (on_handshake hp (traced api) msg v)"
  using assms hello_waits_next hello_is_answered hello_waits_grows [OF _ on_handshake_grows] by metis

lemma pair_inv_step: "pair_step hpA hpB apiA apiB a b s l s' \<Longrightarrow> pair_inv a b s \<Longrightarrow> pair_inv a b s'"
proof (induction rule: pair_step.induct)
  case (deliver_b s now)
  let ?m = "\<lparr>im_PeerID = a, im_StreamName = HandshakeStreamName, im_Data = outbox b (appA s) ! deliveredA s, im_Timestamp = now\<rparr>"
  note g = on_handshake_grows [of "appB s" hpB apiB ?m]
  show ?case using deliver_b grows_length [OF g, of a] grows_all_sent [OF g]
      delivery_keeps_storm [of b "deliveredA s" "appA s" a "deliveredB s" "appB s" ?m hpB apiB]
    by (auto simp: pair_inv_def storm_def)
next
  case (deliver_a s now)
  let ?m = "\<lparr>im_PeerID = b, im_StreamName = HandshakeStreamName, im_Data = outbox a (appB s) ! deliveredB s, im_Timestamp = now\<rparr>"
  note g = on_handshake_grows [of "appA s" hpA apiA ?m]
  show ?case using deliver_a grows_length [OF g, of b] grows_all_sent [OF g]
      delivery_keeps_storm [of a "deliveredB s" "appB s" b "deliveredA s" "appA s" ?m hpA apiA]
    by (auto simp: pair_inv_def storm_def)
next
  case (poll_a s st fi)
  note g = poll_round_grows [of "appA s" hpA st fi apiA b]
  show ?case using poll_a grows_length [OF g, of b] grows_all_sent [OF g] hello_waits_grows [OF _ g, of b "deliveredA s"]
    by (auto simp: pair_inv_def storm_def)
next
  case (poll_b s st fi)
  note g = poll_round_grows [of "appB s" hpB st fi apiB a]
  show ?case using poll_b grows_length [OF g, of a] grows_all_sent [OF g] hello_waits_grows [OF _ g, of a "deliveredB s"]
    by (auto simp: pair_inv_def storm_def)
qed

interpretation pairs: invariant_system "pair_inv a b" "pair_step hpA hpB apiA apiB a b" "pair_inv a b"
  by unfold_locales (auto intro: pair_inv_step)

section \<open>Properties\<close>

text \<open>
  The applications complete a handshake only with a key that the peer sent: whatever messages arrive in whatever order, and whatever the node's calls
  return, every call of \<^verbatim>\<open>CompleteHandshake\<close> is for a peer that has sent this very key in a PubKey message, in \<^verbatim>\<open>basic\<close> and
  \<^verbatim>\<open>simple-chat\<close> also a Hello, and asks for the application's stream only.
\<close>

theorem completes_with_received_key:
  assumes "fold (on_handshake hp (traced api)) msgs (Map.empty, n, []) = (sts, n', tr)" and "AComplete p k ss ok \<in> set tr"
  shows "k \<noteq> [] \<and> (\<exists>m \<in> set msgs. im_PeerID m = p \<and> im_Data m = msgPubKey # k) \<and> ss = [app_stream hp] \<and>
     (need_hello hp \<longrightarrow> (\<exists>m \<in> set msgs. im_PeerID m = p \<and> (\<exists>b. im_Data m = msgHello # b)))"
proof -
  have "justified hp msgs (AComplete p k ss ok)"
    using handshakes_justified [of "[]" "(Map.empty, n, [])" hp msgs api] assms by (simp add: states_ok_def)
  then show ?thesis by (simp add: justified_def keys_from_def hello_from_def)
qed

text \<open>
  Property C32: The Hello exchange of these applications does not come to rest: once a Hello is under way between two of them, then after any sequence of deliveries and
  polls in which no send failed a Hello is still under way, so another delivery is possible; every Hello is answered with a Hello, also after
  the handshake is complete.
\<close>

theorem hello_exchange_never_rests:
  assumes "runs (pair_step hpA hpB apiA apiB a b) s ls s'" and "hello_waits b (deliveredA s) (appA s)"
    and "deliveredA s \<le> length (outbox b (appA s))" and "deliveredB s \<le> length (outbox a (appB s))"
    and "all_sent (appA s')" and "all_sent (appB s')"
  shows "storm a b s' \<and> (\<exists>s''. pair_step hpA hpB apiA apiB a b s' DeliverToB s'' \<or> pair_step hpA hpB apiA apiB a b s' DeliverToA s'')"
proof -
  have "pair_inv a b s" using assms(2-4) by (simp add: pair_inv_def storm_def)
  then have st: "storm a b s'" using pairs.inv_runs [OF assms(1)] assms(5,6) by (simp add: pair_inv_def)
  then have "deliveredA s' < length (outbox b (appA s')) \<or> deliveredB s' < length (outbox a (appB s'))"
    by (auto simp: storm_def hello_waits_def)
  then show ?thesis using st pair_step.deliver_b [of s' b hpA hpB apiA apiB a] pair_step.deliver_a [of s' a hpA hpB apiA apiB b] by blast
qed

text \<open>
  The polling of the initiator waits for nothing: a hundred rounds in which the handler does not run send nothing and leave everything as it is, unless
  the peer's key is already there.
\<close>

theorem polling_without_delivery:
  assumes "\<forall>st. fst w p = Some st \<longrightarrow> \<not> gotPubKey st"
  shows "((\<lambda>w. snd (poll_round hp strict False api p w)) ^^ k) w = w"
proof -
  have "snd (poll_round hp strict False api p w) = w" using assms by (auto simp: poll_round_def split: option.splits)
  then show ?thesis by (induction k) simp_all
qed

text \<open>The key file: a key that was saved is the one loaded next time.\<close>

theorem key_survives_restart:
  assumes "loadOrGenerateKey file gen True = (Some k, file')" and "gen \<noteq> None \<Longrightarrow> length (the gen) = KeyFileSize"
  shows "length k = KeyFileSize \<and> loadOrGenerateKey file' gen' saves' = (Some k, file')"
  using assms by (auto simp: loadOrGenerateKey_def Let_def split: option.splits if_splits)

section \<open>Witnesses\<close>

definition toy_msg :: "peer_id \<Rightarrow> bytes \<Rightarrow> IncomingMessage" where
  "toy_msg p d = \<lparr>im_PeerID = p, im_StreamName = HandshakeStreamName, im_Data = d, im_Timestamp = 0\<rparr>"

lemmas toy_eval = on_handshake_def Let_def send_ignored_def noting_def mock_api_def mk_Send_def mk_SendCtx_def mk_Connect_def mk_ConnectCtx_def toy_mock_def
  NewMockNodeWithID_def lookup_bool_def toy_msg_def msg_types state_of_def new_peerState_def

theorem completes_with_received_key_witness:
  "\<exists>sts n' tr. fold (on_handshake (chat_params ''A'' [7]) (traced (mock_api 0))) [toy_msg ''p'' [1], toy_msg ''p'' [2, 9], toy_msg ''p'' [3]]
       (Map.empty, snd (mk_Connect ''p'' toy_mock), []) = (sts, n', tr) \<and>
     AComplete ''p'' [9] [''chat''] True \<in> set tr \<and> app_stream (chat_params ''A'' [7]) = ''chat''"
proof -
  obtain sts n' tr where f: "fold (on_handshake (chat_params ''A'' [7]) (traced (mock_api 0))) [toy_msg ''p'' [1], toy_msg ''p'' [2, 9], toy_msg ''p'' [3]]
       (Map.empty, snd (mk_Connect ''p'' toy_mock), []) = (sts, n', tr)" using prod_cases3 by blast
  then have c: "AComplete ''p'' [9] [''chat''] True \<in> set tr" by (auto simp: toy_eval chat_params_def)
  show ?thesis using completes_with_received_key [OF f c] f c by (intro exI [of _ sts] exI [of _ n'] exI [of _ tr]) simp
qed

definition toy_pair :: "string MockNode pair" where
  "toy_pair = \<lparr>appA = (Map.empty, snd (mk_Connect ''b'' toy_mock), [ASend ''b'' HandshakeStreamName [1] True]),
               appB = (Map.empty, snd (mk_Connect ''a'' toy_mock), []), deliveredA = 0, deliveredB = 0\<rparr>"

theorem hello_exchange_never_rests_witness:
  "\<exists>s'. runs (pair_step (rpc_params [5]) (rpc_params [6]) (mock_api 0) (mock_api 0) ''a'' ''b'') toy_pair [DeliverToB] s' \<and> storm ''a'' ''b'' s'"
proof -
  let ?step = "pair_step (rpc_params [5]) (rpc_params [6]) (mock_api 0) (mock_api 0) ''a'' ''b''"
  let ?s = "toy_pair\<lparr>appB := on_handshake (rpc_params [6]) (traced (mock_api 0)) \<lparr>im_PeerID = ''a'', im_StreamName = HandshakeStreamName,
      im_Data = outbox ''b'' (appA toy_pair) ! deliveredA toy_pair, im_Timestamp = 0\<rparr> (appB toy_pair), deliveredA := Suc (deliveredA toy_pair)\<rparr>"
  have out: "outbox ''b'' (appA toy_pair) = [[1]]" by (simp add: toy_pair_def outbox_def)
  then have "?step toy_pair DeliverToB ?s" by (intro pair_step.deliver_b) (simp add: toy_pair_def)
  then have run: "runs ?step toy_pair [DeliverToB] ?s" by (rule runs_cons [OF _ runs.runs_nil])
  have "hello_waits ''b'' (deliveredA toy_pair) (appA toy_pair)" unfolding hello_waits_def out by (simp add: toy_pair_def msgHello_def)
  moreover have "all_sent (appA ?s)" "all_sent (appB ?s)" by (simp_all add: all_sent_def toy_pair_def outbox_def toy_eval rpc_params_def)
  ultimately show ?thesis using hello_exchange_never_rests [OF run] run by (auto simp: toy_pair_def)
qed

theorem polling_without_delivery_witness:
  "((\<lambda>w. snd (poll_round (rpc_params [5]) False False (mock_api 0) ''p'' w)) ^^ 100) ([''p'' \<mapsto> new_peerState], toy_mock) =
     ([''p'' \<mapsto> new_peerState], toy_mock)"
  using polling_without_delivery [of "([''p'' \<mapsto> new_peerState], toy_mock)" "''p''" 100 "rpc_params [5]" False "mock_api 0"]
  by (simp add: new_peerState_def)

theorem key_survives_restart_witness:
  "loadOrGenerateKey (Some (replicate 64 7)) None False = (Some (replicate 64 7), Some (replicate 64 7))"
  using key_survives_restart [of None "Some (replicate 64 7)" "replicate 64 7" "Some (replicate 64 7)" None False]
  by (simp add: loadOrGenerateKey_def KeyFileSize_def)

end
