(* ===== verification/AppNode.thy ===== *)
theory AppNode
  imports NodeLifecycle AppHandshake
begin

text \<open>
  The example applications over the modelled node. \<open>live_api\<close> gives the applications of \<open>AppHandshake\<close> the node of \<open>Node\<close>: each call runs the
  node's method, with what the outside world does to the call (system calls, the network, the clock) as an input per call. The theory shows what the handshake of
  the applications achieves on the node, and that two such applications then exchange messages.
\<close>

section \<open>A node under an application\<close>

text \<open>What a call meets: the inputs of a send, the faults of the file system, the time, the result of a dial, and how streams are closed.\<close>

record call_in =
  ci_send :: send_in
  ci_io :: io_faults
  ci_now :: time_ns
  ci_later :: time_ns
  ci_host :: "string option"
  ci_close :: close_order

text \<open>
  The node, the number of calls so far, whether a call is blocked for good (then nothing follows it in the goroutine), and the goroutines that calls have started.
\<close>

record ('ma, 'txt, 'st, 'l, 'm, 'cb) live =
  lv_node :: "('ma, 'txt, 'st, 'l, 'm, 'cb) node"
  lv_calls :: nat
  lv_stuck :: bool
  lv_spawned :: "goroutine list"

definition live_call :: "(nat \<Rightarrow> call_in) \<Rightarrow>
    (call_in \<Rightarrow> ('ma, 'txt, 'st, 'l, 'm, 'cb) node \<Rightarrow> (node_err option \<times> goroutine list \<times> ('ma, 'txt, 'st, 'l, 'm, 'cb) node) option) \<Rightarrow>
    ('ma, 'txt, 'st, 'l, 'm, 'cb) live \<Rightarrow> node_err option \<times> ('ma, 'txt, 'st, 'l, 'm, 'cb) live" where
  "live_call inp f L =
     (if lv_stuck L then (None, L)
      else case f (inp (lv_calls L)) (lv_node L) of
        None \<Rightarrow> (None, L\<lparr>lv_stuck := True\<rparr>)
      | Some (r, gs, n) \<Rightarrow> (r, L\<lparr>lv_node := n, lv_calls := Suc (lv_calls L), lv_spawned := lv_spawned L @ gs\<rparr>))"

definition quick :: "node_err option \<times> ('ma, 'txt, 'st, 'l, 'm, 'cb) node \<Rightarrow>
    (node_err option \<times> goroutine list \<times> ('ma, 'txt, 'st, 'l, 'm, 'cb) node) option" where
  "quick rn = Some (fst rn, [], snd rn)"

text \<open>\<open>self\<close> and the addresses are the host's; \<open>pairs\<close> lists a map of metadata in the order in which it is visited.\<close>

definition live_api :: "('ma, 'txt) nenv \<Rightarrow> (nat \<Rightarrow> call_in) \<Rightarrow> peer_id \<Rightarrow> 'ma list \<Rightarrow> (peer_id \<Rightarrow> 'ma list) \<Rightarrow>
    ((string \<rightharpoonup> string) \<Rightarrow> (string \<times> string) list) \<Rightarrow> (('ma, 'txt, 'st, 'l, 'm, 'cb) live, node_err, 'ma) node_api" where
  "live_api env inp self addrs paddrs pairs =
     \<lparr>ap_PeerID = self, ap_Addrs = (\<lambda>L. addrs), ap_PeerAddrs = (\<lambda>p L. paddrs p),
      ap_Send = (\<lambda>p s d. live_call inp (\<lambda>i n. map_option (\<lambda>(r, n'). (r, [], n')) (Node_Send env (ci_send i) p s d n))),
      ap_AddPeer = (\<lambda>p as md. live_call inp (\<lambda>i n. Some (Node_AddPeer env (ci_io i) (ci_now i) p as (map_option pairs md) n))),
      ap_Connect = (\<lambda>p. live_call inp (\<lambda>i n. Some (Node_Connect env (ci_now i) (ci_later i) (ci_host i) p n))),
      ap_Disconnect = (\<lambda>p. live_call inp (\<lambda>i n. quick (Node_Disconnect env (ci_close i) (ci_now i) p n))),
      ap_PrepareStreams = (\<lambda>p k ss. live_call inp (\<lambda>i n. quick (PrepareStreams env (ci_io i) (ci_now i) p (Some k) ss n))),
      ap_FinalizeHandshake = (\<lambda>p. live_call inp (\<lambda>i n. quick (FinalizeHandshake env (co_unc (ci_close i)) (ci_now i) p n))),
      ap_CompleteHandshake = (\<lambda>p k ss. live_call inp (\<lambda>i n. quick (CompleteHandshake env (ci_io i) (co_unc (ci_close i)) (ci_now i) p (Some k) ss n))),
      ap_IsOutbound = (\<lambda>p L. case Node_IsOutbound p (lv_node L) of Inl e \<Rightarrow> Inl (NConn e) | Inr b \<Rightarrow> Inr b)\<rparr>"

section \<open>Sends of a quiet node\<close>

text \<open>No message is pending in any controller, as in a node whose only sender is the application's goroutine.\<close>

definition flow_quiet :: "('ma, 'txt, 'st, 'l, 'm, 'cb) node \<Rightarrow> bool" where
  "flow_quiet n \<longleftrightarrow> flow_ok n \<and> (\<forall>name fc. nd_flow n name = Some fc \<longrightarrow> pending fc = 0)"

lemma flow_quiet_acquires:
  assumes "flow_quiet n"
  shows "\<exists>b fc1. Controller_Acquire (getOrCreateFlowController name n) = (AcquireGranted b, fc1)"
    and "pending (getOrCreateFlowController name n) = 0"
proof -
  let ?fc = "getOrCreateFlowController name n"
  have fc: "fc_inv ?fc" "\<not> Controller.closed ?fc" using flow_ok_controller assms by (auto simp: flow_quiet_def)
  show p: "pending ?fc = 0"
    using assms by (auto simp: flow_quiet_def getOrCreateFlowController_def SetBlockedCallback_def NewController_def Let_def split: option.splits)
  then have "\<not> blocked ?fc" using fc(1) by (auto simp: fc_inv_def)
  then show "\<exists>b fc1. Controller_Acquire ?fc = (AcquireGranted b, fc1)" using fc(2) by (auto simp: Controller_Acquire_def Let_def)
qed

text \<open>What a send leaves alone.\<close>

definition same_but_streams :: "('ma, 'txt, 'st, 'l, 'm, 'cb) node \<Rightarrow> ('ma, 'txt, 'st, 'l, 'm, 'cb) node \<Rightarrow> bool" where
  "same_but_streams n n' \<longleftrightarrow> nd_conns n' = nd_conns n \<and> nd_config n' = nd_config n \<and> nd_handlers n' = nd_handlers n \<and>
     nd_messages n' = nd_messages n \<and> nd_started n' = nd_started n \<and> nd_dispatch n' = nd_dispatch n"

lemma stream_send_frame:
  "stream_send env i p name d n = (r, n') \<Longrightarrow> same_but_streams n n' \<and>
     nd_streams n' = snd (sm_SendCtx (ne_prims env) (si_nonce i) (si_write i) (si_new i) (si_ctx i) p name d (nd_streams n)) \<and>
     (r = None \<longleftrightarrow> fst (sm_SendCtx (ne_prims env) (si_nonce i) (si_write i) (si_new i) (si_ctx i) p name d (nd_streams n)) = None)"
  by (auto simp: stream_send_def record_sent_def same_but_streams_def split: prod.splits option.splits)

text \<open>A send of a quiet node returns at once and leaves the node quiet.\<close>

lemma quiet_send:
  assumes q: "flow_quiet n"
  shows "\<exists>r n'. Node_SendCtx env i p name d n = Some (r, n') \<and> flow_quiet n' \<and> same_but_streams n n' \<and>
     (nd_streams n' = nd_streams n \<or>
      nd_streams n' = snd (sm_SendCtx (ne_prims env) (si_nonce i) (si_write i) (si_new i) (si_ctx i) p name d (nd_streams n))) \<and>
     (\<not> refused env name d n \<and> fst (sm_SendCtx (ne_prims env) (si_nonce i) (si_write i) (si_new i) (si_ctx i) p name d (nd_streams n)) = None \<longrightarrow>
      r = None)"
proof (cases "refused env name d n")
  case True
  from Node_SendCtx_refused [OF True, of i p] q True show ?thesis by (auto simp: same_but_streams_def)
next
  case nr: False
  note u = Node_SendCtx_unrefused [OF nr, of i p]
  show ?thesis
  proof (cases "DisableBackpressure (nd_config n)")
    case True
    obtain r n1 where ss: "stream_send env i p name d n = (r, n1)" by fastforce
    have "flow_quiet n1" using stream_send_keeps [OF ss] q by (simp add: flow_quiet_def flow_ok_def)
    then show ?thesis using u True stream_send_frame [OF ss] ss by auto
  next
    case False
    let ?fc = "getOrCreateFlowController name n"
    have fc: "fc_inv ?fc" using flow_ok_controller q by (auto simp: flow_quiet_def)
    obtain b fc1 where acq: "Controller_Acquire ?fc = (AcquireGranted b, fc1)" using flow_quiet_acquires(1) [OF q] by blast
    obtain r n1 where ss: "stream_send env i p name d (n\<lparr>nd_flow := (nd_flow n)(name \<mapsto> fc1)\<rparr>) = (r, n1)" by fastforce
    from granted_send [OF fc acq ss] obtain fc2 where g: "Controller_Release (getOrCreateFlowController name n1) = Some fc2"
      "pending fc2 = pending ?fc" "fc_inv fc2" "\<not> Controller.closed fc2" "nd_flow n1 = (nd_flow n)(name \<mapsto> fc1)" by blast
    let ?n' = "n1\<lparr>nd_flow := (nd_flow n1)(name \<mapsto> fc2)\<rparr>"
    have "Node_SendCtx env i p name d n = Some (r, ?n')" using u False acq ss g(1) by simp
    moreover have "flow_quiet ?n'" using q g flow_quiet_acquires(2) [OF q] by (simp add: flow_quiet_def flow_ok_def)
    moreover have "same_but_streams n ?n'" "nd_streams ?n' =
        snd (sm_SendCtx (ne_prims env) (si_nonce i) (si_write i) (si_new i) (si_ctx i) p name d (nd_streams n))"
      "r = None \<longleftrightarrow> fst (sm_SendCtx (ne_prims env) (si_nonce i) (si_write i) (si_new i) (si_ctx i) p name d (nd_streams n)) = None"
      using stream_send_frame [OF ss] by (simp_all add: same_but_streams_def)
    ultimately show ?thesis by (intro exI [of _ r] exI [of _ ?n']) simp
  qed
qed

text \<open>Everything but the unencrypted streams: what handshake messages, sent and received, leave alone.\<close>

definition same_encrypted :: "smgr \<Rightarrow> smgr \<Rightarrow> bool" where
  "same_encrypted m m' \<longleftrightarrow> sm_module m' = sm_module m \<and> sm_mem m' = sm_mem m \<and> sm_keys m' = sm_keys m \<and> sm_streams m' = sm_streams m \<and>
     sm_allowed m' = sm_allowed m \<and> sm_cancelled m' = sm_cancelled m \<and> sm_config m' = sm_config m \<and> sm_incoming m' = sm_incoming m"

lemma same_encrypted_refl [simp]: "same_encrypted m m"
  by (simp add: same_encrypted_def)

lemma same_encrypted_trans: "same_encrypted a b \<Longrightarrow> same_encrypted b c \<Longrightarrow> same_encrypted a c"
  by (simp add: same_encrypted_def)

lemma clear_ops_frame:
  "same_encrypted m (snd (send_unc w c d r m))" "same_encrypted m (snd (alloc_unc us m))" "same_encrypted m (put_unenc p name r m)"
  "same_encrypted m (snd (close_unc ce r m))" "same_encrypted m (OpenHandshakeStream p m)" "same_encrypted m (snd (CloseHandshakeStream ce p m))"
  by (simp_all add: same_encrypted_def send_unc_def alloc_unc_def put_unenc_def close_unc_def OpenHandshakeStream_def CloseHandshakeStream_def
      split: prod.splits option.splits)

lemma open_clear_frame: "same_encrypted m (snd (openUnencryptedStreamLazilyCtx ce ns c p name m))"
proof -
  have "same_encrypted m (snd (case alloc_unc us m of (r, m1) \<Rightarrow>
      (case get_unenc m1 p name of
         Some r' \<Rightarrow> if \<not> us_closed (uncs m1 r') then (Inr r', snd (close_unc ce r m1)) else (Inr r, put_unenc p name r m1)
       | None \<Rightarrow> (Inr r, put_unenc p name r m1))))" for us
    using clear_ops_frame(2) [of m us] by (auto split: prod.splits option.splits intro: same_encrypted_trans clear_ops_frame)
  then show ?thesis by (simp add: openUnencryptedStreamLazilyCtx_def Let_def split: option.split sum.split) blast
qed

lemma handshake_send_frame: "same_encrypted m (snd (sm_SendCtx pr nonce w ns c p HandshakeStreamName d m))"
proof -
  have "same_encrypted m (snd (case openUnencryptedStreamLazilyCtx ce ns c' p name m of
      (Inl e, m1) \<Rightarrow> (Some e, m1) | (Inr r', m1) \<Rightarrow> send_unc w c'' d r' m1))" for ce c' c'' name
    using open_clear_frame [of m ce ns c' p name] by (auto split: prod.splits sum.splits intro: same_encrypted_trans clear_ops_frame)
  then show ?thesis by (simp add: sm_SendCtx_def sendUnencryptedCtx_def clear_ops_frame split: option.split) 
qed

section \<open>An application and the wire\<close>

text \<open>
  A frame on an unencrypted stream: its read loop passes it to the manager's channel, the forwarding goroutine to the channel of \<^verbatim>\<open>Messages\<close>, and the
  application's message loop receives it and runs its handler.
\<close>

definition app_hears :: "hs_params \<Rightarrow> (('ma, 'txt, 'st, 'l, 'm, 'cb) live, 'e, 'ma) node_api \<Rightarrow> time_ns \<Rightarrow> time_ns \<Rightarrow> nat \<Rightarrow> bytes \<Rightarrow>
    peerStates \<times> ('ma, 'txt, 'st, 'l, 'm, 'cb) live \<Rightarrow> peerStates \<times> ('ma, 'txt, 'st, 'l, 'm, 'cb) live" where
  "app_hears hp api now now' r f w =
     (let n = lv_node (snd w); n1 = n\<lparr>nd_streams := run_read_clear now [RMsg f] r (nd_streams n)\<rparr> in
      case forwardMessage False now' n1 of
        None \<Rightarrow> w
      | Some (_, n2) \<Rightarrow>
          (case chan_recv (nd_messages n2) of
             (Received msg, ch) \<Rightarrow>
               let L = (snd w)\<lparr>lv_node := n2\<lparr>nd_messages := ch\<rparr>\<rparr>
               in if im_StreamName msg = HandshakeStreamName then on_handshake hp api msg (fst w, L) else (fst w, L)
           | (_, ch) \<Rightarrow> (fst w, (snd w)\<lparr>lv_node := n2\<rparr>)))"

text \<open>
  The application's life during the handshake: peers open handshake streams, and messages arrive on the streams. The list holds the messages that
  the handler has been given.
\<close>

inductive listens :: "('ma, 'txt) nenv \<Rightarrow> hs_params \<Rightarrow> (('ma, 'txt, 'st, 'l, 'm, 'cb) live, 'e, 'ma) node_api \<Rightarrow>
    ('ma, 'txt, 'st, 'l, 'm, 'cb) live \<Rightarrow> IncomingMessage list \<Rightarrow> peerStates \<times> ('ma, 'txt, 'st, 'l, 'm, 'cb) live \<Rightarrow> bool" for env hp api L0 where
  listens_start: "listens env hp api L0 [] (Map.empty, L0)"
| listens_stream: "listens env hp api L0 ms (sts, L) \<Longrightarrow> nd_handlers (lv_node L) proto = Some HandshakeHandler \<Longrightarrow>
     listens env hp api L0 ms (sts, L\<lparr>lv_node := snd (incoming env now proto p raw (lv_node L))\<rparr>)"
| listens_frame: "listens env hp api L0 ms (sts, L) \<Longrightarrow> us = uncs (nd_streams (lv_node L)) r \<Longrightarrow> \<not> us_cancelled us \<Longrightarrow>
     us_name us = HandshakeStreamName \<Longrightarrow> us_peerID us = p \<Longrightarrow>
     listens env hp api L0 (ms @ [\<lparr>im_PeerID = p, im_StreamName = HandshakeStreamName, im_Data = f, im_Timestamp = now\<rparr>])
       (app_hears hp api now now' r f (sts, L))"

text \<open>A node with the given configuration that has no keys yet, whose controllers are idle, and whose application is not blocked.\<close>

definition listening :: "('ma, 'txt) nenv \<Rightarrow> bytes \<Rightarrow> ('ma, 'l, 'm, 'cb) Config \<Rightarrow> ('ma, 'txt, 'st, 'l, 'm, 'cb) live \<Rightarrow> bool" where
  "listening env sk cfg L \<longleftrightarrow> unkeyed_node env sk (lv_node L) \<and> flow_quiet (lv_node L) \<and> \<not> lv_stuck L \<and> nd_config (lv_node L) = cfg"

lemma unkeyed_same:
  "unkeyed_node env sk n \<Longrightarrow> same_encrypted (nd_streams n) (nd_streams n') \<Longrightarrow> nd_messages n' = nd_messages n \<Longrightarrow> nd_started n' = nd_started n \<Longrightarrow>
     unkeyed_node env sk n'"
  by (simp add: unkeyed_node_def same_encrypted_def crypto_def)

lemma started_listening:
  "started_node env sk n \<Longrightarrow> listening env sk (nd_config n) \<lparr>lv_node = n, lv_calls = 0, lv_stuck = False, lv_spawned = []\<rparr>"
  using started_node_fields(11) [of env sk n] by (simp add: listening_def started_unkeyed flow_quiet_def flow_ok_def)

lemma handshake_send_listening:
  assumes "listening env sk cfg L"
  shows "listening env sk cfg (send_ignored (live_api env inp self as ps prs) p HandshakeStreamName d L) \<and>
     nd_conns (lv_node (send_ignored (live_api env inp self as ps prs) p HandshakeStreamName d L)) = nd_conns (lv_node L)"
proof -
  let ?i = "(ci_send (inp (lv_calls L)))\<lparr>si_ctx := Background\<rparr>"
  have q: "flow_quiet (lv_node L)" using assms by (simp add: listening_def)
  from quiet_send [OF q, of env ?i p HandshakeStreamName d] obtain r n' where n': "Node_SendCtx env ?i p HandshakeStreamName d (lv_node L) = Some (r, n')"
      "flow_quiet n'" "same_but_streams (lv_node L) n'" "same_encrypted (nd_streams (lv_node L)) (nd_streams n')"
    using handshake_send_frame same_encrypted_refl by metis
  have "send_ignored (live_api env inp self as ps prs) p HandshakeStreamName d L =
      L\<lparr>lv_node := n', lv_calls := Suc (lv_calls L), lv_spawned := lv_spawned L\<rparr>"
    using assms n'(1) by (simp add: send_ignored_def live_api_def live_call_def Node_Send_def listening_def)
  then show ?thesis using assms n' unkeyed_same [of env sk "lv_node L" n'] by (simp add: listening_def same_but_streams_def)
qed

text \<open>No handler but that of a Complete touches more than the streams of the handshake.\<close>

definition completes :: "IncomingMessage \<Rightarrow> bool" where
  "completes m \<longleftrightarrow> (\<exists>b. im_Data m = msgComplete # b)"

lemma on_handshake_listening:
  assumes "listening env sk cfg L" and "\<not> completes msg"
  shows "listening env sk cfg (snd (on_handshake hp (live_api env inp self as ps prs) msg (sts, L)))"
  using assms
  by (auto simp: on_handshake_def Let_def completes_def msg_types handshake_send_listening [THEN conjunct1] split: list.splits)

lemma incoming_listening:
  assumes "listening env sk cfg L" and "nd_handlers (lv_node L) proto = Some HandshakeHandler"
  shows "listening env sk cfg (L\<lparr>lv_node := snd (incoming env now proto p raw (lv_node L))\<rparr>)"
proof -
  have "same_encrypted m (snd (HandleIncomingHandshakeStream p raw m))" for m
    using same_encrypted_trans [OF clear_ops_frame(5) [of m p] same_encrypted_trans [OF clear_ops_frame(2) clear_ops_frame(3)]]
    by (simp add: HandleIncomingHandshakeStream_def Let_def clear_ops_frame split: prod.splits option.splits) (metis snd_conv)
  then have "same_encrypted (nd_streams (lv_node L)) (nd_streams (snd (incoming env now proto p raw (lv_node L))))"
    using assms(2) by (simp add: incoming_def apply_mgr_def Let_def split: prod.splits) (metis snd_conv)
  moreover have "nd_messages (snd (incoming env now proto p raw (lv_node L))) = nd_messages (lv_node L)"
    "nd_started (snd (incoming env now proto p raw (lv_node L))) = nd_started (lv_node L)"
    "nd_flow (snd (incoming env now proto p raw (lv_node L))) = nd_flow (lv_node L)"
    "nd_config (snd (incoming env now proto p raw (lv_node L))) = nd_config (lv_node L)"
    using assms(2) by (simp_all add: incoming_def apply_mgr_def Let_def split: prod.splits)
  ultimately show ?thesis using assms(1) unkeyed_same by (auto simp: listening_def flow_quiet_def flow_ok_def)
qed

text \<open>The frame reaches the handler as a message of the stream's peer.\<close>

lemma app_hears_effect:
  assumes "listening env sk cfg L" and "us = uncs (nd_streams (lv_node L)) r" and "\<not> us_cancelled us" and "us_name us = HandshakeStreamName"
  shows "\<exists>L'. listening env sk cfg L' \<and> nd_conns (lv_node L') = nd_conns (lv_node L) \<and> uncs (nd_streams (lv_node L')) r = us \<and>
     sm_unenc (nd_streams (lv_node L')) = sm_unenc (nd_streams (lv_node L)) \<and>
     app_hears hp api now now' r f (sts, L) =
       on_handshake hp api \<lparr>im_PeerID = us_peerID us, im_StreamName = HandshakeStreamName, im_Data = f, im_Timestamp = now\<rparr> (sts, L')"
proof -
  let ?n = "lv_node L" and ?msg = "\<lparr>im_PeerID = us_peerID us, im_StreamName = HandshakeStreamName, im_Data = f, im_Timestamp = now\<rparr>"
  obtain b where b: "0 < b" "sm_incoming (nd_streams ?n) = make_chan b" "nd_messages ?n = make_chan b"
    using assms(1) by (auto simp: listening_def unkeyed_node_def)
  let ?n1 = "?n\<lparr>nd_streams := run_read_clear now [RMsg f] r (nd_streams ?n)\<rparr>"
  let ?n2 = "(record_received now' ?msg (?n1\<lparr>nd_streams := (nd_streams ?n1)\<lparr>sm_incoming := make_chan b\<rparr>\<rparr>))"
  have "sm_incoming (nd_streams ?n1) = (make_chan b)\<lparr>cbuf := [?msg]\<rparr>"
    using b assms(2-4) by (simp add: run_read_clear_def chan_try_send_def make_chan_def Let_def)
  then have fm: "forwardMessage False now' ?n1 = Some (True, ?n2\<lparr>nd_messages := (make_chan b)\<lparr>cbuf := [?msg]\<rparr>\<rparr>)"
    using b by (simp add: forwardMessage_def chan_recv_def record_received_def make_chan_def chan_try_send_def Let_def)
  let ?L = "L\<lparr>lv_node := ?n2\<lparr>nd_messages := make_chan b\<rparr>\<rparr>"
  have "app_hears hp api now now' r f (sts, L) = on_handshake hp api ?msg (sts, ?L)"
    using fm by (simp add: app_hears_def chan_recv_def make_chan_def Let_def)
  moreover have "same_encrypted (nd_streams ?n) (nd_streams (lv_node ?L))"
    using b by (simp add: same_encrypted_def run_read_clear_def record_received_def split: prod.splits)
  then have "listening env sk cfg ?L" using assms(1) b unkeyed_same [of env sk ?n "lv_node ?L"]
    by (simp add: listening_def flow_quiet_def flow_ok_def record_received_def)
  ultimately show ?thesis using b assms(2,3)
    by (intro exI [of _ ?L]) (simp add: record_received_def run_read_clear_def chan_try_send_def make_chan_def Let_def)
qed

lemma listens_listening:
  assumes "listens env hp (live_api env inp self as ps prs) L0 ms w" and "listening env sk cfg L0" and "\<not> list_ex completes ms"
  shows "listening env sk cfg (snd w)"
  using assms
proof (induction rule: listens.induct)
  case (listens_stream ms sts L proto now p raw)
  then show ?case using incoming_listening [of env sk cfg L] by simp
next
  case (listens_frame ms sts L us r p f now now')
  let ?msg = "\<lparr>im_PeerID = us_peerID us, im_StreamName = HandshakeStreamName, im_Data = f, im_Timestamp = now\<rparr>"
  have L: "listening env sk cfg L" using listens_frame by simp
  have c: "\<not> completes ?msg" using listens_frame.hyps(5) listens_frame.prems by simp
  obtain L' where "listening env sk cfg L'"
    "app_hears hp (live_api env inp self as ps prs) now now' r f (sts, L) = on_handshake hp (live_api env inp self as ps prs) ?msg (sts, L')"
    using app_hears_effect [OF L listens_frame.hyps(2-4)] by blast
  then show ?case using on_handshake_listening [OF _ c] by simp
qed simp

section \<open>What the handler remembers\<close>

fun last_key :: "peer_id \<Rightarrow> IncomingMessage list \<Rightarrow> bytes option" where
  "last_key p [] = None"
| "last_key p (m # ms) =
     (case last_key p ms of
        Some k \<Rightarrow> Some k
      | None \<Rightarrow> (case im_Data m of t # k \<Rightarrow> if im_PeerID m = p \<and> t = msgPubKey \<and> k \<noteq> [] then Some k else None | [] \<Rightarrow> None))"

lemma last_key_snoc:
  "last_key p (ms @ [m]) =
     (case im_Data m of t # k \<Rightarrow> if im_PeerID m = p \<and> t = msgPubKey \<and> k \<noteq> [] then Some k else last_key p ms | [] \<Rightarrow> last_key p ms)"
  by (induction ms) (auto split: list.splits option.splits)

definition remembers :: "IncomingMessage list \<Rightarrow> peerState \<Rightarrow> peer_id \<Rightarrow> bool" where
  "remembers ms st p \<longleftrightarrow> (gotHello st \<longleftrightarrow> hello_from p ms) \<and> (gotPubKey st \<longleftrightarrow> last_key p ms \<noteq> None) \<and>
     (\<forall>k. last_key p ms = Some k \<longrightarrow> peerPubKey st = k)"

lemma state_of_upd [simp]: "state_of (sts(p \<mapsto> st)) q = (if q = p then st else state_of sts q)"
  by (simp add: state_of_def)

lemma on_handshake_remembers:
  assumes "remembers ms (state_of sts p) p" and "\<not> completes m"
  shows "remembers (ms @ [m]) (state_of (fst (on_handshake hp api m (sts, n))) p) p"
proof (cases "im_Data m")
  case Nil
  then show ?thesis using assms by (auto simp: on_handshake_def Let_def remembers_def last_key_snoc hello_from_def)
next
  case (Cons t body)
  have "hello_from p (ms @ [m]) \<longleftrightarrow> hello_from p ms \<or> im_PeerID m = p \<and> t = msgHello" using Cons by (auto simp: hello_from_def)
  moreover have "t \<noteq> msgComplete" using assms(2) Cons by (simp add: completes_def)
  ultimately show ?thesis using assms(1) Cons
    by (auto simp: on_handshake_def Let_def remembers_def last_key_snoc msg_types)
qed

lemma listens_remembers:
  assumes "listens env hp (live_api env inp self as ps prs) L0 ms w" and "listening env sk cfg L0" and "\<not> list_ex completes ms"
  shows "remembers ms (state_of (fst w) p) p"
  using assms
proof (induction rule: listens.induct)
  case listens_start
  show ?case by (simp add: remembers_def state_of_def new_peerState_def hello_from_def)
next
  case (listens_frame ms sts L us r q f now now')
  let ?msg = "\<lparr>im_PeerID = us_peerID us, im_StreamName = HandshakeStreamName, im_Data = f, im_Timestamp = now\<rparr>"
  have "listening env sk cfg L" using listens_listening [OF listens_frame.hyps(1)] listens_frame.prems by simp
  from app_hears_effect [OF this listens_frame.hyps(2-4)] obtain L' where
    "app_hears hp (live_api env inp self as ps prs) now now' r f (sts, L) = on_handshake hp (live_api env inp self as ps prs) ?msg (sts, L')" by blast
  moreover have "\<not> completes ?msg" "remembers ms (state_of sts p) p" using listens_frame by simp_all
  ultimately show ?case using on_handshake_remembers [of ms sts p ?msg] listens_frame.hyps(5) by simp
qed simp

section \<open>Completing the handshake\<close>

lemma FinalizeHandshake_frame:
  "nd_handlers (snd (FinalizeHandshake env ce now p n)) = nd_handlers n" "nd_messages (snd (FinalizeHandshake env ce now p n)) = nd_messages n"
  "nd_flow (snd (FinalizeHandshake env ce now p n)) = nd_flow n" "nd_config (snd (FinalizeHandshake env ce now p n)) = nd_config n"
  by (simp_all add: FinalizeHandshake_def apply_mgr_def Let_def split: prod.splits option.splits)

lemma keyed_same:
  "keyed_node env sk p k names n \<Longrightarrow> same_encrypted (nd_streams n) (nd_streams n') \<Longrightarrow> nd_messages n' = nd_messages n \<Longrightarrow>
     nd_handlers n' = nd_handlers n \<Longrightarrow> keyed_node env sk p k names n'"
  by (simp add: keyed_node_def same_encrypted_def GetStream_def is_allowed_def)

lemma CompleteHandshake_keyed:
  assumes "unkeyed_node env sk n" and "hash_sizes (ne_prims env)" and "flow_quiet n" and "mgr_GetState (nd_conns n) p = StateConnected"
    and "ValidateStreamNames (ne_tables env) names (MaxStreamNameLength (nd_config n)) = None"
    and "Module_DeriveSharedKey (ne_prims env) (Some k) (crypto n) = (Inr ka, s1)"
  shows "\<exists>n'. CompleteHandshake env io ce now p (Some k) names n = (None, n') \<and> keyed_node env sk p k names n' \<and> flow_quiet n' \<and>
     Node_ConnectionState p n' = PubEstablished \<and> nd_started n' \<and> nd_config n' = nd_config n"
proof -
  have st: "nd_started n" using assms(1) by (simp add: unkeyed_node_def)
  note rd = unkeyed_ready [OF assms(1,2)]
  obtain n1 where n1: "PrepareStreams env io now p (Some k) names n = (None, n1)" using PrepareStreams_total [OF st rd assms(5,6)] by blast
  from PrepareStreams_ok [OF n1 rd] obtain kb hs sm bk where
    e: "n1 = n\<lparr>nd_handlers := hs, nd_streams := sm, nd_conns := (mgr_SetSharedKey now p kb (nd_conns n))\<lparr>abook := bk\<rparr>\<rparr>" by blast
  obtain r where r: "connections (nd_conns n1) p = Some r" "State (objs (nd_conns n1) r) = StateConnected"
    using mgr_SetSharedKey_effect [of now p kb "nd_conns n"] assms(4) by (auto simp: e)
  have "nd_started n1" using st by (simp add: e)
  from FinalizeHandshake_ok [OF this r, of env ce now] obtain n2 where n2: "FinalizeHandshake env ce now p n1 = (None, n2)"
      "Node_ConnectionState p n2 = PubEstablished" "nd_streams n2 = snd (CloseHandshakeStream ce p (nd_streams n1))" "nd_started n2" by blast
  have f: "nd_handlers n2 = nd_handlers n1" "nd_messages n2 = nd_messages n1" "nd_flow n2 = nd_flow n1"
    "nd_config n2 = nd_config n1" using FinalizeHandshake_frame [of env ce now p n1] n2(1) by simp_all
  have "keyed_node env sk p k names n2"
    using keyed_same [OF prepared_node [OF assms(1,2) n1], of n2] f n2(3) clear_ops_frame(6) [of "nd_streams n1" ce p] by simp
  moreover have "flow_quiet n2" using assms(3) f(3) by (simp add: e flow_quiet_def flow_ok_def)
  moreover have "nd_config n2 = nd_config n" using f(4) by (simp add: e)
  ultimately show ?thesis using n1 n2 by (simp add: CompleteHandshake_def)
qed

text \<open>
  An application whose handshake with a peer is over: the messages so far contain no Complete, a key of the peer and, where the application asks for
  it, a Hello; then the peer's Complete arrives while it is connected.
\<close>

definition completed :: "('ma, 'txt) nenv \<Rightarrow> hs_params \<Rightarrow> (('ma, 'txt, 'st, 'l, 'm, 'cb) live, 'e, 'ma) node_api \<Rightarrow>
    ('ma, 'txt, 'st, 'l, 'm, 'cb) live \<Rightarrow> peer_id \<Rightarrow> bytes \<Rightarrow> peerStates \<times> ('ma, 'txt, 'st, 'l, 'm, 'cb) live \<Rightarrow> bool" where
  "completed env hp api L0 p k w \<longleftrightarrow>
     (\<exists>ms sts L r b now now'. listens env hp api L0 ms (sts, L) \<and> \<not> list_ex completes ms \<and> last_key p ms = Some k \<and>
        (need_hello hp \<longrightarrow> hello_from p ms) \<and> mgr_GetState (nd_conns (lv_node L)) p = StateConnected \<and>
        \<not> us_cancelled (uncs (nd_streams (lv_node L)) r) \<and> us_name (uncs (nd_streams (lv_node L)) r) = HandshakeStreamName \<and>
        us_peerID (uncs (nd_streams (lv_node L)) r) = p \<and> w = app_hears hp api now now' r (msgComplete # b) (sts, L))"

text \<open>The peer's key is good for a shared key.\<close>

definition derivable :: "prims \<Rightarrow> bytes \<Rightarrow> bytes \<Rightarrow> bool" where
  "derivable pr sk k \<longleftrightarrow>
     (\<forall>md h. NewModule pr (Some 0) [sk] = (Inr md, h) \<longrightarrow> (\<exists>ka s1. Module_DeriveSharedKey pr (Some k) (md, h) = (Inr ka, s1)))"

lemma completed_effect:
  assumes "completed env hp (live_api env inp self as ps prs) L0 p k (sts', L')" and "listening env sk cfg L0" and "hash_sizes (ne_prims env)"
    and "ValidateStreamName (ne_tables env) (app_stream hp) (MaxStreamNameLength cfg) = None"
    and "derivable (ne_prims env) sk k"
  shows "keyed_node env sk p k [app_stream hp] (lv_node L') \<and> flow_quiet (lv_node L') \<and> \<not> lv_stuck L' \<and>
     Node_ConnectionState p (lv_node L') = PubEstablished \<and> sts' p = None \<and> nd_started (lv_node L') \<and> nd_config (lv_node L') = cfg"
proof -
  let ?api = "live_api env inp self as ps prs"
  obtain ms sts L r b now now' where c: "listens env hp ?api L0 ms (sts, L)" "\<not> list_ex completes ms" "last_key p ms = Some k"
      "need_hello hp \<longrightarrow> hello_from p ms" "mgr_GetState (nd_conns (lv_node L)) p = StateConnected"
      "\<not> us_cancelled (uncs (nd_streams (lv_node L)) r)" "us_name (uncs (nd_streams (lv_node L)) r) = HandshakeStreamName"
      "us_peerID (uncs (nd_streams (lv_node L)) r) = p" "(sts', L') = app_hears hp ?api now now' r (msgComplete # b) (sts, L)"
    using assms(1) by (auto simp: completed_def)
  have L: "listening env sk cfg L" using listens_listening [OF c(1) assms(2) c(2)] by simp
  let ?msg = "\<lparr>im_PeerID = p, im_StreamName = HandshakeStreamName, im_Data = msgComplete # b, im_Timestamp = now\<rparr>"
  obtain L1 where L1: "listening env sk cfg L1" "nd_conns (lv_node L1) = nd_conns (lv_node L)"
      "(sts', L') = on_handshake hp ?api ?msg (sts, L1)" using app_hears_effect [OF L refl c(6,7)] c(8,9) by metis
  let ?L2 = "send_ignored ?api p HandshakeStreamName [msgComplete] L1"
  have L2: "listening env sk cfg ?L2" "mgr_GetState (nd_conns (lv_node ?L2)) p = StateConnected"
    using handshake_send_listening [OF L1(1)] c(5) L1(2) by simp_all
  have st: "need_hello hp \<longrightarrow> gotHello (state_of sts p)" "gotPubKey (state_of sts p)" "peerPubKey (state_of sts p) = k"
    using listens_remembers [OF c(1) assms(2) c(2), of p] c(3,4) by (simp_all add: remembers_def)
  have res: "sts' = sts(p := None)" "L' = snd (ap_CompleteHandshake ?api p k [app_stream hp] ?L2)"
    using L1(3) st by (simp_all add: on_handshake_def Let_def msg_types)
  have u: "unkeyed_node env sk (lv_node ?L2)" "flow_quiet (lv_node ?L2)" "\<not> lv_stuck ?L2" using L2(1) by (simp_all add: listening_def)
  obtain ka s1 where d: "Module_DeriveSharedKey (ne_prims env) (Some k) (crypto (lv_node ?L2)) = (Inr ka, s1)"
    using u(1) assms(5) by (auto simp: unkeyed_node_def derivable_def)
  have v: "ValidateStreamNames (ne_tables env) [app_stream hp] (MaxStreamNameLength (nd_config (lv_node ?L2))) = None"
    using assms(4) L2(1) by (simp add: ValidateStreamNames_def listening_def)
  let ?i = "inp (lv_calls ?L2)"
  from CompleteHandshake_keyed [OF u(1) assms(3) u(2) L2(2) v d, of "ci_io ?i" "co_unc (ci_close ?i)" "ci_now ?i"] obtain n' where
    "CompleteHandshake env (ci_io ?i) (co_unc (ci_close ?i)) (ci_now ?i) p (Some k) [app_stream hp] (lv_node ?L2) = (None, n')"
    "keyed_node env sk p k [app_stream hp] n'" "flow_quiet n'" "Node_ConnectionState p n' = PubEstablished" "nd_started n'" "nd_config n' = nd_config (lv_node ?L2)"
    by blast
  moreover have "nd_config (lv_node ?L2) = cfg" using L2(1) by (simp add: listening_def)
  ultimately show ?thesis using res u(3) by (simp add: live_api_def live_call_def quick_def)
qed

section \<open>Three messages are enough\<close>

text \<open>A peer opens a handshake stream to a node that has none, and is connected.\<close>

lemma RegisterIncomingConnection_connects:
  "connections m p = None \<Longrightarrow> mgr_GetState (RegisterIncomingConnection env now p m) p = StateConnected"
  by (simp add: RegisterIncomingConnection_def register_incoming_lock_def getOrCreate_def setupHandshakeTimeout_def conn_TransitionTo_def
      TransitionTo_def ValidateTransition_def CanTransitionTo_def validTransitions_def set_obj_def NewPeerConnection_def SetIsOutbound_def
      emitEvent_def mgr_GetState_def Let_def)

text \<open>The open handshake stream of a connected peer.\<close>

definition talks :: "peer_id \<Rightarrow> nat \<Rightarrow> ('ma, 'txt, 'st, 'l, 'm, 'cb) node \<Rightarrow> bool" where
  "talks p r n \<longleftrightarrow> mgr_GetState (nd_conns n) p = StateConnected \<and> get_unenc (nd_streams n) p HandshakeStreamName = Some r \<and>
     (let us = uncs (nd_streams n) r in \<not> us_closed us \<and> \<not> us_cancelled us \<and> us_name us = HandshakeStreamName \<and> us_peerID us = p)"

lemma first_stream:
  assumes "nd_handlers n proto = Some HandshakeHandler" and "connections (nd_conns n) p = None" and "sm_unenc (nd_streams n) = Map.empty"
    and "\<not> sm_cancelled (nd_streams n)"
  shows "talks p (nuncs (nd_streams n)) (snd (incoming env now proto p raw n))"
  using assms RegisterIncomingConnection_connects [OF assms(2)]
  by (simp add: talks_def incoming_def apply_mgr_def HandleIncomingHandshakeStream_def OpenHandshakeStream_def get_unenc_def alloc_unc_def put_unenc_def
      SetOnMessageDropped_def NewUnencryptedStream_def Let_def)

lemma open_stream_send:
  assumes "get_unenc m p HandshakeStreamName = Some r" and "\<not> us_closed (uncs m r)"
  shows "\<exists>raw. snd (sm_SendCtx pr nonce w ns c p HandshakeStreamName d m) = m\<lparr>uncs := (uncs m)(r := (uncs m r)\<lparr>us_stream := raw\<rparr>)\<rparr>"
proof -
  have us: "\<exists>raw. snd (us_SendCtx w c' d us) = us\<lparr>us_stream := raw\<rparr>" for c' us
  proof -
    have "us = us\<lparr>us_stream := us_stream us\<rparr>" by simp
    then have "\<exists>raw. us = us\<lparr>us_stream := raw\<rparr>" by blast
    then show ?thesis by (simp add: us_SendCtx_def split: prod.splits) blast
  qed
  have send: "\<exists>raw. snd (send_unc w c' d r m) = m\<lparr>uncs := (uncs m)(r := (uncs m r)\<lparr>us_stream := raw\<rparr>)\<rparr>" for c'
    using us [of c' "uncs m r"] by (simp add: send_unc_def split: prod.splits) (metis snd_conv)
  have "m = m\<lparr>uncs := (uncs m)(r := (uncs m r)\<lparr>us_stream := us_stream (uncs m r)\<rparr>)\<rparr>" by simp
  then have "\<exists>raw. m = m\<lparr>uncs := (uncs m)(r := (uncs m r)\<lparr>us_stream := raw\<rparr>)\<rparr>" by blast
  then show ?thesis using assms send by (simp add: sm_SendCtx_def sendUnencryptedCtx_def)
qed

lemma talks_send:
  assumes "listening env sk cfg L" and "talks p r (lv_node L)"
  shows "talks p r (lv_node (send_ignored (live_api env inp self as ps prs) p HandshakeStreamName d L))"
proof -
  let ?i = "(ci_send (inp (lv_calls L)))\<lparr>si_ctx := Background\<rparr>"
  have q: "flow_quiet (lv_node L)" and st: "\<not> lv_stuck L" using assms(1) by (simp_all add: listening_def)
  have o: "get_unenc (nd_streams (lv_node L)) p HandshakeStreamName = Some r" "\<not> us_closed (uncs (nd_streams (lv_node L)) r)"
    using assms(2) by (simp_all add: talks_def Let_def)
  from quiet_send [OF q, of env ?i p HandshakeStreamName d] obtain res n' where n': "Node_SendCtx env ?i p HandshakeStreamName d (lv_node L) = Some (res, n')"
      "same_but_streams (lv_node L) n'"
      "\<exists>raw. nd_streams n' = (nd_streams (lv_node L))\<lparr>uncs := (uncs (nd_streams (lv_node L)))(r := (uncs (nd_streams (lv_node L)) r)\<lparr>us_stream := raw\<rparr>)\<rparr> \<or>
        nd_streams n' = nd_streams (lv_node L)"
    using open_stream_send [OF o] by metis
  have "lv_node (send_ignored (live_api env inp self as ps prs) p HandshakeStreamName d L) = n'"
    using n'(1) st by (simp add: send_ignored_def live_api_def live_call_def Node_Send_def)
  then show ?thesis using assms(2) n'(2,3) by (auto simp: talks_def same_but_streams_def get_unenc_def Let_def)
qed

text \<open>One message of the peer on its stream, when it is not a Complete.\<close>

lemma one_message:
  assumes "listens env hp (live_api env inp self as ps prs) L0 ms (sts, L)" and "listening env sk cfg L" and "talks p r (lv_node L)"
    and "f = msgHello # b \<or> f = msgPubKey # b"
    and "m = \<lparr>im_PeerID = p, im_StreamName = HandshakeStreamName, im_Data = f, im_Timestamp = now\<rparr>"
  shows "\<exists>sts' L'. listens env hp (live_api env inp self as ps prs) L0 (ms @ [m]) (sts', L') \<and> listening env sk cfg L' \<and> talks p r (lv_node L')"
proof -
  let ?api = "live_api env inp self as ps prs" and ?us = "uncs (nd_streams (lv_node L)) r"
  have us: "\<not> us_cancelled ?us" "us_name ?us = HandshakeStreamName" "us_peerID ?us = p" using assms(3) by (simp_all add: talks_def Let_def)
  obtain sts' L' where h: "app_hears hp ?api now now r f (sts, L) = (sts', L')" by fastforce
  obtain L1 where L1: "listening env sk cfg L1" "nd_conns (lv_node L1) = nd_conns (lv_node L)" "uncs (nd_streams (lv_node L1)) r = ?us"
      "sm_unenc (nd_streams (lv_node L1)) = sm_unenc (nd_streams (lv_node L))" "(sts', L') = on_handshake hp ?api m (sts, L1)"
    using app_hears_effect [OF assms(2) refl us(1,2), of hp ?api now now f sts] h us(3) assms(5) by metis
  have t: "talks p r (lv_node L1)" using assms(3) L1(2-4) by (simp add: talks_def get_unenc_def)
  have c: "\<not> completes m" using assms(4,5) by (auto simp: completes_def msg_types)
  have "talks p r (lv_node (snd (on_handshake hp ?api m (sts, L1))))"
    using t assms(4,5) talks_send [OF L1(1) t] talks_send [OF handshake_send_listening [OF L1(1), THEN conjunct1] talks_send [OF L1(1) t]]
    by (auto simp: on_handshake_def Let_def msg_types)
  moreover have "listening env sk cfg (snd (on_handshake hp ?api m (sts, L1)))" by (rule on_handshake_listening [OF L1(1) c])
  moreover have "listens env hp ?api L0 (ms @ [m]) (sts', L')"
    using listens_frame [OF assms(1) refl us, of f now now] h assms(5) by simp
  ultimately show ?thesis using L1(5) by (metis snd_conv)
qed

text \<open>Whatever the node's sends meet, a peer that opens a stream and sends Hello, its key and Complete brings the handshake to its end.\<close>

lemma three_messages_complete:
  assumes "listening env sk cfg L0" and "nd_handlers (lv_node L0) proto = Some HandshakeHandler" and "connections (nd_conns (lv_node L0)) p = None"
    and "sm_unenc (nd_streams (lv_node L0)) = Map.empty" and "k \<noteq> []"
  shows "\<exists>w. completed env hp (live_api env inp self as ps prs) L0 p k w"
proof -
  let ?api = "live_api env inp self as ps prs" and ?r = "nuncs (nd_streams (lv_node L0))"
  let ?L1 = "L0\<lparr>lv_node := snd (incoming env 0 proto p \<lparr>frames = [], raw_closed = False\<rparr> (lv_node L0))\<rparr>"
  let ?hello = "\<lparr>im_PeerID = p, im_StreamName = HandshakeStreamName, im_Data = [msgHello], im_Timestamp = 1\<rparr>"
    and ?key = "\<lparr>im_PeerID = p, im_StreamName = HandshakeStreamName, im_Data = msgPubKey # k, im_Timestamp = 2\<rparr>"
  have l1: "listens env hp ?api L0 [] (Map.empty, ?L1)" by (rule listens_stream [OF listens_start assms(2)])
  have "\<not> sm_cancelled (nd_streams (lv_node L0))" using assms(1) by (simp add: listening_def unkeyed_node_def)
  then have "talks p ?r (lv_node ?L1)" using first_stream [OF assms(2-4)] by simp
  from one_message [OF l1 incoming_listening [OF assms(1,2)] this disjI1 [OF refl] refl, of "[]" 1] obtain sts2 L2 where
    l2: "listens env hp ?api L0 [?hello] (sts2, L2)" "listening env sk cfg L2" "talks p ?r (lv_node L2)" by auto
  from one_message [OF this disjI2 [OF refl] refl, of k 2] obtain sts3 L3 where
    l3: "listens env hp ?api L0 [?hello, ?key] (sts3, L3)" "talks p ?r (lv_node L3)" by auto
  have "last_key p [?hello, ?key] = Some k" "\<not> list_ex completes [?hello, ?key]" "hello_from p [?hello, ?key]"
    using assms(5) by (simp_all add: completes_def msg_types hello_from_def)
  then have "completed env hp ?api L0 p k (app_hears hp ?api 3 3 ?r (msgComplete # []) (sts3, L3))"
    unfolding completed_def using l3
    by (intro exI [of _ "[?hello, ?key]"] exI [of _ sts3] exI [of _ L3] exI [of _ ?r] exI [of _ "[]"] exI [of _ 3]) (simp add: talks_def Let_def)
  then show ?thesis ..
qed

section \<open>Properties\<close>


text \<open>
  Two applications with each other. Both have completed the handshake, each with the public key of the other's key pair. When the first then sends a
  message on the application's stream and the call reports success, the sender's node has put one frame on a new stream; if that stream and the frame arrive
  at the second node, its channel of messages holds exactly the sent bytes under the sender's name.
\<close>

theorem applications_exchange_messages:
  assumes "aead_correct pr" and "dh_commutes pr" and "hash_sizes pr" and "ed_keypair pr skA" and "ed_keypair pr skB"
    and "ne_prims envA = pr" and "ne_prims envB = pr" and "listening envA skA cfgA A0" and "listening envB skB cfgB B0"
    and "completed envA hpA (live_api envA inpA selfA asA psA prsA) A0 pB (drop 32 skB) (stsA, A)"
    and "completed envB hpB (live_api envB inpB selfB asB psB prsB) B0 pA (drop 32 skA) (stsB, B)"
    and "app_stream hpA = name" and "app_stream hpB = name" and "name \<noteq> HandshakeStreamName"
    and "ValidateStreamName (ne_tables envA) name (MaxStreamNameLength cfgA) = None"
    and "ValidateStreamName (ne_tables envB) name (MaxStreamNameLength cfgB) = None"
    and "derivable pr skA (drop 32 skB)" and "derivable pr skB (drop 32 skA)"
    and "si_nonce (ci_send (inpA (lv_calls A))) = Some nc" and "length nc = NonceSize"
    and "ap_Send (live_api envA inpA selfA asA psA prsA) pB name d A = (None, A')"
  shows "\<exists>raw r f. si_new (ci_send (inpA (lv_calls A))) = Inr raw \<and> GetStream (nd_streams (lv_node A')) pB name = Some r \<and>
     frames (es_stream (encs (nd_streams (lv_node A')) r)) = frames raw @ [f] \<and>
     (\<exists>b2 r' b3. incoming envB now (StreamProtocolID name) pA raw' (lv_node B) = (True, b2) \<and> GetStream (nd_streams b2) pA name = Some r' \<and>
        forwardMessage False now' (b2\<lparr>nd_streams := run_read pr now [(False, RMsg f)] r' (nd_streams b2)\<rparr>) = Some (True, b3) \<and>
        cbuf (nd_messages b3) = [\<lparr>im_PeerID = pA, im_StreamName = name, im_Data = d, im_Timestamp = now\<rparr>])"
proof -
  let ?i = "(ci_send (inpA (lv_calls A)))\<lparr>si_ctx := Background\<rparr>"
  have A: "keyed_node envA skA pB (drop 32 skB) [name] (lv_node A)" "flow_quiet (lv_node A)" "\<not> lv_stuck A"
    using completed_effect [OF assms(10,8)] assms(3,6,12,15,17) by simp_all
  have B: "keyed_node envB skB pA (drop 32 skA) [name] (lv_node B)"
    using completed_effect [OF assms(11,9)] assms(3,7,13,16,18) by simp
  obtain r n' where s: "Node_SendCtx envA ?i pB name d (lv_node A) = Some (r, n')" using quiet_send [OF A(2)] by blast
  then have "r = None" "lv_node A' = n'" using assms(21) A(3) by (auto simp: live_api_def live_call_def Node_Send_def)
  with s have "Node_SendCtx envA ?i pB name d (lv_node A) = Some (None, lv_node A')" by simp
  from message_delivered [OF assms(1-7) A(1) B _ assms(14) _ assms(20) this] assms(19) show ?thesis by simp
qed

section \<open>Concrete inputs\<close>

definition toy_input :: "nat \<Rightarrow> call_in" where
  "toy_input k = \<lparr>ci_send = toy_send, ci_io = no_faults, ci_now = 0, ci_later = 0, ci_host = None, ci_close = toy_order\<rparr>"

type_synonym toy_live = "(string, book_doc, unit, unit, unit, unit) live"

definition toy_app :: "(toy_live, node_err, string) node_api" where
  "toy_app = live_api toy_nenv toy_input ''me'' [] (\<lambda>_. []) (\<lambda>_. [])"

lemma toy_rpc_valid: "ValidateStreamName (ne_tables toy_nenv) ''rpc'' 64 = None"
  by (simp add: ValidateStreamName_def runes_of_def string_bytes_def DecodeRune.simps isValidStreamNameChar_def rune_class_defs)

lemma toy_completed:
  assumes "a + b \<noteq> (0 :: byte)"
  shows "\<exists>(L0 :: toy_live) cfg w. listening toy_nenv (toy_seckey a) cfg L0 \<and> MaxStreamNameLength cfg = 64 \<and> Config.MaxMessageSize cfg = 2 ^ 20 \<and>
     completed toy_nenv hp toy_app L0 p (drop 32 (toy_seckey b)) w"
proof -
  obtain n :: toy_node where n: "started_node toy_nenv (toy_seckey a) n" "MaxStreamNameLength (nd_config n) = 64"
      "Config.MaxMessageSize (nd_config n) = 2 ^ 20" "connections (nd_conns n) = Map.empty" "sm_unenc (nd_streams n) = Map.empty"
      "nd_handlers n (StreamProtocolID HandshakeStreamName) = Some HandshakeHandler" using toy_started by blast
  let ?L0 = "\<lparr>lv_node = n, lv_calls = 0, lv_stuck = False, lv_spawned = []\<rparr> :: toy_live"
  have "drop 32 (toy_seckey b) \<noteq> []" by (simp add: toy_seckey_def clamp_replicate)
  with three_messages_complete [OF started_listening [OF n(1)], of "StreamProtocolID HandshakeStreamName" p "drop 32 (toy_seckey b)" hp] n
  show ?thesis unfolding toy_app_def using started_listening [OF n(1)] by fastforce
qed

lemma toy_derivable:
  assumes "a + b \<noteq> (0 :: byte)"
  shows "derivable toy_prims (toy_seckey a) (drop 32 (toy_seckey b))"
proof -
  obtain n :: toy_node where n: "started_node toy_nenv (toy_seckey a) n" using toy_started by blast
  show ?thesis using started_node_fields(1) [OF n] toy_derives(2) [OF assms n] by (auto simp: derivable_def)
qed

lemma toy_key_size:
  assumes "a + b \<noteq> (0 :: byte)" and "keyed_node toy_nenv (toy_seckey a) p (drop 32 (toy_seckey b)) names (n :: toy_node)"
  shows "\<exists>ka. sm_keys (nd_streams n) p = Some ka \<and> length (sm_mem (nd_streams n) ! ka) = KeySize"
proof -
  obtain n0 :: toy_node where n0: "started_node toy_nenv (toy_seckey a) n0" using toy_started by blast
  show ?thesis using started_node_fields(1) [OF n0] toy_derives(2) [OF assms(1) n0] assms(2) by (auto simp: keyed_node_def KeySize_def)
qed

text \<open>After the handshake the toy application's first message is sent.\<close>

lemma toy_app_sends:
  assumes "a + b \<noteq> (0 :: byte)" and "listening toy_nenv (toy_seckey a) cfg (L0 :: toy_live)" and "MaxStreamNameLength cfg = 64"
    and "Config.MaxMessageSize cfg = 2 ^ 20" and "completed toy_nenv hp toy_app L0 p (drop 32 (toy_seckey b)) (sts, L)"
    and "app_stream hp = name" and "ValidateStreamName (ne_tables toy_nenv) name 64 = None" and "name \<noteq> HandshakeStreamName" and "int (length d) \<le> 2 ^ 20"
  shows "\<exists>L'. ap_Send toy_app p name d L = (None, L')"
proof -
  let ?i = "toy_send\<lparr>si_ctx := Background\<rparr>"
  have v: "ValidateStreamName (ne_tables toy_nenv) (app_stream hp) (MaxStreamNameLength cfg) = None" using assms(3,6,7) by simp
  have sz: "hash_sizes (ne_prims toy_nenv)" "derivable (ne_prims toy_nenv) (toy_seckey a) (drop 32 (toy_seckey b))"
    using toy_sizes toy_derivable [OF assms(1)] by simp_all
  have e: "keyed_node toy_nenv (toy_seckey a) p (drop 32 (toy_seckey b)) [name] (lv_node L)" "flow_quiet (lv_node L)" "\<not> lv_stuck L"
      "nd_started (lv_node L)" "nd_config (lv_node L) = cfg"
    using completed_effect [OF assms(5) [unfolded toy_app_def] assms(2) sz(1) v sz(2)] assms(6) by simp_all
  obtain ka where ka: "sm_keys (nd_streams (lv_node L)) p = Some ka" "length (sm_mem (nd_streams (lv_node L)) ! ka) = KeySize"
    using toy_key_size [OF assms(1) e(1)] by blast
  have "\<exists>m'. sm_SendCtx toy_prims (Some (replicate 12 1)) WriteOk (Inr \<lparr>frames = [], raw_closed = False\<rparr>) Background p name d
      (nd_streams (lv_node L)) = (None, m')"
    using ka e(1) assms(8) by (intro sm_SendCtx_succeeds [OF toy_aead(1)]) (simp_all add: NonceSize_def keyed_node_def)
  then have "fst (sm_SendCtx (ne_prims toy_nenv) (si_nonce ?i) (si_write ?i) (si_new ?i) (si_ctx ?i) p name d (nd_streams (lv_node L))) = None"
    by (auto simp: toy_send_def)
  moreover have "\<not> refused toy_nenv name d (lv_node L)" using e(4,5) assms(3,4,7,9) by (simp add: refused_def)
  ultimately have "\<exists>n'. Node_SendCtx toy_nenv ?i p name d (lv_node L) = Some (None, n')"
    using quiet_send [OF e(2), of toy_nenv ?i p name d] by auto
  then show ?thesis using e(3) by (auto simp: toy_app_def live_api_def live_call_def Node_Send_def toy_input_def)
qed


theorem applications_exchange_messages_witness:
  "\<exists>(A0 :: toy_live) (B0 :: toy_live) stsA A stsB B A' b3.
     completed toy_nenv (rpc_params []) toy_app A0 ''B'' (drop 32 (toy_seckey 5)) (stsA, A) \<and>
     completed toy_nenv (rpc_params []) toy_app B0 ''A'' (drop 32 (toy_seckey 3)) (stsB, B) \<and>
     ap_Send toy_app ''B'' ''rpc'' [4, 2] A = (None, A') \<and>
     (\<exists>b2 r f. incoming toy_nenv 9 (StreamProtocolID ''rpc'') ''A'' \<lparr>frames = [], raw_closed = False\<rparr> (lv_node B) = (True, b2) \<and>
        forwardMessage False 0 (b2\<lparr>nd_streams := run_read toy_prims 9 [(False, RMsg f)] r (nd_streams b2)\<rparr>) = Some (True, b3)) \<and>
     cbuf (nd_messages b3) = [\<lparr>im_PeerID = ''A'', im_StreamName = ''rpc'', im_Data = [4, 2], im_Timestamp = 9\<rparr>]"
proof -
  have s: "3 + 5 \<noteq> (0 :: byte)" "5 + 3 \<noteq> (0 :: byte)" by simp_all
  obtain A0 :: toy_live and cfgA stsA A where A: "listening toy_nenv (toy_seckey 3) cfgA A0" "MaxStreamNameLength cfgA = 64"
      "Config.MaxMessageSize cfgA = 2 ^ 20" "completed toy_nenv (rpc_params []) toy_app A0 ''B'' (drop 32 (toy_seckey 5)) (stsA, A)"
    using toy_completed [OF s(1)] by (metis surj_pair)
  obtain B0 :: toy_live and cfgB stsB B where B: "listening toy_nenv (toy_seckey 5) cfgB B0" "MaxStreamNameLength cfgB = 64"
      "completed toy_nenv (rpc_params []) toy_app B0 ''A'' (drop 32 (toy_seckey 3)) (stsB, B)" using toy_completed [OF s(2)] by (metis surj_pair)
  have n: "app_stream (rpc_params []) = ''rpc''" "''rpc'' \<noteq> HandshakeStreamName" by (simp_all add: rpc_params_def HandshakeStreamName_def)
  obtain A' where A': "ap_Send toy_app ''B'' ''rpc'' [4, 2] A = (None, A')" using toy_app_sends [OF s(1) A n(1) toy_rpc_valid n(2), of "[4, 2]"] by auto
  have v: "ValidateStreamName (ne_tables toy_nenv) ''rpc'' (MaxStreamNameLength cfgA) = None"
    "ValidateStreamName (ne_tables toy_nenv) ''rpc'' (MaxStreamNameLength cfgB) = None" using toy_rpc_valid A(2) B(2) by simp_all
  have i: "si_nonce (ci_send (toy_input (lv_calls A))) = Some (replicate 12 1)" "length (replicate 12 1 :: bytes) = NonceSize"
    by (simp_all add: toy_input_def toy_send_def NonceSize_def)
  from applications_exchange_messages [OF toy_aead(1) toy_dh toy_sizes toy_keypair toy_keypair toy_nenv_prims toy_nenv_prims A(1) B(1)
      A(4) [unfolded toy_app_def] B(3) [unfolded toy_app_def] n(1) n v toy_derivable [OF s(1)] toy_derivable [OF s(2)] i A' [unfolded toy_app_def],
      of 9 "\<lparr>frames = [], raw_closed = False\<rparr>" 0]
  show ?thesis using A(4) B(3) A' by blast
qed

end
