(* ===== verification/Prompt.thy ===== *)
theory Prompt
  imports GoText AppNode
begin

text \<open>
  The programs around the applications: how the \<^verbatim>\<open>main\<close> functions of the examples make and start their node, the interface \<open>prompt\<close> of their
  command loops, and the programs \<^verbatim>\<open>basic\<close> and \<^verbatim>\<open>simple-chat\<close>. What is printed is text, or text followed by an error (\<open>OFail\<close>).
\<close>

section \<open>Starting a node\<close>

definition show_int :: "int \<Rightarrow> string" where
  "show_int i = (if i < 0 then ''-'' @ show_decimal (nat (- i)) else show_decimal (nat i))"

datatype boot_err = BootKey | BootNew node_err | BootStart node_err

text \<open>What \<^verbatim>\<open>New\<close> and \<^verbatim>\<open>Start\<close> meet: faults of the file system, an error of the host, and the order in which the peers of the address book are visited.\<close>

record boot_in =
  bi_io :: io_faults
  bi_host :: "string option"
  bi_peers :: "string list"

text \<open>
  Key, configuration, \<^verbatim>\<open>New\<close>, \<^verbatim>\<open>Start\<close>. \<open>maddr\<close> is \<^verbatim>\<open>NewMultiaddr\<close>, whose error is discarded. The error of \<^verbatim>\<open>GenerateKey\<close> is discarded too: without a key
  \<^verbatim>\<open>Public\<close> slices a nil key and panics (\<open>None\<close>). The result has the public key, the goroutines of \<^verbatim>\<open>Start\<close> and the node.
\<close>

definition boot :: "(string \<Rightarrow> 'ma) \<Rightarrow> ('ma, 'txt) nenv \<Rightarrow> boot_in \<Rightarrow> 'txt filesys \<Rightarrow> 'l \<Rightarrow> 'm \<Rightarrow> string \<Rightarrow> string \<Rightarrow> bytes option \<Rightarrow>
    (boot_err, bytes \<times> goroutine list \<times> ('ma, 'txt, 'st, 'l, 'm, 'cb) node) result option" where
  "boot maddr env i fs l m path listen key =
     (case key of
        None \<Rightarrow> None
      | Some sk \<Rightarrow>
          Some (case Node_New env (bi_io i) (bi_host i) fs (NewConfig l m (Some sk) path [maddr listen] []) l m of
                  Inl e \<Rightarrow> Inl (BootNew e)
                | Inr n \<Rightarrow>
                    (case Node_Start (bi_peers i) n of
                       (Some e, gs, n') \<Rightarrow> Inl (BootStart e)
                     | (None, gs, n') \<Rightarrow> Inr (drop 32 sk, gs, n'))))"

definition listen_on :: "int \<Rightarrow> string" where
  "listen_on port = ''/ip4/0.0.0.0/tcp/'' @ show_int port"

definition basic_boot :: "(string \<Rightarrow> 'ma) \<Rightarrow> ('ma, 'txt) nenv \<Rightarrow> boot_in \<Rightarrow> 'txt filesys \<Rightarrow> 'l \<Rightarrow> 'm \<Rightarrow> bytes option \<Rightarrow>
    (boot_err, bytes \<times> goroutine list \<times> ('ma, 'txt, 'st, 'l, 'm, 'cb) node) result option" where
  "basic_boot maddr env i fs l m key = boot maddr env i fs l m ''./addressbook.json'' ''/ip4/127.0.0.1/tcp/9000'' key"

text \<open>\<^verbatim>\<open>simple-chat\<close> takes its key from a file and reports when there is none; the path of its address book is a flag.\<close>

definition chat_boot :: "(string \<Rightarrow> 'ma) \<Rightarrow> ('ma, 'txt) nenv \<Rightarrow> boot_in \<Rightarrow> 'txt filesys \<Rightarrow> 'l \<Rightarrow> 'm \<Rightarrow> string \<Rightarrow> int \<Rightarrow>
    bytes option \<Rightarrow> bytes option \<Rightarrow> bool \<Rightarrow>
    (boot_err, bytes \<times> goroutine list \<times> ('ma, 'txt, 'st, 'l, 'm, 'cb) node) result option" where
  "chat_boot maddr env i fs l m abFile port file gen saves =
     (case fst (loadOrGenerateKey file gen saves) of
        None \<Rightarrow> Some (Inl BootKey)
      | Some sk \<Rightarrow> boot maddr env i fs l m abFile (listen_on port) (Some sk))"

text \<open>The addresses under which the node can be reached, as the programs print them.\<close>

definition connect_info :: "string \<Rightarrow> ('ma \<Rightarrow> string) \<Rightarrow> string \<Rightarrow> 'ma list \<Rightarrow> string list" where
  "connect_info flag show_addr self addrs = map (\<lambda>a. flag @ show_addr a @ ''/p2p/'' @ self) addrs"

text \<open>A program that comes up has a node as \<^verbatim>\<open>New\<close> and \<^verbatim>\<open>Start\<close> make it.\<close>

lemma boot_started:
  assumes "boot maddr env i fs l m path listen key = Some (Inr (pub, gs, n))"
  shows "\<exists>sk. key = Some sk \<and> pub = drop 32 sk \<and> started_node env sk n"
proof -
  obtain sk where sk: "key = Some sk" using assms by (auto simp: boot_def split: option.splits)
  let ?cfg = "NewConfig l m (Some sk) path [maddr listen] []"
  obtain n0 where n0: "Node_New env (bi_io i) (bi_host i) fs ?cfg l m = Inr n0" "Node_Start (bi_peers i) n0 = (None, gs, n)" and pub: "pub = drop 32 sk"
    using assms sk by (auto simp: boot_def split: sum.splits prod.splits option.splits)
  moreover have "bi_host i = None" using n0(1) by (auto simp: Node_New_def Let_def split: option.splits sum.splits prod.splits)
  moreover have "PrivateKey ?cfg = Some sk" by (simp add: NewConfig_def zero_config_def)
  ultimately have "started_node env sk n" unfolding started_node_def
    by (intro exI [of _ "bi_io i"] exI [of _ fs] exI [of _ ?cfg] exI [of _ l] exI [of _ m] exI [of _ "bi_peers i"] exI [of _ gs] exI [of _ n0] conjI) simp_all
  then show ?thesis using sk pub by simp
qed

section \<open>Command loops\<close>

datatype out = OText string | OFail string

text \<open>
  A round of a loop over the lines of the standard input: it goes on, the program returns, or it panics. When the input ends the loop is left.
\<close>

datatype 's prompt_round = Continue 's | Return 's | Panic

fun prompt_loop :: "('i \<Rightarrow> 's \<Rightarrow> 's prompt_round) \<Rightarrow> 'i list \<Rightarrow> 's \<Rightarrow> 's prompt_round" where
  "prompt_loop body [] s = Continue s"
| "prompt_loop body (i # is) s =
     (case body i s of
        Continue s' \<Rightarrow> prompt_loop body is s'
      | Return s' \<Rightarrow> Return s'
      | Panic \<Rightarrow> Panic)"

text \<open>
  What the loops promise: the program returns at a line that says so, and only there.
\<close>

locale prompt =
  fixes body :: "'i \<Rightarrow> 's \<Rightarrow> 's prompt_round" and quits :: "'i \<Rightarrow> bool" and bye :: "'s \<Rightarrow> 's"
  assumes returns: "quits i \<Longrightarrow> body i s = Return (bye s)"
    and stays: "\<not> quits i \<Longrightarrow> body i s \<noteq> Return s'"
begin

lemma loop_never_quits: "\<not> list_ex quits is \<Longrightarrow> prompt_loop body is s \<noteq> Return s'"
  by (induction "is" arbitrary: s) (auto simp: stays split: prompt_round.splits)

text \<open>The lines before the first that quits are run, and no line after it.\<close>

lemma loop_until_quit:
  assumes "\<not> list_ex quits is" and "quits i"
  shows "prompt_loop body (is @ i # js) s =
     (case prompt_loop body is s of Continue s' \<Rightarrow> Return (bye s') | r \<Rightarrow> r)"
  using assms(1) by (induction "is" arbitrary: s) (auto simp: returns [OF assms(2)] stays split: prompt_round.splits)

end

section \<open>The chat program\<close>

text \<open>The state of the loop: the node, what was printed, and the addresses for which a goroutine that connects was started.\<close>

record 'n console =
  con_node :: 'n
  con_out :: "out list"
  con_dials :: "string list"

definition say :: "out \<Rightarrow> 'n console \<Rightarrow> 'n console" where
  "say o' c = c\<lparr>con_out := con_out c @ [o']\<rparr>"

datatype chat_cmd = ChatBlank | ChatQuit | ChatConnect string | ChatSend string string | ChatList | ChatUsage string | ChatUnknown string

definition chat_parse :: "string \<Rightarrow> chat_cmd" where
  "chat_parse text =
     (let line = TrimSpace text; parts = Fields line; com = hd parts in
      if line = [] \<or> parts = [] then ChatBlank
      else if com = ''quit'' \<or> com = ''exit'' then ChatQuit
      else if com = ''connect'' then
        (if length parts < 2 then ChatUsage ''Usage: connect <multiaddr>'' else ChatConnect (parts ! 1))
      else if com = ''send'' then
        (if length parts < 3 then ChatUsage ''Usage: send <peer-id> <message>'' else ChatSend (parts ! 1) (Join (drop 2 parts) '' ''))
      else if com = ''list'' then ChatList
      else ChatUnknown com)"

text \<open>\<^verbatim>\<open>listPeers\<close>: \<open>listing\<close> has, per peer of the address book, its text, its state and its metadata in the order visited.\<close>

definition listPeers :: "(string \<times> PublicState \<times> (string \<times> string) list) list \<Rightarrow> out list" where
  "listPeers listing =
     (if listing = [] then [OText ''No peers in address book'']
      else OText (''Peers ('' @ show_decimal (length listing) @ ''):'') #
        concat (map (\<lambda>(p, st, md). OText (''  '' @ p @ '' - '' @ PublicState_String st) # map (\<lambda>(k, v). OText (''    '' @ k @ '': '' @ v)) md) listing))"

definition node_listing :: "(peer_id \<Rightarrow> string) \<Rightarrow> ((string \<rightharpoonup> string) \<Rightarrow> (string \<times> string) list) \<Rightarrow> string list \<Rightarrow>
    ('ma, 'txt, 'st, 'l, 'm, 'cb) node \<Rightarrow> (string \<times> PublicState \<times> (string \<times> string) list) list" where
  "node_listing pid pairs ks n =
     map (\<lambda>e. (pid (PeerID e), Node_ConnectionState (PeerID e) n, case Metadata e of None \<Rightarrow> [] | Some md \<Rightarrow> pairs md)) (Node_ListPeers ks n)"

text \<open>The result of \<^verbatim>\<open>sendMessage\<close> is printed; the first eight characters of a peer that has fewer panic.\<close>

definition chat_send :: "(string \<Rightarrow> peer_id option) \<Rightarrow> string \<Rightarrow> ('n, 'e, 'ma) node_api \<Rightarrow> string \<Rightarrow> string \<Rightarrow> 'n console \<Rightarrow> 'n console prompt_round" where
  "chat_send decode name api peerIDStr message c =
     (if decode peerIDStr = None then Continue (say (OFail ''Invalid peer ID: '') c)
      else case sendMessage decode api peerIDStr name message (con_node c) of
        (False, n) \<Rightarrow> Continue (say (OFail ''Send failed: '') (c\<lparr>con_node := n\<rparr>))
      | (True, n) \<Rightarrow>
          if length peerIDStr < 8 then Panic else Continue (say (OText (''Sent to '' @ take 8 peerIDStr)) (c\<lparr>con_node := n\<rparr>)))"

definition chat_round :: "(string \<Rightarrow> peer_id option) \<Rightarrow> ('n \<Rightarrow> (string \<times> PublicState \<times> (string \<times> string) list) list) \<Rightarrow> string \<Rightarrow>
    ('n, 'e, 'ma) node_api \<Rightarrow> string \<Rightarrow> 'n console \<Rightarrow> 'n console prompt_round" where
  "chat_round decode listing name api text c =
     (case chat_parse text of
        ChatBlank \<Rightarrow> Continue c
      | ChatQuit \<Rightarrow> Return (say (OText ''Goodbye!'') c)
      | ChatConnect addr \<Rightarrow> Continue (c\<lparr>con_dials := con_dials c @ [addr]\<rparr>)
      | ChatSend p message \<Rightarrow> chat_send decode name api p message c
      | ChatList \<Rightarrow> Continue (c\<lparr>con_out := con_out c @ listPeers (listing (con_node c))\<rparr>)
      | ChatUsage u \<Rightarrow> Continue (say (OText u) c)
      | ChatUnknown com \<Rightarrow> Continue (say (OText (''Unknown command: '' @ com)) c))"

text \<open>The goroutine that connects: \<open>parse\<close> gives the peer and its addresses, or which of the two parsers failed.\<close>

datatype addr_err = InvalidMultiaddr | NoPeerInfo

definition addr_err_text :: "addr_err \<Rightarrow> out" where
  "addr_err_text e = OFail (if e = InvalidMultiaddr then ''Invalid multiaddr: '' else ''Failed to parse peer info: '')"

definition chat_connect :: "(string \<Rightarrow> (addr_err, peer_id \<times> 'ma list) result) \<Rightarrow> string \<Rightarrow> bytes \<Rightarrow> ('n, 'e, 'ma) node_api \<Rightarrow> string \<Rightarrow>
    peerStates \<times> 'n \<Rightarrow> out list \<times> bool \<times> peerStates \<times> 'n" where
  "chat_connect parse name pub api addrStr w =
     (case parse addrStr of
        Inl e \<Rightarrow> ([OText (''Connecting to '' @ addrStr @ ''...''), addr_err_text e], False, w)
      | Inr (p, addrs) \<Rightarrow>
          ([OText (''Connecting to '' @ addrStr @ ''...'')],
           connectToPeer (chat_params name pub) True (Some [''name'' \<mapsto> ''peer'']) api p addrs w))"

text \<open>\<^verbatim>\<open>handleEvents\<close> of \<^verbatim>\<open>simple-chat\<close> and the event loop of \<^verbatim>\<open>basic\<close>; \<open>short\<close> is the beginning of a peer's text.\<close>

definition chat_on_event :: "(peer_id \<Rightarrow> string) \<Rightarrow> 'err PublicEvent \<Rightarrow> out option" where
  "chat_on_event short ev =
     (let p = short (pe_PeerID ev) in
      case pe_State ev of
        PubConnected \<Rightarrow> Some (OText (''Connected to '' @ p))
      | PubEstablished \<Rightarrow> Some (OText (''Secure connection established with '' @ p))
      | PubDisconnected \<Rightarrow>
          Some (if PublicEvent_IsError ev then OFail (''Disconnected from '' @ p @ '': '') else OText (''Disconnected from '' @ p))
      | PubReconnecting \<Rightarrow> Some (OText (''Reconnecting to '' @ p @ ''...''))
      | _ \<Rightarrow> None)"

definition basic_on_event :: "(peer_id \<Rightarrow> string) \<Rightarrow> 'err PublicEvent \<Rightarrow> out" where
  "basic_on_event short ev =
     (let t = ''Event: '' @ short (pe_PeerID ev) @ '' -> '' @ PublicState_String (pe_State ev)
      in if PublicEvent_IsError ev then OFail (t @ '' (error: '') else OText t)"

interpretation chat: prompt "chat_round decode listing name api" "\<lambda>l. chat_parse l = ChatQuit" "say (OText ''Goodbye!'')"
  by unfold_locales (auto simp: chat_round_def chat_send_def split: chat_cmd.splits prod.splits bool.splits)

section \<open>Lines\<close>

text \<open>A line is cut into words, whatever white space is between and around them.\<close>

lemma chat_parse_words:
  assumes "Fields (TrimSpace text) = com # args"
  shows "chat_parse text =
     (if com = ''quit'' \<or> com = ''exit'' then ChatQuit
      else if com = ''connect'' then (case args of [] \<Rightarrow> ChatUsage ''Usage: connect <multiaddr>'' | a # _ \<Rightarrow> ChatConnect a)
      else if com = ''send'' then
        (case args of p # w # ws \<Rightarrow> ChatSend p (Join (w # ws) '' '') | _ \<Rightarrow> ChatUsage ''Usage: send <peer-id> <message>'')
      else if com = ''list'' then ChatList
      else ChatUnknown com)"
proof -
  have "TrimSpace text \<noteq> []" using assms by (auto simp: Fields_def rune_chunks.simps)
  then show ?thesis using assms by (simp add: chat_parse_def Let_def split: list.splits)
qed

lemma TrimSpace_id:
  assumes "rune_chunks s = c # cs" and "\<not> space_chunk c" and "\<not> space_chunk (last (c # cs))"
  shows "TrimSpace s = s"
proof -
  have "dropWhile space_chunk (rev (c # cs)) = rev (c # cs)"
    using assms(3) append_butlast_last_id [of "c # cs"] by (metis dropWhile.simps(2) list.discI rev_eq_Cons_iff rev_rev_ident)
  then show ?thesis using assms(1,2) rune_chunks_text [of s] by (simp add: TrimSpace_def)
qed

section \<open>Properties\<close>

text \<open>
  A chat program that comes up has a node that is ready for the handshakes of \<open>AppNode\<close>, under the key of the key file, or under a new one when the file is
  missing or has the wrong length; the public key it sends to its peers belongs to it.
\<close>

theorem chat_program_listens:
  assumes "chat_boot maddr env i fs l m abFile port file gen saves = Some (Inr (pub, gs, n))"
  shows "\<exists>sk. pub = drop 32 sk \<and> (file = Some sk \<and> length sk = 64 \<or> (\<forall>k. file = Some k \<longrightarrow> length k \<noteq> 64) \<and> gen = Some sk) \<and>
     listening env sk (nd_config n) \<lparr>lv_node = n, lv_calls = 0, lv_stuck = False, lv_spawned = []\<rparr>"
proof -
  obtain sk where sk: "fst (loadOrGenerateKey file gen saves) = Some sk" "boot maddr env i fs l m abFile (listen_on port) (Some sk) = Some (Inr (pub, gs, n))"
    using assms by (auto simp: chat_boot_def split: option.splits)
  have "file = Some sk \<and> length sk = 64 \<or> (\<forall>k. file = Some k \<longrightarrow> length k \<noteq> 64) \<and> gen = Some sk"
    using sk(1) by (auto simp: loadOrGenerateKey_def KeyFileSize_def Let_def split: option.splits if_splits)
  then show ?thesis using boot_started [OF sk(2)] started_listening by blast
qed


text \<open>
  The command loop of \<^verbatim>\<open>simple-chat\<close>: the lines before the first \<^verbatim>\<open>quit\<close> or \<^verbatim>\<open>exit\<close> are carried out in order, the program then says goodbye and returns, and the
  lines after it have no effect; without such a line the program goes on until the input ends. A panic on the way ends it early.
\<close>

theorem chat_runs_until_quit:
  assumes "\<not> list_ex (\<lambda>l. chat_parse l = ChatQuit) ls"
  shows "(chat_parse l = ChatQuit \<longrightarrow>
       prompt_loop (chat_round decode listing name api) (ls @ l # ms) c =
         (case prompt_loop (chat_round decode listing name api) ls c of Continue c' \<Rightarrow> Return (say (OText ''Goodbye!'') c') | r \<Rightarrow> r)) \<and>
     prompt_loop (chat_round decode listing name api) ls c \<noteq> Return c'"
  using chat.loop_until_quit [OF assms] chat.loop_never_quits [OF assms] by blast

section \<open>Concrete inputs\<close>

definition toy_line :: string where
  "toy_line = Join [''send'', ''12345678'', ''hi'', ''there''] '' ''"

lemma toy_line_fields: "Fields (TrimSpace toy_line) = [''send'', ''12345678'', ''hi'', ''there'']"
proof -
  have a: "ascii toy_line" by (simp add: ascii_def toy_line_def Join_def)
  have "rune_chunks toy_line = byte_chunk CHR ''s'' # map byte_chunk (tl toy_line)"
    using rune_chunks_ascii [OF a] by (simp add: toy_line_def Join_def)
  then have "TrimSpace toy_line = toy_line"
    by (rule TrimSpace_id) (simp_all add: toy_line_def Join_def space_chunk_def byte_chunk_def fmt_isSpace_def in_range_def)
  then show ?thesis using rune_chunks_ascii [OF a]
    by (simp add: Fields_def toy_line_def Join_def space_chunk_def byte_chunk_def fmt_isSpace_def in_range_def text_of_def)
qed


theorem chat_runs_until_quit_witness:
  "chat_parse ''quit'' = ChatQuit \<and> chat_parse ''list'' \<noteq> ChatQuit \<and>
   prompt_loop (chat_round Some (\<lambda>_. []) ''A'' toy_app) [''list'', ''quit'', ''list''] \<lparr>con_node = L, con_out = [], con_dials = []\<rparr> =
     Return \<lparr>con_node = L, con_out = [OText ''No peers in address book'', OText ''Goodbye!''], con_dials = []\<rparr>"
proof -
  have one: "chat_parse s = (if s = ''quit'' then ChatQuit else ChatList)" if "s = ''quit'' \<or> s = ''list''" for s
  proof -
    have a: "rune_chunks s = map byte_chunk s" using that by (intro rune_chunks_ascii) (auto simp: ascii_def)
    have "TrimSpace s = s" "Fields s = [s]"
      using that by (auto simp: TrimSpace_def Fields_def a space_chunk_def byte_chunk_def fmt_isSpace_def in_range_def text_of_def)
    then show ?thesis using that by (auto simp: chat_parse_def)
  qed
  then have q: "chat_parse ''quit'' = ChatQuit" "chat_parse ''list'' = ChatList" by simp_all
  have "prompt_loop (chat_round Some (\<lambda>_. []) ''A'' toy_app) [''list''] \<lparr>con_node = L, con_out = [], con_dials = []\<rparr> =
      Continue \<lparr>con_node = L, con_out = [OText ''No peers in address book''], con_dials = []\<rparr>"
    using q(2) by (simp add: chat_round_def listPeers_def)
  moreover have "\<not> list_ex (\<lambda>l. chat_parse l = ChatQuit) [''list'']" using q(2) by simp
  ultimately show ?thesis using q chat_runs_until_quit [of "[''list'']" "''quit''" Some "\<lambda>_. []" "''A''" toy_app "[''list'']"]
    by (simp add: say_def del: prompt_loop.simps)
qed

end
