(* ===== verification/FileTransfer.thy ===== *)
theory FileTransfer
  imports AppHandshake
begin

text \<open>
  The file transfer example (\<^verbatim>\<open>src/examples/file-transfer/main.go\<close>): a file is announced, sent in chunks and closed with a checksum over an encrypted stream; the
  receiver collects the chunks and saves the file when the checksum agrees. SHA-256 is the parameter \<open>sha\<close>; the hasher holds the bytes written to it. A panic is
  \<open>None\<close>. \<open>maxAlloc\<close> is the largest capacity that \<^verbatim>\<open>make\<close> accepts. The files saved are a map from paths; \<open>wr\<close> says which paths can be written.
\<close>

section \<open>Paths\<close>

text \<open>\<^verbatim>\<open>filepath.Clean\<close> and \<^verbatim>\<open>filepath.Join\<close> on Unix.\<close>

fun split_slash :: "string \<Rightarrow> string \<Rightarrow> string list" where
  "split_slash [] acc = [acc]"
| "split_slash (c # cs) acc = (if c = CHR ''/'' then acc # split_slash cs [] else split_slash cs (acc @ [c]))"

fun clean_elems :: "bool \<Rightarrow> string list \<Rightarrow> string list \<Rightarrow> string list" where
  "clean_elems rooted [] out = out"
| "clean_elems rooted (e # es) out =
     (if e = [] \<or> e = ''.'' then clean_elems rooted es out
      else if e = ''..'' then
        (if out \<noteq> [] \<and> last out \<noteq> ''..'' then clean_elems rooted es (butlast out)
         else if rooted then clean_elems rooted es out
         else clean_elems rooted es (out @ [e]))
      else clean_elems rooted es (out @ [e]))"

fun join_slash :: "string list \<Rightarrow> string" where
  "join_slash [] = []"
| "join_slash [e] = e"
| "join_slash (e # es) = e @ ''/'' @ join_slash es"

definition path_Clean :: "string \<Rightarrow> string" where
  "path_Clean path =
     (if path = [] then ''.''
      else let rooted = (hd path = CHR ''/''); body = join_slash (clean_elems rooted (split_slash path []) []) in
           if rooted then ''/'' @ body else if body = [] then ''.'' else body)"

definition path_Join :: "string \<Rightarrow> string \<Rightarrow> string" where
  "path_Join dir f = (if dir \<noteq> [] then path_Clean (dir @ ''/'' @ f) else if f \<noteq> [] then path_Clean f else [])"

section \<open>Messages\<close>

definition msgFileStart :: byte where "msgFileStart = 10"

definition msgFileChunk :: byte where "msgFileChunk = 11"

definition msgFileEnd :: byte where "msgFileEnd = 12"

definition msgFileAck :: byte where "msgFileAck = 13"

lemmas file_msg_types = msgFileStart_def msgFileChunk_def msgFileEnd_def msgFileAck_def

definition streamFile :: string where "streamFile = ''file-transfer''"

definition chunkSize :: int where "chunkSize = 64 * 1024"

record FileTransfer =
  Filename :: string
  TotalSize :: int
  ChunksTotal :: int
  ChunksRecv :: nat
  Data :: bytes

text \<open>\<^verbatim>\<open>int((fileSize + chunkSize - 1) / chunkSize)\<close> in 64-bit arithmetic.\<close>

definition chunks_total :: "int \<Rightarrow> int" where
  "chunks_total fileSize = quot (wrap64 (wrap64 (fileSize + chunkSize) - 1)) chunkSize"

section \<open>The sender\<close>

text \<open>What \<^verbatim>\<open>file.Read\<close> returns: some bytes, the end, or an error.\<close>

datatype file_read = FData bytes | FEOF | FErr string

datatype 'e send_file_err = FOpen string | FStat string | FStart 'e | FRead string | FChunk nat 'e | FEnd 'e

text \<open>The file: how opening and \<^verbatim>\<open>Stat\<close> end, its name, its size and what reading it gives.\<close>

record file_in =
  fi_open :: "string option"
  fi_stat :: "string option"
  fi_name :: string
  fi_size :: int
  fi_reads :: "file_read list"

definition start_msg :: "string \<Rightarrow> int \<Rightarrow> bytes" where
  "start_msg filename fileSize =
     [msgFileStart, of_nat (length filename)] @ str_bytes filename @ put_be 8 (nat (fileSize mod 2 ^ 64))"

definition chunk_msg :: "nat \<Rightarrow> bytes \<Rightarrow> bytes" where
  "chunk_msg chunkIndex d = msgFileChunk # put_be 4 chunkIndex @ d"

definition end_msg :: "bytes \<Rightarrow> bytes" where
  "end_msg checksum = msgFileEnd # checksum"

text \<open>The loop over the chunks; \<open>h\<close> is what has been written to the hasher. Reading past the list gives the end of the file.\<close>

fun send_chunks :: "('n, 'e, 'ma) node_api \<Rightarrow> peer_id \<Rightarrow> file_read list \<Rightarrow> nat \<Rightarrow> bytes \<Rightarrow> 'n \<Rightarrow> ('e send_file_err, bytes) result \<times> 'n" where
  "send_chunks api p [] chunkIndex h n = (Inr h, n)"
| "send_chunks api p (FEOF # rs) chunkIndex h n = (Inr h, n)"
| "send_chunks api p (FErr e # rs) chunkIndex h n = (Inl (FRead e), n)"
| "send_chunks api p (FData d # rs) chunkIndex h n =
     (case ap_Send api p streamFile (chunk_msg chunkIndex d) n of
        (Some e, n') \<Rightarrow> (Inl (FChunk chunkIndex e), n')
      | (None, n') \<Rightarrow> send_chunks api p rs (chunkIndex + 1) (h @ d) n')"

definition sendFileTransfer :: "(bytes \<Rightarrow> bytes) \<Rightarrow> ('n, 'e, 'ma) node_api \<Rightarrow> peer_id \<Rightarrow> file_in \<Rightarrow> 'n \<Rightarrow> 'e send_file_err option \<times> 'n" where
  "sendFileTransfer sha api p f n =
     (case fi_open f of
        Some e \<Rightarrow> (Some (FOpen e), n)
      | None \<Rightarrow>
     (case fi_stat f of
        Some e \<Rightarrow> (Some (FStat e), n)
      | None \<Rightarrow>
     (case ap_Send api p streamFile (start_msg (fi_name f) (fi_size f)) n of
        (Some e, n1) \<Rightarrow> (Some (FStart e), n1)
      | (None, n1) \<Rightarrow>
     (case send_chunks api p (fi_reads f) 0 [] n1 of
        (Inl e, n2) \<Rightarrow> (Some e, n2)
      | (Inr h, n2) \<Rightarrow>
     (case ap_Send api p streamFile (end_msg (sha h)) n2 of
        (Some e, n3) \<Rightarrow> (Some (FEnd e), n3)
      | (None, n3) \<Rightarrow> (None, n3))))))"

section \<open>The receiver\<close>

record 'n receiver =
  transfers :: "peer_id \<rightharpoonup> FileTransfer"
  saved :: "string \<rightharpoonup> bytes"
  rnode :: 'n

definition handleFileTransferMessage :: "nat \<Rightarrow> (bytes \<Rightarrow> bytes) \<Rightarrow> (string \<Rightarrow> bool) \<Rightarrow> string \<Rightarrow> ('n, 'e, 'ma) node_api \<Rightarrow>
    IncomingMessage \<Rightarrow> 'n receiver \<Rightarrow> 'n receiver option" where
  "handleFileTransferMessage maxAlloc sha wr outputDir api msg r =
     (let p = im_PeerID msg; data = im_Data msg; t = data ! 0 in
      if t = msgFileStart then
        (if length data < 3 then Some r
         else let filenameLen = unat (data ! 1) in
           if length data < 2 + filenameLen + 8 then Some r
           else let filename = bytes_str (take filenameLen (drop 2 data));
                    fileSize = wrap64 (int (get_be (take 8 (drop (2 + filenameLen) data)))) in
             if fileSize < 0 \<or> int maxAlloc < fileSize then None
             else Some (r\<lparr>transfers := (transfers r)(p \<mapsto>
                    \<lparr>Filename = filename, TotalSize = fileSize, ChunksTotal = chunks_total fileSize, ChunksRecv = 0, Data = []\<rparr>)\<rparr>))
      else if t = msgFileChunk then
        (if length data < 5 then Some r
         else let chunkIndex = get_be (take 4 (drop 1 data)); chunkData = drop 5 data in
           case transfers r p of
             None \<Rightarrow> Some r
           | Some tr \<Rightarrow>
               Some (r\<lparr>transfers := (transfers r)(p \<mapsto> tr\<lparr>Data := Data tr @ chunkData, ChunksRecv := ChunksRecv tr + 1\<rparr>),
                       rnode := send_ignored api p streamFile (msgFileAck # put_be 4 chunkIndex) (rnode r)\<rparr>))
      else if t = msgFileEnd then
        (if length data < 33 then Some r
         else let receivedChecksum = take 32 (drop 1 data) in
           case transfers r p of
             None \<Rightarrow> Some r
           | Some tr \<Rightarrow>
               let r' = r\<lparr>transfers := (transfers r)(p := None)\<rparr> in
               if receivedChecksum \<noteq> sha (Data tr) then Some r'
               else let outputPath = path_Join outputDir (Filename tr) in
                 if \<not> wr outputPath then Some r'
                 else Some (r'\<lparr>saved := (saved r)(outputPath \<mapsto> Data tr)\<rparr>))
      else Some r)"

text \<open>The message loop: the handshake stream, the file stream, nothing else.\<close>

record 'n file_app =
  fa_states :: peerStates
  fa_receiver :: "'n receiver"

definition file_on_message :: "nat \<Rightarrow> (bytes \<Rightarrow> bytes) \<Rightarrow> (string \<Rightarrow> bool) \<Rightarrow> string \<Rightarrow> bytes \<Rightarrow> ('n, 'e, 'ma) node_api \<Rightarrow>
    IncomingMessage \<Rightarrow> 'n file_app \<Rightarrow> 'n file_app option" where
  "file_on_message maxAlloc sha wr outputDir pub api msg a =
     (if im_StreamName msg = HandshakeStreamName then
        (case on_handshake (file_params pub) api msg (fa_states a, rnode (fa_receiver a)) of
           (sts, n) \<Rightarrow> Some (a\<lparr>fa_states := sts, fa_receiver := (fa_receiver a)\<lparr>rnode := n\<rparr>\<rparr>))
      else if im_StreamName msg = streamFile \<and> 0 < length (im_Data msg) then
        map_option (\<lambda>r. a\<lparr>fa_receiver := r\<rparr>) (handleFileTransferMessage maxAlloc sha wr outputDir api msg (fa_receiver a))
      else Some a)"

text \<open>The loop over the messages of the channel; it ends when a handler panics.\<close>

fun file_loop :: "nat \<Rightarrow> (bytes \<Rightarrow> bytes) \<Rightarrow> (string \<Rightarrow> bool) \<Rightarrow> string \<Rightarrow> bytes \<Rightarrow> ('n, 'e, 'ma) node_api \<Rightarrow>
    IncomingMessage list \<Rightarrow> 'n file_app \<Rightarrow> 'n file_app option" where
  "file_loop maxAlloc sha wr outputDir pub api [] a = Some a"
| "file_loop maxAlloc sha wr outputDir pub api (m # ms) a =
     (case file_on_message maxAlloc sha wr outputDir pub api m a of
        None \<Rightarrow> None
      | Some a' \<Rightarrow> file_loop maxAlloc sha wr outputDir pub api ms a')"

section \<open>What a transfer sends\<close>

text \<open>The chunks of a file, as reading it gives them, and the messages they become.\<close>

fun read_chunks :: "file_read list \<Rightarrow> bytes list" where
  "read_chunks (FData d # rs) = d # read_chunks rs"
| "read_chunks rs = []"

fun chunk_msgs :: "nat \<Rightarrow> bytes list \<Rightarrow> bytes list" where
  "chunk_msgs i [] = []"
| "chunk_msgs i (d # ds) = chunk_msg i d # chunk_msgs (i + 1) ds"

definition transfer_msgs :: "(bytes \<Rightarrow> bytes) \<Rightarrow> string \<Rightarrow> int \<Rightarrow> bytes list \<Rightarrow> bytes list" where
  "transfer_msgs sha name sz ds = start_msg name sz # chunk_msgs 0 ds @ [end_msg (sha (concat ds))]"

lemma send_chunks_sent:
  assumes "send_chunks (traced api) p rs i h nt = (Inr h', nt')"
  shows "h' = h @ concat (read_chunks rs) \<and>
     sent_calls (snd nt') = sent_calls (snd nt) @ map (\<lambda>d. (p, streamFile, d)) (chunk_msgs i (read_chunks rs))"
  using assms
proof (induction rs arbitrary: i h nt)
  case (Cons x rs)
  show ?case
  proof (cases x)
    case (FData d)
    obtain r n1 where s: "ap_Send (traced api) p streamFile (chunk_msg i d) nt = (r, n1)" using prod.exhaust by blast
    then have "r = None" using Cons.prems FData by (cases r) (simp_all del: traced_calls)
    moreover from this have "sent_calls (snd n1) = sent_calls (snd nt) @ [(p, streamFile, chunk_msg i d)]"
      using tsend.send_ok s by blast
    ultimately show ?thesis using Cons.IH [of "i + 1" "h @ d" n1] Cons.prems FData s by (simp del: traced_calls)
  qed (use Cons.prems in simp_all)
qed simp

section \<open>What the receiver makes of it\<close>

definition file_im :: "peer_id \<Rightarrow> time_ns \<Rightarrow> bytes \<Rightarrow> IncomingMessage" where
  "file_im p now d = \<lparr>im_PeerID = p, im_StreamName = streamFile, im_Data = d, im_Timestamp = now\<rparr>"

fun receive_all :: "nat \<Rightarrow> (bytes \<Rightarrow> bytes) \<Rightarrow> (string \<Rightarrow> bool) \<Rightarrow> string \<Rightarrow> ('n, 'e, 'ma) node_api \<Rightarrow>
    IncomingMessage list \<Rightarrow> 'n receiver \<Rightarrow> 'n receiver option" where
  "receive_all maxAlloc sha wr dir api [] r = Some r"
| "receive_all maxAlloc sha wr dir api (m # ms) r =
     (case handleFileTransferMessage maxAlloc sha wr dir api m r of None \<Rightarrow> None | Some r' \<Rightarrow> receive_all maxAlloc sha wr dir api ms r')"

lemma receive_all_append:
  "receive_all maxAlloc sha wr dir api (ms @ ms') r =
     (case receive_all maxAlloc sha wr dir api ms r of None \<Rightarrow> None | Some r' \<Rightarrow> receive_all maxAlloc sha wr dir api ms' r')"
  by (induction ms arbitrary: r) (simp_all split: option.splits)

text \<open>On messages of the file stream that are not empty the message loop is the receiver's loop.\<close>

lemma file_loop_receive:
  assumes "\<forall>m \<in> set ms. im_StreamName m = streamFile \<and> im_Data m \<noteq> []"
  shows "file_loop maxAlloc sha wr dir pub api ms a =
     map_option (\<lambda>r. a\<lparr>fa_receiver := r\<rparr>) (receive_all maxAlloc sha wr dir api ms (fa_receiver a))"
  using assms
proof (induction ms arbitrary: a)
  case (Cons m ms)
  have "file_on_message maxAlloc sha wr dir pub api m a =
      map_option (\<lambda>r. a\<lparr>fa_receiver := r\<rparr>) (handleFileTransferMessage maxAlloc sha wr dir api m (fa_receiver a))"
    using Cons.prems by (simp add: file_on_message_def streamFile_def HandshakeStreamName_def)
  then show ?case using Cons by (cases "handleFileTransferMessage maxAlloc sha wr dir api m (fa_receiver a)") simp_all
qed simp

lemma handle_start:
  assumes "length name < 256" and "0 \<le> fsz" and "fsz \<le> int maxAlloc" and "fsz < 2 ^ 63"
  shows "handleFileTransferMessage maxAlloc sha wr dir api (file_im p now (start_msg name fsz)) r =
     Some (r\<lparr>transfers := (transfers r)(p \<mapsto>
       \<lparr>Filename = name, TotalSize = fsz, ChunksTotal = chunks_total fsz, ChunksRecv = 0, Data = []\<rparr>)\<rparr>)"
proof -
  have "unat (of_nat (length name) :: byte) = length name" using assms(1) by (simp add: unat_of_nat)
  moreover have "wrap64 (int (get_be (put_be 8 (nat fsz)))) = fsz"
    using assms(2,4) by (simp add: get_put_be wrap64_def)
  moreover have "fsz mod 2 ^ 64 = fsz" using assms(2,4) by simp
  ultimately show ?thesis using assms(2,3)
    by (simp add: handleFileTransferMessage_def file_im_def start_msg_def Let_def)
qed

lemma handle_chunk:
  assumes "transfers r p = Some tr"
  shows "handleFileTransferMessage maxAlloc sha wr dir api (file_im p now (chunk_msg i d)) r =
     Some (r\<lparr>transfers := (transfers r)(p \<mapsto> tr\<lparr>Data := Data tr @ d, ChunksRecv := ChunksRecv tr + 1\<rparr>),
             rnode := send_ignored api p streamFile (msgFileAck # put_be 4 (i mod 2 ^ 32)) (rnode r)\<rparr>)"
  using assms by (simp add: get_put_be handleFileTransferMessage_def file_im_def chunk_msg_def Let_def file_msg_types)

lemma handle_chunks:
  assumes "transfers r p = Some tr"
  shows "\<exists>n' tr'. receive_all maxAlloc sha wr dir api (map (file_im p now) (chunk_msgs i ds)) r =
       Some (r\<lparr>transfers := (transfers r)(p \<mapsto> tr'), rnode := n'\<rparr>) \<and> Filename tr' = Filename tr \<and> Data tr' = Data tr @ concat ds"
  using assms
proof (induction ds arbitrary: i r tr)
  case Nil
  then have "(transfers r)(p \<mapsto> tr) = transfers r" by (simp add: fun_upd_idem)
  then show ?case by (intro exI [of _ "rnode r"] exI [of _ tr]) (simp del: fun_upd_apply)
next
  case (Cons d ds)
  let ?n1 = "send_ignored api p streamFile (msgFileAck # put_be 4 (i mod 2 ^ 32)) (rnode r)"
  have h: "handleFileTransferMessage maxAlloc sha wr dir api (file_im p now (chunk_msg i d)) r =
      Some (r\<lparr>transfers := (transfers r)(p \<mapsto> tr\<lparr>Data := Data tr @ d, ChunksRecv := ChunksRecv tr + 1\<rparr>), rnode := ?n1\<rparr>)"
    using Cons.prems by (rule handle_chunk)
  from Cons.IH [of "r\<lparr>transfers := (transfers r)(p \<mapsto> tr\<lparr>Data := Data tr @ d, ChunksRecv := ChunksRecv tr + 1\<rparr>), rnode := ?n1\<rparr>"
      "tr\<lparr>Data := Data tr @ d, ChunksRecv := ChunksRecv tr + 1\<rparr>" "i + 1"]
  show ?case using h by (simp del: fun_upd_apply add: fun_upd_same)
qed

lemma handle_end:
  assumes "transfers r p = Some tr" and "length (sha (Data tr)) = 32"
  shows "handleFileTransferMessage maxAlloc sha wr dir api (file_im p now (end_msg (sha (Data tr)))) r =
     Some (r\<lparr>transfers := (transfers r)(p := None),
             saved := if wr (path_Join dir (Filename tr)) then (saved r)(path_Join dir (Filename tr) \<mapsto> Data tr) else saved r\<rparr>)"
  using assms by (simp add: handleFileTransferMessage_def file_im_def end_msg_def Let_def file_msg_types)

lemma receive_transfer:
  assumes "length name < 256" and "0 \<le> fsz" and "fsz \<le> int maxAlloc" and "fsz < 2 ^ 63" and "length (sha (concat ds)) = 32"
    and "wr (path_Join dir name)"
  shows "\<exists>n'. receive_all maxAlloc sha wr dir api (map (file_im p now) (transfer_msgs sha name fsz ds)) r =
     Some \<lparr>transfers = (transfers r)(p := None), saved = (saved r)(path_Join dir name \<mapsto> concat ds), rnode = n'\<rparr>"
proof -
  let ?t = "\<lparr>Filename = name, TotalSize = fsz, ChunksTotal = chunks_total fsz, ChunksRecv = 0, Data = []\<rparr>"
  let ?r = "r\<lparr>transfers := (transfers r)(p \<mapsto> ?t)\<rparr>"
  obtain n' tr' where c: "receive_all maxAlloc sha wr dir api (map (file_im p now) (chunk_msgs 0 ds)) ?r =
      Some (?r\<lparr>transfers := (transfers ?r)(p \<mapsto> tr'), rnode := n'\<rparr>)" "Filename tr' = name" "Data tr' = concat ds"
    using handle_chunks [of ?r p ?t maxAlloc sha wr dir api now 0 ds] by auto
  have "handleFileTransferMessage maxAlloc sha wr dir api (file_im p now (end_msg (sha (Data tr'))))
      (?r\<lparr>transfers := (transfers ?r)(p \<mapsto> tr'), rnode := n'\<rparr>) =
      Some \<lparr>transfers = (transfers r)(p := None), saved = (saved r)(path_Join dir name \<mapsto> concat ds), rnode = n'\<rparr>"
    using c(2,3) assms(5,6) by (subst handle_end [where tr = tr']) simp_all
  then show ?thesis using c by (simp add: transfer_msgs_def receive_all_append handle_start [OF assms(1-4)])
qed

lemma transfer_msgs_nonempty: "d \<in> set (transfer_msgs sha name fsz ds) \<Longrightarrow> d \<noteq> []"
proof -
  have "d \<in> set (chunk_msgs i ds) \<Longrightarrow> d \<noteq> []" for i by (induction ds arbitrary: i) (auto simp: chunk_msg_def)
  then show "d \<in> set (transfer_msgs sha name fsz ds) \<Longrightarrow> d \<noteq> []" by (auto simp: transfer_msgs_def start_msg_def end_msg_def)
qed

section \<open>Properties\<close>

text \<open>
  A transfer that returns nil has sent exactly the announcement, the chunks of the file in order with their numbers, and the checksum of the whole file, on
  the file stream to that peer, whatever the node underneath does.
\<close>

theorem sendFileTransfer_sends:
  assumes "sendFileTransfer sha (traced api) p f (n, []) = (None, n', tr)"
  shows "sent_calls tr = map (\<lambda>d. (p, streamFile, d)) (transfer_msgs sha (fi_name f) (fi_size f) (read_chunks (fi_reads f)))"
proof -
  obtain r1 n1 where s1: "ap_Send (traced api) p streamFile (start_msg (fi_name f) (fi_size f)) (n, []) = (r1, n1)" using prod.exhaust by blast
  then have r1: "r1 = None" using assms by (cases r1) (simp_all add: sendFileTransfer_def split: option.splits del: traced_calls)
  obtain r2 n2 where s2: "send_chunks (traced api) p (fi_reads f) 0 [] n1 = (r2, n2)" using prod.exhaust by blast
  then obtain h where r2: "r2 = Inr h"
    using assms s1 r1 by (cases r2) (simp_all add: sendFileTransfer_def split: option.splits del: traced_calls)
  obtain r3 n3 where s3: "ap_Send (traced api) p streamFile (end_msg (sha h)) n2 = (r3, n3)" using prod.exhaust by blast
  then have r3: "r3 = None" "n3 = (n', tr)"
    using assms s1 r1 s2 r2 by (cases r3; simp add: sendFileTransfer_def split: option.splits del: traced_calls)+
  have "sent_calls (snd n1) = [(p, streamFile, start_msg (fi_name f) (fi_size f))]" using tsend.send_ok [of api] s1 r1 by fastforce
  moreover have "h = concat (read_chunks (fi_reads f))"
    "sent_calls (snd n2) = sent_calls (snd n1) @ map (\<lambda>d. (p, streamFile, d)) (chunk_msgs 0 (read_chunks (fi_reads f)))"
    using send_chunks_sent s2 r2 by fastforce+
  moreover have "sent_calls tr = sent_calls (snd n2) @ [(p, streamFile, end_msg (sha h))]"
    using tsend.send_ok [of api] s3 r3 by fastforce
  ultimately show ?thesis by (simp add: transfer_msgs_def)
qed


text \<open>
  A file is saved only when its checksum agrees: a message changes the saved files only if it is an end message whose checksum is the hash of the data collected from that
  very peer, and then it saves exactly that data under the announced name; and no message changes the transfer of another peer.
\<close>

theorem saved_only_if_verified:
  assumes "handleFileTransferMessage maxAlloc sha wr dir api msg r = Some r'"
  shows "(saved r' \<noteq> saved r \<longrightarrow>
            (\<exists>tr. transfers r (im_PeerID msg) = Some tr \<and> im_Data msg ! 0 = msgFileEnd \<and> take 32 (drop 1 (im_Data msg)) = sha (Data tr) \<and>
                  saved r' = (saved r)(path_Join dir (Filename tr) \<mapsto> Data tr) \<and> transfers r' (im_PeerID msg) = None)) \<and>
         (q \<noteq> im_PeerID msg \<longrightarrow> transfers r' q = transfers r q)"
  using assms
  by (auto simp: handleFileTransferMessage_def Let_def file_msg_types split: if_splits option.splits)


text \<open>
  The announced name is not confined to the output directory: with the name \<^verbatim>\<open>../evil\<close> a verified transfer into \<^verbatim>\<open>out\<close> is saved outside it.
\<close>

theorem name_escapes_directory: "path_Join ''out'' ''../evil'' = ''evil'' \<and> path_Join ''out'' ''photo.png'' = ''out/photo.png''"
  by (simp add: path_Join_def path_Clean_def Let_def)

section \<open>Witnesses\<close>

definition toy_file :: file_in where
  "toy_file = \<lparr>fi_open = None, fi_stat = None, fi_name = ''f'', fi_size = 3, fi_reads = [FData [1, 2], FData [3], FEOF]\<rparr>"

theorem sendFileTransfer_sends_witness:
  "\<exists>n' tr. sendFileTransfer (\<lambda>d. replicate 32 (last d)) (traced (mock_api 0)) ''p'' toy_file (snd (mk_Connect ''p'' toy_mock), []) = (None, n', tr) \<and>
     map (\<lambda>(p, s, d). d) (sent_calls tr) = [[10, 1, 102, 0, 0, 0, 0, 0, 0, 0, 3], [11, 0, 0, 0, 0, 1, 2], [11, 0, 0, 0, 1, 3], 12 # replicate 32 3]"
proof -
  obtain r n' tr where f: "sendFileTransfer (\<lambda>d. replicate 32 (last d)) (traced (mock_api 0)) ''p'' toy_file (snd (mk_Connect ''p'' toy_mock), []) = (r, n', tr)"
    using prod_cases3 by blast
  then have "r = None" by (auto simp: sendFileTransfer_def toy_file_def toy_eval)
  moreover have "put_be 8 3 = [0, 0, 0, 0, 0, 0, 0, 3]" "put_be 4 0 = [0, 0, 0, 0]" "put_be 4 (Suc 0) = [0, 0, 0, 1]"
    by code_simp+
  ultimately show ?thesis using f sendFileTransfer_sends [of _ "mock_api 0" "''p''" toy_file _ n' tr]
    by (intro exI [of _ n'] exI [of _ tr])
      (simp add: toy_file_def transfer_msgs_def start_msg_def chunk_msg_def end_msg_def str_bytes_def file_msg_types)
qed


theorem saved_only_if_verified_witness:
  "saved (the (handleFileTransferMessage 9 (\<lambda>d. replicate 32 7) (\<lambda>path. True) ''out'' (mock_api 0) (file_im ''p'' 0 (end_msg (replicate 32 7)))
      \<lparr>transfers = [''p'' \<mapsto> \<lparr>Filename = ''f'', TotalSize = 1, ChunksTotal = 1, ChunksRecv = 1, Data = [4]\<rparr>], saved = Map.empty, rnode = toy_mock\<rparr>))
      = [''out/f'' \<mapsto> [4]]"
proof -
  let ?r = "\<lparr>transfers = [''p'' \<mapsto> \<lparr>Filename = ''f'', TotalSize = 1, ChunksTotal = 1, ChunksRecv = 1, Data = [4]\<rparr>], saved = Map.empty, rnode = toy_mock\<rparr>"
  let ?m = "file_im ''p'' 0 (end_msg (replicate 32 7))"
  obtain r' where r': "handleFileTransferMessage 9 (\<lambda>d. replicate 32 7) (\<lambda>path. True) ''out'' (mock_api 0) ?m ?r = Some r'" "saved r' \<noteq> Map.empty"
    by (simp add: handleFileTransferMessage_def file_im_def end_msg_def Let_def file_msg_types)
  moreover have "path_Join ''out'' ''f'' = ''out/f''" by (simp add: path_Join_def path_Clean_def Let_def)
  ultimately show ?thesis using saved_only_if_verified [OF r'(1), of "''q''"] by (simp add: file_im_def)
qed


end
