(* ===== verification/Rpc.thy ===== *)
theory Rpc
  imports AppHandshake Subscriptions
begin

text \<open>
  The RPC example (\<^verbatim>\<open>src/examples/rpc/main.go\<close>): requests and responses over an encrypted stream. The client numbers its calls and keeps a channel of capacity one
  for each call in flight; the server looks up the method and answers. \<^verbatim>\<open>encoding/json\<close> is the parameter \<open>cd\<close>, with \<open>None\<close> for an error. A call of the
  client is split where it waits: \<open>Call_begin\<close> runs up to the select, \<open>Call_end\<close> is the select and the deferred cleanup, and other goroutines may run in
  between. Channels live in a list and are referred to by position.
\<close>

section \<open>Messages\<close>

definition msgRequest :: byte where "msgRequest = 20"

definition msgResponse :: byte where "msgResponse = 21"

definition streamRPC :: string where "streamRPC = ''rpc''"

record RPCRequest =
  rq_ID :: "64 word"
  rq_Method :: string
  rq_Params :: bytes

record RPCError =
  re_Code :: int
  re_Message :: string

record RPCResponse =
  rs_ID :: "64 word"
  rs_Result :: bytes
  rs_Error :: "RPCError option"

record 'v rpc_codec =
  enc_req :: "RPCRequest \<Rightarrow> bytes option"
  dec_req :: "bytes \<Rightarrow> RPCRequest option"
  enc_resp :: "RPCResponse \<Rightarrow> bytes option"
  dec_resp :: "bytes \<Rightarrow> RPCResponse option"
  enc_val :: "'v \<Rightarrow> bytes option"

section \<open>The client\<close>

record RPCClient =
  nextID :: "64 word"
  pending :: "64 word \<rightharpoonup> nat"
  chans :: "RPCResponse channel list"

definition NewRPCClient :: RPCClient where
  "NewRPCClient = \<lparr>nextID = 0, pending = Map.empty, chans = []\<rparr>"

datatype 'e call_err = MarshalParams | MarshalRequest | SendRequest 'e | RemoteError int string | CtxDone ctx_err

text \<open>The deferred function of \<^verbatim>\<open>Call\<close>.\<close>

definition Call_cleanup :: "64 word \<Rightarrow> RPCClient \<Rightarrow> RPCClient" where
  "Call_cleanup reqID c = c\<lparr>pending := (pending c)(reqID := None)\<rparr>"

definition Call_begin :: "'v rpc_codec \<Rightarrow> ('n, 'e, 'ma) node_api \<Rightarrow> peer_id \<Rightarrow> string \<Rightarrow> 'v option \<Rightarrow> RPCClient \<times> 'n \<Rightarrow>
    ('e call_err, 64 word \<times> nat) result \<times> RPCClient \<times> 'n" where
  "Call_begin cd api p m params w =
     (let c = fst w; n = snd w; reqID = nextID c + 1; respCh = length (chans c);
          c1 = c\<lparr>nextID := reqID, chans := chans c @ [make_chan 1], pending := (pending c)(reqID \<mapsto> respCh)\<rparr>;
          fail = (\<lambda>e n'. (Inl e, Call_cleanup reqID c1, n')) in
      case (case params of None \<Rightarrow> Some [] | Some v \<Rightarrow> enc_val cd v) of
        None \<Rightarrow> fail MarshalParams n
      | Some paramsJSON \<Rightarrow>
          (case enc_req cd \<lparr>rq_ID = reqID, rq_Method = m, rq_Params = paramsJSON\<rparr> of
             None \<Rightarrow> fail MarshalRequest n
           | Some reqJSON \<Rightarrow>
               (case ap_Send api p streamRPC (msgRequest # reqJSON) n of
                  (Some e, n') \<Rightarrow> fail (SendRequest e) n'
                | (None, n') \<Rightarrow> (Inr (reqID, respCh), c1, n'))))"

text \<open>
  The select of \<^verbatim>\<open>Call\<close>: \<open>None\<close> while it blocks. When a response is there and the context is done as well, Go picks either; \<open>pick_ctx\<close> says which.
\<close>

definition Call_end :: "ctx_err option \<Rightarrow> bool \<Rightarrow> 64 word \<Rightarrow> nat \<Rightarrow> RPCClient \<Rightarrow> (('e call_err, bytes) result \<times> RPCClient) option" where
  "Call_end ctx_done pick_ctx reqID respCh c =
     (case (chan_recv (chans c ! respCh), ctx_done) of
        ((Received resp, ch'), d) \<Rightarrow>
          if d \<noteq> None \<and> pick_ctx then Some (Inl (CtxDone (the d)), Call_cleanup reqID c)
          else Some (case rs_Error resp of
                       Some e \<Rightarrow> Inl (RemoteError (re_Code e) (re_Message e))
                     | None \<Rightarrow> Inr (rs_Result resp),
                     Call_cleanup reqID (c\<lparr>chans := (chans c)[respCh := ch']\<rparr>))
      | (_, Some e) \<Rightarrow> Some (Inl (CtxDone e), Call_cleanup reqID c)
      | (_, None) \<Rightarrow> None)"

definition HandleResponse :: "'v rpc_codec \<Rightarrow> bytes \<Rightarrow> RPCClient \<Rightarrow> RPCClient" where
  "HandleResponse cd data c =
     (case dec_resp cd data of
        None \<Rightarrow> c
      | Some resp \<Rightarrow>
          (case pending c (rs_ID resp) of
             None \<Rightarrow> c
           | Some k \<Rightarrow> c\<lparr>chans := (chans c)[k := chan_offer resp (chans c ! k)]\<rparr>))"

section \<open>The server\<close>

text \<open>A handler returns a value or the text of its error.\<close>

type_synonym 'v RPCHandler = "bytes \<Rightarrow> string + 'v"

type_synonym 'v RPCServer = "string \<rightharpoonup> 'v RPCHandler"

definition NewRPCServer :: "'v RPCServer" where
  "NewRPCServer = Map.empty"

definition Register :: "string \<Rightarrow> 'v RPCHandler \<Rightarrow> 'v RPCServer \<Rightarrow> 'v RPCServer" where
  "Register m h s = s(m \<mapsto> h)"

text \<open>The error of marshalling a response is discarded; the message is then the type byte alone.\<close>

definition response_msg :: "'v rpc_codec \<Rightarrow> RPCResponse \<Rightarrow> bytes" where
  "response_msg cd resp = msgResponse # (case enc_resp cd resp of None \<Rightarrow> [] | Some respJSON \<Rightarrow> respJSON)"

definition sendError :: "'v rpc_codec \<Rightarrow> ('n, 'e, 'ma) node_api \<Rightarrow> peer_id \<Rightarrow> 64 word \<Rightarrow> int \<Rightarrow> string \<Rightarrow> 'n \<Rightarrow> 'n" where
  "sendError cd api p reqID code txt n =
     send_ignored api p streamRPC (response_msg cd \<lparr>rs_ID = reqID, rs_Result = [], rs_Error = Some \<lparr>re_Code = code, re_Message = txt\<rparr>\<rparr>) n"

definition sendResult :: "'v rpc_codec \<Rightarrow> ('n, 'e, 'ma) node_api \<Rightarrow> peer_id \<Rightarrow> 64 word \<Rightarrow> 'v \<Rightarrow> 'n \<Rightarrow> 'n" where
  "sendResult cd api p reqID result n =
     (case enc_val cd result of
        None \<Rightarrow> sendError cd api p reqID (- 32603) ''Internal error'' n
      | Some resultJSON \<Rightarrow>
          send_ignored api p streamRPC (response_msg cd \<lparr>rs_ID = reqID, rs_Result = resultJSON, rs_Error = None\<rparr>) n)"

definition HandleRequest :: "'v rpc_codec \<Rightarrow> ('n, 'e, 'ma) node_api \<Rightarrow> 'v RPCServer \<Rightarrow> peer_id \<Rightarrow> bytes \<Rightarrow> 'n \<Rightarrow> 'n" where
  "HandleRequest cd api s p data n =
     (case dec_req cd data of
        None \<Rightarrow> sendError cd api p 0 (- 32700) ''Parse error'' n
      | Some req \<Rightarrow>
          (case s (rq_Method req) of
             None \<Rightarrow> sendError cd api p (rq_ID req) (- 32601) (''Method not found: '' @ rq_Method req) n
           | Some handler \<Rightarrow>
               (case handler (rq_Params req) of
                  Inl e \<Rightarrow> sendError cd api p (rq_ID req) (- 32000) e n
                | Inr result \<Rightarrow> sendResult cd api p (rq_ID req) result n)))"

section \<open>The methods of the example\<close>

text \<open>The values they return; \<open>dec_echo\<close> and \<open>dec_add\<close> decode \<^verbatim>\<open>EchoParams\<close> and \<^verbatim>\<open>AddParams\<close>, giving the text of the error otherwise.\<close>

datatype rpc_value = VEcho string | VSum int | VTime string int string | VPeers int "string list"

definition rpc_echo :: "(bytes \<Rightarrow> string + string) \<Rightarrow> rpc_value RPCHandler" where
  "rpc_echo dec_echo params = (case dec_echo params of Inl e \<Rightarrow> Inl (''invalid params: '' @ e) | Inr m \<Rightarrow> Inr (VEcho m))"

definition rpc_add :: "(bytes \<Rightarrow> string + int \<times> int) \<Rightarrow> rpc_value RPCHandler" where
  "rpc_add dec_add params = (case dec_add params of Inl e \<Rightarrow> Inl (''invalid params: '' @ e) | Inr (a, b) \<Rightarrow> Inr (VSum (wrap64 (a + b))))"

definition rpc_getPeers :: "(peer_id \<Rightarrow> string) \<Rightarrow> peer_id list \<Rightarrow> rpc_value RPCHandler" where
  "rpc_getPeers str peers params = Inr (VPeers (int (length peers)) (map str peers))"

text \<open>\<open>fmt\<close> and \<open>unix\<close> are the clock's \<^verbatim>\<open>Format(time.RFC3339)\<close> and \<^verbatim>\<open>Unix\<close>, \<open>short\<close> the first eight characters of the node's identifier.\<close>

definition rpc_getTime :: "(time_ns \<Rightarrow> string) \<Rightarrow> (time_ns \<Rightarrow> int) \<Rightarrow> string \<Rightarrow> time_ns \<Rightarrow> rpc_value RPCHandler" where
  "rpc_getTime fmt unix short now params = Inr (VTime (fmt now) (unix now) short)"

definition example_server :: "(bytes \<Rightarrow> string + string) \<Rightarrow> (bytes \<Rightarrow> string + int \<times> int) \<Rightarrow> rpc_value RPCHandler \<Rightarrow> rpc_value RPCHandler \<Rightarrow> rpc_value RPCServer" where
  "example_server dec_echo dec_add getTime getPeers =
     Register ''getPeers'' getPeers (Register ''getTime'' getTime (Register ''add'' (rpc_add dec_add) (Register ''echo'' (rpc_echo dec_echo) NewRPCServer)))"

section \<open>The message and event loops\<close>

record 'n rpc_app =
  ra_states :: peerStates
  ra_client :: RPCClient
  ra_connected :: peer_id
  ra_node :: 'n

definition rpc_on_message :: "'v rpc_codec \<Rightarrow> bytes \<Rightarrow> ('n, 'e, 'ma) node_api \<Rightarrow> 'v RPCServer \<Rightarrow> IncomingMessage \<Rightarrow> 'n rpc_app \<Rightarrow> 'n rpc_app" where
  "rpc_on_message cd pub api srv msg a =
     (if im_StreamName msg = HandshakeStreamName then
        (case on_handshake (rpc_params pub) api msg (ra_states a, ra_node a) of
           (sts, n) \<Rightarrow> a\<lparr>ra_states := sts, ra_node := n\<rparr>)
      else if im_StreamName msg = streamRPC \<and> 1 < length (im_Data msg) then
        (if hd (im_Data msg) = msgRequest then
           a\<lparr>ra_node := HandleRequest cd api srv (im_PeerID msg) (tl (im_Data msg)) (ra_node a)\<rparr>
         else if hd (im_Data msg) = msgResponse then
           a\<lparr>ra_client := HandleResponse cd (tl (im_Data msg)) (ra_client a)\<rparr>
         else a)
      else a)"

text \<open>The peer that calls go to; the empty identifier is none.\<close>

definition rpc_on_event :: "peer_id \<Rightarrow> PublicState \<Rightarrow> 'n rpc_app \<Rightarrow> 'n rpc_app" where
  "rpc_on_event p st a =
     (if st = PubEstablished then a\<lparr>ra_connected := p\<rparr>
      else if st = PubDisconnected then (if ra_connected a = p then a\<lparr>ra_connected := []\<rparr> else a)
      else a)"

section \<open>The client's bookkeeping\<close>

text \<open>What the goroutines of the client do, one at a time.\<close>

datatype rpc_label = LBegin | LResponse bytes | LEnd "64 word" | LNode

inductive rpc_step :: "'v rpc_codec \<Rightarrow> ('n, 'e, 'ma) node_api \<Rightarrow> RPCClient \<times> 'n \<Rightarrow> rpc_label \<Rightarrow> RPCClient \<times> 'n \<Rightarrow> bool" for cd api where
  begin_step: "Call_begin cd api p m params w = (r, w') \<Longrightarrow> rpc_step cd api w LBegin w'"
| response_step: "rpc_step cd api (c, n) (LResponse data) (HandleResponse cd data c, n)"
| end_step: "(Call_end d pick i k c :: (('e call_err, bytes) result \<times> RPCClient) option) = Some (r, c') \<Longrightarrow> i = of_nat (k + 1) \<Longrightarrow> k < length (chans c) \<Longrightarrow>
     rpc_step cd api (c, n) (LEnd i) (c', n)"
| node_step: "rpc_step cd api (c, n) LNode (c, n')"

inductive_cases rpc_stepE: "rpc_step cd api w l w'"

text \<open>The channel made by the k-th call (from 0) belongs to the number k+1, also when numbers wrap around; it holds at most one response, and that bears its number.\<close>

definition client_inv :: "RPCClient \<Rightarrow> bool" where
  "client_inv c \<longleftrightarrow> nextID c = of_nat (length (chans c)) \<and>
     (\<forall>i k. pending c i = Some k \<longrightarrow> k < length (chans c) \<and> i = of_nat (k + 1)) \<and>
     (\<forall>k < length (chans c). ccap (chans c ! k) = 1 \<and> \<not> cclosed (chans c ! k) \<and> length (cbuf (chans c ! k)) \<le> 1 \<and>
        (\<forall>resp \<in> set (cbuf (chans c ! k)). rs_ID resp = of_nat (k + 1)))"

text \<open>The responses in the channels are among those given.\<close>

definition chan_from :: "'v rpc_codec \<Rightarrow> bytes set \<Rightarrow> RPCResponse channel \<Rightarrow> bool" where
  "chan_from cd ds ch \<longleftrightarrow> (\<forall>resp \<in> set (cbuf ch). Some resp \<in> dec_resp cd ` ds)"

definition responses_from :: "'v rpc_codec \<Rightarrow> bytes set \<Rightarrow> RPCClient \<Rightarrow> bool" where
  "responses_from cd ds c \<longleftrightarrow> (\<forall>ch \<in> set (chans c). chan_from cd ds ch)"

lemma client_inv_cleanup: "client_inv c \<Longrightarrow> client_inv (Call_cleanup i c)"
  by (simp add: client_inv_def Call_cleanup_def)

lemma client_inv_begin:
  assumes "client_inv c"
  shows "client_inv (c\<lparr>nextID := nextID c + 1, chans := chans c @ [make_chan 1], pending := (pending c)(nextID c + 1 \<mapsto> length (chans c))\<rparr>)"
proof -
  have "nextID c + 1 = of_nat (length (chans c) + 1)" using assms by (simp add: client_inv_def add.commute)
  then show ?thesis using assms
    by (auto simp: client_inv_def make_chan_def nth_append less_Suc_eq add.commute)
qed

lemma Call_begin_client:
  "fst (snd (Call_begin cd api p m params w)) =
     (let c = fst w; c1 = c\<lparr>nextID := nextID c + 1, chans := chans c @ [make_chan 1], pending := (pending c)(nextID c + 1 \<mapsto> length (chans c))\<rparr>
      in if \<exists>x. fst (Call_begin cd api p m params w) = Inr x then c1 else Call_cleanup (nextID c + 1) c1)"
  by (simp add: Call_begin_def Let_def split: option.splits prod.splits)

lemma client_inv_response: "client_inv c \<Longrightarrow> client_inv (HandleResponse cd data c)"
  by (auto simp: client_inv_def HandleResponse_def nth_list_update chan_offer_def chan_try_send_def split: option.splits)

text \<open>What the select and the cleanup leave of the client: the call's channel may have been read.\<close>

lemma Call_end_client:
  "Call_end d pick i k c = Some (r, c') \<Longrightarrow>
     c' = Call_cleanup i c \<or> c' = Call_cleanup i (c\<lparr>chans := (chans c)[k := snd (chan_recv (chans c ! k))]\<rparr>)"
  by (auto simp: Call_end_def split: option.splits prod.splits recv.splits if_splits)

lemma client_inv_recv: "client_inv c \<Longrightarrow> client_inv (c\<lparr>chans := (chans c)[k := snd (chan_recv (chans c ! k))]\<rparr>)"
  by (cases "k < length (chans c)") (auto simp: client_inv_def chan_recv_def nth_list_update split: list.splits)

lemma client_inv_end: "client_inv c \<Longrightarrow> Call_end d pick i k c = Some (r, c') \<Longrightarrow> client_inv c'"
  using Call_end_client client_inv_cleanup client_inv_recv by blast

lemma client_inv_step: "rpc_step cd api w l w' \<Longrightarrow> client_inv (fst w) \<Longrightarrow> client_inv (fst w')"
proof (induction rule: rpc_step.induct)
  case (begin_step p m params w r w')
  then show ?case using Call_begin_client [of cd api p m params w] client_inv_begin [of "fst w"] client_inv_cleanup by (simp add: Let_def split: if_splits)
qed (auto intro: client_inv_response client_inv_end)

interpretation rpcs: invariant_system "\<lambda>w. fst w = NewRPCClient" "rpc_step cd api" "\<lambda>w. client_inv (fst w)"
  by unfold_locales (simp add: client_inv_def NewRPCClient_def, rule client_inv_step)

lemma responses_from_mono: "responses_from cd ds c \<Longrightarrow> ds \<subseteq> ds' \<Longrightarrow> responses_from cd ds' c"
  unfolding responses_from_def chan_from_def by blast

lemma responses_from_update:
  "responses_from cd ds c \<Longrightarrow> chan_from cd ds ch \<Longrightarrow> responses_from cd ds (c\<lparr>chans := (chans c)[k := ch]\<rparr>)"
  by (auto simp: responses_from_def dest!: set_update_subset_insert [THEN subsetD])

lemma responses_from_handle:
  assumes "responses_from cd ds c" and "client_inv c"
  shows "responses_from cd (insert data ds) (HandleResponse cd data c)"
proof -
  have r: "responses_from cd (insert data ds) c" using assms(1) by (rule responses_from_mono) blast
  have "chan_from cd (insert data ds) (chan_offer resp (chans c ! k))" if "dec_resp cd data = Some resp" "pending c i = Some k" for resp k i
  proof -
    have "chan_from cd (insert data ds) (chans c ! k)" using r assms(2) that(2) by (simp add: responses_from_def client_inv_def)
    moreover have "Some resp \<in> dec_resp cd ` insert data ds" using that(1) by force
    ultimately show ?thesis by (simp add: chan_from_def chan_offer_def chan_try_send_def)
  qed
  then show ?thesis using r by (auto simp: HandleResponse_def intro!: responses_from_update split: option.splits)
qed

lemma responses_from_end:
  assumes "responses_from cd ds c" and "k < length (chans c)" and "Call_end d pick i k c = Some (r, c')"
  shows "responses_from cd ds c'"
proof -
  have "chan_from cd ds (chans c ! k)" using assms(1,2) by (simp add: responses_from_def)
  then have "chan_from cd ds (snd (chan_recv (chans c ! k)))" by (auto simp: chan_from_def chan_recv_def split: list.splits)
  then have "responses_from cd ds (c\<lparr>chans := (chans c)[k := snd (chan_recv (chans c ! k))]\<rparr>)" using assms(1) by (simp add: responses_from_update)
  then show ?thesis using assms(1) Call_end_client [OF assms(3)] by (auto simp: responses_from_def Call_cleanup_def)
qed

lemma responses_from_step:
  "rpc_step cd api w l w' \<Longrightarrow> client_inv (fst w) \<Longrightarrow> responses_from cd ds (fst w) \<Longrightarrow>
     responses_from cd (ds \<union> {d. l = LResponse d}) (fst w')"
proof (induction rule: rpc_step.induct)
  case (begin_step p m params w r w')
  then show ?case using Call_begin_client [of cd api p m params w]
    by (simp add: Let_def responses_from_def chan_from_def Call_cleanup_def make_chan_def split: if_splits)
qed (auto intro: responses_from_handle responses_from_end)

lemma responses_received:
  "runs (rpc_step cd api) w ls w' \<Longrightarrow> fst w = NewRPCClient \<Longrightarrow> client_inv (fst w') \<and> responses_from cd {d. LResponse d \<in> set ls} (fst w')"
proof (induction rule: runs.induct)
  case (runs_nil w)
  then show ?case by (simp add: client_inv_def NewRPCClient_def responses_from_def)
next
  case (runs_snoc w ls w' l w'')
  from runs_snoc.IH [OF runs_snoc.prems] responses_from_step [OF runs_snoc.hyps(2)] client_inv_step [OF runs_snoc.hyps(2)]
  show ?case by (auto intro: responses_from_mono [of _ "{d. LResponse d \<in> set ls} \<union> {d. l = LResponse d}"])
qed

section \<open>Properties\<close>

text \<open>The outcome of a response for the call that waits for it.\<close>

definition outcome :: "RPCResponse \<Rightarrow> ('e call_err, bytes) result" where
  "outcome resp = (case rs_Error resp of Some e \<Rightarrow> Inl (RemoteError (re_Code e) (re_Message e)) | None \<Rightarrow> Inr (rs_Result resp))"

text \<open>
  Property C31: Calls get their own responses: in every interleaving of calls, responses and time-outs of a client, a call that returns with anything but its context's error returns the outcome of
  a response that arrived and bears the number of this call, whatever other calls are in flight and also when the numbers wrap around.
\<close>

theorem call_gets_its_own_response:
  assumes "runs (rpc_step cd api) (NewRPCClient, n) ls (c, n')" and "k < length (chans c)"
    and "(Call_end d pick (of_nat (k + 1)) k c :: (('e call_err, bytes) result \<times> RPCClient) option) = Some (r, c')" and "\<forall>e. r \<noteq> Inl (CtxDone e)"
  shows "\<exists>data resp. LResponse data \<in> set ls \<and> dec_resp cd data = Some resp \<and> rs_ID resp = of_nat (k + 1) \<and> r = outcome resp \<and>
     pending c' (of_nat (k + 1)) = None"
proof -
  have inv: "client_inv c" "responses_from cd {d. LResponse d \<in> set ls} c" using responses_received [OF assms(1)] by simp_all
  obtain resp ch' where rc: "chan_recv (chans c ! k) = (Received resp, ch')"
    using assms(3,4) by (auto simp: Call_end_def split: option.splits prod.splits recv.splits)
  then have r: "r = outcome resp" "pending c' (of_nat (k + 1)) = None"
    using assms(3,4) by (auto simp: Call_end_def outcome_def Call_cleanup_def split: if_splits)
  have "resp \<in> set (cbuf (chans c ! k))" using rc by (auto simp: chan_recv_def split: list.splits if_splits)
  moreover from this have "rs_ID resp = of_nat (k + 1)" using inv(1) assms(2) by (auto simp: client_inv_def)
  moreover obtain data where "LResponse data \<in> set ls" "dec_resp cd data = Some resp"
    using inv(2) nth_mem [OF assms(2)] calculation(1) by (fastforce simp: responses_from_def chan_from_def)
  ultimately show ?thesis using r by blast
qed

text \<open>What the server answers to a request.\<close>

definition answer :: "'v rpc_codec \<Rightarrow> 'v RPCServer \<Rightarrow> RPCRequest \<Rightarrow> RPCResponse" where
  "answer cd srv req =
     (let err = (\<lambda>code txt. \<lparr>rs_ID = rq_ID req, rs_Result = [], rs_Error = Some \<lparr>re_Code = code, re_Message = txt\<rparr>\<rparr>) in
      case srv (rq_Method req) of
        None \<Rightarrow> err (- 32601) (''Method not found: '' @ rq_Method req)
      | Some h \<Rightarrow>
          (case h (rq_Params req) of
             Inl e \<Rightarrow> err (- 32000) e
           | Inr v \<Rightarrow> (case enc_val cd v of
                         None \<Rightarrow> err (- 32603) ''Internal error''
                       | Some j \<Rightarrow> \<lparr>rs_ID = rq_ID req, rs_Result = j, rs_Error = None\<rparr>)))"

lemma HandleRequest_answers:
  "dec_req cd data = Some req \<Longrightarrow> HandleRequest cd api srv p data n = send_ignored api p streamRPC (response_msg cd (answer cd srv req)) n"
  by (simp add: HandleRequest_def answer_def sendError_def sendResult_def Let_def split: option.splits sum.splits)

text \<open>
  A call and its answer: when a call has sent its request, the server that receives it sends exactly one message back, and once the client's handler has processed
  that message the call returns: the result that the method computed, or a remote error with the code of the failure, -32601 for an unknown method, -32000 for an error
  of the method, -32603 when its result cannot be encoded.
\<close>

theorem rpc_round_trip:
  assumes "client_inv c" and "Call_begin cd (traced (api :: ('n, 'e, 'ma) node_api)) q m params (c, nA, []) = (Inr (i, k), c1, nA', trA)"
    and "enc_req cd \<lparr>rq_ID = i, rq_Method = m, rq_Params = pj\<rparr> = Some qj" and "params = None \<and> pj = [] \<or> (\<exists>v. params = Some v \<and> enc_val cd v = Some pj)"
    and "dec_req cd qj = Some \<lparr>rq_ID = i, rq_Method = m, rq_Params = pj\<rparr>"
    and "resp = answer cd srv \<lparr>rq_ID = i, rq_Method = m, rq_Params = pj\<rparr>" and "enc_resp cd resp = Some rj" and "dec_resp cd rj = Some resp"
  shows "trA = [ASend q streamRPC (msgRequest # qj) True] \<and>
     (\<exists>ok. snd (HandleRequest cd (traced api') srv p qj (nB, [])) = [ASend p streamRPC (msgResponse # rj) ok]) \<and>
     (\<exists>c2. (Call_end None pick i k (HandleResponse cd rj c1) :: (('e call_err, bytes) result \<times> RPCClient) option) = Some (outcome resp, c2) \<and>
        pending c2 i = None)"
proof -
  have "(case params of None \<Rightarrow> Some [] | Some v \<Rightarrow> enc_val cd v) = Some pj" using assms(4) by auto
  then have b: "i = nextID c + 1" "k = length (chans c)" "trA = [ASend q streamRPC (msgRequest # qj) True]"
      "c1 = c\<lparr>nextID := i, chans := chans c @ [make_chan 1], pending := (pending c)(i \<mapsto> k)\<rparr>"
    using assms(2,3) by (auto simp: Call_begin_def Let_def noting_def split: option.splits prod.splits)
  have "rs_ID resp = i" using assms(6) by (auto simp: answer_def Let_def split: option.splits sum.splits)
  then have "HandleResponse cd rj c1 = c1\<lparr>chans := (chans c1)[k := \<lparr>cbuf = [resp], ccap = 1, cclosed = False\<rparr>]\<rparr>"
    using assms(8) b by (simp add: HandleResponse_def make_chan_def chan_offer_def chan_try_send_def)
  moreover have "k < length (chans c1)" using b by simp
  ultimately have "\<exists>c2. (Call_end None pick i k (HandleResponse cd rj c1) :: (('e call_err, bytes) result \<times> RPCClient) option) = Some (outcome resp, c2) \<and>
      pending c2 i = None"
    by (simp add: Call_end_def chan_recv_def outcome_def Call_cleanup_def)
  moreover have "\<exists>ok. snd (HandleRequest cd (traced api') srv p qj (nB, [])) = [ASend p streamRPC (msgResponse # rj) ok]"
    using assms(5-7) by (simp add: HandleRequest_answers send_ignored_traced response_msg_def)
  ultimately show ?thesis using b(3) by blast
qed

section \<open>Witnesses\<close>

text \<open>A codec that writes the number as one byte, for numbers below 256.\<close>

definition toy_rpc :: "bytes rpc_codec" where
  "toy_rpc =
     \<lparr>enc_req = (\<lambda>q. Some (of_nat (unat (rq_ID q)) # of_nat (length (rq_Method q)) # str_bytes (rq_Method q) @ rq_Params q)),
      dec_req = (\<lambda>d. case d of i # l # r \<Rightarrow> Some \<lparr>rq_ID = of_nat (unat i), rq_Method = bytes_str (take (unat l) r), rq_Params = drop (unat l) r\<rparr> | _ \<Rightarrow> None),
      enc_resp = (\<lambda>s. case rs_Error s of None \<Rightarrow> Some (of_nat (unat (rs_ID s)) # rs_Result s) | Some e \<Rightarrow> None),
      dec_resp = (\<lambda>d. case d of i # r \<Rightarrow> Some \<lparr>rs_ID = of_nat (unat i), rs_Result = r, rs_Error = None\<rparr> | [] \<Rightarrow> None),
      enc_val = Some\<rparr>"

lemma toy_rpc_begin:
  "\<exists>n' tr. Call_begin toy_rpc (traced (mock_api 0)) ''p'' ''e'' (Some [5]) (NewRPCClient, snd (mk_Connect ''p'' toy_mock), []) =
     (Inr (1, 0), \<lparr>nextID = 1, pending = [1 \<mapsto> 0], chans = [make_chan 1]\<rparr>, n', tr)"
  by (simp add: Call_begin_def toy_rpc_def NewRPCClient_def toy_eval str_bytes_def)

theorem rpc_round_trip_witness:
  "\<exists>c2. Call_end None False 1 0 (HandleResponse toy_rpc [1, 5, 5] \<lparr>nextID = 1, pending = [1 \<mapsto> 0], chans = [make_chan 1]\<rparr>) =
     Some (Inr [5, 5] :: (mock_err call_err, bytes) result, c2)"
proof -
  let ?srv = "Register ''e'' (\<lambda>p. Inr (p @ p)) NewRPCServer :: bytes RPCServer"
  obtain n' tr where b: "Call_begin toy_rpc (traced (mock_api 0)) ''p'' ''e'' (Some [5]) (NewRPCClient, snd (mk_Connect ''p'' toy_mock), []) =
     (Inr (1, 0), \<lparr>nextID = 1, pending = [1 \<mapsto> 0], chans = [make_chan 1]\<rparr>, n', tr)" using toy_rpc_begin by blast
  have inv: "client_inv NewRPCClient" by (simp add: client_inv_def NewRPCClient_def)
  have a: "\<lparr>rs_ID = 1, rs_Result = [5, 5], rs_Error = None\<rparr> = answer toy_rpc ?srv \<lparr>rq_ID = 1, rq_Method = ''e'', rq_Params = [5]\<rparr>"
    by (simp add: answer_def toy_rpc_def Register_def NewRPCServer_def)
  have "enc_req toy_rpc \<lparr>rq_ID = 1, rq_Method = ''e'', rq_Params = [5]\<rparr> = Some [1, 1, 101, 5]"
    "dec_req toy_rpc [1, 1, 101, 5] = Some \<lparr>rq_ID = 1, rq_Method = ''e'', rq_Params = [5]\<rparr>"
    using bytes_str_bytes [of "''e''"] by (simp_all add: toy_rpc_def str_bytes_def)
  moreover have "enc_resp toy_rpc \<lparr>rs_ID = 1, rs_Result = [5, 5], rs_Error = None\<rparr> = Some [1, 5, 5]"
    "dec_resp toy_rpc [1, 5, 5] = Some \<lparr>rs_ID = 1, rs_Result = [5, 5], rs_Error = None\<rparr>" by (simp_all add: toy_rpc_def)
  moreover have "Some [5] = None \<and> [5] = [] \<or> (\<exists>v. Some [5] = Some v \<and> enc_val toy_rpc v = Some [5 :: byte])" by (simp add: toy_rpc_def)
  ultimately show ?thesis
    using rpc_round_trip [where pj = "[5]" and qj = "[1, 1, 101, 5]" and rj = "[1, 5, 5]" and pick = False and api' = "mock_api 0" and nB = toy_mock and p = "''a''", OF inv b _ _ _ a]
    by (auto simp: outcome_def)
qed

theorem call_gets_its_own_response_witness:
  "\<exists>c n'. runs (rpc_step toy_rpc (mock_api 0)) (NewRPCClient, snd (mk_Connect ''p'' toy_mock)) [LBegin, LResponse [1, 7]] (c, n') \<and>
     (\<exists>c'. Call_end None False 1 0 c = Some (Inr [7] :: (mock_err call_err, bytes) result, c') \<and> pending c' 1 = None)"
proof -
  let ?c1 = "\<lparr>nextID = 1, pending = [1 \<mapsto> 0], chans = [make_chan 1]\<rparr>" and ?c2 = "HandleResponse toy_rpc [1, 7] \<lparr>nextID = 1, pending = [1 \<mapsto> 0], chans = [make_chan 1]\<rparr>"
  obtain n' where "Call_begin toy_rpc (mock_api 0) ''p'' ''e'' (Some [5]) (NewRPCClient, snd (mk_Connect ''p'' toy_mock)) = (Inr (1, 0), ?c1, n')"
    by (simp add: Call_begin_def toy_rpc_def NewRPCClient_def toy_eval str_bytes_def)
  then have run: "runs (rpc_step toy_rpc (mock_api 0)) (NewRPCClient, snd (mk_Connect ''p'' toy_mock)) [LBegin, LResponse [1, 7]] (?c2, n')"
    by (rule runs_cons [where step = "rpc_step toy_rpc (mock_api 0)", OF rpc_step.begin_step])
      (rule runs_cons [where step = "rpc_step toy_rpc (mock_api 0)", OF rpc_step.response_step], rule runs.runs_nil)
  have len: "0 < length (chans ?c2)" by (simp add: HandleResponse_def toy_rpc_def)
  obtain c' where e: "(Call_end None False (of_nat (0 + 1)) 0 ?c2 :: ((mock_err call_err, bytes) result \<times> RPCClient) option) = Some (Inr [7], c')"
    by (simp add: HandleResponse_def toy_rpc_def Call_end_def chan_recv_def chan_offer_def chan_try_send_def make_chan_def)
  from call_gets_its_own_response [OF run len e] run e show ?thesis by auto
qed

end
