(* ===== verification/Flooding.thy ===== *)
theory Flooding
  imports Prelude
begin

text \<open>
  Networks whose nodes forward every message once: what the broadcasts of the cluster example and the transactions of the blockchain example have in common. A node
  remembers the keys of the messages it has seen, drops a message whose key it knows, and passes a new one on to its neighbours except the one it
  came from. The network delivers messages in any order. The locale states what a node promises; its lemmas are that a flood ends and that it reaches every node.
\<close>

section \<open>The network\<close>

record ('st, 'm) flood_net =
  fnodes :: "peer_id \<Rightarrow> 'st"
  flight :: "(peer_id \<times> peer_id \<times> 'm) list"

datatype 'm flood_label = Originate peer_id 'm | Deliver peer_id peer_id 'm

text \<open>\<open>handle v u m s s' out\<close>: node \<open>v\<close> in state \<open>s\<close> gets \<open>m\<close> from \<open>u\<close>; \<open>out\<close> is what it sends. \<open>start v m s s' out\<close>: it sends a message of its own.\<close>

inductive flood_step :: "(peer_id \<Rightarrow> peer_id \<Rightarrow> 'm \<Rightarrow> 'st \<Rightarrow> 'st \<Rightarrow> (peer_id \<times> 'm) list \<Rightarrow> bool) \<Rightarrow>
    (peer_id \<Rightarrow> 'm \<Rightarrow> 'st \<Rightarrow> 'st \<Rightarrow> (peer_id \<times> 'm) list \<Rightarrow> bool) \<Rightarrow> peer_id set \<Rightarrow>
    ('st, 'm) flood_net \<Rightarrow> 'm flood_label \<Rightarrow> ('st, 'm) flood_net \<Rightarrow> bool" for handle start V where
  originate: "u \<in> V \<Longrightarrow> start u m (fnodes N u) s' out \<Longrightarrow>
     flood_step handle start V N (Originate u m) \<lparr>fnodes = (fnodes N)(u := s'), flight = flight N @ map (\<lambda>(p, m'). (u, p, m')) out\<rparr>"
| deliver: "flight N = xs @ (u, v, m) # ys \<Longrightarrow> handle v u m (fnodes N v) s' out \<Longrightarrow>
     flood_step handle start V N (Deliver u v m) \<lparr>fnodes = (fnodes N)(v := s'), flight = xs @ ys @ map (\<lambda>(p, m'). (v, p, m')) out\<rparr>"

section \<open>What holds of a flood\<close>

text \<open>What is in flight is between known nodes, readable, and known to its sender; neighbours are known nodes.\<close>

definition closed_net_of :: "('m \<Rightarrow> bool) \<Rightarrow> ('m \<Rightarrow> 'k) \<Rightarrow> ('st \<Rightarrow> 'k \<Rightarrow> bool) \<Rightarrow> ('st \<Rightarrow> peer_id set) \<Rightarrow> peer_id set \<Rightarrow> ('st, 'm) flood_net \<Rightarrow> bool" where
  "closed_net_of valid key seen neighbours V N \<longleftrightarrow> (\<forall>(u, v, m) \<in> set (flight N). u \<in> V \<and> v \<in> V \<and> valid m \<and> seen (fnodes N u) (key m)) \<and>
     (\<forall>v \<in> V. neighbours (fnodes N v) \<subseteq> V)"

text \<open>Who has seen a key has passed it on: each neighbour knows it or is about to be told.\<close>

definition passed_on_of :: "('m \<Rightarrow> 'k) \<Rightarrow> ('st \<Rightarrow> 'k \<Rightarrow> bool) \<Rightarrow> ('st \<Rightarrow> peer_id set) \<Rightarrow> peer_id set \<Rightarrow> ('st, 'm) flood_net \<Rightarrow> bool" where
  "passed_on_of key seen neighbours V N \<longleftrightarrow> (\<forall>u \<in> V. \<forall>k. seen (fnodes N u) k \<longrightarrow>
     (\<forall>v \<in> neighbours (fnodes N u). seen (fnodes N v) k \<or> (\<exists>m. key m = k \<and> (u, v, m) \<in> set (flight N))))"

text \<open>The invariant of a flood.\<close>

definition flood_inv_of :: "('m \<Rightarrow> bool) \<Rightarrow> ('m \<Rightarrow> 'k) \<Rightarrow> ('st \<Rightarrow> 'k \<Rightarrow> bool) \<Rightarrow> ('st \<Rightarrow> peer_id set) \<Rightarrow> ('st \<Rightarrow> bool) \<Rightarrow> peer_id set \<Rightarrow> ('st, 'm) flood_net \<Rightarrow> bool" where
  "flood_inv_of valid key seen neighbours ok V N \<longleftrightarrow> closed_net_of valid key seen neighbours V N \<and> ((\<forall>v \<in> V. ok (fnodes N v)) \<longrightarrow> passed_on_of key seen neighbours V N)"

text \<open>The work that is left: every node may still learn every key, and then sends to at most all nodes.\<close>

definition work_of :: "('st \<Rightarrow> 'k \<Rightarrow> bool) \<Rightarrow> 'k set \<Rightarrow> peer_id set \<Rightarrow> ('st, 'm) flood_net \<Rightarrow> nat" where
  "work_of seen K V N = (\<Sum>v \<in> V. card {k \<in> K. \<not> seen (fnodes N v) k}) * (card V + 1) + length (flight N)"

text \<open>The keys in flight.\<close>

definition keys_in_of :: "('m \<Rightarrow> 'k) \<Rightarrow> 'k set \<Rightarrow> ('st, 'm) flood_net \<Rightarrow> bool" where
  "keys_in_of key K N \<longleftrightarrow> (\<forall>(u, v, m) \<in> set (flight N). key m \<in> K)"

section \<open>Interface: a node that forwards once\<close>

text \<open>
  \<open>ok s\<close> says that none of the node's sends has failed. The messages that \<open>valid\<close> admits are those that the handler can read.
\<close>

locale forwards_once =
  fixes handle :: "peer_id \<Rightarrow> peer_id \<Rightarrow> 'm \<Rightarrow> 'st \<Rightarrow> 'st \<Rightarrow> (peer_id \<times> 'm) list \<Rightarrow> bool"
    and start :: "peer_id \<Rightarrow> 'm \<Rightarrow> 'st \<Rightarrow> 'st \<Rightarrow> (peer_id \<times> 'm) list \<Rightarrow> bool"
    and valid :: "'m \<Rightarrow> bool"
    and key :: "'m \<Rightarrow> 'k"
    and seen :: "'st \<Rightarrow> 'k \<Rightarrow> bool"
    and neighbours :: "'st \<Rightarrow> peer_id set"
    and ok :: "'st \<Rightarrow> bool"
  assumes handle_seen: "valid m \<Longrightarrow> seen s (key m) \<Longrightarrow> handle v u m s s' out \<Longrightarrow> s' = s \<and> out = []"
    and handle_new: "valid m \<Longrightarrow> \<not> seen s (key m) \<Longrightarrow> handle v u m s s' out \<Longrightarrow>
        (\<forall>k. seen s' k \<longleftrightarrow> seen s k \<or> k = key m) \<and> neighbours s' = neighbours s \<and> (ok s' \<longrightarrow> ok s) \<and>
        (\<exists>ps. out = map (\<lambda>p. (p, m)) ps \<and> distinct ps \<and> set ps \<subseteq> neighbours s \<and> (ok s' \<longrightarrow> neighbours s - {u} \<subseteq> set ps))"
    and start_new: "start v m s s' out \<Longrightarrow>
        valid m \<and> (\<forall>k. seen s' k \<longleftrightarrow> seen s k \<or> k = key m) \<and> neighbours s' = neighbours s \<and> (ok s' \<longrightarrow> ok s) \<and>
        (\<exists>ps. out = map (\<lambda>p. (p, m)) ps \<and> distinct ps \<and> set ps \<subseteq> neighbours s \<and> (ok s' \<longrightarrow> neighbours s \<subseteq> set ps))"
    and handle_total: "valid m \<Longrightarrow> finite (neighbours s) \<Longrightarrow> \<exists>s' out. handle v u m s s' out"
begin

abbreviation closed_net where
  "closed_net \<equiv> closed_net_of valid key seen neighbours"

abbreviation passed_on where
  "passed_on \<equiv> passed_on_of key seen neighbours"

abbreviation flood_inv where
  "flood_inv \<equiv> flood_inv_of valid key seen neighbours ok"

abbreviation work where
  "work \<equiv> work_of seen"

abbreviation keys_in where
  "keys_in \<equiv> keys_in_of key"

text \<open>A step of one node \<open>w\<close>, seen from outside: it learns at most the key of \<open>m\<close>, and sends \<open>m\<close> to \<open>ps\<close>.\<close>

lemma flood_inv_learn:
  assumes "flood_inv V N" and "w \<in> V" and "valid m" and "\<forall>k. seen s' k \<longleftrightarrow> seen (fnodes N w) k \<or> k = key m"
    and "neighbours s' = neighbours (fnodes N w)" and "ok s' \<longrightarrow> ok (fnodes N w)" and "set ps \<subseteq> neighbours (fnodes N w)"
    and "ok s' \<and> \<not> seen (fnodes N w) (key m) \<longrightarrow> (\<forall>v \<in> neighbours (fnodes N w). v \<in> set ps \<or> seen (fnodes N v) (key m))"
    and "set fl \<subseteq> set (flight N)" and "\<forall>(a, b, m') \<in> set (flight N) - set fl. b = w \<and> key m' = key m"
  shows "flood_inv V \<lparr>fnodes = (fnodes N)(w := s'), flight = fl @ map (\<lambda>p. (w, p, m)) ps\<rparr>"
proof -
  let ?N = "\<lparr>fnodes = (fnodes N)(w := s'), flight = fl @ map (\<lambda>p. (w, p, m)) ps\<rparr>"
  have mono: "seen (fnodes N v) k \<Longrightarrow> seen (fnodes ?N v) k" for v k using assms(4) by (cases "v = w") auto
  have cl: "closed_net V N" using assms(1) by (simp add: flood_inv_of_def)
  have nb: "neighbours (fnodes ?N v) = neighbours (fnodes N v)" for v using assms(5) by simp
  have "(u \<in> V \<and> v \<in> V \<and> valid m' \<and> seen (fnodes ?N u) (key m'))" if "(u, v, m') \<in> set (flight ?N)" for u v m'
  proof (cases "(u, v, m') \<in> set fl")
    case True
    then show ?thesis using cl assms(9) mono by (fastforce simp: closed_net_of_def)
  next
    case False
    then have "u = w" "m' = m" "v \<in> set ps" using that by auto
    moreover have "set ps \<subseteq> V" using assms(2,7) cl unfolding closed_net_of_def by blast
    ultimately show ?thesis using assms(2,3,4) by auto
  qed
  then have "closed_net V ?N" using cl nb unfolding closed_net_of_def by blast
  moreover have "passed_on V ?N" if "\<forall>v \<in> V. ok (fnodes ?N v)"
  proof -
    have "ok s'" using that assms(2) by auto
    have "\<forall>v \<in> V. ok (fnodes N v)" using that assms(2,6) by (metis flood_net.select_convs(1) fun_upd_apply)
    then have old: "passed_on V N" using assms(1) by (simp add: flood_inv_of_def)
    have "seen (fnodes ?N v) k \<or> (\<exists>m'. key m' = k \<and> (u, v, m') \<in> set (flight ?N))"
      if u: "u \<in> V" "seen (fnodes ?N u) k" "v \<in> neighbours (fnodes N u)" for u v k
    proof (cases "seen (fnodes N u) k")
      case True
      then consider "seen (fnodes N v) k" | m' where "key m' = k" "(u, v, m') \<in> set (flight N)"
        using old u unfolding passed_on_of_def by blast
      then show ?thesis
      proof cases
        case 2
        show ?thesis
        proof (cases "(u, v, m') \<in> set fl")
          case False
          then have "v = w" "key m' = key m" using assms(10) 2(2) by fastforce+
          then show ?thesis using 2(1) assms(4) by simp
        qed (use 2 in auto)
      qed (use mono in blast)
    next
      case False
      then have "u = w" "k = key m" using u(2) assms(4) by (auto split: if_splits)
      then have "v \<in> set ps \<or> seen (fnodes N v) k" using u(3) assms(8) \<open>ok s'\<close> False by blast
      then show ?thesis using mono [of v k] \<open>u = w\<close> \<open>k = key m\<close> by (auto intro: exI [of _ m])
    qed
    then show ?thesis using nb unfolding passed_on_of_def by blast
  qed
  ultimately show ?thesis by (simp add: flood_inv_of_def)
qed

lemma flood_inv_step: "flood_step handle start V N l N' \<Longrightarrow> flood_inv V N \<Longrightarrow> flood_inv V N'"
proof (induction rule: flood_step.induct)
  case (originate u m N s' out)
  from start_new [OF originate.hyps(2)] obtain ps where o: "valid m" "\<forall>k. seen s' k \<longleftrightarrow> seen (fnodes N u) k \<or> k = key m"
      "neighbours s' = neighbours (fnodes N u)" "ok s' \<longrightarrow> ok (fnodes N u)" "out = map (\<lambda>p. (p, m)) ps" "set ps \<subseteq> neighbours (fnodes N u)"
      "ok s' \<longrightarrow> neighbours (fnodes N u) \<subseteq> set ps" by blast
  show ?case using flood_inv_learn [OF originate.prems originate.hyps(1) o(1-4,6), of "flight N"] o(5,7) by (auto simp: comp_def)
next
  case (deliver N xs u v m ys s' out)
  have cl: "closed_net V N" using deliver.prems by (simp add: flood_inv_of_def)
  then have m: "u \<in> V" "v \<in> V" "valid m" "seen (fnodes N u) (key m)" using deliver.hyps(1) by (auto simp: closed_net_of_def)
  have fl: "\<forall>(a, b, m') \<in> set (flight N) - set (xs @ ys). b = v \<and> key m' = key m" "set (xs @ ys) \<subseteq> set (flight N)"
    using deliver.hyps(1) by auto
  show ?case
  proof (cases "seen (fnodes N v) (key m)")
    case True
    then have "s' = fnodes N v" "out = []" using handle_seen [OF m(3) _ deliver.hyps(2)] by simp_all
    then show ?thesis using flood_inv_learn [OF deliver.prems m(2,3) _ _ _ _ _ fl(2,1), of "fnodes N v" "[]"] True by auto
  next
    case False
    from handle_new [OF m(3) this deliver.hyps(2)] obtain ps where o: "\<forall>k. seen s' k \<longleftrightarrow> seen (fnodes N v) k \<or> k = key m"
      "neighbours s' = neighbours (fnodes N v)" "ok s' \<longrightarrow> ok (fnodes N v)" "out = map (\<lambda>p. (p, m)) ps" "set ps \<subseteq> neighbours (fnodes N v)"
      "ok s' \<longrightarrow> neighbours (fnodes N v) - {u} \<subseteq> set ps" by blast
    show ?thesis using flood_inv_learn [OF deliver.prems m(2,3) o(1-3,5) _ fl(2,1)] o(4,6) m(4) by (fastforce simp: comp_def)
  qed
qed

lemma flood_inv_runs: "runs (flood_step handle start V) N ls N' \<Longrightarrow> flood_inv V N \<Longrightarrow> flood_inv V N'"
  by (induction rule: runs.induct) (auto intro: flood_inv_step)

text \<open>When nothing is in flight and no send has failed, what one node knows all nodes know that it can reach.\<close>

lemma quiet_means_reached:
  assumes "flood_inv V N" and "flight N = []" and "\<forall>v \<in> V. ok (fnodes N v)" and "u \<in> V" and "seen (fnodes N u) k"
    and "(u, v) \<in> {(a, b). a \<in> V \<and> b \<in> neighbours (fnodes N a)}\<^sup>*"
  shows "seen (fnodes N v) k"
proof -
  have po: "passed_on V N" and cl: "closed_net V N" using assms(1,3) by (simp_all add: flood_inv_of_def)
  from assms(6) have "seen (fnodes N v) k \<and> v \<in> V"
  proof induction
    case (step a b)
    then have "a \<in> V" "b \<in> neighbours (fnodes N a)" "seen (fnodes N a) k" by auto
    then show ?case using po cl assms(2) by (auto simp: passed_on_of_def closed_net_of_def)
  qed (use assms(4,5) in simp)
  then show ?thesis by simp
qed

lemma deliver_works:
  assumes "flood_step handle start V N (Deliver u v m) N'" and "closed_net V N" and "keys_in K N" and "finite V" and "finite K"
  shows "work K V N' < work K V N \<and> keys_in K N'"
proof -
  from assms(1) obtain xs ys s' out where d: "flight N = xs @ (u, v, m) # ys" "handle v u m (fnodes N v) s' out"
      "N' = \<lparr>fnodes = (fnodes N)(v := s'), flight = xs @ ys @ map (\<lambda>(p, m'). (v, p, m')) out\<rparr>"
    by (cases rule: flood_step.cases) auto
  have m: "v \<in> V" "valid m" "key m \<in> K" using assms(2,3) d(1) by (auto simp: closed_net_of_def keys_in_of_def)
  show ?thesis
  proof (cases "seen (fnodes N v) (key m)")
    case True
    then have "s' = fnodes N v" "out = []" using handle_seen [OF m(2) _ d(2)] by simp_all
    then show ?thesis using d(1,3) assms(3) by (auto simp: work_of_def keys_in_of_def)
  next
    case False
    from handle_new [OF m(2) this d(2)] obtain ps where o: "\<forall>k. seen s' k \<longleftrightarrow> seen (fnodes N v) k \<or> k = key m"
      "out = map (\<lambda>p. (p, m)) ps" "distinct ps" "set ps \<subseteq> neighbours (fnodes N v)" by blast
    have "set ps \<subseteq> V" using o(4) assms(2) m(1) by (auto simp: closed_net_of_def)
    then have ps: "length ps \<le> card V" using o(3) assms(4) by (metis card_mono distinct_card)
    let ?U = "\<lambda>s. {k \<in> K. \<not> seen s k}"
    have "?U (fnodes N v) = insert (key m) (?U s')" "key m \<notin> ?U s'" using o(1) m(3) False by auto
    then have "card (?U (fnodes N v)) = Suc (card (?U s'))" using assms(5) by simp
    moreover have "(\<Sum>x \<in> V. card (?U (fnodes N' x))) + card (?U (fnodes N v)) = (\<Sum>x \<in> V. card (?U (fnodes N x))) + card (?U s')"
      using m(1) assms(4) d(3) by (simp add: sum.remove [of V v])
    ultimately have "(\<Sum>x \<in> V. card (?U (fnodes N x))) = Suc (\<Sum>x \<in> V. card (?U (fnodes N' x)))" by simp
    then have "work K V N' < work K V N" using d(1,3) o(2) ps by (simp add: work_of_def)
    moreover have "keys_in K N'" using assms(3) d(1,3) o(2) m(3) unfolding keys_in_of_def by (fastforce split: prod.splits)
    ultimately show ?thesis by blast
  qed
qed

text \<open>A flood ends: no run of deliveries is longer than the work at its start.\<close>

lemma flood_ends:
  assumes "runs (flood_step handle start V) N ls N'" and "\<forall>l \<in> set ls. \<exists>u v m. l = Deliver u v m" and "flood_inv V N" and "keys_in K N"
    and "finite V" and "finite K"
  shows "length ls + work K V N' \<le> work K V N \<and> keys_in K N' \<and> flood_inv V N'"
  using assms(1-4)
proof (induction rule: runs.induct)
  case (runs_snoc N ls N' l N'')
  then have IH: "length ls + work K V N' \<le> work K V N" "keys_in K N'" "flood_inv V N'" by auto
  obtain u v m where "l = Deliver u v m" using runs_snoc.prems(1) by auto
  then have "work K V N'' < work K V N' \<and> keys_in K N''"
    using deliver_works [OF _ _ IH(2) assms(5,6)] runs_snoc.hyps(2) IH(3) by (simp add: flood_inv_of_def)
  then show ?case using IH flood_inv_step [OF runs_snoc.hyps(2)] by simp
qed simp

text \<open>And it can always be completed: while a message is in flight, it can be delivered.\<close>

lemma flood_completes:
  assumes "flood_inv V N" and "keys_in K N" and "finite V" and "finite K"
  shows "\<exists>ls N'. runs (flood_step handle start V) N ls N' \<and> (\<forall>l \<in> set ls. \<exists>u v m. l = Deliver u v m) \<and> flight N' = []"
  using assms(1,2)
proof (induction "work K V N" arbitrary: N rule: less_induct)
  case less
  show ?case
  proof (cases "flight N")
    case Nil
    then show ?thesis by (intro exI [of _ "[]"] exI [of _ N]) (simp add: runs.runs_nil)
  next
    case (Cons x fl)
    obtain u v m where x: "x = (u, v, m)" by (cases x)
    have cl: "closed_net V N" using less.prems(1) by (simp add: flood_inv_of_def)
    then have "valid m" "finite (neighbours (fnodes N v))" using Cons x assms(3) by (auto simp: closed_net_of_def intro: finite_subset)
    then obtain s' out where h: "handle v u m (fnodes N v) s' out" using handle_total by blast
    obtain N1 where st: "flood_step handle start V N (Deliver u v m) N1"
      using flood_step.deliver [of N "[]" u v m fl handle s' out start V] Cons x h by auto
    then have "work K V N1 < work K V N" "keys_in K N1" "flood_inv V N1"
      using deliver_works [OF st cl less.prems(2) assms(3,4)] flood_inv_step [OF st less.prems(1)] by simp_all
    from less.hyps [OF this(1) this(3,2)] obtain ls N' where
      "runs (flood_step handle start V) N1 ls N'" "\<forall>l \<in> set ls. \<exists>u v m. l = Deliver u v m" "flight N' = []" by blast
    then show ?thesis using runs_cons [of "flood_step handle start V", OF st] by (intro exI [of _ "Deliver u v m # ls"] exI [of _ N']) auto
  qed
qed

end

end
