(* ===== verification/Cluster.thy ===== *)
theory Cluster
  imports AppHandshake Subscriptions Flooding
begin

text \<open>
  The cluster example (\<^verbatim>\<open>src/examples/cluster/main.go\<close>): membership by handshake and gossip, broadcasts that every node forwards once, pings. JSON, the text form of
  identifiers and addresses and their parsers are the parameter \<open>cd\<close>. A handler returns the calls of \<^verbatim>\<open>ConnectPeer\<close> it starts in goroutines, or \<open>None\<close> for a panic.
  Go ranges over its maps in any order: \<open>ord\<close> lists the keys in the order of the iteration.
\<close>

section \<open>State\<close>

definition msgGossip :: byte where "msgGossip = 30"

definition msgBroadcast :: byte where "msgBroadcast = 31"

definition msgPing :: byte where "msgPing = 32"

definition msgPong :: byte where "msgPong = 33"

lemmas cluster_msg_types = msgGossip_def msgBroadcast_def msgPing_def msgPong_def

definition streamCluster :: string where "streamCluster = ''cluster''"

record cl_PeerInfo =
  pi_PeerID :: string
  pi_Addrs :: "string list"
  pi_Name :: string
  pi_JoinedAt :: int
  pi_LastSeen :: int
  pi_PublicKey :: bytes

text \<open>The elements of \<^verbatim>\<open>KnownPeers\<close> are pointers; JSON's \<^verbatim>\<open>null\<close> is the nil pointer \<open>None\<close>.\<close>

record GossipMessage =
  gm_Sender :: string
  gm_KnownPeers :: "cl_PeerInfo option list"

record BroadcastMessage =
  bm_Sender :: string
  bm_Name :: string
  bm_Content :: string
  bm_Timestamp :: int
  bm_MessageID :: string

record handshakeState =
  hst_gotPubKey :: bool
  hst_peerPubKey :: bytes
  hst_name :: string

definition new_handshakeState :: handshakeState where
  "new_handshakeState = \<lparr>hst_gotPubKey = False, hst_peerPubKey = [], hst_name = []\<rparr>"

record ClusterNode =
  cn_name :: string
  cn_publicKey :: bytes
  cn_members :: "peer_id \<rightharpoonup> cl_PeerInfo"
  cn_handshakes :: "peer_id \<rightharpoonup> handshakeState"
  cn_seenMessages :: "string \<rightharpoonup> bool"
  cn_stopped :: bool

record 'ma cluster_codec =
  enc_gossip :: "GossipMessage \<Rightarrow> bytes"
  dec_gossip :: "bytes \<Rightarrow> GossipMessage option"
  enc_bcast :: "BroadcastMessage \<Rightarrow> bytes"
  dec_bcast :: "bytes \<Rightarrow> BroadcastMessage option"
  pid_String :: "peer_id \<Rightarrow> string"
  pid_Decode :: "string \<Rightarrow> peer_id option"
  ma_String :: "'ma \<Rightarrow> string"
  parse_p2p :: "string \<Rightarrow> string + peer_id \<times> 'ma list"
  dec_String :: "int \<Rightarrow> string"

definition NewClusterNode :: "string \<Rightarrow> bytes \<Rightarrow> ClusterNode" where
  "NewClusterNode name pub =
     \<lparr>cn_name = name, cn_publicKey = pub, cn_members = Map.empty, cn_handshakes = Map.empty, cn_seenMessages = Map.empty, cn_stopped = False\<rparr>"

text \<open>\<^verbatim>\<open>Stop\<close> closes a channel; a second call panics.\<close>

definition cluster_Stop :: "ClusterNode \<Rightarrow> ClusterNode option" where
  "cluster_Stop c = (if cn_stopped c then None else Some (c\<lparr>cn_stopped := True\<rparr>))"

section \<open>Members\<close>

definition addMember :: "'ma cluster_codec \<Rightarrow> int \<Rightarrow> peer_id \<Rightarrow> bytes \<Rightarrow> string \<Rightarrow> 'ma list \<Rightarrow> ClusterNode \<Rightarrow> ClusterNode" where
  "addMember cd now p key name addrs c =
     c\<lparr>cn_members := (cn_members c)(p \<mapsto>
         \<lparr>pi_PeerID = pid_String cd p, pi_Addrs = map (ma_String cd) addrs, pi_Name = name, pi_JoinedAt = now, pi_LastSeen = now, pi_PublicKey = key\<rparr>)\<rparr>"

definition removeMember :: "peer_id \<Rightarrow> ClusterNode \<Rightarrow> ClusterNode" where
  "removeMember p c = c\<lparr>cn_members := (cn_members c)(p := None)\<rparr>"

definition Members :: "peer_id list \<Rightarrow> ClusterNode \<Rightarrow> cl_PeerInfo list" where
  "Members ord c = List.map_filter (cn_members c) ord"

definition touch_member :: "int \<Rightarrow> peer_id \<Rightarrow> ClusterNode \<Rightarrow> ClusterNode" where
  "touch_member now p c =
     (case cn_members c p of
        None \<Rightarrow> c
      | Some m \<Rightarrow> c\<lparr>cn_members := (cn_members c)(p \<mapsto> m\<lparr>pi_LastSeen := now\<rparr>)\<rparr>)"

text \<open>The keys of the member map in the order of an iteration.\<close>

definition member_ids :: "peer_id list \<Rightarrow> ClusterNode \<Rightarrow> peer_id list" where
  "member_ids ord c = filter (\<lambda>p. cn_members c p \<noteq> None) ord"

section \<open>Handshake\<close>

definition hello_msg :: "ClusterNode \<Rightarrow> bytes" where
  "hello_msg c = msgHello # str_bytes (cn_name c)"

definition pubkey_msg :: "ClusterNode \<Rightarrow> bytes" where
  "pubkey_msg c = msgPubKey # cn_publicKey c"

datatype connect_err = InvalidAddress string | ConnectFailed

definition ConnectPeer :: "'ma cluster_codec \<Rightarrow> ('n, 'e, 'ma) node_api \<Rightarrow> string \<Rightarrow> ClusterNode \<times> 'n \<Rightarrow> connect_err option \<times> ClusterNode \<times> 'n" where
  "ConnectPeer cd api addrStr w =
     (case parse_p2p cd addrStr of
        Inl e \<Rightarrow> (Some (InvalidAddress e), w)
      | Inr (p, addrs) \<Rightarrow>
          (let c = fst w; c1 = c\<lparr>cn_handshakes := (cn_handshakes c)(p \<mapsto> new_handshakeState)\<rparr>; n1 = snd (ap_AddPeer api p addrs None (snd w)) in
           case ap_Connect api p n1 of
             (Some e, n2) \<Rightarrow> (Some ConnectFailed, c1, n2)
           | (None, n2) \<Rightarrow>
               (let n3 = send_ignored api p HandshakeStreamName (hello_msg c1) n2
                in (None, c1, send_ignored api p HandshakeStreamName (pubkey_msg c1) n3))))"

text \<open>One round of the goroutine that \<^verbatim>\<open>ConnectPeer\<close> starts, of a hundred; it sleeps between them. \<open>True\<close> when it is done.\<close>

definition connect_round :: "'ma cluster_codec \<Rightarrow> ('n, 'e, 'ma) node_api \<Rightarrow> int \<Rightarrow> peer_id \<Rightarrow> 'ma list \<Rightarrow> ClusterNode \<times> 'n \<Rightarrow> bool \<times> ClusterNode \<times> 'n" where
  "connect_round cd api now p addrs w =
     (case cn_handshakes (fst w) p of
        None \<Rightarrow> (False, w)
      | Some st \<Rightarrow>
          if \<not> hst_gotPubKey st then (False, w)
          else (let n1 = send_ignored api p HandshakeStreamName [msgComplete] (snd w);
                    n2 = snd (ap_CompleteHandshake api p (hst_peerPubKey st) [streamCluster] n1);
                    c1 = addMember cd now p (hst_peerPubKey st) (hst_name st) addrs (fst w)
                in (True, c1\<lparr>cn_handshakes := (cn_handshakes c1)(p := None)\<rparr>, n2)))"

definition cluster_on_handshake :: "'ma cluster_codec \<Rightarrow> ('n, 'e, 'ma) node_api \<Rightarrow> int \<Rightarrow> IncomingMessage \<Rightarrow> ClusterNode \<times> 'n \<Rightarrow> ClusterNode \<times> 'n" where
  "cluster_on_handshake cd api now msg w =
     (case im_Data msg of
        [] \<Rightarrow> w
      | t # body \<Rightarrow>
          let p = im_PeerID msg; c = fst w; n = snd w;
              st = (case cn_handshakes c p of None \<Rightarrow> new_handshakeState | Some st \<Rightarrow> st);
              put = (\<lambda>st'. c\<lparr>cn_handshakes := (cn_handshakes c)(p \<mapsto> st')\<rparr>) in
          if t = msgHello then
            (let n1 = send_ignored api p HandshakeStreamName (hello_msg c) n
             in (put (if body \<noteq> [] then st\<lparr>hst_name := bytes_str body\<rparr> else st), send_ignored api p HandshakeStreamName (pubkey_msg c) n1))
          else if t = msgPubKey then
            (put (if body \<noteq> [] then st\<lparr>hst_peerPubKey := body, hst_gotPubKey := True\<rparr> else st), n)
          else if t = msgComplete \<and> hst_gotPubKey st then
            (let n1 = send_ignored api p HandshakeStreamName [msgComplete] n in
             case ap_CompleteHandshake api p (hst_peerPubKey st) [streamCluster] n1 of
               (Some e, n2) \<Rightarrow> (put st, n2)
             | (None, n2) \<Rightarrow>
                 (let c1 = addMember cd now p (hst_peerPubKey st) (hst_name st) (ap_PeerAddrs api p n2) c
                  in (c1\<lparr>cn_handshakes := (cn_handshakes c1)(p := None)\<rparr>, n2)))
          else (put st, n))"

section \<open>Broadcast, gossip and pings\<close>

definition bcast_msg :: "'ma cluster_codec \<Rightarrow> BroadcastMessage \<Rightarrow> bytes" where
  "bcast_msg cd b = msgBroadcast # enc_bcast cd b"

text \<open>\<open>t1\<close> and \<open>t2\<close> are the two readings of the clock. The identifier's text has at least eight characters.\<close>

definition new_bcast :: "'ma cluster_codec \<Rightarrow> ('n, 'e, 'ma) node_api \<Rightarrow> int \<Rightarrow> int \<Rightarrow> string \<Rightarrow> ClusterNode \<Rightarrow> BroadcastMessage" where
  "new_bcast cd api t1 t2 content c =
     \<lparr>bm_Sender = pid_String cd (ap_PeerID api), bm_Name = cn_name c, bm_Content = content, bm_Timestamp = t1,
      bm_MessageID = take 8 (pid_String cd (ap_PeerID api)) @ ''-'' @ dec_String cd t2\<rparr>"

definition mark_seen :: "string \<Rightarrow> ClusterNode \<Rightarrow> ClusterNode" where
  "mark_seen i c = c\<lparr>cn_seenMessages := (cn_seenMessages c)(i \<mapsto> True)\<rparr>"

definition Broadcast :: "'ma cluster_codec \<Rightarrow> ('n, 'e, 'ma) node_api \<Rightarrow> int \<Rightarrow> int \<Rightarrow> peer_id list \<Rightarrow> string \<Rightarrow> ClusterNode \<times> 'n \<Rightarrow> ClusterNode \<times> 'n" where
  "Broadcast cd api t1 t2 ord content w =
     (let b = new_bcast cd api t1 t2 content (fst w); c1 = mark_seen (bm_MessageID b) (fst w)
      in (c1, send_to_all api (member_ids ord c1) streamCluster (bcast_msg cd b) (snd w)))"

definition handleBroadcast :: "'ma cluster_codec \<Rightarrow> ('n, 'e, 'ma) node_api \<Rightarrow> peer_id list \<Rightarrow> peer_id \<Rightarrow> BroadcastMessage \<Rightarrow> ClusterNode \<times> 'n \<Rightarrow> ClusterNode \<times> 'n" where
  "handleBroadcast cd api ord from b w =
     (if lookup_bool (cn_seenMessages (fst w)) (bm_MessageID b) then w
      else let c1 = mark_seen (bm_MessageID b) (fst w)
           in (c1, send_to_all api (filter (\<lambda>p. p \<noteq> from) (member_ids ord c1)) streamCluster (bcast_msg cd b) (snd w)))"

text \<open>The loop over the peers of a gossip message: the addresses it connects to. A nil element panics.\<close>

fun gossip_loop :: "'ma cluster_codec \<Rightarrow> peer_id \<Rightarrow> ClusterNode \<Rightarrow> cl_PeerInfo option list \<Rightarrow> string list option" where
  "gossip_loop cd self c [] = Some []"
| "gossip_loop cd self c (None # ps) = None"
| "gossip_loop cd self c (Some i # ps) =
     map_option (\<lambda>as. (case pid_Decode cd (pi_PeerID i) of
                         None \<Rightarrow> []
                       | Some p \<Rightarrow>
                           if p = self \<or> cn_members c p \<noteq> None then []
                           else (case pi_Addrs i of [] \<Rightarrow> [] | a # _ \<Rightarrow> [a @ ''/p2p/'' @ pi_PeerID i])) @ as)
       (gossip_loop cd self c ps)"

definition handleGossip :: "'ma cluster_codec \<Rightarrow> peer_id \<Rightarrow> int \<Rightarrow> peer_id \<Rightarrow> GossipMessage \<Rightarrow> ClusterNode \<Rightarrow> (string list \<times> ClusterNode) option" where
  "handleGossip cd self now from g c =
     (let c1 = touch_member now from c in map_option (\<lambda>as. (as, c1)) (gossip_loop cd self c1 (gm_KnownPeers g)))"

text \<open>The message is not empty.\<close>

definition handleClusterMessage :: "'ma cluster_codec \<Rightarrow> ('n, 'e, 'ma) node_api \<Rightarrow> int \<Rightarrow> peer_id list \<Rightarrow> IncomingMessage \<Rightarrow> ClusterNode \<times> 'n \<Rightarrow>
    (string list \<times> ClusterNode \<times> 'n) option" where
  "handleClusterMessage cd api now ord msg w =
     (let t = hd (im_Data msg); body = tl (im_Data msg); p = im_PeerID msg in
      if t = msgGossip then
        (case dec_gossip cd body of
           None \<Rightarrow> Some ([], w)
         | Some g \<Rightarrow> map_option (\<lambda>(as, c1). (as, c1, snd w)) (handleGossip cd (ap_PeerID api) now p g (fst w)))
      else if t = msgBroadcast then
        (case dec_bcast cd body of
           None \<Rightarrow> Some ([], w)
         | Some b \<Rightarrow> Some ([], handleBroadcast cd api ord p b w))
      else if t = msgPing then Some ([], fst w, send_ignored api p streamCluster [msgPong] (snd w))
      else if t = msgPong then Some ([], touch_member now p (fst w), snd w)
      else Some ([], w))"

text \<open>One message of \<^verbatim>\<open>handleMessages\<close>, and one event of \<^verbatim>\<open>handleEvents\<close>.\<close>

definition cluster_on_message :: "'ma cluster_codec \<Rightarrow> ('n, 'e, 'ma) node_api \<Rightarrow> int \<Rightarrow> peer_id list \<Rightarrow> IncomingMessage \<Rightarrow> ClusterNode \<times> 'n \<Rightarrow>
    (string list \<times> ClusterNode \<times> 'n) option" where
  "cluster_on_message cd api now ord msg w =
     (if im_StreamName msg = HandshakeStreamName then Some ([], cluster_on_handshake cd api now msg w)
      else if im_StreamName msg = streamCluster \<and> 0 < length (im_Data msg) then handleClusterMessage cd api now ord msg w
      else Some ([], w))"

definition cluster_on_event :: "peer_id \<Rightarrow> PublicState \<Rightarrow> ClusterNode \<Rightarrow> ClusterNode" where
  "cluster_on_event p st c = (if st = PubDisconnected then removeMember p c else c)"

definition sendGossip :: "'ma cluster_codec \<Rightarrow> ('n, 'e, 'ma) node_api \<Rightarrow> int \<Rightarrow> peer_id list \<Rightarrow> ClusterNode \<times> 'n \<Rightarrow> ClusterNode \<times> 'n" where
  "sendGossip cd api now ord w =
     (let c = fst w; n = snd w;
          self = \<lparr>pi_PeerID = pid_String cd (ap_PeerID api), pi_Addrs = map (ma_String cd) (ap_Addrs api n), pi_Name = cn_name c, pi_JoinedAt = 0,
                  pi_LastSeen = now, pi_PublicKey = []\<rparr>;
          g = \<lparr>gm_Sender = pid_String cd (ap_PeerID api), gm_KnownPeers = map Some (Members ord c @ [self])\<rparr>
      in (c, send_to_all api (member_ids ord c) streamCluster (msgGossip # enc_gossip cd g) n))"

definition sendPings :: "('n, 'e, 'ma) node_api \<Rightarrow> peer_id list \<Rightarrow> ClusterNode \<times> 'n \<Rightarrow> ClusterNode \<times> 'n" where
  "sendPings api ord w = (fst w, send_to_all api (member_ids ord (fst w)) streamCluster [msgPing] (snd w))"

text \<open>A round of the two routines: they end once the node is stopped; when a tick is there as well, Go picks either.\<close>

definition gossip_round :: "'ma cluster_codec \<Rightarrow> ('n, 'e, 'ma) node_api \<Rightarrow> bool \<Rightarrow> int \<Rightarrow> peer_id list \<Rightarrow> ClusterNode \<times> 'n \<Rightarrow> bool \<times> ClusterNode \<times> 'n" where
  "gossip_round cd api pick_tick now ord w =
     (if cn_stopped (fst w) \<and> \<not> pick_tick then (False, w) else (True, sendGossip cd api now ord w))"

definition ping_round :: "('n, 'e, 'ma) node_api \<Rightarrow> bool \<Rightarrow> peer_id list \<Rightarrow> ClusterNode \<times> 'n \<Rightarrow> bool \<times> ClusterNode \<times> 'n" where
  "ping_round api pick_tick ord w =
     (if cn_stopped (fst w) \<and> \<not> pick_tick then (False, w) else (True, sendPings api ord w))"

section \<open>Broadcasts flood the cluster\<close>

text \<open>
  The nodes of a cluster as a flooding network. \<open>apis v\<close> is the node under the application at \<open>v\<close>; each handler runs on the recorded node, and what it sends
  on the cluster stream is what the recorded calls show.
\<close>

type_synonym 'n cluster_state = "ClusterNode \<times> 'n \<times> api_call list"

definition iteration :: "peer_id list \<Rightarrow> ClusterNode \<Rightarrow> bool" where
  "iteration ord c \<longleftrightarrow> distinct ord \<and> set ord = dom (cn_members c)"

definition cluster_im :: "peer_id \<Rightarrow> time_ns \<Rightarrow> bytes \<Rightarrow> IncomingMessage" where
  "cluster_im u ts d = \<lparr>im_PeerID = u, im_StreamName = streamCluster, im_Data = d, im_Timestamp = ts\<rparr>"

definition cluster_handle :: "'ma cluster_codec \<Rightarrow> (peer_id \<Rightarrow> ('n, 'e, 'ma) node_api) \<Rightarrow> peer_id \<Rightarrow> peer_id \<Rightarrow> bytes \<Rightarrow>
    'n cluster_state \<Rightarrow> 'n cluster_state \<Rightarrow> (peer_id \<times> bytes) list \<Rightarrow> bool" where
  "cluster_handle cd apis v u d s s' out \<longleftrightarrow>
     (\<exists>ord now ts as. iteration ord (fst s) \<and> cluster_on_message cd (traced (apis v)) now ord (cluster_im u ts d) s = Some (as, s') \<and>
        out = new_sends streamCluster (snd (snd s)) (snd (snd s')))"

definition cluster_start :: "'ma cluster_codec \<Rightarrow> (peer_id \<Rightarrow> ('n, 'e, 'ma) node_api) \<Rightarrow> peer_id \<Rightarrow> bytes \<Rightarrow>
    'n cluster_state \<Rightarrow> 'n cluster_state \<Rightarrow> (peer_id \<times> bytes) list \<Rightarrow> bool" where
  "cluster_start cd apis v d s s' out \<longleftrightarrow>
     (\<exists>ord t1 t2 content. iteration ord (fst s) \<and> Broadcast cd (traced (apis v)) t1 t2 ord content s = s' \<and>
        d = bcast_msg cd (new_bcast cd (traced (apis v)) t1 t2 content (fst s)) \<and>
        dec_bcast cd (tl d) = Some (new_bcast cd (traced (apis v)) t1 t2 content (fst s)) \<and>
        out = new_sends streamCluster (snd (snd s)) (snd (snd s')))"

definition bcast_valid :: "'ma cluster_codec \<Rightarrow> bytes \<Rightarrow> bool" where
  "bcast_valid cd d \<longleftrightarrow> (\<exists>b. d = bcast_msg cd b \<and> dec_bcast cd (enc_bcast cd b) = Some b)"

definition bcast_key :: "'ma cluster_codec \<Rightarrow> bytes \<Rightarrow> string" where
  "bcast_key cd d = bm_MessageID (the (dec_bcast cd (tl d)))"

definition has_seen :: "'n cluster_state \<Rightarrow> string \<Rightarrow> bool" where
  "has_seen s i = lookup_bool (cn_seenMessages (fst s)) i"

lemma on_broadcast:
  assumes "dec_bcast cd (enc_bcast cd b) = Some b"
  shows "cluster_on_message cd api now ord (cluster_im u ts (bcast_msg cd b)) s = Some ([], handleBroadcast cd api ord u b s)"
  using assms
  by (simp add: cluster_on_message_def cluster_im_def streamCluster_def HandshakeStreamName_def bcast_msg_def handleClusterMessage_def cluster_msg_types)

lemma member_ids_iteration: "iteration ord c \<Longrightarrow> member_ids ord c = ord"
  by (auto simp: iteration_def member_ids_def intro!: filter_True)

lemma mark_seen_simps [simp]:
  "cn_members (mark_seen i c) = cn_members c" "member_ids ord (mark_seen i c) = member_ids ord c"
  "lookup_bool (cn_seenMessages (mark_seen i c)) k = (lookup_bool (cn_seenMessages c) k \<or> k = i)"
  by (auto simp: mark_seen_def member_ids_def lookup_bool_def)

interpretation cflood: forwards_once "cluster_handle cd (apis :: peer_id \<Rightarrow> ('n, 'e, 'ma) node_api)" "cluster_start cd apis" "bcast_valid cd" "bcast_key cd" has_seen
    "\<lambda>s. dom (cn_members (fst s))" "\<lambda>s. sends_ok (snd (snd s))"
proof
  fix m :: bytes and s s' and v u and out
  assume "bcast_valid cd m" and seen: "has_seen s (bcast_key cd m)" and h: "cluster_handle cd apis v u m s s' out"
  then obtain b where b: "m = bcast_msg cd b" "dec_bcast cd (enc_bcast cd b) = Some b" by (auto simp: bcast_valid_def)
  then have "lookup_bool (cn_seenMessages (fst s)) (bm_MessageID b)" using seen by (simp add: has_seen_def bcast_key_def bcast_msg_def)
  then show "s' = s \<and> out = []" using h b by (auto simp: cluster_handle_def on_broadcast handleBroadcast_def)
next
  fix m :: bytes and s s' and v u and out
  assume "bcast_valid cd m" and seen: "\<not> has_seen s (bcast_key cd m)" and h: "cluster_handle cd apis v u m s s' out"
  then obtain b where b: "m = bcast_msg cd b" "dec_bcast cd (enc_bcast cd b) = Some b" by (auto simp: bcast_valid_def)
  have k: "bcast_key cd m = bm_MessageID b" using b by (simp add: bcast_key_def bcast_msg_def)
  obtain ord where ord: "iteration ord (fst s)" and out: "out = new_sends streamCluster (snd (snd s)) (snd (snd s'))"
    and hb: "s' = handleBroadcast cd (traced (apis v)) ord u b s" using h b by (auto simp: cluster_handle_def on_broadcast)
  have s': "s' = (mark_seen (bm_MessageID b) (fst s), send_to_all (traced (apis v)) (filter (\<lambda>p. p \<noteq> u) ord) streamCluster m (snd s))"
    using hb seen [unfolded k] unfolding b(1) by (simp add: handleBroadcast_def has_seen_def Let_def member_ids_iteration [OF ord])
  obtain qs where qs: "subseq qs (filter (\<lambda>p. p \<noteq> u) ord)" "out = map (\<lambda>p. (p, m)) qs"
    "sends_ok (snd (snd s')) \<longrightarrow> qs = filter (\<lambda>p. p \<noteq> u) ord \<and> sends_ok (snd (snd s))"
    using send_to_all_sends [of "filter (\<lambda>p. p \<noteq> u) ord" streamCluster "snd s" "apis v" m] s' out by auto
  have "distinct qs" "set qs \<subseteq> dom (cn_members (fst s))"
    using ord subseq_distinct [OF qs(1)] subseq_set [OF qs(1)] by (auto simp: iteration_def)
  then show "(\<forall>k. has_seen s' k \<longleftrightarrow> has_seen s k \<or> k = bcast_key cd m) \<and> dom (cn_members (fst s')) = dom (cn_members (fst s)) \<and>
      (sends_ok (snd (snd s')) \<longrightarrow> sends_ok (snd (snd s))) \<and>
      (\<exists>ps. out = map (\<lambda>p. (p, m)) ps \<and> distinct ps \<and> set ps \<subseteq> dom (cn_members (fst s)) \<and>
        (sends_ok (snd (snd s')) \<longrightarrow> dom (cn_members (fst s)) - {u} \<subseteq> set ps))"
    using qs s' ord by (intro conjI exI [of _ qs]) (auto simp: has_seen_def k iteration_def)
next
  fix m :: bytes and s s' and v and out
  assume h: "cluster_start cd apis v m s s' out"
  then obtain ord b where ord: "iteration ord (fst s)" and out: "out = new_sends streamCluster (snd (snd s)) (snd (snd s'))"
    and b: "m = bcast_msg cd b" "dec_bcast cd (enc_bcast cd b) = Some b"
    and s': "s' = (mark_seen (bm_MessageID b) (fst s), send_to_all (traced (apis v)) ord streamCluster m (snd s))"
    by (auto simp: cluster_start_def Broadcast_def Let_def member_ids_iteration bcast_msg_def)
  have k: "bcast_key cd m = bm_MessageID b" and v: "bcast_valid cd m" using b by (auto simp: bcast_key_def bcast_msg_def bcast_valid_def)
  obtain qs where qs: "subseq qs ord" "out = map (\<lambda>p. (p, m)) qs" "sends_ok (snd (snd s')) \<longrightarrow> qs = ord \<and> sends_ok (snd (snd s))"
    using send_to_all_sends [of ord streamCluster "snd s" "apis v" m] s' out by auto
  have "distinct qs" "set qs \<subseteq> dom (cn_members (fst s))"
    using ord subseq_distinct [OF qs(1)] subseq_set [OF qs(1)] by (auto simp: iteration_def)
  then show "bcast_valid cd m \<and> (\<forall>k. has_seen s' k \<longleftrightarrow> has_seen s k \<or> k = bcast_key cd m) \<and> dom (cn_members (fst s')) = dom (cn_members (fst s)) \<and>
      (sends_ok (snd (snd s')) \<longrightarrow> sends_ok (snd (snd s))) \<and>
      (\<exists>ps. out = map (\<lambda>p. (p, m)) ps \<and> distinct ps \<and> set ps \<subseteq> dom (cn_members (fst s)) \<and>
        (sends_ok (snd (snd s')) \<longrightarrow> dom (cn_members (fst s)) \<subseteq> set ps))"
    using qs s' ord v by (intro conjI exI [of _ qs]) (auto simp: has_seen_def k iteration_def)
next
  fix m :: bytes and s :: "'n cluster_state" and v u
  assume "bcast_valid cd m" and "finite (dom (cn_members (fst s)))"
  then obtain b ord where b: "m = bcast_msg cd b" "dec_bcast cd (enc_bcast cd b) = Some b" "iteration ord (fst s)"
    using finite_distinct_list unfolding bcast_valid_def iteration_def by metis
  then show "\<exists>s' out. cluster_handle cd apis v u m s s' out"
    using on_broadcast [OF b(2), of "traced (apis v)" 0 ord u 0 s] unfolding cluster_handle_def by blast
qed

section \<open>Properties\<close>

text \<open>The cluster before anything is broadcast: the members of the nodes in \<open>V\<close> are in \<open>V\<close>, nothing has been seen or sent.\<close>

definition fresh_cluster :: "peer_id set \<Rightarrow> ('n cluster_state, bytes) flood_net \<Rightarrow> bool" where
  "fresh_cluster V N \<longleftrightarrow> flight N = [] \<and>
     (\<forall>v \<in> V. dom (cn_members (fst (fnodes N v))) \<subseteq> V \<and> cn_seenMessages (fst (fnodes N v)) = Map.empty)"

abbreviation cluster_inv :: "'ma cluster_codec \<Rightarrow> peer_id set \<Rightarrow> ('n cluster_state, bytes) flood_net \<Rightarrow> bool" where
  "cluster_inv cd \<equiv> flood_inv_of (bcast_valid cd) (bcast_key cd) has_seen (\<lambda>s. dom (cn_members (fst s))) (\<lambda>s. sends_ok (snd (snd s)))"

lemma fresh_inv: "fresh_cluster V N \<Longrightarrow> cluster_inv cd V N"
  by (simp add: fresh_cluster_def flood_inv_of_def closed_net_of_def passed_on_of_def has_seen_def lookup_bool_def)

text \<open>
  Property C27: Broadcasts reach the whole cluster: in a finite cluster, let nodes broadcast any number of messages and the network deliver what is in flight in any order. Once nothing is in
  flight any more and no send has failed, every message that a node has broadcast or received has been received by all nodes that can be reached from it over the members.
\<close>

theorem broadcast_reaches_everyone:
  assumes "fresh_cluster V N" and "runs (flood_step (cluster_handle cd apis) (cluster_start cd apis) V) N ls N'" and "flight N' = []"
    and "\<forall>v \<in> V. sends_ok (snd (snd (fnodes N' v)))" and "u \<in> V" and "has_seen (fnodes N' u) i"
    and "(u, v) \<in> {(a, b). a \<in> V \<and> cn_members (fst (fnodes N' a)) b \<noteq> None}\<^sup>*"
  shows "has_seen (fnodes N' v) i"
proof -
  have "{(a, b). a \<in> V \<and> cn_members (fst (fnodes N' a)) b \<noteq> None} = {(a, b). a \<in> V \<and> b \<in> dom (cn_members (fst (fnodes N' a)))}" by auto
  then show ?thesis
    using cflood.quiet_means_reached [OF cflood.flood_inv_runs [OF assms(2) fresh_inv [OF assms(1)]] assms(3-6), of v] assms(7) by simp
qed

text \<open>
  Property C28: A broadcast does not circulate: after one broadcast in a fresh cluster of \<open>n\<close> nodes, no sequence of deliveries is longer than n(n+1) + n, and the network can
  always be drained.
\<close>

theorem broadcast_dies_out:
  assumes "fresh_cluster V N" and "finite V" and "flood_step (cluster_handle cd apis) (cluster_start cd apis) V N (Originate u d) N1"
  shows "(\<forall>ls N2. runs (flood_step (cluster_handle cd apis) (cluster_start cd apis) V) N1 ls N2 \<longrightarrow> (\<forall>l \<in> set ls. \<exists>a b m. l = Deliver a b m) \<longrightarrow>
            length ls \<le> card V * (card V + 1) + card V) \<and>
         (\<exists>ls N2. runs (flood_step (cluster_handle cd apis) (cluster_start cd apis) V) N1 ls N2 \<and> flight N2 = [])"
proof -
  let ?K = "{bcast_key cd d}"
  have inv: "cluster_inv cd V N1" using cflood.flood_inv_step [OF assms(3) fresh_inv [OF assms(1)]] .
  from assms(3) obtain s' out where st: "u \<in> V" "cluster_start cd apis u d (fnodes N u) s' out"
      "N1 = \<lparr>fnodes = (fnodes N)(u := s'), flight = flight N @ map (\<lambda>(p, m'). (u, p, m')) out\<rparr>"
    by (cases rule: flood_step.cases) auto
  from cflood.start_new [OF st(2)] obtain ps where ps: "out = map (\<lambda>p. (p, d)) ps" "distinct ps" "set ps \<subseteq> dom (cn_members (fst (fnodes N u)))" by blast
  then have "set ps \<subseteq> V" using assms(1) st(1) by (auto simp: fresh_cluster_def)
  then have len: "length ps \<le> card V" using ps(2) assms(2) by (metis card_mono distinct_card)
  have fl: "flight N1 = map (\<lambda>p. (u, p, d)) ps" using st(3) ps(1) assms(1) by (simp add: fresh_cluster_def)
  have keys: "keys_in_of (bcast_key cd) ?K N1" by (auto simp: keys_in_of_def fl)
  have "card {k \<in> ?K. \<not> has_seen (fnodes N1 v) k} \<le> 1" for v by (rule order_trans [OF card_mono [of ?K]]) auto
  then have "(\<Sum>v \<in> V. card {k \<in> ?K. \<not> has_seen (fnodes N1 v) k}) \<le> (\<Sum>v \<in> V. 1)" by (intro sum_mono)
  then have "(\<Sum>v \<in> V. card {k \<in> ?K. \<not> has_seen (fnodes N1 v) k}) \<le> card V" by simp
  then have "work_of has_seen ?K V N1 \<le> card V * (card V + 1) + card V"
    using len unfolding work_of_def fl by (intro add_mono mult_right_mono) simp_all
  moreover have "length ls + work_of has_seen ?K V N2 \<le> work_of has_seen ?K V N1"
    if "runs (flood_step (cluster_handle cd apis) (cluster_start cd apis) V) N1 ls N2" "\<forall>l \<in> set ls. \<exists>a b m. l = Deliver a b m" for ls N2
    using cflood.flood_ends [OF that inv keys assms(2)] by simp
  moreover have "\<exists>ls N2. runs (flood_step (cluster_handle cd apis) (cluster_start cd apis) V) N1 ls N2 \<and> flight N2 = []"
    using cflood.flood_completes [OF inv keys assms(2)] by blast
  ultimately show ?thesis by (meson add_leD1 le_trans)
qed

text \<open>A gossip message with a \<^verbatim>\<open>null\<close> among its peers crashes the node that receives it.\<close>

theorem null_gossip_panics:
  assumes "dec_gossip cd body = Some g" and "None \<in> set (gm_KnownPeers g)"
  shows "cluster_on_message cd api now ord (cluster_im u ts (msgGossip # body)) w = None"
proof -
  have "gossip_loop cd self c ps = None" if "None \<in> set ps" for self c and ps :: "cl_PeerInfo option list"
    using that
  proof (induction ps)
    case (Cons p ps)
    then show ?case by (cases p) auto
  qed simp
  then show ?thesis using assms
    by (simp add: cluster_on_message_def cluster_im_def streamCluster_def HandshakeStreamName_def handleClusterMessage_def handleGossip_def Let_def)
qed

section \<open>Witnesses\<close>

definition toy_bcast :: BroadcastMessage where
  "toy_bcast = \<lparr>bm_Sender = ''me'', bm_Name = [], bm_Content = ''hi'', bm_Timestamp = 0, bm_MessageID = ''me-''\<rparr>"

definition toy_cluster :: "string cluster_codec" where
  "toy_cluster = \<lparr>enc_gossip = (\<lambda>g. [1]), dec_gossip = (\<lambda>d. Some \<lparr>gm_Sender = [], gm_KnownPeers = [None]\<rparr>), enc_bcast = (\<lambda>b. [7]),
     dec_bcast = (\<lambda>d. Some toy_bcast), pid_String = id, pid_Decode = Some, ma_String = id, parse_p2p = Inl, dec_String = (\<lambda>i. [])\<rparr>"

text \<open>Two nodes that have each other as members.\<close>

definition toy_member :: "peer_id \<Rightarrow> string MockNode cluster_state" where
  "toy_member q = ((NewClusterNode [] [])\<lparr>cn_members := [q \<mapsto> \<lparr>pi_PeerID = q, pi_Addrs = [], pi_Name = [], pi_JoinedAt = 0, pi_LastSeen = 0, pi_PublicKey = []\<rparr>]\<rparr>,
     snd (mk_Connect q toy_mock), [])"

definition toy_two :: "(string MockNode cluster_state, bytes) flood_net" where
  "toy_two = \<lparr>fnodes = (\<lambda>v. if v = ''a'' then toy_member ''b'' else toy_member ''a''), flight = []\<rparr>"

lemma toy_two_fresh: "fresh_cluster {''a'', ''b''} toy_two"
  by (simp add: fresh_cluster_def toy_two_def toy_member_def NewClusterNode_def)

lemma toy_cast:
  "\<exists>s'. cluster_start toy_cluster (\<lambda>v. mock_api 0) ''a'' [31, 7] (toy_member ''b'') s' [(''b'', [31, 7])] \<and> sends_ok (snd (snd s')) \<and>
     has_seen s' ''me-'' \<and> cn_members (fst s') ''b'' \<noteq> None"
  unfolding cluster_start_def
  by (rule exI, rule conjI, rule exI [of _ "[''b'']"], rule exI [of _ 0], rule exI [of _ 0], rule exI [of _ "''hi''"], intro conjI,
      simp add: iteration_def toy_member_def, rule refl)
    (simp_all add: iteration_def toy_member_def NewClusterNode_def Broadcast_def Let_def member_ids_def send_to_all_def bcast_msg_def toy_cluster_def
      new_bcast_def toy_bcast_def toy_eval new_sends_def msgBroadcast_def sends_ok_def has_seen_def mark_seen_def)

lemma toy_hear:
  "\<exists>s'. cluster_handle toy_cluster (\<lambda>v. mock_api 0) ''b'' ''a'' [31, 7] (toy_member ''a'') s' [] \<and> sends_ok (snd (snd s')) \<and> has_seen s' ''me-''"
proof -
  have "cluster_on_message toy_cluster (traced (mock_api 0)) 0 [''a''] (cluster_im ''a'' 0 [31, 7]) (toy_member ''a'') =
      Some ([], mark_seen ''me-'' (fst (toy_member ''a'')), snd (toy_member ''a''))"
    by (simp add: cluster_on_message_def cluster_im_def streamCluster_def HandshakeStreamName_def handleClusterMessage_def cluster_msg_types toy_cluster_def
        handleBroadcast_def toy_bcast_def toy_member_def NewClusterNode_def lookup_bool_def member_ids_def send_to_all_def Let_def mark_seen_def)
  moreover have "iteration [''a''] (fst (toy_member ''a''))" by (simp add: iteration_def toy_member_def)
  ultimately have "cluster_handle toy_cluster (\<lambda>v. mock_api 0) ''b'' ''a'' [31, 7] (toy_member ''a'')
      (mark_seen ''me-'' (fst (toy_member ''a'')), snd (toy_member ''a'')) []" unfolding cluster_handle_def by fastforce
  then show ?thesis by (intro exI conjI) (assumption, simp_all add: toy_member_def sends_ok_def has_seen_def)
qed

lemma toy_flood:
  "\<exists>N1 N2. flood_step (cluster_handle toy_cluster (\<lambda>v. mock_api 0)) (cluster_start toy_cluster (\<lambda>v. mock_api 0)) {''a'', ''b''} toy_two (Originate ''a'' [31, 7]) N1 \<and>
     flood_step (cluster_handle toy_cluster (\<lambda>v. mock_api 0)) (cluster_start toy_cluster (\<lambda>v. mock_api 0)) {''a'', ''b''} N1 (Deliver ''a'' ''b'' [31, 7]) N2 \<and>
     flight N2 = [] \<and> (\<forall>v \<in> {''a'', ''b''}. sends_ok (snd (snd (fnodes N2 v)))) \<and> has_seen (fnodes N2 ''a'') ''me-'' \<and>
     cn_members (fst (fnodes N2 ''a'')) ''b'' \<noteq> None"
proof -
  obtain sa where sa: "cluster_start toy_cluster (\<lambda>v. mock_api 0) ''a'' [31, 7] (toy_member ''b'') sa [(''b'', [31, 7])]" "sends_ok (snd (snd sa))"
     "has_seen sa ''me-''" "cn_members (fst sa) ''b'' \<noteq> None" using toy_cast by blast
  obtain sb where sb: "cluster_handle toy_cluster (\<lambda>v. mock_api 0) ''b'' ''a'' [31, 7] (toy_member ''a'') sb []" "sends_ok (snd (snd sb))"
    using toy_hear by blast
  let ?h = "cluster_handle toy_cluster (\<lambda>v. mock_api 0)" and ?st = "cluster_start toy_cluster (\<lambda>v. mock_api 0)"
  let ?N1 = "\<lparr>fnodes = (fnodes toy_two)(''a'' := sa), flight = [(''a'', ''b'', [31, 7])]\<rparr>"
  have "flood_step ?h ?st {''a'', ''b''} toy_two (Originate ''a'' [31, 7]) ?N1"
    using flood_step.originate [of "''a''" "{''a'', ''b''}" ?st "[31, 7]" toy_two sa "[(''b'', [31, 7])]" ?h] sa(1) by (simp add: toy_two_def)
  moreover have "flood_step ?h ?st {''a'', ''b''} ?N1 (Deliver ''a'' ''b'' [31, 7]) \<lparr>fnodes = (fnodes ?N1)(''b'' := sb), flight = []\<rparr>"
    using flood_step.deliver [of ?N1 "[]" "''a''" "''b''" "[31, 7]" "[]" ?h sb "[]" ?st "{''a'', ''b''}"] sb(1) by (simp add: toy_two_def)
  ultimately show ?thesis using sa sb by (intro exI conjI) (assumption, assumption, simp_all)
qed

theorem broadcast_reaches_everyone_witness:
  "\<exists>ls N2. runs (flood_step (cluster_handle toy_cluster (\<lambda>v. mock_api 0)) (cluster_start toy_cluster (\<lambda>v. mock_api 0)) {''a'', ''b''}) toy_two ls N2 \<and>
     flight N2 = [] \<and> has_seen (fnodes N2 ''b'') ''me-''"
proof -
  let ?step = "flood_step (cluster_handle toy_cluster (\<lambda>v. mock_api 0)) (cluster_start toy_cluster (\<lambda>v. mock_api 0)) {''a'', ''b''}"
  obtain N1 N2 where f: "?step toy_two (Originate ''a'' [31, 7]) N1" "?step N1 (Deliver ''a'' ''b'' [31, 7]) N2" "flight N2 = []"
    "\<forall>v \<in> {''a'', ''b''}. sends_ok (snd (snd (fnodes N2 v)))" "has_seen (fnodes N2 ''a'') ''me-''" "cn_members (fst (fnodes N2 ''a'')) ''b'' \<noteq> None"
    using toy_flood by blast
  have run: "runs ?step toy_two [Originate ''a'' [31, 7], Deliver ''a'' ''b'' [31, 7]] N2"
    using runs_cons [of ?step, OF f(1) runs_cons [of ?step, OF f(2) runs.runs_nil]] .
  have "(''a'', ''b'') \<in> {(x, y). x \<in> {''a'', ''b''} \<and> cn_members (fst (fnodes N2 x)) y \<noteq> None}\<^sup>*" using f(6) by auto
  then show ?thesis using broadcast_reaches_everyone [OF toy_two_fresh run f(3,4) _ f(5)] run f(3) by blast
qed

theorem broadcast_dies_out_witness:
  "\<exists>N1. flood_step (cluster_handle toy_cluster (\<lambda>v. mock_api 0)) (cluster_start toy_cluster (\<lambda>v. mock_api 0)) {''a'', ''b''} toy_two (Originate ''a'' [31, 7]) N1 \<and>
     (\<exists>ls N2. runs (flood_step (cluster_handle toy_cluster (\<lambda>v. mock_api 0)) (cluster_start toy_cluster (\<lambda>v. mock_api 0)) {''a'', ''b''}) N1 ls N2 \<and> flight N2 = [])"
proof -
  obtain N1 where "flood_step (cluster_handle toy_cluster (\<lambda>v. mock_api 0)) (cluster_start toy_cluster (\<lambda>v. mock_api 0)) {''a'', ''b''} toy_two (Originate ''a'' [31, 7]) N1"
    using toy_flood by blast
  then show ?thesis using broadcast_dies_out [OF toy_two_fresh] by blast
qed

theorem null_gossip_panics_witness: "cluster_on_message toy_cluster (mock_api 0) 0 [] (cluster_im ''a'' 0 [30, 1]) (NewClusterNode [] [], toy_mock) = None"
  using null_gossip_panics [of toy_cluster "[1]" "\<lparr>gm_Sender = [], gm_KnownPeers = [None]\<rparr>" "mock_api 0" 0 "[]" "''a''" 0 "(NewClusterNode [] [], toy_mock)"]
  by (simp add: toy_cluster_def cluster_msg_types)

end
