(* ===== verification/Blockchain.thy ===== *)
theory Blockchain
  imports AppHandshake Subscriptions Flooding
begin

text \<open>
  The blockchain example (\<^verbatim>\<open>src/examples/blockberry-integration/main.go\<close>): a handshake that checks the genesis block and the chain before the streams are prepared, peers with their
  heights, proposals, and transactions that every node forwards once. JSON, identifiers and addresses are the parameter \<open>cd\<close>; a panic is \<open>None\<close>; \<open>ord\<close> is the order
  in which Go ranges over a map. The goroutine that forwards a transaction is \<open>regossip\<close>.
\<close>

section \<open>State\<close>

definition msgHelloRequest :: byte where "msgHelloRequest = 1"

definition msgHelloResponse :: byte where "msgHelloResponse = 2"

definition msgHelloFinalize :: byte where "msgHelloFinalize = 3"

lemmas hello_types = msgHelloRequest_def msgHelloResponse_def msgHelloFinalize_def

definition streamConsensus :: string where "streamConsensus = ''consensus''"

definition streamMempool :: string where "streamMempool = ''mempool''"

definition streamSync :: string where "streamSync = ''sync''"

definition protocolVersion :: "32 word" where "protocolVersion = 1"

text \<open>A missing public key is nil, \<open>None\<close>.\<close>

record HelloMessage =
  hm_Version :: "32 word"
  hm_GenesisHash :: string
  hm_ChainID :: string
  hm_NodeID :: string
  hm_Height :: "64 word"
  hm_PublicKey :: "bytes option"

record ConsensusMessage =
  cm_Type :: string
  cm_Height :: "64 word"
  cm_Round :: "32 word"
  cm_BlockHash :: string
  cm_Signature :: bytes
  cm_Sender :: string

record Transaction =
  tx_Hash :: string
  tx_Data :: bytes
  tx_Timestamp :: int

record SyncRequest =
  sy_FromHeight :: "64 word"
  sy_ToHeight :: "64 word"

record PeerState =
  pst_NodeID :: string
  pst_Height :: "64 word"
  pst_IsOutbound :: bool
  pst_Score :: int
  pst_LastSeen :: time_ns

record handshakeProgress =
  hp_gotHello :: bool
  hp_sentHello :: bool
  hp_peerInfo :: "HelloMessage option"
  hp_peerPubKey :: "bytes option"

definition new_progress :: handshakeProgress where
  "new_progress = \<lparr>hp_gotHello = False, hp_sentHello = False, hp_peerInfo = None, hp_peerPubKey = None\<rparr>"

record BlockchainNode =
  bn_chainID :: string
  bn_genesis :: string
  bn_publicKey :: bytes
  bn_height :: "64 word"
  bn_peers :: "peer_id \<rightharpoonup> PeerState"
  bn_handshakes :: "peer_id \<rightharpoonup> handshakeProgress"
  bn_mempool :: "string \<rightharpoonup> Transaction"

record 'ma chain_codec =
  enc_hello :: "HelloMessage \<Rightarrow> bytes"
  dec_hello :: "bytes \<Rightarrow> HelloMessage option"
  enc_consensus :: "ConsensusMessage \<Rightarrow> bytes"
  dec_consensus :: "bytes \<Rightarrow> ConsensusMessage option"
  enc_tx :: "Transaction \<Rightarrow> bytes"
  dec_tx :: "bytes \<Rightarrow> Transaction option"
  dec_sync :: "bytes \<Rightarrow> SyncRequest option"
  cc_String :: "peer_id \<Rightarrow> string"
  cc_parse :: "string \<Rightarrow> string + peer_id \<times> 'ma list"
  cc_uint :: "64 word \<Rightarrow> string"

definition NewBlockchainNode :: "string \<Rightarrow> string \<Rightarrow> bytes \<Rightarrow> BlockchainNode" where
  "NewBlockchainNode chainID genesis pub =
     \<lparr>bn_chainID = chainID, bn_genesis = genesis, bn_publicKey = pub, bn_height = 1, bn_peers = Map.empty, bn_handshakes = Map.empty, bn_mempool = Map.empty\<rparr>"

definition Height :: "BlockchainNode \<Rightarrow> 64 word" where
  "Height b = bn_height b"

definition SetHeight :: "64 word \<Rightarrow> BlockchainNode \<Rightarrow> BlockchainNode" where
  "SetHeight h b = b\<lparr>bn_height := h\<rparr>"

text \<open>\<^verbatim>\<open>Peers\<close> copies the map.\<close>

definition Peers :: "BlockchainNode \<Rightarrow> peer_id \<rightharpoonup> PeerState" where
  "Peers b = bn_peers b"

definition peer_ids :: "peer_id list \<Rightarrow> BlockchainNode \<Rightarrow> peer_id list" where
  "peer_ids ord b = filter (\<lambda>p. bn_peers b p \<noteq> None) ord"

section \<open>Handshake\<close>

definition own_hello :: "'ma chain_codec \<Rightarrow> peer_id \<Rightarrow> BlockchainNode \<Rightarrow> HelloMessage" where
  "own_hello cd self b =
     \<lparr>hm_Version = protocolVersion, hm_GenesisHash = bn_genesis b, hm_ChainID = bn_chainID b, hm_NodeID = take 8 (cc_String cd self), hm_Height = Height b,
      hm_PublicKey = Some (bn_publicKey b)\<rparr>"

definition mark_sent :: "peer_id \<Rightarrow> BlockchainNode \<Rightarrow> BlockchainNode" where
  "mark_sent p b =
     (case bn_handshakes b p of
        None \<Rightarrow> b
      | Some pr \<Rightarrow> b\<lparr>bn_handshakes := (bn_handshakes b)(p \<mapsto> pr\<lparr>hp_sentHello := True\<rparr>)\<rparr>)"

definition sendHelloRequest :: "'ma chain_codec \<Rightarrow> ('n, 'e, 'ma) node_api \<Rightarrow> peer_id \<Rightarrow> BlockchainNode \<times> 'n \<Rightarrow> 'e option \<times> BlockchainNode \<times> 'n" where
  "sendHelloRequest cd api p w =
     (case ap_Send api p HandshakeStreamName (msgHelloRequest # enc_hello cd (own_hello cd (ap_PeerID api) (fst w))) (snd w) of
        (r, n) \<Rightarrow> (r, mark_sent p (fst w), n))"

definition sendHelloResponse :: "'ma chain_codec \<Rightarrow> ('n, 'e, 'ma) node_api \<Rightarrow> peer_id \<Rightarrow> BlockchainNode \<times> 'n \<Rightarrow> 'e option \<times> BlockchainNode \<times> 'n" where
  "sendHelloResponse cd api p w =
     (case ap_Send api p HandshakeStreamName (msgHelloResponse # enc_hello cd (own_hello cd (ap_PeerID api) (fst w))) (snd w) of
        (r, n) \<Rightarrow> (r, mark_sent p (fst w), n))"

definition sendHelloFinalize :: "('n, 'e, 'ma) node_api \<Rightarrow> peer_id \<Rightarrow> 'n \<Rightarrow> 'e option \<times> 'n" where
  "sendHelloFinalize api p n = ap_Send api p HandshakeStreamName [msgHelloFinalize] n"

datatype 'e bc_err = BadAddress string | BConnect 'e | BHello 'e

definition bc_Connect :: "'ma chain_codec \<Rightarrow> ('n, 'e, 'ma) node_api \<Rightarrow> string \<Rightarrow> BlockchainNode \<times> 'n \<Rightarrow> 'e bc_err option \<times> BlockchainNode \<times> 'n" where
  "bc_Connect cd api addrStr w =
     (case cc_parse cd addrStr of
        Inl e \<Rightarrow> (Some (BadAddress e), w)
      | Inr (p, addrs) \<Rightarrow>
          (let b = (fst w)\<lparr>bn_handshakes := (bn_handshakes (fst w))(p \<mapsto> new_progress)\<rparr>; n1 = snd (ap_AddPeer api p addrs None (snd w)) in
           case ap_Connect api p n1 of
             (Some e, n2) \<Rightarrow> (Some (BConnect e), b, n2)
           | (None, n2) \<Rightarrow>
               (case sendHelloRequest cd api p (b, n2) of
                  (Some e, w') \<Rightarrow> (Some (BHello e), w')
                | (None, w') \<Rightarrow> (None, w'))))"

definition chain_streams :: "string list" where
  "chain_streams = [streamConsensus, streamMempool, streamSync]"

text \<open>A nil key is an empty slice for the node.\<close>

definition key_bytes :: "bytes option \<Rightarrow> bytes" where
  "key_bytes k = (case k of None \<Rightarrow> [] | Some b \<Rightarrow> b)"

definition put_progress :: "peer_id \<Rightarrow> handshakeProgress \<Rightarrow> BlockchainNode \<Rightarrow> BlockchainNode" where
  "put_progress p pr b = b\<lparr>bn_handshakes := (bn_handshakes b)(p \<mapsto> pr)\<rparr>"

definition got_hello :: "HelloMessage \<Rightarrow> handshakeProgress \<Rightarrow> handshakeProgress" where
  "got_hello hello pr = pr\<lparr>hp_gotHello := True, hp_peerInfo := Some hello, hp_peerPubKey := hm_PublicKey hello\<rparr>"

text \<open>The three cases of the switch.\<close>

definition on_request :: "'ma chain_codec \<Rightarrow> ('n, 'e, 'ma) node_api \<Rightarrow> peer_id \<Rightarrow> handshakeProgress \<Rightarrow> bytes \<Rightarrow> BlockchainNode \<times> 'n \<Rightarrow> BlockchainNode \<times> 'n" where
  "on_request cd api p pr body w =
     (case dec_hello cd body of
        None \<Rightarrow> w
      | Some hello \<Rightarrow>
          if hm_GenesisHash hello \<noteq> bn_genesis (fst w) then (fst w, snd (ap_Disconnect api p (snd w)))
          else if hm_ChainID hello \<noteq> bn_chainID (fst w) then (fst w, snd (ap_Disconnect api p (snd w)))
          else snd (sendHelloResponse cd api p (put_progress p (got_hello hello pr) (fst w), snd w)))"

definition on_response :: "'ma chain_codec \<Rightarrow> ('n, 'e, 'ma) node_api \<Rightarrow> peer_id \<Rightarrow> handshakeProgress \<Rightarrow> bytes \<Rightarrow> BlockchainNode \<times> 'n \<Rightarrow> BlockchainNode \<times> 'n" where
  "on_response cd api p pr body w =
     (case dec_hello cd body of
        None \<Rightarrow> w
      | Some hello \<Rightarrow>
          if hm_GenesisHash hello \<noteq> bn_genesis (fst w) \<or> hm_ChainID hello \<noteq> bn_chainID (fst w) then (fst w, snd (ap_Disconnect api p (snd w)))
          else (let b = put_progress p (got_hello hello pr) (fst w) in
                case ap_PrepareStreams api p (key_bytes (hm_PublicKey hello)) chain_streams (snd w) of
                  (Some e, n) \<Rightarrow> (b, n)
                | (None, n) \<Rightarrow> (b, snd (sendHelloFinalize api p n))))"

text \<open>The end of the finalize case: the peer is added, which reads through \<^verbatim>\<open>progress.peerInfo\<close>.\<close>

definition finish_handshake :: "('n, 'e, 'ma) node_api \<Rightarrow> time_ns \<Rightarrow> peer_id \<Rightarrow> handshakeProgress \<Rightarrow> BlockchainNode \<times> 'n \<Rightarrow> (BlockchainNode \<times> 'n) option" where
  "finish_handshake api now p pr w =
     (case ap_FinalizeHandshake api p (snd w) of
        (Some e, n) \<Rightarrow> Some (fst w, n)
      | (None, n) \<Rightarrow>
          (case hp_peerInfo pr of
             None \<Rightarrow> None
           | Some info \<Rightarrow>
               (let isOutbound = (case ap_IsOutbound api p n of Inl e \<Rightarrow> False | Inr o' \<Rightarrow> o')
                in Some ((fst w)\<lparr>bn_peers := (bn_peers (fst w))(p \<mapsto> \<lparr>pst_NodeID = hm_NodeID info, pst_Height = hm_Height info, pst_IsOutbound = isOutbound,
                                    pst_Score = 100, pst_LastSeen = now\<rparr>),
                                  bn_handshakes := (bn_handshakes (fst w))(p := None)\<rparr>, n))))"

definition on_finalize :: "('n, 'e, 'ma) node_api \<Rightarrow> time_ns \<Rightarrow> peer_id \<Rightarrow> handshakeProgress \<Rightarrow> BlockchainNode \<times> 'n \<Rightarrow> (BlockchainNode \<times> 'n) option" where
  "on_finalize api now p pr w =
     (if \<not> hp_gotHello pr then Some w
      else if hp_sentHello pr \<and> hp_peerPubKey pr \<noteq> None then
        (case ap_PrepareStreams api p (key_bytes (hp_peerPubKey pr)) chain_streams (snd w) of
           (Some e, n) \<Rightarrow> Some (fst w, n)
         | (None, n) \<Rightarrow> finish_handshake api now p pr (fst w, snd (sendHelloFinalize api p n)))
      else finish_handshake api now p pr w)"

definition handleHandshakeMessage :: "'ma chain_codec \<Rightarrow> ('n, 'e, 'ma) node_api \<Rightarrow> time_ns \<Rightarrow> IncomingMessage \<Rightarrow> BlockchainNode \<times> 'n \<Rightarrow> (BlockchainNode \<times> 'n) option" where
  "handleHandshakeMessage cd api now msg w =
     (case im_Data msg of
        [] \<Rightarrow> Some w
      | t # body \<Rightarrow>
          let p = im_PeerID msg; pr = (case bn_handshakes (fst w) p of None \<Rightarrow> new_progress | Some pr \<Rightarrow> pr); w1 = (put_progress p pr (fst w), snd w) in
          if t = msgHelloRequest then Some (on_request cd api p pr body w1)
          else if t = msgHelloResponse then Some (on_response cd api p pr body w1)
          else if t = msgHelloFinalize then on_finalize api now p pr w1
          else Some w1)"

section \<open>Consensus, mempool and sync\<close>

definition touch_peer :: "time_ns \<Rightarrow> peer_id \<Rightarrow> BlockchainNode \<Rightarrow> BlockchainNode" where
  "touch_peer now p b =
     (case bn_peers b p of None \<Rightarrow> b | Some st \<Rightarrow> b\<lparr>bn_peers := (bn_peers b)(p \<mapsto> st\<lparr>pst_LastSeen := now\<rparr>)\<rparr>)"

definition handleConsensusMessage :: "'ma chain_codec \<Rightarrow> time_ns \<Rightarrow> IncomingMessage \<Rightarrow> BlockchainNode \<Rightarrow> BlockchainNode" where
  "handleConsensusMessage cd now msg b =
     (if length (im_Data msg) < 2 then b
      else case dec_consensus cd (tl (im_Data msg)) of None \<Rightarrow> b | Some c \<Rightarrow> touch_peer now (im_PeerID msg) b)"

text \<open>
  The flag says that the forwarding goroutine is started. The print of the first eight characters of the hash panics when it is shorter.
\<close>

definition handleMempoolMessage :: "'ma chain_codec \<Rightarrow> IncomingMessage \<Rightarrow> BlockchainNode \<Rightarrow> (bool \<times> BlockchainNode) option" where
  "handleMempoolMessage cd msg b =
     (if length (im_Data msg) < 2 then Some (False, b)
      else case dec_tx cd (tl (im_Data msg)) of
        None \<Rightarrow> Some (False, b)
      | Some tx \<Rightarrow>
          if bn_mempool b (tx_Hash tx) \<noteq> None then Some (False, b)
          else if length (tx_Hash tx) < 8 then None
          else Some (True, b\<lparr>bn_mempool := (bn_mempool b)(tx_Hash tx \<mapsto> tx)\<rparr>))"

definition regossip :: "('n, 'e, 'ma) node_api \<Rightarrow> peer_id list \<Rightarrow> IncomingMessage \<Rightarrow> BlockchainNode \<Rightarrow> 'n \<Rightarrow> 'n" where
  "regossip api ord msg b n = send_to_all api (filter (\<lambda>p. p \<noteq> im_PeerID msg) (peer_ids ord b)) streamMempool (im_Data msg) n"

text \<open>A sync request is only printed.\<close>

definition handleSyncMessage :: "'ma chain_codec \<Rightarrow> IncomingMessage \<Rightarrow> BlockchainNode \<Rightarrow> BlockchainNode" where
  "handleSyncMessage cd msg b = b"

definition bc_on_message :: "'ma chain_codec \<Rightarrow> ('n, 'e, 'ma) node_api \<Rightarrow> time_ns \<Rightarrow> IncomingMessage \<Rightarrow> BlockchainNode \<times> 'n \<Rightarrow> (bool \<times> BlockchainNode \<times> 'n) option" where
  "bc_on_message cd api now msg w =
     (if im_StreamName msg = HandshakeStreamName then map_option (Pair False) (handleHandshakeMessage cd api now msg w)
      else if im_StreamName msg = streamConsensus then Some (False, handleConsensusMessage cd now msg (fst w), snd w)
      else if im_StreamName msg = streamMempool then map_option (\<lambda>(g, b). (g, b, snd w)) (handleMempoolMessage cd msg (fst w))
      else if im_StreamName msg = streamSync then Some (False, handleSyncMessage cd msg (fst w), snd w)
      else Some (False, w))"

definition bc_on_event :: "peer_id \<Rightarrow> PublicState \<Rightarrow> BlockchainNode \<Rightarrow> BlockchainNode" where
  "bc_on_event p st b =
     (if st = PubDisconnected then b\<lparr>bn_peers := (bn_peers b)(p := None), bn_handshakes := (bn_handshakes b)(p := None)\<rparr> else b)"

definition tx_msg :: "'ma chain_codec \<Rightarrow> Transaction \<Rightarrow> bytes" where
  "tx_msg cd tx = 1 # enc_tx cd tx"

definition BroadcastTransaction :: "'ma chain_codec \<Rightarrow> ('n, 'e, 'ma) node_api \<Rightarrow> peer_id list \<Rightarrow> Transaction \<Rightarrow> BlockchainNode \<times> 'n \<Rightarrow> BlockchainNode \<times> 'n" where
  "BroadcastTransaction cd api ord tx w =
     (let b = (fst w)\<lparr>bn_mempool := (bn_mempool (fst w))(tx_Hash tx \<mapsto> tx)\<rparr>
      in (b, send_to_all api (peer_ids ord b) streamMempool (tx_msg cd tx) (snd w)))"

definition ProposeBlock :: "'ma chain_codec \<Rightarrow> ('n, 'e, 'ma) node_api \<Rightarrow> peer_id list \<Rightarrow> BlockchainNode \<times> 'n \<Rightarrow> BlockchainNode \<times> 'n" where
  "ProposeBlock cd api ord w =
     (let b = fst w; h = Height b;
          msg = \<lparr>cm_Type = ''proposal'', cm_Height = h + 1, cm_Round = 0, cm_BlockHash = ''block-'' @ cc_uint cd (h + 1), cm_Signature = [],
                 cm_Sender = take 8 (cc_String cd (ap_PeerID api))\<rparr>
      in (b, send_to_all api (peer_ids ord b) streamConsensus (1 # enc_consensus cd msg) (snd w)))"

section \<open>Who becomes a peer\<close>

text \<open>A hello of the right chain that the peer has sent as a request or a response.\<close>

definition hello_received :: "'ma chain_codec \<Rightarrow> string \<Rightarrow> string \<Rightarrow> IncomingMessage set \<Rightarrow> peer_id \<Rightarrow> HelloMessage \<Rightarrow> bool" where
  "hello_received cd gen ch msgs p hello \<longleftrightarrow> hm_GenesisHash hello = gen \<and> hm_ChainID hello = ch \<and>
     (\<exists>m \<in> msgs. im_PeerID m = p \<and> (\<exists>t body. im_Data m = t # body \<and> (t = msgHelloRequest \<or> t = msgHelloResponse) \<and> dec_hello cd body = Some hello))"

definition progress_ok :: "'ma chain_codec \<Rightarrow> string \<Rightarrow> string \<Rightarrow> IncomingMessage set \<Rightarrow> peer_id \<Rightarrow> handshakeProgress \<Rightarrow> bool" where
  "progress_ok cd gen ch msgs p pr \<longleftrightarrow> (hp_gotHello pr \<longrightarrow> (\<exists>hello. hp_peerInfo pr = Some hello \<and> hello_received cd gen ch msgs p hello))"

definition chain_inv :: "'ma chain_codec \<Rightarrow> string \<Rightarrow> string \<Rightarrow> IncomingMessage set \<Rightarrow> BlockchainNode \<Rightarrow> bool" where
  "chain_inv cd gen ch msgs b \<longleftrightarrow> bn_genesis b = gen \<and> bn_chainID b = ch \<and>
     (\<forall>p pr. bn_handshakes b p = Some pr \<longrightarrow> progress_ok cd gen ch msgs p pr) \<and>
     (\<forall>p st. bn_peers b p = Some st \<longrightarrow> (\<exists>hello. hello_received cd gen ch msgs p hello \<and> pst_NodeID st = hm_NodeID hello \<and> pst_Height st = hm_Height hello))"

lemma hello_received_mono: "hello_received cd gen ch msgs p hello \<Longrightarrow> msgs \<subseteq> msgs' \<Longrightarrow> hello_received cd gen ch msgs' p hello"
  unfolding hello_received_def by blast

lemma chain_inv_mono: "chain_inv cd gen ch msgs b \<Longrightarrow> msgs \<subseteq> msgs' \<Longrightarrow> chain_inv cd gen ch msgs' b"
  unfolding chain_inv_def progress_ok_def by (meson hello_received_mono)

lemma progress_ok_simps [simp]:
  "progress_ok cd gen ch msgs p new_progress"
  "progress_ok cd gen ch msgs p (pr\<lparr>hp_sentHello := x\<rparr>) = progress_ok cd gen ch msgs p pr"
  "progress_ok cd gen ch msgs p (got_hello hello pr) = hello_received cd gen ch msgs p hello"
  by (simp_all add: progress_ok_def new_progress_def got_hello_def)

lemma chain_inv_put: "chain_inv cd gen ch msgs b \<Longrightarrow> progress_ok cd gen ch msgs p pr \<Longrightarrow> chain_inv cd gen ch msgs (put_progress p pr b)"
  by (simp add: chain_inv_def put_progress_def)

lemma chain_inv_sent: "chain_inv cd gen ch msgs b \<Longrightarrow> chain_inv cd gen ch msgs (mark_sent p b)"
  by (auto simp: chain_inv_def mark_sent_def split: option.splits)

lemma chain_inv_request:
  assumes "chain_inv cd gen ch msgs (fst w)" and "\<And>hello. dec_hello cd body = Some hello \<Longrightarrow> hm_GenesisHash hello = gen \<Longrightarrow> hm_ChainID hello = ch \<Longrightarrow> hello_received cd gen ch msgs p hello"
  shows "chain_inv cd gen ch msgs (fst (on_request cd api p pr body w))"
  using assms
  by (auto simp: on_request_def sendHelloResponse_def chain_inv_def [of _ _ _ _ "fst w"] intro!: chain_inv_sent chain_inv_put split: option.splits prod.splits)

lemma chain_inv_response:
  assumes "chain_inv cd gen ch msgs (fst w)" and "\<And>hello. dec_hello cd body = Some hello \<Longrightarrow> hm_GenesisHash hello = gen \<Longrightarrow> hm_ChainID hello = ch \<Longrightarrow> hello_received cd gen ch msgs p hello"
  shows "chain_inv cd gen ch msgs (fst (on_response cd api p pr body w))"
proof -
  have "chain_inv cd gen ch msgs (put_progress p (got_hello hello pr) (fst w))"
    if "dec_hello cd body = Some hello" "hm_GenesisHash hello = bn_genesis (fst w)" "hm_ChainID hello = bn_chainID (fst w)" for hello
    using assms that by (intro chain_inv_put) (simp_all add: chain_inv_def)
  then show ?thesis using assms(1) by (simp add: on_response_def Let_def split: option.splits prod.splits)
qed

lemma chain_inv_finish:
  assumes "chain_inv cd gen ch msgs (fst w)" and "progress_ok cd gen ch msgs p pr" and "hp_gotHello pr"
  shows "\<exists>w'. finish_handshake api now p pr w = Some w' \<and> chain_inv cd gen ch msgs (fst w')"
proof -
  obtain hello where "hp_peerInfo pr = Some hello" "hello_received cd gen ch msgs p hello" using assms(2,3) by (auto simp: progress_ok_def)
  then show ?thesis using assms(1) by (auto simp: finish_handshake_def chain_inv_def split: prod.splits option.splits)
qed

lemma chain_inv_finalize:
  assumes "chain_inv cd gen ch msgs (fst w)" and "progress_ok cd gen ch msgs p pr"
  shows "\<exists>w'. on_finalize api now p pr w = Some w' \<and> chain_inv cd gen ch msgs (fst w')"
proof (cases "hp_gotHello pr")
  case True
  then show ?thesis
    using assms chain_inv_finish [OF assms True, of api now] chain_inv_finish [OF _ assms(2) True, of "(fst w, n)" api now for n]
    by (simp add: on_finalize_def split: prod.splits option.splits del: split_paired_Ex)
qed (use assms(1) in \<open>simp add: on_finalize_def del: split_paired_Ex\<close>)

lemma chain_inv_handshake:
  assumes "chain_inv cd gen ch msgs (fst w)" and "msg \<in> msgs"
  shows "\<exists>w'. handleHandshakeMessage cd api now msg w = Some w' \<and> chain_inv cd gen ch msgs (fst w')"
proof (cases "im_Data msg")
  case (Cons t body)
  define p pr where "p = im_PeerID msg" and "pr = (case bn_handshakes (fst w) p of None \<Rightarrow> new_progress | Some pr \<Rightarrow> pr)"
  have pr: "progress_ok cd gen ch msgs p pr" using assms(1) by (auto simp: pr_def chain_inv_def split: option.splits)
  then have inv: "chain_inv cd gen ch msgs (fst (put_progress p pr (fst w), snd w))" using chain_inv_put [OF assms(1)] by simp
  have "hello_received cd gen ch msgs p hello"
    if "t = msgHelloRequest \<or> t = msgHelloResponse" "dec_hello cd body = Some hello" "hm_GenesisHash hello = gen" "hm_ChainID hello = ch" for hello
    using that assms(2) Cons unfolding hello_received_def p_def by blast
  then show ?thesis
    using chain_inv_request [OF inv, of body p api pr] chain_inv_response [OF inv, of body p api pr] chain_inv_finalize [OF inv pr, of api now] inv
    by (simp add: handleHandshakeMessage_def Cons Let_def p_def [symmetric] pr_def [symmetric] del: split_paired_Ex)
qed (use assms in \<open>simp add: handleHandshakeMessage_def\<close>)

text \<open>What the goroutines of the application do, one at a time; \<open>BRecv\<close> is a message of the channel, the other calls and events are \<open>BOther\<close>.\<close>

datatype bc_label = BRecv IncomingMessage | BOther

inductive bc_step :: "'ma chain_codec \<Rightarrow> ('n, 'e, 'ma) node_api \<Rightarrow> BlockchainNode \<times> 'n \<Rightarrow> bc_label \<Rightarrow> BlockchainNode \<times> 'n \<Rightarrow> bool" for cd api where
  bs_recv: "bc_on_message cd api now msg w = Some (g, w') \<Longrightarrow> bc_step cd api w (BRecv msg) w'"
| bs_connect: "bc_Connect cd api a w = (r, w') \<Longrightarrow> bc_step cd api w BOther w'"
| bs_event: "bc_step cd api (b, n) BOther (bc_on_event p st b, n)"
| bs_tx: "bc_step cd api w BOther (BroadcastTransaction cd api ord tx w)"
| bs_propose: "bc_step cd api w BOther (ProposeBlock cd api ord w)"
| bs_regossip: "bc_step cd api (b, n) BOther (b, regossip api ord msg b n)"
| bs_height: "bc_step cd api (b, n) BOther (SetHeight h b, n)"
| bs_node: "bc_step cd api (b, n) BOther (b, n')"

definition received :: "bc_label list \<Rightarrow> IncomingMessage set" where
  "received ls = {m. BRecv m \<in> set ls}"

lemma chain_inv_message:
  assumes "chain_inv cd gen ch msgs (fst w)" and "bc_on_message cd api now msg w = Some (g, w')" and "msg \<in> msgs"
  shows "chain_inv cd gen ch msgs (fst w')"
proof (cases "im_StreamName msg = HandshakeStreamName")
  case True
  then show ?thesis using chain_inv_handshake [OF assms(1,3), of api now] assms(2) by (auto simp: bc_on_message_def)
next
  case False
  then show ?thesis using assms(1,2)
    by (auto simp: bc_on_message_def handleConsensusMessage_def handleMempoolMessage_def handleSyncMessage_def touch_peer_def chain_inv_def split: if_splits option.splits)
qed

lemma chain_inv_connect:
  assumes "chain_inv cd gen ch msgs (fst w)" and "bc_Connect cd api a w = (r, w')"
  shows "chain_inv cd gen ch msgs (fst w')"
proof -
  have "chain_inv cd gen ch msgs ((fst w)\<lparr>bn_handshakes := (bn_handshakes (fst w))(p \<mapsto> new_progress)\<rparr>)" for p
    using chain_inv_put [OF assms(1), of p new_progress] by (simp add: put_progress_def)
  then show ?thesis using assms
    by (auto simp: bc_Connect_def Let_def sendHelloRequest_def intro!: chain_inv_sent split: sum.splits prod.splits option.splits)
qed

lemma chain_inv_step:
  "bc_step cd api w l w' \<Longrightarrow> chain_inv cd gen ch (received ls) (fst w) \<Longrightarrow> chain_inv cd gen ch (received (ls @ [l])) (fst w')"
proof (induction rule: bc_step.induct)
  case (bs_recv now msg w g w')
  have "chain_inv cd gen ch (received (ls @ [BRecv msg])) (fst w)"
    using bs_recv.prems by (rule chain_inv_mono) (auto simp: received_def)
  then show ?case using chain_inv_message bs_recv.hyps by (fastforce simp: received_def)
next
  case (bs_connect a w r w')
  then show ?case using chain_inv_connect by (simp add: received_def)
qed (auto simp: received_def chain_inv_def bc_on_event_def BroadcastTransaction_def ProposeBlock_def SetHeight_def Let_def)

lemma chain_inv_runs:
  assumes "runs (bc_step cd api) (NewBlockchainNode ch gen pub, n) ls w"
  shows "chain_inv cd gen ch (received ls) (fst w)"
proof -
  have "runs (bc_step cd api) w0 ls w \<Longrightarrow> chain_inv cd gen ch (received []) (fst w0) \<Longrightarrow> chain_inv cd gen ch (received ls) (fst w)" for w0
    by (induction rule: runs.induct) (auto intro: chain_inv_step)
  then show ?thesis using assms by (simp add: chain_inv_def NewBlockchainNode_def)
qed

section \<open>Transactions flood the network\<close>

type_synonym 'n chain_state = "BlockchainNode \<times> 'n \<times> api_call list"

definition bc_iteration :: "peer_id list \<Rightarrow> BlockchainNode \<Rightarrow> bool" where
  "bc_iteration ord b \<longleftrightarrow> distinct ord \<and> set ord = dom (bn_peers b)"

definition mempool_im :: "peer_id \<Rightarrow> time_ns \<Rightarrow> bytes \<Rightarrow> IncomingMessage" where
  "mempool_im u ts d = \<lparr>im_PeerID = u, im_StreamName = streamMempool, im_Data = d, im_Timestamp = ts\<rparr>"

text \<open>A node gets a message of the mempool stream, and the goroutine it starts, if any, runs.\<close>

definition tx_handle :: "'ma chain_codec \<Rightarrow> (peer_id \<Rightarrow> ('n, 'e, 'ma) node_api) \<Rightarrow> peer_id \<Rightarrow> peer_id \<Rightarrow> bytes \<Rightarrow>
    'n chain_state \<Rightarrow> 'n chain_state \<Rightarrow> (peer_id \<times> bytes) list \<Rightarrow> bool" where
  "tx_handle cd apis v u d s s' out \<longleftrightarrow>
     (\<exists>ord now ts g b n. bc_iteration ord (fst s) \<and> bc_on_message cd (traced (apis v)) now (mempool_im u ts d) s = Some (g, b, n) \<and>
        s' = (b, if g then regossip (traced (apis v)) ord (mempool_im u ts d) b n else n) \<and>
        out = new_sends streamMempool (snd (snd s)) (snd (snd s')))"

definition tx_start :: "'ma chain_codec \<Rightarrow> (peer_id \<Rightarrow> ('n, 'e, 'ma) node_api) \<Rightarrow> peer_id \<Rightarrow> bytes \<Rightarrow>
    'n chain_state \<Rightarrow> 'n chain_state \<Rightarrow> (peer_id \<times> bytes) list \<Rightarrow> bool" where
  "tx_start cd apis v d s s' out \<longleftrightarrow>
     (\<exists>ord tx. bc_iteration ord (fst s) \<and> BroadcastTransaction cd (traced (apis v)) ord tx s = s' \<and> d = tx_msg cd tx \<and>
        dec_tx cd (enc_tx cd tx) = Some tx \<and> enc_tx cd tx \<noteq> [] \<and> 8 \<le> length (tx_Hash tx) \<and>
        out = new_sends streamMempool (snd (snd s)) (snd (snd s')))"

definition tx_valid :: "'ma chain_codec \<Rightarrow> bytes \<Rightarrow> bool" where
  "tx_valid cd d \<longleftrightarrow> 2 \<le> length d \<and> (\<exists>tx. dec_tx cd (tl d) = Some tx \<and> 8 \<le> length (tx_Hash tx))"

definition tx_key :: "'ma chain_codec \<Rightarrow> bytes \<Rightarrow> string" where
  "tx_key cd d = tx_Hash (the (dec_tx cd (tl d)))"

definition in_mempool :: "'n chain_state \<Rightarrow> string \<Rightarrow> bool" where
  "in_mempool s h \<longleftrightarrow> bn_mempool (fst s) h \<noteq> None"

lemma tx_validE:
  assumes "tx_valid cd d"
  obtains tx where "tx_key cd d = tx_Hash tx" "dec_tx cd (tl d) = Some tx" "2 \<le> length d" "8 \<le> length (tx_Hash tx)"
  using assms by (auto simp: tx_valid_def tx_key_def)

lemma on_tx:
  assumes "dec_tx cd (tl d) = Some tx" and "2 \<le> length d" and "8 \<le> length (tx_Hash tx)"
  shows "bc_on_message cd api now (mempool_im u ts d) s =
     (if in_mempool s (tx_Hash tx) then Some (False, s) else Some (True, (fst s)\<lparr>bn_mempool := (bn_mempool (fst s))(tx_Hash tx \<mapsto> tx)\<rparr>, snd s))"
  using assms
  by (simp add: bc_on_message_def mempool_im_def streamMempool_def streamConsensus_def HandshakeStreamName_def handleMempoolMessage_def in_mempool_def)

lemma peer_ids_iteration: "bc_iteration ord b \<Longrightarrow> bn_peers b' = bn_peers b \<Longrightarrow> peer_ids ord b' = ord"
  by (auto simp: bc_iteration_def peer_ids_def intro!: filter_True)

interpretation txflood: forwards_once "tx_handle cd (apis :: peer_id \<Rightarrow> ('n, 'e, 'ma) node_api)" "tx_start cd apis" "tx_valid cd" "tx_key cd" in_mempool
    "\<lambda>s. dom (bn_peers (fst s))" "\<lambda>s. sends_ok (snd (snd s))"
proof
  fix m :: bytes and s s' and v u and out
  assume v: "tx_valid cd m" and seen: "in_mempool s (tx_key cd m)" and h: "tx_handle cd apis v u m s s' out"
  obtain tx where tx: "tx_key cd m = tx_Hash tx" "dec_tx cd (tl m) = Some tx" "2 \<le> length m" "8 \<le> length (tx_Hash tx)" using v by (rule tx_validE)
  have "bc_on_message cd (traced (apis v)) now (mempool_im u ts m) s = Some (False, s)" for now ts
    using seen by (simp add: on_tx [OF tx(2-4)] tx(1))
  then show "s' = s \<and> out = []" using h by (auto simp: tx_handle_def)
next
  fix m :: bytes and s s' and v u and out
  assume v: "tx_valid cd m" and seen: "\<not> in_mempool s (tx_key cd m)" and h: "tx_handle cd apis v u m s s' out"
  then obtain ord now ts g b n where h': "bc_iteration ord (fst s)" "bc_on_message cd (traced (apis v)) now (mempool_im u ts m) s = Some (g, b, n)"
    "s' = (b, if g then regossip (traced (apis v)) ord (mempool_im u ts m) b n else n)" "out = new_sends streamMempool (snd (snd s)) (snd (snd s'))"
    by (auto simp: tx_handle_def)
  obtain tx where t: "tx_key cd m = tx_Hash tx" "dec_tx cd (tl m) = Some tx" "2 \<le> length m" "8 \<le> length (tx_Hash tx)" using v by (rule tx_validE)
  have tx: "tx_key cd m = tx_Hash tx" "g" "b = (fst s)\<lparr>bn_mempool := (bn_mempool (fst s))(tx_Hash tx \<mapsto> tx)\<rparr>" "n = snd s"
    using h'(2) seen by (simp_all add: on_tx [OF t(2-4)] t(1))
  have s': "s' = (b, send_to_all (traced (apis v)) (filter (\<lambda>p. p \<noteq> u) ord) streamMempool m (snd s))"
    using h'(3) tx peer_ids_iteration [OF h'(1), of b] by (simp add: regossip_def mempool_im_def)
  obtain qs where qs: "subseq qs (filter (\<lambda>p. p \<noteq> u) ord)" "out = map (\<lambda>p. (p, m)) qs"
    "sends_ok (snd (snd s')) \<longrightarrow> qs = filter (\<lambda>p. p \<noteq> u) ord \<and> sends_ok (snd (snd s))"
    using send_to_all_sends [of "filter (\<lambda>p. p \<noteq> u) ord" streamMempool "snd s" "apis v" m] s' h'(4) by auto
  have "distinct qs" "set qs \<subseteq> dom (bn_peers (fst s))"
    using h'(1) subseq_distinct [OF qs(1)] subseq_set [OF qs(1)] by (auto simp: bc_iteration_def)
  then show "(\<forall>k. in_mempool s' k \<longleftrightarrow> in_mempool s k \<or> k = tx_key cd m) \<and> dom (bn_peers (fst s')) = dom (bn_peers (fst s)) \<and>
      (sends_ok (snd (snd s')) \<longrightarrow> sends_ok (snd (snd s))) \<and>
      (\<exists>ps. out = map (\<lambda>p. (p, m)) ps \<and> distinct ps \<and> set ps \<subseteq> dom (bn_peers (fst s)) \<and>
        (sends_ok (snd (snd s')) \<longrightarrow> dom (bn_peers (fst s)) - {u} \<subseteq> set ps))"
    using qs s' h'(1) tx(1,3) by (intro conjI exI [of _ qs]) (auto simp: in_mempool_def bc_iteration_def)
next
  fix m :: bytes and s s' and v and out
  assume h: "tx_start cd apis v m s s' out"
  then obtain ord tx where h': "bc_iteration ord (fst s)" "BroadcastTransaction cd (traced (apis v)) ord tx s = s'" "m = tx_msg cd tx"
    "dec_tx cd (enc_tx cd tx) = Some tx" "enc_tx cd tx \<noteq> []" "8 \<le> length (tx_Hash tx)" "out = new_sends streamMempool (snd (snd s)) (snd (snd s'))"
    by (auto simp: tx_start_def)
  have k: "tx_key cd m = tx_Hash tx" and v: "tx_valid cd m"
    using h'(3-6) by (auto simp: tx_key_def tx_valid_def tx_msg_def Suc_le_eq)
  have s': "s' = ((fst s)\<lparr>bn_mempool := (bn_mempool (fst s))(tx_Hash tx \<mapsto> tx)\<rparr>, send_to_all (traced (apis v)) ord streamMempool m (snd s))"
    using h'(2,3) peer_ids_iteration [OF h'(1)] by (simp add: BroadcastTransaction_def Let_def)
  obtain qs where qs: "subseq qs ord" "out = map (\<lambda>p. (p, m)) qs" "sends_ok (snd (snd s')) \<longrightarrow> qs = ord \<and> sends_ok (snd (snd s))"
    using send_to_all_sends [of ord streamMempool "snd s" "apis v" m] s' h'(7) by auto
  have "distinct qs" "set qs \<subseteq> dom (bn_peers (fst s))"
    using h'(1) subseq_distinct [OF qs(1)] subseq_set [OF qs(1)] by (auto simp: bc_iteration_def)
  then show "tx_valid cd m \<and> (\<forall>k. in_mempool s' k \<longleftrightarrow> in_mempool s k \<or> k = tx_key cd m) \<and> dom (bn_peers (fst s')) = dom (bn_peers (fst s)) \<and>
      (sends_ok (snd (snd s')) \<longrightarrow> sends_ok (snd (snd s))) \<and>
      (\<exists>ps. out = map (\<lambda>p. (p, m)) ps \<and> distinct ps \<and> set ps \<subseteq> dom (bn_peers (fst s)) \<and>
        (sends_ok (snd (snd s')) \<longrightarrow> dom (bn_peers (fst s)) \<subseteq> set ps))"
    using qs s' h'(1) v k by (intro conjI exI [of _ qs]) (auto simp: in_mempool_def bc_iteration_def)
next
  fix m :: bytes and s :: "'n chain_state" and v u
  assume val: "tx_valid cd m" and "finite (dom (bn_peers (fst s)))"
  then obtain ord where "bc_iteration ord (fst s)" using finite_distinct_list unfolding bc_iteration_def by metis
  moreover have "\<exists>g b n. bc_on_message cd (traced (apis v)) 0 (mempool_im u 0 m) s = Some (g, b, n)"
    using val by (rule tx_validE) (cases "in_mempool s (tx_key cd m)"; cases s; simp add: on_tx; blast)
  ultimately show "\<exists>s' out. tx_handle cd apis v u m s s' out" unfolding tx_handle_def by blast
qed

section \<open>A handshake between two nodes\<close>

text \<open>A node none of whose calls fails.\<close>

definition no_failure :: "('n, 'e, 'ma) node_api \<Rightarrow> bool" where
  "no_failure api \<longleftrightarrow> (\<forall>p s d n. fst (ap_Send api p s d n) = None) \<and> (\<forall>p n. fst (ap_Connect api p n) = None) \<and>
     (\<forall>p k ss n. fst (ap_PrepareStreams api p k ss n) = None) \<and> (\<forall>p n. fst (ap_FinalizeHandshake api p n) = None)"

lemma noting_ok: "fst (f (fst nt)) = None \<Longrightarrow> noting c f nt = (None, snd (f (fst nt)), snd nt @ [c True])"
  by (auto simp: noting_def split: prod.splits)

lemma traced_ok:
  assumes "no_failure api"
  shows "\<exists>n'. ap_Send (traced api) p s d nt = (None, n', snd nt @ [ASend p s d True])"
    "\<exists>n'. ap_Connect (traced api) p nt = (None, n', snd nt @ [AConnect p True])"
    "\<exists>n'. ap_PrepareStreams (traced api) p k ss nt = (None, n', snd nt @ [APrepare p k ss True])"
    "\<exists>n'. ap_FinalizeHandshake (traced api) p nt = (None, n', snd nt @ [AFinalize p True])"
  using assms by (simp_all add: no_failure_def noting_ok)

definition hs_im :: "peer_id \<Rightarrow> bytes \<Rightarrow> IncomingMessage" where
  "hs_im p d = \<lparr>im_PeerID = p, im_StreamName = HandshakeStreamName, im_Data = d, im_Timestamp = 0\<rparr>"

lemma connect_sends:
  assumes "no_failure api" and "cc_parse cd addr = Inr (p, addrs)"
  shows "\<exists>n' tr'. bc_Connect cd (traced api) addr (a, n, []) = (None, put_progress p (new_progress\<lparr>hp_sentHello := True\<rparr>) a, n', tr') \<and>
     sent_calls tr' = [(p, HandshakeStreamName, msgHelloRequest # enc_hello cd (own_hello cd (ap_PeerID api) a))]"
proof -
  let ?a = "a\<lparr>bn_handshakes := (bn_handshakes a)(p \<mapsto> new_progress)\<rparr>"
  obtain n1 t1 where 1: "snd (ap_AddPeer (traced api) p addrs None (n, [])) = (n1, t1)" "sent_calls t1 = []"
    by (cases "ap_AddPeer api p addrs None n") (simp add: noting_def)
  obtain n2 where 2: "ap_Connect (traced api) p (n1, t1) = (None, n2, t1 @ [AConnect p True])" using traced_ok(2) [OF assms(1), of p "(n1, t1)"] by auto
  obtain n3 where 3: "ap_Send (traced api) p HandshakeStreamName (msgHelloRequest # enc_hello cd (own_hello cd (ap_PeerID api) a)) (n2, t1 @ [AConnect p True]) =
      (None, n3, (t1 @ [AConnect p True]) @ [ASend p HandshakeStreamName (msgHelloRequest # enc_hello cd (own_hello cd (ap_PeerID api) a)) True])"
    using traced_ok(1) [OF assms(1), of p HandshakeStreamName _ "(n2, t1 @ [AConnect p True])"] by fastforce
  have "own_hello cd (ap_PeerID api) ?a = own_hello cd (ap_PeerID api) a" by (simp add: own_hello_def Height_def)
  moreover have "mark_sent p ?a = put_progress p (new_progress\<lparr>hp_sentHello := True\<rparr>) a" by (simp add: mark_sent_def put_progress_def)
  ultimately show ?thesis using assms(2) 1 2 3 by (simp add: bc_Connect_def Let_def sendHelloRequest_def del: traced_calls(1-8))
qed

lemma request_answered:
  assumes "no_failure api" and "bn_handshakes b p = None" and "dec_hello cd body = Some h" and "hm_GenesisHash h = bn_genesis b" and "hm_ChainID h = bn_chainID b"
  shows "\<exists>n'. handleHandshakeMessage cd (traced api) now (hs_im p (msgHelloRequest # body)) (b, n, tr) =
     Some (put_progress p ((got_hello h new_progress)\<lparr>hp_sentHello := True\<rparr>) b, n',
       tr @ [ASend p HandshakeStreamName (msgHelloResponse # enc_hello cd (own_hello cd (ap_PeerID api) b)) True])"
proof -
  obtain n1 where 1: "ap_Send (traced api) p HandshakeStreamName (msgHelloResponse # enc_hello cd (own_hello cd (ap_PeerID api) b)) (n, tr) =
      (None, n1, tr @ [ASend p HandshakeStreamName (msgHelloResponse # enc_hello cd (own_hello cd (ap_PeerID api) b)) True])"
    using traced_ok(1) [OF assms(1), of p HandshakeStreamName _ "(n, tr)"] by fastforce
  have "own_hello cd (ap_PeerID api) (put_progress p pr b') = own_hello cd (ap_PeerID api) b'" for pr b' by (simp add: own_hello_def Height_def put_progress_def)
  then show ?thesis using assms(2-5) 1
    by (simp add: handleHandshakeMessage_def hs_im_def Let_def on_request_def sendHelloResponse_def mark_sent_def put_progress_def del: traced_calls(1-8))
qed

lemma response_finalizes:
  assumes "no_failure api" and "bn_handshakes a p = Some pr" and "dec_hello cd body = Some h" and "hm_GenesisHash h = bn_genesis a" and "hm_ChainID h = bn_chainID a"
  shows "\<exists>n'. handleHandshakeMessage cd (traced api) now (hs_im p (msgHelloResponse # body)) (a, n, tr) =
     Some (put_progress p (got_hello h pr) a, n',
       tr @ [APrepare p (key_bytes (hm_PublicKey h)) chain_streams True, ASend p HandshakeStreamName [msgHelloFinalize] True])"
proof -
  obtain n1 where 1: "ap_PrepareStreams (traced api) p (key_bytes (hm_PublicKey h)) chain_streams (n, tr) = (None, n1, tr @ [APrepare p (key_bytes (hm_PublicKey h)) chain_streams True])"
    using traced_ok(3) [OF assms(1), of p _ _ "(n, tr)"] by fastforce
  obtain n2 where 2: "ap_Send (traced api) p HandshakeStreamName [msgHelloFinalize] (n1, tr @ [APrepare p (key_bytes (hm_PublicKey h)) chain_streams True]) =
      (None, n2, (tr @ [APrepare p (key_bytes (hm_PublicKey h)) chain_streams True]) @ [ASend p HandshakeStreamName [msgHelloFinalize] True])"
    using traced_ok(1) [OF assms(1), of p HandshakeStreamName _ "(n1, tr @ [APrepare p (key_bytes (hm_PublicKey h)) chain_streams True])"] by fastforce
  show ?thesis using assms(2-5) 1 2
    by (simp add: handleHandshakeMessage_def hs_im_def Let_def hello_types on_response_def sendHelloFinalize_def put_progress_def del: traced_calls(1-8))
qed

lemma finalize_adds_peer:
  assumes "no_failure api" and "bn_handshakes a p = Some pr" and "hp_gotHello pr" and "hp_sentHello pr" and "hp_peerPubKey pr = Some k" and "hp_peerInfo pr = Some h"
  shows "\<exists>a' n'. handleHandshakeMessage cd (traced api) now (hs_im p [msgHelloFinalize]) (a, n, tr) =
     Some (a', n', tr @ [APrepare p k chain_streams True, ASend p HandshakeStreamName [msgHelloFinalize] True, AFinalize p True]) \<and>
     (\<exists>st. bn_peers a' = (bn_peers a)(p \<mapsto> st) \<and> pst_NodeID st = hm_NodeID h \<and> pst_Height st = hm_Height h) \<and> bn_handshakes a' = (bn_handshakes a)(p := None)"
proof -
  let ?t1 = "tr @ [APrepare p k chain_streams True]"
  obtain n1 where 1: "ap_PrepareStreams (traced api) p k chain_streams (n, tr) = (None, n1, ?t1)" using traced_ok(3) [OF assms(1), of p _ _ "(n, tr)"] by fastforce
  obtain n2 where 2: "ap_Send (traced api) p HandshakeStreamName [msgHelloFinalize] (n1, ?t1) = (None, n2, ?t1 @ [ASend p HandshakeStreamName [msgHelloFinalize] True])"
    using traced_ok(1) [OF assms(1), of p HandshakeStreamName _ "(n1, ?t1)"] by fastforce
  obtain n3 where 3: "ap_FinalizeHandshake (traced api) p (n2, ?t1 @ [ASend p HandshakeStreamName [msgHelloFinalize] True]) =
      (None, n3, (?t1 @ [ASend p HandshakeStreamName [msgHelloFinalize] True]) @ [AFinalize p True])"
    using traced_ok(4) [OF assms(1), of p "(n2, ?t1 @ [ASend p HandshakeStreamName [msgHelloFinalize] True])"] by fastforce
  show ?thesis using assms(2-6) 1 2 3
    by (simp add: handleHandshakeMessage_def hs_im_def Let_def hello_types on_finalize_def finish_handshake_def sendHelloFinalize_def put_progress_def key_bytes_def
        del: traced_calls(1-7)) (rule exI, rule conjI [OF refl], simp)
qed

lemma finalize_ignored:
  "bn_handshakes b p = None \<Longrightarrow> handleHandshakeMessage cd api now (hs_im p [msgHelloFinalize]) (b, n) = Some (put_progress p new_progress b, n)"
  by (simp add: handleHandshakeMessage_def hs_im_def Let_def hello_types on_finalize_def new_progress_def put_progress_def)

section \<open>Properties\<close>

text \<open>
  Property C29: Only nodes of the same chain become peers: in every run of the application, whatever messages arrive and whatever the node's calls return, a peer in the peer table has sent
  a hello with this node's genesis hash and chain identifier, and the table holds the node identifier and height of that hello.
\<close>

theorem peers_share_the_chain:
  assumes "runs (bc_step cd api) (NewBlockchainNode ch gen pub, n) ls (b, n')" and "bn_peers b p = Some st"
  shows "\<exists>msg t body hello. BRecv msg \<in> set ls \<and> im_PeerID msg = p \<and> im_Data msg = t # body \<and> dec_hello cd body = Some hello \<and>
     hm_GenesisHash hello = gen \<and> hm_ChainID hello = ch \<and> pst_NodeID st = hm_NodeID hello \<and> pst_Height st = hm_Height hello"
proof -
  obtain hello where "hello_received cd gen ch (received ls) p hello" "pst_NodeID st = hm_NodeID hello" "pst_Height st = hm_Height hello"
    using chain_inv_runs [OF assms(1)] assms(2) by (fastforce simp: chain_inv_def)
  then show ?thesis unfolding hello_received_def received_def by blast
qed

text \<open>
  What crashes the application: in every reachable state, a message panics a handler exactly when it is a transaction that is not in the mempool yet and whose hash has fewer than eight
  characters. The handshake never reads through a missing peer information.
\<close>

theorem handler_panics_iff:
  assumes "runs (bc_step cd api) (NewBlockchainNode ch gen pub, n) ls w"
  shows "bc_on_message cd api now msg w = None \<longleftrightarrow>
     im_StreamName msg = streamMempool \<and> 2 \<le> length (im_Data msg) \<and>
     (\<exists>tx. dec_tx cd (tl (im_Data msg)) = Some tx \<and> bn_mempool (fst w) (tx_Hash tx) = None \<and> length (tx_Hash tx) < 8)"
proof (cases "im_StreamName msg = HandshakeStreamName")
  case True
  have "chain_inv cd gen ch (insert msg (received ls)) (fst w)" using chain_inv_runs [OF assms] by (rule chain_inv_mono) blast
  from chain_inv_handshake [OF this, of msg api now] show ?thesis
    using True by (auto simp: bc_on_message_def streamMempool_def HandshakeStreamName_def)
next
  case False
  then show ?thesis
    by (auto simp: bc_on_message_def handleMempoolMessage_def streamMempool_def streamConsensus_def split: option.splits)
qed

text \<open>
  Property C30: The handshake of two nodes of one chain: when no call of their nodes fails, the initiator's request, the response and three finalize messages are all that is sent; when they have been handled
  both have the other as a peer with the identifier and height it announced, and no message is left in flight. The responder keeps an empty progress record.
\<close>

theorem chain_handshake_completes:
  assumes "no_failure apiA" and "no_failure apiB" and "ap_PeerID apiA = pA" and "ap_PeerID apiB = pB" and "cc_parse cd addr = Inr (pB, addrs)"
    and "bn_genesis a = bn_genesis b" and "bn_chainID a = bn_chainID b" and "bn_handshakes b pA = None"
    and "dec_hello cd (enc_hello cd (own_hello cd pA a)) = Some (own_hello cd pA a)" and "dec_hello cd (enc_hello cd (own_hello cd pB b)) = Some (own_hello cd pB b)"
  shows "\<exists>a1 a2 a3 b1 b2 b3 stA stB.
     bc_Connect cd (traced apiA) addr (a, nA, []) = (None, a1) \<and>
     handleHandshakeMessage cd (traced apiB) now (hs_im pA (msgHelloRequest # enc_hello cd (own_hello cd pA a))) (b, nB, []) = Some b1 \<and>
     handleHandshakeMessage cd (traced apiA) now (hs_im pB (msgHelloResponse # enc_hello cd (own_hello cd pB b))) a1 = Some a2 \<and>
     handleHandshakeMessage cd (traced apiB) now (hs_im pA [msgHelloFinalize]) b1 = Some b2 \<and>
     handleHandshakeMessage cd (traced apiA) now (hs_im pB [msgHelloFinalize]) a2 = Some a3 \<and>
     handleHandshakeMessage cd (traced apiB) now (hs_im pA [msgHelloFinalize]) b2 = Some b3 \<and>
     sent_calls (snd (snd a3)) = [(pB, HandshakeStreamName, msgHelloRequest # enc_hello cd (own_hello cd pA a)), (pB, HandshakeStreamName, [msgHelloFinalize]),
       (pB, HandshakeStreamName, [msgHelloFinalize])] \<and>
     sent_calls (snd (snd b3)) = [(pA, HandshakeStreamName, msgHelloResponse # enc_hello cd (own_hello cd pB b)), (pA, HandshakeStreamName, [msgHelloFinalize])] \<and>
     bn_peers (fst a3) pB = Some stB \<and> pst_NodeID stB = take 8 (cc_String cd pB) \<and> pst_Height stB = bn_height b \<and>
     bn_peers (fst b3) pA = Some stA \<and> pst_NodeID stA = take 8 (cc_String cd pA) \<and> pst_Height stA = bn_height a \<and>
     bn_handshakes (fst a3) pB = None \<and> bn_handshakes (fst b3) pA = Some new_progress"
proof -
  let ?hA = "own_hello cd pA a" and ?hB = "own_hello cd pB b"
  obtain nA1 tA1 where A1: "bc_Connect cd (traced apiA) addr (a, nA, []) = (None, put_progress pB (new_progress\<lparr>hp_sentHello := True\<rparr>) a, nA1, tA1)"
      "sent_calls tA1 = [(pB, HandshakeStreamName, msgHelloRequest # enc_hello cd ?hA)]"
    using connect_sends [OF assms(1,5), of a nA] assms(3) by auto
  let ?a1 = "put_progress pB (new_progress\<lparr>hp_sentHello := True\<rparr>) a"
  obtain nB1 where B1: "handleHandshakeMessage cd (traced apiB) now (hs_im pA (msgHelloRequest # enc_hello cd ?hA)) (b, nB, []) =
      Some (put_progress pA ((got_hello ?hA new_progress)\<lparr>hp_sentHello := True\<rparr>) b, nB1, [ASend pA HandshakeStreamName (msgHelloResponse # enc_hello cd ?hB) True])"
    using request_answered [OF assms(2,8,9), of now nB "[]"] assms(4,6,7) by (auto simp: own_hello_def)
  let ?b1 = "put_progress pA ((got_hello ?hA new_progress)\<lparr>hp_sentHello := True\<rparr>) b"
  obtain nA2 where A2: "handleHandshakeMessage cd (traced apiA) now (hs_im pB (msgHelloResponse # enc_hello cd ?hB)) (?a1, nA1, tA1) =
      Some (put_progress pB (got_hello ?hB (new_progress\<lparr>hp_sentHello := True\<rparr>)) ?a1, nA2,
        tA1 @ [APrepare pB (bn_publicKey b) chain_streams True, ASend pB HandshakeStreamName [msgHelloFinalize] True])"
    using response_finalizes [OF assms(1) _ assms(10), of ?a1 pB "new_progress\<lparr>hp_sentHello := True\<rparr>" now nA1 tA1] assms(6,7)
    by (auto simp: put_progress_def own_hello_def key_bytes_def)
  let ?a2 = "put_progress pB (got_hello ?hB (new_progress\<lparr>hp_sentHello := True\<rparr>)) ?a1"
  obtain b2 nB2 tB2 stA where B2: "handleHandshakeMessage cd (traced apiB) now (hs_im pA [msgHelloFinalize])
       (?b1, nB1, [ASend pA HandshakeStreamName (msgHelloResponse # enc_hello cd ?hB) True]) = Some (b2, nB2, tB2)"
      "sent_calls tB2 = [(pA, HandshakeStreamName, msgHelloResponse # enc_hello cd ?hB), (pA, HandshakeStreamName, [msgHelloFinalize])]"
      "bn_peers b2 pA = Some stA" "pst_NodeID stA = hm_NodeID ?hA" "pst_Height stA = hm_Height ?hA" "bn_handshakes b2 pA = None"
    using finalize_adds_peer [OF assms(2), of ?b1 pA "(got_hello ?hA new_progress)\<lparr>hp_sentHello := True\<rparr>" "bn_publicKey a" ?hA cd now nB1
        "[ASend pA HandshakeStreamName (msgHelloResponse # enc_hello cd ?hB) True]"]
    by (auto simp: put_progress_def got_hello_def own_hello_def)
  obtain a3 nA3 tA3 stB where A3: "handleHandshakeMessage cd (traced apiA) now (hs_im pB [msgHelloFinalize])
       (?a2, nA2, tA1 @ [APrepare pB (bn_publicKey b) chain_streams True, ASend pB HandshakeStreamName [msgHelloFinalize] True]) = Some (a3, nA3, tA3)"
      "sent_calls tA3 = [(pB, HandshakeStreamName, msgHelloRequest # enc_hello cd ?hA), (pB, HandshakeStreamName, [msgHelloFinalize]), (pB, HandshakeStreamName, [msgHelloFinalize])]"
      "bn_peers a3 pB = Some stB" "pst_NodeID stB = hm_NodeID ?hB" "pst_Height stB = hm_Height ?hB" "bn_handshakes a3 pB = None"
    using finalize_adds_peer [OF assms(1), of ?a2 pB "got_hello ?hB (new_progress\<lparr>hp_sentHello := True\<rparr>)" "bn_publicKey b" ?hB cd now nA2
        "tA1 @ [APrepare pB (bn_publicKey b) chain_streams True, ASend pB HandshakeStreamName [msgHelloFinalize] True]"] A1(2)
    by (auto simp: put_progress_def got_hello_def own_hello_def)
  note B3 = finalize_ignored [OF B2(6), of cd "traced apiB" now "(nB2, tB2)"]
  show ?thesis
    by (rule exI [of _ "(?a1, nA1, tA1)"],
        rule exI [of _ "(?a2, nA2, tA1 @ [APrepare pB (bn_publicKey b) chain_streams True, ASend pB HandshakeStreamName [msgHelloFinalize] True])"],
        rule exI [of _ "(a3, nA3, tA3)"], rule exI [of _ "(?b1, nB1, [ASend pA HandshakeStreamName (msgHelloResponse # enc_hello cd ?hB) True])"],
        rule exI [of _ "(b2, nB2, tB2)"], rule exI [of _ "(put_progress pA new_progress b2, nB2, tB2)"], rule exI [of _ stA], rule exI [of _ stB], intro conjI;
        (rule A1 B1 A2 B2 A3 B3 | simp add: A3(2-6) B2(2-6) own_hello_def Height_def put_progress_def))
qed

text \<open>The nodes before any transaction: peers are among the nodes, the mempools are empty, nothing is in flight.\<close>

definition fresh_chain :: "peer_id set \<Rightarrow> ('n chain_state, bytes) flood_net \<Rightarrow> bool" where
  "fresh_chain V N \<longleftrightarrow> flight N = [] \<and> (\<forall>v \<in> V. dom (bn_peers (fst (fnodes N v))) \<subseteq> V \<and> bn_mempool (fst (fnodes N v)) = Map.empty)"

text \<open>
  Transactions reach every mempool: in any run of a network of nodes that broadcast transactions and forward those they receive, once nothing is in flight and no send has failed, a
  transaction in one node's mempool is in the mempool of every node that can be reached from it over the peers.
\<close>

theorem transactions_reach_everyone:
  assumes "fresh_chain V N" and "runs (flood_step (tx_handle cd apis) (tx_start cd apis) V) N ls N'" and "flight N' = []"
    and "\<forall>v \<in> V. sends_ok (snd (snd (fnodes N' v)))" and "u \<in> V" and "bn_mempool (fst (fnodes N' u)) h \<noteq> None"
    and "(u, v) \<in> {(a, b). a \<in> V \<and> bn_peers (fst (fnodes N' a)) b \<noteq> None}\<^sup>*"
  shows "bn_mempool (fst (fnodes N' v)) h \<noteq> None"
proof -
  have inv: "flood_inv_of (tx_valid cd) (tx_key cd) in_mempool (\<lambda>s. dom (bn_peers (fst s))) (\<lambda>s. sends_ok (snd (snd s))) V N"
    using assms(1) by (simp add: fresh_chain_def flood_inv_of_def closed_net_of_def passed_on_of_def in_mempool_def)
  have "{(a, b). a \<in> V \<and> bn_peers (fst (fnodes N' a)) b \<noteq> None} = {(a, b). a \<in> V \<and> b \<in> dom (bn_peers (fst (fnodes N' a)))}" by auto
  then show ?thesis
    using txflood.quiet_means_reached [OF txflood.flood_inv_runs [OF assms(2) inv] assms(3,4,5), of h v] assms(6,7) by (simp add: in_mempool_def)
qed

section \<open>Witnesses\<close>

definition calm_api :: "peer_id \<Rightarrow> (unit, unit, string) node_api" where
  "calm_api p =
     \<lparr>ap_PeerID = p, ap_Addrs = (\<lambda>n. []), ap_PeerAddrs = (\<lambda>p n. []), ap_Send = (\<lambda>p s d n. (None, n)), ap_AddPeer = (\<lambda>p as md n. (None, n)),
      ap_Connect = (\<lambda>p n. (None, n)), ap_Disconnect = (\<lambda>p n. (None, n)), ap_PrepareStreams = (\<lambda>p k ss n. (None, n)),
      ap_FinalizeHandshake = (\<lambda>p n. (None, n)), ap_CompleteHandshake = (\<lambda>p k ss n. (None, n)), ap_IsOutbound = (\<lambda>p n. Inr True)\<rparr>"

lemma calm_no_failure: "no_failure (calm_api p)"
  by (simp add: no_failure_def calm_api_def)

definition toy_chain :: "string chain_codec" where
  "toy_chain =
     \<lparr>enc_hello = (\<lambda>h. str_bytes (hm_NodeID h)),
      dec_hello = (\<lambda>d. Some \<lparr>hm_Version = 1, hm_GenesisHash = ''g'', hm_ChainID = ''c'', hm_NodeID = bytes_str d, hm_Height = 1, hm_PublicKey = Some []\<rparr>),
      enc_consensus = (\<lambda>c. []), dec_consensus = (\<lambda>d. None), enc_tx = (\<lambda>t. [5]),
      dec_tx = (\<lambda>d. if d = [5] then Some \<lparr>tx_Hash = ''12345678'', tx_Data = [], tx_Timestamp = 0\<rparr> else Some \<lparr>tx_Hash = ''123'', tx_Data = [], tx_Timestamp = 0\<rparr>),
      dec_sync = (\<lambda>d. None), cc_String = id, cc_parse = (\<lambda>s. Inr (s, [])), cc_uint = (\<lambda>n. [])\<rparr>"

abbreviation toy_node0 :: BlockchainNode where
  "toy_node0 \<equiv> NewBlockchainNode ''c'' ''g'' []"

lemma toy_hello: "dec_hello toy_chain (enc_hello toy_chain (own_hello toy_chain p toy_node0)) = Some (own_hello toy_chain p toy_node0)"
  by (simp add: toy_chain_def own_hello_def NewBlockchainNode_def Height_def protocolVersion_def)

theorem chain_handshake_completes_witness:
  "\<exists>a1 a2 a3. bc_Connect toy_chain (traced (calm_api ''A'')) ''B'' (toy_node0, (), []) = (None, a1) \<and>
     handleHandshakeMessage toy_chain (traced (calm_api ''A'')) 0 (hs_im ''B'' (msgHelloResponse # enc_hello toy_chain (own_hello toy_chain ''B'' toy_node0))) a1 = Some a2 \<and>
     handleHandshakeMessage toy_chain (traced (calm_api ''A'')) 0 (hs_im ''B'' [msgHelloFinalize]) a2 = Some a3 \<and> bn_peers (fst a3) ''B'' \<noteq> None"
proof -
  have "cc_parse toy_chain ''B'' = Inr (''B'', [])" "bn_handshakes toy_node0 ''A'' = None" "ap_PeerID (calm_api ''A'') = ''A''" "ap_PeerID (calm_api ''B'') = ''B''"
    by (simp_all add: toy_chain_def NewBlockchainNode_def calm_api_def)
  from chain_handshake_completes [OF calm_no_failure calm_no_failure this(3,4,1) refl refl this(2) toy_hello toy_hello, of "()" 0 "()"]
  show ?thesis by blast
qed

lemma toy_chain_run:
  "\<exists>b. runs (bc_step toy_chain (calm_api ''B'')) (toy_node0, ()) [BRecv (hs_im ''A'' [1, 65]), BRecv (hs_im ''A'' [3])] (b, ()) \<and> bn_peers b ''A'' \<noteq> None"
proof -
  let ?step = "bc_step toy_chain (calm_api ''B'')"
  obtain b1 where 1: "bc_on_message toy_chain (calm_api ''B'') 0 (hs_im ''A'' [1, 65]) (toy_node0, ()) = Some (False, b1, ())"
      "bn_handshakes b1 ''A'' = Some \<lparr>hp_gotHello = True, hp_sentHello = True, hp_peerInfo = Some \<lparr>hm_Version = 1, hm_GenesisHash = ''g'', hm_ChainID = ''c'',
         hm_NodeID = bytes_str [65], hm_Height = 1, hm_PublicKey = Some []\<rparr>, hp_peerPubKey = Some []\<rparr>"
    by (simp add: bc_on_message_def hs_im_def handleHandshakeMessage_def hello_types Let_def NewBlockchainNode_def on_request_def toy_chain_def sendHelloResponse_def
        calm_api_def mark_sent_def put_progress_def got_hello_def new_progress_def)
  obtain b2 where 2: "bc_on_message toy_chain (calm_api ''B'') 0 (hs_im ''A'' [3]) (b1, ()) = Some (False, b2, ())" "bn_peers b2 ''A'' \<noteq> None"
    by (simp add: bc_on_message_def hs_im_def handleHandshakeMessage_def hello_types Let_def 1(2) on_finalize_def finish_handshake_def calm_api_def sendHelloFinalize_def put_progress_def)
  have "runs ?step (toy_node0, ()) [BRecv (hs_im ''A'' [1, 65]), BRecv (hs_im ''A'' [3])] (b2, ())"
    using runs_cons [of ?step, OF bc_step.bs_recv [OF 1(1)] runs_cons [of ?step, OF bc_step.bs_recv [OF 2(1)] runs.runs_nil]] .
  then show ?thesis using 2(2) by blast
qed

theorem peers_share_the_chain_witness:
  "\<exists>ls b st. runs (bc_step toy_chain (calm_api ''B'')) (NewBlockchainNode ''c'' ''g'' [], ()) ls (b, ()) \<and> bn_peers b ''A'' = Some st \<and>
     (\<exists>msg. BRecv msg \<in> set ls \<and> im_PeerID msg = ''A'')"
proof -
  obtain ls b st where r: "runs (bc_step toy_chain (calm_api ''B'')) (NewBlockchainNode ''c'' ''g'' [], ()) ls (b, ())" "bn_peers b ''A'' = Some st"
    using toy_chain_run by blast
  show ?thesis using peers_share_the_chain [OF r] r by (intro exI [of _ ls] exI [of _ b] exI [of _ st]) blast
qed

theorem handler_panics_iff_witness:
  "bc_on_message toy_chain (calm_api ''B'') 0 (mempool_im ''A'' 0 [1, 9]) (NewBlockchainNode ''c'' ''g'' [], ()) = None"
  using handler_panics_iff [where w = "(NewBlockchainNode ''c'' ''g'' [], ())" and msg = "mempool_im ''A'' 0 [1, 9]" and now = 0, OF runs.runs_nil [of "bc_step toy_chain (calm_api ''B'')"]]
  by (simp add: mempool_im_def toy_chain_def NewBlockchainNode_def)

text \<open>Two nodes that have each other as peers.\<close>

definition toy_chain_peer :: "peer_id \<Rightarrow> unit chain_state" where
  "toy_chain_peer q = (toy_node0\<lparr>bn_peers := [q \<mapsto> \<lparr>pst_NodeID = q, pst_Height = 1, pst_IsOutbound = True, pst_Score = 100, pst_LastSeen = 0\<rparr>]\<rparr>, (), [])"

definition toy_chain_net :: "(unit chain_state, bytes) flood_net" where
  "toy_chain_net = \<lparr>fnodes = (\<lambda>v. if v = ''A'' then toy_chain_peer ''B'' else toy_chain_peer ''A''), flight = []\<rparr>"

lemma toy_tx_cast:
  "\<exists>s'. tx_start toy_chain calm_api ''A'' [1, 5] (toy_chain_peer ''B'') s' [(''B'', [1, 5])] \<and> sends_ok (snd (snd s')) \<and>
     bn_mempool (fst s') ''12345678'' \<noteq> None \<and> bn_peers (fst s') ''B'' \<noteq> None"
  unfolding tx_start_def
  by (rule exI, rule conjI, rule exI [of _ "[''B'']"], rule exI [of _ "\<lparr>tx_Hash = ''12345678'', tx_Data = [], tx_Timestamp = 0\<rparr>"], intro conjI,
      simp add: bc_iteration_def toy_chain_peer_def, rule refl)
    (simp_all add: toy_chain_peer_def BroadcastTransaction_def Let_def peer_ids_def send_to_all_def send_ignored_def noting_def calm_api_def tx_msg_def toy_chain_def
      new_sends_def sends_ok_def)

lemma toy_tx_hear:
  "\<exists>s'. tx_handle toy_chain calm_api ''B'' ''A'' [1, 5] (toy_chain_peer ''A'') s' [] \<and> sends_ok (snd (snd s'))"
proof -
  let ?b = "(fst (toy_chain_peer ''A''))\<lparr>bn_mempool := [''12345678'' \<mapsto> \<lparr>tx_Hash = ''12345678'', tx_Data = [], tx_Timestamp = 0\<rparr>]\<rparr>"
  have "bc_on_message toy_chain (traced (calm_api ''B'')) 0 (mempool_im ''A'' 0 [1, 5]) (toy_chain_peer ''A'') = Some (True, ?b, (), [])"
    by (simp add: bc_on_message_def mempool_im_def streamMempool_def streamConsensus_def HandshakeStreamName_def handleMempoolMessage_def toy_chain_def toy_chain_peer_def NewBlockchainNode_def)
  moreover have "bc_iteration [''A''] (fst (toy_chain_peer ''A''))" by (simp add: bc_iteration_def toy_chain_peer_def)
  moreover have "regossip (traced (calm_api ''B'')) [''A''] (mempool_im ''A'' 0 [1, 5]) ?b ((), []) = ((), [])"
    by (simp add: regossip_def mempool_im_def peer_ids_def toy_chain_peer_def send_to_all_def)
  ultimately have "tx_handle toy_chain calm_api ''B'' ''A'' [1, 5] (toy_chain_peer ''A'') (?b, (), []) []"
    unfolding tx_handle_def
    by (intro exI [of _ "[''A'']"] exI [of _ 0] exI [of _ True] exI [of _ ?b] exI [of _ "((), [])"]) (simp add: toy_chain_peer_def)
  then show ?thesis by (intro exI conjI) (assumption, simp add: sends_ok_def)
qed

theorem transactions_reach_everyone_witness:
  "\<exists>ls N2. runs (flood_step (tx_handle toy_chain calm_api) (tx_start toy_chain calm_api) {''A'', ''B''}) toy_chain_net ls N2 \<and>
     flight N2 = [] \<and> bn_mempool (fst (fnodes N2 ''B'')) ''12345678'' \<noteq> None"
proof -
  let ?h = "tx_handle toy_chain calm_api" and ?st = "tx_start toy_chain calm_api" and ?V = "{''A'', ''B''}"
  obtain sa where sa: "?st ''A'' [1, 5] (toy_chain_peer ''B'') sa [(''B'', [1, 5])]" "sends_ok (snd (snd sa))"
     "bn_mempool (fst sa) ''12345678'' \<noteq> None" "bn_peers (fst sa) ''B'' \<noteq> None" using toy_tx_cast by blast
  obtain sb where sb: "?h ''B'' ''A'' [1, 5] (toy_chain_peer ''A'') sb []" "sends_ok (snd (snd sb))" using toy_tx_hear by blast
  let ?N1 = "\<lparr>fnodes = (fnodes toy_chain_net)(''A'' := sa), flight = [(''A'', ''B'', [1, 5])]\<rparr>"
  let ?N2 = "\<lparr>fnodes = (fnodes toy_chain_net)(''A'' := sa, ''B'' := sb), flight = [] :: (peer_id \<times> peer_id \<times> bytes) list\<rparr>"
  have 1: "flood_step ?h ?st ?V toy_chain_net (Originate ''A'' [1, 5]) ?N1"
    using flood_step.originate [of "''A''" ?V ?st "[1, 5]" toy_chain_net sa "[(''B'', [1, 5])]" ?h] sa(1) by (simp add: toy_chain_net_def)
  have 2: "flood_step ?h ?st ?V ?N1 (Deliver ''A'' ''B'' [1, 5]) ?N2"
    using flood_step.deliver [of ?N1 "[]" "''A''" "''B''" "[1, 5]" "[]" ?h sb "[]" ?st ?V] sb(1) by (simp add: toy_chain_net_def)
  have run: "runs (flood_step ?h ?st ?V) toy_chain_net [Originate ''A'' [1, 5], Deliver ''A'' ''B'' [1, 5]] ?N2"
    using runs_cons [of "flood_step ?h ?st ?V", OF 1 runs_cons [of "flood_step ?h ?st ?V", OF 2 runs.runs_nil]] .
  have fresh: "fresh_chain ?V toy_chain_net" by (simp add: fresh_chain_def toy_chain_net_def toy_chain_peer_def NewBlockchainNode_def)
  have "(''A'', ''B'') \<in> {(x, y). x \<in> ?V \<and> bn_peers (fst (fnodes ?N2 x)) y \<noteq> None}\<^sup>*" using sa(4) by auto
  moreover have "\<forall>v \<in> ?V. sends_ok (snd (snd (fnodes ?N2 v)))" "bn_mempool (fst (fnodes ?N2 ''A'')) ''12345678'' \<noteq> None" using sa sb by simp_all
  ultimately have "bn_mempool (fst (fnodes ?N2 ''B'')) ''12345678'' \<noteq> None"
    using transactions_reach_everyone [OF fresh run, of "''A''" "''12345678''" "''B''"] by simp
  then show ?thesis using run by (intro exI [of _ ?N2] exI [of _ "[Originate ''A'' [1, 5], Deliver ''A'' ''B'' [1, 5]]"]) simp
qed

end
