(* ===== verification/Console.thy ===== *)
theory Console
  imports Prompt FileTransfer Rpc Cluster Blockchain
begin

text \<open>
  The programs \<^verbatim>\<open>file-transfer\<close>, \<^verbatim>\<open>rpc\<close>, \<^verbatim>\<open>cluster\<close> and \<^verbatim>\<open>blockberry-integration\<close> around their applications: how a line of the standard input becomes a
  command, what the command does, what connections and events lead to, and when the programs end. The loops are instances of the interface \<open>prompt\<close>.
\<close>

section \<open>File transfer\<close>

definition file_boot :: "(string \<Rightarrow> 'ma) \<Rightarrow> ('ma, 'txt) nenv \<Rightarrow> boot_in \<Rightarrow> 'txt filesys \<Rightarrow> 'l \<Rightarrow> 'm \<Rightarrow> int \<Rightarrow> bytes option \<Rightarrow>
    (boot_err, bytes \<times> goroutine list \<times> ('ma, 'txt, 'st, 'l, 'm, 'cb) node) result option" where
  "file_boot maddr env i fs l m port key = boot maddr env i fs l m ''./addressbook-transfer.json'' (listen_on port) key"

datatype file_cmd = FileQuit | FileSend peer_id string | FileBadPeer | FileUsage | FileUnknown

definition file_parse :: "(string \<Rightarrow> peer_id option) \<Rightarrow> string \<Rightarrow> file_cmd" where
  "file_parse decode line =
     (let ws = scan_words (rune_chunks line); com = word_at 0 ws; arg1 = word_at 1 ws; arg2 = word_at 2 ws in
      if com = ''quit'' \<or> com = ''exit'' then FileQuit
      else if com = ''send'' then
        (if arg1 = [] \<or> arg2 = [] then FileUsage
         else case decode arg1 of None \<Rightarrow> FileBadPeer | Some p \<Rightarrow> FileSend p arg2)
      else FileUnknown)"

text \<open>The goroutines that send a file, as peer and path, and what was printed.\<close>

record file_console =
  fc_sends :: "(peer_id \<times> string) list"
  fc_out :: "out list"

definition file_say :: "out \<Rightarrow> file_console \<Rightarrow> file_console" where
  "file_say o' c = c\<lparr>fc_out := fc_out c @ [o']\<rparr>"

definition file_round :: "(string \<Rightarrow> peer_id option) \<Rightarrow> string \<Rightarrow> file_console \<Rightarrow> file_console prompt_round" where
  "file_round decode line c =
     (case file_parse decode line of
        FileQuit \<Rightarrow> Return c
      | FileSend p path \<Rightarrow> Continue (c\<lparr>fc_sends := fc_sends c @ [(p, path)]\<rparr>)
      | FileBadPeer \<Rightarrow> Continue (file_say (OFail ''Invalid peer ID: '') c)
      | FileUsage \<Rightarrow> Continue (file_say (OText ''Usage: send <peer-id> <filepath>'') c)
      | FileUnknown \<Rightarrow> Continue (file_say (OText ''Unknown command'') c))"

text \<open>The event loop: with the flags \<^verbatim>\<open>-send\<close> and \<^verbatim>\<open>-peer\<close> the file goes to every peer whose connection is established.\<close>

definition file_on_event :: "(peer_id \<Rightarrow> string) \<Rightarrow> string \<Rightarrow> string \<Rightarrow> peer_id \<Rightarrow> PublicState \<Rightarrow> file_console \<Rightarrow> file_console" where
  "file_on_event short sendFile peerAddr p st c =
     (case st of
        PubConnected \<Rightarrow> file_say (OText (''Connected to '' @ short p)) c
      | PubEstablished \<Rightarrow>
          (let c1 = file_say (OText (''Secure connection ready with '' @ short p)) c
           in if sendFile \<noteq> [] \<and> peerAddr \<noteq> [] then c1\<lparr>fc_sends := fc_sends c1 @ [(p, sendFile)]\<rparr> else c1)
      | PubDisconnected \<Rightarrow> file_say (OText (''Disconnected from '' @ short p)) c
      | _ \<Rightarrow> c)"

text \<open>The goroutine that connects.\<close>

definition file_connect :: "(string \<Rightarrow> (addr_err, peer_id \<times> 'ma list) result) \<Rightarrow> bytes \<Rightarrow> ('n, 'e, 'ma) node_api \<Rightarrow> string \<Rightarrow>
    peerStates \<times> 'n \<Rightarrow> bool \<times> peerStates \<times> 'n" where
  "file_connect parse pub api peerAddr w =
     (case parse peerAddr of
        Inl e \<Rightarrow> (False, w)
      | Inr (p, addrs) \<Rightarrow> connectToPeer (file_params pub) False None api p addrs w)"

definition file_poll :: "bytes \<Rightarrow> ('n, 'e, 'ma) node_api \<Rightarrow> peer_id \<Rightarrow> peerStates \<times> 'n \<Rightarrow> bool \<times> peerStates \<times> 'n" where
  "file_poll pub api p w = poll_round (file_params pub) False False api p w"

text \<open>The end of \<^verbatim>\<open>main\<close>: with a file to send it waits for ever (\<open>None\<close>), otherwise it reads commands.\<close>

definition file_main_loop :: "(string \<Rightarrow> peer_id option) \<Rightarrow> string \<Rightarrow> string list \<Rightarrow> file_console \<Rightarrow> file_console prompt_round option" where
  "file_main_loop decode sendFile lines c = (if sendFile = [] then Some (prompt_loop (file_round decode) lines c) else None)"

interpretation files: prompt "file_round decode" "\<lambda>l. file_parse decode l = FileQuit" "\<lambda>c. c"
  by unfold_locales (auto simp: file_round_def split: file_cmd.splits)

section \<open>RPC\<close>

definition rpc_boot :: "(string \<Rightarrow> 'ma) \<Rightarrow> ('ma, 'txt) nenv \<Rightarrow> boot_in \<Rightarrow> 'txt filesys \<Rightarrow> 'l \<Rightarrow> 'm \<Rightarrow> int \<Rightarrow> bytes option \<Rightarrow>
    (boot_err, bytes \<times> goroutine list \<times> ('ma, 'txt, 'st, 'l, 'm, 'cb) node) result option" where
  "rpc_boot maddr env i fs l m port key = boot maddr env i fs l m ''./addressbook-rpc.json'' (listen_on port) key"

datatype rpc_arg = EchoParams string | AddParams int int

datatype rpc_cmd = RpcQuit | RpcNoPeer | RpcCall string "rpc_arg option" | RpcUnknown

text \<open>
  The first word selects the method; the parameters are scanned again from the start of the line, with a format that begins with the command.
\<close>

definition echo_word :: "string \<Rightarrow> string" where
  "echo_word line =
     (let msg = (case scan_literal ''echo'' (rune_chunks line) of None \<Rightarrow> [] | Some rest \<Rightarrow> word_at 0 (scan_words rest))
      in if msg = [] then ''hello'' else msg)"

definition rpc_parse :: "peer_id \<Rightarrow> string \<Rightarrow> rpc_cmd" where
  "rpc_parse target line =
     (let com = word_at 0 (scan_words (rune_chunks line)) in
      if com = ''quit'' \<or> com = ''exit'' then RpcQuit
      else if target = [] then RpcNoPeer
      else if com = ''echo'' then RpcCall ''echo'' (Some (EchoParams (echo_word line)))
      else if com = ''add'' then (case scan_two_ints ''add'' (rune_chunks line) of (a, b) \<Rightarrow> RpcCall ''add'' (Some (AddParams a b)))
      else if com = ''time'' then RpcCall ''getTime'' None
      else if com = ''peers'' then RpcCall ''getPeers'' None
      else RpcUnknown)"

text \<open>
  A line with what happens while its call waits: the messages that the message loop handles meanwhile, whether the ten seconds are over when the
  select runs, and which case it then picks. Without a response the deadline ends the call. \<open>val\<close> makes a value of the parameters.
\<close>

record rpc_line =
  rl_text :: string
  rl_meanwhile :: "IncomingMessage list"
  rl_late :: bool
  rl_pick :: bool

definition rpc_wait :: "bool \<Rightarrow> bool \<Rightarrow> 64 word \<Rightarrow> nat \<Rightarrow> RPCClient \<Rightarrow> (unit call_err, bytes) result \<times> RPCClient" where
  "rpc_wait late pick reqID respCh c =
     (case Call_end (if late then Some DeadlineExceeded else None) pick reqID respCh c of
        Some r \<Rightarrow> r
      | None \<Rightarrow> (Inl (CtxDone DeadlineExceeded), Call_cleanup reqID c))"

definition rpc_call :: "'v rpc_codec \<Rightarrow> (rpc_arg \<Rightarrow> 'v) \<Rightarrow> bytes \<Rightarrow> ('n, 'e, 'ma) node_api \<Rightarrow> 'v RPCServer \<Rightarrow> rpc_line \<Rightarrow> string \<Rightarrow> rpc_arg option \<Rightarrow>
    'n rpc_app \<Rightarrow> out \<times> 'n rpc_app" where
  "rpc_call cd val pub api srv i m arg a =
     (case Call_begin cd api (ra_connected a) m (map_option val arg) (ra_client a, ra_node a) of
        (Inl e, c, n) \<Rightarrow> (OFail ''Error: '', a\<lparr>ra_client := c, ra_node := n\<rparr>)
      | (Inr (reqID, respCh), c, n) \<Rightarrow>
          let a1 = fold (rpc_on_message cd pub api srv) (rl_meanwhile i) (a\<lparr>ra_client := c, ra_node := n\<rparr>)
          in (case rpc_wait (rl_late i) (rl_pick i) reqID respCh (ra_client a1) of
                (Inl e, c') \<Rightarrow> (OFail ''Error: '', a1\<lparr>ra_client := c'\<rparr>)
              | (Inr result, c') \<Rightarrow> (OText (''Result: '' @ bytes_str result), a1\<lparr>ra_client := c'\<rparr>)))"

definition rpc_round :: "'v rpc_codec \<Rightarrow> (rpc_arg \<Rightarrow> 'v) \<Rightarrow> bytes \<Rightarrow> ('n, 'e, 'ma) node_api \<Rightarrow> 'v RPCServer \<Rightarrow> rpc_line \<Rightarrow>
    out list \<times> 'n rpc_app \<Rightarrow> (out list \<times> 'n rpc_app) prompt_round" where
  "rpc_round cd val pub api srv i s =
     (case rpc_parse (ra_connected (snd s)) (rl_text i) of
        RpcQuit \<Rightarrow> Return s
      | RpcNoPeer \<Rightarrow> Continue (fst s @ [OText ''No peer connected. Use --peer to connect.''], snd s)
      | RpcCall m arg \<Rightarrow> (case rpc_call cd val pub api srv i m arg (snd s) of (o', a) \<Rightarrow> Continue (fst s @ [o'], a))
      | RpcUnknown \<Rightarrow> Continue (fst s @ [OText ''Unknown command''], snd s))"

text \<open>The goroutine that connects discards the errors of the parsers and then dereferences a nil pointer: \<open>None\<close>.\<close>

definition rpc_connect :: "(string \<Rightarrow> (addr_err, peer_id \<times> 'ma list) result) \<Rightarrow> bytes \<Rightarrow> ('n, 'e, 'ma) node_api \<Rightarrow> string \<Rightarrow>
    peerStates \<times> 'n \<Rightarrow> (bool \<times> peerStates \<times> 'n) option" where
  "rpc_connect parse pub api peerAddr w =
     (case parse peerAddr of
        Inl e \<Rightarrow> None
      | Inr (p, addrs) \<Rightarrow> Some (connectToPeer (rpc_params pub) False None api p addrs w))"

definition rpc_poll :: "bytes \<Rightarrow> ('n, 'e, 'ma) node_api \<Rightarrow> peer_id \<Rightarrow> peerStates \<times> 'n \<Rightarrow> bool \<times> peerStates \<times> 'n" where
  "rpc_poll pub api p w = poll_round (rpc_params pub) False False api p w"

definition rpc_quits :: "string \<Rightarrow> bool" where
  "rpc_quits line \<longleftrightarrow> word_at 0 (scan_words (rune_chunks line)) \<in> {''quit'', ''exit''}"

lemma rpc_parse_quit: "rpc_parse target line = RpcQuit \<longleftrightarrow> rpc_quits line"
  by (auto simp: rpc_parse_def rpc_quits_def Let_def split: prod.splits)

interpretation rpcp: prompt "rpc_round cd val pub api srv" "\<lambda>i. rpc_quits (rl_text i)" "\<lambda>s. s"
proof unfold_locales
  show "rpc_round cd val pub api srv i s = Return s" if "rpc_quits (rl_text i)" for i s
    using that rpc_parse_quit [of "ra_connected (snd s)" "rl_text i"] by (simp add: rpc_round_def)
  show "rpc_round cd val pub api srv i s \<noteq> Return s'" if "\<not> rpc_quits (rl_text i)" for i s s'
    using that rpc_parse_quit [of "ra_connected (snd s)" "rl_text i"] by (auto simp: rpc_round_def split: rpc_cmd.splits prod.splits)
qed

section \<open>Cluster\<close>

definition cluster_boot :: "(string \<Rightarrow> 'ma) \<Rightarrow> ('ma, 'txt) nenv \<Rightarrow> boot_in \<Rightarrow> 'txt filesys \<Rightarrow> 'l \<Rightarrow> 'm \<Rightarrow> int \<Rightarrow> bytes option \<Rightarrow>
    (boot_err, bytes \<times> goroutine list \<times> ('ma, 'txt, 'st, 'l, 'm, 'cb) node) result option" where
  "cluster_boot maddr env i fs l m port key = boot maddr env i fs l m (''./addressbook-cluster-'' @ show_int port @ ''.json'') (listen_on port) key"

text \<open>\<^verbatim>\<open>Start\<close> starts four goroutines.\<close>

datatype cluster_routine = HandleMessages | HandleEvents | GossipRoutine | PingRoutine

definition cluster_Start :: "cluster_routine list" where
  "cluster_Start = [HandleMessages, HandleEvents, GossipRoutine, PingRoutine]"

datatype line_cmd = LineBlank | LineQuit | LineCmd string "string option"

text \<open>The lines of \<^verbatim>\<open>cluster\<close> and \<^verbatim>\<open>blockberry-integration\<close>: a command, and the rest of the line after the first blank.\<close>

definition line_parse :: "string \<Rightarrow> line_cmd" where
  "line_parse text =
     (let line = TrimSpace text; parts = SplitN2 line; com = hd parts in
      if line = [] then LineBlank
      else if com = ''quit'' \<or> com = ''exit'' then LineQuit
      else LineCmd com (if length parts < 2 then None else Some (parts ! 1)))"

text \<open>A line with the readings of the clock and the order in which maps are visited.\<close>

record cmd_line =
  cl_text :: string
  cl_t1 :: int
  cl_t2 :: int
  cl_order :: "peer_id list"
  cl_hashes :: "string list"

definition member_line :: "(int \<Rightarrow> string) \<Rightarrow> cl_PeerInfo \<Rightarrow> out" where
  "member_line tm m = OText (''  '' @ pi_Name m @ '' ('' @ take 8 (pi_PeerID m) @ '') - last seen: '' @ tm (pi_LastSeen m))"

definition cluster_cmd :: "'ma cluster_codec \<Rightarrow> (int \<Rightarrow> string) \<Rightarrow> ('n, 'e, 'ma) node_api \<Rightarrow> cmd_line \<Rightarrow> string \<Rightarrow> string option \<Rightarrow>
    ClusterNode \<times> 'n \<Rightarrow> out list \<times> ClusterNode \<times> 'n" where
  "cluster_cmd cd tm api i com arg w =
     (if com = ''msg'' then
        (case arg of
           None \<Rightarrow> ([OText ''Usage: msg <message>''], w)
         | Some content \<Rightarrow> ([OText ''Message broadcast sent''], Broadcast cd api (cl_t1 i) (cl_t2 i) (cl_order i) content w))
      else if com = ''connect'' then
        (case arg of
           None \<Rightarrow> ([OText ''Usage: connect <multiaddr>''], w)
         | Some addr \<Rightarrow> (case ConnectPeer cd api addr w of (e, w') \<Rightarrow> (if e = None then [] else [OFail ''Connect failed: ''], w')))
      else if com = ''members'' then
        (let ms = Members (cl_order i) (fst w)
         in (OText (''Cluster members ('' @ show_decimal (length ms) @ ''):'') # map (member_line tm) ms, w))
      else ([OText ''Unknown command''], w))"

definition cluster_round :: "'ma cluster_codec \<Rightarrow> (int \<Rightarrow> string) \<Rightarrow> ('n, 'e, 'ma) node_api \<Rightarrow> cmd_line \<Rightarrow>
    out list \<times> ClusterNode \<times> 'n \<Rightarrow> (out list \<times> ClusterNode \<times> 'n) prompt_round" where
  "cluster_round cd tm api i s =
     (case line_parse (cl_text i) of
        LineBlank \<Rightarrow> Continue s
      | LineQuit \<Rightarrow> Return s
      | LineCmd com arg \<Rightarrow> (case cluster_cmd cd tm api i com arg (snd s) of (os, w) \<Rightarrow> Continue (fst s @ os, w)))"

text \<open>
  The program: a peer to start with is connected to before the loop. When the loop is left, the deferred \<^verbatim>\<open>Stop\<close> ends the routines.
\<close>

definition cluster_main :: "'ma cluster_codec \<Rightarrow> (int \<Rightarrow> string) \<Rightarrow> ('n, 'e, 'ma) node_api \<Rightarrow> string \<Rightarrow> bytes \<Rightarrow> string \<Rightarrow> cmd_line list \<Rightarrow> 'n \<Rightarrow>
    (out list \<times> ClusterNode \<times> 'n) option" where
  "cluster_main cd tm api name pub bootstrap lines n =
     (let w = (NewClusterNode name pub, n);
          s = (if bootstrap = [] then ([], w)
               else case ConnectPeer cd api bootstrap w of
                 (e, w') \<Rightarrow> (OText ''Connecting to bootstrap peer...'' # (if e = None then [] else [OFail ''Failed to connect to bootstrap: '']), w')) in
      case prompt_loop (cluster_round cd tm api) lines s of
        Panic \<Rightarrow> None
      | Continue (os, c, n') \<Rightarrow> map_option (\<lambda>c'. (os, c', n')) (cluster_Stop c)
      | Return (os, c, n') \<Rightarrow> map_option (\<lambda>c'. (os, c', n')) (cluster_Stop c))"

interpretation clp: prompt "cluster_round cd tm api" "\<lambda>i. line_parse (cl_text i) = LineQuit" "\<lambda>s. s"
  by unfold_locales (auto simp: cluster_round_def split: line_cmd.splits prod.splits)

section \<open>Blockchain\<close>

definition chain_boot :: "(string \<Rightarrow> 'ma) \<Rightarrow> ('ma, 'txt) nenv \<Rightarrow> boot_in \<Rightarrow> 'txt filesys \<Rightarrow> 'l \<Rightarrow> 'm \<Rightarrow> int \<Rightarrow> bytes option \<Rightarrow>
    (boot_err, bytes \<times> goroutine list \<times> ('ma, 'txt, 'st, 'l, 'm, 'cb) node) result option" where
  "chain_boot maddr env i fs l m port key = boot maddr env i fs l m (''./addressbook-blockchain-'' @ show_int port @ ''.json'') (listen_on port) key"

datatype chain_routine = ChainMessages | ChainEvents

definition chain_Start :: "chain_routine list" where
  "chain_Start = [ChainMessages, ChainEvents]"

definition hex_text_digit :: "nat \<Rightarrow> char" where
  "hex_text_digit d = (if d < 10 then char_of (48 + d) else char_of (87 + d))"

fun hex_text :: "nat \<Rightarrow> string" where
  "hex_text n = (if n < 16 then [hex_text_digit n] else hex_text (n div 16) @ [hex_text_digit (n mod 16)])"

declare hex_text.simps [simp del]

text \<open>The hash of a transaction: sixteen characters of the time in nanoseconds; a shorter text panics.\<close>

definition tx_hash :: "int \<Rightarrow> string option" where
  "tx_hash nanos =
     (let t = (if nanos < 0 then ''-'' @ hex_text (nat (- nanos)) else hex_text (nat nanos))
      in if length t < 16 then None else Some (take 16 t))"

definition peer_line :: "(peer_id \<Rightarrow> string) \<Rightarrow> peer_id \<times> PeerState \<Rightarrow> out" where
  "peer_line short pp =
     (case pp of (pid, p) \<Rightarrow>
        OText (''  '' @ pst_NodeID p @ '' ('' @ short pid @ '') - height: '' @ show_decimal (unat (pst_Height p)) @ '', score: '' @ show_int (pst_Score p) @ '', '' @
          (if pst_IsOutbound p then ''outbound'' else ''inbound'')))"

text \<open>The loop over the mempool takes eight characters of each hash; a shorter one panics.\<close>

fun mempool_lines :: "(string \<times> Transaction) list \<Rightarrow> out list option" where
  "mempool_lines [] = Some []"
| "mempool_lines ((hash, tx) # txs) =
     (if length hash < 8 then None
      else map_option (\<lambda>os. OText (''  '' @ take 8 hash @ '': '' @ bytes_str (tx_Data tx)) # os) (mempool_lines txs))"

definition chain_cmd :: "'ma chain_codec \<Rightarrow> (peer_id \<Rightarrow> string) \<Rightarrow> ('n, 'e, 'ma) node_api \<Rightarrow> cmd_line \<Rightarrow> string \<Rightarrow> string option \<Rightarrow>
    BlockchainNode \<times> 'n \<Rightarrow> (out list \<times> BlockchainNode \<times> 'n) option" where
  "chain_cmd cd short api i com arg w =
     (if com = ''connect'' then
        Some (case arg of
                None \<Rightarrow> ([OText ''Usage: connect <multiaddr>''], w)
              | Some addr \<Rightarrow> (case bc_Connect cd api addr w of (e, w') \<Rightarrow> (if e = None then [] else [OFail ''Connect failed: ''], w')))
      else if com = ''tx'' then
        map_option (\<lambda>hash.
            let tx = \<lparr>tx_Hash = hash, tx_Data = str_bytes (case arg of None \<Rightarrow> ''test transaction'' | Some d \<Rightarrow> d), tx_Timestamp = cl_t2 i\<rparr>
            in ([OText (''Broadcast tx: '' @ hash)], BroadcastTransaction cd api (cl_order i) tx w))
          (tx_hash (cl_t1 i))
      else if com = ''propose'' then
        Some ([OText (''[Consensus] Proposed block at height '' @ show_decimal (unat (Height (fst w) + 1)))], ProposeBlock cd api (cl_order i) w)
      else if com = ''height'' then
        Some (case arg of
                None \<Rightarrow> ([OText (''Current height: '' @ show_decimal (unat (Height (fst w))))], w)
              | Some t \<Rightarrow>
                  let h = (case scanUint64 (rune_chunks t) of None \<Rightarrow> 0 | Some h \<Rightarrow> h)
                  in ([OText (''Height set to '' @ show_decimal (unat h))], SetHeight h (fst w), snd w))
      else if com = ''peers'' then
        (let ps = List.map_filter (\<lambda>p. map_option (Pair p) (Peers (fst w) p)) (cl_order i)
         in Some (OText (''Connected peers ('' @ show_decimal (length ps) @ ''):'') # map (peer_line short) ps, w))
      else if com = ''mempool'' then
        (let txs = List.map_filter (\<lambda>h. map_option (Pair h) (bn_mempool (fst w) h)) (cl_hashes i)
         in map_option (\<lambda>os. (OText (''Mempool ('' @ show_decimal (length txs) @ '' txs):'') # os, w)) (mempool_lines txs))
      else Some ([OText ''Unknown command''], w))"

definition chain_round :: "'ma chain_codec \<Rightarrow> (peer_id \<Rightarrow> string) \<Rightarrow> ('n, 'e, 'ma) node_api \<Rightarrow> cmd_line \<Rightarrow>
    out list \<times> BlockchainNode \<times> 'n \<Rightarrow> (out list \<times> BlockchainNode \<times> 'n) prompt_round" where
  "chain_round cd short api i s =
     (case line_parse (cl_text i) of
        LineBlank \<Rightarrow> Continue s
      | LineQuit \<Rightarrow> Return s
      | LineCmd com arg \<Rightarrow>
          (case chain_cmd cd short api i com arg (snd s) of
             None \<Rightarrow> Panic
           | Some (os, w) \<Rightarrow> Continue (fst s @ os, w)))"

definition chain_main :: "'ma chain_codec \<Rightarrow> (peer_id \<Rightarrow> string) \<Rightarrow> ('n, 'e, 'ma) node_api \<Rightarrow> string \<Rightarrow> string \<Rightarrow> bytes \<Rightarrow> string \<Rightarrow> cmd_line list \<Rightarrow> 'n \<Rightarrow>
    (out list \<times> BlockchainNode \<times> 'n) prompt_round" where
  "chain_main cd short api chainID genesis pub peerAddr lines n =
     (let w = (NewBlockchainNode chainID genesis pub, n);
          s = (if peerAddr = [] then ([], w)
               else case bc_Connect cd api peerAddr w of
                 (e, w') \<Rightarrow> (OText ''Connecting to peer...'' # (if e = None then [] else [OFail ''Connect failed: '']), w'))
      in prompt_loop (chain_round cd short api) lines s)"

interpretation bcp: prompt "chain_round cd short api" "\<lambda>i. line_parse (cl_text i) = LineQuit" "\<lambda>s. s"
  by unfold_locales (auto simp: chain_round_def split: line_cmd.splits prod.splits option.splits)

section \<open>Lemmas\<close>

lemma length_hex_text: "0 < k \<Longrightarrow> length (hex_text n) \<le> k \<longleftrightarrow> n < 16 ^ k"
proof (induction k arbitrary: n)
  case (Suc k)
  show ?case
  proof (cases "n < 16")
    case True
    have "n < 16 ^ Suc k" by (rule less_le_trans [OF True]) simp
    then show ?thesis using True by (simp add: hex_text.simps [of n])
  next
    case False
    then have l: "length (hex_text n) = Suc (length (hex_text (n div 16)))" by (simp add: hex_text.simps [of n])
    show ?thesis
    proof (cases "k = 0")
      case True
      have "hex_text (n div 16) \<noteq> []" by (simp add: hex_text.simps [of "n div 16"])
      then show ?thesis using True False l by simp
    next
      case nz: False
      then show ?thesis using l Suc.IH [of "n div 16"] by (simp add: less_mult_imp_div_less div_less_iff_less_mult mult.commute)
    qed
  qed
qed simp

lemma cluster_cmd_running: "cn_stopped (fst (snd (cluster_cmd cd tm api i com arg w))) = cn_stopped (fst w)"
  by (auto simp: cluster_cmd_def Broadcast_def ConnectPeer_def mark_seen_def Let_def split: option.splits prod.splits sum.splits)

lemma cluster_round_running:
  "cluster_round cd tm api i s \<noteq> Panic"
  "cluster_round cd tm api i s = Continue s' \<Longrightarrow> cn_stopped (fst (snd s')) = cn_stopped (fst (snd s))"
  "cluster_round cd tm api i s = Return s' \<Longrightarrow> s' = s"
proof -
  show "cn_stopped (fst (snd s')) = cn_stopped (fst (snd s))" if "cluster_round cd tm api i s = Continue s'"
  proof (cases "line_parse (cl_text i)")
    case (LineCmd com arg)
    then show ?thesis using that cluster_cmd_running [of cd tm api i com arg "snd s"] by (auto simp: cluster_round_def split: prod.splits)
  qed (use that in \<open>simp_all add: cluster_round_def\<close>)
qed (auto simp: cluster_round_def split: line_cmd.splits prod.splits)

lemma cluster_loop_running:
  "\<exists>s'. prompt_loop (cluster_round cd tm api) is s \<in> {Continue s', Return s'} \<and> cn_stopped (fst (snd s')) = cn_stopped (fst (snd s))"
proof (induction "is" arbitrary: s)
  case (Cons i "is")
  show ?case
  proof (cases "cluster_round cd tm api i s")
    case (Continue s1)
    then show ?thesis using Cons.IH [of s1] cluster_round_running(2) [OF Continue] by simp
  next
    case (Return s1)
    then show ?thesis using cluster_round_running(3) [OF Return] by auto
  qed (simp add: cluster_round_running(1))
qed auto

text \<open>The call of a line is over when the next line is read: its entry is gone, whatever came in between.\<close>

lemma HandleResponse_pending: "pending (HandleResponse cd d c) = pending c"
  by (simp add: HandleResponse_def split: option.splits)

lemma rpc_on_message_pending: "pending (ra_client (rpc_on_message cd pub api srv m a)) = pending (ra_client a)"
  by (simp add: rpc_on_message_def HandleResponse_pending split: prod.splits)

lemma rpc_messages_pending: "pending (ra_client (fold (rpc_on_message cd pub api srv) ms a)) = pending (ra_client a)"
  by (induction ms arbitrary: a) (simp_all add: rpc_on_message_pending)

lemma rpc_wait_pending: "pending (snd (rpc_wait late pick reqID respCh c)) = (pending c)(reqID := None)"
  by (auto simp: rpc_wait_def Call_end_def Call_cleanup_def split: option.splits recv.splits prod.splits)

section \<open>Properties\<close>

text \<open>
  The cluster program ends cleanly: whatever lines are typed and whatever the node's calls return, no command panics, and when the input ends or a line quits the
  routines are stopped, once.
\<close>

theorem cluster_main_returns: "\<exists>os c n'. cluster_main cd tm api name pub bootstrap lines n = Some (os, c, n') \<and> cn_stopped c"
proof -
  define s where "s = (if bootstrap = [] then ([], NewClusterNode name pub, n)
     else case ConnectPeer cd api bootstrap (NewClusterNode name pub, n) of
       (e, w') \<Rightarrow> (OText ''Connecting to bootstrap peer...'' # (if e = None then [] else [OFail ''Failed to connect to bootstrap: '']), w'))"
  have "\<not> cn_stopped (fst (snd s))"
    by (auto simp: s_def NewClusterNode_def ConnectPeer_def Let_def split: prod.splits sum.splits option.splits)
  then show ?thesis using cluster_loop_running [of cd tm api lines s]
    by (auto simp: cluster_main_def s_def [symmetric] cluster_Stop_def)
qed

text \<open>A line \<^verbatim>\<open>msg\<close> broadcasts the text after the first blank as it was typed, without the white space at its end.\<close>

theorem cluster_line_broadcasts:
  assumes "TrimSpace (cl_text i) = ''msg '' @ content"
  shows "cluster_round cd tm api i (os, w) =
     Continue (os @ [OText ''Message broadcast sent''], Broadcast cd api (cl_t1 i) (cl_t2 i) (cl_order i) content w)"
  using assms by (simp add: cluster_round_def line_parse_def SplitN2_def cluster_cmd_def Let_def)

text \<open>
  The flag \<^verbatim>\<open>-send\<close> of the file program: the file is sent to every peer whose connection is established, not only to the one that \<^verbatim>\<open>-peer\<close> names, and the program never
  reads a command nor returns.
\<close>

theorem file_goes_to_every_peer:
  assumes "sendFile \<noteq> []" and "peerAddr \<noteq> []"
  shows "fc_sends (fold (\<lambda>(p, st). file_on_event short sendFile peerAddr p st) evs c) =
       fc_sends c @ map (\<lambda>(p, st). (p, sendFile)) (filter (\<lambda>(p, st). st = PubEstablished) evs) \<and>
     file_main_loop decode sendFile lines c = None"
proof -
  have "fc_sends (file_on_event short sendFile peerAddr p st c) = fc_sends c @ (if st = PubEstablished then [(p, sendFile)] else [])" for p st c
    using assms by (cases st) (simp_all add: file_on_event_def file_say_def)
  then have "fc_sends (fold (\<lambda>(p, st). file_on_event short sendFile peerAddr p st) evs c) =
      fc_sends c @ map (\<lambda>(p, st). (p, sendFile)) (filter (\<lambda>(p, st). st = PubEstablished) evs)"
    by (induction evs arbitrary: c) auto
  then show ?thesis using assms by (simp add: file_main_loop_def)
qed

text \<open>
  A call made at the prompt of the RPC program always ends (with the response, an error, or after ten seconds), and then nothing of it is left in the client, while
  the other calls in flight are untouched.
\<close>

theorem rpc_line_ends_its_call:
  assumes "rpc_call cd val pub api srv i m arg a = (o', a')"
  shows "pending (ra_client a') = (pending (ra_client a))(nextID (ra_client a) + 1 := None)"
proof -
  obtain r c n where b: "Call_begin cd api (ra_connected a) m (map_option val arg) (ra_client a, ra_node a) = (r, c, n)" by (metis surj_pair)
  show ?thesis
  proof (cases r)
    case (Inl e)
    then show ?thesis using b assms
      by (auto simp: rpc_call_def Call_begin_def Call_cleanup_def Let_def split: option.splits prod.splits)
  next
    case (Inr q)
    then obtain reqID respCh where q: "r = Inr (reqID, respCh)" by (cases q) auto
    have p: "pending c = (pending (ra_client a))(nextID (ra_client a) + 1 \<mapsto> respCh)" "reqID = nextID (ra_client a) + 1"
      using b q by (auto simp: Call_begin_def Let_def split: option.splits prod.splits)
    let ?a1 = "fold (rpc_on_message cd pub api srv) (rl_meanwhile i) (a\<lparr>ra_client := c, ra_node := n\<rparr>)"
    have "ra_client a' = snd (rpc_wait (rl_late i) (rl_pick i) reqID respCh (ra_client ?a1))"
      using assms b q by (auto simp: rpc_call_def Let_def split: prod.splits sum.splits)
    then show ?thesis using p by (simp add: rpc_wait_pending rpc_messages_pending)
  qed
qed

text \<open>With a blank before the command, \<^verbatim>\<open>echo\<close> ignores what was typed and sends \<^verbatim>\<open>hello\<close>.\<close>

theorem padded_echo_says_hello:
  assumes "target \<noteq> []" and "word_at 0 (scan_words (rune_chunks ('' '' @ line))) = ''echo''"
  shows "rpc_parse target ('' '' @ line) = RpcCall ''echo'' (Some (EchoParams ''hello''))"
proof -
  have "rune_chunks ('' '' @ line) = byte_chunk CHR '' '' # rune_chunks line"
    using rune_chunks_ascii_append [of "'' ''" line] by (simp add: ascii_def)
  then have "scan_literal ''echo'' (rune_chunks ('' '' @ line)) = None" by (simp add: scan_literal_def byte_chunk_def string_bytes_def Let_def)
  then show ?thesis using assms by (simp add: rpc_parse_def echo_word_def Let_def)
qed

text \<open>A height that is not a number, or too large for 64 bits, sets the height of the chain to zero without an error.\<close>

theorem bad_height_resets_chain:
  assumes "scanUint64 (rune_chunks t) = None"
  shows "chain_cmd cd short api i ''height'' (Some t) (b, n) = Some ([OText ''Height set to 0''], b\<lparr>bn_height := 0\<rparr>, n)"
proof -
  have "show_decimal 0 = ''0''" by (simp add: show_decimal.simps digit_char_def char_of_def bit_0)
  then show ?thesis using assms by (simp add: chain_cmd_def SetHeight_def)
qed

text \<open>
  The command \<^verbatim>\<open>tx\<close> panics exactly when the clock, in nanoseconds, has fewer than sixteen hexadecimal digits: before the middle of July 2006, and from
  1967 on.
\<close>

theorem tx_panics_iff: "chain_cmd cd short api i ''tx'' arg w = None \<longleftrightarrow> - (16 ^ 14) < cl_t1 i \<and> cl_t1 i < 16 ^ 15"
proof -
  define x y :: int where "x = 16 ^ 14" and "y = 16 ^ 15"
  have "length (hex_text k) < 16 \<longleftrightarrow> int k < y" "length (hex_text k) < 15 \<longleftrightarrow> int k < x" for k
    using length_hex_text [of 15 k] length_hex_text [of 14 k] by (simp_all add: x_def y_def less_Suc_eq_le numeral_eq_Suc del: power_Suc)
  moreover have "0 < x" "0 < y" by (simp_all add: x_def y_def)
  ultimately have "tx_hash t = None \<longleftrightarrow> - x < t \<and> t < y" for t by (auto simp: tx_hash_def Let_def)
  then have "tx_hash t = None \<longleftrightarrow> - (16 ^ 14) < t \<and> t < 16 ^ 15" for t by (simp only: x_def y_def)
  then show ?thesis by (simp add: chain_cmd_def)
qed

section \<open>Concrete inputs\<close>

lemma toy_padded: "word_at 0 (scan_words (rune_chunks ('' '' @ ''echo hi''))) = ''echo''"
proof -
  have "rune_chunks ('' '' @ ''echo hi'') = map byte_chunk ('' '' @ ''echo hi'')" by (rule rune_chunks_ascii) (simp add: ascii_def)
  then show ?thesis
    by (simp add: scan_words_def word_at_def space_chunk_def byte_chunk_def fmt_isSpace_def in_range_def token_text_def rune_text_def RuneError_def)
qed

theorem padded_echo_says_hello_witness: "rpc_parse ''p'' ('' '' @ ''echo hi'') = RpcCall ''echo'' (Some (EchoParams ''hello''))"
  by (rule padded_echo_says_hello [OF _ toy_padded]) simp

theorem bad_height_resets_chain_witness:
  "chain_cmd toy_chain (\<lambda>p. p) (calm_api ''p'') i ''height'' (Some ''x'') (b, ()) = Some ([OText ''Height set to 0''], b\<lparr>bn_height := 0\<rparr>, ())"
proof -
  have "rune_chunks ''x'' = map byte_chunk ''x''" by (rule rune_chunks_ascii) (simp add: ascii_def)
  then have "scanUint64 (rune_chunks ''x'') = None"
    by (simp add: scanUint64_def scanNumber_def space_chunk_def byte_chunk_def fmt_isSpace_def in_range_def digit_chunk_def is_decimal_def)
  then show ?thesis by (rule bad_height_resets_chain)
qed

end
