(* ===== verification/Spec2Isabelle.thy ===== *)
theory Spec2Isabelle
  imports Version Errors Pool Handshake NodeSystem Debug FileLocks Host Observability Filtered Console
begin

text \<open>
  A verification development of Glueberry, a Go library for authenticated and encrypted peer-to-peer messaging on top
  of libp2p. Paths are relative to \<^verbatim>\<open>src/\<close>.

  \<^bold>\<open>The program.\<close> A node (\<^verbatim>\<open>node.go\<close>) is built from a configuration. It owns a cryptography module (key conversion,
  Diffie-Hellman, a cache of shared keys), a persistent address book with a blacklist, a connection manager (one state machine
  per peer, handshake timers, cooldown, reconnection with backoff), a connection gater, a stream manager (encrypted streams per peer and
  one unencrypted handshake stream), an event dispatcher, and flow controllers. The connection manager asks the address book for
  addresses and for the blacklist, calls the host to dial, and emits events; the stream manager asks the cryptography module for the
  key of a peer, opens streams lazily and passes decrypted messages to a channel. Two goroutines of the node forward messages and events
  to the application, the latter to any number of subscriptions, and count what is sent and received per peer.

  \<^bold>\<open>How the code is modelled.\<close>
  A struct is a record and an enumeration a datatype, with the names of the source (prefixed where a name is used twice).
  A method is a function from the state to its result and the new state; a Go error is a value of a sum or option type, one constructor per
  error the code can return; a panic is \<open>None\<close>. A method that releases its lock is split into its critical sections, and the method is
  their sequence; where goroutines interleave, the sections are the steps of a relation and properties are shown of all runs.
  Pointers that several goroutines hold are numbers into stores. Slices with key material are addresses in a store of buffers, so that
  zeroing is visible. Times and durations are integers of nanoseconds, 64-bit arithmetic is wrapped where it can overflow, bytes are 8-bit words.
  The results of the outside world (system calls, the network, the clock, random numbers, the order in which a Go map is visited, when a context is
  done) are inputs. Third-party code (libp2p, the curve and cipher primitives, JSON and multiaddress codecs) is a parameter;
  what the theorems need of it is a named hypothesis, and each such theorem has a concrete instance.

  \<^bold>\<open>Theories.\<close>
  \<^item> \<open>Prelude\<close>: contexts, results, wrapping, runs of a step relation, and the interfaces \<open>invariant_system\<close> (an invariant that all steps keep),
    \<open>simulation\<close> (a step relation that implements another) and \<open>closable\<close> (a component that can be closed again and again and stays closed). \<open>Channels\<close>: Go channels and the interface \<open>bounded_fifo\<close>
    of a queue that drops what does not fit. \<open>Runes\<close>: UTF-8 decoding and the character classes of the standard library.
  \<^item> \<open>Errors\<close> (\<^verbatim>\<open>errors.go\<close>), \<open>Validation\<close> (\<^verbatim>\<open>validation.go\<close>), \<open>Version\<close> (\<^verbatim>\<open>version.go\<close>, with \<^verbatim>\<open>fmt.Sscanf\<close> as far as it is used),
    \<open>Config\<close> (\<^verbatim>\<open>config.go\<close>): exact characterisations of what is accepted, round trip of versions, defaulting.
  \<^item> \<open>Pool\<close> (\<^verbatim>\<open>internal/pool\<close>), \<open>Flow\<close> (\<^verbatim>\<open>internal/flow\<close>), \<open>Handshake\<close> (\<^verbatim>\<open>internal/handshake\<close>), \<open>Dispatch\<close> (\<^verbatim>\<open>internal/eventdispatch\<close>):
    an invariant for each and what it gives the clients; the flow controller is shown for any number of waiting goroutines.
  \<^item> \<open>Storage\<close> and \<open>AddressBook\<close> (\<^verbatim>\<open>pkg/addressbook\<close>): the file operations of a save under faults of each system call, the JSON round trip,
    the operations of the book as a refinement of a map, the blacklist (interface \<open>blacklist_store\<close>). \<open>FileLocks\<close> (\<^verbatim>\<open>storage_unix.go\<close>, \<^verbatim>\<open>storage_windows.go\<close>): the
    lock file between processes, from the interface \<open>exclusive_lock\<close> that \<^verbatim>\<open>flock\<close> and the byte-range locks of Windows provide.
    \<open>Gater\<close> (\<^verbatim>\<open>pkg/protocol/gater.go\<close>, \<^verbatim>\<open>ids.go\<close>) and \<open>Host\<close> (\<^verbatim>\<open>host.go\<close>, \<^verbatim>\<open>handlers.go\<close>): who is let in, what a host is made of, which handler serves a stream.
  \<^item> \<open>Connection\<close> (\<^verbatim>\<open>state.go\<close>, \<^verbatim>\<open>peer.go\<close>), \<open>Backoff\<close> (\<^verbatim>\<open>reconnect.go\<close>), \<open>ConnManager\<close> and \<open>ConnGoroutines\<close> (\<^verbatim>\<open>manager.go\<close> of \<^verbatim>\<open>pkg/connection\<close>): the methods
    run alone, then all interleavings of their critical sections with the timers and goroutines.
  \<^item> \<open>Crypto\<close> (\<^verbatim>\<open>pkg/crypto\<close>), \<open>Streams\<close> and \<open>StreamManager\<close> (\<^verbatim>\<open>pkg/streams\<close>): key agreement, encryption, where secrets remain in memory, delivery
    of messages, permissions of streams, and lazy opens interleaved with other calls.
  \<^item> \<open>Stats\<close> (\<^verbatim>\<open>stats.go\<close>): the counters are exact up to wrap-around, the nonce warning is given once. \<open>Subscriptions\<close> (\<^verbatim>\<open>events.go\<close> and the subscriptions of
    \<^verbatim>\<open>node.go\<close>): who receives which events, and which orders of calls panic. \<open>Filtered\<close> (\<^verbatim>\<open>FilteredEvents\<close>): the goroutine of a filtered subscription, interleaved with the rest.
  \<^item> \<open>Node\<close> (\<^verbatim>\<open>node.go\<close>): the state and methods of the node over those of the components. \<open>NodeMessaging\<close>: a message sent by one node is delivered by another
    (key agreement, handshake, stream, read loop and forwarding put together), and what a send counts. \<open>NodeLifecycle\<close>: what completing a handshake,
    disconnecting, blacklisting and stopping achieve. \<open>NodeSystem\<close>: all calls of the node, its goroutines and those of the connection
    manager as the steps of one system, with the invariant of the whole node and that calls return.
    \<open>Health\<close> (\<^verbatim>\<open>health.go\<close>) and \<open>Debug\<close> (\<^verbatim>\<open>debug.go\<close>): what the probes report and the dump shows.
  \<^item> \<open>Observability\<close> (\<^verbatim>\<open>metrics.go\<close>, \<^verbatim>\<open>logging.go\<close>, \<^verbatim>\<open>internal/observability\<close>): the library calls each report makes; names of metrics do not clash, the counters are exact and
    no report panics but one with a negative size.
  \<^item> \<open>MockNode\<close> (\<^verbatim>\<open>internal/testutil/mock.go\<close>): the mock as a specification of what was sent. \<open>NodeApi\<close>: the methods of a node that applications call, as a record, with the interface
    \<open>sending_node\<close> that the mock and any node whose calls are recorded (\<open>traced\<close>) provide.
  \<^item> Applications over \<open>NodeApi\<close> (\<^verbatim>\<open>examples/*/main.go\<close>): \<open>AppHandshake\<close> (the Hello, PubKey, Complete protocol of \<^verbatim>\<open>basic\<close>, \<^verbatim>\<open>simple-chat\<close>, \<^verbatim>\<open>rpc\<close> and \<^verbatim>\<open>file-transfer\<close>), \<open>FileTransfer\<close> (a file sent over an encrypted stream
    is saved unchanged), \<open>Rpc\<close> (calls in flight get their own answers), \<open>Flooding\<close> (the interface \<open>forwards_once\<close> of nodes that forward what is new to them: everyone is reached, and the traffic ends),
    \<open>Cluster\<close> and \<open>Blockchain\<close> (which implement it with broadcasts and transactions; the chain handshake).
  \<^item> The programs themselves: \<open>AppNode\<close> runs the applications on the node of \<open>Node\<close> (\<open>live_api\<close>), with frames that pass through its read loops and channels to the handlers, and shows
    what their handshake achieves on the node. \<open>GoText\<close>: the functions of \<^verbatim>\<open>strings\<close> and \<^verbatim>\<open>fmt.Sscanf\<close> that the prompts use. \<open>Prompt\<close>: how the programs start their node, the interface \<open>prompt\<close>
    of their command loops, and \<^verbatim>\<open>basic\<close> and \<^verbatim>\<open>simple-chat\<close>, up to a typed message that arrives at the other program. \<open>Console\<close>: the prompts of the four other programs.

  \<^bold>\<open>Bounds.\<close> Loops over data are structural recursions. The reconnection loop and the read loops run once per element of a list of inputs
  (one per round); \<open>reconnectionLoop_exhausts\<close> shows how many rounds are enough for the loop to return.
  A send waits once per element of its list of waits; \<open>send_accounts\<close> shows exactly when it does not return.

  The polling loops of the examples are modelled round by round. A broadcast in a cluster of n nodes is delivered at most n(n+1) + n times (\<open>broadcast_dies_out\<close>).

  \<^bold>\<open>Not modelled.\<close> The flags and banners of the examples, the package documentation \<^verbatim>\<open>doc.go\<close>, and accessors that return a field.
  libp2p, Prometheus, OpenTelemetry, JSON and multiaddress codecs are parameters.
  In \<open>NodeSystem\<close> the methods of the node run uninterrupted, with the steps of the connection manager's goroutines between them; the interleavings
  inside the stream manager, the flow controller and the subscriptions are modelled in those theories. The applications call a node through \<open>node_api\<close>, whose results
  are arbitrary unless a theorem says otherwise; in \<open>AppNode\<close> they are those of the node, called by the application's goroutine only.
\<close>

end
